(* ===== verification/SdsPrelude.thy ===== *)
theory SdsPrelude
  imports Main "HOL-Library.Word"
begin

text \<open>
  Shared vocabulary of the development: the integer widths of the firmware, the error
  codes of \<^verbatim>\<open>esp_err_t\<close> that the code returns or tests, C strings and the string
  functions of the C library the code calls (\<^verbatim>\<open>strlcpy\<close>, \<^verbatim>\<open>strncmp\<close>, \<^verbatim>\<open>strcasecmp\<close>,
  \<^verbatim>\<open>strncasecmp\<close>, \<^verbatim>\<open>snprintf\<close> of two strings), byte slices of files and buffers, and
  the lemmas about them that every component uses. A C string is a \<open>string\<close> without its
  terminating NUL; a byte buffer is a list of 8-bit words.
\<close>

unbundle bit_operations_syntax

type_synonym byte = "8 word"
type_synonym bytes = "byte list"
type_synonym u16 = "16 word"
type_synonym u32 = "32 word"

datatype esp_err =
    ESP_OK
  | ESP_FAIL
  | ESP_ERR_NO_MEM
  | ESP_ERR_INVALID_ARG
  | ESP_ERR_INVALID_STATE
  | ESP_ERR_INVALID_SIZE
  | ESP_ERR_NOT_FOUND
  | ESP_ERR_NOT_SUPPORTED
  | ESP_ERR_TIMEOUT
  | ESP_ERR_INVALID_RESPONSE

named_theorems disk_simps "unfolding rules of the disk operations"
named_theorems fdc_simps "unfolding rules of the FDC handlers"

section \<open>C strings\<close>

text \<open>\<^verbatim>\<open>strlcpy(dst, src, cap)\<close>: at most \<open>cap - 1\<close> characters are kept.\<close>

definition strlcpy :: "string \<Rightarrow> nat \<Rightarrow> string" where
  "strlcpy src cap = take (cap - 1) src"

text \<open>
  \<^verbatim>\<open>strncmp(a, b, n) == 0\<close> on NUL-terminated strings: the two agree on the first \<open>n\<close>
  characters, the NUL included (hence equal when one ends before \<open>n\<close>).
\<close>

definition strneq :: "string \<Rightarrow> string \<Rightarrow> nat \<Rightarrow> bool" where
  "strneq a b n \<longleftrightarrow> take n a = take n b"

definition tolower :: "char \<Rightarrow> char" where
  "tolower c = (let k = (of_char c :: nat) in if 65 \<le> k \<and> k \<le> 90 then char_of (k + 32) else c)"

definition strcaseeq :: "string \<Rightarrow> string \<Rightarrow> bool" where
  "strcaseeq a b \<longleftrightarrow> map tolower a = map tolower b"

definition strncaseeq :: "string \<Rightarrow> string \<Rightarrow> nat \<Rightarrow> bool" where
  "strncaseeq a b n \<longleftrightarrow> strcaseeq (take n a) (take n b)"

lemma length_strlcpy [simp]: "length (strlcpy s cap) = min (length s) (cap - 1)"
  by (simp add: strlcpy_def min_def)

lemma strlcpy_fits [simp]: "length s < cap \<Longrightarrow> strlcpy s cap = s"
  by (simp add: strlcpy_def)

lemma strlcpy_lt: "0 < cap \<Longrightarrow> length (strlcpy s cap) < cap"
  by simp

lemma strneq_refl [simp]: "strneq a a n"
  by (simp add: strneq_def)

lemma strneq_fits: "length a < n \<Longrightarrow> length b < n \<Longrightarrow> strneq a b n \<longleftrightarrow> a = b"
  by (simp add: strneq_def)

lemma strneq_strlcpy: "length a < n \<Longrightarrow> strneq a b n \<Longrightarrow> strlcpy b n = a"
proof -
  assume a: "length a < n" and e: "strneq a b n"
  then have "a = take n b" by (simp add: strneq_def)
  with a have "length b < n" by (metis length_take min_def not_le order_less_irrefl)
  with \<open>a = take n b\<close> show ?thesis by simp
qed

text \<open>ASCII text as the bytes that go on a wire, and bytes read back as characters.\<close>

definition ascii :: "string \<Rightarrow> bytes" where
  "ascii s = map of_char s"

definition chars :: "bytes \<Rightarrow> string" where
  "chars bs = map (\<lambda>b. char_of (unat b)) bs"

lemma length_ascii [simp]: "length (ascii s) = length s"
  by (simp add: ascii_def)

lemma length_chars [simp]: "length (chars bs) = length bs"
  by (simp add: chars_def)

section \<open>Slices of buffers and files\<close>

text \<open>
  The \<open>len\<close> bytes of \<open>d\<close> at \<open>off\<close>, and the file after \<open>w\<close> was written over them. A
  write that starts past the end leaves a gap, filled with zero bytes here; the code
  never makes one (it bounds-checks first), which the disk theory proves.
\<close>

definition slice :: "nat \<Rightarrow> nat \<Rightarrow> 'a list \<Rightarrow> 'a list" where
  "slice off len d = take len (drop off d)"

definition overwrite :: "nat \<Rightarrow> bytes \<Rightarrow> bytes \<Rightarrow> bytes" where
  "overwrite off w d =
     take off d @ replicate (off - length d) 0 @ w @ drop (off + length w) d"

lemma length_slice [simp]: "length (slice off len d) = min len (length d - off)"
  by (auto simp: slice_def min_def)

lemma length_slice_in: "off + len \<le> length d \<Longrightarrow> length (slice off len d) = len"
  by simp

lemma length_overwrite: "off + length w \<le> length d \<Longrightarrow> length (overwrite off w d) = length d"
  by (simp add: overwrite_def)

lemma slice_overwrite_same:
  "off + length w \<le> length d \<Longrightarrow> slice off (length w) (overwrite off w d) = w"
  by (simp add: overwrite_def slice_def)

lemma overwrite_nth_out:
  assumes "off + length w \<le> length d" "i < off \<or> off + length w \<le> i" "i < length d"
  shows "overwrite off w d ! i = d ! i"
  using assms by (auto simp: overwrite_def nth_append min_def)

lemma slice_cong_nth:
  assumes "length d = length d'" "\<And>i. off \<le> i \<Longrightarrow> i < off + len \<Longrightarrow> i < length d \<Longrightarrow> d ! i = d' ! i"
  shows "slice off len d = slice off len d'"
  using assms by (auto simp: slice_def intro!: nth_equalityI)

lemma slice_overwrite_disjoint:
  assumes "off + length w \<le> length d" "o2 + len \<le> off \<or> off + length w \<le> o2"
  shows "slice o2 len (overwrite off w d) = slice o2 len d"
  using assms by (intro slice_cong_nth) (auto simp: length_overwrite overwrite_nth_out)

lemma take_eq_slice: "take n xs = slice 0 n xs"
  by (simp add: slice_def)

lemma take_overlay: "length w \<le> length b \<Longrightarrow> take (length w) (w @ drop (length w) b) = w"
  by simp

text \<open>\<^verbatim>\<open>memcpy(buf, w, n)\<close> into the start of a fixed buffer.\<close>

definition memcpy0 :: "bytes \<Rightarrow> bytes \<Rightarrow> bytes" where
  "memcpy0 w buf = w @ drop (length w) buf"

lemma length_memcpy0: "length w \<le> length buf \<Longrightarrow> length (memcpy0 w buf) = length buf"
  by (simp add: memcpy0_def)

lemma take_memcpy0 [simp]: "take (length w) (memcpy0 w buf) = w"
  by (simp add: memcpy0_def)

section \<open>Words\<close>

lemma unat_u8_lt [simp]: "unat (x :: byte) < 256"
  using unsigned_less[of x, where ?'a = nat] by simp

lemma unat_u16_lt [simp]: "unat (x :: u16) < 65536"
  using unsigned_less[of x, where ?'a = nat] by simp

lemma unat_u32_lt [simp]: "unat (x :: u32) < 4294967296"
  using unsigned_less[of x, where ?'a = nat] by simp

lemma unat_ucast_8_16 [simp]: "unat (ucast (x :: byte) :: u16) = unat x"
  using less_trans[OF unat_u8_lt[of x]] by (simp add: unsigned_ucast_eq take_bit_nat_eq_self)

lemma unat_ucast_8_32 [simp]: "unat (ucast (x :: byte) :: u32) = unat x"
  using less_trans[OF unat_u8_lt[of x]] by (simp add: unsigned_ucast_eq take_bit_nat_eq_self)

lemma unat_ucast_16_32 [simp]: "unat (ucast (x :: u16) :: u32) = unat x"
  using less_trans[OF unat_u16_lt[of x]] by (simp add: unsigned_ucast_eq take_bit_nat_eq_self)

lemma unat_u32_mult: "unat a * unat b < 4294967296 \<Longrightarrow> unat ((a :: u32) * b) = unat a * unat b"
  by (simp add: unat_word_ariths)

lemma unat_u32_of_nat: "n < 4294967296 \<Longrightarrow> unat (of_nat n :: u32) = n"
  by (simp add: unat_of_nat)

lemma unat_u16_of_nat: "n < 65536 \<Longrightarrow> unat (of_nat n :: u16) = n"
  by (simp add: unat_of_nat)

end
