(* ===== verification/Protocol.thy ===== *)
theory Protocol
  imports SdsPrelude
begin

text \<open>
  The pure helpers of \<^verbatim>\<open>include/protocol.h\<close>: the 16-bit checksum and the little-endian
  words of the 10-byte command and response blocks, the drive and track fields of
  READ/WRIT, the 32-bit track-offset arithmetic with its overflow guard, and the STAT
  mount bitmap. Buffers are byte lists of the C array's size; a pointer into one is the
  list and an offset. The lemmas: block round trips and error detection, the bounds check
  against exact arithmetic, the bits of the bitmap.
\<close>

abbreviation (input) FDC_BLOCK_LEN :: nat where "FDC_BLOCK_LEN \<equiv> 10"
abbreviation (input) FDC_CMD_LEN :: nat where "FDC_CMD_LEN \<equiv> 4"
abbreviation (input) FDC_OFF_CMD :: nat where "FDC_OFF_CMD \<equiv> 0"
abbreviation (input) FDC_OFF_WORD1 :: nat where "FDC_OFF_WORD1 \<equiv> 4"
abbreviation (input) FDC_OFF_WORD2 :: nat where "FDC_OFF_WORD2 \<equiv> 6"
abbreviation (input) FDC_OFF_CKSUM :: nat where "FDC_OFF_CKSUM \<equiv> 8"
abbreviation (input) DISK_TRACK_BUF_SIZE :: nat where "DISK_TRACK_BUF_SIZE \<equiv> 8192"

datatype fdc_resp = FDC_RESP_OK | FDC_RESP_NOT_READY | FDC_RESP_CSUM_ERR | FDC_RESP_WRITE_ERR

primrec resp_code :: "fdc_resp \<Rightarrow> u16" where
  "resp_code FDC_RESP_OK = 0"
| "resp_code FDC_RESP_NOT_READY = 1"
| "resp_code FDC_RESP_CSUM_ERR = 2"
| "resp_code FDC_RESP_WRITE_ERR = 3"

section \<open>Checksum and little-endian words\<close>

definition fdc_checksum16 :: "bytes \<Rightarrow> u16" where
  "fdc_checksum16 data = fold (\<lambda>b sum. sum + ucast b) data 0"

definition fdc_read_le16 :: "bytes \<Rightarrow> nat \<Rightarrow> u16" where
  "fdc_read_le16 p off = ucast (p ! off) OR push_bit 8 (ucast (p ! Suc off))"

definition fdc_write_le16 :: "bytes \<Rightarrow> nat \<Rightarrow> u16 \<Rightarrow> bytes" where
  "fdc_write_le16 p off v = p[off := ucast v, Suc off := ucast (drop_bit 8 v)]"

definition fdc_block_finalize :: "bytes \<Rightarrow> bytes" where
  "fdc_block_finalize block =
     fdc_write_le16 block FDC_OFF_CKSUM (fdc_checksum16 (take FDC_OFF_CKSUM block))"

definition fdc_block_valid :: "bytes \<Rightarrow> bool" where
  "fdc_block_valid block \<longleftrightarrow>
     fdc_read_le16 block FDC_OFF_CKSUM = fdc_checksum16 (take FDC_OFF_CKSUM block)"

section \<open>Drive and track of READ/WRIT\<close>

definition fdc_word1_drive :: "u16 \<Rightarrow> byte" where
  "fdc_word1_drive word1 = ucast (drop_bit 12 word1)"

definition fdc_word1_track :: "u16 \<Rightarrow> u16" where
  "fdc_word1_track word1 = word1 AND 0x0FFF"

section \<open>Track geometry\<close>

definition disk_track_offset :: "u32 \<Rightarrow> u32 \<Rightarrow> u32" where
  "disk_track_offset track track_len = track * track_len"

definition disk_track_in_bounds :: "u32 \<Rightarrow> u32 \<Rightarrow> u32 \<Rightarrow> bool" where
  "disk_track_in_bounds track track_len image_size =
     (if track_len = 0 then False
      else if track > 0xFFFFFFFF div track_len then False
      else let off = track * track_len
           in if off > image_size then False
              else image_size - off \<ge> track_len)"

definition disk_track_count :: "u32 \<Rightarrow> u32 \<Rightarrow> u32" where
  "disk_track_count image_size track_len = (if track_len \<noteq> 0 then image_size div track_len else 0)"

section \<open>STAT bitmap\<close>

text \<open>The loop over \<open>i\<close>, from \<open>i\<close> upwards, with the bits collected so far.\<close>

function bitmap_loop :: "bool list \<Rightarrow> nat \<Rightarrow> nat \<Rightarrow> u16 \<Rightarrow> u16" where
  "bitmap_loop mounted count i bits =
     (if i < count \<and> i < 16
      then bitmap_loop mounted count (Suc i) (if mounted ! i then bits OR push_bit i 1 else bits)
      else bits)"
  by pat_completeness auto
termination
  by (relation "measure (\<lambda>(_, _, i, _). 16 - i)") auto

declare bitmap_loop.simps [simp del]

definition disk_status_bitmap_of :: "bool list \<Rightarrow> nat \<Rightarrow> u16" where
  "disk_status_bitmap_of mounted count = bitmap_loop mounted count 0 0"

section \<open>Lemmas: words in buffers\<close>

lemma le16_bytes: "(ucast (ucast v :: byte) :: u16) OR push_bit 8 (ucast (ucast (drop_bit 8 v) :: byte)) = v"
  by (rule bit_word_eqI) (auto simp: bit_simps)

lemma le16_inj:
  fixes a b a' b' :: byte
  assumes "(ucast a :: u16) OR push_bit 8 (ucast b) = ucast a' OR push_bit 8 (ucast b')"
  shows "a = a' \<and> b = b'"
proof
  have e: "bit ((ucast a :: u16) OR push_bit 8 (ucast b)) n = bit ((ucast a' :: u16) OR push_bit 8 (ucast b')) n" for n
    using assms by simp
  show "a = a'"
  proof (rule bit_word_eqI)
    fix n assume "n < LENGTH(8)"
    then show "bit a n = bit a' n" using e[of n] by (simp add: bit_simps)
  qed
  show "b = b'"
  proof (rule bit_word_eqI)
    fix n assume "n < LENGTH(8)"
    then show "bit b n = bit b' n" using e[of "n + 8"]
      by (auto simp: bit_simps dest: bit_imp_le_length)
  qed
qed

lemma length_write_le16 [simp]: "length (fdc_write_le16 p off v) = length p"
  by (simp add: fdc_write_le16_def)

lemma read_write_le16: "Suc off < length p \<Longrightarrow> fdc_read_le16 (fdc_write_le16 p off v) off = v"
  by (simp add: fdc_read_le16_def fdc_write_le16_def le16_bytes)

lemma read_write_le16_other:
  "Suc off < o2 \<or> Suc o2 < off \<Longrightarrow> fdc_read_le16 (fdc_write_le16 p off v) o2 = fdc_read_le16 p o2"
  by (auto simp: fdc_read_le16_def fdc_write_le16_def)

lemma take_write_le16 [simp]: "n \<le> off \<Longrightarrow> take n (fdc_write_le16 p off v) = take n p"
  by (simp add: fdc_write_le16_def)

lemma length_finalize [simp]: "length (fdc_block_finalize b) = length b"
  by (simp add: fdc_block_finalize_def)

lemma take_finalize [simp]: "n \<le> 8 \<Longrightarrow> take n (fdc_block_finalize b) = take n b"
  by (simp add: fdc_block_finalize_def)

lemma read_finalize: "Suc o2 < 8 \<Longrightarrow> fdc_read_le16 (fdc_block_finalize b) o2 = fdc_read_le16 b o2"
  by (simp add: fdc_block_finalize_def read_write_le16_other)

lemma finalize_valid: "length b = 10 \<Longrightarrow> fdc_block_valid (fdc_block_finalize b)"
  by (simp add: fdc_block_valid_def fdc_block_finalize_def read_write_le16)

section \<open>Lemmas: the checksum\<close>

lemma checksum_fold: "fold (\<lambda>b sum. sum + ucast b) data s = s + (\<Sum>b\<leftarrow>data. (ucast b :: u16))"
  by (induction data arbitrary: s) (simp_all add: ac_simps)

lemma checksum_sum: "fdc_checksum16 data = (\<Sum>b\<leftarrow>data. ucast b)"
  by (simp add: fdc_checksum16_def checksum_fold)

lemma checksum_append: "fdc_checksum16 (xs @ ys) = fdc_checksum16 xs + fdc_checksum16 ys"
  by (simp add: checksum_sum)

lemma ucast_byte_inj: "(ucast (a :: byte) :: u16) = ucast b \<longleftrightarrow> a = b"
  by (metis unat_ucast_8_16 word_unat_eq_iff)

lemma checksum_update:
  assumes "i < length data"
  shows "fdc_checksum16 (data[i := b]) = fdc_checksum16 data - ucast (data ! i) + ucast b"
proof -
  have "data = take i data @ data ! i # drop (Suc i) data"
    using assms by (simp add: id_take_nth_drop)
  then have "fdc_checksum16 data = fdc_checksum16 (take i data @ data ! i # drop (Suc i) data)"
    by simp
  moreover have "data[i := b] = take i data @ b # drop (Suc i) data"
    using assms by (simp add: upd_conv_take_nth_drop)
  ultimately show ?thesis by (simp add: checksum_sum)
qed

lemma checksum_update_neq:
  "i < length data \<Longrightarrow> b \<noteq> data ! i \<Longrightarrow> fdc_checksum16 (data[i := b]) \<noteq> fdc_checksum16 data"
  by (simp add: checksum_update ucast_byte_inj diff_add_eq [symmetric])

section \<open>Lemmas: geometry and bitmap\<close>

lemma unat_max_div: "b \<noteq> 0 \<Longrightarrow> a \<le> 0xFFFFFFFF div (b :: u32) \<longleftrightarrow> unat a * unat b < 4294967296"
proof -
  assume b: "b \<noteq> 0"
  have "a \<le> 0xFFFFFFFF div b \<longleftrightarrow> unat a \<le> 4294967295 div unat b"
    by (simp add: word_le_nat_alt unat_div)
  also have "\<dots> \<longleftrightarrow> unat a * unat b \<le> 4294967295"
    using b by (simp add: less_eq_div_iff_mult_less_eq unat_gt_0)
  finally show ?thesis by auto
qed

lemma bit_bitmap_loop:
  "bit (bitmap_loop m c i bits) n \<longleftrightarrow> bit bits n \<or> (i \<le> n \<and> n < c \<and> n < 16 \<and> m ! n)"
proof (induction m c i bits rule: bitmap_loop.induct)
  case (1 m c i bits)
  show ?case
  proof (cases "i < c \<and> i < 16")
    case True
    then show ?thesis
      by (subst bitmap_loop.simps) (auto simp: 1 bit_simps le_less_Suc_eq Suc_le_eq dest: le_neq_implies_less)
  next
    case False
    then show ?thesis by (subst bitmap_loop.simps) auto
  qed
qed

lemma read_le16_update_lo:
  "Suc off < length p \<Longrightarrow> b \<noteq> p ! off \<Longrightarrow> fdc_read_le16 (p[off := b]) off \<noteq> fdc_read_le16 p off"
  unfolding fdc_read_le16_def using le16_inj by fastforce

lemma read_le16_update_hi:
  "Suc off < length p \<Longrightarrow> b \<noteq> p ! Suc off \<Longrightarrow> fdc_read_le16 (p[Suc off := b]) off \<noteq> fdc_read_le16 p off"
  unfolding fdc_read_le16_def using le16_inj by fastforce

lemma read_le16_update_other:
  "i \<noteq> off \<Longrightarrow> i \<noteq> Suc off \<Longrightarrow> fdc_read_le16 (p[i := b]) off = fdc_read_le16 p off"
  by (simp add: fdc_read_le16_def)

lemma track_in_bounds_iff:
  "disk_track_in_bounds t l s \<longleftrightarrow> l \<noteq> 0 \<and> unat t * unat l + unat l \<le> unat s"
proof (cases "l = 0 \<or> \<not> unat t * unat l < 4294967296")
  case True
  then show ?thesis
    using unat_u32_lt[of s] by (auto simp: disk_track_in_bounds_def not_le [symmetric] unat_max_div)
next
  case False
  then have m: "unat (t * l) = unat t * unat l" by (simp add: unat_u32_mult)
  have "disk_track_in_bounds t l s \<longleftrightarrow> t * l \<le> s \<and> l \<le> s - t * l"
    using False unat_max_div [of l t]
    by (auto simp: disk_track_in_bounds_def Let_def not_less not_le)
  also have "\<dots> \<longleftrightarrow> unat t * unat l + unat l \<le> unat s"
    by (auto simp: word_le_nat_alt m unat_sub)
  finally show ?thesis using False by simp
qed

lemma track_offset_exact:
  "disk_track_in_bounds t l s \<Longrightarrow> unat (disk_track_offset t l) = unat t * unat l"
  unfolding track_in_bounds_iff disk_track_offset_def
  using unat_u32_lt[of s] by (intro unat_u32_mult) linarith

lemma unat_word1_drive: "unat (fdc_word1_drive w) = unat w div 4096"
proof -
  have "unat w div 4096 < 256"
    using less_trans[OF unat_u16_lt[of w]] by (intro less_mult_imp_div_less) simp
  then show ?thesis
    by (simp add: fdc_word1_drive_def unsigned_ucast_eq drop_bit_eq_div unat_div take_bit_eq_mod)
qed

lemma unat_word1_track: "unat (fdc_word1_track w) = unat w mod 4096"
proof -
  have "fdc_word1_track w = take_bit 12 w"
    by (simp add: fdc_word1_track_def take_bit_eq_mask mask_eq_exp_minus_1)
  then show ?thesis by (simp add: unsigned_take_bit_eq take_bit_eq_mod unat_mod)
qed

lemma block_corrupt:
  assumes "length blk = 10" "fdc_block_valid blk" "i < 10" "b \<noteq> blk ! i"
  shows "\<not> fdc_block_valid (blk[i := b])"
proof (cases "i < 8")
  case True
  then have "fdc_checksum16 (take 8 (blk[i := b])) \<noteq> fdc_checksum16 (take 8 blk)"
    using assms by (simp add: take_update_swap checksum_update_neq)
  then show ?thesis
    using assms True by (simp add: fdc_block_valid_def read_le16_update_other)
next
  case False
  then consider "i = 8" | "i = Suc 8" using assms(3) by linarith
  then show ?thesis
    using assms read_le16_update_lo[of 8 blk b] read_le16_update_hi[of 8 blk b]
    by cases (auto simp: fdc_block_valid_def)
qed

lemma bitmap_bits:
  "bit (disk_status_bitmap_of mounted count) n \<longleftrightarrow> n < count \<and> n < 16 \<and> mounted ! n"
  by (simp add: disk_status_bitmap_of_def bit_bitmap_loop)

section \<open>Properties\<close>

text \<open>C21. The track bounds check, written with 32-bit words that may wrap and a guarded
  multiplication, decides exactly whether the whole track lies inside the image in exact
  arithmetic; and when it says yes the 32-bit track offset has not wrapped.\<close>

theorem track_bounds_exact:
  "(disk_track_in_bounds t l s \<longleftrightarrow> 0 < unat l \<and> unat t * unat l + unat l \<le> unat s)
   \<and> (disk_track_in_bounds t l s \<longrightarrow> unat (disk_track_offset t l) = unat t * unat l)"
  by (auto simp: track_in_bounds_iff track_offset_exact unat_gt_0)

theorem track_bounds_exact_witness:
  "disk_track_in_bounds 2047 4384 8978432 \<and> unat (disk_track_offset 2047 4384) = 8974048"
  using track_bounds_exact[of 2047 4384 8978432] by simp

text \<open>A valid 10-byte block in which any single byte is changed, in the command, the
  words or the checksum itself, is no longer valid.\<close>

theorem block_single_byte_corruption:
  assumes "length blk = 10" "fdc_block_valid blk" "i < 10" "b \<noteq> blk ! i"
  shows "\<not> fdc_block_valid (blk[i := b])"
  using assms by (rule block_corrupt)

theorem block_single_byte_corruption_witness:
  "\<not> fdc_block_valid ((fdc_block_finalize (ascii ''STAT'' @ [0, 1, 0, 0, 0, 0]))[6 := 255])"
proof (rule block_single_byte_corruption)
  show "length (fdc_block_finalize (ascii ''STAT'' @ [0, 1, 0, 0, 0, 0])) = 10" by simp
  then show "fdc_block_valid (fdc_block_finalize (ascii ''STAT'' @ [0, 1, 0, 0, 0, 0]))"
    by (intro finalize_valid) simp
  show "(255 :: byte) \<noteq> fdc_block_finalize (ascii ''STAT'' @ [0, 1, 0, 0, 0, 0]) ! 6"
    by (simp add: fdc_block_finalize_def fdc_write_le16_def ascii_def nth_append)
qed simp

end
