(* ===== verification/Wildcard.thy ===== *)
theory Wildcard
  imports SdsPrelude
begin

text \<open>
  \<^verbatim>\<open>include/wildcard.h\<close>: the iterative, case-insensitive glob used by \<^verbatim>\<open>dir\<close>, by
  remote listings and by the TNFS server. The loop variables are the rest of the pattern,
  the rest of the string, and the saved pair of positions (\<open>star\<close>, \<open>ss\<close>) once a star was
  seen. The reference is the recursive meaning of a pattern; the loop is proved equal to
  it on strings without a literal star (no FAT name has one).
\<close>

function match_loop :: "string \<Rightarrow> string \<Rightarrow> (string \<times> string) option \<Rightarrow> bool" where
  "match_loop pat str star =
     (case str of
        [] \<Rightarrow> dropWhile (\<lambda>p. p = CHR ''*'') pat = []
      | s # str' \<Rightarrow>
          if pat \<noteq> [] \<and> (hd pat = CHR ''?'' \<or> tolower (hd pat) = tolower s)
          then match_loop (tl pat) str' star
          else if pat \<noteq> [] \<and> hd pat = CHR ''*''
          then match_loop (tl pat) str (Some (tl pat, str))
          else (case star of
                  Some (sp, ss) \<Rightarrow> match_loop sp (tl ss) (Some (sp, tl ss))
                | None \<Rightarrow> False))"
  by pat_completeness auto
termination
proof (relation "measures
    [\<lambda>(pat, str, star). case star of None \<Rightarrow> Suc (length str) | Some (_, ss) \<Rightarrow> max (length ss) (length str),
     \<lambda>(pat, str, star). length str, \<lambda>(pat, str, star). length pat]", goal_cases)
  case (3 pat str star s str')
  then show ?case by (cases pat) (auto split: option.splits)
qed (auto split: option.splits)

declare match_loop.simps [simp del]

definition wildcard_match_ci :: "string \<Rightarrow> string \<Rightarrow> bool" where
  "wildcard_match_ci pat str = match_loop pat str None"

text \<open>The meaning of a pattern: a star matches any run, a question mark one character.\<close>

fun glob :: "string \<Rightarrow> string \<Rightarrow> bool" where
  "glob [] str \<longleftrightarrow> str = []"
| "glob (p # ps) [] \<longleftrightarrow> p = CHR ''*'' \<and> glob ps []"
| "glob (p # ps) (c # cs) \<longleftrightarrow>
     (if p = CHR ''*'' then glob ps (c # cs) \<or> glob (p # ps) cs
      else (p = CHR ''?'' \<or> tolower p = tolower c) \<and> glob ps cs)"

section \<open>Lemmas\<close>

lemma tolower_star: "tolower c = CHR ''*'' \<longleftrightarrow> c = CHR ''*''"
proof -
  have "(char_of (of_char c + 32 :: nat)) \<noteq> CHR ''*''" if "65 \<le> (of_char c :: nat)" "of_char c \<le> (90 :: nat)"
  proof
    assume "(char_of (of_char c + 32 :: nat)) = CHR ''*''"
    then have "(of_char (char_of (of_char c + 32 :: nat)) :: nat) = of_char (CHR ''*'')" by simp
    then have "(of_char c + 32 :: nat) mod 256 = 42" by (simp add: of_char_of)
    with that show False by simp
  qed
  moreover have "(of_char (CHR ''*'') :: nat) = 42" by simp
  ultimately show ?thesis by (auto simp: tolower_def Let_def)
qed

lemma glob_star: "glob (CHR ''*'' # ps) s \<longleftrightarrow> (\<exists>a b. s = a @ b \<and> glob ps b)"
proof (induction s)
  case Nil
  then show ?case by simp
next
  case (Cons c cs)
  show ?case
  proof
    assume "glob (CHR ''*'' # ps) (c # cs)"
    then consider "glob ps (c # cs)" | "glob (CHR ''*'' # ps) cs" by auto
    then show "\<exists>a b. c # cs = a @ b \<and> glob ps b"
    proof cases
      case 1
      then show ?thesis by (intro exI[of _ "[]"] exI[of _ "c # cs"]) simp
    next
      case 2
      then obtain a b where "cs = a @ b" "glob ps b" using Cons.IH by blast
      then show ?thesis by (intro exI[of _ "c # a"] exI[of _ b]) simp
    qed
  next
    assume "\<exists>a b. c # cs = a @ b \<and> glob ps b"
    then obtain a b where ab: "c # cs = a @ b" "glob ps b" by blast
    then show "glob (CHR ''*'' # ps) (c # cs)"
      using Cons.IH by (cases a) auto
  qed
qed

lemma glob_nil: "glob p [] \<longleftrightarrow> dropWhile (\<lambda>p. p = CHR ''*'') p = []"
  by (induction p) auto

text \<open>A star-free prefix of the pattern consumes exactly its own length.\<close>

lemma glob_prefix:
  "CHR ''*'' \<notin> set q \<Longrightarrow> glob (q @ p) s \<Longrightarrow> length q \<le> length s \<and> glob p (drop (length q) s)"
proof (induction q arbitrary: s)
  case (Cons x q)
  then show ?case by (cases s) auto
qed simp

lemma glob_star_suffix: "glob (CHR ''*'' # ps) v \<Longrightarrow> glob (CHR ''*'' # ps) (u @ v)"
  unfolding glob_star by (metis append_assoc)

text \<open>
  The saved star: \<open>sp\<close> is the pattern after the star and \<open>q\<close> the star-free part of it
  matched since, against as many characters of \<open>ss\<close>.
\<close>

lemma later_star_wins:
  assumes "CHR ''*'' \<notin> set q" "length e = length q"
    and "glob (CHR ''*'' # q @ CHR ''*'' # rest) (tl (e @ str))"
  shows "glob (CHR ''*'' # rest) str"
proof -
  obtain a b where ab: "tl (e @ str) = a @ b" "glob (q @ CHR ''*'' # rest) b"
    using assms(3) unfolding glob_star [of "q @ _"] by blast
  then have l: "length q \<le> length b" and g: "glob (CHR ''*'' # rest) (drop (length q) b)"
    using glob_prefix [OF assms(1)] by blast+
  obtain a' where a': "e @ str = a' @ b"
    using ab(1) by (cases "e @ str") (auto intro: that[of "_ # a"])
  then have "str = drop (length e) (a' @ b)"
    by (metis append_eq_conv_conj)
  moreover have "drop (length e) (a' @ b) = drop (length e) a' @ drop (length q - length a') b"
    by (simp add: assms(2))
  moreover have "drop (length q - length a') b = take (min (length q) (length a')) (drop (length q - length a') b) @ drop (length q) b"
    by (metis (no_types, lifting) add_diff_inverse_nat append_take_drop_id drop_drop le_add_diff_inverse2 min_def nat_le_linear not_le diff_is_0_eq' min.absorb1 plus_nat.add_0)
  ultimately show ?thesis using g glob_star_suffix by (metis append_assoc)
qed

lemma no_match_left:
  assumes "CHR ''*'' \<notin> set q" "length e = length q" "e \<noteq> []"
  shows "\<not> glob (CHR ''*'' # q @ p) (tl e)"
proof
  assume "glob (CHR ''*'' # q @ p) (tl e)"
  then obtain a b where "tl e = a @ b" "glob (q @ p) b"
    unfolding glob_star by blast
  then have "length q \<le> length b" using glob_prefix [OF assms(1)] by blast
  moreover have "length b \<le> length (tl e)" using \<open>tl e = a @ b\<close> by simp
  ultimately show False using assms(2,3) by (cases e) auto
qed

lemma match_loop_star:
  assumes "CHR ''*'' \<notin> set (e @ str)" "CHR ''*'' \<notin> set q" "length e = length q"
  shows "match_loop pat str (Some (q @ pat, e @ str)) \<longleftrightarrow>
           glob pat str \<or> (e @ str \<noteq> [] \<and> glob (CHR ''*'' # q @ pat) (tl (e @ str)))"
  using assms
proof (induction pat str "Some (q @ pat, e @ str)" arbitrary: q e rule: match_loop.induct)
  case (1 pat str)
  note pre = "1.prems"
  show ?case
  proof (cases str)
    case Nil
    then show ?thesis
      using no_match_left [OF pre(2,3)] by (subst match_loop.simps) (auto simp: glob_nil)
  next
    case (Cons s str')
    have sn: "s \<noteq> CHR ''*''" using pre(1) Cons by auto
    show ?thesis
    proof (cases "pat \<noteq> [] \<and> (hd pat = CHR ''?'' \<or> tolower (hd pat) = tolower s)")
      case True
      then obtain x xs where p: "pat = x # xs" by (cases pat) auto
      have xn: "x \<noteq> CHR ''*''" using True p sn tolower_star[of x] tolower_star[of s] by auto
      have "match_loop (tl pat) str' (Some (q @ pat, e @ str)) \<longleftrightarrow>
          glob xs str' \<or> ((e @ [s]) @ str' \<noteq> [] \<and> glob (CHR ''*'' # (q @ [x]) @ xs) (tl ((e @ [s]) @ str')))"
        using "1.hyps"(1)[OF Cons True, of "q @ [x]" "e @ [s]"] pre xn p Cons by simp
      then show ?thesis
        using True xn p Cons by (subst match_loop.simps) auto
    next
      case F1: False
      show ?thesis
      proof (cases "pat \<noteq> [] \<and> hd pat = CHR ''*''")
        case True
        then obtain xs where p: "pat = CHR ''*'' # xs" by (cases pat) auto
        have "match_loop (tl pat) str (Some (tl pat, str)) \<longleftrightarrow>
            glob xs str \<or> (str \<noteq> [] \<and> glob (CHR ''*'' # xs) (tl str))"
          using "1.hyps"(2)[OF Cons F1 True, of "[]" "[]"] pre p Cons by simp
        also have "\<dots> \<longleftrightarrow> glob pat str" using p Cons by simp
        finally show ?thesis
          using F1 True p Cons later_star_wins[OF pre(2,3), of xs str]
          by (subst match_loop.simps) auto
      next
        case F2: False
        have ng: "\<not> glob pat str" using F1 F2 Cons by (cases pat) auto
        have "match_loop (q @ pat) (tl (e @ str)) (Some (q @ pat, tl (e @ str))) \<longleftrightarrow>
            glob (q @ pat) (tl (e @ str)) \<or>
            (tl (e @ str) \<noteq> [] \<and> glob (CHR ''*'' # q @ pat) (tl (tl (e @ str))))"
        proof -
          have "CHR ''*'' \<notin> set (tl (e @ str))" using pre(1) by (cases "e @ str") auto
          then show ?thesis
            using "1.hyps"(3)[OF _ Cons F1 F2 refl refl, of "[]" "[]"] by simp
        qed
        also have "\<dots> \<longleftrightarrow> glob (CHR ''*'' # q @ pat) (tl (e @ str))"
          by (cases "tl (e @ str)") (auto simp: glob_nil)
        finally show ?thesis
          using F1 F2 Cons ng by (subst match_loop.simps) auto
      qed
    qed
  qed
qed

lemma match_loop_none:
  assumes "CHR ''*'' \<notin> set str"
  shows "match_loop pat str None \<longleftrightarrow> glob pat str"
  using assms
proof (induction pat str "None :: (string \<times> string) option" rule: match_loop.induct)
  case (1 pat str)
  show ?case
  proof (cases str)
    case Nil
    then show ?thesis by (subst match_loop.simps) (auto simp: glob_nil)
  next
    case (Cons s str')
    have sn: "s \<noteq> CHR ''*''" using "1.prems" Cons by auto
    consider (adv) x xs where "pat = x # xs" "x = CHR ''?'' \<or> tolower x = tolower s"
      | (star) xs where "pat = CHR ''*'' # xs" "\<not> tolower (CHR ''*'') = tolower s"
      | (fail) "pat = [] \<or> \<not> (hd pat = CHR ''?'' \<or> tolower (hd pat) = tolower s) \<and> hd pat \<noteq> CHR ''*''"
      by (cases pat) auto
    then show ?thesis
    proof cases
      case adv
      then have "x \<noteq> CHR ''*''" using sn tolower_star[of x] tolower_star[of s] by auto
      with adv Cons 1 show ?thesis by (subst match_loop.simps) auto
    next
      case star
      then have "match_loop xs str (Some (xs, str)) \<longleftrightarrow> glob pat str"
        using match_loop_star[of "[]" str "[]" xs] "1.prems" Cons by simp
      with star Cons show ?thesis by (subst match_loop.simps) auto
    next
      case fail
      then have "\<not> glob pat str" using Cons by (cases pat) auto
      with fail Cons show ?thesis by (subst match_loop.simps) auto
    qed
  qed
qed

text \<open>
  The hypothesis of the equivalence below is needed: a literal star at the front of the
  string is matched character by character before the pattern's star is remembered, so
  the pattern \<open>*\<close> does not match the name \<open>*x\<close>.
\<close>

lemma literal_star_name_missed: "glob ''*'' ''*x'' \<and> \<not> wildcard_match_ci ''*'' ''*x''"
  by code_simp

section \<open>Properties\<close>

text \<open>C27. On a name without a literal star the iterative matcher with its one saved
  backtrack point decides exactly the recursive meaning of the pattern: it never needs an
  older star.\<close>

theorem wildcard_match_is_glob:
  "CHR ''*'' \<notin> set str \<Longrightarrow> wildcard_match_ci pat str \<longleftrightarrow> glob pat str"
  by (simp add: wildcard_match_ci_def match_loop_none)

theorem wildcard_match_is_glob_witness:
  "wildcard_match_ci ''*8mb*.d?k'' ''CPM22-8MB-56K.DSK''"
  by (subst wildcard_match_is_glob) (simp_all, code_simp)

end
