(* ===== verification/ConfigStore.thy ===== *)
theory ConfigStore
  imports SdsPrelude
begin

text \<open>
  The configuration store (\<^verbatim>\<open>src/config/config.c\<close>, \<^verbatim>\<open>include/config.h\<close>): one in-memory
  copy with a dirty flag, seeded with defaults, overlaid from NVS at boot, changed by the
  setters, written back by \<open>config_save\<close> and erased by \<open>config_wipe\<close>. The NVS library is
  a parameter: a record of its calls over an abstract flash state, with \<open>nvs_laws\<close> as
  what the code relies on (a read returns the last value set). The lemmas: every string
  field keeps room for its NUL, a save followed by a boot restores the configuration, and
  a configuration that is not dirty is the one a boot would load.
\<close>

section \<open>Data\<close>

abbreviation (input) CONFIG_MAX_DRIVE :: nat where "CONFIG_MAX_DRIVE \<equiv> 4"
abbreviation (input) CONFIG_SSID_CAP :: nat where "CONFIG_SSID_CAP \<equiv> 81"
abbreviation (input) CONFIG_PASS_CAP :: nat where "CONFIG_PASS_CAP \<equiv> 81"
abbreviation (input) CONFIG_NAME_CAP :: nat where "CONFIG_NAME_CAP \<equiv> 41"
abbreviation (input) CONFIG_TZ_CAP :: nat where "CONFIG_TZ_CAP \<equiv> 41"
abbreviation (input) CONFIG_FTP_CAP :: nat where "CONFIG_FTP_CAP \<equiv> 33"
abbreviation (input) CONFIG_REPO_CAP :: nat where "CONFIG_REPO_CAP \<equiv> 65"
abbreviation (input) CONFIG_FILE_CAP :: nat where "CONFIG_FILE_CAP \<equiv> 129"

record config_t =
  baud_rate :: u32
  log_level :: byte
  wifi_enabled :: bool
  telnet_enabled :: bool
  ftp_enabled :: bool
  tnfsd_enabled :: bool
  fdc_tcp_port :: u16
  wifi_ssid :: string
  wifi_pass :: string
  wifi_name :: string
  time_zone :: string
  ftp_user :: string
  ftp_pass :: string
  ota_repo :: string
  cfg_drive :: "string list"

datatype config_str_id =
    CFG_STR_WIFI_SSID | CFG_STR_WIFI_PASS | CFG_STR_WIFI_NAME | CFG_STR_TIME_ZONE
  | CFG_STR_FTP_USER | CFG_STR_FTP_PASS | CFG_STR_OTA_REPO

record config_state =
  s_cfg :: config_t
  s_dirty :: bool
  s_loaded :: bool

text \<open>\<^verbatim>\<open>ESP_LOG_WARN\<close> is 2.\<close>

definition config_defaults :: config_t where
  "config_defaults =
     \<lparr> baud_rate = 403200, log_level = 2, wifi_enabled = False, telnet_enabled = True,
       ftp_enabled = True, tnfsd_enabled = True, fdc_tcp_port = 0, wifi_ssid = [],
       wifi_pass = [], wifi_name = ''FDC-SDS-ESP32'', time_zone = ''UTC0'',
       ftp_user = ''fdc'', ftp_pass = ''fdc'', ota_repo = ''deltecent/fdc-sds-pio'',
       cfg_drive = [[], [], [], []] \<rparr>"

section \<open>The NVS library, as the code calls it\<close>

datatype nvs_val = NU8 byte | NU16 u16 | NU32 u32 | NStr string

datatype nvs_rc = NVS_OK | NVS_NOT_FOUND | NVS_NO_FREE_PAGES | NVS_NEW_VERSION_FOUND | NVS_ERROR

record 's nvs_api =
  nvs_flash_init :: "'s \<Rightarrow> nvs_rc \<times> 's"
  nvs_flash_erase :: "'s \<Rightarrow> nvs_rc \<times> 's"
  nvs_open_ro :: "'s \<Rightarrow> nvs_rc"
  nvs_open_rw :: "'s \<Rightarrow> nvs_rc \<times> 's"
  nvs_get :: "'s \<Rightarrow> string \<rightharpoonup> nvs_val"
  nvs_set :: "'s \<Rightarrow> string \<Rightarrow> nvs_val \<Rightarrow> nvs_rc \<times> 's"
  nvs_commit :: "'s \<Rightarrow> nvs_rc \<times> 's"
  nvs_erase_all :: "'s \<Rightarrow> nvs_rc \<times> 's"

definition nvs_laws :: "'s nvs_api \<Rightarrow> bool" where
  "nvs_laws api \<longleftrightarrow>
     (\<forall>s k v. nvs_get api (snd (nvs_set api s k v)) =
        (if fst (nvs_set api s k v) = NVS_OK then (nvs_get api s)(k \<mapsto> v) else nvs_get api s)) \<and>
     (\<forall>s. nvs_get api (snd (nvs_commit api s)) = nvs_get api s) \<and>
     (\<forall>s. nvs_get api (snd (nvs_open_rw api s)) = nvs_get api s) \<and>
     (\<forall>s. fst (nvs_flash_init api s) = NVS_OK \<longrightarrow> nvs_get api (snd (nvs_flash_init api s)) = nvs_get api s) \<and>
     (\<forall>s. fst (nvs_erase_all api s) = NVS_OK \<longrightarrow> nvs_get api (snd (nvs_erase_all api s)) = Map.empty) \<and>
     (\<forall>s. fst (nvs_open_rw api s) = NVS_NOT_FOUND \<longrightarrow> nvs_get api s = Map.empty) \<and>
     (\<forall>s. nvs_open_ro api s = NVS_NOT_FOUND \<longrightarrow> nvs_get api s = Map.empty)"

section \<open>Loading\<close>

definition load_str :: "'s nvs_api \<Rightarrow> 's \<Rightarrow> string \<Rightarrow> nat \<Rightarrow> string \<Rightarrow> string" where
  "load_str api h key cap dst =
     (case nvs_get api h key of
        Some (NStr v) \<Rightarrow> if length v < cap then v else dst
      | _ \<Rightarrow> dst)"

definition load_u8 :: "'s nvs_api \<Rightarrow> 's \<Rightarrow> string \<Rightarrow> byte option" where
  "load_u8 api h key = (case nvs_get api h key of Some (NU8 v) \<Rightarrow> Some v | _ \<Rightarrow> None)"

definition load_flag :: "'s nvs_api \<Rightarrow> 's \<Rightarrow> string \<Rightarrow> bool \<Rightarrow> bool" where
  "load_flag api h key dst = (case load_u8 api h key of Some u8 \<Rightarrow> u8 \<noteq> 0 | None \<Rightarrow> dst)"

definition key_drive :: "string list" where
  "key_drive = [''Drive0'', ''Drive1'', ''Drive2'', ''Drive3'']"

definition load_from_nvs :: "'s nvs_api \<Rightarrow> 's \<Rightarrow> config_t \<Rightarrow> config_t" where
  "load_from_nvs api h c =
     \<lparr> baud_rate = (case nvs_get api h ''baudRate'' of Some (NU32 v) \<Rightarrow> v | _ \<Rightarrow> baud_rate c),
       log_level = (case load_u8 api h ''logLevel'' of Some u8 \<Rightarrow> u8 | None \<Rightarrow> log_level c),
       wifi_enabled = load_flag api h ''wifiEnabled'' (wifi_enabled c),
       telnet_enabled = load_flag api h ''telnetEnabled'' (telnet_enabled c),
       ftp_enabled = load_flag api h ''ftpEnabled'' (ftp_enabled c),
       tnfsd_enabled = load_flag api h ''tnfsdEnabled'' (tnfsd_enabled c),
       fdc_tcp_port = (case nvs_get api h ''fdcTcpPort'' of Some (NU16 v) \<Rightarrow> v | _ \<Rightarrow> fdc_tcp_port c),
       wifi_ssid = load_str api h ''wifiSSID'' CONFIG_SSID_CAP (wifi_ssid c),
       wifi_pass = load_str api h ''wifiPass'' CONFIG_PASS_CAP (wifi_pass c),
       wifi_name = load_str api h ''wifiName'' CONFIG_NAME_CAP (wifi_name c),
       time_zone = load_str api h ''timeZone'' CONFIG_TZ_CAP (time_zone c),
       ftp_user = load_str api h ''ftpUser'' CONFIG_FTP_CAP (ftp_user c),
       ftp_pass = load_str api h ''ftpPass'' CONFIG_FTP_CAP (ftp_pass c),
       ota_repo = load_str api h ''otaRepo'' CONFIG_REPO_CAP (ota_repo c),
       cfg_drive = map (\<lambda>(key, dst). load_str api h key CONFIG_FILE_CAP dst) (zip key_drive (cfg_drive c)) \<rparr>"

text \<open>
  \<^verbatim>\<open>ESP_ERROR_CHECK(nvs_flash_erase())\<close> aborts on failure: the result then carries no
  state (\<open>None\<close>).
\<close>

definition config_init :: "'s nvs_api \<Rightarrow> 's \<Rightarrow> config_state \<Rightarrow> (nvs_rc \<times> config_state \<times> 's) option" where
  "config_init api s st =
     (let st = st\<lparr>s_cfg := config_defaults\<rparr>;
          r1 = nvs_flash_init api s;
          retry = fst r1 = NVS_NO_FREE_PAGES \<or> fst r1 = NVS_NEW_VERSION_FOUND;
          r2 = (if retry then nvs_flash_erase api (snd r1) else (NVS_OK, snd r1));
          r3 = (if retry then nvs_flash_init api (snd r2) else r1)
      in if retry \<and> fst r2 \<noteq> NVS_OK then None
         else if fst r3 \<noteq> NVS_OK then Some (fst r3, st, snd r3)
         else let h = snd r3; err = nvs_open_ro api h
              in if err = NVS_NOT_FOUND then Some (NVS_OK, st\<lparr>s_loaded := True, s_dirty := False\<rparr>, h)
                 else if err \<noteq> NVS_OK then Some (err, st, h)
                 else Some (NVS_OK,
                        st\<lparr>s_cfg := load_from_nvs api h (s_cfg st), s_loaded := True, s_dirty := False\<rparr>, h))"

section \<open>Saving and wiping\<close>

text \<open>The \<^verbatim>\<open>nvs_set_*\<close> calls of \<open>config_save\<close>, in order; the first failure ends the run.\<close>

definition flag_u8 :: "bool \<Rightarrow> nvs_val" where
  "flag_u8 b = NU8 (if b then 1 else 0)"

definition config_items :: "config_t \<Rightarrow> (string \<times> nvs_val) list" where
  "config_items c =
     [(''baudRate'', NU32 (baud_rate c)), (''logLevel'', NU8 (log_level c)),
      (''wifiEnabled'', flag_u8 (wifi_enabled c)), (''telnetEnabled'', flag_u8 (telnet_enabled c)),
      (''ftpEnabled'', flag_u8 (ftp_enabled c)), (''tnfsdEnabled'', flag_u8 (tnfsd_enabled c)),
      (''fdcTcpPort'', NU16 (fdc_tcp_port c)),
      (''wifiSSID'', NStr (wifi_ssid c)), (''wifiPass'', NStr (wifi_pass c)),
      (''wifiName'', NStr (wifi_name c)), (''timeZone'', NStr (time_zone c)),
      (''ftpUser'', NStr (ftp_user c)), (''ftpPass'', NStr (ftp_pass c)),
      (''otaRepo'', NStr (ota_repo c))]
     @ zip key_drive (map NStr (cfg_drive c))"

fun nvs_put_all :: "'s nvs_api \<Rightarrow> (string \<times> nvs_val) list \<Rightarrow> 's \<Rightarrow> nvs_rc \<times> 's" where
  "nvs_put_all api [] s = (NVS_OK, s)"
| "nvs_put_all api ((k, v) # kvs) s =
     (let r = nvs_set api s k v in if fst r = NVS_OK then nvs_put_all api kvs (snd r) else r)"

definition config_save :: "'s nvs_api \<Rightarrow> 's \<Rightarrow> config_state \<Rightarrow> nvs_rc \<times> config_state \<times> 's" where
  "config_save api s st =
     (let r0 = nvs_open_rw api s
      in if fst r0 \<noteq> NVS_OK then (fst r0, st, snd r0)
         else let r1 = nvs_put_all api (config_items (s_cfg st)) (snd r0);
                  r2 = (if fst r1 = NVS_OK then nvs_commit api (snd r1) else r1)
              in if fst r2 \<noteq> NVS_OK then (fst r2, st, snd r2)
                 else (NVS_OK, st\<lparr>s_dirty := False\<rparr>, snd r2))"

definition config_wipe :: "'s nvs_api \<Rightarrow> 's \<Rightarrow> config_state \<Rightarrow> nvs_rc \<times> config_state \<times> 's" where
  "config_wipe api s st =
     (let r0 = nvs_open_rw api s;
          r = (if fst r0 = NVS_OK
               then let r1 = nvs_erase_all api (snd r0)
                    in if fst r1 = NVS_OK then nvs_commit api (snd r1) else r1
               else if fst r0 = NVS_NOT_FOUND then (NVS_OK, snd r0)
               else r0)
      in if fst r \<noteq> NVS_OK then (fst r, st, snd r)
         else (NVS_OK, st\<lparr>s_cfg := config_defaults, s_dirty := False\<rparr>, snd r))"

section \<open>Setters\<close>

definition config_set_baud :: "u32 \<Rightarrow> config_state \<Rightarrow> config_state" where
  "config_set_baud baud st =
     (if baud_rate (s_cfg st) \<noteq> baud
      then st\<lparr>s_cfg := (s_cfg st)\<lparr>baud_rate := baud\<rparr>, s_dirty := True\<rparr> else st)"

definition config_set_wifi_enabled :: "bool \<Rightarrow> config_state \<Rightarrow> config_state" where
  "config_set_wifi_enabled enabled st =
     (if wifi_enabled (s_cfg st) \<noteq> enabled
      then st\<lparr>s_cfg := (s_cfg st)\<lparr>wifi_enabled := enabled\<rparr>, s_dirty := True\<rparr> else st)"

definition config_set_telnet_enabled :: "bool \<Rightarrow> config_state \<Rightarrow> config_state" where
  "config_set_telnet_enabled enabled st =
     (if telnet_enabled (s_cfg st) \<noteq> enabled
      then st\<lparr>s_cfg := (s_cfg st)\<lparr>telnet_enabled := enabled\<rparr>, s_dirty := True\<rparr> else st)"

definition config_set_ftp_enabled :: "bool \<Rightarrow> config_state \<Rightarrow> config_state" where
  "config_set_ftp_enabled enabled st =
     (if ftp_enabled (s_cfg st) \<noteq> enabled
      then st\<lparr>s_cfg := (s_cfg st)\<lparr>ftp_enabled := enabled\<rparr>, s_dirty := True\<rparr> else st)"

definition config_set_tnfsd_enabled :: "bool \<Rightarrow> config_state \<Rightarrow> config_state" where
  "config_set_tnfsd_enabled enabled st =
     (if tnfsd_enabled (s_cfg st) \<noteq> enabled
      then st\<lparr>s_cfg := (s_cfg st)\<lparr>tnfsd_enabled := enabled\<rparr>, s_dirty := True\<rparr> else st)"

definition config_set_fdc_tcp_port :: "u16 \<Rightarrow> config_state \<Rightarrow> config_state" where
  "config_set_fdc_tcp_port port st =
     (if fdc_tcp_port (s_cfg st) \<noteq> port
      then st\<lparr>s_cfg := (s_cfg st)\<lparr>fdc_tcp_port := port\<rparr>, s_dirty := True\<rparr> else st)"

definition config_set_log_level :: "byte \<Rightarrow> config_state \<Rightarrow> config_state" where
  "config_set_log_level level st =
     (if log_level (s_cfg st) \<noteq> level
      then st\<lparr>s_cfg := (s_cfg st)\<lparr>log_level := level\<rparr>, s_dirty := True\<rparr> else st)"

text \<open>
  The buffer \<open>str_field\<close> points at is read by \<open>str_get\<close> and written by \<open>str_put\<close>; its
  capacity is \<open>str_cap\<close>. An argument \<open>None\<close> is the NULL pointer.
\<close>

fun str_cap :: "config_str_id \<Rightarrow> nat" where
  "str_cap CFG_STR_WIFI_SSID = CONFIG_SSID_CAP"
| "str_cap CFG_STR_WIFI_PASS = CONFIG_PASS_CAP"
| "str_cap CFG_STR_WIFI_NAME = CONFIG_NAME_CAP"
| "str_cap CFG_STR_TIME_ZONE = CONFIG_TZ_CAP"
| "str_cap CFG_STR_FTP_USER = CONFIG_FTP_CAP"
| "str_cap CFG_STR_FTP_PASS = CONFIG_FTP_CAP"
| "str_cap CFG_STR_OTA_REPO = CONFIG_REPO_CAP"

fun str_get :: "config_str_id \<Rightarrow> config_t \<Rightarrow> string" where
  "str_get CFG_STR_WIFI_SSID c = wifi_ssid c"
| "str_get CFG_STR_WIFI_PASS c = wifi_pass c"
| "str_get CFG_STR_WIFI_NAME c = wifi_name c"
| "str_get CFG_STR_TIME_ZONE c = time_zone c"
| "str_get CFG_STR_FTP_USER c = ftp_user c"
| "str_get CFG_STR_FTP_PASS c = ftp_pass c"
| "str_get CFG_STR_OTA_REPO c = ota_repo c"

fun str_put :: "config_str_id \<Rightarrow> string \<Rightarrow> config_t \<Rightarrow> config_t" where
  "str_put CFG_STR_WIFI_SSID v c = c\<lparr>wifi_ssid := v\<rparr>"
| "str_put CFG_STR_WIFI_PASS v c = c\<lparr>wifi_pass := v\<rparr>"
| "str_put CFG_STR_WIFI_NAME v c = c\<lparr>wifi_name := v\<rparr>"
| "str_put CFG_STR_TIME_ZONE v c = c\<lparr>time_zone := v\<rparr>"
| "str_put CFG_STR_FTP_USER v c = c\<lparr>ftp_user := v\<rparr>"
| "str_put CFG_STR_FTP_PASS v c = c\<lparr>ftp_pass := v\<rparr>"
| "str_put CFG_STR_OTA_REPO v c = c\<lparr>ota_repo := v\<rparr>"

definition config_set_str :: "config_str_id \<Rightarrow> string option \<Rightarrow> config_state \<Rightarrow> config_state" where
  "config_set_str i val st =
     (let v = (case val of None \<Rightarrow> [] | Some w \<Rightarrow> w)
      in if \<not> strneq (str_get i (s_cfg st)) v (str_cap i)
         then st\<lparr>s_cfg := str_put i (strlcpy v (str_cap i)) (s_cfg st), s_dirty := True\<rparr>
         else st)"

definition config_set_drive :: "int \<Rightarrow> string option \<Rightarrow> config_state \<Rightarrow> config_state" where
  "config_set_drive n filename st =
     (if n < 0 \<or> n \<ge> int CONFIG_MAX_DRIVE then st
      else let f = (case filename of None \<Rightarrow> [] | Some w \<Rightarrow> w); i = nat n
           in if \<not> strneq (cfg_drive (s_cfg st) ! i) f CONFIG_FILE_CAP
              then st\<lparr>s_cfg := (s_cfg st)\<lparr>cfg_drive := (cfg_drive (s_cfg st))[i := strlcpy f CONFIG_FILE_CAP]\<rparr>,
                      s_dirty := True\<rparr>
              else st)"

definition config_prompt :: "nat \<Rightarrow> config_state \<Rightarrow> string" where
  "config_prompt len st =
     take (len - 1) ((if s_dirty st then ''* '' else []) @ wifi_name (s_cfg st) @ ''> '')"

section \<open>Well-formed configurations\<close>

text \<open>Every string leaves room for its NUL and there are four drives.\<close>

definition config_wf :: "config_t \<Rightarrow> bool" where
  "config_wf c \<longleftrightarrow>
     length (wifi_ssid c) < CONFIG_SSID_CAP \<and> length (wifi_pass c) < CONFIG_PASS_CAP \<and>
     length (wifi_name c) < CONFIG_NAME_CAP \<and> length (time_zone c) < CONFIG_TZ_CAP \<and>
     length (ftp_user c) < CONFIG_FTP_CAP \<and> length (ftp_pass c) < CONFIG_FTP_CAP \<and>
     length (ota_repo c) < CONFIG_REPO_CAP \<and> length (cfg_drive c) = CONFIG_MAX_DRIVE \<and>
     (\<forall>f \<in> set (cfg_drive c). length f < CONFIG_FILE_CAP)"

text \<open>The operations of the store, as one step on the flash and the RAM copy.\<close>

datatype config_op =
    OpBaud u32 | OpWifi bool | OpTelnet bool | OpFtp bool | OpTnfsd bool | OpTcpPort u16 | OpLog byte
  | OpStr config_str_id "string option" | OpDrive int "string option" | OpSave | OpWipe

fun config_step :: "'s nvs_api \<Rightarrow> config_op \<Rightarrow> config_state \<times> 's \<Rightarrow> nvs_rc \<times> config_state \<times> 's" where
  "config_step api (OpBaud b) (st, s) = (NVS_OK, config_set_baud b st, s)"
| "config_step api (OpWifi e) (st, s) = (NVS_OK, config_set_wifi_enabled e st, s)"
| "config_step api (OpTelnet e) (st, s) = (NVS_OK, config_set_telnet_enabled e st, s)"
| "config_step api (OpFtp e) (st, s) = (NVS_OK, config_set_ftp_enabled e st, s)"
| "config_step api (OpTnfsd e) (st, s) = (NVS_OK, config_set_tnfsd_enabled e st, s)"
| "config_step api (OpTcpPort p) (st, s) = (NVS_OK, config_set_fdc_tcp_port p st, s)"
| "config_step api (OpLog l) (st, s) = (NVS_OK, config_set_log_level l st, s)"
| "config_step api (OpStr i v) (st, s) = (NVS_OK, config_set_str i v st, s)"
| "config_step api (OpDrive n f) (st, s) = (NVS_OK, config_set_drive n f st, s)"
| "config_step api OpSave (st, s) = config_save api s st"
| "config_step api OpWipe (st, s) = config_wipe api s st"

lemmas config_setter_defs =
  config_set_baud_def config_set_wifi_enabled_def config_set_telnet_enabled_def
  config_set_ftp_enabled_def config_set_tnfsd_enabled_def config_set_fdc_tcp_port_def
  config_set_log_level_def config_set_str_def config_set_drive_def Let_def

lemma config_wf_defaults [simp]: "config_wf config_defaults"
  by (simp add: config_wf_def config_defaults_def)

lemma length_load_str: "length dst < cap \<Longrightarrow> length (load_str api h k cap dst) < cap"
  by (simp add: load_str_def split: option.splits nvs_val.splits)

lemma config_wf_load: "config_wf c \<Longrightarrow> config_wf (load_from_nvs api h c)"
  by (auto simp: config_wf_def load_from_nvs_def key_drive_def length_load_str
      dest!: set_zip_rightD)

lemma config_wf_str_put: "config_wf c \<Longrightarrow> config_wf (str_put i (strlcpy v (str_cap i)) c)"
  by (cases i) (auto simp: config_wf_def)

lemma config_wf_drive:
  "config_wf c \<Longrightarrow> config_wf (c\<lparr>cfg_drive := (cfg_drive c)[i := strlcpy f CONFIG_FILE_CAP]\<rparr>)"
  by (auto simp: config_wf_def dest!: subsetD[OF set_update_subset_insert])

lemma config_wf_flags [simp]:
  "config_wf (c\<lparr>baud_rate := b\<rparr>) = config_wf c" "config_wf (c\<lparr>log_level := l\<rparr>) = config_wf c"
  "config_wf (c\<lparr>wifi_enabled := e\<rparr>) = config_wf c" "config_wf (c\<lparr>telnet_enabled := e\<rparr>) = config_wf c"
  "config_wf (c\<lparr>ftp_enabled := e\<rparr>) = config_wf c" "config_wf (c\<lparr>tnfsd_enabled := e\<rparr>) = config_wf c"
  "config_wf (c\<lparr>fdc_tcp_port := p\<rparr>) = config_wf c"
  by (simp_all add: config_wf_def)

lemma config_save_cfg: "s_cfg (fst (snd (config_save api s st))) = s_cfg st"
  by (simp add: config_save_def Let_def)

lemma config_step_wf:
  "config_wf (s_cfg st) \<Longrightarrow> config_wf (s_cfg (fst (snd (config_step api op (st, s)))))"
  by (cases op) (auto simp: config_save_cfg config_wipe_def config_setter_defs config_wf_str_put
      config_wf_drive)

section \<open>Saving and loading\<close>

lemma nvs_put_all_ok:
  assumes "nvs_laws api" "fst (nvs_put_all api kvs s) = NVS_OK" "distinct (map fst kvs)"
  shows "nvs_get api (snd (nvs_put_all api kvs s)) = nvs_get api s ++ map_of kvs"
  using assms(2,3)
proof (induction kvs arbitrary: s)
  case (Cons kv kvs)
  obtain k v where kv: "kv = (k, v)" by force
  have "fst (nvs_set api s k v) = NVS_OK"
    using Cons.prems kv by (simp add: Let_def split: if_splits)
  with Cons kv assms(1) have
    "nvs_get api (snd (nvs_put_all api (kv # kvs) s)) = (nvs_get api s)(k \<mapsto> v) ++ map_of kvs"
    by (simp add: nvs_laws_def)
  also have "\<dots> = nvs_get api s ++ map_of (kv # kvs)"
    using Cons.prems kv by (simp add: map_add_upd_left dom_map_of_conv_image_fst)
  finally show ?case .
qed simp

lemma nvs_put_all_some:
  assumes "nvs_laws api" "distinct (map fst kvs)"
  shows "nvs_get api (snd (nvs_put_all api kvs s)) k = nvs_get api s k \<or>
    nvs_get api (snd (nvs_put_all api kvs s)) k = map_of kvs k \<and> map_of kvs k \<noteq> None"
  using assms(2)
proof (induction kvs arbitrary: s)
  case (Cons kv kvs)
  obtain a v where kv: "kv = (a, v)" by force
  let ?r = "nvs_set api s a v"
  have g: "nvs_get api (snd ?r) = (if fst ?r = NVS_OK then (nvs_get api s)(a \<mapsto> v) else nvs_get api s)"
    using assms(1) by (simp add: nvs_laws_def)
  have "a \<notin> fst ` set kvs" using Cons.prems kv by simp
  then have n: "map_of kvs a = None" by (simp add: map_of_eq_None_iff)
  show ?case
    using Cons.IH[of "snd ?r"] Cons.prems kv g n by (auto simp: Let_def split: if_splits)
qed simp

lemma zip_key_drive:
  "length ds = 4 \<Longrightarrow> zip key_drive (map f ds) =
    [(''Drive0'', f (ds ! 0)), (''Drive1'', f (ds ! 1)), (''Drive2'', f (ds ! 2)), (''Drive3'', f (ds ! 3))]"
  by (auto simp: key_drive_def numeral_eq_Suc length_Suc_conv)

lemma distinct_config_items: "config_wf c \<Longrightarrow> distinct (map fst (config_items c))"
  by (simp add: config_items_def zip_key_drive config_wf_def)

lemma config_items_get:
  assumes "length (cfg_drive c) = 4"
  shows "map_of (config_items c) ''baudRate'' = Some (NU32 (baud_rate c))"
    "map_of (config_items c) ''logLevel'' = Some (NU8 (log_level c))"
    "map_of (config_items c) ''wifiEnabled'' = Some (flag_u8 (wifi_enabled c))"
    "map_of (config_items c) ''telnetEnabled'' = Some (flag_u8 (telnet_enabled c))"
    "map_of (config_items c) ''ftpEnabled'' = Some (flag_u8 (ftp_enabled c))"
    "map_of (config_items c) ''tnfsdEnabled'' = Some (flag_u8 (tnfsd_enabled c))"
    "map_of (config_items c) ''fdcTcpPort'' = Some (NU16 (fdc_tcp_port c))"
    "map_of (config_items c) ''wifiSSID'' = Some (NStr (wifi_ssid c))"
    "map_of (config_items c) ''wifiPass'' = Some (NStr (wifi_pass c))"
    "map_of (config_items c) ''wifiName'' = Some (NStr (wifi_name c))"
    "map_of (config_items c) ''timeZone'' = Some (NStr (time_zone c))"
    "map_of (config_items c) ''ftpUser'' = Some (NStr (ftp_user c))"
    "map_of (config_items c) ''ftpPass'' = Some (NStr (ftp_pass c))"
    "map_of (config_items c) ''otaRepo'' = Some (NStr (ota_repo c))"
    "map_of (config_items c) ''Drive0'' = Some (NStr (cfg_drive c ! 0))"
    "map_of (config_items c) ''Drive1'' = Some (NStr (cfg_drive c ! 1))"
    "map_of (config_items c) ''Drive2'' = Some (NStr (cfg_drive c ! 2))"
    "map_of (config_items c) ''Drive3'' = Some (NStr (cfg_drive c ! 3))"
  using assms by (simp_all add: config_items_def zip_key_drive)

lemma four_nth: "length ds = 4 \<Longrightarrow> [ds ! 0, ds ! 1, ds ! 2, ds ! 3] = ds"
  by (auto simp: numeral_eq_Suc length_Suc_conv)

text \<open>
  A flash whose every key holds either what \<open>d\<close> would load \<open>c\<close> from, or \<open>c\<close>'s own value,
  loads \<open>c\<close>. Each field depends on its own key only, so the fields are taken one by one.
\<close>

lemma load_drives:
  "length ds = 4 \<Longrightarrow>
   map (\<lambda>(key, dst). load_str api h key cap dst) (zip key_drive ds) =
     [load_str api h ''Drive0'' cap (ds ! 0), load_str api h ''Drive1'' cap (ds ! 1),
      load_str api h ''Drive2'' cap (ds ! 2), load_str api h ''Drive3'' cap (ds ! 3)]"
  by (auto simp: key_drive_def numeral_eq_Suc length_Suc_conv)

lemma list4_eq:
  "length ds = 4 \<Longrightarrow>
    [w, x, y, z] = ds \<longleftrightarrow> w = ds ! 0 \<and> x = ds ! Suc 0 \<and> y = ds ! 2 \<and> z = ds ! 3"
  by (auto simp: numeral_eq_Suc length_Suc_conv)

lemma load_eq_iff:
  assumes "length (cfg_drive d) = 4" "length (cfg_drive c) = 4"
  shows "load_from_nvs api h d = c \<longleftrightarrow>
    (case nvs_get api h ''baudRate'' of Some (NU32 v) \<Rightarrow> v | _ \<Rightarrow> baud_rate d) = baud_rate c \<and>
    (case load_u8 api h ''logLevel'' of Some u8 \<Rightarrow> u8 | None \<Rightarrow> log_level d) = log_level c \<and>
    load_flag api h ''wifiEnabled'' (wifi_enabled d) = wifi_enabled c \<and>
    load_flag api h ''telnetEnabled'' (telnet_enabled d) = telnet_enabled c \<and>
    load_flag api h ''ftpEnabled'' (ftp_enabled d) = ftp_enabled c \<and>
    load_flag api h ''tnfsdEnabled'' (tnfsd_enabled d) = tnfsd_enabled c \<and>
    (case nvs_get api h ''fdcTcpPort'' of Some (NU16 v) \<Rightarrow> v | _ \<Rightarrow> fdc_tcp_port d) = fdc_tcp_port c \<and>
    load_str api h ''wifiSSID'' CONFIG_SSID_CAP (wifi_ssid d) = wifi_ssid c \<and>
    load_str api h ''wifiPass'' CONFIG_PASS_CAP (wifi_pass d) = wifi_pass c \<and>
    load_str api h ''wifiName'' CONFIG_NAME_CAP (wifi_name d) = wifi_name c \<and>
    load_str api h ''timeZone'' CONFIG_TZ_CAP (time_zone d) = time_zone c \<and>
    load_str api h ''ftpUser'' CONFIG_FTP_CAP (ftp_user d) = ftp_user c \<and>
    load_str api h ''ftpPass'' CONFIG_FTP_CAP (ftp_pass d) = ftp_pass c \<and>
    load_str api h ''otaRepo'' CONFIG_REPO_CAP (ota_repo d) = ota_repo c \<and>
    load_str api h ''Drive0'' CONFIG_FILE_CAP (cfg_drive d ! 0) = cfg_drive c ! 0 \<and>
    load_str api h ''Drive1'' CONFIG_FILE_CAP (cfg_drive d ! 1) = cfg_drive c ! 1 \<and>
    load_str api h ''Drive2'' CONFIG_FILE_CAP (cfg_drive d ! 2) = cfg_drive c ! 2 \<and>
    load_str api h ''Drive3'' CONFIG_FILE_CAP (cfg_drive d ! 3) = cfg_drive c ! 3"
  (is "_ \<longleftrightarrow> ?R")
  using assms(2) by (cases c) (simp add: load_from_nvs_def load_drives[OF assms(1)] list4_eq)

lemma load_str_own:
  "nvs_get api h k = Some (NStr v) \<Longrightarrow> length v < cap \<Longrightarrow> load_str api h k cap dst = v"
  by (simp add: load_str_def)

lemma load_flag_own: "nvs_get api h k = Some (flag_u8 b) \<Longrightarrow> load_flag api h k dst = b"
  by (simp add: load_flag_def load_u8_def flag_u8_def)

lemma config_wf_drive_nth: "config_wf c \<Longrightarrow> i < 4 \<Longrightarrow> length (cfg_drive c ! i) < CONFIG_FILE_CAP"
  by (simp add: config_wf_def)

lemma config_wf_len: "config_wf c \<Longrightarrow> length (cfg_drive c) = 4"
  by (simp add: config_wf_def)

lemma load_after_put_all:
  assumes "config_wf c" "length (cfg_drive d) = 4"
    "\<And>k v. map_of (config_items c) k = Some v \<Longrightarrow> nvs_get api h k = Some v"
  shows "load_from_nvs api h d = c"
proof -
  note l = config_wf_len[OF assms(1)]
  note g = config_items_get[OF l, THEN assms(3)]
  show ?thesis
    unfolding load_eq_iff[OF assms(2) l]
    using assms(1) g config_wf_drive_nth[OF assms(1)]
    by (simp add: load_str_own load_flag_own config_wf_def) (simp add: load_u8_def)
qed

lemma load_str_mixed:
  assumes "load_str api h k cap dst = v" "length v < cap"
    "nvs_get api h' k = nvs_get api h k \<or> nvs_get api h' k = Some (NStr v)"
  shows "load_str api h' k cap dst = v"
  using assms by (auto simp: load_str_def)

lemma load_flag_mixed:
  assumes "load_flag api h k dst = b"
    "nvs_get api h' k = nvs_get api h k \<or> nvs_get api h' k = Some (flag_u8 b)"
  shows "load_flag api h' k dst = b"
  using assms by (auto simp: load_flag_def load_u8_def flag_u8_def)

lemma load_mixed:
  assumes wf: "config_wf c" "length (cfg_drive d) = 4" and l: "load_from_nvs api h d = c"
    and m: "\<And>k. nvs_get api h' k = nvs_get api h k \<or>
      nvs_get api h' k = map_of (config_items c) k \<and> map_of (config_items c) k \<noteq> None"
  shows "load_from_nvs api h' d = c"
proof -
  note len = config_wf_len[OF wf(1)]
  have m': "nvs_get api h' k = nvs_get api h k \<or> nvs_get api h' k = Some v"
    if "map_of (config_items c) k = Some v" for k v
    using m[of k] that by auto
  note g = config_items_get[OF len, THEN m']
  note r = l[unfolded load_eq_iff[OF wf(2) len]]
  note strs = g(8-18)[THEN load_str_mixed[rotated 2]]
  note flags = g(3-6)[THEN load_flag_mixed[rotated]]
  have nums:
    "(case nvs_get api h' ''baudRate'' of Some (NU32 v) \<Rightarrow> v | _ \<Rightarrow> baud_rate d) = baud_rate c"
    "(case load_u8 api h' ''logLevel'' of Some u8 \<Rightarrow> u8 | None \<Rightarrow> log_level d) = log_level c"
    "(case nvs_get api h' ''fdcTcpPort'' of Some (NU16 v) \<Rightarrow> v | _ \<Rightarrow> fdc_tcp_port d) = fdc_tcp_port c"
    using r[THEN conjunct1] g(1) apply fastforce
    using r[THEN conjunct2, THEN conjunct1] g(2) apply (fastforce simp: load_u8_def)
    using r[THEN conjunct2, THEN conjunct2, THEN conjunct2, THEN conjunct2, THEN conjunct2,
        THEN conjunct2, THEN conjunct1] g(7) apply fastforce
    done
  note w = wf(1)[unfolded config_wf_def] config_wf_drive_nth[OF wf(1)]
  show ?thesis
    unfolding load_eq_iff[OF wf(2) len]
    by (insert r, elim conjE, intro conjI) (rule nums | erule strs flags; simp add: w)+
qed

lemma load_empty: "length (cfg_drive d) = 4 \<Longrightarrow> nvs_get api h = Map.empty \<Longrightarrow> load_from_nvs api h d = d"
  by (simp add: load_eq_iff load_str_def load_flag_def load_u8_def)

lemma config_save_ok:
  assumes "nvs_laws api" "config_wf (s_cfg st)" "config_save api s st = (NVS_OK, st', s')"
  shows "st' = st\<lparr>s_dirty := False\<rparr>"
    and "nvs_get api s' = nvs_get api (snd (nvs_open_rw api s)) ++ map_of (config_items (s_cfg st))"
  using assms nvs_put_all_ok[OF assms(1) _ distinct_config_items[OF assms(2)], of "snd (nvs_open_rw api s)"]
  by (auto simp: config_save_def Let_def nvs_laws_def split: if_splits)

lemma config_save_flash:
  assumes "nvs_laws api" "config_wf (s_cfg st)" "load_from_nvs api s d = s_cfg st"
    "length (cfg_drive d) = 4"
  shows "load_from_nvs api (snd (snd (config_save api s st))) d = s_cfg st"
proof (rule load_mixed[OF assms(2,4,3)])
  fix k
  have o: "nvs_get api (snd (nvs_open_rw api s)) = nvs_get api s"
    and c: "nvs_get api (snd (nvs_commit api x)) = nvs_get api x" for x
    using assms(1) by (simp_all add: nvs_laws_def)
  show "nvs_get api (snd (snd (config_save api s st))) k = nvs_get api s k \<or>
      nvs_get api (snd (snd (config_save api s st))) k = map_of (config_items (s_cfg st)) k \<and>
      map_of (config_items (s_cfg st)) k \<noteq> None"
    using nvs_put_all_some[OF assms(1) distinct_config_items[OF assms(2)],
        of "snd (nvs_open_rw api s)" k]
    by (simp add: config_save_def Let_def o c)
qed

text \<open>
  What the running system can reach: a boot, then any operations. A wipe that erased the
  flash but failed to commit is left out: it leaves the old configuration in RAM.
\<close>

inductive config_reach :: "'s nvs_api \<Rightarrow> config_state \<times> 's \<Rightarrow> bool" for api where
  boot: "config_init api s st0 = Some (NVS_OK, st, s') \<Longrightarrow> config_reach api (st, s')"
| step: "config_reach api p \<Longrightarrow> config_step api op p = (rc, p') \<Longrightarrow> op \<noteq> OpWipe \<or> rc = NVS_OK
    \<Longrightarrow> config_reach api p'"

lemma config_setter_clean:
  "op \<noteq> OpSave \<Longrightarrow> op \<noteq> OpWipe \<Longrightarrow> config_step api op (st, s) = (rc, st', s') \<Longrightarrow>
    s' = s \<and> (st' = st \<or> s_dirty st')"
  by (cases op) (auto simp: config_setter_defs)

lemma config_init_ok:
  assumes "nvs_laws api" "config_init api s st0 = Some (NVS_OK, st, s')"
  shows "config_wf (s_cfg st) \<and> load_from_nvs api s' config_defaults = s_cfg st"
proof -
  let ?r = "nvs_flash_init api s"
  have l: "length (cfg_drive config_defaults) = 4" by (simp add: config_defaults_def)
  have "s_cfg st = config_defaults \<and> nvs_open_ro api s' = NVS_NOT_FOUND \<or>
        s_cfg st = load_from_nvs api s' config_defaults"
    using assms(2) by (auto simp: config_init_def Let_def split: if_splits)
  moreover have "nvs_open_ro api s' = NVS_NOT_FOUND \<Longrightarrow> load_from_nvs api s' config_defaults = config_defaults"
    using assms(1) by (intro load_empty[OF l]) (simp add: nvs_laws_def)
  ultimately show ?thesis
    using config_wf_load[OF config_wf_defaults, of api s'] by auto
qed

lemma config_wipe_ok:
  assumes "nvs_laws api" "config_wipe api s st = (NVS_OK, st', s')"
  shows "s_cfg st' = config_defaults" "nvs_get api s' = Map.empty" "\<not> s_dirty st'"
  using assms by (auto simp: config_wipe_def Let_def nvs_laws_def split: if_splits)

lemma config_reach_inv:
  assumes "nvs_laws api" "config_reach api p"
  shows "config_wf (s_cfg (fst p)) \<and>
    (\<not> s_dirty (fst p) \<longrightarrow> load_from_nvs api (snd p) config_defaults = s_cfg (fst p))"
  using assms(2)
proof induction
  case (boot s st0 st s')
  then show ?case using config_init_ok[OF assms(1)] by simp
next
  case (step p op rc p')
  obtain st s st' s' where p: "p = (st, s)" "p' = (st', s')" by (metis surj_pair)
  have l: "length (cfg_drive config_defaults) = 4" by (simp add: config_defaults_def)
  have wf: "config_wf (s_cfg st')"
    using step p config_step_wf[of st api op s] by simp
  consider "op = OpSave" | "op = OpWipe" "rc = NVS_OK" | "op \<noteq> OpSave" "op \<noteq> OpWipe"
    using step by blast
  then show ?case
  proof cases
    case 1
    have e: "config_save api s st = (rc, st', s')" using 1 step p by simp
    have "s_cfg st' = s_cfg st" using config_save_cfg[of api s st] e by simp
    moreover have "rc \<noteq> NVS_OK \<Longrightarrow> st' = st"
      using e by (auto simp: config_save_def Let_def split: if_splits)
    ultimately show ?thesis
      using step p wf e config_save_flash[OF assms(1), of st s config_defaults]
        config_save_ok[OF assms(1), of st s st' s'] l load_after_put_all[of "s_cfg st" config_defaults api s']
      by (cases "rc = NVS_OK") (auto simp: map_add_Some_iff)
  next
    case 2
    then show ?thesis
      using step p wf config_wipe_ok[OF assms(1), of s st st' s'] load_empty[OF l] by simp
  next
    case 3
    then show ?thesis
      using step p wf config_setter_clean[of op api st s rc st' s'] by auto
  qed
qed

section \<open>Properties\<close>

text \<open>A flash that never fails, for the witnesses.\<close>

definition flash_ok :: "(string \<rightharpoonup> nvs_val) nvs_api" where
  "flash_ok =
     \<lparr> nvs_flash_init = (\<lambda>s. (NVS_OK, s)), nvs_flash_erase = (\<lambda>s. (NVS_OK, Map.empty)),
       nvs_open_ro = (\<lambda>s. NVS_OK),
       nvs_open_rw = (\<lambda>s. (NVS_OK, s)), nvs_get = (\<lambda>s. s),
       nvs_set = (\<lambda>s k v. (NVS_OK, s(k \<mapsto> v))), nvs_commit = (\<lambda>s. (NVS_OK, s)),
       nvs_erase_all = (\<lambda>s. (NVS_OK, Map.empty)) \<rparr>"

lemma flash_ok_laws: "nvs_laws flash_ok"
  by (simp add: nvs_laws_def flash_ok_def)

lemma flash_ok_save: "\<exists>st' s'. config_save flash_ok s st = (NVS_OK, st', s')"
proof -
  have put: "fst (nvs_put_all flash_ok kvs s) = NVS_OK" for kvs s
    by (induction kvs arbitrary: s) (auto simp: flash_ok_def Let_def)
  obtain rc st' s' where e: "config_save flash_ok s st = (rc, st', s')" by (metis surj_pair)
  then have "rc = NVS_OK"
    using put by (auto simp: config_save_def Let_def flash_ok_def split: if_splits)
  with e show ?thesis by blast
qed

text \<open>
  A configuration that \<open>config_save\<close> stored is the one the next boot loads: if the save
  reported success and the flash can be opened again, \<open>config_init\<close> returns success with
  every field of the saved configuration, not dirty.
\<close>

theorem config_save_boot:
  assumes "nvs_laws api" "config_wf (s_cfg st)" "config_save api s st = (NVS_OK, st', s')"
    and "fst (nvs_flash_init api s') = NVS_OK" "nvs_open_ro api (snd (nvs_flash_init api s')) = NVS_OK"
  shows "config_init api s' st0 =
    Some (NVS_OK, st0\<lparr>s_cfg := s_cfg st, s_loaded := True, s_dirty := False\<rparr>, snd (nvs_flash_init api s'))"
proof -
  have g: "nvs_get api (snd (nvs_flash_init api s')) = nvs_get api s'"
    using assms(1,4) by (simp add: nvs_laws_def)
  have "load_from_nvs api (snd (nvs_flash_init api s')) config_defaults = s_cfg st"
    by (rule load_after_put_all[OF assms(2)])
      (simp_all add: config_defaults_def g config_save_ok[OF assms(1-3)])
  then show ?thesis
    using assms(4,5) by (simp add: config_init_def Let_def)
qed

theorem config_save_boot_witness:
  "map_option (\<lambda>r. cfg_drive (s_cfg (fst (snd r))) ! 2)
     (config_init flash_ok
       (snd (snd (config_save flash_ok Map.empty
          (config_set_drive 2 (Some ''GAMES/CPM22.DSK'')
             \<lparr>s_cfg = config_defaults, s_dirty = False, s_loaded = True\<rparr>))))
       \<lparr>s_cfg = config_defaults, s_dirty = False, s_loaded = False\<rparr>)
   = Some ''GAMES/CPM22.DSK''"
proof -
  let ?st = "config_set_drive 2 (Some ''GAMES/CPM22.DSK'')
           \<lparr>s_cfg = config_defaults, s_dirty = False, s_loaded = True\<rparr>"
  have d: "s_cfg ?st = config_defaults\<lparr>cfg_drive := [[], [], ''GAMES/CPM22.DSK'', []]\<rparr>"
    by (simp add: config_set_drive_def config_defaults_def strneq_def)
  then have wf: "config_wf (s_cfg ?st)"
    by (simp add: config_wf_def config_defaults_def)
  obtain st' s' where e: "config_save flash_ok Map.empty ?st = (NVS_OK, st', s')"
    using flash_ok_save by blast
  have "fst (nvs_flash_init flash_ok s') = NVS_OK"
    "nvs_open_ro flash_ok (snd (nvs_flash_init flash_ok s')) = NVS_OK"
    by (simp_all add: flash_ok_def)
  note boot = config_save_boot[OF flash_ok_laws wf e this]
  show ?thesis
    unfolding e by (simp add: boot d)
qed

text \<open>
  C22. A clean configuration is a saved one: after a boot and any sequence of setters, saves
  (successful or failing at any key) and successful wipes, every string still leaves room
  for its NUL, and if the dirty flag is off then what a boot would load from the flash is
  exactly the configuration in RAM.
\<close>

theorem config_clean_is_saved:
  assumes "nvs_laws api" "config_reach api (st, s)"
  shows "config_wf (s_cfg st) \<and>
    (\<not> s_dirty st \<longrightarrow> load_from_nvs api s config_defaults = s_cfg st)"
  using config_reach_inv[OF assms] by simp

theorem config_clean_is_saved_witness:
  "config_wf (s_cfg (config_set_baud 230400 \<lparr>s_cfg = config_defaults, s_dirty = False, s_loaded = True\<rparr>))"
proof -
  have "config_reach flash_ok (\<lparr>s_cfg = config_defaults, s_dirty = False, s_loaded = True\<rparr>,
      Map.empty(''baudRate'' \<mapsto> NU32 403200))"
    by (rule config_reach.boot[where s = "Map.empty(''baudRate'' \<mapsto> NU32 403200)"
          and ?st0.0 = "\<lparr>s_cfg = config_defaults, s_dirty = False, s_loaded = True\<rparr>"])
      (simp add: config_init_def flash_ok_def load_from_nvs_def load_str_def load_flag_def load_u8_def
        key_drive_def config_defaults_def)
  from config_reach.step[OF this, of "OpBaud 230400"]
  have "config_reach flash_ok (config_set_baud 230400 \<lparr>s_cfg = config_defaults, s_dirty = False, s_loaded = True\<rparr>,
      Map.empty(''baudRate'' \<mapsto> NU32 403200))" by simp
  from config_clean_is_saved[OF flash_ok_laws this] show ?thesis by simp
qed

text \<open>
  C28. No field of the configuration ever overflows its buffer: whatever the flash holds (keys
  missing, values of the wrong type or too long) and however its calls fail, after
  \<open>config_init\<close> and any sequence of setters, saves and wipes, with any arguments, every string
  fits its field and there are exactly four drive names.
\<close>

theorem config_fields_fit:
  assumes "config_init api s st0 = Some (rc, st, s')"
  shows "config_wf (s_cfg (fst (fold (\<lambda>op p. snd (config_step api op p)) ops (st, s'))))"
proof -
  have i: "config_wf (s_cfg st)"
    using assms by (auto simp: config_init_def Let_def config_wf_load split: if_splits)
  have "config_wf (s_cfg (fst (fold (\<lambda>op p. snd (config_step api op p)) ops p)))" if "config_wf (s_cfg (fst p))" for p
    using that
  proof (induction ops arbitrary: p)
    case (Cons op ops)
    then show ?case using config_step_wf[of "fst p" api op "snd p"] by simp
  qed simp
  from this[of "(st, s')"] i show ?thesis by simp
qed

theorem config_fields_fit_witness:
  "config_wf (s_cfg (config_set_str CFG_STR_WIFI_SSID (Some (replicate 99 CHR ''x''))
     \<lparr>s_cfg = config_defaults, s_dirty = False, s_loaded = True\<rparr>))"
proof -
  let ?st = "\<lparr>s_cfg = config_defaults, s_dirty = False, s_loaded = True\<rparr>"
  have "config_init flash_ok (Map.empty(''baudRate'' \<mapsto> NU32 403200)) ?st =
      Some (NVS_OK, ?st, Map.empty(''baudRate'' \<mapsto> NU32 403200))"
    by (simp add: config_init_def flash_ok_def load_from_nvs_def load_str_def load_flag_def load_u8_def
        key_drive_def config_defaults_def)
  from config_fields_fit[OF this, of "[OpStr CFG_STR_WIFI_SSID (Some (replicate 99 CHR ''x''))]"] show ?thesis by simp
qed

end
