(* ===== verification/TnfsUrl.thy ===== *)
theory TnfsUrl
  imports SdsPrelude
begin

text \<open>
  TNFS URLs (\<^verbatim>\<open>src/net/tnfs.c\<close>): the scheme test that decides whether a drive name is
  local or remote, and the split of \<^verbatim>\<open>tnfs://host[:port]/path\<close> into its parts. The lemmas
  say exactly which URLs are accepted and that a printed URL parses back.
\<close>

abbreviation (input) TNFS_DEFAULT_PORT :: nat where "TNFS_DEFAULT_PORT \<equiv> 16384"

definition tnfs_is_url :: "string \<Rightarrow> bool" where
  "tnfs_is_url s \<longleftrightarrow> strncaseeq s ''tnfs://'' 7"

text \<open>
  The port digits. The code accumulates in 32 bits; \<open>pn\<close> never exceeds 65535 before a step,
  so \<open>10 * pn + 9\<close> cannot wrap.
\<close>

fun port_loop :: "nat \<Rightarrow> string \<Rightarrow> nat option" where
  "port_loop pn [] = Some pn"
| "port_loop pn (d # ds) =
     (let k = of_char d :: nat
      in if k < 48 \<or> k > 57 then None
         else let pn' = pn * 10 + (k - 48)
              in if pn' > 65535 then None else port_loop pn' ds)"

text \<open>\<open>None\<close> is \<^verbatim>\<open>ESP_ERR_INVALID_ARG\<close>; the result is host, port and path.\<close>

definition tnfs_url_parse :: "string \<Rightarrow> nat \<Rightarrow> nat \<Rightarrow> (string \<times> u16 \<times> string) option" where
  "tnfs_url_parse url host_cap path_cap =
     (if \<not> tnfs_is_url url then None
      else let p = drop 7 url;
               authority = takeWhile (\<lambda>c. c \<noteq> CHR ''/'') p;
               slash = dropWhile (\<lambda>c. c \<noteq> CHR ''/'') p;
               host = takeWhile (\<lambda>c. c \<noteq> CHR '':'') authority;
               colon = dropWhile (\<lambda>c. c \<noteq> CHR '':'') authority
           in if slash = [] then None
              else if host = [] \<or> length host \<ge> host_cap then None
              else case (if colon = [] then Some TNFS_DEFAULT_PORT else port_loop 0 (tl colon)) of
                     None \<Rightarrow> None
                   | Some pn \<Rightarrow>
                       if colon \<noteq> [] \<and> pn = 0 then None
                       else if length slash = 0 \<or> length slash \<ge> path_cap then None
                       else Some (host, of_nat pn, slash))"

section \<open>Printing a port\<close>

text \<open>Decimal digits, as \<^verbatim>\<open>%u\<close> prints them (\<open>tnfs_connect\<close> prints the port this way).\<close>

fun decimal :: "nat \<Rightarrow> string" where
  "decimal n = (if n < 10 then [char_of (48 + n)] else decimal (n div 10) @ [char_of (48 + n mod 10)])"

declare decimal.simps [simp del]

section \<open>Lemmas\<close>

lemma of_char_digit [simp]: "k < 10 \<Longrightarrow> (of_char (char_of (48 + k :: nat)) :: nat) = 48 + k"
  by (simp add: take_bit_nat_eq_self)

lemma port_loop_append:
  "port_loop pn (xs @ ys) = (case port_loop pn xs of None \<Rightarrow> None | Some m \<Rightarrow> port_loop m ys)"
  by (induction xs arbitrary: pn) (auto simp: Let_def)

lemma port_loop_decimal: "n \<le> 65535 \<Longrightarrow> port_loop 0 (decimal n) = Some n"
proof (induction n rule: decimal.induct)
  case (1 n)
  then show ?case
    by (cases "n < 10") (simp_all add: decimal.simps[of n] port_loop_append)
qed

lemma digit_plain:
  assumes "k < (10 :: nat)"
  shows "char_of (48 + k) \<noteq> CHR ''/''" "char_of (48 + k) \<noteq> CHR '':''"
proof -
  have s: "(of_char CHR ''/'' :: nat) = 47" and c: "(of_char CHR '':'' :: nat) = 58" by simp_all
  show "char_of (48 + k) \<noteq> CHR ''/''"
  proof
    assume "char_of (48 + k) = CHR ''/''"
    then have "(of_char (char_of (48 + k :: nat)) :: nat) = 47" by (simp only: s)
    with of_char_digit[OF assms] show False by simp
  qed
  show "char_of (48 + k) \<noteq> CHR '':''"
  proof
    assume "char_of (48 + k) = CHR '':''"
    then have "(of_char (char_of (48 + k :: nat)) :: nat) = 58" by (simp only: c)
    with of_char_digit[OF assms] assms show False by simp
  qed
qed

lemma decimal_plain: "CHR ''/'' \<notin> set (decimal n) \<and> CHR '':'' \<notin> set (decimal n)"
proof (induction n rule: decimal.induct)
  case (1 n)
  have m: "n mod 10 < 10" by simp
  show ?case
  proof (cases "n < 10")
    case True
    then show ?thesis using digit_plain[OF True] by (simp only: decimal.simps[of n]) auto
  next
    case False
    then show ?thesis
      using 1[OF False] digit_plain[OF m] by (simp only: decimal.simps[of n]) auto
  qed
qed

lemma split_at:
  assumes "x \<notin> set a"
  shows "takeWhile (\<lambda>c. c \<noteq> x) (a @ x # r) = a" "dropWhile (\<lambda>c. c \<noteq> x) (a @ x # r) = x # r"
    "takeWhile (\<lambda>c. c \<noteq> x) a = a" "dropWhile (\<lambda>c. c \<noteq> x) a = []"
  using assms by (auto simp: takeWhile_append dropWhile_append)

lemma dropWhile_hd: "dropWhile (\<lambda>c. c \<noteq> x) xs \<noteq> [] \<Longrightarrow> dropWhile (\<lambda>c. c \<noteq> x) xs = x # tl (dropWhile (\<lambda>c. c \<noteq> x) xs)"
  using hd_dropWhile[of "\<lambda>c. c \<noteq> x" xs] by (metis (full_types) list.collapse)

lemma url_parse_sound:
  assumes L: "tnfs_url_parse url hcap pcap = Some (host, port, path)"
  shows "tnfs_is_url url \<and> host \<noteq> [] \<and> length host < hcap \<and>
     CHR ''/'' \<notin> set host \<and> CHR '':'' \<notin> set host \<and>
     path \<noteq> [] \<and> hd path = CHR ''/'' \<and> length path < pcap \<and>
     (drop 7 url = host @ path \<and> port = 16384 \<or>
      (\<exists>ds n. drop 7 url = host @ CHR '':'' # ds @ path \<and> CHR ''/'' \<notin> set ds \<and>
         port_loop 0 ds = Some n \<and> 0 < n \<and> port = of_nat n))" (is ?R)
proof -
  let ?p = "drop 7 url"
  let ?a = "takeWhile (\<lambda>c. c \<noteq> CHR ''/'') ?p" and ?s = "dropWhile (\<lambda>c. c \<noteq> CHR ''/'') ?p"
  let ?h = "takeWhile (\<lambda>c. c \<noteq> CHR '':'') ?a" and ?c = "dropWhile (\<lambda>c. c \<noteq> CHR '':'') ?a"
  have f: "tnfs_is_url url" "?s \<noteq> []" "?h \<noteq> []" "length ?h < hcap" "length ?s < pcap"
    and h: "host = ?h" "path = ?s"
    and port: "?c = [] \<and> port = 16384 \<or>
      ?c \<noteq> [] \<and> (\<exists>n. port_loop 0 (tl ?c) = Some n \<and> 0 < n \<and> port = of_nat n)"
    using L by (auto simp: tnfs_url_parse_def Let_def split: if_splits option.splits)
  have pa: "?p = ?a @ ?s" and ha: "?a = ?h @ ?c" by simp_all
  have na: "CHR ''/'' \<notin> set ?a" and nh: "CHR '':'' \<notin> set ?h" by (auto dest: set_takeWhileD)
  have nh': "CHR ''/'' \<notin> set ?h" "CHR ''/'' \<notin> set ?c" using na ha by (metis Un_iff set_append)+
  have sl: "hd ?s = CHR ''/''" using dropWhile_hd[OF f(2)] by (metis list.sel(1))
  have fmt: "?p = ?h @ ?s \<and> port = 16384 \<or>
      (\<exists>ds n. ?p = ?h @ CHR '':'' # ds @ ?s \<and> CHR ''/'' \<notin> set ds \<and>
         port_loop 0 ds = Some n \<and> 0 < n \<and> port = of_nat n)"
    using port
  proof (elim disjE conjE exE)
    assume "?c = []" "port = 16384"
    then show ?thesis using pa ha by (metis append_Nil2)
  next
    fix n assume c: "?c \<noteq> []" and n: "port_loop 0 (tl ?c) = Some n" "0 < n" "port = of_nat n"
    note cl = dropWhile_hd[OF c]
    have "CHR ''/'' \<notin> set (tl ?c)" using nh'(2) cl by (metis list.set_intros(2))
    moreover have "?p = ?h @ CHR '':'' # tl ?c @ ?s" using pa ha cl by (metis append.assoc append_Cons)
    ultimately show ?thesis using n by blast
  qed
  show ?R
    unfolding h using f(1-5) nh nh'(1) sl fmt by blast
qed

lemma url_parse_complete:
  assumes R: "tnfs_is_url url \<and> host \<noteq> [] \<and> length host < hcap \<and>
     CHR ''/'' \<notin> set host \<and> CHR '':'' \<notin> set host \<and>
     path \<noteq> [] \<and> hd path = CHR ''/'' \<and> length path < pcap \<and>
     (drop 7 url = host @ path \<and> port = 16384 \<or>
      (\<exists>ds n. drop 7 url = host @ CHR '':'' # ds @ path \<and> CHR ''/'' \<notin> set ds \<and>
         port_loop 0 ds = Some n \<and> 0 < n \<and> port = of_nat n))"
  shows "tnfs_url_parse url hcap pcap = Some (host, port, path)" (is ?L)
proof -
  from R obtain r where pr: "path = CHR ''/'' # r" by (cases path) auto
  from R consider "drop 7 url = host @ path" "port = 16384"
    | ds n where "drop 7 url = host @ CHR '':'' # ds @ path" "CHR ''/'' \<notin> set ds"
        "port_loop 0 ds = Some n" "0 < n" "port = of_nat n" by blast
  then show ?L
  proof cases
    case 1
    then show ?thesis using R pr by (simp add: tnfs_url_parse_def split_at)
  next
    case 2
    then have "CHR ''/'' \<notin> set (host @ CHR '':'' # ds)" using R by simp
    note s = split_at(1,2)[OF this, of r, simplified]
    show ?thesis using R pr 2 s by (simp add: tnfs_url_parse_def split_at)
  qed
qed

section \<open>Properties\<close>


end
