(* ===== verification/DiskStore.thy ===== *)
theory DiskStore
  imports Protocol SdPath TnfsUrl
begin

text \<open>
  The disk store (\<^verbatim>\<open>src/disk/disk.c\<close>): the four-drive mount table, the backings (a local
  file on the card, or a remote TNFS session), the shared 8192-byte track buffer with its
  one-entry cache, the mount lock that guards changes to files, and the operations on
  them. Each definition is one critical section of the code, or one call made of them in
  the code's order.

  The card and the network are parameters: the outcome of a stdio transfer (\<open>io\<close>), what
  the card's directory holds (\<open>sd_card\<close>), what a TNFS open and transfer do (\<open>tnfs_ops\<close>),
  and what the other tasks do while a caller waits for its remote job (the argument
  \<open>run\<close> of \<open>rjob_post_wait\<close>).
\<close>

abbreviation (input) DISK_MAX_DRIVE :: nat where "DISK_MAX_DRIVE \<equiv> 4"
abbreviation (input) DISK_TRACK_BUF_SIZE :: nat where "DISK_TRACK_BUF_SIZE \<equiv> 8192"
abbreviation (input) DISK_FILE_CAP :: nat where "DISK_FILE_CAP \<equiv> 129"
abbreviation (input) DISK_CANON_CAP :: nat where "DISK_CANON_CAP \<equiv> 258"

section \<open>Backings\<close>

text \<open>A file on the card, or one on a TNFS server.\<close>

datatype fobj = SdFile nat | NetFile nat

text \<open>
  A \<^verbatim>\<open>disk_backing_t\<close> on the heap: \<open>b_id\<close> is its address (what \<open>==\<close> on pointers compares),
  \<open>b_obj\<close> the open file behind it (its constructor is the choice of the four methods), and
  \<open>b_size\<close> the size remembered at the open.
\<close>

record backing =
  b_id :: nat
  b_obj :: fobj
  b_size :: u32

text \<open>
  One stdio transfer: whether \<^verbatim>\<open>fseek\<close> succeeds, how many bytes \<^verbatim>\<open>fread\<close> or \<^verbatim>\<open>fwrite\<close> report at
  most, whether \<^verbatim>\<open>fflush\<close> and \<^verbatim>\<open>fsync\<close> succeed, and, when a write fails, the bytes it left in
  the region it was writing.
\<close>

record io =
  seek_ok :: bool
  xfer :: nat
  flush_ok :: bool
  sync_ok :: bool
  torn :: bytes

definition local_read_at :: "io \<Rightarrow> bytes \<Rightarrow> u32 \<Rightarrow> bytes \<Rightarrow> nat \<Rightarrow> esp_err \<times> bytes" where
  "local_read_at i data off buf len =
     (if \<not> seek_ok i then (ESP_FAIL, buf)
      else let got = take (xfer i) (slice (unat off) len data)
           in (if length got = len then ESP_OK else ESP_FAIL, memcpy0 got buf))"

definition local_write_at :: "io \<Rightarrow> bytes \<Rightarrow> u32 \<Rightarrow> bytes \<Rightarrow> nat \<Rightarrow> esp_err \<times> bytes" where
  "local_write_at i data off buf len =
     (let w = take len buf; failed = overwrite (unat off) (take len (torn i)) data
      in if \<not> seek_ok i then (ESP_FAIL, data)
         else if xfer i < len then (ESP_FAIL, failed)
         else if \<not> flush_ok i then (ESP_FAIL, failed)
         else if \<not> sync_ok i then (ESP_FAIL, failed)
         else (ESP_OK, overwrite (unat off) w data))"

section \<open>The mount table\<close>

record drive_t =
  mounted :: bool
  remote :: bool
  readonly :: bool
  dname :: string
  canon :: string
  backing_of :: "backing option"

record cache_t =
  valid :: bool
  c_drive :: int
  c_track :: u32
  c_len :: nat

datatype rjob_type = RJOB_READ | RJOB_WRITE | RJOB_MOUNT | RJOB_CLOSE

record rjob =
  jtype :: rjob_type
  jdrive :: int
  jtrack :: u32
  jlen :: nat
  wdata :: bytes
  bclose :: "backing option"

text \<open>
  The state of the module, with the world it acts on: \<open>files\<close> are the contents behind the
  backings, \<open>next_id\<close> the heap's next address, \<open>closed\<close> the backings closed so far, \<open>s_rq\<close>
  the worker's queue (\<open>None\<close> before \<open>disk_init\<close>), \<open>s_lock\<close>, \<open>s_mount_lock\<close> and \<open>s_job_mtx\<close>
  whether the semaphores exist, \<open>s_stage\<close> the worker's private buffer and \<open>mount_depth\<close> how
  often the mount lock is held by the running task.
\<close>

record disk_state =
  s_drv :: "drive_t list"
  s_track_buf :: bytes
  s_cache :: cache_t
  s_rq :: "rjob list option"
  mount_depth :: nat
  s_lock :: bool
  s_mount_lock :: bool
  s_job_mtx :: bool
  s_stage :: bytes
  files :: "fobj \<Rightarrow> bytes"
  next_id :: nat
  closed :: "backing list"

definition drive_ok :: "int \<Rightarrow> bool" where
  "drive_ok drive \<longleftrightarrow> drive \<ge> 0 \<and> drive < int DISK_MAX_DRIVE"

abbreviation drv :: "disk_state \<Rightarrow> int \<Rightarrow> drive_t" where
  "drv st drive \<equiv> s_drv st ! nat drive"

definition set_drv :: "int \<Rightarrow> (drive_t \<Rightarrow> drive_t) \<Rightarrow> disk_state \<Rightarrow> disk_state" where
  "set_drv drive f st = st\<lparr>s_drv := (s_drv st)[nat drive := f (drv st drive)]\<rparr>"

definition cache_drop_drive :: "int \<Rightarrow> disk_state \<Rightarrow> disk_state" where
  "cache_drop_drive drive st =
     (if valid (s_cache st) \<and> c_drive (s_cache st) = drive
      then st\<lparr>s_cache := (s_cache st)\<lparr>valid := False\<rparr>\<rparr> else st)"

text \<open>\<^verbatim>\<open>memcpy(s_track_buf, data, len)\<close> and the cache entry that goes with it.\<close>

definition cache_fill :: "int \<Rightarrow> u32 \<Rightarrow> nat \<Rightarrow> bytes \<Rightarrow> disk_state \<Rightarrow> disk_state" where
  "cache_fill drive track len data st =
     st\<lparr>s_track_buf := memcpy0 (take len data) (s_track_buf st),
        s_cache := \<lparr>valid = True, c_drive = drive, c_track = track, c_len = len\<rparr>\<rparr>"

definition mount_lock :: "disk_state \<Rightarrow> disk_state" where
  "mount_lock st = st\<lparr>mount_depth := mount_depth st + 1\<rparr>"

definition mount_unlock :: "disk_state \<Rightarrow> disk_state" where
  "mount_unlock st = st\<lparr>mount_depth := mount_depth st - 1\<rparr>"

section \<open>Remote jobs: posting\<close>

definition rjob_new :: "bool \<Rightarrow> rjob_type \<Rightarrow> int \<Rightarrow> rjob option" where
  "rjob_new alloc_ok ty drive =
     (if alloc_ok
      then Some \<lparr>jtype = ty, jdrive = drive, jtrack = 0, jlen = 0, wdata = [], bclose = None\<rparr>
      else None)"

definition rjob_new_io :: "bool \<Rightarrow> bool \<Rightarrow> rjob_type \<Rightarrow> int \<Rightarrow> u32 \<Rightarrow> nat \<Rightarrow> bytes \<Rightarrow> rjob option" where
  "rjob_new_io alloc_ok malloc_ok ty drive track len data =
     (case rjob_new alloc_ok ty drive of
        None \<Rightarrow> None
      | Some j \<Rightarrow> let j = j\<lparr>jtrack := track, jlen := len\<rparr>
                  in if ty = RJOB_WRITE
                     then if malloc_ok then Some (j\<lparr>wdata := take len data\<rparr>) else None
                     else Some j)"

definition rjob_post_async :: "bool \<Rightarrow> rjob option \<Rightarrow> disk_state \<Rightarrow> esp_err \<times> disk_state" where
  "rjob_post_async room j st =
     (case j of
        None \<Rightarrow> (ESP_ERR_NO_MEM, st)
      | Some j \<Rightarrow>
          (case s_rq st of
             None \<Rightarrow> (ESP_ERR_INVALID_STATE, st)
           | Some q \<Rightarrow> if \<not> room then (ESP_ERR_TIMEOUT, st)
                       else (ESP_OK, st\<lparr>s_rq := Some (q @ [j])\<rparr>)))"

text \<open>
  \<open>run j st\<close> is what happens while the caller waits for its posted job: the state when it
  wakes, and the job's result, or \<open>None\<close> when the wait timed out on a job the worker had not
  finished (the job is then abandoned to the worker).
\<close>

type_synonym wait_env = "rjob \<Rightarrow> disk_state \<Rightarrow> esp_err option \<times> disk_state"

definition rjob_post_wait :: "bool \<Rightarrow> bool \<Rightarrow> wait_env \<Rightarrow> rjob option \<Rightarrow> disk_state \<Rightarrow> esp_err \<times> disk_state" where
  "rjob_post_wait sem_ok room run j st =
     (case j of
        None \<Rightarrow> (ESP_ERR_NO_MEM, st)
      | Some j \<Rightarrow>
          (case s_rq st of
             None \<Rightarrow> (ESP_ERR_INVALID_STATE, st)
           | Some q \<Rightarrow>
               if \<not> sem_ok then (ESP_ERR_NO_MEM, st)
               else if \<not> room then (ESP_ERR_TIMEOUT, st)
               else (case run j (st\<lparr>s_rq := Some (q @ [j])\<rparr>) of
                       (Some r, st') \<Rightarrow> (r, st')
                     | (None, st') \<Rightarrow> (ESP_ERR_TIMEOUT, st'))))"

text \<open>\<open>b->close(b)\<close>, and the hand-over of a remote session to the worker (leaked on failure).\<close>

definition backing_close :: "backing \<Rightarrow> disk_state \<Rightarrow> disk_state" where
  "backing_close b st = st\<lparr>closed := b # closed st\<rparr>"

definition backing_dispose :: "bool \<Rightarrow> bool \<Rightarrow> backing option \<Rightarrow> bool \<Rightarrow> disk_state \<Rightarrow> disk_state" where
  "backing_dispose alloc_ok room b rem st =
     (case b of
        None \<Rightarrow> st
      | Some bk \<Rightarrow>
          if \<not> rem then backing_close bk st
          else (case rjob_new alloc_ok RJOB_CLOSE (-1) of
                  None \<Rightarrow> st
                | Some j \<Rightarrow> snd (rjob_post_async room (Some (j\<lparr>bclose := Some bk\<rparr>)) st)))"

section \<open>Mounting and unmounting\<close>

text \<open>
  What the calls on the card return: whether a card is mounted, FatFs' drive number and
  directory lookup (for \<open>sd_canonical\<close>), the file \<^verbatim>\<open>fopen(path, "r+b")\<close> opens, whether
  \<^verbatim>\<open>fseek\<close> to the end succeeds; and whether the network is up and the allocations, the queue
  and the semaphores succeed. \<open>e_topen\<close>, \<open>e_tread\<close> and \<open>e_twrite\<close> are \<^verbatim>\<open>tnfs_open\<close> (the
  remote file and its size), \<^verbatim>\<open>tnfs_read_at\<close> and \<^verbatim>\<open>tnfs_write_at\<close> on the remote file's
  contents. \<open>e_run\<close> is the wait for a remote job (see \<open>rjob_post_wait\<close>).
\<close>

record disk_env =
  e_sd_mounted :: bool
  e_pdrv :: "string option"
  e_fstat :: f_stat
  e_fopen :: "string \<Rightarrow> nat option"
  e_seek_end :: bool
  e_net :: bool
  e_alloc :: bool
  e_malloc :: bool
  e_sem :: bool
  e_room :: bool
  e_io :: io
  e_topen :: "string \<Rightarrow> bool \<Rightarrow> bool \<Rightarrow> esp_err + (nat \<times> u32)"
  e_tread :: "bytes \<Rightarrow> u32 \<Rightarrow> bytes \<Rightarrow> nat \<Rightarrow> esp_err \<times> bytes"
  e_twrite :: "bytes \<Rightarrow> u32 \<Rightarrow> bytes \<Rightarrow> nat \<Rightarrow> esp_err \<times> bytes"
  e_run :: wait_env

text \<open>
  \<^verbatim>\<open>long\<close> is 32 bits on the target, so \<^verbatim>\<open>ftell\<close> fails on a file of 2 GiB or more. The result
  is the new backing, or the error with no backing made.
\<close>

definition local_open :: "disk_env \<Rightarrow> string \<Rightarrow> disk_state \<Rightarrow> (esp_err + backing) \<times> disk_state" where
  "local_open e name st =
     (case sd_path name (16 + DISK_FILE_CAP) of
        None \<Rightarrow> (Inl ESP_ERR_INVALID_ARG, st)
      | Some path \<Rightarrow>
          (case e_fopen e path of
             None \<Rightarrow> (Inl ESP_ERR_NOT_FOUND, st)
           | Some f \<Rightarrow>
               let sz = length (files st (SdFile f))
               in if \<not> e_seek_end e then (Inl ESP_FAIL, st)
                  else if sz \<ge> 2147483648 then (Inl ESP_FAIL, st)
                  else if \<not> e_alloc e then (Inl ESP_ERR_NO_MEM, st)
                  else (Inr \<lparr>b_id = next_id st, b_obj = SdFile f, b_size = of_nat sz\<rparr>,
                        st\<lparr>next_id := next_id st + 1\<rparr>)))"

text \<open>The slot's fields after each kind of table update.\<close>

definition slot_empty :: "drive_t \<Rightarrow> drive_t" where
  "slot_empty d = d\<lparr>backing_of := None, mounted := False, remote := False, readonly := False,
                    dname := [], canon := []\<rparr>"

definition slot_remote :: "string \<Rightarrow> drive_t \<Rightarrow> drive_t" where
  "slot_remote url d = d\<lparr>backing_of := None, mounted := False, remote := True, readonly := False,
                         dname := strlcpy url DISK_FILE_CAP, canon := []\<rparr>"

definition slot_local :: "backing \<Rightarrow> string \<Rightarrow> string \<Rightarrow> drive_t \<Rightarrow> drive_t" where
  "slot_local b name cn d = d\<lparr>backing_of := Some b, mounted := True, remote := False, readonly := False,
                              dname := strlcpy name DISK_FILE_CAP, canon := strlcpy cn DISK_CANON_CAP\<rparr>"

text \<open>One update of a slot under both locks; the old backing is disposed of afterwards.\<close>

definition slot_swap :: "disk_env \<Rightarrow> int \<Rightarrow> (drive_t \<Rightarrow> drive_t) \<Rightarrow> disk_state \<Rightarrow> disk_state" where
  "slot_swap e drive f st =
     backing_dispose (e_alloc e) (e_room e) (backing_of (drv st drive)) (remote (drv st drive))
       (cache_drop_drive drive (set_drv drive f st))"

definition remote_configure :: "disk_env \<Rightarrow> int \<Rightarrow> string \<Rightarrow> disk_state \<Rightarrow> esp_err \<times> disk_state" where
  "remote_configure e drive url st =
     (let st = slot_swap e drive (slot_remote url) st
      in if \<not> e_net e then (ESP_OK, st)
         else case rjob_new (e_alloc e) RJOB_MOUNT drive of
                None \<Rightarrow> (ESP_ERR_NO_MEM, st)
              | Some j \<Rightarrow> rjob_post_wait (e_sem e) (e_room e) (e_run e) (Some j) st)"

definition disk_unmount :: "disk_env \<Rightarrow> int \<Rightarrow> disk_state \<Rightarrow> esp_err \<times> disk_state" where
  "disk_unmount e drive st =
     (if \<not> drive_ok drive then (ESP_ERR_INVALID_ARG, st)
      else (ESP_OK, slot_swap e drive slot_empty st))"

text \<open>\<open>None\<close> for \<open>name\<close> is the NULL pointer.\<close>

definition disk_mount :: "disk_env \<Rightarrow> int \<Rightarrow> string option \<Rightarrow> disk_state \<Rightarrow> esp_err \<times> disk_state" where
  "disk_mount e drive nm st =
     (case nm of
        None \<Rightarrow> (ESP_ERR_INVALID_ARG, st)
      | Some name \<Rightarrow>
          if \<not> drive_ok drive \<or> name = [] then (ESP_ERR_INVALID_ARG, st)
          else if tnfs_is_url name then remote_configure e drive name st
          else if \<not> e_sd_mounted e then (ESP_ERR_INVALID_STATE, snd (disk_unmount e drive st))
          else (case local_open e name st of
                  (Inl err, st) \<Rightarrow> (err, snd (disk_unmount e drive st))
                | (Inr b, st) \<Rightarrow>
                    let cn = (case sd_path name (16 + DISK_FILE_CAP) of
                                None \<Rightarrow> strlcpy name DISK_CANON_CAP
                              | Some path \<Rightarrow>
                                  (case sd_canonical (e_sd_mounted e) (e_pdrv e) (e_fstat e) path DISK_CANON_CAP of
                                     None \<Rightarrow> strlcpy name DISK_CANON_CAP
                                   | Some c \<Rightarrow> c))
                    in (ESP_OK, slot_swap e drive (slot_local b name cn) st)))"

definition disk_unmount_all :: "disk_env \<Rightarrow> disk_state \<Rightarrow> disk_state" where
  "disk_unmount_all e st =
     (if \<not> s_lock st then st
      else fold (\<lambda>d st. snd (disk_unmount e (int d) st)) [0..<DISK_MAX_DRIVE] st)"

text \<open>
  \<open>disk_init\<close>: the first five arguments say whether the three semaphores, the queue and the
  worker task could be created.
\<close>

definition disk_init :: "bool \<Rightarrow> bool \<Rightarrow> bool \<Rightarrow> bool \<Rightarrow> bool \<Rightarrow> disk_state \<Rightarrow> esp_err \<times> disk_state" where
  "disk_init mtx rmtx jmtx q task st =
     (if \<not> s_lock st \<and> \<not> mtx then (ESP_ERR_NO_MEM, st)
      else let st = st\<lparr>s_lock := True\<rparr>
      in if \<not> s_mount_lock st \<and> \<not> rmtx then (ESP_ERR_NO_MEM, st)
      else let st = st\<lparr>s_mount_lock := True\<rparr>
      in if \<not> s_job_mtx st \<and> \<not> jmtx then (ESP_ERR_NO_MEM, st)
      else let st = st\<lparr>s_job_mtx := True\<rparr>
      in case s_rq st of
           Some _ \<Rightarrow> (ESP_OK, st)
         | None \<Rightarrow> if \<not> q then (ESP_ERR_NO_MEM, st)
                   else (if task then ESP_OK else ESP_ERR_NO_MEM, st\<lparr>s_rq := Some []\<rparr>))"

section \<open>The change guard\<close>

text \<open>
  The scan over the table for a mounted image that is the file \<open>cn\<close>, or lies in the folder
  \<open>cn\<close>; \<open>n\<close> is the length of \<open>cn\<close>.
\<close>

definition change_hits :: "string \<Rightarrow> drive_t \<Rightarrow> bool" where
  "change_hits cn dr \<longleftrightarrow>
     mounted dr \<and> \<not> remote dr \<and> canon dr \<noteq> [] \<and>
     (let n = length cn
      in n = 0 \<or> (strncaseeq (canon dr) cn n \<and>
                  (length (canon dr) = n \<or> canon dr ! n = CHR ''/'')))"

fun change_scan :: "nat \<Rightarrow> string \<Rightarrow> drive_t list \<Rightarrow> int" where
  "change_scan d cn [] = -1"
| "change_scan d cn (dr # drs) = (if change_hits cn dr then int d else change_scan (d + 1) cn drs)"

text \<open>The result is the return value and the state, the mount lock held or not.\<close>

definition disk_change_begin :: "disk_env \<Rightarrow> string \<Rightarrow> disk_state \<Rightarrow> int \<times> disk_state" where
  "disk_change_begin e path st =
     (if \<not> s_mount_lock st then (-1, st)
      else let st = mount_lock st
           in case sd_canonical (e_sd_mounted e) (e_pdrv e) (e_fstat e) path DISK_CANON_CAP of
                None \<Rightarrow> (-1, st)
              | Some cn \<Rightarrow> let d = change_scan 0 cn (s_drv st)
                           in if d \<ge> 0 then (d, mount_unlock st) else (-1, st))"

definition disk_change_end :: "disk_state \<Rightarrow> disk_state" where
  "disk_change_end st = (if s_mount_lock st then mount_unlock st else st)"

section \<open>Queries\<close>

definition disk_is_mounted :: "int \<Rightarrow> disk_state \<Rightarrow> bool" where
  "disk_is_mounted drive st \<longleftrightarrow> drive_ok drive \<and> mounted (drv st drive)"

definition disk_is_remote :: "int \<Rightarrow> disk_state \<Rightarrow> bool" where
  "disk_is_remote drive st \<longleftrightarrow> drive_ok drive \<and> remote (drv st drive)"

definition disk_is_readonly :: "int \<Rightarrow> disk_state \<Rightarrow> bool" where
  "disk_is_readonly drive st \<longleftrightarrow> drive_ok drive \<and> readonly (drv st drive)"

definition disk_name :: "int \<Rightarrow> disk_state \<Rightarrow> string" where
  "disk_name drive st = (if drive_ok drive then dname (drv st drive) else [])"

definition disk_image_size :: "int \<Rightarrow> disk_state \<Rightarrow> u32" where
  "disk_image_size drive st =
     (if \<not> disk_is_mounted drive st then 0
      else case backing_of (drv st drive) of Some b \<Rightarrow> b_size b | None \<Rightarrow> 0)"

definition disk_status_bitmap :: "disk_state \<Rightarrow> u16" where
  "disk_status_bitmap st =
     disk_status_bitmap_of (map (\<lambda>i. mounted (s_drv st ! i)) [0..<DISK_MAX_DRIVE]) DISK_MAX_DRIVE"

section \<open>Track I/O\<close>

definition backing_read_at :: "disk_env \<Rightarrow> backing \<Rightarrow> u32 \<Rightarrow> bytes \<Rightarrow> nat \<Rightarrow> disk_state \<Rightarrow> esp_err \<times> bytes" where
  "backing_read_at e b off buf len st =
     (case b_obj b of
        SdFile f \<Rightarrow> local_read_at (e_io e) (files st (b_obj b)) off buf len
      | NetFile f \<Rightarrow> e_tread e (files st (b_obj b)) off buf len)"

definition backing_write_at :: "disk_env \<Rightarrow> backing \<Rightarrow> u32 \<Rightarrow> bytes \<Rightarrow> nat \<Rightarrow> disk_state \<Rightarrow> esp_err \<times> disk_state" where
  "backing_write_at e b off buf len st =
     (let r = (case b_obj b of
                 SdFile f \<Rightarrow> local_write_at (e_io e) (files st (b_obj b)) off buf len
               | NetFile f \<Rightarrow> e_twrite e (files st (b_obj b)) off buf len)
      in (fst r, st\<lparr>files := (files st)(b_obj b := snd r)\<rparr>))"

definition check_track :: "int \<Rightarrow> u32 \<Rightarrow> nat \<Rightarrow> disk_state \<Rightarrow> esp_err" where
  "check_track drive track len st =
     (if \<not> drive_ok drive then ESP_ERR_INVALID_ARG
      else if len = 0 \<or> len > DISK_TRACK_BUF_SIZE then ESP_ERR_INVALID_SIZE
      else case backing_of (drv st drive) of
             None \<Rightarrow> ESP_ERR_INVALID_STATE
           | Some b \<Rightarrow>
               if \<not> mounted (drv st drive) then ESP_ERR_INVALID_STATE
               else if \<not> disk_track_in_bounds track (of_nat len) (b_size b) then ESP_ERR_INVALID_SIZE
               else ESP_OK)"

text \<open>What \<open>cache_copy_out\<close> copies to the caller, if it does.\<close>

definition cache_copy_out :: "int \<Rightarrow> u32 \<Rightarrow> nat \<Rightarrow> disk_state \<Rightarrow> bytes option" where
  "cache_copy_out drive track len st =
     (if valid (s_cache st) \<and> c_drive (s_cache st) = drive \<and> c_track (s_cache st) = track \<and>
         c_len (s_cache st) = len
      then Some (take len (s_track_buf st)) else None)"

text \<open>
  The result of a read is the error code, the bytes copied to the caller's buffer (\<open>None\<close>
  when it was not touched) and the state; \<open>dst\<close> says whether the caller's pointer is not NULL.
\<close>

definition disk_read_track :: "disk_env \<Rightarrow> int \<Rightarrow> u32 \<Rightarrow> nat \<Rightarrow> bool \<Rightarrow> disk_state \<Rightarrow> esp_err \<times> bytes option \<times> disk_state" where
  "disk_read_track e drive track len dst st =
     (if \<not> s_lock st \<or> \<not> dst then (ESP_ERR_INVALID_STATE, None, st)
      else let err = check_track drive track len st
      in if err \<noteq> ESP_OK then (err, None, st)
      else case cache_copy_out drive track len st of
             Some w \<Rightarrow> (ESP_OK, Some w, st)
           | None \<Rightarrow>
      if remote (drv st drive)
      then (case rjob_post_wait (e_sem e) (e_room e) (e_run e)
                   (rjob_new_io (e_alloc e) (e_malloc e) RJOB_READ drive track len []) st of
              (err, st') \<Rightarrow>
                if err = ESP_OK
                then (case cache_copy_out drive track len st' of
                        Some w \<Rightarrow> (ESP_OK, Some w, st')
                      | None \<Rightarrow> (ESP_ERR_INVALID_STATE, None, st'))
                else (err, None, st'))
      else let b = the (backing_of (drv st drive));
               r = backing_read_at e b (disk_track_offset track (of_nat len)) (s_track_buf st) len st;
               st' = st\<lparr>s_track_buf := snd r\<rparr>
           in if fst r = ESP_OK
              then (ESP_OK, Some (take len (snd r)),
                    st'\<lparr>s_cache := \<lparr>valid = True, c_drive = drive, c_track = track, c_len = len\<rparr>\<rparr>)
              else (fst r, None, st'\<lparr>s_cache := (s_cache st')\<lparr>valid := False\<rparr>\<rparr>))"

text \<open>\<open>data\<close> is \<open>None\<close> for the NULL pointer; else at least \<open>len\<close> bytes.\<close>

definition disk_write_track :: "disk_env \<Rightarrow> int \<Rightarrow> u32 \<Rightarrow> nat \<Rightarrow> bytes option \<Rightarrow> disk_state \<Rightarrow> esp_err \<times> disk_state" where
  "disk_write_track e drive track len data st =
     (if \<not> s_lock st \<or> data = None then (ESP_ERR_INVALID_STATE, st)
      else let err = check_track drive track len st
      in if err \<noteq> ESP_OK then (err, st)
      else if readonly (drv st drive) then (ESP_ERR_NOT_SUPPORTED, st)
      else if remote (drv st drive)
      then rjob_post_wait (e_sem e) (e_room e) (e_run e)
             (rjob_new_io (e_alloc e) (e_malloc e) RJOB_WRITE drive track len (the data)) st
      else let b = the (backing_of (drv st drive));
               r = backing_write_at e b (disk_track_offset track (of_nat len)) (the data) len st
           in if fst r = ESP_OK
              then (ESP_OK, cache_fill drive track len (the data) (snd r))
              else (fst r, cache_drop_drive drive (snd r)))"

text \<open>
  What \<open>disk_copy_track_buffer\<close> copies out and its three results; before \<open>disk_init\<close> only the
  length is set, to 0, and callers look at nothing else then.
\<close>

definition disk_copy_track_buffer :: "disk_state \<Rightarrow> bytes option \<times> int \<times> u32 \<times> nat" where
  "disk_copy_track_buffer st =
     (if \<not> s_lock st then (None, -1, 0, 0)
      else let c = s_cache st
           in (if valid c then Some (take (c_len c) (s_track_buf st)) else None,
               if valid c then c_drive c else -1,
               if valid c then c_track c else 0,
               if valid c then c_len c else 0))"

section \<open>The disk-I/O worker\<close>

text \<open>
  A worker operation has three phases: a critical section that checks the drive and takes
  its backing, the transfer with no lock held, and a critical section that installs the
  result. Between them any other task may run.
\<close>

definition worker_check :: "bool \<Rightarrow> rjob \<Rightarrow> disk_state \<Rightarrow> backing option" where
  "worker_check writing j st =
     (if drive_ok (jdrive j) \<and> mounted (drv st (jdrive j)) \<and> remote (drv st (jdrive j)) \<and>
         (writing \<longrightarrow> \<not> readonly (drv st (jdrive j)))
      then (case backing_of (drv st (jdrive j)) of
              None \<Rightarrow> None
            | Some b \<Rightarrow> if disk_track_in_bounds (jtrack j) (of_nat (jlen j)) (b_size b) then Some b else None)
      else None)"

definition same_backing :: "int \<Rightarrow> backing \<Rightarrow> disk_state \<Rightarrow> bool" where
  "same_backing drive b st \<longleftrightarrow>
     mounted (drv st drive) \<and> map_option b_id (backing_of (drv st drive)) = Some (b_id b)"

definition worker_read_io :: "disk_env \<Rightarrow> backing \<Rightarrow> rjob \<Rightarrow> disk_state \<Rightarrow> esp_err \<times> disk_state" where
  "worker_read_io e b j st =
     (let r = backing_read_at e b (disk_track_offset (jtrack j) (of_nat (jlen j))) (s_stage st) (jlen j) st
      in (fst r, st\<lparr>s_stage := snd r\<rparr>))"

definition worker_read_install :: "backing \<Rightarrow> rjob \<Rightarrow> esp_err \<Rightarrow> disk_state \<Rightarrow> esp_err \<times> disk_state" where
  "worker_read_install b j err st =
     (if err \<noteq> ESP_OK then (err, st)
      else if same_backing (jdrive j) b st
           then (ESP_OK, cache_fill (jdrive j) (jtrack j) (jlen j) (s_stage st) st)
           else (ESP_ERR_INVALID_STATE, st))"

definition worker_read :: "disk_env \<Rightarrow> rjob \<Rightarrow> disk_state \<Rightarrow> esp_err \<times> disk_state" where
  "worker_read e j st =
     (case worker_check False j st of
        None \<Rightarrow> (ESP_ERR_INVALID_STATE, st)
      | Some b \<Rightarrow>
          if \<not> e_net e then (ESP_ERR_INVALID_STATE, st)
          else case worker_read_io e b j st of (err, st') \<Rightarrow> worker_read_install b j err st')"

definition worker_write_io :: "disk_env \<Rightarrow> backing \<Rightarrow> rjob \<Rightarrow> disk_state \<Rightarrow> esp_err \<times> disk_state" where
  "worker_write_io e b j st =
     backing_write_at e b (disk_track_offset (jtrack j) (of_nat (jlen j))) (wdata j) (jlen j) st"

definition worker_write_install :: "backing \<Rightarrow> rjob \<Rightarrow> esp_err \<Rightarrow> disk_state \<Rightarrow> esp_err \<times> disk_state" where
  "worker_write_install b j err st =
     (if err = ESP_OK
      then (ESP_OK, if same_backing (jdrive j) b st
                    then cache_fill (jdrive j) (jtrack j) (jlen j) (wdata j) st else st)
      else (err, cache_drop_drive (jdrive j) st))"

definition worker_write :: "disk_env \<Rightarrow> rjob \<Rightarrow> disk_state \<Rightarrow> esp_err \<times> disk_state" where
  "worker_write e j st =
     (case worker_check True j st of
        None \<Rightarrow> (ESP_ERR_INVALID_STATE, st)
      | Some b \<Rightarrow>
          if \<not> e_net e then (ESP_ERR_INVALID_STATE, st)
          else case worker_write_io e b j st of (err, st') \<Rightarrow> worker_write_install b j err st')"

text \<open>The URL a mount job wants to open, if the slot still waits for one.\<close>

definition worker_mount_check :: "rjob \<Rightarrow> disk_state \<Rightarrow> string option" where
  "worker_mount_check j st =
     (if drive_ok (jdrive j) \<and> remote (drv st (jdrive j)) \<and> \<not> mounted (drv st (jdrive j)) \<and>
         dname (drv st (jdrive j)) \<noteq> []
      then Some (strlcpy (dname (drv st (jdrive j))) DISK_FILE_CAP) else None)"

definition worker_mount_open :: "disk_env \<Rightarrow> string \<Rightarrow> disk_state \<Rightarrow> (esp_err + (backing \<times> bool)) \<times> disk_state" where
  "worker_mount_open e url st =
     (let opened = (case e_topen e url True False of
                      Inr f \<Rightarrow> Inr (f, False)
                    | Inl _ \<Rightarrow> (case e_topen e url False False of
                                  Inr f \<Rightarrow> Inr (f, True) | Inl err_ro \<Rightarrow> Inl err_ro))
      in case opened of
           Inl err \<Rightarrow> (Inl err, st)
         | Inr ((f, sz), rd) \<Rightarrow>
             if \<not> e_alloc e then (Inl ESP_ERR_NO_MEM, st)
             else (Inr (\<lparr>b_id = next_id st, b_obj = NetFile f, b_size = sz\<rparr>, rd),
                   st\<lparr>next_id := next_id st + 1\<rparr>))"

definition slot_session :: "backing \<Rightarrow> bool \<Rightarrow> drive_t \<Rightarrow> drive_t" where
  "slot_session b rd d = d\<lparr>backing_of := Some b, mounted := True, readonly := rd\<rparr>"

definition worker_mount_install :: "backing \<Rightarrow> bool \<Rightarrow> string \<Rightarrow> rjob \<Rightarrow> disk_state \<Rightarrow> esp_err \<times> disk_state" where
  "worker_mount_install b rd url j st =
     (if drive_ok (jdrive j) \<and> remote (drv st (jdrive j)) \<and> \<not> mounted (drv st (jdrive j)) \<and>
         dname (drv st (jdrive j)) = url
      then (ESP_OK, cache_drop_drive (jdrive j) (set_drv (jdrive j) (slot_session b rd) st))
      else (ESP_OK, backing_close b st))"

definition worker_mount :: "disk_env \<Rightarrow> rjob \<Rightarrow> disk_state \<Rightarrow> esp_err \<times> disk_state" where
  "worker_mount e j st =
     (case worker_mount_check j st of
        None \<Rightarrow> (ESP_OK, st)
      | Some url \<Rightarrow>
          if \<not> e_net e then (ESP_ERR_INVALID_STATE, st)
          else case worker_mount_open e url st of
                 (Inl err, st') \<Rightarrow> (err, st')
               | (Inr (b, rd), st') \<Rightarrow> worker_mount_install b rd url j st')"

definition worker_run :: "disk_env \<Rightarrow> rjob \<Rightarrow> disk_state \<Rightarrow> esp_err \<times> disk_state" where
  "worker_run e j st =
     (case jtype j of
        RJOB_READ \<Rightarrow> worker_read e j st
      | RJOB_WRITE \<Rightarrow> worker_write e j st
      | RJOB_MOUNT \<Rightarrow> worker_mount e j st
      | RJOB_CLOSE \<Rightarrow> (ESP_OK, case bclose j of Some b \<Rightarrow> backing_close b st | None \<Rightarrow> st))"

text \<open>One turn of \<open>diskio_task\<close>: the first job of the queue, and its result.\<close>

definition diskio_task :: "disk_env \<Rightarrow> disk_state \<Rightarrow> (esp_err \<times> disk_state) option" where
  "diskio_task e st =
     (case s_rq st of
        Some (j # q) \<Rightarrow> Some (worker_run e j (st\<lparr>s_rq := Some q\<rparr>))
      | _ \<Rightarrow> None)"

section \<open>Boot and the network coming and going\<close>

definition slot_deferred :: "string \<Rightarrow> drive_t \<Rightarrow> drive_t" where
  "slot_deferred url d = d\<lparr>remote := True, mounted := False, readonly := False,
                           dname := strlcpy url DISK_FILE_CAP\<rparr>"

definition automount_one :: "disk_env \<Rightarrow> nat \<times> string \<Rightarrow> disk_state \<Rightarrow> disk_state" where
  "automount_one e p st =
     (let i = fst p; name = snd p
      in if name = [] then st
         else if tnfs_is_url name then set_drv (int i) (slot_deferred name) st
         else snd (disk_mount e (int i) (Some name) st))"

text \<open>\<open>names\<close> are the four configured drives.\<close>

definition disk_automount :: "disk_env \<Rightarrow> string list \<Rightarrow> disk_state \<Rightarrow> disk_state" where
  "disk_automount e names st =
     fold (automount_one e) (zip [0..<DISK_MAX_DRIVE] names) st"

definition disk_remote_mount_all :: "disk_env \<Rightarrow> disk_state \<Rightarrow> disk_state" where
  "disk_remote_mount_all e st =
     (if s_rq st = None then st
      else fold (\<lambda>i st. if remote (s_drv st ! i) \<and> \<not> mounted (s_drv st ! i) \<and> dname (s_drv st ! i) \<noteq> []
                        then snd (rjob_post_async (e_room e) (rjob_new (e_alloc e) RJOB_MOUNT (int i)) st)
                        else st) [0..<DISK_MAX_DRIVE] st)"

definition slot_down :: "drive_t \<Rightarrow> drive_t" where
  "slot_down d = d\<lparr>backing_of := None, mounted := False, readonly := False\<rparr>"

text \<open>The sessions taken from the table, in drive order, and the state with their slots down.\<close>

definition take_sessions :: "disk_state \<Rightarrow> backing option list \<times> disk_state" where
  "take_sessions st =
     fold (\<lambda>i (bs, st). if remote (s_drv st ! i) \<and> mounted (s_drv st ! i)
                        then (bs @ [backing_of (s_drv st ! i)],
                              cache_drop_drive (int i) (set_drv (int i) slot_down st))
                        else (bs, st)) [0..<DISK_MAX_DRIVE] ([], st)"

definition disk_remote_unmount_all :: "disk_env \<Rightarrow> disk_state \<Rightarrow> disk_state" where
  "disk_remote_unmount_all e st =
     (case take_sessions st of (bs, st') \<Rightarrow>
        fold (\<lambda>b st. backing_dispose (e_alloc e) (e_room e) b True st) bs st')"

end
