(* ===== verification/DiskStoreProps.thy ===== *)
theory DiskStoreProps
  imports DiskStore
begin

text \<open>
  What the disk store guarantees: the contract of a backing as a locale with the local
  file as its instance; the invariant of the mount table and the cache, kept by every
  operation; exact reads, exact writes and their frame; the guard against changing a
  mounted image; and what a failed mount leaves behind.
\<close>

section \<open>The contract of a backing\<close>

text \<open>
  What a track operation relies on: a transfer inside the file that succeeds moves exactly
  the bytes asked for, and one that fails has touched nothing outside them.
\<close>

locale backing_ops =
  fixes read_at :: "bytes \<Rightarrow> u32 \<Rightarrow> bytes \<Rightarrow> nat \<Rightarrow> esp_err \<times> bytes"
    and write_at :: "bytes \<Rightarrow> u32 \<Rightarrow> bytes \<Rightarrow> nat \<Rightarrow> esp_err \<times> bytes"
  assumes read_len: "len \<le> length buf \<Longrightarrow> length (snd (read_at data off buf len)) = length buf"
    and read_ok: "fst (read_at data off buf len) = ESP_OK \<Longrightarrow> unat off + len \<le> length data \<Longrightarrow>
      len \<le> length buf \<Longrightarrow> take len (snd (read_at data off buf len)) = slice (unat off) len data"
    and write_ok: "fst (write_at data off buf len) = ESP_OK \<Longrightarrow> unat off + len \<le> length data \<Longrightarrow>
      len \<le> length buf \<Longrightarrow> snd (write_at data off buf len) = overwrite (unat off) (take len buf) data"
    and write_len: "unat off + len \<le> length data \<Longrightarrow> len \<le> length buf \<Longrightarrow>
      length (snd (write_at data off buf len)) = length data"
    and write_frame: "unat off + len \<le> length data \<Longrightarrow> len \<le> length buf \<Longrightarrow>
      i < unat off \<or> unat off + len \<le> i \<Longrightarrow> i < length data \<Longrightarrow>
      snd (write_at data off buf len) ! i = data ! i"
begin

lemma read_after_write:
  assumes "fst (write_at data off buf len) = ESP_OK" "unat off + len \<le> length data" "len \<le> length buf"
    "fst (read_at (snd (write_at data off buf len)) off rbuf len) = ESP_OK" "len \<le> length rbuf"
  shows "take len (snd (read_at (snd (write_at data off buf len)) off rbuf len)) = take len buf"
proof -
  have "take len (snd (read_at (snd (write_at data off buf len)) off rbuf len)) =
      slice (unat off) len (snd (write_at data off buf len))"
    by (rule read_ok[OF assms(4) _ assms(5)]) (simp add: write_len assms)
  also have "\<dots> = take len buf"
    using slice_overwrite_same[of "unat off" "take len buf" data] assms by (simp add: write_ok)
  finally show ?thesis .
qed

lemma write_other_slice:
  assumes "unat off + len \<le> length data" "len \<le> length buf"
    "o2 + l2 \<le> unat off \<or> unat off + len \<le> o2"
  shows "slice o2 l2 (snd (write_at data off buf len)) = slice o2 l2 data"
  by (intro slice_cong_nth) (use assms write_len write_frame in auto)

end

text \<open>A file on the card meets the contract, whatever stdio does.\<close>

lemma length_overwrite_take:
  "off + len \<le> length d \<Longrightarrow> length (overwrite off (take len w) d) = length d"
  by (rule length_overwrite) simp

interpretation local_file: backing_ops "local_read_at i" "local_write_at i"
proof unfold_locales
  fix len :: nat and buf data :: bytes and off :: u32
  show "len \<le> length buf \<Longrightarrow> length (snd (local_read_at i data off buf len)) = length buf"
    by (simp add: local_read_at_def Let_def length_memcpy0)
  show "fst (local_read_at i data off buf len) = ESP_OK \<Longrightarrow> unat off + len \<le> length data \<Longrightarrow>
      len \<le> length buf \<Longrightarrow> take len (snd (local_read_at i data off buf len)) = slice (unat off) len data"
    by (auto simp: local_read_at_def Let_def memcpy0_def slice_def min_def split: if_splits)
  show "fst (local_write_at i data off buf len) = ESP_OK \<Longrightarrow> unat off + len \<le> length data \<Longrightarrow>
      len \<le> length buf \<Longrightarrow> snd (local_write_at i data off buf len) = overwrite (unat off) (take len buf) data"
    by (auto simp: local_write_at_def Let_def split: if_splits)
  show "unat off + len \<le> length data \<Longrightarrow> len \<le> length buf \<Longrightarrow>
      length (snd (local_write_at i data off buf len)) = length data"
    by (simp add: local_write_at_def Let_def length_overwrite_take)
  fix k
  show "unat off + len \<le> length data \<Longrightarrow> len \<le> length buf \<Longrightarrow>
      k < unat off \<or> unat off + len \<le> k \<Longrightarrow> k < length data \<Longrightarrow>
      snd (local_write_at i data off buf len) ! k = data ! k"
    by (auto simp: local_write_at_def Let_def intro!: overwrite_nth_out)
qed

text \<open>The documented behaviour of the remote transfers (\<^verbatim>\<open>include/tnfs.h\<close>) is the same contract.\<close>

definition env_ok :: "disk_env \<Rightarrow> bool" where
  "env_ok e \<longleftrightarrow> backing_ops (e_tread e) (e_twrite e)"

section \<open>The invariant of the store\<close>

text \<open>The \<open>len\<close> bytes of a track as they are in the file behind \<open>b\<close> now.\<close>

definition track_data :: "backing \<Rightarrow> u32 \<Rightarrow> nat \<Rightarrow> disk_state \<Rightarrow> bytes" where
  "track_data b track len st = slice (unat track * len) len (files st (b_obj b))"

definition is_net :: "backing \<Rightarrow> bool" where
  "is_net b \<longleftrightarrow> (case b_obj b of NetFile _ \<Rightarrow> True | SdFile _ \<Rightarrow> False)"

text \<open>
  A slot: its backing is on the heap, its file has at least the size remembered, no other
  slot has the same backing or file; a mounted slot has a backing of the kind its remote
  flag says.
\<close>

definition slot_wf :: "disk_state \<Rightarrow> nat \<Rightarrow> drive_t \<Rightarrow> bool" where
  "slot_wf st d s \<longleftrightarrow>
     (\<forall>b. backing_of s = Some b \<longrightarrow>
        b_id b < next_id st \<and> unat (b_size b) \<le> length (files st (b_obj b)) \<and>
        (\<forall>d'<4. d' \<noteq> d \<longrightarrow> (\<forall>b'. backing_of (s_drv st ! d') = Some b' \<longrightarrow>
           b_obj b' \<noteq> b_obj b \<and> b_id b' \<noteq> b_id b))) \<and>
     (mounted s \<longrightarrow> (\<exists>b. backing_of s = Some b \<and> (remote s \<longleftrightarrow> is_net b)))"

definition disk_wf :: "disk_state \<Rightarrow> bool" where
  "disk_wf st \<longleftrightarrow> length (s_drv st) = 4 \<and> length (s_track_buf st) = 8192 \<and>
     length (s_stage st) = 8192 \<and> (\<forall>d<4. slot_wf st d (s_drv st ! d))"

text \<open>
  The cache: its drive is mounted, its track lies in the image, and the buffer holds the
  track as it is in the file, except while a remote write to that very backing is between
  its transfer and its install phase (\<open>pend\<close>).
\<close>

definition cache_coh :: "nat option \<Rightarrow> disk_state \<Rightarrow> bool" where
  "cache_coh pend st \<longleftrightarrow> (valid (s_cache st) \<longrightarrow>
     (let c = s_cache st
      in drive_ok (c_drive c) \<and> mounted (drv st (c_drive c)) \<and> 0 < c_len c \<and> c_len c \<le> 8192 \<and>
         (\<exists>b. backing_of (drv st (c_drive c)) = Some b \<and>
            disk_track_in_bounds (c_track c) (of_nat (c_len c)) (b_size b) \<and>
            (is_net b \<and> pend = Some (b_id b) \<or>
             take (c_len c) (s_track_buf st) = track_data b (c_track c) (c_len c) st))))"

definition disk_inv :: "nat option \<Rightarrow> disk_state \<Rightarrow> bool" where
  "disk_inv pend st \<longleftrightarrow> disk_wf st \<and> cache_coh pend st"

lemma drive_ok_iff: "drive_ok d \<longleftrightarrow> 0 \<le> d \<and> nat d < 4"
  by (auto simp: drive_ok_def)

lemma drive_ok_nat_eq: "drive_ok d \<Longrightarrow> drive_ok d' \<Longrightarrow> nat d = nat d' \<longleftrightarrow> d = d'"
  by (auto simp: drive_ok_def)

lemma unat_of_nat_len: "len \<le> 8192 \<Longrightarrow> unat (of_nat len :: u32) = len"
  by (simp add: unat_u32_of_nat)

lemma track_region:
  assumes "disk_track_in_bounds track (of_nat len) sz" "len \<le> 8192"
  shows "unat (disk_track_offset track (of_nat len)) = unat track * len"
    and "unat track * len + len \<le> unat sz"
  using assms track_offset_exact[OF assms(1)] by (simp_all add: track_in_bounds_iff unat_of_nat_len)

lemma set_drv_simps [simp]:
  "s_track_buf (set_drv d f st) = s_track_buf st" "s_cache (set_drv d f st) = s_cache st"
  "s_rq (set_drv d f st) = s_rq st" "mount_depth (set_drv d f st) = mount_depth st"
  "s_lock (set_drv d f st) = s_lock st" "s_mount_lock (set_drv d f st) = s_mount_lock st"
  "s_stage (set_drv d f st) = s_stage st" "files (set_drv d f st) = files st"
  "next_id (set_drv d f st) = next_id st" "closed (set_drv d f st) = closed st"
  "length (s_drv (set_drv d f st)) = length (s_drv st)"
  by (simp_all add: set_drv_def)

lemma set_drv_nth:
  "length (s_drv st) = 4 \<Longrightarrow> drive_ok d \<Longrightarrow> i < 4 \<Longrightarrow>
    s_drv (set_drv d f st) ! i = (if i = nat d then f (s_drv st ! i) else s_drv st ! i)"
  by (auto simp: set_drv_def drive_ok_iff)

lemma cache_drop_simps [simp]:
  "s_drv (cache_drop_drive d st) = s_drv st" "s_track_buf (cache_drop_drive d st) = s_track_buf st"
  "s_rq (cache_drop_drive d st) = s_rq st" "mount_depth (cache_drop_drive d st) = mount_depth st"
  "s_lock (cache_drop_drive d st) = s_lock st" "s_mount_lock (cache_drop_drive d st) = s_mount_lock st"
  "s_stage (cache_drop_drive d st) = s_stage st" "files (cache_drop_drive d st) = files st"
  "next_id (cache_drop_drive d st) = next_id st" "closed (cache_drop_drive d st) = closed st"
  by (simp_all add: cache_drop_drive_def)

lemma cache_drop_valid:
  "valid (s_cache (cache_drop_drive d st)) \<longleftrightarrow> valid (s_cache st) \<and> c_drive (s_cache st) \<noteq> d"
  "valid (s_cache (cache_drop_drive d st)) \<Longrightarrow> s_cache (cache_drop_drive d st) = s_cache st"
  by (auto simp: cache_drop_drive_def)

lemma slot_wf_cong:
  assumes "next_id st' = next_id st" "files st' = files st" "s_drv st' = s_drv st"
  shows "slot_wf st' d s = slot_wf st d s"
  using assms by (simp add: slot_wf_def)

lemma cache_coh_drop:
  "cache_coh pend st \<Longrightarrow> cache_coh pend (cache_drop_drive d st)"
  unfolding cache_coh_def cache_drop_drive_def
  by (cases "valid (s_cache st) \<and> c_drive (s_cache st) = d") (simp_all add: track_data_def)

lemma disk_wf_drop: "disk_wf (cache_drop_drive d st) = disk_wf st"
  by (simp add: disk_wf_def slot_wf_def)

lemma disk_inv_drop: "disk_inv pend st \<Longrightarrow> disk_inv pend (cache_drop_drive d st)"
  by (simp add: disk_inv_def disk_wf_drop cache_coh_drop)

text \<open>A slot replaced together with the drop of its cached track.\<close>

lemma disk_inv_slot:
  assumes inv: "disk_inv pend st" and d: "drive_ok d" and s: "slot_wf st (nat d) (f (drv st d))"
  shows "disk_inv pend (cache_drop_drive d (set_drv d f st))"
proof -
  let ?st = "set_drv d f st"
  have len: "length (s_drv st) = 4" using inv by (simp add: disk_inv_def disk_wf_def)
  note nth = set_drv_nth[OF len d]
  have old: "slot_wf st i (s_drv st ! i)" if "i < 4" for i
    using inv that by (simp add: disk_inv_def disk_wf_def)
  have dn: "nat d < 4" using d by (simp add: drive_ok_iff)
  have "slot_wf ?st i (s_drv ?st ! i)" if i: "i < 4" for i
  proof (cases "i = nat d")
    case True
    have "s_drv ?st ! d' = s_drv st ! d'" if "d' < 4" "d' \<noteq> nat d" for d' using that by (simp add: nth)
    with s True dn show ?thesis unfolding slot_wf_def by (simp add: nth)
  next
    case False
    have "b_obj b' \<noteq> b_obj b \<and> b_id b' \<noteq> b_id b"
      if b: "backing_of (s_drv st ! i) = Some b" and d': "d' < 4" "d' \<noteq> i"
        "backing_of (s_drv ?st ! d') = Some b'" for b d' b'
    proof (cases "d' = nat d")
      case True
      then have "backing_of (f (drv st d)) = Some b'" using d' by (simp add: nth)
      with s b i False show ?thesis unfolding slot_wf_def by metis
    next
      case False
      then have "backing_of (s_drv st ! d') = Some b'" using d' by (simp add: nth)
      with old[OF i] b d' show ?thesis unfolding slot_wf_def by blast
    qed
    moreover have "s_drv ?st ! i = s_drv st ! i" using False i by (simp add: nth)
    ultimately show ?thesis using old[OF i]
      unfolding slot_wf_def set_drv_simps by metis
  qed
  then have "disk_wf ?st" using inv by (simp add: disk_inv_def disk_wf_def)
  moreover have "cache_coh pend (cache_drop_drive d ?st)"
  proof (cases "valid (s_cache (cache_drop_drive d ?st))")
    case True
    then have v: "valid (s_cache st)" "c_drive (s_cache st) \<noteq> d" by (auto simp: cache_drop_valid)
    then have c: "cache_drop_drive d ?st = ?st"
      by (simp add: cache_drop_drive_def)
    have ok: "drive_ok (c_drive (s_cache st))" using inv v by (simp add: disk_inv_def cache_coh_def Let_def)
    then have "nat (c_drive (s_cache st)) < 4" "nat (c_drive (s_cache st)) \<noteq> nat d"
      using v d drive_ok_nat_eq by (auto simp: drive_ok_iff)
    then have "drv ?st (c_drive (s_cache st)) = drv st (c_drive (s_cache st))" by (simp add: nth)
    then show ?thesis using inv unfolding c
      by (simp add: disk_inv_def cache_coh_def Let_def track_data_def)
  qed (simp add: cache_coh_def)
  ultimately show ?thesis by (simp add: disk_inv_def disk_wf_drop)
qed
section \<open>Every operation keeps the invariant\<close>

text \<open>Posting a job, closing a backing and the locks touch neither table, buffer, cache nor files.\<close>

definition same_store :: "disk_state \<Rightarrow> disk_state \<Rightarrow> bool" where
  "same_store st st' \<longleftrightarrow> s_drv st' = s_drv st \<and> s_track_buf st' = s_track_buf st \<and>
     s_cache st' = s_cache st \<and> s_stage st' = s_stage st \<and> files st' = files st \<and> next_id st' = next_id st"

lemma disk_inv_same: "same_store st st' \<Longrightarrow> disk_inv pend st' = disk_inv pend st"
  by (simp add: same_store_def disk_inv_def disk_wf_def slot_wf_def cache_coh_def track_data_def Let_def)

lemma same_store_refl [simp]: "same_store st st"
  by (simp add: same_store_def)

lemma same_store_trans: "same_store a b \<Longrightarrow> same_store b c \<Longrightarrow> same_store a c"
  by (simp add: same_store_def)

lemma same_store_post: "same_store st (snd (rjob_post_async room j st))"
  by (simp add: rjob_post_async_def same_store_def split: option.split)

lemma same_store_dispose: "same_store st (backing_dispose a room b rem st)"
  using same_store_post
  by (simp add: backing_dispose_def backing_close_def split: option.split) (simp add: same_store_def)

lemma same_store_lock: "same_store st (mount_lock st)" "same_store st (mount_unlock st)"
  by (simp_all add: same_store_def mount_lock_def mount_unlock_def)

lemma disk_inv_swap:
  assumes "disk_inv pend st" "drive_ok d" "slot_wf st (nat d) (f (drv st d))"
  shows "disk_inv pend (slot_swap e d f st)"
  unfolding slot_swap_def disk_inv_same[OF same_store_dispose] using assms by (rule disk_inv_slot)

lemma slot_wf_no_backing: "backing_of s = None \<Longrightarrow> \<not> mounted s \<Longrightarrow> slot_wf st d s"
  by (simp add: slot_wf_def)

lemma disk_inv_unmount: "disk_inv pend st \<Longrightarrow> disk_inv pend (snd (disk_unmount e d st))"
  by (simp add: disk_unmount_def disk_inv_swap slot_wf_no_backing slot_empty_def)

lemma disk_inv_remote_slot:
  "disk_inv pend st \<Longrightarrow> drive_ok d \<Longrightarrow> disk_inv pend (slot_swap e d (slot_remote url) st)"
  by (simp add: disk_inv_swap slot_wf_no_backing slot_remote_def)

text \<open>No other drive has the file \<open>o\<close> mounted.\<close>

definition unshared :: "disk_state \<Rightarrow> int \<Rightarrow> fobj \<Rightarrow> bool" where
  "unshared st d ob \<longleftrightarrow> (\<forall>d'<4. d' \<noteq> nat d \<longrightarrow>
     (\<forall>b'. backing_of (s_drv st ! d') = Some b' \<longrightarrow> b_obj b' \<noteq> ob))"

lemma disk_inv_next_id:
  "disk_inv pend st \<Longrightarrow> disk_inv pend (st\<lparr>next_id := next_id st + 1\<rparr>)"
  unfolding disk_inv_def disk_wf_def slot_wf_def cache_coh_def track_data_def Let_def
  by (auto intro: less_SucI)

lemma disk_wf_id: "disk_inv pend st \<Longrightarrow> d < 4 \<Longrightarrow> backing_of (s_drv st ! d) = Some b \<Longrightarrow> b_id b < next_id st"
  by (simp add: disk_inv_def disk_wf_def slot_wf_def)

lemma slot_wf_fresh:
  assumes "disk_inv pend st" "unshared st d (b_obj b)" "b_id b = next_id st"
    "unat (b_size b) \<le> length (files st (b_obj b))" "backing_of s = Some b"
    "mounted s \<longrightarrow> (remote s \<longleftrightarrow> is_net b)"
  shows "slot_wf (st\<lparr>next_id := next_id st + 1\<rparr>) (nat d) s"
  using assms(2-6) disk_wf_id[OF assms(1)] unfolding slot_wf_def unshared_def
  by (force simp: less_Suc_eq)

lemma local_open_ok:
  assumes "local_open e name st = (Inr b, st')"
  shows "b_id b = next_id st" "unat (b_size b) = length (files st (b_obj b))" "\<not> is_net b"
    "st' = st\<lparr>next_id := next_id st + 1\<rparr>"
  using assms by (auto simp: local_open_def Let_def is_net_def unat_u32_of_nat
      split: option.splits if_splits)

lemma local_open_err: "local_open e name st = (Inl err, st') \<Longrightarrow> st' = st \<and> err \<noteq> ESP_OK"
  by (auto simp: local_open_def Let_def split: option.splits if_splits)

lemma disk_inv_local_slot:
  assumes "disk_inv pend st" "drive_ok d" "local_open e name st = (Inr b, st')" "unshared st d (b_obj b)"
  shows "disk_inv pend (slot_swap e d (slot_local b name cn) st')"
proof -
  note o = local_open_ok[OF assms(3)]
  show ?thesis unfolding o(4)
    using disk_inv_next_id[OF assms(1)] assms(2)
    by (rule disk_inv_swap) (rule slot_wf_fresh[OF assms(1,4)], auto simp: slot_local_def o)
qed

section \<open>Reading and writing a track\<close>

lemma check_track_ok:
  "check_track d t len st = ESP_OK \<longleftrightarrow> drive_ok d \<and> 0 < len \<and> len \<le> 8192 \<and> mounted (drv st d) \<and>
     (\<exists>b. backing_of (drv st d) = Some b \<and> disk_track_in_bounds t (of_nat len) (b_size b))"
  by (auto simp: check_track_def split: option.splits)

lemma disk_inv_slotD:
  assumes "disk_inv pend st" "drive_ok d" "mounted (drv st d)" "backing_of (drv st d) = Some b"
  shows "unat (b_size b) \<le> length (files st (b_obj b))" "remote (drv st d) \<longleftrightarrow> is_net b"
    "length (s_track_buf st) = 8192" "length (s_drv st) = 4"
  using assms by (auto simp: disk_inv_def disk_wf_def slot_wf_def drive_ok_iff)

lemma disk_inv_apart:
  assumes "disk_inv pend st" "drive_ok d" "backing_of (drv st d) = Some b"
    "drive_ok d'" "d' \<noteq> d" "backing_of (drv st d') = Some b'"
  shows "b_obj b' \<noteq> b_obj b" "b_id b' \<noteq> b_id b"
proof -
  have "nat d < 4" "nat d' < 4" "nat d' \<noteq> nat d"
    using assms(2,4,5) drive_ok_nat_eq by (auto simp: drive_ok_iff)
  then show "b_obj b' \<noteq> b_obj b" "b_id b' \<noteq> b_id b"
    using assms(1,3,6) unfolding disk_inv_def disk_wf_def slot_wf_def by blast+
qed

lemma cache_coh_copy:
  assumes "disk_inv pend st" "cache_copy_out d t len st = Some w"
  shows "\<exists>b. drive_ok d \<and> mounted (drv st d) \<and> backing_of (drv st d) = Some b \<and> 0 < len \<and> len \<le> 8192 \<and>
    disk_track_in_bounds t (of_nat len) (b_size b) \<and>
    (is_net b \<and> pend = Some (b_id b) \<or> w = track_data b t len st)"
  using assms by (auto simp: disk_inv_def cache_coh_def cache_copy_out_def Let_def split: if_splits)

text \<open>An installed track is coherent.\<close>

lemma disk_inv_fill:
  assumes inv: "disk_inv pend st" and d: "drive_ok d" "mounted (drv st d)" "backing_of (drv st d) = Some b"
    and t: "0 < len" "len \<le> 8192" "disk_track_in_bounds t (of_nat len) (b_size b)"
    and buf: "length buf = 8192" "take len buf = track_data b t len st"
  shows "disk_inv pend' (st\<lparr>s_track_buf := buf,
    s_cache := \<lparr>valid = True, c_drive = d, c_track = t, c_len = len\<rparr>\<rparr>)"
  using assms by (simp add: disk_inv_def disk_wf_def slot_wf_def cache_coh_def track_data_def)

lemma disk_inv_cache_fill:
  assumes inv: "disk_inv pend st" and d: "drive_ok d" "mounted (drv st d)" "backing_of (drv st d) = Some b"
    and t: "0 < len" "len \<le> 8192" "disk_track_in_bounds t (of_nat len) (b_size b)"
    and data: "len \<le> length data" "take len data = track_data b t len st"
  shows "disk_inv pend' (cache_fill d t len data st)"
proof -
  have l: "length (take len data) = len" using data(1) by simp
  have "length (s_track_buf st) = 8192" using inv by (simp add: disk_inv_def disk_wf_def)
  then have "length (memcpy0 (take len data) (s_track_buf st)) = 8192"
    using t(2) l by (simp add: length_memcpy0)
  moreover have "take len (memcpy0 (take len data) (s_track_buf st)) = track_data b t len st"
    using take_memcpy0[of "take len data" "s_track_buf st", unfolded l] data(2) by simp
  ultimately show ?thesis unfolding cache_fill_def by (intro disk_inv_fill[OF inv d t])
qed

lemma disk_inv_buf_invalid:
  assumes "disk_inv pend st" "length buf = 8192" "\<not> valid c"
  shows "disk_inv pend' (st\<lparr>s_track_buf := buf, s_cache := c\<rparr>)"
  using assms by (simp add: disk_inv_def disk_wf_def slot_wf_def cache_coh_def)

text \<open>The contract, for whichever kind of backing.\<close>

lemma backing_read:
  assumes "env_ok e" "len \<le> length buf"
  shows "length (snd (backing_read_at e b off buf len st)) = length buf"
    and "fst (backing_read_at e b off buf len st) = ESP_OK \<Longrightarrow> unat off + len \<le> length (files st (b_obj b)) \<Longrightarrow>
      take len (snd (backing_read_at e b off buf len st)) = slice (unat off) len (files st (b_obj b))"
  using assms backing_ops.read_len[of "e_tread e" "e_twrite e"] backing_ops.read_ok[of "e_tread e" "e_twrite e"]
    local_file.read_len local_file.read_ok
  by (auto simp: backing_read_at_def env_ok_def split: fobj.split)

lemma backing_write:
  assumes "env_ok e" "len \<le> length buf" "unat off + len \<le> length (files st (b_obj b))"
  defines "r \<equiv> backing_write_at e b off buf len st"
  shows "\<exists>d. snd r = st\<lparr>files := (files st)(b_obj b := d)\<rparr> \<and> length d = length (files st (b_obj b)) \<and>
    (\<forall>i<length d. i < unat off \<or> unat off + len \<le> i \<longrightarrow> d ! i = files st (b_obj b) ! i) \<and>
    (fst r = ESP_OK \<longrightarrow> d = overwrite (unat off) (take len buf) (files st (b_obj b)))"
proof (cases "b_obj b")
  case (SdFile f)
  let ?w = "local_write_at (e_io e) (files st (b_obj b)) off buf len"
  have "r = (fst ?w, st\<lparr>files := (files st)(b_obj b := snd ?w)\<rparr>)"
    by (simp add: r_def backing_write_at_def SdFile Let_def)
  then show ?thesis
    using local_file.write_len[OF assms(3,2)] local_file.write_frame[OF assms(3,2)]
      local_file.write_ok[OF _ assms(3,2)] by (intro exI[of _ "snd ?w"]) auto
next
  case (NetFile f)
  let ?w = "e_twrite e (files st (b_obj b)) off buf len"
  have "r = (fst ?w, st\<lparr>files := (files st)(b_obj b := snd ?w)\<rparr>)"
    by (simp add: r_def backing_write_at_def NetFile Let_def)
  moreover note ops = assms(1)[unfolded env_ok_def]
  ultimately show ?thesis
    using backing_ops.write_len[OF ops assms(3,2)] backing_ops.write_frame[OF ops assms(3,2)]
      backing_ops.write_ok[OF ops _ assms(3,2)] by (intro exI[of _ "snd ?w"]) auto
qed

text \<open>The other tasks and the worker, during a wait, keep the invariant.\<close>

definition run_ok :: "disk_env \<Rightarrow> bool" where
  "run_ok e \<longleftrightarrow> (\<forall>j st r st'. disk_inv None st \<longrightarrow> e_run e j st = (r, st') \<longrightarrow> disk_inv None st')"

lemma disk_inv_rq: "disk_inv pend (st\<lparr>s_rq := q\<rparr>) = disk_inv pend st"
  by (rule disk_inv_same) (simp add: same_store_def)

lemma post_wait_inv:
  "run_ok e \<Longrightarrow> disk_inv None st \<Longrightarrow> rjob_post_wait a r (e_run e) j st = (err, st') \<Longrightarrow> disk_inv None st'"
  unfolding run_ok_def rjob_post_wait_def
  by (auto split: option.splits if_splits prod.splits) (metis disk_inv_rq)+

text \<open>A read that goes to the card: what the critical section does.\<close>

lemma disk_read_local:
  assumes "env_ok e" "disk_inv pend st" "\<not> remote (drv st d)"
    "disk_read_track e d t len dst st = (err, w, st')"
  shows "disk_inv pend st' \<and> s_drv st' = s_drv st \<and> files st' = files st \<and>
    (err = ESP_OK \<longrightarrow> drive_ok d \<and> mounted (drv st d) \<and> 0 < len \<and> len \<le> 8192 \<and>
      (\<exists>b. backing_of (drv st d) = Some b \<and> disk_track_in_bounds t (of_nat len) (b_size b) \<and>
         w = Some (track_data b t len st')))"
proof (cases "s_lock st \<and> dst \<and> check_track d t len st = ESP_OK")
  case False
  then show ?thesis using assms(2,4) by (auto simp: disk_read_track_def Let_def split: if_splits)
next
  case True
  then obtain b where c: "drive_ok d" "0 < len" "len \<le> 8192" "mounted (drv st d)"
    "backing_of (drv st d) = Some b" "disk_track_in_bounds t (of_nat len) (b_size b)"
    by (auto simp: check_track_ok)
  note s = disk_inv_slotD[OF assms(2) c(1,4,5)]
  have nn: "\<not> is_net b" using s(2) assms(3) by simp
  show ?thesis
  proof (cases "cache_copy_out d t len st")
    case (Some x)
    then have "x = track_data b t len st"
      using cache_coh_copy[OF assms(2) Some] c nn by auto
    then show ?thesis using Some True assms c by (auto simp: disk_read_track_def Let_def)
  next
    case None
    let ?off = "disk_track_offset t (of_nat len)"
    let ?r = "backing_read_at e b ?off (s_track_buf st) len st"
    note reg = track_region[OF c(6,3)]
    have rl: "length (snd ?r) = 8192" using backing_read(1)[OF assms(1)] c s by simp
    have rd: "take len (snd ?r) = track_data b t len st" if "fst ?r = ESP_OK"
      using backing_read(2)[OF assms(1) _ that] c s reg by (simp add: track_data_def)
    have res: "(err, w, st') = (if fst ?r = ESP_OK
        then (ESP_OK, Some (take len (snd ?r)), st\<lparr>s_track_buf := snd ?r,
                s_cache := \<lparr>valid = True, c_drive = d, c_track = t, c_len = len\<rparr>\<rparr>)
        else (fst ?r, None, st\<lparr>s_track_buf := snd ?r, s_cache := (s_cache st)\<lparr>valid := False\<rparr>\<rparr>))"
      using assms(3,4) True None c by (auto simp: disk_read_track_def Let_def)
    show ?thesis
    proof (cases "fst ?r = ESP_OK")
      case True
      then show ?thesis
        using res c rd[OF True] disk_inv_fill[OF assms(2) c(1,4,5,2,3,6) rl rd[OF True], of pend]
        by (simp add: track_data_def)
    next
      case False
      then show ?thesis
        using res disk_inv_buf_invalid[OF assms(2) rl, of "(s_cache st)\<lparr>valid := False\<rparr>" pend] by simp
    qed
  qed
qed

text \<open>
  A write: the file behind the drive keeps its length and every byte outside the track;
  if the write succeeded the track holds the data. The cache never keeps a stale copy.
\<close>

definition wrote :: "backing \<Rightarrow> u32 \<Rightarrow> nat \<Rightarrow> bytes \<Rightarrow> bool \<Rightarrow> disk_state \<Rightarrow> disk_state \<Rightarrow> bool" where
  "wrote b t len data ok st st' \<longleftrightarrow>
     (\<forall>ob. ob \<noteq> b_obj b \<longrightarrow> files st' ob = files st ob) \<and>
     length (files st' (b_obj b)) = length (files st (b_obj b)) \<and>
     (\<forall>i<length (files st (b_obj b)). i < unat t * len \<or> unat t * len + len \<le> i \<longrightarrow>
        files st' (b_obj b) ! i = files st (b_obj b) ! i) \<and>
     (ok \<longrightarrow> track_data b t len st' = take len data)"

lemma wrote_backing:
  assumes "env_ok e" "len \<le> length data" "len \<le> 8192" "disk_track_in_bounds t (of_nat len) (b_size b)"
    "unat (b_size b) \<le> length (files st (b_obj b))"
    "backing_write_at e b (disk_track_offset t (of_nat len)) data len st = (err, st')"
  shows "wrote b t len data (err = ESP_OK) st st'"
    and "\<exists>f. st' = st\<lparr>files := (files st)(b_obj b := f)\<rparr> \<and> length f = length (files st (b_obj b))"
proof -
  note reg = track_region[OF assms(4,3)]
  have le: "unat (disk_track_offset t (of_nat len)) + len \<le> length (files st (b_obj b))"
    using reg assms(5) by simp
  note bw = backing_write[OF assms(1,2) le, unfolded assms(6) reg(1) fst_conv snd_conv]
  then obtain f where f: "st' = st\<lparr>files := (files st)(b_obj b := f)\<rparr>" "length f = length (files st (b_obj b))"
    "\<forall>i<length f. i < unat t * len \<or> unat t * len + len \<le> i \<longrightarrow> f ! i = files st (b_obj b) ! i"
    "err = ESP_OK \<longrightarrow> f = overwrite (unat t * len) (take len data) (files st (b_obj b))"
    by blast
  have "track_data b t len st' = take len data" if "err = ESP_OK"
    using slice_overwrite_same[of "unat t * len" "take len data" "files st (b_obj b)"] f(1) f(4)[rule_format, OF that]
      le reg(1) assms(2) by (simp add: track_data_def)
  then show "wrote b t len data (err = ESP_OK) st st'"
    using f by (simp add: wrote_def)
  show "\<exists>f. st' = st\<lparr>files := (files st)(b_obj b := f)\<rparr> \<and> length f = length (files st (b_obj b))"
    using f by blast
qed

lemma disk_inv_files:
  assumes inv: "disk_inv pend st" and f: "length f = length (files st ob)"
    and st': "st' = st\<lparr>files := (files st)(ob := f)\<rparr>"
  shows "disk_wf st'"
    and "valid (s_cache st) \<longrightarrow> (\<forall>b. backing_of (drv st (c_drive (s_cache st))) = Some b \<longrightarrow>
       b_obj b \<noteq> ob \<or> is_net b \<and> pend' = Some (b_id b) \<and> (pend = None \<or> pend = pend')) \<Longrightarrow>
      pend = None \<or> pend = pend' \<Longrightarrow> cache_coh pend' st'"
  using inv f unfolding st' by (auto simp: disk_inv_def disk_wf_def slot_wf_def cache_coh_def Let_def track_data_def)

lemma slice_same_files: "b_obj b \<noteq> ob \<Longrightarrow> track_data b t l (st\<lparr>files := (files st)(ob := f)\<rparr>) = track_data b t l st"
  by (simp add: track_data_def)

lemma disk_write_local:
  assumes e: "env_ok e" and inv: "disk_inv pend st" and loc: "\<not> remote (drv st d)"
    and w: "disk_write_track e d t len data st = (err, st')"
    and dl: "\<forall>x. data = Some x \<longrightarrow> len \<le> length x"
  shows "disk_inv pend st' \<and> s_drv st' = s_drv st \<and>
    (files st' = files st \<and> err \<noteq> ESP_OK \<or>
     (\<exists>b x. data = Some x \<and> backing_of (drv st d) = Some b \<and> mounted (drv st d) \<and> drive_ok d \<and>
        0 < len \<and> len \<le> 8192 \<and> disk_track_in_bounds t (of_nat len) (b_size b) \<and>
        wrote b t len x (err = ESP_OK) st st'))"
proof (cases "s_lock st \<and> data \<noteq> None \<and> check_track d t len st = ESP_OK \<and> \<not> readonly (drv st d)")
  case False
  then have "st' = st" "err \<noteq> ESP_OK" using w by (auto simp: disk_write_track_def Let_def split: if_splits)
  then show ?thesis using inv by simp
next
  case True
  then obtain b x where c: "drive_ok d" "0 < len" "len \<le> 8192" "mounted (drv st d)"
    "backing_of (drv st d) = Some b" "disk_track_in_bounds t (of_nat len) (b_size b)" and x: "data = Some x"
    by (auto simp: check_track_ok)
  note s = disk_inv_slotD[OF inv c(1,4,5)]
  have nn: "\<not> is_net b" using s(2) loc by simp
  have xl: "len \<le> length x" using dl x by simp
  obtain er s1 where r: "backing_write_at e b (disk_track_offset t (of_nat len)) x len st = (er, s1)"
    by (metis surj_pair)
  note wr = wrote_backing[OF e xl c(3,6) s(1) r]
  obtain f where f: "s1 = st\<lparr>files := (files st)(b_obj b := f)\<rparr>" "length f = length (files st (b_obj b))"
    using wr(2) by blast
  note fw = disk_inv_files[OF inv f(2,1)]
  have res: "(err, st') = (if er = ESP_OK then (ESP_OK, cache_fill d t len x s1) else (er, cache_drop_drive d s1))"
    using w True loc x c r by (auto simp: disk_write_track_def Let_def)
  show ?thesis
  proof (cases "er = ESP_OK")
    case True
    have inv1: "disk_inv pend (cache_fill d t len x s1)"
      using fw(1) c s xl wr(1) True f
      by (auto simp: cache_fill_def disk_inv_def disk_wf_def slot_wf_def cache_coh_def Let_def wrote_def
          track_data_def length_memcpy0 memcpy0_def min_def)
    have "wrote b t len x (err = ESP_OK) st st'"
      using wr(1) res True by (simp add: wrote_def cache_fill_def track_data_def)
    then show ?thesis using inv1 res True x c f by (auto simp: cache_fill_def)
  next
    case False
    have "cache_coh pend (cache_drop_drive d s1)"
    proof (cases "valid (s_cache st) \<and> c_drive (s_cache st) \<noteq> d")
      case True
      then have "\<forall>b'. backing_of (drv st (c_drive (s_cache st))) = Some b' \<longrightarrow> b_obj b' \<noteq> b_obj b"
        using disk_inv_apart[OF inv c(1,5)] inv by (auto simp: disk_inv_def cache_coh_def Let_def)
      then have "cache_coh pend s1" by (intro fw(2)) auto
      then show ?thesis by (rule cache_coh_drop)
    next
      case False
      then have "\<not> valid (s_cache (cache_drop_drive d s1))" using f by (auto simp: cache_drop_valid)
      then show ?thesis by (simp add: cache_coh_def)
    qed
    then have "disk_inv pend (cache_drop_drive d s1)" using fw(1) by (simp add: disk_inv_def disk_wf_drop)
    moreover have "wrote b t len x (err = ESP_OK) st st'"
      using wr(1) res False by (simp add: wrote_def track_data_def)
    ultimately show ?thesis using res False x c f by auto
  qed
qed

section \<open>The change guard\<close>

text \<open>
  The folder or file \<open>cn\<close> holds the image \<open>c\<close>: it is the root, or the same name, or a
  leading part of it up to a separator; letters compare without case.
\<close>

definition holds_image :: "string \<Rightarrow> string \<Rightarrow> bool" where
  "holds_image cn c \<longleftrightarrow> cn = [] \<or> map tolower c = map tolower cn \<or>
     (\<exists>rest. map tolower c = map tolower cn @ CHR ''/'' # rest)"

lemma tolower_slash: "tolower c = CHR ''/'' \<longleftrightarrow> c = CHR ''/''"
proof
  assume l: "tolower c = CHR ''/''"
  show "c = CHR ''/''"
  proof (cases "65 \<le> (of_char c :: nat) \<and> (of_char c :: nat) \<le> 90")
    case True
    then have "char_of (of_char c + 32 :: nat) = CHR ''/''" using l by (simp add: tolower_def)
    then have "(of_char (char_of (of_char c + 32 :: nat) :: char) :: nat) = of_char CHR ''/''" by simp
    moreover have "(of_char (char_of (of_char c + 32 :: nat) :: char) :: nat) = of_char c + 32"
      using True by (simp add: take_bit_nat_eq_self)
    ultimately show ?thesis using True by simp
  qed (use l in \<open>auto simp: tolower_def Let_def split: if_splits\<close>)
qed (simp add: tolower_def)

lemma change_hits_iff:
  "change_hits cn dr \<longleftrightarrow> mounted dr \<and> \<not> remote dr \<and> canon dr \<noteq> [] \<and> holds_image cn (canon dr)"
proof -
  let ?c = "canon dr" and ?n = "length cn"
  have "strncaseeq ?c cn ?n \<and> (length ?c = ?n \<or> ?c ! ?n = CHR ''/'') \<longleftrightarrow>
      map tolower ?c = map tolower cn \<or> (\<exists>rest. map tolower ?c = map tolower cn @ CHR ''/'' # rest)"
    if n: "cn \<noteq> []"
  proof (cases "?n < length ?c")
    case True
    have sp: "map tolower ?c = map tolower (take ?n ?c) @ tolower (?c ! ?n) # map tolower (drop (Suc ?n) ?c)"
      using True by (metis id_take_nth_drop list.simps(9) map_append)
    have "map tolower ?c \<noteq> map tolower cn" using True by (metis length_map less_irrefl)
    moreover have "(\<exists>rest. map tolower ?c = map tolower cn @ CHR ''/'' # rest) \<longleftrightarrow>
        map tolower (take ?n ?c) = map tolower cn \<and> tolower (?c ! ?n) = CHR ''/''"
      unfolding sp using True by (auto simp: append_eq_append_conv)
    ultimately show ?thesis using True by (simp add: strncaseeq_def strcaseeq_def tolower_slash)
  next
    case False
    have "\<not> (\<exists>rest. map tolower ?c = map tolower cn @ CHR ''/'' # rest)"
    proof
      assume "\<exists>rest. map tolower ?c = map tolower cn @ CHR ''/'' # rest"
      then have "length ?c > ?n" by (metis length_map length_append length_Cons add_Suc_right le_add1 less_Suc_eq_le)
      with False show False by simp
    qed
    moreover have "strncaseeq ?c cn ?n \<longleftrightarrow> map tolower ?c = map tolower cn"
      using False by (simp add: strncaseeq_def strcaseeq_def)
    moreover have "map tolower ?c = map tolower cn \<Longrightarrow> length ?c = ?n" by (metis length_map)
    ultimately show ?thesis by blast
  qed
  then show ?thesis by (auto simp: change_hits_def holds_image_def Let_def)
qed

lemma change_scan_hit:
  "change_scan k cn drs \<ge> 0 \<longleftrightarrow> (\<exists>dr \<in> set drs. change_hits cn dr)"
  by (induction k cn drs rule: change_scan.induct) auto

lemma change_scan_neg: "change_scan k cn drs < 0 \<Longrightarrow> change_scan k cn drs = -1"
  by (induction k cn drs rule: change_scan.induct) auto

lemma change_scan_which:
  "change_scan k cn drs = int d \<Longrightarrow> k \<le> d \<and> d - k < length drs \<and> change_hits cn (drs ! (d - k))"
proof (induction k cn drs rule: change_scan.induct)
  case (2 k cn dr drs)
  then show ?case by (cases "change_hits cn dr") (auto simp: Suc_diff_le nth_Cons' dest!: Suc_le_lessD)
qed simp

lemma slot_swap_drv:
  assumes "length (s_drv st) = 4" "drive_ok d" "i < 4"
  shows "s_drv (slot_swap e d f st) ! i = (if i = nat d then f (s_drv st ! i) else s_drv st ! i)"
  using same_store_dispose[of "cache_drop_drive d (set_drv d f st)"] assms
  by (simp add: slot_swap_def same_store_def set_drv_nth)

lemma slot_swap_rest:
  "s_mount_lock (slot_swap e d f st) = s_mount_lock st" "mount_depth (slot_swap e d f st) = mount_depth st"
  "s_lock (slot_swap e d f st) = s_lock st" "files (slot_swap e d f st) = files st"
  "length (s_drv (slot_swap e d f st)) = length (s_drv st)"
  "s_cache (slot_swap e d f st) = s_cache (cache_drop_drive d (set_drv d f st))"
  by (auto simp: slot_swap_def backing_dispose_def backing_close_def rjob_post_async_def split: option.splits)

lemma disk_mount_local_cases:
  assumes "\<not> tnfs_is_url name" "drive_ok d" "name \<noteq> []" "disk_mount e d (Some name) st = (err, st')"
  shows "err \<noteq> ESP_OK \<and> st' = slot_swap e d slot_empty st \<or>
    (\<exists>b st1 cn path. err = ESP_OK \<and> local_open e name st = (Inr b, st1) \<and>
       sd_path name 145 = Some path \<and> e_sd_mounted e \<and>
       cn = (case sd_canonical (e_sd_mounted e) (e_pdrv e) (e_fstat e) path 258 of
               Some c \<Rightarrow> c | None \<Rightarrow> strlcpy name 258) \<and>
       st' = slot_swap e d (slot_local b name cn) st1)"
proof (cases "e_sd_mounted e")
  case False
  then show ?thesis using assms by (simp add: disk_mount_def disk_unmount_def)
next
  case True
  show ?thesis
  proof (cases "local_open e name st")
    case (Pair x st1)
    show ?thesis
    proof (cases x)
      case (Inl er)
      with Pair local_open_err[of e name st er st1] True assms show ?thesis
        by (auto simp: disk_mount_def disk_unmount_def)
    next
      case (Inr b)
      then obtain path where "sd_path name 145 = Some path"
        using Pair by (auto simp: local_open_def split: option.splits)
      then show ?thesis using Pair Inr True assms by (auto simp: disk_mount_def split: option.splits)
    qed
  qed
qed

lemma read_track_exact:
  assumes "env_ok e" "run_ok e" "disk_inv None st" "disk_read_track e d t len dst st = (ESP_OK, w, st')"
  shows "disk_inv None st' \<and> drive_ok d \<and> 0 < len \<and> len \<le> 8192 \<and> (\<exists>b. backing_of (drv st' d) = Some b \<and> mounted (drv st' d) \<and>
    unat t * len + len \<le> length (files st' (b_obj b)) \<and>
    w = Some (slice (unat t * len) len (files st' (b_obj b))))"
proof -
  have fin: ?thesis if "disk_inv None st'" "mounted (drv st' d)" "drive_ok d" "0 < len" "len \<le> 8192"
      "backing_of (drv st' d) = Some b" "disk_track_in_bounds t (of_nat len) (b_size b)"
      "w = Some (track_data b t len st')" for b
    using that disk_inv_slotD(1)[OF that(1,3,2,6)] track_region(2)[OF that(7,5)]
    by (auto simp: track_data_def)
  show ?thesis
  proof (cases "remote (drv st d)")
    case False
    then show ?thesis using disk_read_local[OF assms(1,3) False assms(4)] fin by auto
  next
    case True
    have hit: "cache_copy_out d t len st' = w \<and> None \<noteq> w \<and> disk_inv None st'"
      using assms(3,4) True post_wait_inv[OF assms(2,3)]
      by (auto simp: disk_read_track_def Let_def split: if_splits option.splits prod.splits)
    then obtain x where "w = Some x" "cache_copy_out d t len st' = Some x" by (cases w) auto
    with cache_coh_copy[of None st' d t len x] hit fin show ?thesis by auto
  qed
qed

section \<open>Properties\<close>

text \<open>A card with one 2-track image, for the witnesses.\<close>

definition demo_io :: io where
  "demo_io = \<lparr>seek_ok = True, xfer = 8192, flush_ok = True, sync_ok = True, torn = []\<rparr>"

definition demo_env :: disk_env where
  "demo_env =
     \<lparr>e_sd_mounted = True, e_pdrv = Some ''0'',
      e_fstat = (\<lambda>p. if p = ''0:/a.dsk'' then Some (''a.dsk'', ''A.DSK'') else None),
      e_fopen = (\<lambda>p. if p = ''/sd/a.dsk'' then Some 0 else None), e_seek_end = True, e_net = False,
      e_alloc = True, e_malloc = True, e_sem = True, e_room = True, e_io = demo_io,
      e_topen = (\<lambda>_ _ _. Inl ESP_FAIL), e_tread = local_read_at demo_io, e_twrite = local_write_at demo_io,
      e_run = (\<lambda>j st. (None, st))\<rparr>"

definition empty_drive :: drive_t where
  "empty_drive = \<lparr>mounted = False, remote = False, readonly = False, dname = [], canon = [], backing_of = None\<rparr>"

text \<open>The store as \<open>disk_init\<close> leaves it: nothing mounted, nothing cached, an empty queue.\<close>

definition disk_boot :: "(fobj \<Rightarrow> bytes) \<Rightarrow> disk_state" where
  "disk_boot fs =
     \<lparr>s_drv = replicate 4 empty_drive, s_track_buf = replicate 8192 0,
      s_cache = \<lparr>valid = False, c_drive = 0, c_track = 0, c_len = 0\<rparr>, s_rq = Some [], mount_depth = 0,
      s_lock = True, s_mount_lock = True, s_job_mtx = True, s_stage = replicate 8192 0,
      files = fs, next_id = 0, closed = []\<rparr>"

definition demo_files :: "fobj \<Rightarrow> bytes" where
  "demo_files = (\<lambda>_. replicate 128 7 @ replicate 128 9)"

definition demo_backing :: backing where
  "demo_backing = \<lparr>b_id = 0, b_obj = SdFile 0, b_size = 256\<rparr>"

definition demo_disk :: disk_state where
  "demo_disk = snd (disk_mount demo_env 1 (Some ''a.dsk'') (disk_boot demo_files))"

lemma demo_env_ok: "env_ok demo_env" "run_ok demo_env"
  using local_file.backing_ops_axioms[of demo_io] by (simp_all add: env_ok_def demo_env_def run_ok_def)

lemma disk_boot_disk_inv: "disk_inv pend (disk_boot fs)"
  by (simp add: disk_boot_def disk_inv_def disk_wf_def cache_coh_def slot_wf_def empty_drive_def)

lemma demo_open:
  "local_open demo_env ''a.dsk'' (disk_boot demo_files) =
     (Inr demo_backing, disk_boot demo_files\<lparr>next_id := 1\<rparr>)"
  by (simp add: local_open_def sd_path_def segments_ok.simps demo_env_def demo_files_def disk_boot_def
      demo_backing_def Let_def)

lemma demo_mount:
  "disk_mount demo_env 1 (Some ''a.dsk'') (disk_boot demo_files) =
     (ESP_OK, slot_swap demo_env 1 (slot_local demo_backing ''a.dsk'' ''A.DSK'') (disk_boot demo_files\<lparr>next_id := 1\<rparr>))"
proof -
  have "sd_canonical True (Some ''0'') (e_fstat demo_env) ''/sd/a.dsk'' 258 = Some ''A.DSK''"
    by (simp add: sd_canonical_def strneq_def canonical_loop.simps Let_def demo_env_def)
  then show ?thesis
    by (simp add: disk_mount_def drive_ok_def tnfs_is_url_def strncaseeq_def strcaseeq_def tolower_def
        demo_open) (simp add: demo_env_def sd_path_def segments_ok.simps)
qed

lemma disk_inv_len_drv: "disk_inv pend st \<Longrightarrow> length (s_drv st) = 4"
  by (simp add: disk_inv_def disk_wf_def)

lemma demo_disk_eq:
  "demo_disk = slot_swap demo_env 1 (slot_local demo_backing ''a.dsk'' ''A.DSK'') (disk_boot demo_files\<lparr>next_id := 1\<rparr>)"
  by (simp add: demo_disk_def demo_mount)

lemma demo_disk_facts:
  "disk_inv None demo_disk" "drv demo_disk 1 = slot_local demo_backing ''a.dsk'' ''A.DSK'' empty_drive"
  "files demo_disk = demo_files" "s_lock demo_disk" "s_mount_lock demo_disk" "\<not> valid (s_cache demo_disk)"
proof -
  show "disk_inv None demo_disk"
    unfolding demo_disk_eq by (rule disk_inv_local_slot[OF disk_boot_disk_inv _ demo_open])
      (simp_all add: drive_ok_def unshared_def disk_boot_def empty_drive_def)
  show "drv demo_disk 1 = slot_local demo_backing ''a.dsk'' ''A.DSK'' empty_drive"
    unfolding demo_disk_eq by (subst slot_swap_drv) (simp_all add: disk_boot_def drive_ok_def)
  show "files demo_disk = demo_files" "s_lock demo_disk" "s_mount_lock demo_disk" "\<not> valid (s_cache demo_disk)"
    unfolding demo_disk_eq by (simp_all add: slot_swap_rest disk_boot_def cache_drop_drive_def)
qed

lemma demo_check:
  "unat t < 2 \<Longrightarrow> check_track 1 t 128 demo_disk = ESP_OK"
  using demo_disk_facts(2)
  by (simp add: check_track_ok drive_ok_def slot_local_def demo_backing_def track_in_bounds_iff)

lemma demo_read:
  "\<exists>w st'. disk_read_track demo_env 1 1 128 True demo_disk = (ESP_OK, w, st') \<and>
     drv st' 1 = drv demo_disk 1 \<and> files st' = demo_files \<and> disk_inv None st'"
proof -
  note inv = demo_disk_facts(1) and sl = demo_disk_facts(2) and fl = demo_disk_facts(3,4,6)
  have c: "check_track 1 1 128 demo_disk = ESP_OK" by (rule demo_check) simp
  have "fst (disk_read_track demo_env 1 1 128 True demo_disk) = ESP_OK"
    using sl fl c by (simp add: disk_read_track_def cache_copy_out_def slot_local_def demo_backing_def
        backing_read_at_def local_read_at_def demo_env_def demo_io_def demo_files_def Let_def disk_track_offset_def)
  then obtain w st' where r: "disk_read_track demo_env 1 1 128 True demo_disk = (ESP_OK, w, st')"
    by (metis prod.collapse)
  have "\<not> remote (drv demo_disk 1)" using sl by (simp add: slot_local_def)
  from disk_read_local[OF demo_env_ok(1) inv this r] show ?thesis using r fl(1) by simp
qed

text \<open>
  C2. A track read returns the track: when \<open>disk_read_track\<close> succeeds, from the cache, from the
  card or through the worker, the drive is mounted, the track lies inside its image, and
  the bytes copied out are exactly those of the image file at that moment; and the store's
  invariant holds again. What the other tasks do during a remote wait is arbitrary as long
  as it keeps the invariant.
\<close>

theorem disk_read_exact:
  assumes "env_ok e" "run_ok e" "disk_inv None st" "disk_read_track e d t len dst st = (ESP_OK, w, st')"
  shows "disk_inv None st' \<and> (\<exists>b. backing_of (drv st' d) = Some b \<and> mounted (drv st' d) \<and>
    unat t * len + len \<le> length (files st' (b_obj b)) \<and>
    w = Some (slice (unat t * len) len (files st' (b_obj b))))"
  using read_track_exact[OF assms] by blast

theorem disk_read_exact_witness:
  "fst (snd (disk_read_track demo_env 1 1 128 True demo_disk)) = Some (replicate 128 9)"
proof -
  obtain w st' where r: "disk_read_track demo_env 1 1 128 True demo_disk = (ESP_OK, w, st')"
    "drv st' 1 = drv demo_disk 1" "files st' = demo_files" using demo_read by blast
  show ?thesis
    using disk_read_exact[OF demo_env_ok demo_disk_facts(1) r(1)] demo_disk_facts(2) r
    by (auto simp: slot_local_def demo_backing_def demo_files_def slice_def)
qed

lemma slice_nth: "off \<le> i \<Longrightarrow> i < off + len \<Longrightarrow> i < length d \<Longrightarrow> slice off len d ! (i - off) = d ! i"
  by (simp add: slice_def)

lemma wrote_overwrite:
  assumes "wrote b t len data True st st'" "len \<le> length data" "unat t * len + len \<le> length (files st (b_obj b))"
  shows "files st' (b_obj b) = overwrite (unat t * len) (take len data) (files st (b_obj b))"
proof (rule nth_equalityI)
  let ?o = "unat t * len" and ?d = "files st (b_obj b)" and ?d' = "files st' (b_obj b)"
  let ?w = "overwrite ?o (take len data) ?d"
  have lw: "length ?w = length ?d" using assms(2,3) by (intro length_overwrite) simp
  then show "length ?d' = length ?w" using assms(1) by (simp add: wrote_def)
  fix i assume "i < length ?d'"
  then have i: "i < length ?d" "i < length ?w" using assms(1) lw by (simp_all add: wrote_def)
  show "?d' ! i = ?w ! i"
  proof (cases "i < ?o \<or> ?o + len \<le> i")
    case True
    then have "?d' ! i = ?d ! i" using assms(1) i unfolding wrote_def by blast
    moreover have "?w ! i = ?d ! i" using True assms(2,3) i by (intro overwrite_nth_out) auto
    ultimately show ?thesis by simp
  next
    case False
    have "slice ?o len ?d' = take len data" using assms(1) by (simp add: wrote_def track_data_def)
    also have "\<dots> = slice ?o len ?w"
      using slice_overwrite_same[of ?o "take len data" ?d] assms(2,3) by simp
    finally show ?thesis
      using False i slice_nth[of ?o i len ?d'] slice_nth[of ?o i len ?w] assms(1) by (simp add: wrote_def)
  qed
qed

lemma track_after_write:
  assumes "env_ok e" "disk_inv None st" "\<not> remote (drv st d)" "len \<le> length data"
    "disk_write_track e d t len (Some data) st = (ESP_OK, st')"
  shows "disk_read_track e' d t len True st' = (ESP_OK, Some (take len data), st')"
proof -
  from disk_write_local[OF assms(1-3,5), simplified, OF assms(4)] obtain b where
    b: "s_drv st' = s_drv st" "backing_of (drv st d) = Some b" "mounted (drv st d)" "drive_ok d" "0 < len" "len \<le> 8192"
    "disk_track_in_bounds t (of_nat len) (b_size b)" by auto
  have ck: "check_track d t len st = ESP_OK" "check_track d t len st' = ESP_OK" using b by (auto simp: check_track_ok)
  have "s_lock st" using assms(5) by (simp add: disk_write_track_def split: if_splits)
  moreover have "\<exists>s. st' = cache_fill d t len data s \<and> s_lock s = s_lock st"
    using assms(3,5) ck by (auto simp: disk_write_track_def backing_write_at_def Let_def split: if_splits)
  moreover have "take len (memcpy0 (take len data) buf) = take len data" for buf
    using take_memcpy0[of "take len data" buf] assms(4) by simp
  ultimately have "s_lock st'" "cache_copy_out d t len st' = Some (take len data)"
    by (auto simp: cache_fill_def cache_copy_out_def)
  then show ?thesis using ck by (simp add: disk_read_track_def)
qed

text \<open>
  A successful write is the write asked for, and nothing else: on a local drive the
  track of the image file then holds exactly the data, every other byte of it and every
  other file is as before, the table is unchanged, and a read of that track, which the
  cache may serve, returns the data.
\<close>

theorem disk_write_then_read:
  assumes "env_ok e" "disk_inv None st" "\<not> remote (drv st d)" "len \<le> length data"
    "disk_write_track e d t len (Some data) st = (ESP_OK, st')"
  shows "disk_read_track e' d t len True st' = (ESP_OK, Some (take len data), st') \<and>
    disk_inv None st' \<and> s_drv st' = s_drv st \<and>
    (\<exists>b. backing_of (drv st d) = Some b \<and> (\<forall>ob. ob \<noteq> b_obj b \<longrightarrow> files st' ob = files st ob) \<and>
      files st' (b_obj b) = overwrite (unat t * len) (take len data) (files st (b_obj b)))"
proof -
  note w = disk_write_local[OF assms(1-3,5), simplified, OF assms(4)]
  then obtain b where b: "backing_of (drv st d) = Some b" "mounted (drv st d)" "drive_ok d" "0 < len" "len \<le> 8192"
    "disk_track_in_bounds t (of_nat len) (b_size b)" "wrote b t len data True st st'" by auto
  have sz: "unat t * len + len \<le> length (files st (b_obj b))"
    using track_region(2)[OF b(6,5)] disk_inv_slotD(1)[OF assms(2) b(3,2,1)] by simp
  show ?thesis
    using track_after_write[OF assms] w b wrote_overwrite[OF b(7) assms(4) sz] by (auto simp: wrote_def)
qed

theorem disk_write_then_read_witness:
  "fst (snd (disk_read_track demo_env 1 0 128 True
     (snd (disk_write_track demo_env 1 0 128 (Some (replicate 128 5)) demo_disk)))) = Some (replicate 128 5)"
proof -
  note sl = demo_disk_facts(2) and fl = demo_disk_facts(3,4,6)
  have c: "check_track 1 0 128 demo_disk = ESP_OK"
    using sl by (simp add: check_track_ok drive_ok_def slot_local_def demo_backing_def track_in_bounds_iff)
  have "fst (disk_write_track demo_env 1 0 128 (Some (replicate 128 5)) demo_disk) = ESP_OK"
    using sl fl c by (simp add: disk_write_track_def slot_local_def demo_backing_def empty_drive_def
        backing_write_at_def local_write_at_def demo_env_def demo_io_def demo_files_def Let_def)
  then obtain st' where r: "disk_write_track demo_env 1 0 128 (Some (replicate 128 5)) demo_disk = (ESP_OK, st')"
    by (metis prod.collapse)
  show ?thesis
    using disk_write_then_read[OF demo_env_ok(1) demo_disk_facts(1) _ _ r, of demo_env] sl r
    by (simp add: slot_local_def empty_drive_def)
qed

text \<open>
  A write touches nothing but its track, whatever fails: on a local drive, on every
  path out of \<open>disk_write_track\<close> the image keeps its length and all bytes outside the
  track, every other file is untouched, and a refused request (bad drive, length, no
  image, out of range, read-only) leaves the whole store as it was. After a failed
  transfer the drive's track is no longer cached, so it cannot be served stale.
\<close>

theorem disk_write_frame:
  assumes "env_ok e" "disk_inv None st" "\<not> remote (drv st d)" "\<forall>x. data = Some x \<longrightarrow> len \<le> length x"
    "disk_write_track e d t len data st = (err, st')"
  shows "disk_inv None st' \<and>
    (st' = st \<and> err \<noteq> ESP_OK \<or>
     (\<exists>b. backing_of (drv st d) = Some b \<and> (\<forall>ob. ob \<noteq> b_obj b \<longrightarrow> files st' ob = files st ob) \<and>
        length (files st' (b_obj b)) = length (files st (b_obj b)) \<and>
        (\<forall>i<length (files st (b_obj b)). i < unat t * len \<or> unat t * len + len \<le> i \<longrightarrow>
           files st' (b_obj b) ! i = files st (b_obj b) ! i) \<and>
        (err \<noteq> ESP_OK \<longrightarrow> \<not> (valid (s_cache st') \<and> c_drive (s_cache st') = d))))"
proof (cases "s_lock st \<and> data \<noteq> None \<and> check_track d t len st = ESP_OK \<and> \<not> readonly (drv st d)")
  case False
  then have "st' = st" "err \<noteq> ESP_OK" using assms(5) by (auto simp: disk_write_track_def Let_def split: if_splits)
  then show ?thesis using assms(2) by simp
next
  case True
  note w = disk_write_local[OF assms(1-3,5,4)]
  obtain b x s er where b: "backing_of (drv st d) = Some b" "data = Some x"
      "backing_write_at e b (disk_track_offset t (of_nat len)) x len st = (er, s)"
    using True by (auto simp: check_track_ok) (metis surj_pair)
  have r: "(err, st') = (if er = ESP_OK then (ESP_OK, cache_fill d t len x s) else (er, cache_drop_drive d s))"
    using assms(3,5) True b by (auto simp: disk_write_track_def Let_def)
  have "files st' = files st \<or> wrote b t len x (err = ESP_OK) st st'" using w b by auto
  moreover have "err \<noteq> ESP_OK \<longrightarrow> \<not> (valid (s_cache st') \<and> c_drive (s_cache st') = d)"
    using r by (auto simp: cache_drop_drive_def split: if_splits)
  ultimately show ?thesis using w b by (auto simp: wrote_def)
qed

theorem disk_write_frame_witness:
  "\<exists>st'. disk_write_track (demo_env\<lparr>e_io := demo_io\<lparr>xfer := 60, torn := replicate 60 5\<rparr>\<rparr>) 1 0 128
           (Some (replicate 128 5)) demo_disk = (ESP_FAIL, st') \<and>
     length (files st' (SdFile 0)) = 256 \<and> files st' (SdFile 0) ! 200 = 9"
proof -
  let ?e = "demo_env\<lparr>e_io := demo_io\<lparr>xfer := 60, torn := replicate 60 5\<rparr>\<rparr>"
  note sl = demo_disk_facts(2) and fl = demo_disk_facts(3,4,6)
  have ok: "env_ok ?e" using demo_env_ok(1) by (simp add: env_ok_def)
  have c: "check_track 1 0 128 demo_disk = ESP_OK"
    using sl by (simp add: check_track_ok drive_ok_def slot_local_def demo_backing_def track_in_bounds_iff)
  have "fst (disk_write_track ?e 1 0 128 (Some (replicate 128 5)) demo_disk) = ESP_FAIL"
    using sl fl c by (simp add: disk_write_track_def slot_local_def demo_backing_def empty_drive_def
        backing_write_at_def local_write_at_def demo_env_def demo_io_def demo_files_def Let_def)
  then obtain st' where r: "disk_write_track ?e 1 0 128 (Some (replicate 128 5)) demo_disk = (ESP_FAIL, st')"
    by (metis prod.collapse)
  have "\<not> remote (drv demo_disk 1)" using sl by (simp add: slot_local_def)
  note f = disk_write_frame[OF ok demo_disk_facts(1) this _ r]
  have b: "backing_of (drv demo_disk 1) = Some demo_backing" using sl by (simp add: slot_local_def)
  have l: "length (files demo_disk (SdFile 0)) = 256" "files demo_disk (SdFile 0) ! 200 = 9"
    using fl by (simp_all add: demo_files_def nth_append)
  from f b have "length (files st' (SdFile 0)) = 256 \<and> files st' (SdFile 0) ! 200 = 9"
    using l by (auto simp: demo_backing_def)
  with r show ?thesis by blast
qed

text \<open>
  A failed mount never leaves the old disk in place: when mounting a card image fails
  for any reason (no card, bad name, no such file, out of memory), the drive ends up empty
  and unmounted, its cached track is dropped and the other drives are as they were; when
  it succeeds the drive is mounted, local, writable, with the opened file behind it. (The
  empty name and a bad drive number are refused before anything is touched.)
\<close>

theorem disk_mount_outcome:
  assumes "length (s_drv st) = 4" "drive_ok d" "name \<noteq> []" "\<not> tnfs_is_url name"
    "disk_mount e d (Some name) st = (err, st')"
  shows "(if err = ESP_OK
          then mounted (drv st' d) \<and> \<not> remote (drv st' d) \<and> \<not> readonly (drv st' d) \<and>
            (\<exists>p f b. sd_path name 145 = Some p \<and> e_fopen e p = Some f \<and> backing_of (drv st' d) = Some b \<and>
               b_obj b = SdFile f \<and> unat (b_size b) = length (files st (SdFile f)))
          else backing_of (drv st' d) = None \<and> \<not> mounted (drv st' d) \<and> dname (drv st' d) = []) \<and>
    (\<forall>i<4. i \<noteq> nat d \<longrightarrow> s_drv st' ! i = s_drv st ! i) \<and>
    \<not> (valid (s_cache st') \<and> c_drive (s_cache st') = d) \<and> files st' = files st"
proof -
  have n: "nat d < 4" using assms(2) by (simp add: drive_ok_iff)
  have cc: "\<not> (valid (s_cache (slot_swap e d f s)) \<and> c_drive (s_cache (slot_swap e d f s)) = d)" for f s
    by (simp add: slot_swap_rest cache_drop_drive_def)
  from disk_mount_local_cases[OF assms(4,2,3,5)] show ?thesis
  proof (elim disjE exE conjE)
    assume "err \<noteq> ESP_OK" "st' = slot_swap e d slot_empty st"
    then show ?thesis
      using n cc[of slot_empty st] by (simp add: slot_swap_drv[OF assms(1,2)] slot_swap_rest slot_empty_def)
  next
    fix b st1 cn path
    assume a: "err = ESP_OK" "local_open e name st = (Inr b, st1)" "sd_path name 145 = Some path"
      "st' = slot_swap e d (slot_local b name cn) st1"
    note o = local_open_ok[OF a(2)]
    have l1: "length (s_drv st1) = 4" using assms(1) by (simp add: o(4))
    have f: "\<exists>f. e_fopen e path = Some f \<and> b_obj b = SdFile f"
      using a(2,3) by (auto simp: local_open_def Let_def split: option.splits if_splits)
    have same: "s_drv st1 = s_drv st" "files st1 = files st" by (simp_all add: o(4))
    have d: "drv st' d = slot_local b name cn (drv st d)" "\<forall>i<4. i \<noteq> nat d \<longrightarrow> s_drv st' ! i = s_drv st ! i"
      using n same by (simp_all add: a(4) slot_swap_drv[OF l1 assms(2)])
    have "files st' = files st" using same by (simp add: a(4) slot_swap_rest)
    then show ?thesis
      using f d a(1,3) o(2) cc[of "slot_local b name cn" st1] unfolding a(4)[symmetric]
      by (auto simp: slot_local_def)
  qed
qed

theorem disk_mount_outcome_witness:
  "disk_mount demo_env 1 (Some ''b.dsk'') demo_disk \<noteq> (ESP_OK, demo_disk) \<and>
   \<not> mounted (drv (snd (disk_mount demo_env 1 (Some ''b.dsk'') demo_disk)) 1)"
proof -
  have l: "length (s_drv demo_disk) = 4" using demo_disk_facts(1) disk_inv_len_drv by blast
  have "local_open demo_env ''b.dsk'' demo_disk = (Inl ESP_ERR_NOT_FOUND, demo_disk)"
    by (simp add: local_open_def sd_path_def segments_ok.simps demo_env_def)
  then have e: "disk_mount demo_env 1 (Some ''b.dsk'') demo_disk =
      (ESP_ERR_NOT_FOUND, snd (disk_unmount demo_env 1 demo_disk))"
    by (simp add: disk_mount_def drive_ok_def tnfs_is_url_def strncaseeq_def strcaseeq_def tolower_def)
      (simp add: demo_env_def)
  have "\<not> tnfs_is_url ''b.dsk''"
    by (simp add: tnfs_is_url_def strncaseeq_def strcaseeq_def tolower_def)
  from disk_mount_outcome[OF l _ _ this e] show ?thesis
    unfolding e by (simp add: drive_ok_def)
qed

text \<open>
  C23. A mounted image cannot be changed under its handle: after a local mount that
  succeeded, with \<open>c\<close> the 8.3 name the card gives the image, \<open>disk_change_begin\<close> refuses
  every path whose canonical name is \<open>c\<close> in any case, or a folder that holds it, or the
  root: it returns a drive number whose image the path really holds, with nothing held and
  nothing changed. When it returns -1 instead, the mount lock is held, and no mounted
  image is the path or in it.
\<close>

theorem change_guard:
  assumes "length (s_drv st) = 4" "drive_ok d" "name \<noteq> []" "\<not> tnfs_is_url name"
    "disk_mount e d (Some name) st = (ESP_OK, st')" "sd_path name 145 = Some p"
    "sd_canonical (e_sd_mounted e) (e_pdrv e) (e_fstat e) p 258 = Some c" "c \<noteq> []" "length c < 258"
    "s_mount_lock st"
    "sd_canonical (e_sd_mounted e2) (e_pdrv e2) (e_fstat e2) path 258 = Some cn"
  shows "case disk_change_begin e2 path st' of (r, st2) \<Rightarrow>
    (holds_image cn c \<longrightarrow> 0 \<le> r) \<and>
    (0 \<le> r \<longrightarrow> st2 = st' \<and> drive_ok r \<and> mounted (drv st' r) \<and> holds_image cn (canon (drv st' r))) \<and>
    (r < 0 \<longrightarrow> r = -1 \<and> mount_depth st2 = mount_depth st' + 1 \<and> s_drv st2 = s_drv st' \<and>
       (\<forall>i<4. mounted (s_drv st' ! i) \<and> \<not> remote (s_drv st' ! i) \<and> canon (s_drv st' ! i) \<noteq> [] \<longrightarrow>
          \<not> holds_image cn (canon (s_drv st' ! i))))"
proof -
  have n: "nat d < 4" using assms(2) by (simp add: drive_ok_iff)
  from disk_mount_local_cases[OF assms(4,2,3,5)] obtain b st1 where
    m: "local_open e name st = (Inr b, st1)" "st' = slot_swap e d (slot_local b name c) st1"
    using assms(6,7) by auto
  note o = local_open_ok(4)[OF m(1)]
  have l1: "length (s_drv st1) = 4" using assms(1) by (simp add: o)
  have l: "length (s_drv st') = 4" "s_mount_lock st'" using l1 assms(10) unfolding m(2) by (simp_all add: slot_swap_rest o)
  have sd: "change_hits cn (drv st' d) \<longleftrightarrow> holds_image cn c"
    using n assms(8,9) unfolding m(2)
    by (simp add: slot_swap_drv[OF l1 assms(2)] slot_local_def change_hits_iff)
  let ?r = "change_scan 0 cn (s_drv st')"
  have r: "disk_change_begin e2 path st' =
      (if 0 \<le> ?r then (?r, mount_unlock (mount_lock st')) else (-1, mount_lock st'))"
    using l(2) assms(11) by (simp add: disk_change_begin_def Let_def mount_lock_def)
  have ul: "mount_unlock (mount_lock st') = st'" by (simp add: mount_lock_def mount_unlock_def)
  show ?thesis
  proof (cases "0 \<le> ?r")
    case True
    then have w: "nat ?r < 4 \<and> change_hits cn (drv st' ?r)"
      using change_scan_which[of 0 cn "s_drv st'" "nat ?r"] l(1) by simp
    then show ?thesis using r True ul by (auto simp: change_hits_iff drive_ok_iff)
  next
    case False
    then have no: "\<not> change_hits cn (s_drv st' ! i)" if "i < 4" for i
      using change_scan_hit[of 0 cn "s_drv st'"] that l(1) by (metis nth_mem)
    then show ?thesis
      using r False sd n by (auto simp: change_hits_iff mount_lock_def)
  qed
qed

theorem change_guard_witness:
  "fst (disk_change_begin demo_env ''/sd/./A.dsk'' demo_disk) = -1 \<and>
   0 \<le> fst (disk_change_begin demo_env ''/sd//a.dsk'' demo_disk)"
proof -
  have l: "length (s_drv (disk_boot demo_files)) = 4" "s_mount_lock (disk_boot demo_files)"
    by (simp_all add: disk_boot_def)
  have m: "disk_mount demo_env 1 (Some ''a.dsk'') (disk_boot demo_files) = (ESP_OK, demo_disk)"
    by (simp add: demo_disk_def demo_mount)
  have nu: "\<not> tnfs_is_url ''a.dsk''"
    by (simp add: tnfs_is_url_def strncaseeq_def strcaseeq_def tolower_def)
  have p: "sd_path ''a.dsk'' 145 = Some ''/sd/a.dsk''" by (simp add: sd_path_def segments_ok.simps)
  have dm: "e_sd_mounted demo_env" "e_pdrv demo_env = Some ''0''"
    "e_fstat demo_env ''0:/a.dsk'' = Some (''a.dsk'', ''A.DSK'')" "e_fstat demo_env ''0:/A.dsk'' = None"
    by (simp_all add: demo_env_def)
  have c1: "sd_canonical (e_sd_mounted demo_env) (e_pdrv demo_env) (e_fstat demo_env) ''/sd/a.dsk'' 258 = Some ''A.DSK''"
    by (simp add: sd_canonical_def strneq_def canonical_loop.simps Let_def dm)
  have c2: "sd_canonical (e_sd_mounted demo_env) (e_pdrv demo_env) (e_fstat demo_env) ''/sd//a.dsk'' 258 = Some ''A.DSK''"
    by (simp add: sd_canonical_def strneq_def canonical_loop.simps Let_def dm)
  have "sd_canonical (e_sd_mounted demo_env) (e_pdrv demo_env) (e_fstat demo_env) ''/sd/./A.dsk'' 258 = None"
    by (simp add: sd_canonical_def strneq_def canonical_loop.simps Let_def dm)
  then have "fst (disk_change_begin demo_env ''/sd/./A.dsk'' demo_disk) = -1"
    using demo_disk_facts(5) by (simp add: disk_change_begin_def mount_lock_def Let_def)
  moreover have "holds_image ''A.DSK'' ''A.DSK''" by (simp add: holds_image_def)
  ultimately show ?thesis
    using change_guard[OF l(1) _ _ nu m p c1 _ _ l(2) c2]
    by (simp add: drive_ok_def split: prod.splits)
qed

section \<open>The change guard around a change\<close>

lemma unlock_lock [simp]: "mount_unlock (mount_lock dk) = dk"
  by (simp add: mount_lock_def mount_unlock_def)

lemma change_begin_refuses: "0 \<le> fst (disk_change_begin e p dk) \<Longrightarrow> snd (disk_change_begin e p dk) = dk"
  by (auto simp: disk_change_begin_def Let_def split: if_splits option.splits)

lemma s_mount_lock_lock [simp]: "s_mount_lock (mount_lock dk) = s_mount_lock dk"
  by (simp add: mount_lock_def)

lemma change_end_begin: "\<not> 0 \<le> fst (disk_change_begin e p dk) \<Longrightarrow> disk_change_end (snd (disk_change_begin e p dk)) = dk"
  by (auto simp: disk_change_begin_def disk_change_end_def Let_def split: if_splits option.splits)

lemma demo_guard: "0 \<le> fst (disk_change_begin demo_env ''/sd/a.dsk'' demo_disk)"
proof -
  have c: "sd_canonical (e_sd_mounted demo_env) (e_pdrv demo_env) (e_fstat demo_env) ''/sd/a.dsk'' 258 = Some ''A.DSK''"
    by (simp add: sd_canonical_def strneq_def canonical_loop.simps Let_def demo_env_def)
  have "\<exists>dr \<in> set (s_drv demo_disk). change_hits ''A.DSK'' dr"
  proof
    show "change_hits ''A.DSK'' (drv demo_disk 1)"
      unfolding demo_disk_facts(2) by (simp add: slot_local_def change_hits_iff holds_image_def)
    show "drv demo_disk 1 \<in> set (s_drv demo_disk)" using disk_inv_len_drv[OF demo_disk_facts(1)] by simp
  qed
  then have "0 \<le> change_scan 0 ''A.DSK'' (s_drv demo_disk)" by (simp only: change_scan_hit)
  then show ?thesis using c demo_disk_facts(5)
    by (simp add: disk_change_begin_def mount_lock_def Let_def)
qed

end
