(* ===== verification/DiskWorker.thy ===== *)
theory DiskWorker
  imports DiskStoreProps
begin

text \<open>
  The disk store under interleaving: the FDC task, the command tasks and the disk-I/O worker
  run together, and only the critical sections of \<^verbatim>\<open>disk.c\<close> are atomic. A state is the store
  and the phase of the worker (what it holds between two sections); a step is one section
  of one task. The theory shows that the cached track is coherent in every reachable state,
  hence what a reader is given, and that no backing is closed twice or closed while in use.
\<close>

section \<open>The steps\<close>

text \<open>
  Between its sections the worker holds: the backing and the job of a transfer it is about
  to make, the outcome of the one it made, the URL it is opening, the session it opened.
\<close>

datatype wphase =
    WIdle
  | WReadIo backing rjob
  | WReadDone backing rjob esp_err
  | WWriteIo backing rjob
  | WWriteDone backing rjob esp_err
  | WOpening string rjob
  | WMounted backing bool string rjob

text \<open>A job that \<open>rjob_new_io\<close> built after \<open>check_track\<close> passed.\<close>

definition job_wf :: "rjob \<Rightarrow> bool" where
  "job_wf j \<longleftrightarrow> jlen j \<le> 8192 \<and> (jtype j = RJOB_WRITE \<longrightarrow> length (wdata j) = jlen j) \<and>
     (jtype j = RJOB_CLOSE \<longleftrightarrow> bclose j \<noteq> None)"

text \<open>
  Two restrictions, both on the environment: no file is mounted on two drives at once (the
  code does not check it), and a session reports at most the size its file has.
\<close>

inductive dstep :: "disk_state \<times> wphase \<Rightarrow> disk_state \<times> wphase \<Rightarrow> bool" where
  t_read: "env_ok e \<Longrightarrow> \<not> remote (drv st d) \<Longrightarrow> disk_read_track e d t len dst st = (err, w, st')
    \<Longrightarrow> dstep (st, ph) (st', ph)"
| t_write: "env_ok e \<Longrightarrow> \<not> remote (drv st d) \<Longrightarrow> \<forall>x. data = Some x \<longrightarrow> len \<le> length x
    \<Longrightarrow> disk_write_track e d t len data st = (err, st') \<Longrightarrow> dstep (st, ph) (st', ph)"
| post: "job_wf j \<Longrightarrow> jtype j \<noteq> RJOB_CLOSE \<Longrightarrow> rjob_post_async room (Some j) st = (err, st')
    \<Longrightarrow> dstep (st, ph) (st', ph)"
| unmount: "disk_unmount e d st = (err, st') \<Longrightarrow> dstep (st, ph) (st', ph)"
| mount_local: "drive_ok d \<Longrightarrow> local_open e name st = (Inr b, st1) \<Longrightarrow> unshared st d (b_obj b)
    \<Longrightarrow> dstep (st, ph) (slot_swap e d (slot_local b name cn) st1, ph)"
| mount_remote: "drive_ok d \<Longrightarrow> dstep (st, ph) (slot_swap e d (slot_remote url) st, ph)"
| net_down: "drive_ok d \<Longrightarrow> remote (drv st d) \<Longrightarrow> dstep (st, ph) (slot_swap e d slot_down st, ph)"
| w_refuse: "s_rq st = Some (j # q) \<Longrightarrow> jtype j \<noteq> RJOB_CLOSE \<Longrightarrow> dstep (st, WIdle) (st\<lparr>s_rq := Some q\<rparr>, WIdle)"
| w_read: "s_rq st = Some (j # q) \<Longrightarrow> jtype j = RJOB_READ \<Longrightarrow> worker_check False j st = Some b
    \<Longrightarrow> dstep (st, WIdle) (st\<lparr>s_rq := Some q\<rparr>, WReadIo b j)"
| w_read_io: "env_ok e \<Longrightarrow> worker_read_io e b j st = (err, st') \<Longrightarrow> dstep (st, WReadIo b j) (st', WReadDone b j err)"
| w_read_done: "worker_read_install b j err st = (r, st') \<Longrightarrow> dstep (st, WReadDone b j err) (st', WIdle)"
| w_write: "s_rq st = Some (j # q) \<Longrightarrow> jtype j = RJOB_WRITE \<Longrightarrow> worker_check True j st = Some b
    \<Longrightarrow> dstep (st, WIdle) (st\<lparr>s_rq := Some q\<rparr>, WWriteIo b j)"
| w_write_io: "env_ok e \<Longrightarrow> worker_write_io e b j st = (err, st') \<Longrightarrow> dstep (st, WWriteIo b j) (st', WWriteDone b j err)"
| w_write_done: "worker_write_install b j err st = (r, st') \<Longrightarrow> dstep (st, WWriteDone b j err) (st', WIdle)"
| w_mount: "s_rq st = Some (j # q) \<Longrightarrow> jtype j = RJOB_MOUNT \<Longrightarrow> worker_mount_check j st = Some url
    \<Longrightarrow> dstep (st, WIdle) (st\<lparr>s_rq := Some q\<rparr>, WOpening url j)"
| w_open_fail: "worker_mount_open e url st = (Inl err, st') \<Longrightarrow> dstep (st, WOpening url j) (st', WIdle)"
| w_open: "worker_mount_open e url st = (Inr (b, rd), st') \<Longrightarrow> unat (b_size b) \<le> length (files st (b_obj b))
    \<Longrightarrow> dstep (st, WOpening url j) (st', WMounted b rd url j)"
| w_install: "unshared st (jdrive j) (b_obj b) \<Longrightarrow> worker_mount_install b rd url j st = (r, st')
    \<Longrightarrow> dstep (st, WMounted b rd url j) (st', WIdle)"
| w_close: "s_rq st = Some (j # q) \<Longrightarrow> bclose j = Some b
    \<Longrightarrow> dstep (st, WIdle) (backing_close b (st\<lparr>s_rq := Some q\<rparr>), WIdle)"

inductive disk_reach :: "disk_state \<times> wphase \<Rightarrow> bool" where
  boot: "disk_reach (disk_boot fs, WIdle)"
| step: "disk_reach p \<Longrightarrow> dstep p p' \<Longrightarrow> disk_reach p'"

inductive_cases dstepE: "dstep p p'"

section \<open>The invariant of the worker's phase\<close>

fun pend_of :: "wphase \<Rightarrow> nat option" where
  "pend_of (WWriteDone b j err) = Some (b_id b)"
| "pend_of _ = None"

text \<open>
  What stays true of a backing the worker took out of slot \<open>d\<close>: it is a remote session of
  some size, and if any slot has a backing with its address or its file, that slot is \<open>d\<close>
  and the backing is this one.
\<close>

definition taken :: "backing \<Rightarrow> int \<Rightarrow> disk_state \<Rightarrow> bool" where
  "taken b d st \<longleftrightarrow> is_net b \<and> drive_ok d \<and> b_id b < next_id st \<and>
     unat (b_size b) \<le> length (files st (b_obj b)) \<and>
     (\<forall>d'<4. \<forall>b'. backing_of (s_drv st ! d') = Some b' \<longrightarrow> b_obj b' = b_obj b \<or> b_id b' = b_id b \<longrightarrow>
        d' = nat d \<and> b' = b)"

definition xfer_ok :: "backing \<Rightarrow> rjob \<Rightarrow> bool" where
  "xfer_ok b j \<longleftrightarrow> jlen j \<le> 8192 \<and> disk_track_in_bounds (jtrack j) (of_nat (jlen j)) (b_size b)"

fun phase_inv :: "wphase \<Rightarrow> disk_state \<Rightarrow> bool" where
  "phase_inv WIdle st \<longleftrightarrow> True"
| "phase_inv (WReadIo b j) st \<longleftrightarrow> taken b (jdrive j) st \<and> xfer_ok b j"
| "phase_inv (WReadDone b j err) st \<longleftrightarrow> taken b (jdrive j) st \<and> xfer_ok b j \<and>
     (err = ESP_OK \<longrightarrow> take (jlen j) (s_stage st) = track_data b (jtrack j) (jlen j) st)"
| "phase_inv (WWriteIo b j) st \<longleftrightarrow> taken b (jdrive j) st \<and> xfer_ok b j \<and> length (wdata j) = jlen j"
| "phase_inv (WWriteDone b j err) st \<longleftrightarrow> taken b (jdrive j) st \<and> xfer_ok b j \<and> length (wdata j) = jlen j \<and>
     (err = ESP_OK \<longrightarrow> wdata j = track_data b (jtrack j) (jlen j) st)"
| "phase_inv (WOpening url j) st \<longleftrightarrow> True"
| "phase_inv (WMounted b rd url j) st \<longleftrightarrow> is_net b \<and> b_id b < next_id st \<and>
     unat (b_size b) \<le> length (files st (b_obj b)) \<and>
     (\<forall>d'<4. \<forall>b'. backing_of (s_drv st ! d') = Some b' \<longrightarrow> b_id b' \<noteq> b_id b)"

definition sys_inv :: "disk_state \<times> wphase \<Rightarrow> bool" where
  "sys_inv p \<longleftrightarrow> disk_inv (pend_of (snd p)) (fst p) \<and> phase_inv (snd p) (fst p) \<and>
     (\<forall>q. s_rq (fst p) = Some q \<longrightarrow> (\<forall>j \<in> set q. job_wf j))"

section \<open>Steps of the other tasks\<close>

text \<open>
  What a section of another task can do to what the worker relies on: it leaves the stage
  buffer and the remote files alone, and puts only fresh local backings into the table.
\<close>

definition env_frame :: "disk_state \<Rightarrow> disk_state \<Rightarrow> bool" where
  "env_frame st st' \<longleftrightarrow> next_id st \<le> next_id st' \<and> s_stage st' = s_stage st \<and>
     (\<forall>f. files st' (NetFile f) = files st (NetFile f)) \<and>
     (\<forall>d<4. \<forall>b. backing_of (s_drv st' ! d) = Some b \<longrightarrow>
        backing_of (s_drv st ! d) = Some b \<or> \<not> is_net b \<and> next_id st \<le> b_id b)"

lemma is_net_files: "is_net b \<Longrightarrow> env_frame st st' \<Longrightarrow> files st' (b_obj b) = files st (b_obj b)"
  by (cases "b_obj b") (auto simp: is_net_def env_frame_def)

lemma taken_frame:
  assumes "taken b d st" "env_frame st st'"
  shows "taken b d st'"
proof -
  have "d' = nat d \<and> b' = b"
    if "d' < 4" "backing_of (s_drv st' ! d') = Some b'" "b_obj b' = b_obj b \<or> b_id b' = b_id b" for d' b'
  proof -
    have "\<not> (\<not> is_net b' \<and> next_id st \<le> b_id b')"
      using that(3) assms(1) by (auto simp: taken_def is_net_def)
    then have "backing_of (s_drv st ! d') = Some b'"
      using assms(2) that(1,2) unfolding env_frame_def by blast
    then show ?thesis using assms(1) that(1,3) unfolding taken_def by blast
  qed
  then show ?thesis
    using assms is_net_files[OF _ assms(2), of b] unfolding taken_def env_frame_def by auto
qed

lemma track_data_frame: "taken b d st \<Longrightarrow> env_frame st st' \<Longrightarrow> track_data b t l st' = track_data b t l st"
  by (simp add: track_data_def is_net_files taken_def)

lemma phase_frame:
  assumes "phase_inv ph st" "env_frame st st'"
  shows "phase_inv ph st'"
proof (cases ph)
  case (WMounted b rd url j)
  have "b_id b' \<noteq> b_id b" if dd: "d' < 4" "backing_of (s_drv st' ! d') = Some b'" for d' b'
  proof -
    have "backing_of (s_drv st ! d') = Some b' \<or> next_id st \<le> b_id b'"
      using assms(2) dd unfolding env_frame_def by blast
    then show ?thesis using assms(1) dd(1) by (auto simp: WMounted)
  qed
  then show ?thesis
    using assms is_net_files[OF _ assms(2), of b] unfolding WMounted by (auto simp: env_frame_def)
next
  case (WReadDone b j err)
  then have "taken b (jdrive j) st" using assms(1) by simp
  then show ?thesis
    using assms(1) taken_frame track_data_frame assms(2) unfolding WReadDone
    by (simp add: env_frame_def[THEN iffD1, OF assms(2)])
next
  case (WWriteDone b j err)
  then have "taken b (jdrive j) st" using assms(1) by simp
  then show ?thesis
    using assms(1) taken_frame track_data_frame assms(2) unfolding WWriteDone by simp
qed (use assms(1) taken_frame[OF _ assms(2)] in simp_all)

lemma env_frame_same: "same_store st st' \<Longrightarrow> env_frame st st'"
  by (simp add: same_store_def env_frame_def)

lemma env_frame_trans:
  assumes "env_frame a b" "env_frame b c"
  shows "env_frame a c"
proof -
  have "backing_of (s_drv a ! d) = Some x \<or> \<not> is_net x \<and> next_id a \<le> b_id x"
    if "d < 4" "backing_of (s_drv c ! d) = Some x" for d x
    using assms that unfolding env_frame_def by (meson order_trans)
  then show ?thesis using assms unfolding env_frame_def by (auto intro: order_trans)
qed

lemma env_frame_drop: "env_frame st (cache_drop_drive d st)"
  by (simp add: env_frame_def)

lemma env_frame_swap:
  assumes "length (s_drv st) = 4" "drive_ok d"
    "\<And>b. backing_of (f (drv st d)) = Some b \<Longrightarrow> \<not> is_net b \<and> next_id st \<le> b_id b"
  shows "env_frame st (slot_swap e d f st)"
proof -
  have "env_frame st (set_drv d f st)"
    using assms(3) by (auto simp: env_frame_def set_drv_nth[OF assms(1,2)])
  then show ?thesis
    unfolding slot_swap_def
    by (metis env_frame_trans env_frame_drop env_frame_same same_store_dispose)
qed

definition rq_wf :: "disk_state \<Rightarrow> bool" where
  "rq_wf st \<longleftrightarrow> (\<forall>q. s_rq st = Some q \<longrightarrow> (\<forall>j \<in> set q. job_wf j))"

lemma rq_wf_post: "job_wf j \<Longrightarrow> rq_wf st \<Longrightarrow> rq_wf (snd (rjob_post_async room (Some j) st))"
  by (auto simp: rq_wf_def rjob_post_async_def split: option.split)

lemma rq_wf_swap: "rq_wf st \<Longrightarrow> rq_wf (slot_swap e d f st)"
proof -
  assume "rq_wf st"
  then have "rq_wf (cache_drop_drive d (set_drv d f st))" by (simp add: rq_wf_def)
  moreover have "job_wf (j\<lparr>bclose := Some b\<rparr>)" if "rjob_new a RJOB_CLOSE (-1) = Some j" for j a b
    using that by (auto simp: job_wf_def rjob_new_def split: if_splits)
  ultimately show ?thesis
    unfolding slot_swap_def backing_dispose_def
    by (auto simp: rq_wf_def backing_close_def rjob_post_async_def split: option.split)
qed

lemma disk_read_rest:
  assumes "\<not> remote (drv st d)" "disk_read_track e d t len dst st = (err, w, st')"
  shows "s_stage st' = s_stage st" "next_id st' = next_id st" "s_rq st' = s_rq st" "closed st' = closed st"
  using assms by (auto simp: disk_read_track_def Let_def split: if_splits option.splits)

lemma disk_write_rest:
  assumes "\<not> remote (drv st d)" "disk_write_track e d t len data st = (err, st')"
  shows "s_stage st' = s_stage st" "next_id st' = next_id st" "s_rq st' = s_rq st" "closed st' = closed st"
  using assms by (auto simp: disk_write_track_def backing_write_at_def cache_fill_def Let_def split: if_splits)

lemma disk_inv_len: "disk_inv pend st \<Longrightarrow> length (s_drv st) = 4"
  by (simp add: disk_inv_def disk_wf_def)

text \<open>A section of another task, in one lemma.\<close>

lemma env_step_inv:
  assumes "sys_inv (st, ph)" "disk_inv (pend_of ph) st'" "env_frame st st'" "rq_wf st'"
  shows "sys_inv (st', ph)"
  using assms phase_frame[of ph st st'] by (simp add: sys_inv_def rq_wf_def)

lemma env_read:
  assumes "sys_inv (st, ph)" "env_ok e" "\<not> remote (drv st d)" "disk_read_track e d t len dst st = (err, w, st')"
  shows "sys_inv (st', ph)"
proof (rule env_step_inv[OF assms(1)])
  have "disk_inv (pend_of ph) st" using assms(1) by (simp add: sys_inv_def)
  note r = disk_read_local[OF assms(2) this assms(3,4)] and q = disk_read_rest[OF assms(3,4)]
  show "disk_inv (pend_of ph) st'" using r by simp
  show "env_frame st st'" using r q by (simp add: env_frame_def)
  show "rq_wf st'" using assms(1) q by (simp add: sys_inv_def rq_wf_def)
qed

lemma env_write:
  assumes "sys_inv (st, ph)" "env_ok e" "\<not> remote (drv st d)" "\<forall>x. data = Some x \<longrightarrow> len \<le> length x"
    "disk_write_track e d t len data st = (err, st')"
  shows "sys_inv (st', ph)"
proof (rule env_step_inv[OF assms(1)])
  have inv: "disk_inv (pend_of ph) st" using assms(1) by (simp add: sys_inv_def)
  note r = disk_write_local[OF assms(2) inv assms(3,5,4)] and q = disk_write_rest[OF assms(3,5)]
  show "disk_inv (pend_of ph) st'" using r by simp
  have "files st' (NetFile f) = files st (NetFile f)" for f
  proof (cases "files st' = files st")
    case False
    then obtain b x where b: "backing_of (drv st d) = Some b" "mounted (drv st d)" "drive_ok d"
      "wrote b t len x (err = ESP_OK) st st'" using r by blast
    then have "\<not> is_net b" using disk_inv_slotD(2)[OF inv b(3,2,1)] assms(3) by simp
    then show ?thesis using b(4) by (auto simp: wrote_def is_net_def split: fobj.splits)
  qed simp
  then show "env_frame st st'" using r q by (simp add: env_frame_def)
  show "rq_wf st'" using assms(1) q by (simp add: sys_inv_def rq_wf_def)
qed

lemma env_swap:
  assumes "sys_inv (st, ph)" "drive_ok d" "backing_of (f (drv st d)) = None" "\<not> mounted (f (drv st d))"
  shows "sys_inv (slot_swap e d f st, ph)"
proof (rule env_step_inv[OF assms(1)])
  have inv: "disk_inv (pend_of ph) st" and q: "rq_wf st" using assms(1) by (simp_all add: sys_inv_def rq_wf_def)
  show "disk_inv (pend_of ph) (slot_swap e d f st)"
    using inv assms(2) slot_wf_no_backing[OF assms(3,4)] by (rule disk_inv_swap)
  show "env_frame st (slot_swap e d f st)"
    using disk_inv_len[OF inv] assms(2) by (rule env_frame_swap) (simp add: assms(3))
  show "rq_wf (slot_swap e d f st)" by (rule rq_wf_swap[OF q])
qed

lemma env_mount_local:
  assumes "sys_inv (st, ph)" "drive_ok d" "local_open e name st = (Inr b, st1)" "unshared st d (b_obj b)"
  shows "sys_inv (slot_swap e d (slot_local b name cn) st1, ph)"
proof (rule env_step_inv[OF assms(1)])
  have inv: "disk_inv (pend_of ph) st" and q: "rq_wf st" using assms(1) by (simp_all add: sys_inv_def rq_wf_def)
  note o = local_open_ok[OF assms(3)]
  show "disk_inv (pend_of ph) (slot_swap e d (slot_local b name cn) st1)"
    by (rule disk_inv_local_slot[OF inv assms(2-4)])
  have "env_frame st (set_drv d (slot_local b name cn) st1)"
    using o disk_inv_len[OF inv] by (auto simp: env_frame_def set_drv_nth[OF _ assms(2)] slot_local_def)
  then show "env_frame st (slot_swap e d (slot_local b name cn) st1)"
    unfolding slot_swap_def
    by (metis env_frame_trans env_frame_drop env_frame_same same_store_dispose)
  show "rq_wf (slot_swap e d (slot_local b name cn) st1)"
    using q o by (intro rq_wf_swap) (simp add: rq_wf_def)
qed

section \<open>Steps of the worker\<close>

lemma worker_check_taken:
  assumes inv: "disk_inv pend st" and c: "worker_check wr j st = Some b" and l: "jlen j \<le> 8192"
  shows "taken b (jdrive j) st \<and> xfer_ok b j"
proof -
  have w: "drive_ok (jdrive j)" "mounted (drv st (jdrive j))" "remote (drv st (jdrive j))"
    "backing_of (drv st (jdrive j)) = Some b"
    "disk_track_in_bounds (jtrack j) (of_nat (jlen j)) (b_size b)"
    using c by (auto simp: worker_check_def split: if_splits option.splits)
  note s = disk_inv_slotD[OF inv w(1,2,4)]
  have n: "nat (jdrive j) < 4" using w(1) by (simp add: drive_ok_iff)
  have u: "d' = nat (jdrive j) \<and> b' = b"
    if "d' < 4" "backing_of (s_drv st ! d') = Some b'" "b_obj b' = b_obj b \<or> b_id b' = b_id b" for d' b'
  proof (cases "d' = nat (jdrive j)")
    case False
    then show ?thesis
      using disk_inv_apart[OF inv w(1,4), of "int d'" b'] that by (auto simp: drive_ok_iff)
  qed (use that w(4) in simp)
  have "b_id b < next_id st" by (rule disk_wf_id[OF inv n w(4)])
  then show ?thesis using w s l u by (simp add: taken_def xfer_ok_def)
qed

lemma taken_cong:
  "next_id st' = next_id st \<Longrightarrow> s_drv st' = s_drv st \<Longrightarrow> length (files st' (b_obj b)) = length (files st (b_obj b)) \<Longrightarrow>
    taken b d st \<Longrightarrow> taken b d st'"
  by (simp add: taken_def)

lemma step_read_io:
  assumes "sys_inv (st, WReadIo b j)" "env_ok e" "worker_read_io e b j st = (err, st')"
  shows "sys_inv (st', WReadDone b j err)"
proof -
  have inv: "disk_inv None st" "length (s_stage st) = 8192" and t: "taken b (jdrive j) st" "xfer_ok b j"
    using assms(1) by (auto simp: sys_inv_def disk_inv_def disk_wf_def)
  let ?r = "backing_read_at e b (disk_track_offset (jtrack j) (of_nat (jlen j))) (s_stage st) (jlen j) st"
  have st': "st' = st\<lparr>s_stage := snd ?r\<rparr>" "err = fst ?r"
    using assms(3) by (auto simp: worker_read_io_def Let_def)
  have l: "jlen j \<le> 8192" "disk_track_in_bounds (jtrack j) (of_nat (jlen j)) (b_size b)"
    using t(2) by (simp_all add: xfer_ok_def)
  note reg = track_region[OF l(2,1)]
  have len: "length (snd ?r) = 8192" using backing_read(1)[OF assms(2)] inv l by simp
  have "disk_inv None st'"
    using inv(1) len unfolding st' by (simp add: disk_inv_def disk_wf_def slot_wf_def cache_coh_def track_data_def)
  moreover have "take (jlen j) (s_stage st') = track_data b (jtrack j) (jlen j) st'" if "err = ESP_OK"
    using backing_read(2)[OF assms(2) _ that[unfolded st'(2)]] inv(2) l reg t(1)
    by (simp add: st'(1) track_data_def taken_def)
  moreover have "taken b (jdrive j) st'" using t(1) by (rule taken_cong[rotated 3]) (simp_all add: st'(1))
  ultimately show ?thesis using assms(1) t(2) by (simp add: sys_inv_def st'(1))
qed

lemma same_backing_taken:
  assumes "taken b d st" "same_backing d b st"
  shows "backing_of (drv st d) = Some b" "mounted (drv st d)" "drive_ok d"
  using assms by (auto simp: taken_def same_backing_def drive_ok_iff)

lemma step_read_done:
  assumes "sys_inv (st, WReadDone b j err)" "worker_read_install b j err st = (r, st')"
  shows "sys_inv (st', WIdle)"
proof (cases "err = ESP_OK \<and> same_backing (jdrive j) b st")
  case False
  then have "st' = st" using assms(2) by (auto simp: worker_read_install_def split: if_splits)
  then show ?thesis using assms(1) by (simp add: sys_inv_def)
next
  case True
  have inv: "disk_inv None st" and t: "taken b (jdrive j) st" and
    l: "jlen j \<le> 8192" "disk_track_in_bounds (jtrack j) (of_nat (jlen j)) (b_size b)" and
    d: "take (jlen j) (s_stage st) = track_data b (jtrack j) (jlen j) st"
    using assms(1) True by (auto simp: sys_inv_def xfer_ok_def)
  have st': "st' = cache_fill (jdrive j) (jtrack j) (jlen j) (s_stage st) st"
    using assms(2) True by (simp add: worker_read_install_def)
  note sb = same_backing_taken[OF t conjunct2[OF True]]
  have pos: "0 < jlen j" using l(2) by (auto simp: track_in_bounds_iff intro: gr0I)
  have bl: "length (s_track_buf st) = 8192" "length (s_stage st) = 8192"
    using inv by (simp_all add: disk_inv_def disk_wf_def)
  have "disk_inv None st'"
    unfolding st' using bl l(1) by (intro disk_inv_cache_fill[OF inv sb(3,2,1) pos l _ d]) simp
  then show ?thesis using assms(1) by (simp add: sys_inv_def st' cache_fill_def)
qed

lemma step_write_io:
  assumes "sys_inv (st, WWriteIo b j)" "env_ok e" "worker_write_io e b j st = (err, st')"
  shows "sys_inv (st', WWriteDone b j err)"
proof -
  have inv: "disk_inv None st" and t: "taken b (jdrive j) st" and x: "xfer_ok b j" and
    l: "jlen j \<le> 8192" "disk_track_in_bounds (jtrack j) (of_nat (jlen j)) (b_size b)" "length (wdata j) = jlen j"
    using assms(1) by (auto simp: sys_inv_def xfer_ok_def)
  have r: "backing_write_at e b (disk_track_offset (jtrack j) (of_nat (jlen j))) (wdata j) (jlen j) st = (err, st')"
    using assms(3) by (simp add: worker_write_io_def)
  have sz: "unat (b_size b) \<le> length (files st (b_obj b))" using t by (simp add: taken_def)
  note w = wrote_backing[OF assms(2) _ l(1,2) sz r, unfolded l(3), OF le_refl]
  obtain f where f: "st' = st\<lparr>files := (files st)(b_obj b := f)\<rparr>" "length f = length (files st (b_obj b))"
    using w(2) by blast
  have pend: "\<forall>b'. backing_of (drv st (c_drive (s_cache st))) = Some b' \<longrightarrow>
      b_obj b' \<noteq> b_obj b \<or> is_net b' \<and> Some (b_id b) = Some (b_id b') \<and> (None = None \<or> None = Some (b_id b))"
    if "valid (s_cache st)"
  proof -
    have "nat (c_drive (s_cache st)) < 4" using inv that by (simp add: disk_inv_def cache_coh_def Let_def drive_ok_iff)
    then show ?thesis using t unfolding taken_def by blast
  qed
  have "disk_wf st'" by (rule disk_inv_files(1)[OF inv f(2,1)])
  moreover have "cache_coh (Some (b_id b)) st'"
    by (rule disk_inv_files(2)[OF inv f(2,1)]) (use pend in auto)
  moreover have "taken b (jdrive j) st'" using t by (rule taken_cong[rotated 3]) (simp_all add: f)
  moreover have "err = ESP_OK \<longrightarrow> wdata j = track_data b (jtrack j) (jlen j) st'"
    using w(1) l(3) by (simp add: wrote_def)
  ultimately show ?thesis using assms(1) x l(3) by (simp add: sys_inv_def disk_inv_def f(1))
qed

text \<open>Once the written backing is not the cached one any more, nothing is pending.\<close>

lemma cache_coh_settle:
  assumes "cache_coh (Some i) st"
    "\<And>b. valid (s_cache st) \<Longrightarrow> drive_ok (c_drive (s_cache st)) \<Longrightarrow> mounted (drv st (c_drive (s_cache st))) \<Longrightarrow>
      backing_of (drv st (c_drive (s_cache st))) = Some b \<Longrightarrow> b_id b \<noteq> i"
  shows "cache_coh None st"
  using assms by (auto simp: cache_coh_def Let_def)

lemma step_write_done:
  assumes "sys_inv (st, WWriteDone b j err)" "worker_write_install b j err st = (r, st')"
  shows "sys_inv (st', WIdle)"
proof -
  have inv: "disk_inv (Some (b_id b)) st" and t: "taken b (jdrive j) st" and
    l: "jlen j \<le> 8192" "disk_track_in_bounds (jtrack j) (of_nat (jlen j)) (b_size b)" "length (wdata j) = jlen j"
    and d: "err = ESP_OK \<Longrightarrow> wdata j = track_data b (jtrack j) (jlen j) st"
    using assms(1) by (auto simp: sys_inv_def xfer_ok_def)
  have only: "c = jdrive j" if "drive_ok c" "backing_of (drv st c) = Some b'" "b_id b' = b_id b" for c b'
    using t that unfolding taken_def by (metis drive_ok_iff drive_ok_nat_eq)
  consider (fill) "err = ESP_OK" "same_backing (jdrive j) b st"
    | (skip) "err = ESP_OK" "\<not> same_backing (jdrive j) b st" | (fail) "err \<noteq> ESP_OK" by blast
  then have "disk_inv None st'"
  proof cases
    case fill
    then have st': "st' = cache_fill (jdrive j) (jtrack j) (jlen j) (wdata j) st"
      using assms(2) by (simp add: worker_write_install_def)
    note sb = same_backing_taken[OF t fill(2)]
    have pos: "0 < jlen j" using l(2) by (auto simp: track_in_bounds_iff intro: gr0I)
    have bl: "length (s_track_buf st) = 8192" using inv by (simp add: disk_inv_def disk_wf_def)
    show ?thesis
      unfolding st' using l(3) d[OF fill(1)] by (intro disk_inv_cache_fill[OF inv sb(3,2,1) pos l(1,2)]) simp_all
  next
    case skip
    then have "st' = st" using assms(2) by (simp add: worker_write_install_def)
    moreover have "cache_coh None st"
      using inv unfolding disk_inv_def
      by (elim conjE) (erule cache_coh_settle, use only skip(2) in \<open>fastforce simp: same_backing_def\<close>)
    ultimately show ?thesis using inv by (simp add: disk_inv_def)
  next
    case fail
    then have st': "st' = cache_drop_drive (jdrive j) st" using assms(2) by (simp add: worker_write_install_def)
    have "cache_coh None st'"
    proof (rule cache_coh_settle)
      show "cache_coh (Some (b_id b)) st'" using inv unfolding st' by (simp add: disk_inv_def cache_coh_drop)
      fix b' assume v: "valid (s_cache st')" "drive_ok (c_drive (s_cache st'))"
        "backing_of (drv st' (c_drive (s_cache st'))) = Some b'"
      then have "c_drive (s_cache st') \<noteq> jdrive j" unfolding st' by (auto simp: cache_drop_drive_def split: if_splits)
      moreover have "s_drv st' = s_drv st" unfolding st' by simp
      then have "backing_of (drv st (c_drive (s_cache st'))) = Some b'" using v(3) by simp
      ultimately show "b_id b' \<noteq> b_id b" using only[OF v(2)] by blast
    qed
    then show ?thesis using inv by (simp add: disk_inv_def disk_wf_drop st')
  qed
  moreover have "s_rq st' = s_rq st"
    using assms(2) by (auto simp: worker_write_install_def cache_fill_def split: if_splits)
  ultimately show ?thesis using assms(1) by (simp add: sys_inv_def)
qed

lemma step_open:
  assumes "sys_inv (st, WOpening url j)" "worker_mount_open e url st = (Inr (b, rd), st')"
    "unat (b_size b) \<le> length (files st (b_obj b))"
  shows "sys_inv (st', WMounted b rd url j)"
proof -
  have inv: "disk_inv None st" using assms(1) by (simp add: sys_inv_def)
  have b: "b_id b = next_id st" "is_net b" "st' = st\<lparr>next_id := next_id st + 1\<rparr>"
    using assms(2) by (auto simp: worker_mount_open_def Let_def is_net_def split: sum.splits prod.splits if_splits)
  have "b_id b' \<noteq> b_id b" if "d' < 4" "backing_of (s_drv st ! d') = Some b'" for d' b'
    using disk_wf_id[OF inv that] b(1) by simp
  then show ?thesis
    using disk_inv_next_id[OF inv] assms(1,3) b by (simp add: sys_inv_def)
qed

lemma step_install:
  assumes "sys_inv (st, WMounted b rd url j)" "unshared st (jdrive j) (b_obj b)"
    "worker_mount_install b rd url j st = (r, st')"
  shows "sys_inv (st', WIdle)"
proof (cases "drive_ok (jdrive j) \<and> remote (drv st (jdrive j)) \<and> \<not> mounted (drv st (jdrive j)) \<and>
      dname (drv st (jdrive j)) = url")
  case False
  then have "st' = backing_close b st" using assms(3) by (auto simp: worker_mount_install_def)
  then show ?thesis
    using assms(1) disk_inv_same[of st "backing_close b st"]
    by (simp add: sys_inv_def backing_close_def same_store_def)
next
  case True
  let ?f = "slot_session b rd"
  have st': "st' = cache_drop_drive (jdrive j) (set_drv (jdrive j) ?f st)"
    using assms(3) True by (auto simp: worker_mount_install_def)
  have inv: "disk_inv None st" and b: "is_net b" "b_id b < next_id st"
    "unat (b_size b) \<le> length (files st (b_obj b))"
    "\<forall>d'<4. \<forall>b'. backing_of (s_drv st ! d') = Some b' \<longrightarrow> b_id b' \<noteq> b_id b"
    using assms(1) by (auto simp: sys_inv_def)
  have "slot_wf st (nat (jdrive j)) (?f (drv st (jdrive j)))"
    using b assms(2) True by (auto simp: slot_wf_def slot_session_def unshared_def)
  with inv have "disk_inv None st'" unfolding st' using True by (intro disk_inv_slot) auto
  then show ?thesis using assms(1) by (simp add: sys_inv_def st')
qed

lemma dstep_inv:
  assumes "dstep p p'" "sys_inv p"
  shows "sys_inv p'"
  using assms
proof (induction rule: dstep.induct)
  case (t_read e st d t len dst err w st' ph)
  then show ?case using env_read by blast
next
  case (t_write e st d data len t err st' ph)
  then show ?case using env_write by blast
next
  case (post j room st err st' ph)
  have s: "same_store st st'" using same_store_post[of st room "Some j"] post by simp
  have "rq_wf st" using post by (simp add: sys_inv_def rq_wf_def)
  then have "rq_wf st'" using rq_wf_post[OF post(1), of st room] post by simp
  with post(4) s show ?case
    using disk_inv_same[OF s] by (intro env_step_inv[of st ph st']) (auto simp: env_frame_same sys_inv_def)
next
  case (unmount e d st err st' ph)
  then show ?case
    using env_swap[of st ph d slot_empty e]
    by (auto simp: disk_unmount_def slot_empty_def split: if_splits)
next
  case (mount_local d e name st b st1 ph cn)
  then show ?case using env_mount_local by blast
next
  case (mount_remote d st ph e url)
  then show ?case by (intro env_swap) (simp_all add: slot_remote_def)
next
  case (net_down d st ph e)
  then show ?case by (intro env_swap) (simp_all add: slot_down_def)
next
  case (w_refuse st j q)
  then show ?case by (simp add: sys_inv_def disk_inv_rq)
next
  case (w_read st j q b)
  then have "jlen j \<le> 8192" by (auto simp: sys_inv_def job_wf_def)
  with w_read show ?case
    using worker_check_taken[of None st False j b]
    by (auto simp: sys_inv_def disk_inv_rq taken_def)
next
  case (w_read_io e b j st err st')
  then show ?case using step_read_io by blast
next
  case (w_read_done b j err st r st')
  then show ?case using step_read_done by blast
next
  case (w_write st j q b)
  then have "jlen j \<le> 8192" "length (wdata j) = jlen j" by (auto simp: sys_inv_def job_wf_def)
  with w_write show ?case
    using worker_check_taken[of None st True j b]
    by (auto simp: sys_inv_def disk_inv_rq taken_def)
next
  case (w_write_io e b j st err st')
  then show ?case using step_write_io by blast
next
  case (w_write_done b j err st r st')
  then show ?case using step_write_done by blast
next
  case (w_mount st j q url)
  then show ?case by (simp add: sys_inv_def disk_inv_rq)
next
  case (w_open_fail e url st err st' j)
  then have "st' = st"
    by (auto simp: worker_mount_open_def Let_def split: sum.splits prod.splits if_splits)
  then show ?case using w_open_fail by (simp add: sys_inv_def)
next
  case (w_open e url st b rd st' j)
  then show ?case using step_open by blast
next
  case (w_install st j b rd url r st')
  then show ?case using step_install by blast
next
  case (w_close st j q b)
  have "disk_inv None st" using w_close by (simp add: sys_inv_def)
  then have "disk_inv None (backing_close b (st\<lparr>s_rq := Some q\<rparr>))"
    using disk_inv_same[of st "backing_close b (st\<lparr>s_rq := Some q\<rparr>)"]
    by (simp add: same_store_def backing_close_def)
  then show ?case using w_close by (simp add: sys_inv_def backing_close_def)
qed

lemma disk_boot_inv: "sys_inv (disk_boot fs, WIdle)"
  by (simp add: sys_inv_def disk_boot_def disk_inv_def disk_wf_def cache_coh_def slot_wf_def empty_drive_def)

lemma disk_reach_inv: "disk_reach p \<Longrightarrow> sys_inv p"
  by (induction rule: disk_reach.induct) (auto intro: disk_boot_inv dstep_inv)

section \<open>Who owns a backing\<close>

text \<open>
  A backing is in the table, or in a close job, or held by the worker that just opened it,
  or closed (or it was leaked when the close job could not be posted); never in two places.
\<close>

fun phase_ids :: "wphase \<Rightarrow> nat list" where
  "phase_ids (WMounted b rd url j) = [b_id b]"
| "phase_ids _ = []"

fun in_use :: "wphase \<Rightarrow> nat list" where
  "in_use (WReadIo b j) = [b_id b]"
| "in_use (WWriteIo b j) = [b_id b]"
| "in_use _ = []"

definition close_ids :: "disk_state \<Rightarrow> nat list" where
  "close_ids st = (case s_rq st of None \<Rightarrow> [] | Some q \<Rightarrow>
     concat (map (\<lambda>j. case bclose j of None \<Rightarrow> [] | Some b \<Rightarrow> [b_id b]) q))"

definition off_table :: "disk_state \<times> wphase \<Rightarrow> nat list" where
  "off_table p = phase_ids (snd p) @ close_ids (fst p) @ map b_id (closed (fst p))"

definition own_inv :: "disk_state \<times> wphase \<Rightarrow> bool" where
  "own_inv p \<longleftrightarrow> distinct (off_table p) \<and> (\<forall>i \<in> set (off_table p). i < next_id (fst p)) \<and>
     (\<forall>d<4. \<forall>b. backing_of (s_drv (fst p) ! d) = Some b \<longrightarrow>
        b_id b \<notin> set (off_table p) \<and> mounted (s_drv (fst p) ! d)) \<and>
     (\<forall>i \<in> set (in_use (snd p)). i \<notin> set (map b_id (closed (fst p))))"

lemma off_table_cong:
  "s_rq st' = s_rq st \<Longrightarrow> closed st' = closed st \<Longrightarrow> off_table (st', ph) = off_table (st, ph)"
  by (simp add: off_table_def close_ids_def)

lemma close_ids_snoc:
  "s_rq st = Some q \<Longrightarrow> close_ids (st\<lparr>s_rq := Some (q @ [j])\<rparr>) =
    close_ids st @ (case bclose j of None \<Rightarrow> [] | Some b \<Rightarrow> [b_id b])"
  by (simp add: close_ids_def)

definition close_job :: "backing \<Rightarrow> rjob" where
  "close_job b = \<lparr>jtype = RJOB_CLOSE, jdrive = -1, jtrack = 0, jlen = 0, wdata = [], bclose = Some b\<rparr>"

lemma dispose_cases:
  "backing_dispose a room old rem st = st \<or>
   (\<exists>b. old = Some b \<and> \<not> rem \<and> backing_dispose a room old rem st = backing_close b st) \<or>
   (\<exists>b q. old = Some b \<and> s_rq st = Some q \<and>
      backing_dispose a room old rem st = st\<lparr>s_rq := Some (q @ [close_job b])\<rparr>)"
  by (cases old; cases rem; cases a; cases room; cases "s_rq st")
    (simp_all add: backing_dispose_def rjob_post_async_def rjob_new_def close_job_def)

lemma own_dispose:
  assumes d: "distinct (off_table (st, ph))" "\<forall>i \<in> set (off_table (st, ph)). i < next_id st"
    and t: "\<forall>d<4. \<forall>b. backing_of (s_drv st ! d) = Some b \<longrightarrow>
      b_id b \<notin> set (off_table (st, ph)) \<and> mounted (s_drv st ! d) \<and> (\<forall>x. old = Some x \<longrightarrow> b_id b \<noteq> b_id x)"
    and x: "\<forall>x. old = Some x \<longrightarrow> b_id x \<notin> set (off_table (st, ph)) \<and> b_id x < next_id st \<and>
      (\<not> rem \<longrightarrow> b_id x \<notin> set (in_use ph))"
    and u: "\<forall>i \<in> set (in_use ph). i \<notin> set (map b_id (closed st))"
  shows "own_inv (backing_dispose a room old rem st, ph)"
proof -
  let ?st = "backing_dispose a room old rem st"
  consider "?st = st" | b where "old = Some b" "\<not> rem" "?st = backing_close b st"
    | b q where "old = Some b" "s_rq st = Some q" "?st = st\<lparr>s_rq := Some (q @ [close_job b])\<rparr>"
    using dispose_cases[of a room old rem st] by blast
  then show ?thesis
  proof cases
    case 1
    then show ?thesis using d t u by (simp add: own_inv_def)
  next
    case 2
    then show ?thesis using d t x u
      by (auto simp: own_inv_def off_table_def close_ids_def backing_close_def)
  next
    case 3
    then show ?thesis using d t x u
      unfolding own_inv_def off_table_def by (auto simp: close_ids_snoc close_job_def)
  qed
qed

lemma own_swap:
  assumes inv: "disk_inv pend st" and own: "own_inv (st, ph)" and d: "drive_ok d"
    and f: "\<And>b. backing_of (f (drv st d)) = Some b \<Longrightarrow> mounted (f (drv st d)) \<and>
      b_id b \<notin> set (off_table (st, ph)) \<and> (\<forall>d'<4. \<forall>b'. backing_of (s_drv st ! d') = Some b' \<longrightarrow> b_id b' \<noteq> b_id b)"
    and u: "\<And>b. backing_of (drv st d) = Some b \<Longrightarrow> \<not> remote (drv st d) \<Longrightarrow> b_id b \<notin> set (in_use ph)"
  shows "own_inv (slot_swap e d f st, ph)"
proof -
  let ?st = "cache_drop_drive d (set_drv d f st)"
  have n: "nat d < 4" using d by (simp add: drive_ok_iff)
  have off: "off_table (?st, ph) = off_table (st, ph)" by (rule off_table_cong) simp_all
  note nth = set_drv_nth[OF disk_inv_len[OF inv] d]
  have tab: "b_id b \<notin> set (off_table (st, ph)) \<and> mounted (s_drv ?st ! d') \<and>
      (\<forall>x. backing_of (drv st d) = Some x \<longrightarrow> b_id b \<noteq> b_id x)"
    if dd: "d' < 4" "backing_of (s_drv ?st ! d') = Some b" for d' b
  proof (cases "d' = nat d")
    case True
    then have "backing_of (f (drv st d)) = Some b" using dd by (simp add: nth)
    note fb = f[OF this]
    have "s_drv ?st ! d' = f (drv st d)" using True n by (simp add: nth)
    then show ?thesis using fb n by metis
  next
    case False
    then have o: "s_drv ?st ! d' = s_drv st ! d'" using dd(1) by (simp add: nth)
    have "b_id b \<noteq> b_id x" if "backing_of (drv st d) = Some x" for x
      using disk_inv_apart(2)[OF inv d that, of "int d'" b] dd False o by (auto simp: drive_ok_iff)
    then show ?thesis using own dd o by (auto simp: own_inv_def)
  qed
  show ?thesis unfolding slot_swap_def
    by (rule own_dispose)
      (use own off tab u n disk_wf_id[OF inv n] in \<open>auto simp: own_inv_def\<close>)
qed

lemma own_same:
  assumes "own_inv (st, ph)" "s_drv st' = s_drv st" "s_rq st' = s_rq st" "closed st' = closed st"
    "next_id st' = next_id st"
  shows "own_inv (st', ph)"
  using assms off_table_cong[of st' st ph] by (simp add: own_inv_def)

lemma own_fetch:
  assumes own: "own_inv (st, WIdle)" and q: "s_rq st = Some (j # q)" "bclose j = None" and p: "phase_ids ph = []"
    and u: "\<forall>i \<in> set (in_use ph). \<exists>d<4. \<exists>b. backing_of (s_drv st ! d) = Some b \<and> b_id b = i"
  shows "own_inv (st\<lparr>s_rq := Some q\<rparr>, ph)"
proof -
  let ?st = "st\<lparr>s_rq := Some q\<rparr>"
  have off: "off_table (?st, ph) = off_table (st, WIdle)"
    using q p by (simp add: off_table_def close_ids_def)
  have c: "set (map b_id (closed ?st)) \<subseteq> set (off_table (st, WIdle))"
    by (simp add: off_table_def)
  have tab: "b_id b \<notin> set (off_table (st, WIdle))" if "d < 4" "backing_of (s_drv st ! d) = Some b" for d b
    using own that by (simp add: own_inv_def)
  have "\<forall>i \<in> set (in_use ph). i \<notin> set (off_table (st, WIdle))"
  proof
    fix i assume "i \<in> set (in_use ph)"
    then obtain d b where "d < 4" "backing_of (s_drv st ! d) = Some b" "b_id b = i" using u by blast
    then show "i \<notin> set (off_table (st, WIdle))" using tab by blast
  qed
  with c have n: "\<forall>i \<in> set (in_use ph). i \<notin> set (map b_id (closed ?st))" by blast
  have e: "s_drv ?st = s_drv st" "next_id ?st = next_id st" by simp_all
  show ?thesis
    using own n unfolding own_inv_def fst_conv snd_conv off e by blast
qed

lemma worker_check_slot:
  "worker_check wr j st = Some b \<Longrightarrow> \<exists>d<4. backing_of (s_drv st ! d) = Some b"
  by (auto simp: worker_check_def drive_ok_iff split: if_splits option.splits)

text \<open>A local backing is not the one the worker is using.\<close>

lemma local_not_in_use:
  assumes "sys_inv (st, ph)" "own_inv (st, ph)" "drive_ok d" "backing_of (drv st d) = Some b"
    "\<not> remote (drv st d)"
  shows "b_id b \<notin> set (in_use ph)"
proof -
  have n: "nat d < 4" using assms(3) by (simp add: drive_ok_iff)
  have m: "mounted (drv st d)" using assms(2,4) n by (auto simp: own_inv_def)
  have inv: "disk_inv (pend_of ph) st" using assms(1) by (simp add: sys_inv_def)
  have "\<not> is_net b" using disk_inv_slotD(2)[OF inv assms(3) m assms(4)] assms(5) by simp
  moreover have "is_net b" if "taken c d' st" "b_id c = b_id b" for c d'
    using that assms(4) n unfolding taken_def by metis
  ultimately have free: "b_id c \<noteq> b_id b" if "taken c d' st" for c d' using that by blast
  show ?thesis using assms(1)
  proof (cases ph)
    case (WReadIo c j)
    then have "taken c (jdrive j) st" using assms(1) by (simp add: sys_inv_def)
    then show ?thesis using free unfolding WReadIo by force
  next
    case (WWriteIo c j)
    then have "taken c (jdrive j) st" using assms(1) by (simp add: sys_inv_def)
    then show ?thesis using free unfolding WWriteIo by force
  qed simp_all
qed

lemma own_post:
  assumes "own_inv (st, ph)" "jtype j \<noteq> RJOB_CLOSE" "job_wf j" "rjob_post_async room (Some j) st = (err, st')"
  shows "own_inv (st', ph)"
proof -
  have b: "bclose j = None" using assms(2,3) by (simp add: job_wf_def)
  have "off_table (st', ph) = off_table (st, ph)"
    using assms(4) b by (auto simp: rjob_post_async_def off_table_def close_ids_def split: option.splits if_splits)
  moreover have "s_drv st' = s_drv st" "closed st' = closed st" "next_id st' = next_id st"
    using assms(4) by (auto simp: rjob_post_async_def split: option.splits if_splits)
  ultimately show ?thesis using assms(1) by (simp add: own_inv_def)
qed

lemma own_phase:
  assumes "own_inv (st, ph)" "phase_ids ph' = phase_ids ph" "set (in_use ph') \<subseteq> set (in_use ph)"
  shows "own_inv (st, ph')"
  using assms by (auto simp: own_inv_def off_table_def)

lemma own_install:
  assumes own: "own_inv (st, WMounted b rd url j)" and sys: "sys_inv (st, WMounted b rd url j)"
    and i: "worker_mount_install b rd url j st = (r, st')"
  shows "own_inv (st', WIdle)"
proof -
  have len: "length (s_drv st) = 4" using sys disk_inv_len by (auto simp: sys_inv_def)
  consider "st' = backing_close b st"
    | "drive_ok (jdrive j)" "st' = cache_drop_drive (jdrive j) (set_drv (jdrive j) (slot_session b rd) st)"
    using i by (auto simp: worker_mount_install_def split: if_splits)
  then show ?thesis
  proof cases
    case 1
    then show ?thesis using own by (auto simp: own_inv_def off_table_def close_ids_def backing_close_def)
  next
    case 2
    have off: "off_table (st', WIdle) = close_ids st @ map b_id (closed st)"
      using 2(2) by (simp add: off_table_def close_ids_def)
    have tab: "b_id x \<notin> set (close_ids st @ map b_id (closed st)) \<and> mounted (s_drv st' ! d)"
      if "d < 4" "backing_of (s_drv st' ! d) = Some x" for d x
      using own that unfolding 2(2) own_inv_def off_table_def
      by (cases "d = nat (jdrive j)") (auto simp: set_drv_nth[OF len 2(1)] slot_session_def)
    show ?thesis
      using own tab unfolding own_inv_def fst_conv snd_conv off
      by (simp add: off_table_def 2(2))
  qed
qed

lemma dstep_own:
  assumes "dstep p p'" "sys_inv p" "own_inv p"
  shows "own_inv p'"
  using assms
proof (induction rule: dstep.induct)
  case (t_read e st d t len dst err w st' ph)
  then have "disk_inv (pend_of ph) st" by (simp add: sys_inv_def)
  from disk_read_local[OF t_read(1) this t_read(2,3)] disk_read_rest[OF t_read(2,3)] t_read(5)
  show ?case by (intro own_same[of st ph st']) simp_all
next
  case (t_write e st d data len t err st' ph)
  then have "disk_inv (pend_of ph) st" by (simp add: sys_inv_def)
  from disk_write_local[OF t_write(1) this t_write(2,4,3)] disk_write_rest[OF t_write(2,4)] t_write(6)
  show ?case by (intro own_same[of st ph st']) simp_all
next
  case (post j room st err st' ph)
  then show ?case using own_post by blast
next
  case (unmount e d st err st' ph)
  show ?case
  proof (cases "drive_ok d")
    case True
    have st': "st' = slot_swap e d slot_empty st" using unmount(1) True by (simp add: disk_unmount_def)
    show ?thesis unfolding st'
      using unmount(2,3) True local_not_in_use[OF unmount(2,3) True]
      by (intro own_swap[of "pend_of ph"]) (simp_all add: sys_inv_def slot_empty_def)
  next
    case False
    then show ?thesis using unmount by (simp add: disk_unmount_def)
  qed
next
  case (mount_local d e name st b st1 ph cn)
  note o = local_open_ok[OF mount_local(2)]
  have inv: "disk_inv (pend_of ph) st" using mount_local(4) by (simp add: sys_inv_def)
  have off: "off_table (st1, ph) = off_table (st, ph)" unfolding o(4) by (rule off_table_cong) simp_all
  have own1: "own_inv (st1, ph)"
    using mount_local(5) unfolding own_inv_def fst_conv snd_conv off by (auto simp: o(4))
  have new: "b_id b \<notin> set (off_table (st1, ph))"
    using mount_local(5) unfolding off o(1) own_inv_def by auto
  have ids: "\<forall>d'<4. \<forall>b'. backing_of (s_drv st1 ! d') = Some b' \<longrightarrow> b_id b' \<noteq> b_id b"
    using disk_wf_id[OF inv] unfolding o(1,4) by fastforce
  have "disk_inv (pend_of ph) st1" unfolding o(4) by (rule disk_inv_next_id[OF inv])
  then show ?case
  proof (rule own_swap[OF _ own1 mount_local(1)])
    fix x assume "backing_of (slot_local b name cn (drv st1 d)) = Some x"
    then show "mounted (slot_local b name cn (drv st1 d)) \<and> b_id x \<notin> set (off_table (st1, ph)) \<and>
        (\<forall>d'<4. \<forall>b'. backing_of (s_drv st1 ! d') = Some b' \<longrightarrow> b_id b' \<noteq> b_id x)"
      using new ids by (simp add: slot_local_def)
  next
    fix x assume "backing_of (drv st1 d) = Some x" "\<not> remote (drv st1 d)"
    then show "b_id x \<notin> set (in_use ph)"
      using local_not_in_use[OF mount_local(4,5,1), of x] by (simp add: o(4))
  qed
next
  case (mount_remote d st ph e url)
  then show ?case
    using local_not_in_use[OF mount_remote(2,3,1)]
    by (intro own_swap[of "pend_of ph"]) (simp_all add: sys_inv_def slot_remote_def)
next
  case (net_down d st ph e)
  then show ?case
    by (intro own_swap[of "pend_of ph"]) (simp_all add: sys_inv_def slot_down_def)
next
  case (w_refuse st j q)
  then have "bclose j = None" by (auto simp: sys_inv_def job_wf_def)
  then show ?case using own_fetch[OF w_refuse(4,1)] by simp
next
  case (w_read st j q b)
  then have "bclose j = None" by (auto simp: sys_inv_def job_wf_def)
  with worker_check_slot[OF w_read(3)] show ?case by (intro own_fetch[OF w_read(5,1)]) auto
next
  case (w_read_io e b j st err st')
  then have "s_drv st' = s_drv st" "s_rq st' = s_rq st" "closed st' = closed st" "next_id st' = next_id st"
    by (auto simp: worker_read_io_def Let_def)
  then have "own_inv (st', WReadIo b j)" by (rule own_same[OF w_read_io(4)])
  then show ?case by (rule own_phase) simp_all
next
  case (w_read_done b j err st r st')
  then have "own_inv (st', WReadDone b j err)"
    by (intro own_same[of st _ st']) (auto simp: worker_read_install_def cache_fill_def split: if_splits)
  then show ?case by (rule own_phase) simp_all
next
  case (w_write st j q b)
  then have "bclose j = None" by (auto simp: sys_inv_def job_wf_def)
  with worker_check_slot[OF w_write(3)] show ?case by (intro own_fetch[OF w_write(5,1)]) auto
next
  case (w_write_io e b j st err st')
  then have "own_inv (st', WWriteIo b j)"
    by (intro own_same[of st _ st']) (auto simp: worker_write_io_def backing_write_at_def Let_def)
  then show ?case by (rule own_phase) simp_all
next
  case (w_write_done b j err st r st')
  then have "own_inv (st', WWriteDone b j err)"
    by (intro own_same[of st _ st']) (auto simp: worker_write_install_def cache_fill_def split: if_splits)
  then show ?case by (rule own_phase) simp_all
next
  case (w_mount st j q url)
  then have "bclose j = None" by (auto simp: sys_inv_def job_wf_def)
  then show ?case using own_fetch[OF w_mount(5,1)] by simp
next
  case (w_open_fail e url st err st' j)
  then have "st' = st"
    by (auto simp: worker_mount_open_def Let_def split: sum.splits prod.splits if_splits)
  then show ?case using w_open_fail(3) own_phase[of st "WOpening url j" WIdle] by simp
next
  case (w_open e url st b rd st' j)
  have b: "b_id b = next_id st" "st' = st\<lparr>next_id := next_id st + 1\<rparr>"
    using w_open(1) by (auto simp: worker_mount_open_def Let_def split: sum.splits prod.splits if_splits)
  have inv: "disk_inv None st" using w_open(3) by (simp add: sys_inv_def)
  have off: "off_table (st', WMounted b rd url j) = next_id st # off_table (st, WOpening url j)"
    unfolding b(2) by (simp add: off_table_def close_ids_def b(1))
  show ?case
    using w_open(4) disk_wf_id[OF inv] unfolding own_inv_def fst_conv snd_conv off
    by (fastforce simp: b(2))
next
  case (w_install st j b rd url r st')
  then show ?case using own_install by blast
next
  case (w_close st j q b)
  have "off_table (st, WIdle) = b_id b # close_ids (st\<lparr>s_rq := Some q\<rparr>) @ map b_id (closed st)"
    using w_close(1,2) by (simp add: off_table_def close_ids_def)
  then show ?case
    using w_close(4) by (auto simp: own_inv_def off_table_def backing_close_def close_ids_def)
qed

lemma disk_boot_own: "own_inv (disk_boot fs, WIdle)"
  by (simp add: own_inv_def disk_boot_def off_table_def close_ids_def empty_drive_def)

lemma disk_reach_own: "disk_reach p \<Longrightarrow> own_inv p"
  by (induction rule: disk_reach.induct) (use disk_boot_own dstep_own disk_reach_inv in blast)+

section \<open>Properties\<close>

lemma demo_disk_reach: "disk_reach (demo_disk, WIdle)"
proof -
  have "dstep (disk_boot demo_files, WIdle) (demo_disk, WIdle)"
    unfolding demo_disk_eq
    by (rule mount_local[OF _ demo_open]) (simp_all add: drive_ok_def unshared_def disk_boot_def empty_drive_def)
  then show ?thesis by (rule disk_reach.step[OF disk_reach.boot])
qed



text \<open>
  C11. A backing has one owner: in every reachable state no backing has been closed twice,
  the drives' backings are distinct and none of them is closed, and the session the worker
  is transferring on is not closed, even if its drive was unmounted meanwhile.
\<close>

theorem backing_single_owner:
  assumes "disk_reach (st, ph)"
  shows "distinct (map b_id (closed st)) \<and>
    (\<forall>d<4. \<forall>b. backing_of (s_drv st ! d) = Some b \<longrightarrow> b_id b \<notin> set (map b_id (closed st)) \<and>
       (\<forall>d'<4. d' \<noteq> d \<longrightarrow> (\<forall>b'. backing_of (s_drv st ! d') = Some b' \<longrightarrow> b_id b' \<noteq> b_id b \<and> b_obj b' \<noteq> b_obj b))) \<and>
    (\<forall>i \<in> set (in_use ph). i \<notin> set (map b_id (closed st)))"
proof -
  have own: "own_inv (st, ph)" by (rule disk_reach_own[OF assms])
  have inv: "disk_inv (pend_of ph) st" using disk_reach_inv[OF assms] by (simp add: sys_inv_def)
  have "b_id b' \<noteq> b_id b \<and> b_obj b' \<noteq> b_obj b"
    if "d < 4" "backing_of (s_drv st ! d) = Some b" "d' < 4" "d' \<noteq> d" "backing_of (s_drv st ! d') = Some b'" for d b d' b'
    using disk_inv_apart[OF inv, of "int d" b "int d'" b'] that by (simp add: drive_ok_def)
  then show ?thesis using own by (auto simp: own_inv_def off_table_def)
qed

theorem backing_single_owner_witness:
  "closed (snd (disk_unmount demo_env 1 demo_disk)) = [demo_backing] \<and>
   distinct (map b_id (closed (snd (disk_unmount demo_env 1 demo_disk))))"
proof -
  have "dstep (demo_disk, WIdle) (snd (disk_unmount demo_env 1 demo_disk), WIdle)"
    by (rule unmount[of demo_env 1]) (rule prod.collapse[symmetric])
  from backing_single_owner[OF disk_reach.step[OF demo_disk_reach this]]
  have "distinct (map b_id (closed (snd (disk_unmount demo_env 1 demo_disk))))" by simp
  moreover have "closed demo_disk = []"
    unfolding demo_disk_eq by (simp add: slot_swap_def disk_boot_def backing_dispose_def empty_drive_def)
  then have "closed (snd (disk_unmount demo_env 1 demo_disk)) = [demo_backing]"
    using demo_disk_facts(2) by (simp add: disk_unmount_def drive_ok_def slot_swap_def slot_local_def
        backing_dispose_def backing_close_def empty_drive_def)
  ultimately show ?thesis by simp
qed

end
