(* ===== verification/RemoteJobs.thy ===== *)
theory RemoteJobs
  imports DiskStore
begin

text \<open>
  Who owns a remote job of \<^verbatim>\<open>src/disk/disk.c\<close>, and for how long. \<open>DiskStore\<close> has the posting
  functions as one call each; here \<open>rjob_post_async\<close>, \<open>rjob_post_wait\<close>, \<open>rjob_complete\<close> and
  \<open>rjob_free\<close> are taken apart at every access to the job, the queue, its semaphore and
  \<^verbatim>\<open>s_job_mtx\<close>, and any number of posting tasks run in any order with the worker. Jobs live
  at addresses that the allocator uses again; an access to a job that is not allocated, or a
  second \<^verbatim>\<open>free\<close>, is the result \<open>Fault\<close>. The invariant says which task holds which pointer;
  the property: no interleaving faults, and nothing is leaked.
\<close>

section \<open>The jobs and the tasks\<close>

text \<open>\<open>j_done\<close> is the semaphore: \<open>None\<close> for NULL, else whether it is given.\<close>

record job_obj = rjob +
  j_result :: esp_err
  j_completed :: bool
  j_abandoned :: bool
  j_done :: "bool option"

definition job_calloc :: "rjob \<Rightarrow> job_obj" where
  "job_calloc p =
     \<lparr>jtype = jtype p, jdrive = jdrive p, jtrack = jtrack p, jlen = jlen p, wdata = wdata p, bclose = bclose p,
      j_result = ESP_OK, j_completed = False, j_abandoned = False, j_done = None\<rparr>"

text \<open>
  Where a posting task is: outside; with a new job, to be waited for or not; with its
  semaphore made; waiting; timed out; inside the mutex with the job completed or given up;
  about to free it.
\<close>

datatype poster_pc =
    PIdle | PMade bool nat | PSend nat | PWait nat | PLate nat | PHave nat esp_err | PGone | PFree nat esp_err

text \<open>
  Where the worker is: waiting for a job; in its body; in \<open>rjob_complete\<close> before the mutex;
  inside it, with a job to free, or one to signal, or signalled; about to free.
\<close>

datatype worker_pc = WIdle | WRun nat | WDone nat esp_err | WDrop nat | WFree nat | WGive nat | WGave

datatype job_task = Poster nat | Worker

record job_sys =
  jb_heap :: "nat \<rightharpoonup> job_obj"
  jb_rq :: "nat list option"
  jb_mtx :: "job_task option"
  jb_post :: "nat \<Rightarrow> poster_pc"
  jb_work :: worker_pc
  jb_ret :: "nat \<Rightarrow> esp_err"

datatype job_res = Fault | Blocked | Next job_sys

section \<open>The steps\<close>

abbreviation (input) REMOTE_QUEUE_LEN :: nat where "REMOTE_QUEUE_LEN \<equiv> 12"

definition with_job :: "nat \<Rightarrow> job_sys \<Rightarrow> (job_obj \<Rightarrow> job_res) \<Rightarrow> job_res" where
  "with_job j s f = (case jb_heap s j of None \<Rightarrow> Fault | Some ob \<Rightarrow> f ob)"

definition put_job :: "nat \<Rightarrow> job_obj \<Rightarrow> job_sys \<Rightarrow> job_sys" where
  "put_job j ob s = s\<lparr>jb_heap := (jb_heap s)(j \<mapsto> ob)\<rparr>"

definition poster_at :: "nat \<Rightarrow> poster_pc \<Rightarrow> job_sys \<Rightarrow> job_sys" where
  "poster_at t pc s = s\<lparr>jb_post := (jb_post s)(t := pc)\<rparr>"

definition poster_ret :: "nat \<Rightarrow> esp_err \<Rightarrow> job_sys \<Rightarrow> job_sys" where
  "poster_ret t r s = s\<lparr>jb_post := (jb_post s)(t := PIdle), jb_ret := (jb_ret s)(t := r)\<rparr>"

definition job_free :: "nat \<Rightarrow> job_sys \<Rightarrow> (job_sys \<Rightarrow> job_sys) \<Rightarrow> job_res" where
  "job_free j s k = with_job j s (\<lambda>ob. Next (k (s\<lparr>jb_heap := (jb_heap s)(j := None)\<rparr>)))"

text \<open>
  \<open>rjob_new\<close> or \<open>rjob_new_io\<close> and the call of a posting function with what it returned; \<open>w\<close>
  says whether it is \<open>rjob_post_wait\<close>. The allocator returns an address not in use, or none.
\<close>

definition job_begin :: "nat \<Rightarrow> bool \<Rightarrow> nat option \<Rightarrow> rjob \<Rightarrow> job_sys \<Rightarrow> job_res" where
  "job_begin t w a p s =
     (if jb_post s t \<noteq> PIdle then Blocked
      else case a of
             None \<Rightarrow> Next (poster_ret t ESP_ERR_NO_MEM s)
           | Some j \<Rightarrow> if jb_heap s j \<noteq> None then Blocked
                       else Next (poster_at t (PMade w j) (put_job j (job_calloc p) s)))"

text \<open>\<^verbatim>\<open>xQueueSend\<close>; when the queue is full it waits, until \<open>late\<close>.\<close>

definition job_send :: "nat \<Rightarrow> nat \<Rightarrow> bool \<Rightarrow> (job_sys \<Rightarrow> job_sys) \<Rightarrow> job_sys \<Rightarrow> job_res" where
  "job_send t j late k s =
     (case jb_rq s of
        None \<Rightarrow> Fault
      | Some q \<Rightarrow> if length q < REMOTE_QUEUE_LEN then Next (k (s\<lparr>jb_rq := Some (q @ [j])\<rparr>))
                  else if late then job_free j s (poster_ret t ESP_ERR_TIMEOUT)
                  else Blocked)"

text \<open>
  The next step of a posting task. \<open>ch\<close> is what the step depends on outside: the semaphore
  could not be made, or the wait's time is over.
\<close>

definition poster_step :: "nat \<Rightarrow> bool \<Rightarrow> job_sys \<Rightarrow> job_res" where
  "poster_step t ch s =
     (case jb_post s t of
        PIdle \<Rightarrow> Blocked
      | PMade w j \<Rightarrow>
          if jb_rq s = None then job_free j s (poster_ret t ESP_ERR_INVALID_STATE)
          else if \<not> w then job_send t j ch (poster_ret t ESP_OK) s
          else if ch then job_free j s (poster_ret t ESP_ERR_NO_MEM)
          else with_job j s (\<lambda>ob. Next (poster_at t (PSend j) (put_job j (ob\<lparr>j_done := Some False\<rparr>) s)))
      | PSend j \<Rightarrow> job_send t j ch (poster_at t (PWait j)) s
      | PWait j \<Rightarrow>
          with_job j s (\<lambda>ob.
            case j_done ob of
              None \<Rightarrow> Fault
            | Some given \<Rightarrow>
                if given then Next (poster_at t (PFree j (j_result ob)) (put_job j (ob\<lparr>j_done := Some False\<rparr>) s))
                else if ch then Next (poster_at t (PLate j) s)
                else Blocked)
      | PLate j \<Rightarrow>
          if jb_mtx s \<noteq> None then Blocked
          else let s = s\<lparr>jb_mtx := Some (Poster t)\<rparr>
               in with_job j s (\<lambda>ob.
                    if j_completed ob then Next (poster_at t (PHave j (j_result ob)) s)
                    else Next (poster_at t PGone (put_job j (ob\<lparr>j_abandoned := True\<rparr>) s)))
      | PHave j r \<Rightarrow> Next (poster_at t (PFree j r) (s\<lparr>jb_mtx := None\<rparr>))
      | PGone \<Rightarrow> Next (poster_ret t ESP_ERR_TIMEOUT (s\<lparr>jb_mtx := None\<rparr>))
      | PFree j r \<Rightarrow> job_free j s (poster_ret t r))"

text \<open>The next step of the worker; \<open>r\<close> is the result its body comes to.\<close>

definition worker_step :: "esp_err \<Rightarrow> job_sys \<Rightarrow> job_res" where
  "worker_step r s =
     (case jb_work s of
        WIdle \<Rightarrow>
          (case jb_rq s of
             Some (j # q) \<Rightarrow> with_job j s (\<lambda>ob. Next (s\<lparr>jb_rq := Some q, jb_work := WRun j\<rparr>))
           | _ \<Rightarrow> Blocked)
      | WRun j \<Rightarrow> with_job j s (\<lambda>ob. Next (s\<lparr>jb_work := WDone j r\<rparr>))
      | WDone j res \<Rightarrow>
          if jb_mtx s \<noteq> None then Blocked
          else let s = s\<lparr>jb_mtx := Some Worker\<rparr>
               in with_job j s (\<lambda>ob.
                    if j_abandoned ob \<or> j_done ob = None then Next (s\<lparr>jb_work := WDrop j\<rparr>)
                    else Next ((put_job j (ob\<lparr>j_result := res, j_completed := True\<rparr>) s)\<lparr>jb_work := WGive j\<rparr>))
      | WDrop j \<Rightarrow> Next (s\<lparr>jb_mtx := None, jb_work := WFree j\<rparr>)
      | WFree j \<Rightarrow> job_free j s (\<lambda>s. s\<lparr>jb_work := WIdle\<rparr>)
      | WGive j \<Rightarrow>
          with_job j s (\<lambda>ob.
            if j_done ob = None then Fault
            else Next ((put_job j (ob\<lparr>j_done := Some True\<rparr>) s)\<lparr>jb_work := WGave\<rparr>))
      | WGave \<Rightarrow> Next (s\<lparr>jb_mtx := None, jb_work := WIdle\<rparr>))"

datatype job_act = JBegin nat bool "nat option" rjob | JPost nat bool | JWork esp_err

fun job_step :: "job_act \<Rightarrow> job_sys \<Rightarrow> job_res" where
  "job_step (JBegin t w a p) s = job_begin t w a p s"
| "job_step (JPost t ch) s = poster_step t ch s"
| "job_step (JWork r) s = worker_step r s"

text \<open>After \<open>disk_init\<close>: no jobs, an empty queue, a free mutex.\<close>

definition job_boot :: job_sys where
  "job_boot = \<lparr>jb_heap = Map.empty, jb_rq = Some [], jb_mtx = None, jb_post = (\<lambda>t. PIdle), jb_work = WIdle,
               jb_ret = (\<lambda>t. ESP_OK)\<rparr>"

inductive job_reach :: "job_sys \<Rightarrow> bool" where
  boot: "job_reach job_boot"
| step: "job_reach s \<Longrightarrow> job_step a s = Next s' \<Longrightarrow> job_reach s'"

fun job_run :: "job_act list \<Rightarrow> job_sys \<Rightarrow> job_res" where
  "job_run [] s = Next s"
| "job_run (a # as) s = (case job_step a s of Next s \<Rightarrow> job_run as s | x \<Rightarrow> x)"

section \<open>The invariant\<close>

text \<open>The job a task has a pointer to.\<close>

fun held :: "poster_pc \<Rightarrow> nat option" where
  "held PIdle = None"
| "held (PMade w j) = Some j"
| "held (PSend j) = Some j"
| "held (PWait j) = Some j"
| "held (PLate j) = Some j"
| "held (PHave j r) = Some j"
| "held PGone = None"
| "held (PFree j r) = Some j"

fun work_ptr :: "worker_pc \<Rightarrow> nat list" where
  "work_ptr WIdle = []"
| "work_ptr (WRun j) = [j]"
| "work_ptr (WDone j r) = [j]"
| "work_ptr (WDrop j) = [j]"
| "work_ptr (WFree j) = [j]"
| "work_ptr (WGive j) = [j]"
| "work_ptr WGave = []"

text \<open>
  What a posting task knows of its job: \<open>ws\<close> are the pointers on the worker's side (the queue
  and the worker's own).
\<close>

fun poster_ok :: "(nat \<rightharpoonup> job_obj) \<Rightarrow> nat set \<Rightarrow> worker_pc \<Rightarrow> poster_pc \<Rightarrow> bool" where
  "poster_ok h ws w PIdle = True"
| "poster_ok h ws w (PMade b j) =
     (j \<notin> ws \<and> (\<exists>ob. h j = Some ob \<and> \<not> j_completed ob \<and> \<not> j_abandoned ob \<and> j_done ob = None))"
| "poster_ok h ws w (PSend j) =
     (j \<notin> ws \<and> (\<exists>ob. h j = Some ob \<and> \<not> j_completed ob \<and> \<not> j_abandoned ob \<and> j_done ob = Some False))"
| "poster_ok h ws w (PWait j) =
     (\<exists>ob. h j = Some ob \<and> \<not> j_abandoned ob \<and> j_done ob = Some (j_completed ob \<and> w \<noteq> WGive j) \<and>
        (j \<in> ws \<longleftrightarrow> \<not> j_completed ob \<or> w = WGive j))"
| "poster_ok h ws w (PLate j) =
     (\<exists>ob. h j = Some ob \<and> \<not> j_abandoned ob \<and> j_done ob = Some (j_completed ob \<and> w \<noteq> WGive j) \<and>
        (j \<in> ws \<longleftrightarrow> \<not> j_completed ob \<or> w = WGive j))"
| "poster_ok h ws w (PHave j r) =
     (j \<notin> ws \<and> (\<exists>ob. h j = Some ob \<and> \<not> j_abandoned ob \<and> j_completed ob \<and> j_result ob = r))"
| "poster_ok h ws w PGone = True"
| "poster_ok h ws w (PFree j r) =
     (j \<notin> ws \<and> (\<exists>ob. h j = Some ob \<and> \<not> j_abandoned ob \<and> j_completed ob \<and> j_result ob = r))"

fun worker_ok :: "(nat \<rightharpoonup> job_obj) \<Rightarrow> worker_pc \<Rightarrow> bool" where
  "worker_ok h (WDrop j) = (\<forall>ob. h j = Some ob \<longrightarrow> j_abandoned ob \<or> j_done ob = None)"
| "worker_ok h (WFree j) = (\<forall>ob. h j = Some ob \<longrightarrow> j_abandoned ob \<or> j_done ob = None)"
| "worker_ok h (WGive j) = (\<forall>ob. h j = Some ob \<longrightarrow> j_completed ob \<and> \<not> j_abandoned ob \<and> j_done ob = Some False)"
| "worker_ok h _ = True"

text \<open>The places inside \<^verbatim>\<open>s_job_mtx\<close>.\<close>

fun poster_in :: "poster_pc \<Rightarrow> bool" where
  "poster_in (PHave j r) = True"
| "poster_in PGone = True"
| "poster_in _ = False"

fun worker_in :: "worker_pc \<Rightarrow> bool" where
  "worker_in (WDrop j) = True"
| "worker_in (WGive j) = True"
| "worker_in WGave = True"
| "worker_in _ = False"

definition mtx_ok :: "job_task option \<Rightarrow> (nat \<Rightarrow> poster_pc) \<Rightarrow> worker_pc \<Rightarrow> bool" where
  "mtx_ok m p w \<longleftrightarrow> (m = Some Worker \<longleftrightarrow> worker_in w) \<and> (\<forall>t. m = Some (Poster t) \<longleftrightarrow> poster_in (p t))"

definition ptrs :: "nat list \<Rightarrow> worker_pc \<Rightarrow> nat list" where
  "ptrs q w = q @ work_ptr w"

definition jobs_ok :: "(nat \<rightharpoonup> job_obj) \<Rightarrow> nat list \<Rightarrow> (nat \<Rightarrow> poster_pc) \<Rightarrow> worker_pc \<Rightarrow> bool" where
  "jobs_ok h q p w \<longleftrightarrow>
     distinct (ptrs q w) \<and>
     (\<forall>t t' j. held (p t) = Some j \<longrightarrow> held (p t') = Some j \<longrightarrow> t = t') \<and>
     (\<forall>t. poster_ok h (set (ptrs q w)) w (p t)) \<and> worker_ok h w \<and>
     (\<forall>j \<in> set (ptrs q w). \<exists>ob. h j = Some ob \<and> (j_completed ob \<longrightarrow> w = WGive j)) \<and>
     (\<forall>j ob. h j = Some ob \<longrightarrow>
        (\<exists>t. held (p t) = Some j) \<or> j \<in> set (ptrs q w) \<and> (j_abandoned ob \<or> j_done ob = None))"

definition job_inv :: "job_sys \<Rightarrow> bool" where
  "job_inv s \<longleftrightarrow>
     (\<exists>q. jb_rq s = Some q \<and> jobs_ok (jb_heap s) q (jb_post s) (jb_work s)) \<and>
     mtx_ok (jb_mtx s) (jb_post s) (jb_work s)"

lemma job_inv_boot: "job_inv job_boot"
  by (simp add: job_inv_def job_boot_def jobs_ok_def ptrs_def mtx_ok_def)

lemma jobs_okD:
  assumes "jobs_ok h q p w"
  shows "distinct (ptrs q w)"
    and "held (p t) = Some j \<Longrightarrow> held (p t') = Some j \<Longrightarrow> t = t'"
    and "poster_ok h (set (ptrs q w)) w (p t)" "worker_ok h w"
    and "j \<in> set (ptrs q w) \<Longrightarrow> \<exists>ob. h j = Some ob \<and> (j_completed ob \<longrightarrow> w = WGive j)"
    and "h j = Some ob \<Longrightarrow> (\<exists>t. held (p t) = Some j) \<or> j \<in> set (ptrs q w) \<and> (j_abandoned ob \<or> j_done ob = None)"
  using assms by (simp_all add: jobs_ok_def)

lemma poster_ok_held: "poster_ok h ws w pc \<Longrightarrow> held pc = Some j \<Longrightarrow> \<exists>ob. h j = Some ob"
  by (cases pc) auto

text \<open>A task is not concerned by a change to a job it has no pointer to.\<close>

lemma poster_ok_other:
  assumes "poster_ok h ws w pc" "\<And>j. held pc = Some j \<Longrightarrow> h' j = h j \<and> (j \<in> ws' \<longleftrightarrow> j \<in> ws) \<and> (w' = WGive j \<longleftrightarrow> w = WGive j)"
  shows "poster_ok h' ws' w' pc"
proof (cases "held pc")
  case None
  then show ?thesis by (cases pc) simp_all
next
  case (Some j)
  with assms(2) have "h' j = h j" "j \<in> ws' \<longleftrightarrow> j \<in> ws" "w' = WGive j \<longleftrightarrow> w = WGive j" by blast+
  with Some assms(1) show ?thesis by (cases pc) simp_all
qed

text \<open>Without a poster, a job on the worker's side is the worker's.\<close>

lemma orphan_not_held:
  assumes "jobs_ok h q p w" "h j = Some ob" "j \<in> set (ptrs q w)" "j_abandoned ob \<or> j_done ob = None"
  shows "held (p t) \<noteq> Some j"
proof
  assume "held (p t) = Some j"
  then show False
    using jobs_okD(3)[OF assms(1), of t] assms(2-4) by (cases "p t") (simp_all split: if_splits)
qed

text \<open>
  A step concerns one job: nothing else moves on the heap or on the worker's side, and the
  tasks that move have no other pointer before or after. Then the invariant is a matter of
  that job alone.
\<close>

definition only_job where
  "only_job j h q p w h' q' p' w' \<longleftrightarrow>
     (\<forall>i. i \<noteq> j \<longrightarrow> h' i = h i \<and> (i \<in> set (ptrs q' w') \<longleftrightarrow> i \<in> set (ptrs q w)) \<and> (w' = WGive i \<longleftrightarrow> w = WGive i)) \<and>
     (\<forall>t i. i \<noteq> j \<longrightarrow> (held (p' t) = Some i \<longleftrightarrow> held (p t) = Some i)) \<and>
     (\<forall>t i. i \<noteq> j \<longrightarrow> held (p t) = Some i \<longrightarrow> p' t = p t)"

lemma jobs_ok_change:
  assumes inv: "jobs_ok h q p w" and only: "only_job j h q p w h' q' p' w'"
    and dist: "distinct (ptrs q' w')" and work: "worker_ok h' w'"
    and one: "\<And>t t'. held (p' t) = Some j \<Longrightarrow> held (p' t') = Some j \<Longrightarrow> t = t'"
    and own: "\<And>t. held (p' t) = Some j \<Longrightarrow> poster_ok h' (set (ptrs q' w')) w' (p' t)"
    and side: "j \<in> set (ptrs q' w') \<Longrightarrow> \<exists>ob. h' j = Some ob \<and> (j_completed ob \<longrightarrow> w' = WGive j)"
    and leak: "\<And>ob. h' j = Some ob \<Longrightarrow>
      (\<exists>t. held (p' t) = Some j) \<or> j \<in> set (ptrs q' w') \<and> (j_abandoned ob \<or> j_done ob = None)"
  shows "jobs_ok h' q' p' w'"
proof -
  have o: "h' i = h i" "i \<in> set (ptrs q' w') \<longleftrightarrow> i \<in> set (ptrs q w)" "w' = WGive i \<longleftrightarrow> w = WGive i"
    "held (p' t) = Some i \<longleftrightarrow> held (p t) = Some i" "held (p t) = Some i \<Longrightarrow> p' t = p t" if "i \<noteq> j" for i t
    using only that unfolding only_job_def by simp_all
  have "poster_ok h' (set (ptrs q' w')) w' (p' t)" for t
  proof (cases "held (p' t)")
    case None
    then show ?thesis by (cases "p' t") simp_all
  next
    case (Some i)
    show ?thesis
    proof (cases "i = j")
      case False
      then have "p' t = p t" "held (p t) = Some i" using Some o(4,5) by simp_all
      then show ?thesis
        using poster_ok_other[OF jobs_okD(3)[OF inv, of t]] o(1-3)[OF False] by simp
    qed (use Some own in simp)
  qed
  moreover have "t = t'" if "held (p' t) = Some i" "held (p' t') = Some i" for t t' i
    using that one o(4) jobs_okD(2)[OF inv] by (cases "i = j") simp_all
  moreover have "\<exists>ob. h' i = Some ob \<and> (j_completed ob \<longrightarrow> w' = WGive i)" if "i \<in> set (ptrs q' w')" for i
    using that side o(1-3) jobs_okD(5)[OF inv] by (cases "i = j") simp_all
  moreover have "(\<exists>t. held (p' t) = Some i) \<or> i \<in> set (ptrs q' w') \<and> (j_abandoned ob \<or> j_done ob = None)"
    if "h' i = Some ob" for i ob
    using that leak o(1,2,4) jobs_okD(6)[OF inv] by (cases "i = j") simp_all
  ultimately show ?thesis using dist work unfolding jobs_ok_def by (intro conjI) blast+
qed

lemma held_ptr: "jobs_ok h q p w \<Longrightarrow> held (p t) = Some j \<Longrightarrow> \<exists>ob. h j = Some ob"
  using poster_ok_held jobs_okD(3) by blast

lemma poster_ok_none: "held pc = None \<Longrightarrow> poster_ok h ws w pc"
  by (cases pc) simp_all

lemma jobs_ok_idle:
  assumes "jobs_ok h q p w" "held (p t) = None" "held pc = None"
  shows "jobs_ok h q (p(t := pc)) w"
proof -
  have "held ((p(t := pc)) u) = held (p u)" for u using assms(2,3) by simp
  moreover have "poster_ok h (set (ptrs q w)) w ((p(t := pc)) u)" for u
    using jobs_okD(3)[OF assms(1), of u] poster_ok_none[OF assms(3)] by simp
  ultimately show ?thesis using assms(1) unfolding jobs_ok_def by (simp del: fun_upd_apply)
qed

lemma worker_ok_other: "j \<notin> set (work_ptr w) \<Longrightarrow> worker_ok (h(j := x)) w = worker_ok h w"
  by (cases w) auto

text \<open>A poster's step on its own job \<open>j\<close>, which it keeps.\<close>

lemma jobs_ok_poster:
  assumes inv: "jobs_ok h q p w" and t: "held (p t) = Some j" "held pc = Some j"
    and ob: "poster_ok (h(j \<mapsto> ob)) (set (ptrs q w)) w pc"
    and side: "j \<in> set (ptrs q w) \<Longrightarrow> h j = Some ob"
  shows "jobs_ok (h(j \<mapsto> ob)) q (p(t := pc)) w"
  using inv
proof (rule jobs_ok_change[where j = j])
  have u: "u = t" if "held (p u) = Some j" for u using jobs_okD(2)[OF inv that t(1)] .
  show "only_job j h q p w (h(j \<mapsto> ob)) q (p(t := pc)) w" using t by (auto simp: only_job_def)
  show "distinct (ptrs q w)" using jobs_okD(1)[OF inv] .
  have "h(j \<mapsto> ob) = h" if "j \<in> set (work_ptr w)"
    using side that by (auto simp: ptrs_def fun_upd_idem)
  then show "worker_ok (h(j \<mapsto> ob)) w" using jobs_okD(4)[OF inv] worker_ok_other by metis
  show "u = u'" if "held ((p(t := pc)) u) = Some j" "held ((p(t := pc)) u') = Some j" for u u'
    using that u by (auto split: if_splits)
  show "poster_ok (h(j \<mapsto> ob)) (set (ptrs q w)) w ((p(t := pc)) u)" if "held ((p(t := pc)) u) = Some j" for u
    using that u ob by (auto split: if_splits)
  show "\<exists>ob'. (h(j \<mapsto> ob)) j = Some ob' \<and> (j_completed ob' \<longrightarrow> w = WGive j)" if "j \<in> set (ptrs q w)"
    using jobs_okD(5)[OF inv that] side[OF that] by simp
  have "held ((p(t := pc)) t) = Some j" using t by simp
  then show "(\<exists>u. held ((p(t := pc)) u) = Some j) \<or> j \<in> set (ptrs q w) \<and> (j_abandoned ob' \<or> j_done ob' = None)" for ob'
    by blast
qed

text \<open>A poster lets go of its job: it frees it, leaves it in the queue, or to the worker.\<close>

lemma jobs_ok_leave:
  assumes inv: "jobs_ok h q p w" and t: "held (p t) = Some j" "held pc = None"
    and h': "\<And>i. i \<noteq> j \<Longrightarrow> h' i = h i" and q': "set (ptrs q' w) \<union> {j} = set (ptrs q w) \<union> {j}" "distinct (ptrs q' w)"
    and w: "w \<noteq> WGive j" "worker_ok h' w"
    and own: "case h' j of None \<Rightarrow> j \<notin> set (ptrs q' w)
      | Some ob \<Rightarrow> j \<in> set (ptrs q' w) \<and> \<not> j_completed ob \<and> (j_abandoned ob \<or> j_done ob = None)"
  shows "jobs_ok h' q' (p(t := pc)) w"
  using inv
proof (rule jobs_ok_change[where j = j])
  have no: "held ((p(t := pc)) u) \<noteq> Some j" for u using jobs_okD(2)[OF inv _ t(1), of u] t(2) by auto
  show "only_job j h q p w h' q' (p(t := pc)) w" using t h' q'(1) by (auto simp: only_job_def)
  show "distinct (ptrs q' w)" "worker_ok h' w" using q'(2) w(2) by simp_all
  show "u = u'" if "held ((p(t := pc)) u) = Some j" "held ((p(t := pc)) u') = Some j" for u u' using that no by blast
  show "poster_ok h' (set (ptrs q' w)) w ((p(t := pc)) u)" if "held ((p(t := pc)) u) = Some j" for u using that no by blast
  show "\<exists>ob. h' j = Some ob \<and> (j_completed ob \<longrightarrow> w = WGive j)" if "j \<in> set (ptrs q' w)"
    using that own by (auto split: option.splits)
  show "(\<exists>u. held ((p(t := pc)) u) = Some j) \<or> j \<in> set (ptrs q' w) \<and> (j_abandoned ob \<or> j_done ob = None)"
    if "h' j = Some ob" for ob using that own by simp
qed

text \<open>The worker's step on the job \<open>j\<close> on its side.\<close>

lemma jobs_ok_worker:
  assumes inv: "jobs_ok h q p w" and h': "\<And>i. i \<noteq> j \<Longrightarrow> h' i = h i"
    and side: "\<And>i. i \<noteq> j \<Longrightarrow> i \<in> set (ptrs q' w') \<longleftrightarrow> i \<in> set (ptrs q w)" "\<And>i. i \<noteq> j \<Longrightarrow> w \<noteq> WGive i \<and> w' \<noteq> WGive i"
    and q': "distinct (ptrs q' w')" and w': "worker_ok h' w'"
    and own: "\<And>t. held (p t) = Some j \<Longrightarrow> poster_ok h' (set (ptrs q' w')) w' (p t)"
    and job: "case h' j of None \<Rightarrow> j \<notin> set (ptrs q' w')
      | Some ob \<Rightarrow> (j \<in> set (ptrs q' w') \<longrightarrow> j_completed ob \<longrightarrow> w' = WGive j) \<and>
          ((\<exists>t. held (p t) = Some j) \<or> j \<in> set (ptrs q' w') \<and> (j_abandoned ob \<or> j_done ob = None))"
  shows "jobs_ok h' q' p w'"
  using inv
proof (rule jobs_ok_change[where j = j])
  show "only_job j h q p w h' q' p w'" using h' side by (simp add: only_job_def)
  show "distinct (ptrs q' w')" "worker_ok h' w'" using q' w' by simp_all
  show "u = u'" if "held (p u) = Some j" "held (p u') = Some j" for u u' using jobs_okD(2)[OF inv that] .
  show "poster_ok h' (set (ptrs q' w')) w' (p u)" if "held (p u) = Some j" for u by (rule own[OF that])
  show "\<exists>ob. h' j = Some ob \<and> (j_completed ob \<longrightarrow> w' = WGive j)" if "j \<in> set (ptrs q' w')"
    using that job by (auto split: option.splits)
  show "(\<exists>u. held (p u) = Some j) \<or> j \<in> set (ptrs q' w') \<and> (j_abandoned ob \<or> j_done ob = None)"
    if "h' j = Some ob" for ob using that job by simp
qed

section \<open>Every step keeps it\<close>

lemmas job_defs = job_inv_def with_job_def put_job_def poster_at_def poster_ret_def job_free_def job_send_def Let_def

text \<open>What a step comes to, if it keeps the invariant.\<close>

fun step_ok :: "job_res \<Rightarrow> bool" where
  "step_ok Fault = False"
| "step_ok Blocked = True"
| "step_ok (Next s) = job_inv s"

lemma mtx_ok_move:
  "mtx_ok m p w \<Longrightarrow> \<not> poster_in (p t) \<Longrightarrow> \<not> poster_in pc \<Longrightarrow> mtx_ok m (p(t := pc)) w"
  by (simp add: mtx_ok_def)

lemma mtx_ok_take: "mtx_ok None p w \<Longrightarrow> poster_in pc \<Longrightarrow> mtx_ok (Some (Poster t)) (p(t := pc)) w"
  by (simp add: mtx_ok_def)

lemma mtx_ok_give:
  "mtx_ok m p w \<Longrightarrow> poster_in (p t) \<Longrightarrow> \<not> poster_in pc \<Longrightarrow> mtx_ok None (p(t := pc)) w"
  unfolding mtx_ok_def by (metis fun_upd_apply job_task.distinct(1) job_task.inject option.distinct(1) option.inject)

lemma mtx_ok_work: "mtx_ok m p w \<Longrightarrow> \<not> worker_in w \<Longrightarrow> \<not> worker_in w' \<Longrightarrow> mtx_ok m p w'"
  by (simp add: mtx_ok_def)

lemma mtx_ok_work_take: "mtx_ok None p w \<Longrightarrow> worker_in w' \<Longrightarrow> mtx_ok (Some Worker) p w'"
  by (auto simp: mtx_ok_def)

lemma mtx_ok_work_give: "mtx_ok m p w \<Longrightarrow> worker_in w \<Longrightarrow> \<not> worker_in w' \<Longrightarrow> mtx_ok None p w'"
  by (auto simp: mtx_ok_def)

lemma mtx_ok_work_keep: "mtx_ok m p w \<Longrightarrow> worker_in w \<Longrightarrow> worker_in w' \<Longrightarrow> mtx_ok m p w'"
  by (auto simp: mtx_ok_def)

lemma free_step_ok:
  assumes inv: "job_inv s" and q: "jb_rq s = Some q" and t: "held (jb_post s t) = Some j"
    and out: "j \<notin> set (ptrs q (jb_work s))" and pc: "\<not> poster_in (jb_post s t)"
  shows "step_ok (job_free j s (poster_ret t r))"
proof -
  have i: "jobs_ok (jb_heap s) q (jb_post s) (jb_work s)" "mtx_ok (jb_mtx s) (jb_post s) (jb_work s)"
    using inv q by (simp_all add: job_inv_def)
  obtain ob where ob: "jb_heap s j = Some ob" using held_ptr[OF i(1) t] by blast
  have "jobs_ok ((jb_heap s)(j := None)) q ((jb_post s)(t := PIdle)) (jb_work s)"
  proof (rule jobs_ok_leave[OF i(1) t])
    show "worker_ok ((jb_heap s)(j := None)) (jb_work s)"
      using jobs_okD(4)[OF i(1)] out worker_ok_other[of j "jb_work s"] by (simp add: ptrs_def)
    show "jb_work s \<noteq> WGive j" using out by (auto simp: ptrs_def)
  qed (use out jobs_okD(1)[OF i(1)] in simp_all)
  moreover have "mtx_ok (jb_mtx s) ((jb_post s)(t := PIdle)) (jb_work s)"
    using i(2) pc by (intro mtx_ok_move) simp_all
  ultimately show ?thesis using q ob by (simp add: job_defs)
qed

lemma send_step_ok:
  assumes inv: "job_inv s" and q: "jb_rq s = Some q" and t: "held (jb_post s t) = Some j"
    and out: "j \<notin> set (ptrs q (jb_work s))" and ob: "jb_heap s j = Some ob" "\<not> j_completed ob" "\<not> j_abandoned ob"
    and pc: "\<not> poster_in (jb_post s t)"
    and k: "k = poster_ret t ESP_OK \<and> j_done ob = None \<or> k = poster_at t (PWait j) \<and> j_done ob = Some False"
  shows "step_ok (job_send t j late k s)"
proof -
  have i: "jobs_ok (jb_heap s) q (jb_post s) (jb_work s)" "mtx_ok (jb_mtx s) (jb_post s) (jb_work s)"
    using inv q by (simp_all add: job_inv_def)
  have ptrs: "set (ptrs (q @ [j]) (jb_work s)) = insert j (set (ptrs q (jb_work s)))" "distinct (ptrs (q @ [j]) (jb_work s))"
    "jb_work s \<noteq> WGive j"
    using out jobs_okD(1)[OF i(1)] by (auto simp: ptrs_def)
  have u: "u = t" if "held (jb_post s u) = Some j" for u using jobs_okD(2)[OF i(1) that t] .
  have m: "mtx_ok (jb_mtx s) ((jb_post s)(t := pc')) (jb_work s)" if "pc' = PIdle \<or> pc' = PWait j" for pc'
    using i(2) pc that by (intro mtx_ok_move) auto
  have "jobs_ok (jb_heap s) (q @ [j]) ((jb_post s)(t := PIdle)) (jb_work s)" if "j_done ob = None"
    using jobs_okD(4)[OF i(1)] ptrs ob that by (intro jobs_ok_leave[OF i(1) t]) simp_all
  moreover have "jobs_ok (jb_heap s) (q @ [j]) ((jb_post s)(t := PWait j)) (jb_work s)" if d: "j_done ob = Some False"
  proof (rule jobs_ok_change[OF i(1), where j = j])
    show "only_job j (jb_heap s) q (jb_post s) (jb_work s) (jb_heap s) (q @ [j]) ((jb_post s)(t := PWait j)) (jb_work s)"
      using t ptrs(1) by (auto simp: only_job_def)
    show "v = u" if "held (((jb_post s)(t := PWait j)) v) = Some j" "held (((jb_post s)(t := PWait j)) u) = Some j" for v u
      using that u by (auto split: if_splits)
    show "poster_ok (jb_heap s) (set (ptrs (q @ [j]) (jb_work s))) (jb_work s) (((jb_post s)(t := PWait j)) v)"
      if "held (((jb_post s)(t := PWait j)) v) = Some j" for v
      using that u ob d ptrs by (auto split: if_splits)
    have "held (((jb_post s)(t := PWait j)) t) = Some j" by simp
    then show "(\<exists>v. held (((jb_post s)(t := PWait j)) v) = Some j) \<or>
        j \<in> set (ptrs (q @ [j]) (jb_work s)) \<and> (j_abandoned ob' \<or> j_done ob' = None)" for ob' by blast
  qed (use ob ptrs jobs_okD(4)[OF i(1)] in simp_all)
  moreover have "step_ok (job_free j s (poster_ret t ESP_ERR_TIMEOUT))" by (rule free_step_ok[OF inv q t out pc])
  ultimately show ?thesis
    using q k m by (auto simp: job_send_def poster_ret_def poster_at_def job_inv_def)
qed

lemma begin_step_ok: "job_inv s \<Longrightarrow> step_ok (job_begin t w a p s)"
proof -
  assume inv: "job_inv s"
  then obtain q where q: "jb_rq s = Some q" and i: "jobs_ok (jb_heap s) q (jb_post s) (jb_work s)"
    "mtx_ok (jb_mtx s) (jb_post s) (jb_work s)" by (auto simp: job_inv_def)
  have same: "(jb_post s)(t := PIdle) = jb_post s" if "jb_post s t = PIdle" using that by auto
  have "jobs_ok ((jb_heap s)(j \<mapsto> job_calloc p)) q ((jb_post s)(t := PMade w j)) (jb_work s)"
    if t: "jb_post s t = PIdle" and j: "jb_heap s j = None" for j
  proof (rule jobs_ok_change[OF i(1), where j = j])
    have no: "held (jb_post s u) \<noteq> Some j" for u using held_ptr[OF i(1), of u j] j by auto
    have ws: "j \<notin> set (ptrs q (jb_work s))" using jobs_okD(5)[OF i(1), of j] j by auto
    show "only_job j (jb_heap s) q (jb_post s) (jb_work s) ((jb_heap s)(j \<mapsto> job_calloc p)) q ((jb_post s)(t := PMade w j)) (jb_work s)"
      using t by (auto simp: only_job_def)
    show "worker_ok ((jb_heap s)(j \<mapsto> job_calloc p)) (jb_work s)"
      using jobs_okD(4)[OF i(1)] ws worker_ok_other[of j "jb_work s"] by (simp add: ptrs_def)
    show "u = v" if "held (((jb_post s)(t := PMade w j)) u) = Some j" "held (((jb_post s)(t := PMade w j)) v) = Some j" for u v
      using that no by (auto split: if_splits)
    show "poster_ok ((jb_heap s)(j \<mapsto> job_calloc p)) (set (ptrs q (jb_work s))) (jb_work s) (((jb_post s)(t := PMade w j)) u)"
      if "held (((jb_post s)(t := PMade w j)) u) = Some j" for u
      using that no ws by (auto simp: job_calloc_def split: if_splits)
    have "held (((jb_post s)(t := PMade w j)) t) = Some j" by simp
    then show "(\<exists>u. held (((jb_post s)(t := PMade w j)) u) = Some j) \<or>
        j \<in> set (ptrs q (jb_work s)) \<and> (j_abandoned ob \<or> j_done ob = None)" for ob by blast
  qed (use jobs_okD(1)[OF i(1)] jobs_okD(5)[OF i(1), of j] j in auto)
  moreover have "mtx_ok (jb_mtx s) ((jb_post s)(t := PMade w j)) (jb_work s)" if "jb_post s t = PIdle" for j
    using i(2) that by (intro mtx_ok_move) simp_all
  ultimately show ?thesis
    using q i same by (auto simp: job_begin_def job_inv_def poster_ret_def poster_at_def put_job_def split: option.split)
qed

text \<open>A poster that keeps its job, with the mutex's new owner \<open>m\<close>.\<close>

lemma poster_keeps:
  assumes "job_inv s" "jb_rq s = Some q" "held (jb_post s t) = Some j" "held pc = Some j"
    and "poster_ok ((jb_heap s)(j \<mapsto> ob)) (set (ptrs q (jb_work s))) (jb_work s) pc"
    and "j \<in> set (ptrs q (jb_work s)) \<Longrightarrow> jb_heap s j = Some ob"
    and "mtx_ok m ((jb_post s)(t := pc)) (jb_work s)"
    and "jb_heap s' = (jb_heap s)(j \<mapsto> ob)" "jb_rq s' = jb_rq s" "jb_post s' = (jb_post s)(t := pc)" "jb_work s' = jb_work s"
      "jb_mtx s' = m"
  shows "job_inv s'"
  using assms jobs_ok_poster[of "jb_heap s" q "jb_post s" "jb_work s" t j pc ob] by (simp add: job_inv_def)

lemma poster_moves:
  assumes "job_inv s" "jb_rq s = Some q" "held (jb_post s t) = Some j" "held pc = Some j"
    and "poster_ok (jb_heap s) (set (ptrs q (jb_work s))) (jb_work s) pc" "mtx_ok m ((jb_post s)(t := pc)) (jb_work s)"
    and "jb_heap s' = jb_heap s" "jb_rq s' = jb_rq s" "jb_post s' = (jb_post s)(t := pc)" "jb_work s' = jb_work s"
      "jb_mtx s' = m"
  shows "job_inv s'"
proof -
  obtain ob where "jb_heap s j = Some ob"
    using assms(1-3) held_ptr by (fastforce simp: job_inv_def)
  moreover from this have "(jb_heap s)(j \<mapsto> ob) = jb_heap s" by auto
  ultimately show ?thesis
    using poster_keeps[OF assms(1-4), of ob m s'] assms(5-) by simp
qed

lemma poster_step_ok: "job_inv s \<Longrightarrow> step_ok (poster_step t ch s)"
proof -
  assume inv: "job_inv s"
  then obtain q where q: "jb_rq s = Some q" and i: "jobs_ok (jb_heap s) q (jb_post s) (jb_work s)"
    "mtx_ok (jb_mtx s) (jb_post s) (jb_work s)" by (auto simp: job_inv_def)
  note po = jobs_okD(3)[OF i(1), of t]
  note keep = poster_keeps[OF inv q, of t] and move = poster_moves[OF inv q, of t]
  show ?thesis
  proof (cases "jb_post s t")
    case PIdle
    then show ?thesis by (simp add: poster_step_def)
  next
    case (PMade w j)
    obtain ob where ob: "jb_heap s j = Some ob" "\<not> j_completed ob" "\<not> j_abandoned ob" "j_done ob = None"
      "j \<notin> set (ptrs q (jb_work s))" using po PMade by auto
    have "step_ok (Next (poster_at t (PSend j) (put_job j (ob\<lparr>j_done := Some False\<rparr>) s)))"
      using PMade ob i(2) by (simp, intro keep[where pc = "PSend j" and ob = "ob\<lparr>j_done := Some False\<rparr>" and m = "jb_mtx s"])
        (simp_all add: poster_at_def put_job_def mtx_ok_move)
    then show ?thesis
      using PMade ob q free_step_ok[OF inv q, of t j] send_step_ok[OF inv q, of t j ob "poster_ret t ESP_OK"]
      by (simp add: poster_step_def with_job_def)
  next
    case (PSend j)
    then show ?thesis
      using po send_step_ok[OF inv q, of t j _ "poster_at t (PWait j)"] by (auto simp: poster_step_def)
  next
    case (PWait j)
    obtain ob where ob: "jb_heap s j = Some ob" "\<not> j_abandoned ob" "j_done ob = Some (j_completed ob \<and> jb_work s \<noteq> WGive j)"
      "j \<in> set (ptrs q (jb_work s)) \<longleftrightarrow> \<not> j_completed ob \<or> jb_work s = WGive j" using po PWait by auto
    have "step_ok (Next (poster_at t (PLate j) s))"
      using PWait ob i(2) by (simp, intro move[where pc = "PLate j" and m = "jb_mtx s"])
        (simp_all add: poster_at_def mtx_ok_move)
    moreover have "step_ok (Next (poster_at t (PFree j (j_result ob)) (put_job j (ob\<lparr>j_done := Some False\<rparr>) s)))"
      if "j_completed ob \<and> jb_work s \<noteq> WGive j"
      using PWait ob i(2) that by (simp, intro keep[where pc = "PFree j (j_result ob)" and ob = "ob\<lparr>j_done := Some False\<rparr>" and m = "jb_mtx s"])
        (simp_all add: poster_at_def put_job_def mtx_ok_move)
    ultimately show ?thesis using PWait ob by (simp add: poster_step_def with_job_def)
  next
    case (PLate j)
    show ?thesis
    proof (cases "jb_mtx s = None")
      case True
      obtain ob where ob: "jb_heap s j = Some ob" "\<not> j_abandoned ob" "j_done ob = Some (j_completed ob \<and> jb_work s \<noteq> WGive j)"
        "j \<in> set (ptrs q (jb_work s)) \<longleftrightarrow> \<not> j_completed ob \<or> jb_work s = WGive j" using po PLate by auto
      have w: "\<not> worker_in (jb_work s)" using i(2) True by (simp add: mtx_ok_def)
      then have wg: "jb_work s \<noteq> WGive j" by auto
      have "step_ok (Next (poster_at t (PHave j (j_result ob)) (s\<lparr>jb_mtx := Some (Poster t)\<rparr>)))" if "j_completed ob"
        using PLate ob i(2) that wg True
        by (simp, intro move[where pc = "PHave j (j_result ob)" and m = "Some (Poster t)"])
          (simp_all add: poster_at_def mtx_ok_take)
      moreover have "step_ok (Next (poster_at t PGone (put_job j (ob\<lparr>j_abandoned := True\<rparr>) (s\<lparr>jb_mtx := Some (Poster t)\<rparr>))))"
        if "\<not> j_completed ob"
      proof -
        have "worker_ok ((jb_heap s)(j \<mapsto> ob\<lparr>j_abandoned := True\<rparr>)) (jb_work s)"
          using jobs_okD(4)[OF i(1)] wg w ob by (cases "jb_work s") (auto split: if_splits)
        then have "jobs_ok ((jb_heap s)(j \<mapsto> ob\<lparr>j_abandoned := True\<rparr>)) q ((jb_post s)(t := PGone)) (jb_work s)"
          using PLate ob that wg jobs_okD(1)[OF i(1)] by (intro jobs_ok_leave[OF i(1), of t j]) simp_all
        then show ?thesis using q i(2) True mtx_ok_take by (simp add: job_inv_def poster_at_def put_job_def)
      qed
      ultimately show ?thesis using PLate ob True by (simp add: poster_step_def with_job_def Let_def)
    qed (simp add: poster_step_def PLate)
  next
    case (PHave j r)
    obtain ob where ob: "jb_heap s j = Some ob" "\<not> j_abandoned ob" "j_completed ob" "j_result ob = r"
      "j \<notin> set (ptrs q (jb_work s))" using po PHave by auto
    show ?thesis
      using PHave ob i(2) by (simp add: poster_step_def, intro move[where pc = "PFree j r" and m = None])
        (simp_all add: poster_at_def mtx_ok_give)
  next
    case PGone
    then show ?thesis
      using q i mtx_ok_give[OF i(2), of t PIdle] jobs_ok_idle[OF i(1), of t PIdle]
      by (simp add: poster_step_def job_inv_def poster_ret_def)
  next
    case (PFree j r)
    then show ?thesis using po free_step_ok[OF inv q, of t j] by (simp add: poster_step_def)
  qed
qed

text \<open>The worker's steps, with what they make of the heap, its pointers and the mutex.\<close>

lemma worker_moves:
  assumes "job_inv s" "jb_rq s = Some q" "jobs_ok h' q' (jb_post s) w'" "mtx_ok m (jb_post s) w'"
    and "jb_heap s' = h'" "jb_rq s' = Some q'" "jb_post s' = jb_post s" "jb_work s' = w'" "jb_mtx s' = m"
  shows "job_inv s'"
  using assms by (simp add: job_inv_def)

lemma jobs_ok_pass:
  assumes inv: "jobs_ok h q p w" and q': "set (ptrs q' w') = set (ptrs q w)" "distinct (ptrs q' w')"
    and w: "\<And>i. w \<noteq> WGive i" "\<And>i. w' \<noteq> WGive i" "worker_ok h w'"
  shows "jobs_ok h q' p w'"
proof -
  have "poster_ok h (set (ptrs q' w')) w' (p t)" for t
    by (rule poster_ok_other[OF jobs_okD(3)[OF inv, of t]]) (simp_all add: q' w)
  then show ?thesis using inv w q' unfolding jobs_ok_def by simp
qed

lemma worker_step_ok: "job_inv s \<Longrightarrow> step_ok (worker_step r s)"
proof -
  assume inv: "job_inv s"
  then obtain q where q: "jb_rq s = Some q" and i: "jobs_ok (jb_heap s) q (jb_post s) (jb_work s)"
    "mtx_ok (jb_mtx s) (jb_post s) (jb_work s)" by (auto simp: job_inv_def)
  note move = worker_moves[OF inv q]
  have dist: "distinct (ptrs q (jb_work s))" and wo: "worker_ok (jb_heap s) (jb_work s)"
    using jobs_okD(1,4)[OF i(1)] by simp_all
  note po = jobs_okD(3)[OF i(1)]
  have here: "\<exists>ob. jb_heap s j = Some ob \<and> (j_completed ob \<longrightarrow> jb_work s = WGive j)" if "j \<in> set (ptrs q (jb_work s))" for j
    by (rule jobs_okD(5)[OF i(1) that])
  have mine: "\<exists>ob. jb_heap s j = Some ob \<and> (j_completed ob \<longrightarrow> jb_work s = WGive j)" if "work_ptr (jb_work s) = [j]" for j
    using here[of j] that by (simp add: ptrs_def)
  have leak: "(\<exists>t. held (jb_post s t) = Some j) \<or> j_abandoned ob \<or> j_done ob = None" if "jb_heap s j = Some ob" for j ob
    using jobs_okD(6)[OF i(1) that] by auto
  show ?thesis
  proof (cases "jb_work s")
    case WIdle
    show ?thesis
    proof (cases q)
      case (Cons j q')
      have "j \<in> set (ptrs q (jb_work s))" using Cons by (simp add: ptrs_def)
      then obtain ob where ob: "jb_heap s j = Some ob" using here by blast
      have "jobs_ok (jb_heap s) q' (jb_post s) (WRun j)"
        using Cons WIdle dist by (intro jobs_ok_pass[OF i(1)]) (auto simp: ptrs_def)
      moreover have "mtx_ok (jb_mtx s) (jb_post s) (WRun j)" using i(2) WIdle by (intro mtx_ok_work[OF i(2)]) simp_all
      ultimately show ?thesis using Cons WIdle q ob by (simp add: worker_step_def with_job_def job_inv_def)
    qed (simp add: worker_step_def WIdle q)
  next
    case (WRun j)
    obtain ob where ob: "jb_heap s j = Some ob" "\<not> j_completed ob" using mine[of j] WRun by auto
    have "jobs_ok (jb_heap s) q (jb_post s) (WDone j r)"
      using WRun dist by (intro jobs_ok_pass[OF i(1)]) (simp_all add: ptrs_def)
    moreover have "mtx_ok (jb_mtx s) (jb_post s) (WDone j r)" using i(2) WRun by (intro mtx_ok_work[OF i(2)]) simp_all
    ultimately show ?thesis using WRun q ob by (simp add: worker_step_def with_job_def job_inv_def)
  next
    case (WDone j res)
    show ?thesis
    proof (cases "jb_mtx s = None")
      case True
      obtain ob where ob: "jb_heap s j = Some ob" "\<not> j_completed ob" using mine[of j] WDone by auto
      have "step_ok (Next (s\<lparr>jb_mtx := Some Worker, jb_work := WDrop j\<rparr>))" if d: "j_abandoned ob \<or> j_done ob = None"
      proof -
        have "jobs_ok (jb_heap s) q (jb_post s) (WDrop j)"
          using WDone dist ob d by (intro jobs_ok_pass[OF i(1)]) (simp_all add: ptrs_def)
        moreover have "mtx_ok (Some Worker) (jb_post s) (WDrop j)" using i(2) True by (intro mtx_ok_work_take) simp_all
        ultimately show ?thesis using q by (simp add: job_inv_def)
      qed
      moreover have "step_ok (Next ((put_job j (ob\<lparr>j_result := res, j_completed := True\<rparr>) (s\<lparr>jb_mtx := Some Worker\<rparr>))\<lparr>jb_work := WGive j\<rparr>))"
        if d: "\<not> j_abandoned ob" "j_done ob \<noteq> None"
      proof -
        let ?h = "(jb_heap s)(j \<mapsto> ob\<lparr>j_result := res, j_completed := True\<rparr>)"
        obtain t where t: "held (jb_post s t) = Some j" using leak[OF ob(1)] d by blast
        have ws: "j \<in> set (ptrs q (jb_work s))" using WDone by (simp add: ptrs_def)
        have dn: "j_done ob = Some False"
          using po[of t] t ob ws d by (cases "jb_post s t") simp_all
        have "poster_ok ?h (set (ptrs q (WGive j))) (WGive j) (jb_post s u)" if "held (jb_post s u) = Some j" for u
          using po[of u] that ob ws d by (cases "jb_post s u") (simp_all add: ptrs_def)
        then have "jobs_ok ?h q (jb_post s) (WGive j)"
          using WDone dist ob d dn t by (intro jobs_ok_worker[OF i(1), of j]) (auto simp: ptrs_def)
        moreover have "mtx_ok (Some Worker) (jb_post s) (WGive j)" using i(2) True by (intro mtx_ok_work_take) simp_all
        ultimately show ?thesis using q by (simp add: job_inv_def put_job_def)
      qed
      ultimately show ?thesis using WDone True ob by (simp add: worker_step_def with_job_def Let_def)
    qed (simp add: worker_step_def WDone)
  next
    case (WDrop j)
    obtain ob where ob: "jb_heap s j = Some ob" "\<not> j_completed ob" using mine[of j] WDrop by auto
    have "jobs_ok (jb_heap s) q (jb_post s) (WFree j)"
      using WDrop dist wo by (intro jobs_ok_pass[OF i(1)]) (simp_all add: ptrs_def)
    moreover have "mtx_ok None (jb_post s) (WFree j)" using i(2) WDrop by (intro mtx_ok_work_give[OF i(2)]) simp_all
    ultimately show ?thesis using WDrop q by (simp add: worker_step_def job_inv_def)
  next
    case (WFree j)
    obtain ob where ob: "jb_heap s j = Some ob" "\<not> j_completed ob" using mine[of j] WFree by auto
    have no: "held (jb_post s t) \<noteq> Some j" for t
      using orphan_not_held[OF i(1) ob(1)] wo WFree ob by (simp add: ptrs_def)
    have "jobs_ok ((jb_heap s)(j := None)) q (jb_post s) WIdle"
      using WFree dist no by (intro jobs_ok_worker[OF i(1), of j]) (auto simp: ptrs_def)
    moreover have "mtx_ok (jb_mtx s) (jb_post s) WIdle" using i(2) WFree by (intro mtx_ok_work[OF i(2)]) simp_all
    ultimately show ?thesis using WFree q ob by (simp add: worker_step_def job_free_def with_job_def job_inv_def)
  next
    case (WGive j)
    obtain ob where ob: "jb_heap s j = Some ob" using mine[of j] WGive by auto
    then have d: "j_completed ob" "\<not> j_abandoned ob" "j_done ob = Some False" using wo WGive by simp_all
    let ?h = "(jb_heap s)(j \<mapsto> ob\<lparr>j_done := Some True\<rparr>)"
    obtain t where t: "held (jb_post s t) = Some j" using leak[OF ob] d by auto
    have "poster_ok ?h (set (ptrs q WGave)) WGave (jb_post s u)" if "held (jb_post s u) = Some j" for u
      using po[of u] that ob d dist WGive by (cases "jb_post s u") (simp_all add: ptrs_def)
    then have "jobs_ok ?h q (jb_post s) WGave"
      using WGive dist t by (intro jobs_ok_worker[OF i(1), of j]) (auto simp: ptrs_def)
    moreover have "mtx_ok (jb_mtx s) (jb_post s) WGave" using i(2) WGive by (intro mtx_ok_work_keep[OF i(2)]) simp_all
    ultimately show ?thesis using WGive q ob d by (simp add: worker_step_def with_job_def put_job_def job_inv_def)
  next
    case WGave
    have "jobs_ok (jb_heap s) q (jb_post s) WIdle"
      using WGave dist by (intro jobs_ok_pass[OF i(1)]) (simp_all add: ptrs_def)
    moreover have "mtx_ok None (jb_post s) WIdle" using i(2) WGave by (intro mtx_ok_work_give[OF i(2)]) simp_all
    ultimately show ?thesis using WGave q by (simp add: worker_step_def job_inv_def)
  qed
qed

lemma job_step_ok: "job_inv s \<Longrightarrow> step_ok (job_step a s)"
  by (cases a) (simp_all add: begin_step_ok poster_step_ok worker_step_ok)

lemma job_reach_inv: "job_reach s \<Longrightarrow> job_inv s"
proof (induction rule: job_reach.induct)
  case (step s a s')
  then show ?case using job_step_ok[of s a] by simp
qed (rule job_inv_boot)

lemma job_run_reach: "job_reach s \<Longrightarrow> job_run as s = Next s' \<Longrightarrow> job_reach s'"
  by (induction as arbitrary: s) (auto split: job_res.splits intro: job_reach.step)

section \<open>Nobody is stuck\<close>

lemma worker_moves_on:
  assumes "job_inv s" "jb_mtx s = None \<or> jb_mtx s = Some Worker" "jb_work s \<noteq> WIdle \<or> jb_rq s \<noteq> Some []"
  shows "worker_step r s \<noteq> Blocked"
  using assms by (cases "jb_work s")
    (auto simp: worker_step_def job_inv_def mtx_ok_def with_job_def job_free_def Let_def split: option.splits list.splits)

lemma poster_moves_on:
  assumes "job_inv s" "jb_mtx s = None \<or> jb_mtx s = Some (Poster t)" "jb_post s t \<noteq> PIdle"
  shows "\<exists>ch. poster_step t ch s \<noteq> Blocked"
  using assms by (cases "jb_post s t")
    (auto simp: poster_step_def job_inv_def mtx_ok_def job_send_def with_job_def job_free_def Let_def
      split: option.splits intro!: exI[of _ True])

lemma jobs_not_stuck:
  assumes "job_inv s" "jb_work s \<noteq> WIdle \<or> jb_rq s \<noteq> Some [] \<or> (\<exists>t. jb_post s t \<noteq> PIdle)"
  shows "\<exists>s'. (\<exists>t ch. poster_step t ch s = Next s') \<or> (\<exists>r. worker_step r s = Next s')"
proof -
  have go: "\<exists>s'. x = Next s'" if "step_ok x" "x \<noteq> Blocked" for x using that by (cases x) auto
  consider t where "jb_mtx s = Some (Poster t)" | "jb_mtx s = None \<or> jb_mtx s = Some Worker"
    by (metis job_task.exhaust option.exhaust)
  then show ?thesis
  proof cases
    case (1 t)
    then have "poster_in (jb_post s t)" using assms(1) unfolding job_inv_def mtx_ok_def by blast
    then have "jb_post s t \<noteq> PIdle" by auto
    then show ?thesis using poster_moves_on[OF assms(1)] 1 go poster_step_ok[OF assms(1)] by blast
  next
    case 2
    show ?thesis
    proof (cases "jb_work s \<noteq> WIdle \<or> jb_rq s \<noteq> Some []")
      case True
      then show ?thesis using worker_moves_on[OF assms(1) 2] go worker_step_ok[OF assms(1)] by blast
    next
      case False
      then obtain t where t: "jb_post s t \<noteq> PIdle" using assms(2) by blast
      have "jb_mtx s = None" using 2 False assms(1) by (auto simp: job_inv_def mtx_ok_def)
      then show ?thesis using poster_moves_on[OF assms(1) _ t] go poster_step_ok[OF assms(1)] by blast
    qed
  qed
qed

section \<open>Property\<close>

text \<open>
  C12. Every remote job is freed exactly once, whoever gives up first: with any number of tasks
  posting jobs, waiting for them or not, timing out at any moment, and the allocator reusing
  addresses, no reachable step reads, writes or frees a job that is not allocated. A task that
  is about to return the job's result holds a completed job with that result. While anything
  is in progress some task can move, and when all are back, with the queue empty, every job
  has been freed.
\<close>

theorem jobs_freed_once:
  assumes "job_reach s"
  shows "(\<forall>a. job_step a s \<noteq> Fault) \<and>
    (\<forall>t j r. jb_post s t = PFree j r \<longrightarrow>
       (\<exists>ob. jb_heap s j = Some ob \<and> j_completed ob \<and> j_result ob = r)) \<and>
    (if jb_work s = WIdle \<and> jb_rq s = Some [] \<and> (\<forall>t. jb_post s t = PIdle) then jb_heap s = Map.empty
     else \<exists>s'. (\<exists>t ch. poster_step t ch s = Next s') \<or> (\<exists>r. worker_step r s = Next s'))"
proof -
  have inv: "job_inv s" by (rule job_reach_inv[OF assms])
  then obtain q where q: "jb_rq s = Some q" and i: "jobs_ok (jb_heap s) q (jb_post s) (jb_work s)"
    by (auto simp: job_inv_def)
  have "job_step a s \<noteq> Fault" for a using job_step_ok[OF inv, of a] by auto
  moreover have "\<exists>ob. jb_heap s j = Some ob \<and> j_completed ob \<and> j_result ob = r" if "jb_post s t = PFree j r" for t j r
    using jobs_okD(3)[OF i, of t] that by auto
  moreover have "jb_heap s j = None" if "jb_work s = WIdle" "jb_rq s = Some []" "\<forall>t. jb_post s t = PIdle" for j
    using jobs_okD(6)[OF i, of j] that q by (cases "jb_heap s j") (simp_all add: ptrs_def)
  ultimately show ?thesis using jobs_not_stuck[OF inv] by auto
qed

text \<open>
  The race the mutex is for: a task gives up waiting while the worker is about to complete its
  job, and takes the mutex after the worker.
\<close>

definition demo_job :: rjob where
  "demo_job = \<lparr>jtype = RJOB_READ, jdrive = 0, jtrack = 1, jlen = 128, wdata = [], bclose = None\<rparr>"

definition demo_race :: "job_act list" where
  "demo_race = [JBegin 0 True (Some 7) demo_job, JPost 0 False, JPost 0 False, JWork ESP_OK, JWork ESP_FAIL, JPost 0 True,
     JWork ESP_OK, JWork ESP_OK, JWork ESP_OK, JPost 0 True, JPost 0 True]"

theorem jobs_freed_once_witness:
  "\<exists>s. job_run demo_race job_boot = Next s \<and> jb_post s 0 = PFree 7 ESP_FAIL \<and>
     (\<exists>ob. jb_heap s 7 = Some ob \<and> j_completed ob \<and> j_result ob = ESP_FAIL) \<and> job_step (JPost 0 False) s \<noteq> Fault"
proof -
  obtain s where s: "job_run demo_race job_boot = Next s" "jb_post s 0 = PFree 7 ESP_FAIL"
    by (simp add: demo_race_def job_boot_def job_begin_def poster_step_def worker_step_def job_send_def job_free_def
        with_job_def put_job_def poster_at_def poster_ret_def job_calloc_def Let_def)
  have "job_reach s" using job_run_reach[OF job_reach.boot s(1)] .
  from jobs_freed_once[OF this] show ?thesis using s by blast
qed

end
