(* ===== verification/FdcEngine.thy ===== *)
theory FdcEngine
  imports DiskStoreProps
begin

text \<open>
  The FDC+ serial engine (\<^verbatim>\<open>src/fdc/fdc.c\<close>): the fdc task's state, its two transports
  (the UART and, when a client is attached, a TCP socket), the STAT, READ and WRIT
  handlers over the disk store, the loopback test, and one iteration of the task's loop.

  What arrives on a transport is a script of events; what is sent is a byte list. The
  driver calls that block are deterministic in the script: bytes that arrive, a pause, the
  call's deadline, an error or end of stream.
\<close>

section \<open>State\<close>

datatype rx_ev = RxBytes bytes | RxWait | RxDeadline | RxFail

datatype uart_ev = UART_FIFO_OVF | UART_BUFFER_FULL | UART_FRAME_ERR | UART_PARITY_ERR | UART_OTHER_EV

datatype fdc_transport = FDC_XPORT_UART | FDC_XPORT_TCP

datatype fdc_tcp_state = FDC_TCP_OFF | FDC_TCP_LISTENING | FDC_TCP_CONNECTED

record fdc_stats =
  n_stat :: u32
  n_read :: u32
  n_writ :: u32
  n_not_ready :: u32
  n_cmd_csum :: u32
  n_data_csum :: u32
  n_cmd_timeout :: u32
  n_data_timeout :: u32
  n_fifo_ovf :: u32
  n_frame_err :: u32
  n_unknown :: u32
  n_tcp_connects :: u32
  n_tcp_disconnects :: u32
  n_tcp_refused :: u32
  last_op :: string
  transport :: fdc_transport
  tcp_state :: fdc_tcp_state
  tcp_port :: u16
  tcp_peer :: string

record fdc_loopback_t =
  lb_ran :: bool
  lb_sent :: u32
  lb_received :: u32
  lb_mismatches :: u32
  lb_first_bad :: u32

text \<open>
  The module's variables. \<open>uart_in\<close>, \<open>tcp_in\<close> and \<open>uart_evts\<close> are what the drivers will
  deliver, \<open>tcp_tx\<close> the results of the next \<^verbatim>\<open>send\<close> calls, \<open>uart_out\<close> and \<open>tcp_out\<close> what was
  sent, \<open>fds_closed\<close> the sockets closed; \<open>led_status\<close>, \<open>led_drive\<close> and the two timer flags are
  the LEDs. The disk module's state is part of it.
\<close>

record fdc_state =
  s_cmd :: bytes
  s_resp :: bytes
  s_data :: bytes
  s_stats :: fdc_stats
  s_baud :: u32
  s_pending_baud :: u32
  s_lb_req :: bool
  s_lb_done :: bool
  s_lb_result :: fdc_loopback_t
  s_tcp_pending :: int
  s_tcp_active :: bool
  s_tcp_kick :: bool
  s_tcp_pending_peer :: string
  s_tcp_fd :: int
  s_tcp_dead :: bool
  led_status :: bool
  led_drive :: "bool list"
  led_timer :: bool
  drive_led_timer :: bool
  uart_in :: "rx_ev list"
  uart_evts :: "uart_ev list"
  uart_out :: bytes
  tcp_in :: "rx_ev list"
  tcp_tx :: "nat list"
  tcp_out :: bytes
  fds_closed :: "int list"
  dsk :: disk_state

section \<open>LEDs\<close>

definition led_timer_cb :: "fdc_state \<Rightarrow> fdc_state" where
  "led_timer_cb st = st\<lparr>led_status := False, led_timer := False\<rparr>"

definition led_status_blip :: "fdc_state \<Rightarrow> fdc_state" where
  "led_status_blip st = st\<lparr>led_status := True, led_timer := True\<rparr>"

definition led_drive_select :: "nat \<Rightarrow> fdc_state \<Rightarrow> fdc_state" where
  "led_drive_select drive st = st\<lparr>led_drive := map (\<lambda>i. i = drive) [0..<4]\<rparr>"

definition led_drive_clear :: "fdc_state \<Rightarrow> fdc_state" where
  "led_drive_clear st = st\<lparr>led_drive := replicate 4 False\<rparr>"

definition drive_led_timer_cb :: "fdc_state \<Rightarrow> fdc_state" where
  "drive_led_timer_cb st = led_drive_clear (st\<lparr>drive_led_timer := False\<rparr>)"

definition led_drive_activity :: "fdc_state \<Rightarrow> fdc_state" where
  "led_drive_activity st = st\<lparr>drive_led_timer := True\<rparr>"

section \<open>Statistics\<close>

definition upd_stats :: "(fdc_stats \<Rightarrow> fdc_stats) \<Rightarrow> fdc_state \<Rightarrow> fdc_state" where
  "upd_stats f st = st\<lparr>s_stats := f (s_stats st)\<rparr>"

text \<open>\<^verbatim>\<open>vsnprintf\<close> into the 40-byte \<open>last_op\<close>, of a text already formatted.\<close>

definition set_last_op :: "string \<Rightarrow> fdc_state \<Rightarrow> fdc_state" where
  "set_last_op txt st = upd_stats (\<lambda>s. s\<lparr>last_op := take 39 txt\<rparr>) st"

definition dec :: "nat \<Rightarrow> string" where
  "dec n = decimal n"

definition hexdigit :: "nat \<Rightarrow> char" where
  "hexdigit k = (if k < 10 then char_of (48 + k) else char_of (87 + k))"

text \<open>\<^verbatim>\<open>%04x\<close> of a 16-bit word.\<close>

definition hex4 :: "u16 \<Rightarrow> string" where
  "hex4 w = map (\<lambda>i. hexdigit (unat w div 16 ^ i mod 16)) [3, 2, 1, 0]"

definition op_text :: "string \<Rightarrow> nat \<Rightarrow> u16 \<Rightarrow> u16 \<Rightarrow> string \<Rightarrow> string" where
  "op_text op drive track len res =
     op @ '' d'' @ dec drive @ '' t'' @ dec (unat track) @ '' len'' @ dec (unat len) @ '' '' @ res"

definition fdc_get_stats :: "fdc_state \<Rightarrow> fdc_stats" where
  "fdc_get_stats st = s_stats st"

definition zero_stats :: fdc_stats where
  "zero_stats = \<lparr>n_stat = 0, n_read = 0, n_writ = 0, n_not_ready = 0, n_cmd_csum = 0, n_data_csum = 0,
     n_cmd_timeout = 0, n_data_timeout = 0, n_fifo_ovf = 0, n_frame_err = 0, n_unknown = 0,
     n_tcp_connects = 0, n_tcp_disconnects = 0, n_tcp_refused = 0, last_op = [],
     transport = FDC_XPORT_UART, tcp_state = FDC_TCP_OFF, tcp_port = 0, tcp_peer = []\<rparr>"

definition fdc_clear_stats :: "fdc_state \<Rightarrow> fdc_state" where
  "fdc_clear_stats st =
     upd_stats (\<lambda>live. zero_stats\<lparr>transport := transport live, tcp_state := tcp_state live,
                                   tcp_port := tcp_port live, tcp_peer := tcp_peer live\<rparr>) st"

section \<open>The two transports\<close>

text \<open>
  \<open>uart_recv\<close>: the bytes read (at most \<open>need\<close>) and what is left to arrive. An empty script
  is a silent line: the deadline passes.
\<close>

fun uart_recv :: "rx_ev list \<Rightarrow> nat \<Rightarrow> bytes \<times> rx_ev list" where
  "uart_recv [] need = ([], [])"
| "uart_recv (ev # evs) need =
     (if need = 0 then ([], ev # evs)
      else case ev of
             RxBytes bs \<Rightarrow>
               if length bs > need then (take need bs, RxBytes (drop need bs) # evs)
               else (case uart_recv evs (need - length bs) of (got, rest) \<Rightarrow> (bs @ got, rest))
           | RxWait \<Rightarrow> uart_recv evs need
           | RxDeadline \<Rightarrow> ([], evs)
           | RxFail \<Rightarrow> ([], evs))"

text \<open>\<open>tcp_recv\<close>: the same, and whether the client was found dead.\<close>

fun tcp_recv :: "rx_ev list \<Rightarrow> nat \<Rightarrow> bytes \<times> rx_ev list \<times> bool" where
  "tcp_recv [] need = ([], [], False)"
| "tcp_recv (ev # evs) need =
     (if need = 0 then ([], ev # evs, False)
      else case ev of
             RxBytes bs \<Rightarrow>
               if length bs > need then (take need bs, RxBytes (drop need bs) # evs, False)
               else (case tcp_recv evs (need - length bs) of (got, rest, dead) \<Rightarrow> (bs @ got, rest, dead))
           | RxWait \<Rightarrow> tcp_recv evs need
           | RxDeadline \<Rightarrow> ([], evs, False)
           | RxFail \<Rightarrow> ([], evs, True))"

text \<open>
  \<open>tcp_send\<close>: \<open>tx\<close> holds what the next \<^verbatim>\<open>send\<close> calls return (0 for an error or a stall; an
  empty script sends everything). The result: the bytes sent, the rest of the script, and
  whether the client was found dead.
\<close>

fun tcp_send :: "nat list \<Rightarrow> bytes \<Rightarrow> bytes \<times> nat list \<times> bool" where
  "tcp_send [] buf = (buf, [], False)"
| "tcp_send (r # tx) buf =
     (if buf = [] then ([], r # tx, False)
      else if r = 0 then ([], tx, True)
      else case tcp_send tx (drop r buf) of (out, tx', dead) \<Rightarrow> (take r buf @ out, tx', dead))"

fun is_bytes :: "rx_ev \<Rightarrow> bool" where
  "is_bytes (RxBytes _) = True"
| "is_bytes _ = False"

text \<open>Discarding what has already arrived; on a socket this may find the client dead.\<close>

definition uart_flush_input :: "fdc_state \<Rightarrow> fdc_state" where
  "uart_flush_input st = st\<lparr>uart_in := dropWhile is_bytes (uart_in st)\<rparr>"

definition tcp_flush_input :: "fdc_state \<Rightarrow> fdc_state" where
  "tcp_flush_input st =
     (if s_tcp_dead st then st
      else case dropWhile is_bytes (tcp_in st) of
             RxFail # evs \<Rightarrow> st\<lparr>tcp_in := evs, s_tcp_dead := True\<rparr>
           | evs \<Rightarrow> st\<lparr>tcp_in := evs\<rparr>)"

definition on_tcp :: "fdc_state \<Rightarrow> bool" where
  "on_tcp st \<longleftrightarrow> s_tcp_fd st \<ge> 0"

definition link_recv :: "nat \<Rightarrow> fdc_state \<Rightarrow> bytes \<times> fdc_state" where
  "link_recv need st =
     (if on_tcp st
      then (if s_tcp_dead st then ([], st)
            else case tcp_recv (tcp_in st) need of
                   (got, rest, dead) \<Rightarrow> (got, st\<lparr>tcp_in := rest, s_tcp_dead := dead\<rparr>))
      else case uart_recv (uart_in st) need of (got, rest) \<Rightarrow> (got, st\<lparr>uart_in := rest\<rparr>))"

definition link_send :: "bytes \<Rightarrow> fdc_state \<Rightarrow> fdc_state" where
  "link_send buf st =
     (if on_tcp st
      then (if s_tcp_dead st then st
            else case tcp_send (tcp_tx st) buf of
                   (out, tx, dead) \<Rightarrow> st\<lparr>tcp_out := tcp_out st @ out, tcp_tx := tx, s_tcp_dead := dead\<rparr>)
      else st\<lparr>uart_out := uart_out st @ buf\<rparr>)"

definition link_flush_input :: "fdc_state \<Rightarrow> fdc_state" where
  "link_flush_input st = (if on_tcp st then tcp_flush_input st else uart_flush_input st)"

section \<open>Command handlers\<close>

definition build_resp :: "string \<Rightarrow> u16 \<Rightarrow> u16 \<Rightarrow> fdc_state \<Rightarrow> fdc_state" where
  "build_resp cmd word1 word2 st =
     st\<lparr>s_resp := fdc_block_finalize
           (fdc_write_le16 (fdc_write_le16 (memcpy0 (ascii cmd) (s_resp st)) FDC_OFF_WORD1 word1)
              FDC_OFF_WORD2 word2)\<rparr>"

definition handle_stat :: "fdc_state \<Rightarrow> fdc_state" where
  "handle_stat st =
     (let word1 = fdc_read_le16 (s_cmd st) FDC_OFF_WORD1;
          sel = unat (word1 AND 0xFF);
          head = unat (drop_bit 8 word1);
          st = (if head \<noteq> 0 \<and> sel < 4 then led_drive_select sel st else led_drive_clear st);
          bitmap = disk_status_bitmap (dsk st);
          st = build_resp ''STAT'' (resp_code FDC_RESP_OK) bitmap st;
          st = link_send (s_resp st) st;
          st = upd_stats (\<lambda>s. s\<lparr>n_stat := n_stat s + 1\<rparr>) st
      in set_last_op (''STAT sel='' @ dec sel @ '' map=0x'' @ hex4 bitmap) st)"

definition handle_read :: "disk_env \<Rightarrow> fdc_state \<Rightarrow> fdc_state" where
  "handle_read e st =
     (let word1 = fdc_read_le16 (s_cmd st) FDC_OFF_WORD1;
          len = fdc_read_le16 (s_cmd st) FDC_OFF_WORD2;
          drive = unat (fdc_word1_drive word1);
          track = fdc_word1_track word1;
          st = led_drive_select drive st
      in case disk_read_track e (int drive) (ucast track) (unat len) True (dsk st) of
           (err, w, d) \<Rightarrow>
             let st = st\<lparr>dsk := d, s_data := (case w of Some x \<Rightarrow> memcpy0 x (s_data st) | None \<Rightarrow> s_data st)\<rparr>
             in if err \<noteq> ESP_OK
                then set_last_op (op_text ''READ'' drive track len ''not-ready'')
                       (upd_stats (\<lambda>s. s\<lparr>n_not_ready := n_not_ready s + 1\<rparr>) st)
                else let payload = take (unat len) (s_data st);
                         ck = fdc_write_le16 [0, 0] 0 (fdc_checksum16 payload);
                         st = link_send ck (link_send payload st);
                         st = upd_stats (\<lambda>s. s\<lparr>n_read := n_read s + 1\<rparr>) st
                     in set_last_op (op_text ''READ'' drive track len ''ok'') st)"

text \<open>The end of a WRIT whose data did not arrive.\<close>

definition writ_timeout :: "nat \<Rightarrow> u16 \<Rightarrow> u16 \<Rightarrow> string \<Rightarrow> fdc_state \<Rightarrow> fdc_state" where
  "writ_timeout drive track len res st =
     set_last_op (op_text ''WRIT'' drive track len res)
       (upd_stats (\<lambda>s. s\<lparr>n_data_timeout := n_data_timeout s + 1\<rparr>) (link_flush_input st))"

text \<open>The final code of a WRIT whose data and checksum \<open>ck\<close> arrived.\<close>

definition writ_commit :: "disk_env \<Rightarrow> nat \<Rightarrow> u16 \<Rightarrow> u16 \<Rightarrow> bytes \<Rightarrow> fdc_state \<Rightarrow> fdc_resp \<times> fdc_state" where
  "writ_commit e drive track len ck st =
     (if fdc_read_le16 ck 0 \<noteq> fdc_checksum16 (take (unat len) (s_data st))
      then (FDC_RESP_CSUM_ERR,
            set_last_op (op_text ''WRIT'' drive track len ''csum-err'')
              (upd_stats (\<lambda>s. s\<lparr>n_data_csum := n_data_csum s + 1\<rparr>) st))
      else case disk_write_track e (int drive) (ucast track) (unat len) (Some (s_data st)) (dsk st) of
             (err, d) \<Rightarrow>
               let st = st\<lparr>dsk := d\<rparr>
               in if err \<noteq> ESP_OK
                  then (FDC_RESP_WRITE_ERR,
                        set_last_op (op_text ''WRIT'' drive track len ''write-err'')
                          (upd_stats (\<lambda>s. s\<lparr>n_not_ready := n_not_ready s + 1\<rparr>) st))
                  else (FDC_RESP_OK,
                        set_last_op (op_text ''WRIT'' drive track len ''ok'')
                          (upd_stats (\<lambda>s. s\<lparr>n_writ := n_writ s + 1\<rparr>) st)))"

definition handle_writ :: "disk_env \<Rightarrow> fdc_state \<Rightarrow> fdc_state" where
  "handle_writ e st =
     (let word1 = fdc_read_le16 (s_cmd st) FDC_OFF_WORD1;
          len = fdc_read_le16 (s_cmd st) FDC_OFF_WORD2;
          drive = unat (fdc_word1_drive word1);
          track = fdc_word1_track word1;
          st = led_drive_select drive st;
          ready = (unat len > 0 \<and> unat len \<le> 8192 \<and> disk_is_mounted (int drive) (dsk st) \<and>
                   \<not> disk_is_readonly (int drive) (dsk st));
          st = build_resp ''WRIT'' (resp_code (if ready then FDC_RESP_OK else FDC_RESP_NOT_READY)) 0 st;
          st = link_send (s_resp st) st
      in if \<not> ready
         then set_last_op (op_text ''WRIT'' drive track len ''not-ready'')
                (upd_stats (\<lambda>s. s\<lparr>n_not_ready := n_not_ready s + 1\<rparr>) st)
         else case link_recv (unat len) st of
                (got, st) \<Rightarrow>
                  let st = st\<lparr>s_data := memcpy0 got (s_data st)\<rparr>
                  in if length got \<noteq> unat len then writ_timeout drive track len ''data-timeout'' st
                     else case link_recv 2 st of
                            (ck, st) \<Rightarrow>
                              if length ck \<noteq> 2 then writ_timeout drive track len ''csum-timeout'' st
                              else case writ_commit e drive track len ck st of
                                     (code, st) \<Rightarrow>
                                       let st = build_resp ''WSTA'' (resp_code code) 0 st
                                       in link_send (s_resp st) st)"

definition dispatch :: "disk_env \<Rightarrow> fdc_state \<Rightarrow> fdc_state" where
  "dispatch e st =
     (let st = led_drive_activity (led_status_blip st); op = take FDC_CMD_LEN (s_cmd st)
      in if op = ascii ''STAT'' then handle_stat st
         else if op = ascii ''READ'' then handle_read e st
         else if op = ascii ''WRIT'' then handle_writ e st
         else set_last_op (''unknown '' @ [CHR 0x27] @ takeWhile (\<lambda>c. c \<noteq> CHR 0x00) (chars op) @ [CHR 0x27])
                (upd_stats (\<lambda>s. s\<lparr>n_unknown := n_unknown s + 1\<rparr>) st))"

section \<open>Loopback self-test\<close>

text \<open>
  The comparison loop from index \<open>i\<close>: how many of the 256 positions are missing or differ,
  and the first of them.
\<close>

function lb_scan :: "bytes \<Rightarrow> bytes \<Rightarrow> nat \<Rightarrow> nat \<Rightarrow> nat \<Rightarrow> nat \<times> nat" where
  "lb_scan tx rx i mism first_bad =
     (if i \<ge> 256 then (mism, first_bad)
      else if i \<ge> length rx \<or> rx ! i \<noteq> tx ! i
      then lb_scan tx rx (Suc i) (mism + 1) (if first_bad = 256 then i else first_bad)
      else lb_scan tx rx (Suc i) mism first_bad)"
  by pat_completeness auto
termination
  by (relation "measure (\<lambda>(_, _, i, _, _). 256 - i)") auto

declare lb_scan.simps [simp del]

text \<open>\<open>echo\<close> is what comes back on the RX line for what was sent.\<close>

definition run_loopback :: "(bytes \<Rightarrow> rx_ev list) \<Rightarrow> fdc_state \<Rightarrow> fdc_state" where
  "run_loopback echo st =
     (let tx = map of_nat [0..<256];
          st = uart_flush_input st;
          st = st\<lparr>uart_out := uart_out st @ tx, uart_in := echo tx @ uart_in st\<rparr>
      in case uart_recv (uart_in st) 256 of
           (rx, rest) \<Rightarrow>
             case lb_scan tx rx 0 0 256 of
               (mism, first_bad) \<Rightarrow>
                 st\<lparr>uart_in := rest,
                    s_lb_result := \<lparr>lb_ran = True, lb_sent = 256, lb_received = of_nat (length rx),
                                    lb_mismatches = of_nat mism, lb_first_bad = of_nat first_bad\<rparr>\<rparr>)"

section \<open>The task's loop\<close>

text \<open>\<open>baud_ok\<close> is whether \<^verbatim>\<open>uart_set_baudrate\<close> accepts the rate.\<close>

definition apply_pending_baud :: "(u32 \<Rightarrow> bool) \<Rightarrow> fdc_state \<Rightarrow> fdc_state" where
  "apply_pending_baud baud_ok st =
     (let pb = s_pending_baud st
      in if pb \<noteq> 0
         then let st = st\<lparr>s_pending_baud := 0\<rparr>
              in if baud_ok pb then uart_flush_input (st\<lparr>s_baud := pb\<rparr>) else st
         else st)"

definition uart_event :: "uart_ev \<Rightarrow> fdc_state \<Rightarrow> fdc_state" where
  "uart_event ev st =
     (case ev of
        UART_FIFO_OVF \<Rightarrow> upd_stats (\<lambda>s. s\<lparr>n_fifo_ovf := n_fifo_ovf s + 1\<rparr>) (uart_flush_input st)
      | UART_BUFFER_FULL \<Rightarrow> upd_stats (\<lambda>s. s\<lparr>n_fifo_ovf := n_fifo_ovf s + 1\<rparr>) (uart_flush_input st)
      | UART_FRAME_ERR \<Rightarrow> upd_stats (\<lambda>s. s\<lparr>n_frame_err := n_frame_err s + 1\<rparr>) st
      | UART_PARITY_ERR \<Rightarrow> upd_stats (\<lambda>s. s\<lparr>n_frame_err := n_frame_err s + 1\<rparr>) st
      | UART_OTHER_EV \<Rightarrow> st)"

definition drain_uart_events :: "fdc_state \<Rightarrow> fdc_state" where
  "drain_uart_events st = (fold uart_event (uart_evts st) st)\<lparr>uart_evts := []\<rparr>"

text \<open>The result of the attach: accepted or not. A NULL peer is \<open>None\<close>.\<close>

definition fdc_tcp_attach :: "int \<Rightarrow> string option \<Rightarrow> fdc_state \<Rightarrow> bool \<times> fdc_state" where
  "fdc_tcp_attach fd peer st =
     (if \<not> s_tcp_active st \<and> s_tcp_pending st < 0
      then (True, st\<lparr>s_tcp_pending_peer := strlcpy (case peer of Some p \<Rightarrow> p | None \<Rightarrow> []) 24,
                     s_tcp_pending := fd, s_tcp_active := True\<rparr>)
      else (False, upd_stats (\<lambda>s. s\<lparr>n_tcp_refused := n_tcp_refused s + 1\<rparr>) st))"

definition fdc_tcp_busy :: "fdc_state \<Rightarrow> bool" where
  "fdc_tcp_busy st = s_tcp_active st"

definition fdc_tcp_detach :: "fdc_state \<Rightarrow> fdc_state" where
  "fdc_tcp_detach st = (if s_tcp_active st then st\<lparr>s_tcp_kick := True\<rparr> else st)"

definition fdc_tcp_set_state :: "fdc_tcp_state \<Rightarrow> u16 \<Rightarrow> fdc_state \<Rightarrow> fdc_state" where
  "fdc_tcp_set_state s port st = upd_stats (\<lambda>x. x\<lparr>tcp_state := s, tcp_port := port\<rparr>) st"

definition tcp_drop :: "fdc_state \<Rightarrow> fdc_state" where
  "tcp_drop st =
     (let st = st\<lparr>fds_closed := s_tcp_fd st # fds_closed st, s_tcp_fd := -1, s_tcp_dead := False, s_tcp_kick := False\<rparr>;
          st = upd_stats (\<lambda>s. s\<lparr>n_tcp_disconnects := n_tcp_disconnects s + 1, transport := FDC_XPORT_UART,
                               tcp_peer := [],
                               tcp_state := (if tcp_state s = FDC_TCP_CONNECTED then FDC_TCP_LISTENING
                                             else tcp_state s)\<rparr>) st
      in (led_drive_clear st)\<lparr>s_tcp_active := False\<rparr>)"

text \<open>\<open>inp\<close> is what will arrive on the socket a pending client brings.\<close>

definition tcp_service :: "rx_ev list \<Rightarrow> fdc_state \<Rightarrow> fdc_state" where
  "tcp_service inp st =
     (let st = (if on_tcp st \<and> (s_tcp_dead st \<or> s_tcp_kick st) then tcp_drop st else st)
      in if \<not> on_tcp st \<and> s_tcp_pending st \<ge> 0
         then upd_stats (\<lambda>s. s\<lparr>n_tcp_connects := n_tcp_connects s + 1, transport := FDC_XPORT_TCP,
                              tcp_state := FDC_TCP_CONNECTED, tcp_peer := s_tcp_pending_peer st\<rparr>)
                (st\<lparr>s_tcp_fd := s_tcp_pending st, s_tcp_pending := -1, s_tcp_dead := False,
                    s_tcp_kick := False, tcp_in := inp\<rparr>)
         else st)"

text \<open>
  What an iteration takes from outside: the disk's environment, the baud rates the driver
  accepts, the loopback line and the input of a newly adopted client.
\<close>

record fdc_env =
  f_disk :: disk_env
  f_baud :: "u32 \<Rightarrow> bool"
  f_echo :: "bytes \<Rightarrow> rx_ev list"
  f_tcp_in :: "rx_ev list"

text \<open>The wait for a command block and its dispatch, the second half of the loop's body.\<close>

definition fdc_serve :: "disk_env \<Rightarrow> fdc_state \<Rightarrow> fdc_state" where
  "fdc_serve e st =
     (let st = (if on_tcp st then uart_flush_input st else st)
      in case link_recv 1 st of
           (b0, st) \<Rightarrow>
             let st = st\<lparr>s_cmd := memcpy0 b0 (s_cmd st)\<rparr>
             in if length b0 \<noteq> 1 then st
                else case link_recv (FDC_BLOCK_LEN - 1) st of
                       (bs, st) \<Rightarrow>
                         let st = st\<lparr>s_cmd := memcpy0 (b0 @ bs) (s_cmd st)\<rparr>
                         in if length bs \<noteq> FDC_BLOCK_LEN - 1
                            then upd_stats (\<lambda>s. s\<lparr>n_cmd_timeout := n_cmd_timeout s + 1\<rparr>) (link_flush_input st)
                            else if \<not> fdc_block_valid (s_cmd st)
                            then upd_stats (\<lambda>s. s\<lparr>n_cmd_csum := n_cmd_csum s + 1\<rparr>) st
                            else dispatch e st)"

text \<open>One iteration of \<open>fdc_task\<close>.\<close>

definition fdc_task_iter :: "fdc_env \<Rightarrow> fdc_state \<Rightarrow> fdc_state" where
  "fdc_task_iter f st =
     (let st = tcp_service (f_tcp_in f) (drain_uart_events (apply_pending_baud (f_baud f) st))
      in if s_lb_req st
         then (run_loopback (f_echo f) st)\<lparr>s_lb_req := False, s_lb_done := True\<rparr>
         else fdc_serve (f_disk f) st)"

definition fdc_set_baud :: "u32 \<Rightarrow> fdc_state \<Rightarrow> esp_err \<times> fdc_state" where
  "fdc_set_baud baud st = (ESP_OK, st\<lparr>s_pending_baud := baud\<rparr>)"

definition fdc_baud :: "fdc_state \<Rightarrow> u32" where
  "fdc_baud st = s_baud st"

text \<open>
  \<open>fdc_loopback\<close>: \<open>task\<close> says the engine runs, \<open>out\<close> that the caller's pointer is not NULL;
  \<open>run\<close> is what the task does until it signals or 3 s pass. The take of \<open>s_lb_done\<close> returns
  at once when the semaphore is already given.
\<close>

definition fdc_loopback :: "bool \<Rightarrow> bool \<Rightarrow> (fdc_state \<Rightarrow> fdc_state) \<Rightarrow> fdc_state \<Rightarrow> esp_err \<times> fdc_loopback_t option \<times> fdc_state" where
  "fdc_loopback task out run st =
     (if \<not> task \<or> \<not> out then (ESP_ERR_INVALID_STATE, None, st)
      else let st = st\<lparr>s_lb_req := True\<rparr>;
               st = (if s_lb_done st then st else run st)
           in if s_lb_done st
              then (ESP_OK, Some (s_lb_result st), st\<lparr>s_lb_done := False\<rparr>)
              else (ESP_ERR_TIMEOUT, None, st\<lparr>s_lb_req := False\<rparr>))"

text \<open>\<open>sems\<close> and \<open>task\<close> say whether the semaphores and the task could be created.\<close>

definition fdc_init :: "u32 \<Rightarrow> bool \<Rightarrow> bool \<Rightarrow> fdc_state \<Rightarrow> esp_err \<times> fdc_state" where
  "fdc_init cfg_baud sems task st =
     (let st = st\<lparr>s_baud := cfg_baud\<rparr>
      in if \<not> sems then (ESP_ERR_NO_MEM, st)
         else if \<not> task then (ESP_ERR_NO_MEM, st)
         else (ESP_OK, st))"

end
