(* ===== verification/FdcProps.thy ===== *)
theory FdcProps
  imports FdcEngine
begin

text \<open>
  What the FDC engine promises its host: the exact reply to STAT, READ and WRIT on every
  branch, that a corrupted command is ignored, that each transaction is counted once, and
  that the TCP hand-off serves one client at a time. The disk store is reached through the
  locale \<open>track_store\<close>, interpreted on the store's own operations.
\<close>

section \<open>The track store, as the engine uses it\<close>

text \<open>
  \<open>inv\<close> is the store's invariant, \<open>direct d\<close> that a write to drive \<open>d\<close> is made by the caller
  itself, and \<open>track s d t n\<close> the track now in the image, if the drive is mounted and the
  track lies in the image.
\<close>

locale track_store =
  fixes inv :: "'s \<Rightarrow> bool"
    and direct :: "'s \<Rightarrow> int \<Rightarrow> bool"
    and track :: "'s \<Rightarrow> int \<Rightarrow> u32 \<Rightarrow> nat \<Rightarrow> bytes option"
    and rd :: "int \<Rightarrow> u32 \<Rightarrow> nat \<Rightarrow> 's \<Rightarrow> esp_err \<times> bytes option \<times> 's"
    and wr :: "int \<Rightarrow> u32 \<Rightarrow> nat \<Rightarrow> bytes \<Rightarrow> 's \<Rightarrow> esp_err \<times> 's"
  assumes rd_ok: "inv s \<Longrightarrow> rd d t n s = (ESP_OK, w, s') \<Longrightarrow>
      inv s' \<and> (\<exists>x. w = Some x \<and> length x = n \<and> 0 < n \<and> n \<le> 8192 \<and> track s' d t n = Some x)"
    and rd_inv: "inv s \<Longrightarrow> rd d t n s = (err, w, s') \<Longrightarrow> inv s'"
    and rd_fail: "inv s \<Longrightarrow> rd d t n s = (err, w, s') \<Longrightarrow> err \<noteq> ESP_OK \<Longrightarrow> w = None"
    and wr_inv: "inv s \<Longrightarrow> direct s d \<Longrightarrow> n \<le> length x \<Longrightarrow> wr d t n x s = (err, s') \<Longrightarrow> inv s'"
    and wr_ok: "inv s \<Longrightarrow> direct s d \<Longrightarrow> n \<le> length x \<Longrightarrow> wr d t n x s = (ESP_OK, s') \<Longrightarrow>
      track s' d t n = Some (take n x)"
    and wr_frame: "inv s \<Longrightarrow> direct s d \<Longrightarrow> n \<le> length x \<Longrightarrow> wr d t n x s = (err, s') \<Longrightarrow>
      d2 \<noteq> d \<Longrightarrow> track s' d2 t2 n2 = track s d2 t2 n2"
begin

text \<open>A reply made of a read: the payload and its checksum, which the host recomputes.\<close>

lemma reply_payload:
  assumes "inv s" "rd d t n s = (ESP_OK, w, s')"
  shows "\<exists>x. w = Some x \<and> track s' d t n = Some x \<and>
    (\<forall>buf. n \<le> length buf \<longrightarrow> take n (memcpy0 x buf) = x)"
proof -
  obtain x where x: "w = Some x" "length x = n" "track s' d t n = Some x" using rd_ok[OF assms] by blast
  have "take n (memcpy0 x buf) = x" for buf using take_memcpy0[of x buf] x(2) by simp
  with x show ?thesis by blast
qed

lemma write_read:
  assumes "inv s" "direct s d" "n \<le> length x" "wr d t n x s = (ESP_OK, s')" "rd d t n s' = (ESP_OK, w, s'')"
    "track s'' d t n = track s' d t n"
  shows "w = Some (take n x)"
  using rd_ok[OF wr_inv[OF assms(1-4)] assms(5)] wr_ok[OF assms(1-4)] assms(6) by auto

end

text \<open>The disk store is one.\<close>

definition store_track :: "disk_state \<Rightarrow> int \<Rightarrow> u32 \<Rightarrow> nat \<Rightarrow> bytes option" where
  "store_track s d t n =
     (if drive_ok d \<and> mounted (drv s d)
      then (case backing_of (drv s d) of
              None \<Rightarrow> None
            | Some b \<Rightarrow> if unat t * n + n \<le> length (files s (b_obj b))
                        then Some (slice (unat t * n) n (files s (b_obj b))) else None)
      else None)"

lemma disk_read_inv:
  assumes "env_ok e" "run_ok e" "disk_inv None st" "disk_read_track e d t n True st = (err, w, st')"
  shows "disk_inv None st'"
proof (cases "remote (drv st d)")
  case False
  then show ?thesis using disk_read_local[OF assms(1,3) False assms(4)] by simp
next
  case True
  then show ?thesis
    using assms(3,4) post_wait_inv[OF assms(2,3)]
    by (auto simp: disk_read_track_def Let_def split: if_splits option.splits prod.splits)
qed

lemma disk_read_fail: "disk_read_track e d t n dst st = (err, w, st') \<Longrightarrow> err \<noteq> ESP_OK \<Longrightarrow> w = None"
  by (auto simp: disk_read_track_def Let_def split: if_splits option.splits prod.splits)

lemma store_track_written:
  assumes inv: "disk_inv None st" and b: "backing_of (drv st d) = Some b" "mounted (drv st d)" "drive_ok d"
    "0 < n" "n \<le> 8192" "disk_track_in_bounds t (of_nat n) (b_size b)"
    and w: "wrote b t n x ok st st'" "s_drv st' = s_drv st"
  shows "ok \<Longrightarrow> store_track st' d t n = Some (take n x)"
    and "d2 \<noteq> d \<Longrightarrow> store_track st' d2 t2 n2 = store_track st d2 t2 n2"
proof -
  note s = disk_inv_slotD[OF inv b(3,2,1)]
  have "unat t * n + n \<le> length (files st' (b_obj b))"
    using track_region(2)[OF b(6,5)] s(1) w(1) by (simp add: wrote_def)
  then show "ok \<Longrightarrow> store_track st' d t n = Some (take n x)"
    using b w by (simp add: store_track_def wrote_def track_data_def)
  assume d2: "d2 \<noteq> d"
  show "store_track st' d2 t2 n2 = store_track st d2 t2 n2"
  proof (cases "drive_ok d2 \<and> (\<exists>b2. backing_of (drv st d2) = Some b2)")
    case True
    then obtain b2 where b2: "backing_of (drv st d2) = Some b2" by blast
    have "b_obj b2 \<noteq> b_obj b"
      using disk_inv_apart(1)[OF inv b(3,1) _ d2 b2] True by blast
    then have "files st' (b_obj b2) = files st (b_obj b2)" using w(1) by (simp add: wrote_def)
    then show ?thesis using b2 w(2) by (simp add: store_track_def)
  next
    case False
    then show ?thesis using w(2) by (auto simp: store_track_def split: option.split)
  qed
qed

interpretation sds: track_store
  "\<lambda>st. env_ok e \<and> run_ok e \<and> disk_inv None st"
  "\<lambda>st d. \<not> remote (drv st d)"
  store_track
  "\<lambda>d t n st. disk_read_track e d t n True st"
  "\<lambda>d t n x st. disk_write_track e d t n (Some x) st"
proof unfold_locales
  fix s s' :: disk_state and d d2 :: int and t t2 :: u32 and n n2 :: nat and w x err
  assume i: "env_ok e \<and> run_ok e \<and> disk_inv None s"
  {
    assume r: "disk_read_track e d t n True s = (ESP_OK, w, s')"
    show "(env_ok e \<and> run_ok e \<and> disk_inv None s') \<and>
        (\<exists>x. w = Some x \<and> length x = n \<and> 0 < n \<and> n \<le> 8192 \<and> store_track s' d t n = Some x)"
      using read_track_exact[of e s d t n True w s'] i r by (auto simp: store_track_def)
  next
    assume r: "disk_read_track e d t n True s = (err, w, s')"
    show "env_ok e \<and> run_ok e \<and> disk_inv None s'" using disk_read_inv[of e s] i r by blast
    show "err \<noteq> ESP_OK \<Longrightarrow> w = None" by (rule disk_read_fail[OF r])
  next
    assume dir: "\<not> remote (drv s d)" and l: "n \<le> length x"
      and r: "disk_write_track e d t n (Some x) s = (err, s')"
    have e: "env_ok e" "disk_inv None s" using i by simp_all
    note w = disk_write_local[OF e dir r, simplified, OF l]
    show "env_ok e \<and> run_ok e \<and> disk_inv None s'" using w i by simp
    show "store_track s' d2 t2 n2 = store_track s d2 t2 n2" if d2: "d2 \<noteq> d"
    proof (cases "files s' = files s")
      case True
      then show ?thesis using w by (simp add: store_track_def split: option.split)
    next
      case False
      then show ?thesis using w store_track_written(2)[OF e(2) _ _ _ _ _ _ _ _ d2] by blast
    qed
  next
    assume dir: "\<not> remote (drv s d)" and l: "n \<le> length x"
      and r: "disk_write_track e d t n (Some x) s = (ESP_OK, s')"
    have e: "env_ok e" "disk_inv None s" using i by simp_all
    show "store_track s' d t n = Some (take n x)"
      using disk_write_local[OF e dir r, simplified, OF l] store_track_written(1)[OF e(2)] by blast
  }
qed

section \<open>Response blocks\<close>

definition le16 :: "u16 \<Rightarrow> bytes" where
  "le16 v = fdc_write_le16 [0, 0] 0 v"

text \<open>The 10-byte block with a mnemonic and two words.\<close>

definition fdc_block :: "string \<Rightarrow> u16 \<Rightarrow> u16 \<Rightarrow> bytes" where
  "fdc_block cmd w1 w2 =
     ascii cmd @ le16 w1 @ le16 w2 @ le16 (fdc_checksum16 (ascii cmd @ le16 w1 @ le16 w2))"

lemma le16_eq: "le16 v = [ucast v, ucast (drop_bit 8 v)]"
  by (simp add: le16_def fdc_write_le16_def)

lemma length_le16 [simp]: "length (le16 v) = 2"
  by (simp add: le16_eq)

lemma read_le16_le16: "fdc_read_le16 (le16 v) 0 = v"
  by (simp add: le16_def read_write_le16)

lemma length_fdc_block [simp]: "length cmd = 4 \<Longrightarrow> length (fdc_block cmd w1 w2) = 10"
  by (simp add: fdc_block_def)

lemma resp_built:
  assumes "length (s_resp st) = 10" "length cmd = 4"
  shows "s_resp (build_resp cmd w1 w2 st) = fdc_block cmd w1 w2"
proof -
  obtain a b c d where cmd: "cmd = [a, b, c, d]"
    using assms(2) by (auto simp: numeral_eq_Suc length_Suc_conv)
  obtain r0 r1 r2 r3 r4 r5 r6 r7 r8 r9 where r: "s_resp st = [r0, r1, r2, r3, r4, r5, r6, r7, r8, r9]"
    using assms(1) by (auto simp: numeral_eq_Suc length_Suc_conv)
  show ?thesis
    by (simp add: build_resp_def fdc_block_def cmd r memcpy0_def le16_eq fdc_write_le16_def
        fdc_block_finalize_def ascii_def)
qed

lemma fdc_block_fields:
  assumes "length cmd = 4"
  shows "fdc_block_valid (fdc_block cmd w1 w2)" "take 4 (fdc_block cmd w1 w2) = ascii cmd"
    "fdc_read_le16 (fdc_block cmd w1 w2) 4 = w1" "fdc_read_le16 (fdc_block cmd w1 w2) 6 = w2"
proof -
  obtain a b c d where cmd: "cmd = [a, b, c, d]"
    using assms by (auto simp: numeral_eq_Suc length_Suc_conv)
  note r = read_le16_le16[unfolded le16_eq fdc_read_le16_def, simplified]
  show "fdc_block_valid (fdc_block cmd w1 w2)" "take 4 (fdc_block cmd w1 w2) = ascii cmd"
    "fdc_read_le16 (fdc_block cmd w1 w2) 4 = w1" "fdc_read_le16 (fdc_block cmd w1 w2) 6 = w2"
    by (simp_all add: fdc_block_def cmd ascii_def le16_eq fdc_block_valid_def fdc_read_le16_def r)
qed

section \<open>The link\<close>

text \<open>What has been sent on, and what is still to come from, the transport in use.\<close>

definition sent :: "fdc_state \<Rightarrow> bytes" where
  "sent st = (if on_tcp st then tcp_out st else uart_out st)"

fun rx_bytes :: "rx_ev list \<Rightarrow> bytes" where
  "rx_bytes [] = []"
| "rx_bytes (RxBytes bs # evs) = bs @ rx_bytes evs"
| "rx_bytes (_ # evs) = rx_bytes evs"

definition input :: "fdc_state \<Rightarrow> bytes" where
  "input st = rx_bytes (if on_tcp st then tcp_in st else uart_in st)"

definition link_lost :: "fdc_state \<Rightarrow> bool" where
  "link_lost st \<longleftrightarrow> on_tcp st \<and> s_tcp_dead st"

text \<open>
  \<open>delivered st st' buf\<close>: between the two states exactly \<open>buf\<close> was sent on the transport,
  or a part of its beginning and the TCP client was found dead.
\<close>

definition delivered :: "fdc_state \<Rightarrow> fdc_state \<Rightarrow> bytes \<Rightarrow> bool" where
  "delivered st st' buf \<longleftrightarrow> on_tcp st' = on_tcp st \<and>
     (\<exists>k. sent st' = sent st @ take k buf \<and> (\<not> link_lost st' \<longrightarrow> length buf \<le> k))"

text \<open>What the link operations leave alone.\<close>

definition same_engine :: "fdc_state \<Rightarrow> fdc_state \<Rightarrow> bool" where
  "same_engine st st' \<longleftrightarrow> s_cmd st' = s_cmd st \<and> s_resp st' = s_resp st \<and> s_data st' = s_data st \<and>
     s_stats st' = s_stats st \<and> s_tcp_fd st' = s_tcp_fd st \<and> dsk st' = dsk st"

lemma same_engine_refl [simp]: "same_engine st st"
  by (simp add: same_engine_def)

lemma same_engine_trans: "same_engine a b \<Longrightarrow> same_engine b c \<Longrightarrow> same_engine a c"
  by (simp add: same_engine_def)

lemma tcp_send_prefix:
  "tcp_send tx buf = (out, tx', dead) \<Longrightarrow> \<exists>k. out = take k buf \<and> (\<not> dead \<longrightarrow> length buf \<le> k)"
proof (induction tx buf arbitrary: out tx' dead rule: tcp_send.induct)
  case (1 buf)
  then show ?case by (intro exI[of _ "length buf"]) simp
next
  case (2 r tx buf)
  show ?case
  proof (cases "buf = [] \<or> r = 0")
    case True
    then show ?thesis using 2(2) by (intro exI[of _ 0]) (auto split: if_splits)
  next
    case False
    then obtain o2 where o: "tcp_send tx (drop r buf) = (o2, tx', dead)" "out = take r buf @ o2"
      using 2(2) by (auto split: prod.splits)
    obtain k where k: "o2 = take k (drop r buf)" "\<not> dead \<longrightarrow> length (drop r buf) \<le> k"
      using 2(1)[OF _ _ o(1)] False by blast
    then show ?thesis using o(2) by (intro exI[of _ "r + k"]) (auto simp: take_add)
  qed
qed

lemma link_send_same: "same_engine st (link_send buf st)"
  by (simp add: link_send_def same_engine_def split: prod.split)

lemma link_send_delivered: "delivered st (link_send buf st) buf"
proof (cases "on_tcp st")
  case True
  show ?thesis
  proof (cases "s_tcp_dead st")
    case dead: True
    then show ?thesis using True
      by (auto simp: delivered_def link_send_def link_lost_def sent_def intro!: exI[of _ 0])
  next
    case False
    obtain o1 tx dead where t: "tcp_send (tcp_tx st) buf = (o1, tx, dead)" by (metis surj_pair)
    then show ?thesis
      using tcp_send_prefix[OF t] True False
      by (auto simp: delivered_def link_send_def link_lost_def sent_def on_tcp_def)
  qed
next
  case False
  then show ?thesis
    by (auto simp: delivered_def link_send_def sent_def on_tcp_def intro!: exI[of _ "length buf"])
qed

lemma uart_recv_split:
  "uart_recv evs n = (got, rest) \<Longrightarrow> rx_bytes evs = got @ rx_bytes rest \<and> length got \<le> n"
proof (induction evs n arbitrary: got rest rule: uart_recv.induct)
  case (2 ev evs need)
  show ?case
  proof (cases "need = 0")
    case False
    show ?thesis
    proof (cases ev)
      case (RxBytes bs)
      show ?thesis
      proof (cases "length bs > need")
        case True
        then show ?thesis using 2(3) False RxBytes by auto
      next
        case le: False
        then obtain g where g: "uart_recv evs (need - length bs) = (g, rest)" "got = bs @ g"
          using 2(3) False RxBytes by (auto split: prod.splits)
        from 2(1)[OF False RxBytes le g(1)] show ?thesis using g(2) RxBytes le by (simp, linarith)
      qed
    qed (use 2 False in auto)
  qed (use 2 in auto)
qed simp

lemma tcp_recv_split:
  "tcp_recv evs n = (got, rest, dead) \<Longrightarrow> rx_bytes evs = got @ rx_bytes rest \<and> length got \<le> n"
proof (induction evs n arbitrary: got rest dead rule: tcp_recv.induct)
  case (2 ev evs need)
  show ?case
  proof (cases "need = 0")
    case False
    show ?thesis
    proof (cases ev)
      case (RxBytes bs)
      show ?thesis
      proof (cases "length bs > need")
        case True
        then show ?thesis using 2(3) False RxBytes by auto
      next
        case le: False
        then obtain g where g: "tcp_recv evs (need - length bs) = (g, rest, dead)" "got = bs @ g"
          using 2(3) False RxBytes by (auto split: prod.splits)
        from 2(1)[OF False RxBytes le g(1)] show ?thesis using g(2) RxBytes le by (simp, linarith)
      qed
    qed (use 2 False in auto)
  qed (use 2 in auto)
qed simp

lemma link_recv_same: "link_recv n st = (got, st') \<Longrightarrow> same_engine st st' \<and> sent st' = sent st \<and> on_tcp st' = on_tcp st"
  by (auto simp: link_recv_def same_engine_def sent_def on_tcp_def split: if_splits prod.splits)

lemma link_recv_split: "link_recv n st = (got, st') \<Longrightarrow> input st = got @ input st' \<and> length got \<le> n"
  using uart_recv_split tcp_recv_split
  by (fastforce simp: link_recv_def input_def on_tcp_def split: if_splits prod.splits)

lemma link_recv_lost: "link_recv n st = (got, st') \<Longrightarrow> link_lost st \<Longrightarrow> link_lost st'"
  by (auto simp: link_recv_def link_lost_def on_tcp_def split: if_splits prod.splits)

lemma link_flush_same: "same_engine st (link_flush_input st) \<and> sent (link_flush_input st) = sent st \<and>
    on_tcp (link_flush_input st) = on_tcp st"
  by (auto simp: link_flush_input_def uart_flush_input_def tcp_flush_input_def same_engine_def sent_def on_tcp_def
      split: list.split rx_ev.split)

lemma link_flush_lost: "link_lost st \<Longrightarrow> link_lost (link_flush_input st)"
  by (auto simp: link_flush_input_def tcp_flush_input_def link_lost_def on_tcp_def)

lemma delivered_sent: "delivered st s1 a \<Longrightarrow> sent s2 = sent s1 \<Longrightarrow> on_tcp s2 = on_tcp s1 \<Longrightarrow>
    (link_lost s1 \<Longrightarrow> link_lost s2) \<Longrightarrow> delivered st s2 a"
  unfolding delivered_def by auto

lemma link_send_lost: "link_lost st \<Longrightarrow> link_send buf st = st"
  by (simp add: link_send_def link_lost_def)

lemma delivered_append:
  assumes "delivered st s1 a"
  shows "delivered st (link_send b s1) (a @ b)"
proof (cases "link_lost s1")
  case True
  then show ?thesis
    using assms unfolding delivered_def link_send_lost[OF True]
    by (metis append_take_drop_id take_append append_Nil2 diff_is_0_eq' take0 le_refl nle_le take_all)
next
  case False
  obtain k where k: "sent s1 = sent st @ take k a" "length a \<le> k" "on_tcp s1 = on_tcp st"
    using assms False unfolding delivered_def by blast
  obtain m where m: "sent (link_send b s1) = sent s1 @ take m b" "\<not> link_lost (link_send b s1) \<longrightarrow> length b \<le> m"
    "on_tcp (link_send b s1) = on_tcp s1"
    using link_send_delivered[of s1 b] unfolding delivered_def by blast
  show ?thesis
    unfolding delivered_def using k m by (intro conjI exI[of _ "length a + m"]) auto
qed

section \<open>The handlers\<close>

text \<open>The fields of the command in \<open>s_cmd\<close>, as READ and WRIT decode them.\<close>

definition cmd_drive :: "fdc_state \<Rightarrow> nat" where
  "cmd_drive st = unat (fdc_word1_drive (fdc_read_le16 (s_cmd st) 4))"

definition cmd_track :: "fdc_state \<Rightarrow> u16" where
  "cmd_track st = fdc_word1_track (fdc_read_le16 (s_cmd st) 4)"

definition cmd_len :: "fdc_state \<Rightarrow> nat" where
  "cmd_len st = unat (fdc_read_le16 (s_cmd st) 6)"

definition fdc_wf :: "fdc_state \<Rightarrow> bool" where
  "fdc_wf st \<longleftrightarrow> length (s_cmd st) = 10 \<and> length (s_resp st) = 10 \<and> length (s_data st) = 8192 \<and>
     disk_inv None (dsk st)"

text \<open>The counters of commands, of which each transaction is to move one.\<close>

definition tally :: "fdc_stats \<Rightarrow> u32" where
  "tally s = n_stat s + n_read s + n_writ s + n_not_ready s + n_cmd_csum s + n_data_csum s +
     n_cmd_timeout s + n_data_timeout s + n_unknown s"

lemma upd_stats_simps [simp]:
  "s_cmd (upd_stats f st) = s_cmd st" "s_resp (upd_stats f st) = s_resp st" "s_data (upd_stats f st) = s_data st"
  "dsk (upd_stats f st) = dsk st" "s_tcp_fd (upd_stats f st) = s_tcp_fd st" "on_tcp (upd_stats f st) = on_tcp st"
  "sent (upd_stats f st) = sent st" "input (upd_stats f st) = input st" "link_lost (upd_stats f st) = link_lost st"
  "s_stats (upd_stats f st) = f (s_stats st)" "led_drive (upd_stats f st) = led_drive st"
  by (simp_all add: upd_stats_def on_tcp_def sent_def input_def link_lost_def)

lemma set_last_op_simps [simp]:
  "s_cmd (set_last_op t st) = s_cmd st" "s_resp (set_last_op t st) = s_resp st" "s_data (set_last_op t st) = s_data st"
  "dsk (set_last_op t st) = dsk st" "s_tcp_fd (set_last_op t st) = s_tcp_fd st" "on_tcp (set_last_op t st) = on_tcp st"
  "sent (set_last_op t st) = sent st" "input (set_last_op t st) = input st" "link_lost (set_last_op t st) = link_lost st"
  "s_stats (set_last_op t st) = (s_stats st)\<lparr>last_op := take 39 t\<rparr>" "led_drive (set_last_op t st) = led_drive st"
  by (simp_all add: set_last_op_def)

lemma led_simps [simp]:
  "s_cmd (led_drive_select d st) = s_cmd st" "s_resp (led_drive_select d st) = s_resp st"
  "s_data (led_drive_select d st) = s_data st" "dsk (led_drive_select d st) = dsk st"
  "on_tcp (led_drive_select d st) = on_tcp st" "sent (led_drive_select d st) = sent st"
  "input (led_drive_select d st) = input st" "link_lost (led_drive_select d st) = link_lost st"
  "s_stats (led_drive_select d st) = s_stats st" "s_tcp_fd (led_drive_select d st) = s_tcp_fd st"
  "s_cmd (led_drive_clear st) = s_cmd st" "s_resp (led_drive_clear st) = s_resp st"
  "s_data (led_drive_clear st) = s_data st" "dsk (led_drive_clear st) = dsk st"
  "on_tcp (led_drive_clear st) = on_tcp st" "sent (led_drive_clear st) = sent st"
  "input (led_drive_clear st) = input st" "link_lost (led_drive_clear st) = link_lost st"
  "s_stats (led_drive_clear st) = s_stats st" "s_tcp_fd (led_drive_clear st) = s_tcp_fd st"
  by (simp_all add: led_drive_select_def led_drive_clear_def on_tcp_def sent_def input_def link_lost_def)

lemma resp_simps [simp]:
  "s_cmd (build_resp c a b st) = s_cmd st" "s_data (build_resp c a b st) = s_data st"
  "dsk (build_resp c a b st) = dsk st" "on_tcp (build_resp c a b st) = on_tcp st"
  "sent (build_resp c a b st) = sent st" "input (build_resp c a b st) = input st"
  "link_lost (build_resp c a b st) = link_lost st" "s_stats (build_resp c a b st) = s_stats st"
  "s_tcp_fd (build_resp c a b st) = s_tcp_fd st" "led_drive (build_resp c a b st) = led_drive st"
  by (simp_all add: build_resp_def on_tcp_def sent_def input_def link_lost_def)

lemma link_send_simps [simp]:
  "s_cmd (link_send buf st) = s_cmd st" "s_resp (link_send buf st) = s_resp st"
  "s_data (link_send buf st) = s_data st" "dsk (link_send buf st) = dsk st"
  "on_tcp (link_send buf st) = on_tcp st" "s_stats (link_send buf st) = s_stats st"
  "input (link_send buf st) = input st" "led_drive (link_send buf st) = led_drive st"
  by (auto simp: link_send_def on_tcp_def input_def split: prod.split)

lemma data_simps [simp]:
  "on_tcp (st\<lparr>dsk := d, s_data := x\<rparr>) = on_tcp st" "sent (st\<lparr>dsk := d, s_data := x\<rparr>) = sent st"
  "on_tcp (st\<lparr>s_data := x\<rparr>) = on_tcp st" "sent (st\<lparr>s_data := x\<rparr>) = sent st"
  "input (st\<lparr>s_data := x\<rparr>) = input st" "link_lost (st\<lparr>s_data := x\<rparr>) = link_lost st"
  "on_tcp (st\<lparr>dsk := d\<rparr>) = on_tcp st" "sent (st\<lparr>dsk := d\<rparr>) = sent st"
  "input (st\<lparr>dsk := d\<rparr>) = input st" "link_lost (st\<lparr>dsk := d\<rparr>) = link_lost st"
  by (simp_all add: on_tcp_def sent_def input_def link_lost_def)

lemma delivered_cong:
  "delivered st s1 a \<Longrightarrow> sent st = sent st' \<Longrightarrow> on_tcp st = on_tcp st' \<Longrightarrow> sent s2 = sent s1 \<Longrightarrow>
    on_tcp s2 = on_tcp s1 \<Longrightarrow> link_lost s2 = link_lost s1 \<Longrightarrow> delivered st' s2 a"
  unfolding delivered_def by simp

lemma handle_stat_outcome:
  assumes "length (s_resp st) = 10"
  shows "delivered st (handle_stat st) (fdc_block ''STAT'' 0 (disk_status_bitmap (dsk st)))"
    and "dsk (handle_stat st) = dsk st" "s_data (handle_stat st) = s_data st" "s_cmd (handle_stat st) = s_cmd st"
    and "length (s_resp (handle_stat st)) = 10" "on_tcp (handle_stat st) = on_tcp st"
    and "n_stat (s_stats (handle_stat st)) = n_stat (s_stats st) + 1"
    and "tally (s_stats (handle_stat st)) = tally (s_stats st) + 1"
proof -
  let ?w = "fdc_read_le16 (s_cmd st) 4"
  let ?sel = "unat (?w AND 0xFF)"
  let ?led = "if unat (drop_bit 8 ?w) \<noteq> 0 \<and> ?sel < 4 then led_drive_select ?sel st else led_drive_clear st"
  have r: "s_resp (build_resp ''STAT'' 0 b ?led) = fdc_block ''STAT'' 0 b" for b
    by (rule resp_built) (simp_all add: assms)
  have e: "handle_stat st = set_last_op (''STAT sel='' @ dec ?sel @ '' map=0x'' @ hex4 (disk_status_bitmap (dsk st)))
     (upd_stats (\<lambda>s. s\<lparr>n_stat := n_stat s + 1\<rparr>)
       (link_send (fdc_block ''STAT'' 0 (disk_status_bitmap (dsk st)))
         (build_resp ''STAT'' 0 (disk_status_bitmap (dsk st)) ?led)))"
    using r by (auto simp: handle_stat_def Let_def)
  show "delivered st (handle_stat st) (fdc_block ''STAT'' 0 (disk_status_bitmap (dsk st)))"
    unfolding e by (rule delivered_cong[OF link_send_delivered]) auto
  show "dsk (handle_stat st) = dsk st" "s_data (handle_stat st) = s_data st" "s_cmd (handle_stat st) = s_cmd st"
    "on_tcp (handle_stat st) = on_tcp st" "n_stat (s_stats (handle_stat st)) = n_stat (s_stats st) + 1"
    "tally (s_stats (handle_stat st)) = tally (s_stats st) + 1"
    unfolding e by (auto simp: tally_def)
  show "length (s_resp (handle_stat st)) = 10" unfolding e using r by simp
qed

lemma handle_read_outcome:
  assumes "env_ok e" "run_ok e" "fdc_wf st"
  defines "d \<equiv> int (cmd_drive st)" and "t \<equiv> (ucast (cmd_track st) :: u32)" and "n \<equiv> cmd_len st"
  defines "st' \<equiv> handle_read e st"
  shows "fdc_wf st' \<and> s_cmd st' = s_cmd st \<and> tally (s_stats st') = tally (s_stats st) + 1 \<and>
    (sent st' = sent st \<and> on_tcp st' = on_tcp st \<and>
       n_not_ready (s_stats st') = n_not_ready (s_stats st) + 1 \<and> n_read (s_stats st') = n_read (s_stats st) \<or>
     n_read (s_stats st') = n_read (s_stats st) + 1 \<and>
     (\<exists>x. store_track (dsk st') d t n = Some x \<and> length x = n \<and>
        delivered st st' (x @ le16 (fdc_checksum16 x))))"
proof -
  obtain err w dk where r: "disk_read_track e d t n True (dsk st) = (err, w, dk)" by (metis surj_pair)
  have inv: "env_ok e \<and> run_ok e \<and> disk_inv None (dsk st)" using assms by (simp add: fdc_wf_def)
  note ri = sds.rd_inv[OF inv r]
  let ?l = "led_drive_select (cmd_drive st) st"
  have e: "st' = (let s = ?l\<lparr>dsk := dk, s_data := (case w of Some x \<Rightarrow> memcpy0 x (s_data st) | None \<Rightarrow> s_data st)\<rparr>
      in if err \<noteq> ESP_OK
         then set_last_op (op_text ''READ'' (cmd_drive st) (cmd_track st) (fdc_read_le16 (s_cmd st) 6) ''not-ready'')
                (upd_stats (\<lambda>s. s\<lparr>n_not_ready := n_not_ready s + 1\<rparr>) s)
         else set_last_op (op_text ''READ'' (cmd_drive st) (cmd_track st) (fdc_read_le16 (s_cmd st) 6) ''ok'')
                (upd_stats (\<lambda>s. s\<lparr>n_read := n_read s + 1\<rparr>)
                  (link_send (le16 (fdc_checksum16 (take n (s_data s)))) (link_send (take n (s_data s)) s))))"
    using r by (cases w) (simp_all add: st'_def handle_read_def Let_def d_def t_def n_def cmd_drive_def cmd_track_def
        cmd_len_def le16_def)
  show ?thesis
  proof (cases "err = ESP_OK")
    case False
    then have w: "w = None" using sds.rd_fail[OF inv r] by simp
    then show ?thesis using False ri assms(3) unfolding e by (simp add: Let_def fdc_wf_def tally_def)
  next
    case True
    obtain x where x: "w = Some x" "length x = n" "n \<le> 8192" "store_track dk d t n = Some x"
      using sds.rd_ok[OF inv] r True by blast
    let ?s = "?l\<lparr>dsk := dk, s_data := memcpy0 x (s_data st)\<rparr>"
    have tk: "take n (memcpy0 x (s_data st)) = x" using take_memcpy0[of x "s_data st"] x(2) by simp
    have st': "st' = set_last_op (op_text ''READ'' (cmd_drive st) (cmd_track st) (fdc_read_le16 (s_cmd st) 6) ''ok'')
        (upd_stats (\<lambda>s. s\<lparr>n_read := n_read s + 1\<rparr>) (link_send (le16 (fdc_checksum16 x)) (link_send x ?s)))"
      using e True x(1) tk by (simp add: Let_def)
    have "delivered st (link_send x ?s) x" by (rule delivered_cong[OF link_send_delivered]) simp_all
    from delivered_append[OF this, of "le16 (fdc_checksum16 x)"]
    have "delivered st st' (x @ le16 (fdc_checksum16 x))"
      unfolding st' by (rule delivered_cong) simp_all
    moreover have "fdc_wf st'" using assms(3) ri x unfolding st' by (simp add: fdc_wf_def length_memcpy0)
    moreover have "dsk st' = dk" "s_cmd st' = s_cmd st" "n_read (s_stats st') = n_read (s_stats st) + 1"
      "tally (s_stats st') = tally (s_stats st) + 1" unfolding st' by (simp_all add: tally_def)
    ultimately show ?thesis using x by blast
  qed
qed

text \<open>Receiving into \<open>s_data\<close> and giving up.\<close>

lemma writ_timeout_outcome:
  assumes "st' = writ_timeout dr tr ln res st"
  shows "s_cmd st' = s_cmd st" "s_resp st' = s_resp st" "s_data st' = s_data st" "dsk st' = dsk st"
    "sent st' = sent st" "on_tcp st' = on_tcp st" "link_lost st \<Longrightarrow> link_lost st'"
    "n_data_timeout (s_stats st') = n_data_timeout (s_stats st) + 1" "tally (s_stats st') = tally (s_stats st) + 1"
  using link_flush_same[of st] link_flush_lost[of st]
  by (simp_all add: assms writ_timeout_def same_engine_def tally_def)

lemma disk_write_inv:
  assumes "env_ok e" "run_ok e" "disk_inv None st" "n \<le> length x" "disk_write_track e d t n (Some x) st = (err, st')"
  shows "disk_inv None st'"
proof (cases "remote (drv st d)")
  case False
  then show ?thesis using disk_write_local[OF assms(1,3) False assms(5)] assms(4) by simp
next
  case True
  then show ?thesis
    using assms(3,5) post_wait_inv[OF assms(2,3)]
    by (auto simp: disk_write_track_def Let_def split: if_splits)
qed

lemma writ_commit_outcome:
  assumes e: "env_ok e" "run_ok e" "disk_inv None (dsk st)"
    and l: "unat ln \<le> length (s_data st)"
    and c: "writ_commit e dr tr ln ck st = (code, st')"
  defines "x \<equiv> take (unat ln) (s_data st)"
  shows "s_cmd st' = s_cmd st \<and> s_resp st' = s_resp st \<and> s_data st' = s_data st \<and> sent st' = sent st \<and>
    input st' = input st \<and> on_tcp st' = on_tcp st \<and> link_lost st' = link_lost st \<and> disk_inv None (dsk st') \<and>
    tally (s_stats st') = tally (s_stats st) + 1 \<and>
    (code = FDC_RESP_CSUM_ERR \<and> fdc_read_le16 ck 0 \<noteq> fdc_checksum16 x \<and> dsk st' = dsk st \<or>
     fdc_read_le16 ck 0 = fdc_checksum16 x \<and>
     (code = FDC_RESP_WRITE_ERR \<or>
      code = FDC_RESP_OK \<and>
      (\<not> remote (drv (dsk st) (int dr)) \<longrightarrow> store_track (dsk st') (int dr) (ucast tr) (unat ln) = Some x)) \<and>
     (\<not> remote (drv (dsk st) (int dr)) \<longrightarrow>
        (\<forall>d2. d2 \<noteq> int dr \<longrightarrow> (\<forall>t n. store_track (dsk st') d2 t n = store_track (dsk st) d2 t n))))"
proof (cases "fdc_read_le16 ck 0 = fdc_checksum16 x")
  case False
  then show ?thesis using c e(3) by (auto simp: writ_commit_def x_def tally_def)
next
  case True
  obtain err d where w: "disk_write_track e (int dr) (ucast tr) (unat ln) (Some (s_data st)) (dsk st) = (err, d)"
    by (metis surj_pair)
  have i: "env_ok e \<and> run_ok e \<and> disk_inv None (dsk st)" using e by simp
  have winv: "disk_inv None d" by (rule disk_write_inv[OF e l w])
  note wfr = sds.wr_frame[OF i _ l w]
  show ?thesis
  proof (cases "err = ESP_OK")
    case ok: True
    note wok = sds.wr_ok[OF i _ l w[unfolded ok]]
    show ?thesis using c True w ok wok winv wfr by (auto simp: writ_commit_def x_def tally_def)
  next
    case False
    then show ?thesis using c True w winv wfr by (auto simp: writ_commit_def x_def tally_def)
  qed
qed

text \<open>
  The five ends of a WRIT: not ready; the data or its checksum did not arrive; the checksum
  was wrong; the write failed; the track was written.
\<close>

definition writ_outcome :: "fdc_state \<Rightarrow> fdc_state \<Rightarrow> bool" where
  "writ_outcome st st' \<longleftrightarrow>
     (let d = int (cmd_drive st); t = (ucast (cmd_track st) :: u32); n = cmd_len st;
          ready = (0 < n \<and> n \<le> 8192 \<and> disk_is_mounted d (dsk st) \<and> \<not> disk_is_readonly d (dsk st));
          go = fdc_block ''WRIT'' 0 0; loc = (\<not> remote (drv (dsk st) d))
      in (\<not> ready \<and> dsk st' = dsk st \<and> delivered st st' (fdc_block ''WRIT'' 1 0)) \<or>
         (ready \<and> dsk st' = dsk st \<and> delivered st st' go) \<or>
         (\<exists>x ck. ready \<and> length x = n \<and> length ck = 2 \<and> input st = x @ ck @ input st' \<and>
            (fdc_read_le16 ck 0 \<noteq> fdc_checksum16 x \<and> dsk st' = dsk st \<and>
               delivered st st' (go @ fdc_block ''WSTA'' 2 0) \<or>
             fdc_read_le16 ck 0 = fdc_checksum16 x \<and>
             (loc \<longrightarrow> (\<forall>d2. d2 \<noteq> d \<longrightarrow> (\<forall>t n. store_track (dsk st') d2 t n = store_track (dsk st) d2 t n))) \<and>
             (delivered st st' (go @ fdc_block ''WSTA'' 3 0) \<or>
              (loc \<longrightarrow> store_track (dsk st') d t n = Some x) \<and> delivered st st' (go @ fdc_block ''WSTA'' 0 0)))))"

text \<open>Building a response and sending it.\<close>

definition reply :: "string \<Rightarrow> u16 \<Rightarrow> fdc_state \<Rightarrow> fdc_state" where
  "reply cmd code st = (let s = build_resp cmd code 0 st in link_send (s_resp s) s)"

lemma reply_outcome:
  assumes "length (s_resp st) = 10" "length cmd = 4"
  shows "reply cmd code st = link_send (fdc_block cmd code 0) (build_resp cmd code 0 st)"
    and "length (s_resp (reply cmd code st)) = 10"
  using resp_built[OF assms] assms(2) by (simp_all add: reply_def Let_def)

lemma reply_delivered: "length (s_resp st) = 10 \<Longrightarrow> length cmd = 4 \<Longrightarrow> delivered st (reply cmd code st) (fdc_block cmd code 0)"
  unfolding reply_outcome(1) by (rule delivered_cong[OF link_send_delivered]) simp_all

lemma reply_append:
  "delivered st s1 a \<Longrightarrow> length (s_resp s1) = 10 \<Longrightarrow> length cmd = 4 \<Longrightarrow>
    delivered st (reply cmd code s1) (a @ fdc_block cmd code 0)"
  unfolding reply_outcome(1)
  by (rule delivered_append) (auto elim: delivered_cong)

lemma reply_simps [simp]:
  "s_cmd (reply c a st) = s_cmd st" "s_data (reply c a st) = s_data st" "dsk (reply c a st) = dsk st"
  "on_tcp (reply c a st) = on_tcp st" "input (reply c a st) = input st" "s_stats (reply c a st) = s_stats st"
  by (simp_all add: reply_def Let_def)

lemma handle_writ_unfold:
  "handle_writ e st =
     (let dr = cmd_drive st; tr = cmd_track st; ln = fdc_read_le16 (s_cmd st) 6; n = cmd_len st;
          ready = (0 < n \<and> n \<le> 8192 \<and> disk_is_mounted (int dr) (dsk st) \<and> \<not> disk_is_readonly (int dr) (dsk st));
          s1 = reply ''WRIT'' (if ready then 0 else 1) (led_drive_select dr st)
      in if \<not> ready
         then set_last_op (op_text ''WRIT'' dr tr ln ''not-ready'')
                (upd_stats (\<lambda>s. s\<lparr>n_not_ready := n_not_ready s + 1\<rparr>) s1)
         else case link_recv n s1 of
                (got, s2) \<Rightarrow>
                  let s2 = s2\<lparr>s_data := memcpy0 got (s_data s2)\<rparr>
                  in if length got \<noteq> n then writ_timeout dr tr ln ''data-timeout'' s2
                     else case link_recv 2 s2 of
                            (ck, s3) \<Rightarrow>
                              if length ck \<noteq> 2 then writ_timeout dr tr ln ''csum-timeout'' s3
                              else case writ_commit e dr tr ln ck s3 of
                                     (code, s4) \<Rightarrow> reply ''WSTA'' (resp_code code) s4)"
proof -
  have "resp_code (if b then FDC_RESP_OK else FDC_RESP_NOT_READY) = (if b then 0 else 1)" for b by simp
  then show ?thesis
    unfolding handle_writ_def reply_def cmd_drive_def cmd_track_def cmd_len_def Let_def led_simps
    by (simp only: conj_assoc)
qed

lemma handle_writ_outcome:
  assumes "env_ok e" "run_ok e" "fdc_wf st"
  defines "st' \<equiv> handle_writ e st"
  shows "fdc_wf st' \<and> s_cmd st' = s_cmd st \<and> tally (s_stats st') = tally (s_stats st) + 1 \<and> writ_outcome st st'"
proof -
  let ?dr = "cmd_drive st" and ?tr = "cmd_track st" and ?ln = "fdc_read_le16 (s_cmd st) 6" and ?n = "cmd_len st"
  let ?ready = "0 < ?n \<and> ?n \<le> 8192 \<and> disk_is_mounted (int ?dr) (dsk st) \<and> \<not> disk_is_readonly (int ?dr) (dsk st)"
  let ?go = "fdc_block ''WRIT'' 0 0" and ?loc = "\<not> remote (drv (dsk st) (int ?dr))"
  have wf: "length (s_cmd st) = 10" "length (s_resp st) = 10" "length (s_data st) = 8192" "disk_inv None (dsk st)"
    using assms(3) by (simp_all add: fdc_wf_def)
  have nl: "unat ?ln = ?n" by (simp add: cmd_len_def)
  define s1 where "s1 = reply ''WRIT'' (if ?ready then 0 else 1) (led_drive_select ?dr st)"
  have s1: "length (s_resp s1) = 10" "s_cmd s1 = s_cmd st" "s_data s1 = s_data st" "dsk s1 = dsk st"
    "input s1 = input st" "s_stats s1 = s_stats st"
    using reply_outcome(2)[of "led_drive_select ?dr st" "''WRIT''"] wf(2) by (simp_all add: s1_def)
  have d1: "delivered st s1 (fdc_block ''WRIT'' (if ?ready then 0 else 1) 0)"
    unfolding s1_def
    by (rule delivered_cong[OF reply_delivered[of "led_drive_select ?dr st" "''WRIT''"]]) (simp_all add: wf(2))
  note unf = handle_writ_unfold[of e st, unfolded Let_def, folded s1_def st'_def[symmetric]]
  show ?thesis
  proof (cases ?ready)
    case False
    then have st': "st' = set_last_op (op_text ''WRIT'' ?dr ?tr ?ln ''not-ready'')
        (upd_stats (\<lambda>s. s\<lparr>n_not_ready := n_not_ready s + 1\<rparr>) s1)"
      unfolding st'_def handle_writ_unfold Let_def s1_def by auto
    have "delivered st st' (fdc_block ''WRIT'' 1 0)"
      using d1 False unfolding st' by (auto elim!: delivered_cong)
    then show ?thesis
      using False wf s1 unfolding st' by (auto simp: fdc_wf_def writ_outcome_def Let_def tally_def)
  next
    case True
    have d1': "delivered st s1 ?go" using d1 True by simp
    obtain got s2 where r1: "link_recv ?n s1 = (got, s2)" by (metis surj_pair)
    note q1 = link_recv_same[OF r1] and i1 = link_recv_split[OF r1] and l1 = link_recv_lost[OF r1]
    let ?s2 = "s2\<lparr>s_data := memcpy0 got (s_data s2)\<rparr>"
    have dl: "length (memcpy0 got (s_data s2)) = 8192"
      using q1 s1 wf i1 True by (simp add: same_engine_def length_memcpy0)
    have d2: "delivered st ?s2 ?go" by (rule delivered_sent[OF d1']) (use q1 l1 in simp_all)
    have s2: "s_cmd ?s2 = s_cmd st" "length (s_resp ?s2) = 10" "dsk ?s2 = dsk st" "s_stats ?s2 = s_stats st"
      using q1 s1 by (simp_all add: same_engine_def)
    have unf: "st' = (if length got \<noteq> ?n then writ_timeout ?dr ?tr ?ln ''data-timeout'' ?s2
        else case link_recv 2 ?s2 of (ck, s3) \<Rightarrow>
          if length ck \<noteq> 2 then writ_timeout ?dr ?tr ?ln ''csum-timeout'' s3
          else case writ_commit e ?dr ?tr ?ln ck s3 of (code, s4) \<Rightarrow> reply ''WSTA'' (resp_code code) s4)"
      using True r1 unfolding st'_def handle_writ_unfold Let_def s1_def[symmetric] by auto
    show ?thesis
    proof (cases "length got = ?n")
      case False
      then have st': "st' = writ_timeout ?dr ?tr ?ln ''data-timeout'' ?s2" using unf by simp
      note w = writ_timeout_outcome[OF st']
      have "delivered st st' ?go" by (rule delivered_sent[OF d2]) (use w in simp_all)
      then show ?thesis using True w s2 wf dl by (auto simp: fdc_wf_def writ_outcome_def Let_def)
    next
      case got: True
      obtain ck s3 where r2: "link_recv 2 ?s2 = (ck, s3)" by (metis surj_pair)
      note q2 = link_recv_same[OF r2] and i2 = link_recv_split[OF r2] and l2 = link_recv_lost[OF r2]
      have d3: "delivered st s3 ?go" by (rule delivered_sent[OF d2]) (use q2 l2 in simp_all)
      have s3: "s_cmd s3 = s_cmd st" "length (s_resp s3) = 10" "dsk s3 = dsk st" "s_stats s3 = s_stats st"
        "s_data s3 = memcpy0 got (s_data s2)" using q2 s2 by (simp_all add: same_engine_def)
      show ?thesis
      proof (cases "length ck = 2")
        case False
        then have st': "st' = writ_timeout ?dr ?tr ?ln ''csum-timeout'' s3" using unf r2 got by simp
        note w = writ_timeout_outcome[OF st']
        have "delivered st st' ?go" by (rule delivered_sent[OF d3]) (use w in simp_all)
        then show ?thesis using True w s3 wf dl by (auto simp: fdc_wf_def writ_outcome_def Let_def)
      next
        case ck: True
        obtain code s4 where c: "writ_commit e ?dr ?tr ?ln ck s3 = (code, s4)" by (metis surj_pair)
        have st': "st' = reply ''WSTA'' (resp_code code) s4" using unf r2 got ck c by simp
        have x: "take ?n (memcpy0 got (s_data s2)) = got"
          using take_memcpy0[of got "s_data s2"] got by simp
        have w: "s_cmd s4 = s_cmd s3 \<and> s_resp s4 = s_resp s3 \<and> s_data s4 = s_data s3 \<and> sent s4 = sent s3 \<and>
          input s4 = input s3 \<and> on_tcp s4 = on_tcp s3 \<and> link_lost s4 = link_lost s3 \<and> disk_inv None (dsk s4) \<and>
          tally (s_stats s4) = tally (s_stats s3) + 1 \<and>
          (code = FDC_RESP_CSUM_ERR \<and> fdc_read_le16 ck 0 \<noteq> fdc_checksum16 got \<and> dsk s4 = dsk s3 \<or>
           fdc_read_le16 ck 0 = fdc_checksum16 got \<and>
           (code = FDC_RESP_WRITE_ERR \<or>
            code = FDC_RESP_OK \<and> (?loc \<longrightarrow> store_track (dsk s4) (int ?dr) (ucast ?tr) ?n = Some got)) \<and>
           (?loc \<longrightarrow> (\<forall>d2. d2 \<noteq> int ?dr \<longrightarrow> (\<forall>t n. store_track (dsk s4) d2 t n = store_track (dsk s3) d2 t n))))"
          using writ_commit_outcome[OF assms(1,2) _ _ c, unfolded nl] s3 wf(4) dl True x by simp
        have d4: "delivered st s4 ?go" by (rule delivered_cong[OF d3]) (use w in simp_all)
        have d5: "delivered st st' (?go @ fdc_block ''WSTA'' (resp_code code) 0)"
          unfolding st' by (rule reply_append[OF d4]) (use w s3 in simp_all)
        have io: "input st = got @ ck @ input st'"
          using i1 i2 s1 w unfolding st' by simp
        have f: "fdc_wf st'" "s_cmd st' = s_cmd st" "tally (s_stats st') = tally (s_stats st) + 1" "dsk st' = dsk s4"
          using w s3 wf dl reply_outcome(2)[of s4 "''WSTA''"] unfolding st' by (simp_all add: fdc_wf_def)
        let ?tail = "fdc_read_le16 ck 0 \<noteq> fdc_checksum16 got \<and> dsk st' = dsk st \<and>
             delivered st st' (?go @ fdc_block ''WSTA'' 2 0) \<or>
           fdc_read_le16 ck 0 = fdc_checksum16 got \<and>
           (?loc \<longrightarrow> (\<forall>d2. d2 \<noteq> int ?dr \<longrightarrow> (\<forall>t n. store_track (dsk st') d2 t n = store_track (dsk st) d2 t n))) \<and>
           (delivered st st' (?go @ fdc_block ''WSTA'' 3 0) \<or>
            (?loc \<longrightarrow> store_track (dsk st') (int ?dr) (ucast ?tr) ?n = Some got) \<and> delivered st st' (?go @ fdc_block ''WSTA'' 0 0))"
        have tail: ?tail
        proof (cases code)
          case FDC_RESP_CSUM_ERR
          then show ?thesis using w d5 by (simp add: f(4) s3(3))
        next
          case FDC_RESP_WRITE_ERR
          then show ?thesis using w d5 by (simp add: f(4) s3(3))
        next
          case FDC_RESP_OK
          then show ?thesis using w d5 by (simp add: f(4) s3(3))
        next
          case FDC_RESP_NOT_READY
          then show ?thesis using w by simp
        qed
        have "writ_outcome st st'"
          unfolding writ_outcome_def Let_def
          by (rule disjI2, rule disjI2, rule exI[of _ got], rule exI[of _ ck]) (use True got ck io tail in blast)
        then show ?thesis using f by simp
      qed
    qed
  qed
qed

section \<open>One turn of the task\<close>

definition blip :: "fdc_state \<Rightarrow> fdc_state" where
  "blip st = led_drive_activity (led_status_blip st)"

lemma blip_simps [simp]:
  "s_cmd (blip st) = s_cmd st" "s_resp (blip st) = s_resp st" "s_data (blip st) = s_data st"
  "dsk (blip st) = dsk st" "on_tcp (blip st) = on_tcp st" "sent (blip st) = sent st"
  "input (blip st) = input st" "link_lost (blip st) = link_lost st" "s_stats (blip st) = s_stats st"
  by (simp_all add: blip_def led_drive_activity_def led_status_blip_def on_tcp_def sent_def input_def link_lost_def)

lemma fdc_wf_blip [simp]: "fdc_wf (blip st) = fdc_wf st"
  by (simp add: fdc_wf_def)

lemma dispatch_cases:
  "dispatch e st = handle_stat (blip st) \<and> take 4 (s_cmd st) = ascii ''STAT'' \<or>
   dispatch e st = handle_read e (blip st) \<and> take 4 (s_cmd st) = ascii ''READ'' \<or>
   dispatch e st = handle_writ e (blip st) \<and> take 4 (s_cmd st) = ascii ''WRIT'' \<or>
   (\<exists>t. dispatch e st = set_last_op t (upd_stats (\<lambda>s. s\<lparr>n_unknown := n_unknown s + 1\<rparr>) (blip st)) \<and>
      take 4 (s_cmd st) \<notin> {ascii ''STAT'', ascii ''READ'', ascii ''WRIT''})"
  by (auto simp: dispatch_def blip_def[symmetric] Let_def)

lemma dispatch_inv:
  assumes "env_ok e" "run_ok e" "fdc_wf st"
  shows "fdc_wf (dispatch e st) \<and> tally (s_stats (dispatch e st)) = tally (s_stats st) + 1"
proof -
  have b: "fdc_wf (blip st)" using assms(3) by simp
  from dispatch_cases[of e st] show ?thesis
  proof (elim disjE conjE exE)
    assume "dispatch e st = handle_stat (blip st)"
    then show ?thesis
      using handle_stat_outcome[of "blip st"] b by (simp add: fdc_wf_def)
  next
    assume "dispatch e st = handle_read e (blip st)"
    then show ?thesis using handle_read_outcome[OF assms(1,2) b] by simp
  next
    assume "dispatch e st = handle_writ e (blip st)"
    then show ?thesis using handle_writ_outcome[OF assms(1,2) b] by simp
  next
    fix t assume "dispatch e st = set_last_op t (upd_stats (\<lambda>s. s\<lparr>n_unknown := n_unknown s + 1\<rparr>) (blip st))"
    then show ?thesis using b by (simp add: fdc_wf_def tally_def)
  qed
qed

text \<open>
  The receive part of the turn, by how much arrived: nothing; the start of a block; a whole
  block that is not valid; a valid block, which is dispatched.
\<close>

lemma fdc_serve_cases:
  assumes "fdc_wf st"
  shows "\<exists>b st1. fdc_wf st1 \<and> s_stats st1 = s_stats st \<and> dsk st1 = dsk st \<and> sent st1 = sent st \<and>
    on_tcp st1 = on_tcp st \<and> input st = b @ input st1 \<and> length b \<le> 10 \<and> (link_lost st \<longrightarrow> link_lost st1) \<and>
    (b = [] \<and> fdc_serve e st = st1 \<or>
     b \<noteq> [] \<and> length b < 10 \<and>
       fdc_serve e st = upd_stats (\<lambda>s. s\<lparr>n_cmd_timeout := n_cmd_timeout s + 1\<rparr>) (link_flush_input st1) \<or>
     s_cmd st1 = b \<and> \<not> fdc_block_valid b \<and>
       fdc_serve e st = upd_stats (\<lambda>s. s\<lparr>n_cmd_csum := n_cmd_csum s + 1\<rparr>) st1 \<or>
     s_cmd st1 = b \<and> fdc_block_valid b \<and> fdc_serve e st = dispatch e st1)"
proof -
  let ?s0 = "if on_tcp st then uart_flush_input st else st"
  have s0: "same_engine st ?s0" "sent ?s0 = sent st" "on_tcp ?s0 = on_tcp st" "input ?s0 = input st"
    "link_lost ?s0 = link_lost st"
    by (simp_all add: uart_flush_input_def same_engine_def sent_def on_tcp_def input_def link_lost_def)
  obtain b0 s1 where r1: "link_recv 1 ?s0 = (b0, s1)" by (metis surj_pair)
  note q1 = link_recv_same[OF r1] and i1 = link_recv_split[OF r1] and l1 = link_recv_lost[OF r1]
  let ?s1 = "s1\<lparr>s_cmd := memcpy0 b0 (s_cmd s1)\<rparr>"
  have c1: "length (memcpy0 b0 (s_cmd s1)) = 10"
    using q1 s0 i1 assms by (simp add: same_engine_def fdc_wf_def length_memcpy0)
  have f1: "sent ?s1 = sent s1" "on_tcp ?s1 = on_tcp s1" "input ?s1 = input s1" "link_lost ?s1 = link_lost s1"
    by (simp_all add: sent_def on_tcp_def input_def link_lost_def)
  have w1: "fdc_wf ?s1" "s_stats ?s1 = s_stats st" "dsk ?s1 = dsk st"
    using q1 s0 c1 assms by (simp_all add: same_engine_def fdc_wf_def)
  show ?thesis
  proof (cases "length b0 = 1")
    case False
    then have "b0 = []" "fdc_serve e st = ?s1" using i1 r1 by (auto simp: fdc_serve_def Let_def le_Suc_eq)
    then show ?thesis using w1 f1 q1 i1 s0 l1 by (intro exI[of _ b0] exI[of _ ?s1]) simp
  next
    case one: True
    obtain bs s2 where r2: "link_recv 9 ?s1 = (bs, s2)" by (metis surj_pair)
    note q2 = link_recv_same[OF r2] and i2 = link_recv_split[OF r2] and l2 = link_recv_lost[OF r2]
    let ?s2 = "s2\<lparr>s_cmd := memcpy0 (b0 @ bs) (s_cmd s2)\<rparr>"
    have c2: "length (memcpy0 (b0 @ bs) (s_cmd s2)) = 10"
      using q2 c1 i2 one by (simp add: same_engine_def length_memcpy0)
    have f2: "sent ?s2 = sent s2" "on_tcp ?s2 = on_tcp s2" "input ?s2 = input s2" "link_lost ?s2 = link_lost s2"
      by (simp_all add: sent_def on_tcp_def input_def link_lost_def)
    have w2: "fdc_wf ?s2" "s_stats ?s2 = s_stats st" "dsk ?s2 = dsk st"
      using q2 w1 c2 by (simp_all add: same_engine_def fdc_wf_def)
    have u: "fdc_serve e st = (if length bs \<noteq> 9
        then upd_stats (\<lambda>s. s\<lparr>n_cmd_timeout := n_cmd_timeout s + 1\<rparr>) (link_flush_input ?s2)
        else if \<not> fdc_block_valid (s_cmd ?s2)
        then upd_stats (\<lambda>s. s\<lparr>n_cmd_csum := n_cmd_csum s + 1\<rparr>) ?s2 else dispatch e ?s2)"
      using r1 r2 one by (simp add: fdc_serve_def Let_def)
    have io: "input st = (b0 @ bs) @ input ?s2" using i1 i2 f1 f2 s0 by simp
    have lb: "length (b0 @ bs) \<le> 10" "b0 @ bs \<noteq> []" "length bs \<noteq> 9 \<Longrightarrow> length (b0 @ bs) < 10"
      using one i2 by auto
    have cmd: "length bs = 9 \<Longrightarrow> s_cmd ?s2 = b0 @ bs"
      using one q2 c1 by (simp add: same_engine_def memcpy0_def)
    have base: "fdc_wf ?s2 \<and> s_stats ?s2 = s_stats st \<and> dsk ?s2 = dsk st \<and> sent ?s2 = sent st \<and>
        on_tcp ?s2 = on_tcp st \<and> (link_lost st \<longrightarrow> link_lost ?s2)"
      using w2 f2 q2 f1 q1 s0 l1 l2 by simp
    have "(b0 @ bs = [] \<and> fdc_serve e st = ?s2) \<or>
       b0 @ bs \<noteq> [] \<and> length (b0 @ bs) < 10 \<and>
         fdc_serve e st = upd_stats (\<lambda>s. s\<lparr>n_cmd_timeout := n_cmd_timeout s + 1\<rparr>) (link_flush_input ?s2) \<or>
       s_cmd ?s2 = b0 @ bs \<and> \<not> fdc_block_valid (b0 @ bs) \<and>
         fdc_serve e st = upd_stats (\<lambda>s. s\<lparr>n_cmd_csum := n_cmd_csum s + 1\<rparr>) ?s2 \<or>
       s_cmd ?s2 = b0 @ bs \<and> fdc_block_valid (b0 @ bs) \<and> fdc_serve e st = dispatch e ?s2"
    proof (cases "length bs = 9")
      case True
      note c = cmd[OF True]
      have "fdc_serve e st = (if \<not> fdc_block_valid (b0 @ bs)
        then upd_stats (\<lambda>s. s\<lparr>n_cmd_csum := n_cmd_csum s + 1\<rparr>) ?s2 else dispatch e ?s2)"
        unfolding u c using True by (simp only: if_False not_True_eq_False not_not if_cancel simp_thms)
      then show ?thesis using c by presburger
    next
      case False
      then show ?thesis using u lb by presburger
    qed
    with base io lb(1) show ?thesis by blast
  qed
qed

lemma fdc_serve_inv:
  assumes "env_ok e" "run_ok e" "fdc_wf st"
  shows "fdc_wf (fdc_serve e st) \<and> (\<exists>b. tally (s_stats (fdc_serve e st)) = tally (s_stats st) + (if b = [] then 0 else 1) \<and>
    length b \<le> 10 \<and> (\<exists>r. input st = b @ r) \<and> (b = [] \<longrightarrow> input (fdc_serve e st) = input st))"
proof -
  obtain b st1 where s: "fdc_wf st1" "s_stats st1 = s_stats st" "input st = b @ input st1" "length b \<le> 10" and
    c: "b = [] \<and> fdc_serve e st = st1 \<or>
     b \<noteq> [] \<and> length b < 10 \<and>
       fdc_serve e st = upd_stats (\<lambda>s. s\<lparr>n_cmd_timeout := n_cmd_timeout s + 1\<rparr>) (link_flush_input st1) \<or>
     s_cmd st1 = b \<and> \<not> fdc_block_valid b \<and>
       fdc_serve e st = upd_stats (\<lambda>s. s\<lparr>n_cmd_csum := n_cmd_csum s + 1\<rparr>) st1 \<or>
     s_cmd st1 = b \<and> fdc_block_valid b \<and> fdc_serve e st = dispatch e st1"
    using fdc_serve_cases[OF assms(3), of e] by blast
  have ne: "s_cmd st1 = b \<Longrightarrow> b \<noteq> []" using s(1) by (auto simp: fdc_wf_def)
  have fl: "fdc_wf (link_flush_input st1)" "s_stats (link_flush_input st1) = s_stats st1"
    using link_flush_same[of st1] s(1) by (simp_all add: same_engine_def fdc_wf_def)
  from c show ?thesis
  proof (elim disjE conjE)
    assume "b = []" "fdc_serve e st = st1"
    then show ?thesis using s by auto
  next
    assume "b \<noteq> []" "fdc_serve e st = upd_stats (\<lambda>s. s\<lparr>n_cmd_timeout := n_cmd_timeout s + 1\<rparr>) (link_flush_input st1)"
    then show ?thesis using s fl by (intro conjI, simp add: fdc_wf_def, intro exI[of _ b]) (auto simp: tally_def)
  next
    assume "s_cmd st1 = b" "fdc_serve e st = upd_stats (\<lambda>s. s\<lparr>n_cmd_csum := n_cmd_csum s + 1\<rparr>) st1"
    then show ?thesis using s ne by (intro conjI, simp add: fdc_wf_def, intro exI[of _ b]) (auto simp: tally_def)
  next
    assume "s_cmd st1 = b" "fdc_serve e st = dispatch e st1"
    then show ?thesis
      using s ne dispatch_inv[OF assms(1,2) s(1)] by (intro conjI, simp, intro exI[of _ b]) auto
  qed
qed

section \<open>Properties\<close>

text \<open>An engine on the UART over the demonstration disk, with a command in \<open>s_cmd\<close>.\<close>

definition demo_fdc :: "bytes \<Rightarrow> rx_ev list \<Rightarrow> fdc_state" where
  "demo_fdc cmd evs =
     \<lparr>s_cmd = cmd, s_resp = replicate 10 0, s_data = replicate 8192 0, s_stats = zero_stats, s_baud = 403200,
      s_pending_baud = 0, s_lb_req = False, s_lb_done = False,
      s_lb_result = \<lparr>lb_ran = False, lb_sent = 0, lb_received = 0, lb_mismatches = 0, lb_first_bad = 0\<rparr>,
      s_tcp_pending = -1, s_tcp_active = False, s_tcp_kick = False, s_tcp_pending_peer = [], s_tcp_fd = -1,
      s_tcp_dead = False, led_status = False, led_drive = replicate 4 False, led_timer = False,
      drive_led_timer = False, uart_in = evs, uart_evts = [], uart_out = [], tcp_in = [], tcp_tx = [],
      tcp_out = [], fds_closed = [], dsk = demo_disk\<rparr>"

lemma demo_fdc_wf: "length cmd = 10 \<Longrightarrow> fdc_wf (demo_fdc cmd evs)"
  by (simp add: demo_fdc_def fdc_wf_def demo_disk_facts)

lemma demo_cmd:
  assumes "length m = 4"
  shows "cmd_drive (demo_fdc (fdc_block m 0x1001 128) evs) = 1"
    "cmd_track (demo_fdc (fdc_block m 0x1001 128) evs) = 1" "cmd_len (demo_fdc (fdc_block m 0x1001 128) evs) = 128"
  using fdc_block_fields[OF assms]
  by (simp_all add: cmd_drive_def cmd_track_def cmd_len_def demo_fdc_def unat_word1_drive fdc_word1_track_def)

text \<open>
  STAT answers with the truth: the reply is the 10-byte block "STAT", code OK, whose
  second word has bit \<open>n\<close> set exactly when drive \<open>n\<close> is mounted; it verifies under the
  checksum the host uses; the disk is not touched, and the command is counted as a STAT.
\<close>

theorem stat_reply:
  assumes "length (s_resp st) = 10"
  shows "delivered st (handle_stat st) (fdc_block ''STAT'' 0 (disk_status_bitmap (dsk st))) \<and>
    fdc_block_valid (fdc_block ''STAT'' 0 (disk_status_bitmap (dsk st))) \<and>
    (\<forall>n. bit (disk_status_bitmap (dsk st)) n \<longleftrightarrow> disk_is_mounted (int n) (dsk st)) \<and>
    dsk (handle_stat st) = dsk st \<and> n_stat (s_stats (handle_stat st)) = n_stat (s_stats st) + 1"
proof -
  have "bit (disk_status_bitmap (dsk st)) n \<longleftrightarrow> disk_is_mounted (int n) (dsk st)" for n
    by (auto simp: disk_status_bitmap_def bitmap_bits disk_is_mounted_def drive_ok_def)
  then show ?thesis
    using handle_stat_outcome[OF assms] fdc_block_fields(1)[of "''STAT''"] by simp
qed

theorem stat_reply_witness:
  "uart_out (handle_stat (demo_fdc (fdc_block ''STAT'' 0x0101 0) [])) =
     fdc_block ''STAT'' 0 (disk_status_bitmap demo_disk) \<and> bit (disk_status_bitmap demo_disk) 1"
proof -
  let ?st = "demo_fdc (fdc_block ''STAT'' 0x0101 0) []"
  have l: "length (s_resp ?st) = 10" "dsk ?st = demo_disk" "\<not> on_tcp ?st" "uart_out ?st = []"
    by (simp_all add: demo_fdc_def on_tcp_def)
  have "disk_is_mounted 1 demo_disk"
    using demo_disk_facts(2) by (simp add: disk_is_mounted_def drive_ok_def slot_local_def)
  then show ?thesis
    using stat_reply[OF l(1)] l by (auto simp: delivered_def sent_def link_lost_def dest!: spec[of _ 1])
qed

text \<open>
  C10. READ answers with the track or not at all: with a drive mounted and the track inside
  its image, and the disk able to read it, the reply is the \<open>len\<close> bytes of that track as
  they are in the image file, followed by their 16-bit checksum, with nothing before
  them (a TCP client that dies may get only a beginning of it); otherwise not one byte is
  sent and the command is counted as not ready.
\<close>

theorem read_reply:
  assumes "env_ok e" "run_ok e" "fdc_wf st"
  shows "n_read (s_stats (handle_read e st)) = n_read (s_stats st) \<and>
      n_not_ready (s_stats (handle_read e st)) = n_not_ready (s_stats st) + 1 \<and> sent (handle_read e st) = sent st \<or>
    n_read (s_stats (handle_read e st)) = n_read (s_stats st) + 1 \<and>
    (\<exists>x. store_track (dsk (handle_read e st)) (int (cmd_drive st)) (ucast (cmd_track st)) (cmd_len st) = Some x \<and>
       length x = cmd_len st \<and> delivered st (handle_read e st) (x @ le16 (fdc_checksum16 x)))"
  using handle_read_outcome[OF assms] by blast

theorem read_reply_witness:
  "uart_out (handle_read demo_env (demo_fdc (fdc_block ''READ'' 0x1001 128) [])) =
     replicate 128 9 @ le16 (fdc_checksum16 (replicate 128 9))"
proof -
  let ?st = "demo_fdc (fdc_block ''READ'' 0x1001 128) []"
  note c = demo_cmd[of "''READ''" "[]", simplified]
  obtain w d where r: "disk_read_track demo_env 1 1 128 True demo_disk = (ESP_OK, w, d)"
    "drv d 1 = drv demo_disk 1" "files d = demo_files" using demo_read by blast
  have d: "dsk ?st = demo_disk" "\<not> on_tcp ?st" "uart_out ?st = []" by (simp_all add: demo_fdc_def on_tcp_def)
  have u: "uint (fdc_word1_drive (fdc_read_le16 (s_cmd ?st) 4)) = 1"
    using c(1) unfolding cmd_drive_def by (metis of_nat_1 uint_nat One_nat_def)
  have n: "n_read (s_stats (handle_read demo_env ?st)) = n_read (s_stats ?st) + 1" "dsk (handle_read demo_env ?st) = d"
    using r(1) c d u by (simp_all add: handle_read_def Let_def cmd_drive_def cmd_track_def cmd_len_def split: option.split)
  have "store_track d 1 1 128 = Some (replicate 128 9)"
    using r demo_disk_facts(2)
    by (simp add: store_track_def drive_ok_def slot_local_def demo_backing_def demo_files_def slice_def)
  then show ?thesis
    using read_reply[OF demo_env_ok demo_fdc_wf[of "fdc_block ''READ'' 0x1001 128" "[]"]] n c d
    by (auto simp: delivered_def sent_def link_lost_def)
qed



text \<open>
  C26. A corrupted command does nothing: if a valid command block reaches the UART with any
  one of its ten bytes changed, the task sends nothing, touches neither the disk nor any
  counter except the checksum one, and has consumed exactly that block.
\<close>

theorem corrupt_command_ignored:
  assumes "\<not> on_tcp st" "length (s_cmd st) = 10" "length blk = 10" "fdc_block_valid blk" "i < 10" "x \<noteq> blk ! i"
    and "uart_in st = RxBytes (blk[i := x]) # evs"
  shows "s_stats (fdc_serve e st) = (s_stats st)\<lparr>n_cmd_csum := n_cmd_csum (s_stats st) + 1\<rparr> \<and>
    dsk (fdc_serve e st) = dsk st \<and> uart_out (fdc_serve e st) = uart_out st \<and>
    uart_in (fdc_serve e st) = evs \<and> s_tcp_fd (fdc_serve e st) = s_tcp_fd st"
proof -
  let ?b = "blk[i := x]"
  have l: "length ?b = 10" using assms(3) by simp
  have bad: "\<not> fdc_block_valid ?b" by (rule block_corrupt[OF assms(3-6)])
  have e0: "uart_recv evs 0 = ([], evs)" by (cases evs) simp_all
  have r1: "uart_recv (uart_in st) 1 = (take 1 ?b, RxBytes (drop 1 ?b) # evs)" using assms(7) l by simp
  have r2: "uart_recv (RxBytes (drop 1 ?b) # evs) 9 = (drop 1 ?b, evs)" using e0 l by simp
  have cmd: "take 1 ?b @ drop 1 ?b = ?b" by simp
  have m: "memcpy0 (take 1 ?b @ drop 1 ?b) buf = ?b" if "length buf = 10" for buf
    using that l unfolding cmd by (simp add: memcpy0_def)
  have lb: "length (memcpy0 (take 1 ?b) (s_cmd st)) = 10" using assms(2) l by (simp add: length_memcpy0)
  have ot: "\<not> on_tcp (st\<lparr>uart_in := u, s_cmd := c\<rparr>)" for u c using assms(1) by (simp add: on_tcp_def)
  have "fdc_serve e st = upd_stats (\<lambda>s. s\<lparr>n_cmd_csum := n_cmd_csum s + 1\<rparr>) (st\<lparr>uart_in := evs, s_cmd := ?b\<rparr>)"
    using assms(1) r1 r2 l bad m[OF lb] ot by (simp add: fdc_serve_def link_recv_def Let_def)
  then show ?thesis by (simp add: upd_stats_def)
qed

theorem corrupt_command_ignored_witness:
  "uart_out (fdc_serve demo_env (demo_fdc (replicate 10 0)
     [RxBytes ((fdc_block ''READ'' 0x1001 128)[5 := 0x20]), RxDeadline])) = []"
proof -
  have v: "fdc_block_valid (fdc_block ''READ'' 0x1001 128)" by (rule fdc_block_fields) simp
  have n: "(0x20 :: byte) \<noteq> fdc_block ''READ'' 0x1001 128 ! 5"
    by (simp add: fdc_block_def ascii_def le16_eq)
  show ?thesis
    using corrupt_command_ignored[OF _ _ _ v _ n, of "demo_fdc (replicate 10 0)
        [RxBytes ((fdc_block ''READ'' 0x1001 128)[5 := 0x20]), RxDeadline]" "[RxDeadline]" demo_env]
    by (simp add: demo_fdc_def on_tcp_def)
qed

text \<open>
  The task survives everything and counts each transaction once: from a well-formed
  state one turn of the loop, whatever arrives, ends in a well-formed state with the disk's
  invariant, and moves the command counters by exactly one in total if at least one byte
  arrived, by none if nothing did.
\<close>

theorem serve_counts_once:
  assumes "env_ok e" "run_ok e" "fdc_wf st"
  shows "fdc_wf (fdc_serve e st) \<and> (\<exists>b r. input st = b @ r \<and> length b \<le> 10 \<and>
    tally (s_stats (fdc_serve e st)) = tally (s_stats st) + (if b = [] then 0 else 1) \<and>
    (b = [] \<longrightarrow> input (fdc_serve e st) = input st))"
  using fdc_serve_inv[OF assms] by blast

theorem serve_counts_once_witness:
  "fdc_wf (fdc_serve demo_env (demo_fdc (replicate 10 0) [RxBytes [0x53, 0x54], RxDeadline]))"
  using serve_counts_once[OF demo_env_ok demo_fdc_wf[of "replicate 10 0"]] by simp

end
