(* ===== verification/FdcSession.thy ===== *)
theory FdcSession
  imports FdcProps
begin

text \<open>
  Transactions end to end over the serial line: what the host sends and what it gets back,
  through the receive loop, the dispatcher, the handlers of \<^verbatim>\<open>src/fdc/fdc.c\<close> and the disk
  store. The bytes may arrive in any pieces with any pauses, as long as no deadline passes
  in the middle of a transaction (\<open>steady\<close>).
\<close>

section \<open>A line that keeps up\<close>

fun keeps_up :: "rx_ev list \<Rightarrow> bool" where
  "keeps_up [] = True"
| "keeps_up (RxBytes bs # evs) = keeps_up evs"
| "keeps_up (RxWait # evs) = keeps_up evs"
| "keeps_up (ev # evs) = False"

definition steady :: "fdc_state \<Rightarrow> bool" where
  "steady st \<longleftrightarrow> \<not> on_tcp st \<and> keeps_up (uart_in st)"

lemma uart_recv_all:
  "keeps_up evs \<Longrightarrow> n \<le> length (rx_bytes evs) \<Longrightarrow> uart_recv evs n = (got, rest) \<Longrightarrow>
     length got = n \<and> keeps_up rest"
proof (induction evs n arbitrary: got rest rule: uart_recv.induct)
  case (2 ev evs need)
  show ?case
  proof (cases "need = 0")
    case False
    show ?thesis
    proof (cases ev)
      case (RxBytes bs)
      show ?thesis
      proof (cases "length bs > need")
        case True
        then show ?thesis using 2(3,5) False RxBytes by auto
      next
        case le: False
        then obtain g where g: "uart_recv evs (need - length bs) = (g, rest)" "got = bs @ g"
          using 2(5) False RxBytes by (auto split: prod.splits)
        have "keeps_up evs" "need - length bs \<le> length (rx_bytes evs)" using 2(3,4) RxBytes by simp_all
        from 2(1)[OF False RxBytes le this g(1)] show ?thesis using g(2) le by simp
      qed
    next
      case RxWait
      then show ?thesis using 2(2)[OF False RxWait] 2(3-5) False by simp
    qed (use 2(3) in simp_all)
  next
    case True
    then show ?thesis using 2(3,5) by simp
  qed
qed simp

lemma uart_recv_steady:
  assumes "keeps_up evs" "n \<le> length (rx_bytes evs)" "uart_recv evs n = (got, rest)"
  shows "got = take n (rx_bytes evs) \<and> rx_bytes rest = drop n (rx_bytes evs) \<and> keeps_up rest"
  using uart_recv_all[OF assms] uart_recv_split[OF assms(3)] by auto

lemma steady_recv:
  assumes "steady st" "n \<le> length (input st)" "link_recv n st = (got, st')"
  shows "got = take n (input st) \<and> input st' = drop n (input st) \<and> steady st' \<and> same_engine st st' \<and> sent st' = sent st"
proof -
  obtain g r where u: "uart_recv (uart_in st) n = (g, r)" by (metis surj_pair)
  then have st': "st' = st\<lparr>uart_in := r\<rparr>" "got = g" using assms(1,3) by (auto simp: link_recv_def steady_def)
  have "on_tcp st' = on_tcp st" using st' by (simp add: on_tcp_def)
  then show ?thesis
    using uart_recv_steady[OF _ _ u] assms(1,2) link_recv_same[OF assms(3)] st'
    by (simp add: steady_def input_def)
qed

lemma steady_simps [simp]:
  "steady (upd_stats f st) = steady st" "steady (set_last_op t st) = steady st" "steady (blip st) = steady st"
  "steady (led_drive_select d st) = steady st" "steady (st\<lparr>s_data := x\<rparr>) = steady st" "steady (st\<lparr>s_cmd := c\<rparr>) = steady st"
  "steady (st\<lparr>dsk := dk, s_data := x\<rparr>) = steady st" "steady (st\<lparr>dsk := dk\<rparr>) = steady st"
  by (simp_all add: steady_def upd_stats_def set_last_op_def blip_def led_drive_activity_def led_status_blip_def
      led_drive_select_def on_tcp_def)

lemma steady_send: "steady st \<Longrightarrow> steady (link_send b st) \<and> sent (link_send b st) = sent st @ b"
  by (simp add: steady_def link_send_def sent_def on_tcp_def)

lemma steady_reply:
  assumes "steady st" "length (s_resp st) = 10" "length cmd = 4"
  shows "steady (reply cmd code st) \<and> sent (reply cmd code st) = sent st @ fdc_block cmd code 0"
proof -
  have "steady (build_resp cmd code 0 st)" using assms(1) by (simp add: steady_def build_resp_def on_tcp_def)
  from steady_send[OF this, of "fdc_block cmd code 0"] show ?thesis
    by (simp add: reply_outcome(1)[OF assms(2,3)])
qed

text \<open>A valid command block on a steady line is dispatched.\<close>

lemma serve_steady:
  assumes "steady st" "fdc_wf st" "input st = blk @ rest" "length blk = 10" "fdc_block_valid blk"
  shows "\<exists>st1. fdc_serve e st = dispatch e st1 \<and> fdc_wf st1 \<and> steady st1 \<and> input st1 = rest \<and> s_cmd st1 = blk \<and>
    dsk st1 = dsk st \<and> sent st1 = sent st"
proof -
  have tcp: "\<not> on_tcp st" using assms(1) by (simp add: steady_def)
  obtain b0 s1 where r1: "link_recv 1 st = (b0, s1)" by (metis surj_pair)
  note q1 = steady_recv[OF assms(1) _ r1]
  have b0: "b0 = take 1 blk" "input s1 = drop 1 blk @ rest" "steady s1" "same_engine st s1" "sent s1 = sent st"
    using q1 assms(3,4) by simp_all
  let ?s1 = "s1\<lparr>s_cmd := memcpy0 b0 (s_cmd s1)\<rparr>"
  have f1: "input ?s1 = input s1" "sent ?s1 = sent s1" by (simp_all add: input_def sent_def on_tcp_def)
  obtain bs s2 where r2: "link_recv 9 ?s1 = (bs, s2)" by (metis surj_pair)
  have q2: "bs = drop 1 blk" "input s2 = rest" "steady s2" "same_engine ?s1 s2" "sent s2 = sent st"
    using steady_recv[OF _ _ r2] b0 f1 assms(4) by simp_all
  let ?s2 = "s2\<lparr>s_cmd := memcpy0 (b0 @ bs) (s_cmd s2)\<rparr>"
  have cmd: "b0 @ bs = blk" using b0(1) q2(1) append_take_drop_id[of 1 blk] by simp
  have l: "length (s_cmd s2) = 10"
    using q2(4) b0(1,4) assms(2,4) by (simp add: same_engine_def fdc_wf_def length_memcpy0)
  have c: "s_cmd ?s2 = blk" using cmd l assms(4) by (simp add: memcpy0_def)
  have "fdc_serve e st = dispatch e ?s2"
    using tcp r1 r2 b0(1) q2(1) assms(4,5) c by (simp add: fdc_serve_def Let_def)
  moreover have "input ?s2 = input s2" "sent ?s2 = sent s2" by (simp_all add: input_def sent_def on_tcp_def)
  ultimately show ?thesis
    using q2 b0(4) c assms(2,4) by (intro exI[of _ ?s2]) (simp add: same_engine_def fdc_wf_def)
qed

section \<open>A WRIT and a READ\<close>

lemma dispatch_writ: "s_cmd st = fdc_block ''WRIT'' w n \<Longrightarrow> dispatch e st = handle_writ e (blip st)"
  and dispatch_read: "s_cmd st = fdc_block ''READ'' w n \<Longrightarrow> dispatch e st = handle_read e (blip st)"
  using fdc_block_fields(2)[of "''WRIT''" w n] fdc_block_fields(2)[of "''READ''" w n]
  by (simp_all add: dispatch_def blip_def[symmetric] Let_def ascii_def)

definition writ_ready :: "nat \<Rightarrow> u16 \<Rightarrow> disk_state \<Rightarrow> bool" where
  "writ_ready d n dk \<longleftrightarrow>
     0 < unat n \<and> unat n \<le> 8192 \<and> disk_is_mounted (int d) dk \<and> \<not> disk_is_readonly (int d) dk"

text \<open>The two replies to a WRIT whose data arrives whole, and what the second one says.\<close>

lemma writ_turn:
  fixes e :: disk_env
  assumes "steady st" "fdc_wf st" "length x = unat n"
    and "input st = fdc_block ''WRIT'' w n @ x @ le16 (fdc_checksum16 x) @ rest"
  defines "d \<equiv> unat (fdc_word1_drive w)" and "st' \<equiv> fdc_serve e st"
  shows "if writ_ready d n (dsk st)
    then \<exists>buf err. length buf = 8192 \<and> take (unat n) buf = x \<and> steady st' \<and> input st' = rest \<and>
      disk_write_track e (int d) (ucast (fdc_word1_track w)) (unat n) (Some buf) (dsk st) = (err, dsk st') \<and>
      sent st' = sent st @ fdc_block ''WRIT'' 0 0 @ fdc_block ''WSTA'' (if err = ESP_OK then 0 else 3) 0
    else sent st' = sent st @ fdc_block ''WRIT'' 1 0"
proof -
  obtain s0 where s0: "fdc_serve e st = dispatch e s0" "fdc_wf s0" "steady s0"
    "input s0 = x @ le16 (fdc_checksum16 x) @ rest" "s_cmd s0 = fdc_block ''WRIT'' w n" "dsk s0 = dsk st" "sent s0 = sent st"
    using serve_steady[OF assms(1,2,4)] fdc_block_fields(1)[of "''WRIT''" w n] by auto
  let ?b = "blip s0"
  have st': "st' = handle_writ e ?b" using s0(1) dispatch_writ[OF s0(5)] by (simp add: st'_def)
  have cmd: "cmd_drive ?b = d" "cmd_track ?b = fdc_word1_track w" "cmd_len ?b = unat n" "fdc_read_le16 (s_cmd ?b) 6 = n"
    using fdc_block_fields(3,4)[of "''WRIT''" w n]
    by (simp_all add: cmd_drive_def cmd_track_def cmd_len_def s0(5) d_def)
  have wf: "length (s_resp ?b) = 10" "length (s_data ?b) = 8192" using s0(2) by (simp_all add: fdc_wf_def)
  let ?s1 = "\<lambda>c. reply ''WRIT'' c (led_drive_select d ?b)"
  have s1: "steady (?s1 c)" "sent (?s1 c) = sent st @ fdc_block ''WRIT'' c 0" "length (s_resp (?s1 c)) = 10"
    "input (?s1 c) = x @ le16 (fdc_checksum16 x) @ rest" "s_data (?s1 c) = s_data ?b" "dsk (?s1 c) = dsk st" for c
    using steady_reply[of "led_drive_select d ?b" "''WRIT''" c] reply_outcome(2)[of "led_drive_select d ?b" "''WRIT''" c]
      s0 wf by simp_all
  show ?thesis
  proof (cases "writ_ready d n (dsk st)")
    case False
    then show ?thesis
      using s1(2)[of 1] s0(6) unfolding st' handle_writ_unfold Let_def cmd by (auto simp: writ_ready_def)
  next
    case True
    have r: "0 < unat n \<and> unat n \<le> 8192 \<and> disk_is_mounted (int d) (dsk ?b) \<and> \<not> disk_is_readonly (int d) (dsk ?b)"
      using True s0(6) by (simp add: writ_ready_def)
    obtain got s2 where r1: "link_recv (unat n) (?s1 0) = (got, s2)" by (metis surj_pair)
    have q1: "got = x" "input s2 = le16 (fdc_checksum16 x) @ rest" "steady s2" "same_engine (?s1 0) s2" "sent s2 = sent (?s1 0)"
      using steady_recv[OF s1(1) _ r1] s1(4) assms(3) by simp_all
    let ?buf = "memcpy0 x (s_data s2)" and ?s2 = "s2\<lparr>s_data := memcpy0 x (s_data s2)\<rparr>"
    have buf: "length ?buf = 8192" "take (unat n) ?buf = x"
      using q1(4) s1(5) wf(2) take_memcpy0[of x "s_data s2"] assms(3) r
      by (simp_all add: same_engine_def length_memcpy0)
    obtain ck s3 where r2: "link_recv 2 ?s2 = (ck, s3)" by (metis surj_pair)
    have q2: "ck = le16 (fdc_checksum16 x)" "input s3 = rest" "steady s3" "same_engine ?s2 s3" "sent s3 = sent (?s1 0)"
      using steady_recv[OF _ _ r2] q1 by simp_all
    obtain err dk where w: "disk_write_track e (int d) (ucast (fdc_word1_track w)) (unat n) (Some ?buf) (dsk st) = (err, dk)"
      by (metis surj_pair)
    have s3: "s_data s3 = ?buf" "dsk s3 = dsk st" "length (s_resp s3) = 10"
      using q2(4) q1(4) s1(3,6) by (simp_all add: same_engine_def)
    obtain code s4 where c: "writ_commit e d (fdc_word1_track w) n ck s3 = (code, s4)" by (metis surj_pair)
    have "\<exists>t f. s4 = set_last_op t (upd_stats f (s3\<lparr>dsk := dk\<rparr>)) \<and>
        code = (if err = ESP_OK then FDC_RESP_OK else FDC_RESP_WRITE_ERR)"
      using c w s3 q2(1) buf(2) by (cases "err = ESP_OK") (auto simp: writ_commit_def read_le16_le16 Let_def)
    then obtain t f where c4: "s4 = set_last_op t (upd_stats f (s3\<lparr>dsk := dk\<rparr>))"
      "code = (if err = ESP_OK then FDC_RESP_OK else FDC_RESP_WRITE_ERR)" by blast
    have s4: "resp_code code = (if err = ESP_OK then 0 else 3)" "dsk s4 = dk" "steady s4" "input s4 = rest"
      "sent s4 = sent (?s1 0)" "length (s_resp s4) = 10"
      using q2 s3 by (simp_all add: c4)
    have "st' = reply ''WSTA'' (resp_code code) s4"
      using r r1 r2 c q1(1) q2(1) assms(3) unfolding st' handle_writ_unfold Let_def cmd by simp
    then show ?thesis
      using w s4 buf s1(2)[of 0] steady_reply[OF s4(3,6), of "''WSTA''"] unfolding if_P[OF True]
      by (intro exI[of _ ?buf] exI[of _ err]) simp
  qed
qed

lemma read_turn:
  fixes e :: disk_env
  assumes "steady st" "fdc_wf st" "input st = fdc_block ''READ'' w n @ rest" "length x = unat n" "unat n \<le> 8192"
    and r: "disk_read_track e (int (unat (fdc_word1_drive w))) (ucast (fdc_word1_track w)) (unat n) True (dsk st) =
      (ESP_OK, Some x, dk)"
  defines "st' \<equiv> fdc_serve e st"
  shows "sent st' = sent st @ x @ le16 (fdc_checksum16 x) \<and> input st' = rest \<and> steady st' \<and> dsk st' = dk"
proof -
  obtain s0 where s0: "fdc_serve e st = dispatch e s0" "fdc_wf s0" "steady s0"
    "input s0 = rest" "s_cmd s0 = fdc_block ''READ'' w n" "dsk s0 = dsk st" "sent s0 = sent st"
    using serve_steady[OF assms(1,2,3)] fdc_block_fields(1)[of "''READ''" w n] by auto
  let ?s = "(led_drive_select (unat (fdc_word1_drive w)) (blip s0))\<lparr>dsk := dk, s_data := memcpy0 x (s_data s0)\<rparr>"
  let ?s2 = "link_send (le16 (fdc_checksum16 x)) (link_send x ?s)"
  have x: "take (unat n) (memcpy0 x (s_data s0)) = x" using take_memcpy0[of x "s_data s0"] assms(4) by simp
  have f: "fdc_read_le16 (s_cmd (blip s0)) 4 = w" "fdc_read_le16 (s_cmd (blip s0)) 6 = n"
    using fdc_block_fields(3,4)[of "''READ''" w n] by (simp_all add: s0(5))
  have "\<exists>t g. st' = set_last_op t (upd_stats g ?s2)"
    using r s0(1,6) dispatch_read[OF s0(5)] f x
    by (auto simp: st'_def handle_read_def Let_def le16_def)
  then obtain t g where st': "st' = set_last_op t (upd_stats g ?s2)" by blast
  have "input (s\<lparr>dsk := dk, s_data := y\<rparr>) = input s" for s y by (simp add: input_def on_tcp_def)
  then have "steady ?s" "sent ?s = sent st" "input ?s = rest" using s0 by simp_all
  then show ?thesis
    using steady_send[of ?s x] steady_send[of "link_send x ?s" "le16 (fdc_checksum16 x)"] unfolding st' by simp
qed

section \<open>Property\<close>

text \<open>
  C4. What the host writes it reads back: the host sends, in any pieces, a WRIT command for a
  drive on the card, the track's bytes, their checksum, and then a READ of the same track. If
  the engine answered the WRIT with "WRIT" and "WSTA", both with code 0, then its answer to
  the READ is exactly the bytes written and their checksum, whatever the card does in the
  meantime; no track of another drive has changed, and the line stands right after the two
  transactions.
\<close>

theorem wire_write_then_read:
  fixes e e' :: disk_env
  assumes "env_ok e" "run_ok e" "fdc_wf st" "steady st" "length x = unat n"
    and "input st = fdc_block ''WRIT'' w n @ x @ le16 (fdc_checksum16 x) @ fdc_block ''READ'' w n @ rest"
    and "\<not> remote (drv (dsk st) (int (unat (fdc_word1_drive w))))"
    and "sent (fdc_serve e st) = sent st @ fdc_block ''WRIT'' 0 0 @ fdc_block ''WSTA'' 0 0"
  defines "st1 \<equiv> fdc_serve e st" and "st2 \<equiv> fdc_serve e' (fdc_serve e st)"
  shows "sent st2 = sent st1 @ x @ le16 (fdc_checksum16 x) \<and> input st2 = rest \<and> dsk st2 = dsk st1 \<and>
    (\<forall>d t k. d \<noteq> int (unat (fdc_word1_drive w)) \<longrightarrow> store_track (dsk st2) d t k = store_track (dsk st) d t k)"
proof -
  let ?d = "int (unat (fdc_word1_drive w))" and ?t = "ucast (fdc_word1_track w) :: u32"
  have ready: "writ_ready (unat (fdc_word1_drive w)) n (dsk st)"
    using writ_turn[OF assms(4,3,5,6), of e] assms(8) by (auto split: if_splits dest!: arg_cong[of _ _ length])
  then obtain buf err where b: "length buf = 8192" "take (unat n) buf = x" "steady st1"
    "input st1 = fdc_block ''READ'' w n @ rest"
    "disk_write_track e ?d ?t (unat n) (Some buf) (dsk st) = (err, dsk st1)"
    "fdc_block ''WSTA'' (if err = ESP_OK then 0 else 3) 0 = fdc_block ''WSTA'' 0 0"
    using writ_turn[OF assms(4,3,5,6), of e] assms(8) unfolding st1_def by auto
  have "(if err = ESP_OK then 0 else 3 :: u16) = 0"
    using arg_cong[OF b(6), of "\<lambda>b. fdc_read_le16 b 4"] by (simp add: fdc_block_fields(3))
  then have ok: "err = ESP_OK" by (simp split: if_splits)
  have inv: "disk_inv None (dsk st)" "unat n \<le> length buf" using assms(3) b(1) ready by (simp_all add: fdc_wf_def writ_ready_def)
  note r = track_after_write[OF assms(1) inv(1) assms(7) inv(2) b(5)[unfolded ok], of e', unfolded b(2)]
  have wf: "fdc_wf st1" using fdc_serve_inv[OF assms(1-3)] by (simp add: st1_def)
  have "unat n \<le> 8192" using ready by (simp add: writ_ready_def)
  note rd = read_turn[OF b(3) wf b(4) assms(5) this r, folded st1_def]
  have "store_track (dsk st1) d t k = store_track (dsk st) d t k" if "d \<noteq> ?d" for d t k
    using sds.wr_frame[OF _ assms(7) inv(2) b(5) that] assms(1,2) inv(1) by simp
  then show ?thesis using rd unfolding st2_def st1_def by simp
qed

text \<open>The host of the witness: it pauses in the middle of the command, and sends the rest in one go.\<close>

definition demo_host :: "rx_ev list" where
  "demo_host =
     [RxBytes (take 3 (fdc_block ''WRIT'' 0x1001 128)), RxWait,
      RxBytes (drop 3 (fdc_block ''WRIT'' 0x1001 128) @ replicate 128 5 @ le16 (fdc_checksum16 (replicate 128 5))), RxWait,
      RxBytes (fdc_block ''READ'' 0x1001 128)]"

lemma demo_write_ok:
  assumes "length buf = 8192"
  shows "fst (disk_write_track demo_env 1 1 128 (Some buf) demo_disk) = ESP_OK"
proof -
  note sl = demo_disk_facts(2) and fl = demo_disk_facts(3,4,6)
  have c: "check_track 1 1 128 demo_disk = ESP_OK"
    using sl by (simp add: check_track_ok drive_ok_def slot_local_def demo_backing_def track_in_bounds_iff)
  then show ?thesis
    using sl fl assms by (simp add: disk_write_track_def slot_local_def demo_backing_def empty_drive_def
        backing_write_at_def local_write_at_def demo_env_def demo_io_def demo_files_def Let_def)
qed

theorem wire_write_then_read_witness:
  "sent (fdc_serve demo_env (fdc_serve demo_env (demo_fdc (replicate 10 0) demo_host))) =
     fdc_block ''WRIT'' 0 0 @ fdc_block ''WSTA'' 0 0 @ replicate 128 5 @ le16 (fdc_checksum16 (replicate 128 5))"
proof -
  let ?st = "demo_fdc (replicate 10 0) demo_host" and ?x = "replicate 128 (5 :: byte)" and ?w = "0x1001 :: u16"
  have st: "steady ?st" "dsk ?st = demo_disk" "sent ?st = []"
    by (simp_all add: demo_fdc_def steady_def on_tcp_def demo_host_def sent_def)
  have i: "input ?st = fdc_block ''WRIT'' ?w 128 @ ?x @ le16 (fdc_checksum16 ?x) @ fdc_block ''READ'' ?w 128 @ []"
    by (simp add: demo_fdc_def input_def on_tcp_def demo_host_def)
  have d: "unat (fdc_word1_drive ?w) = 1" "ucast (fdc_word1_track ?w) = (1 :: u32)"
    by (simp_all add: unat_word1_drive fdc_word1_track_def)
  have loc: "\<not> remote (drv (dsk ?st) (int (unat (fdc_word1_drive ?w))))"
    using demo_disk_facts(2) d st(2) by (simp add: slot_local_def empty_drive_def)
  have ready: "writ_ready 1 128 (dsk ?st)"
    using demo_disk_facts(2) st(2) by (simp add: writ_ready_def disk_is_mounted_def disk_is_readonly_def drive_ok_def slot_local_def)
  have "length ?x = unat (128 :: u16)" by simp
  note t = writ_turn[OF st(1) demo_fdc_wf this i, of demo_env, unfolded d if_P[OF ready]]
  have ok: "sent (fdc_serve demo_env ?st) = sent ?st @ fdc_block ''WRIT'' 0 0 @ fdc_block ''WSTA'' 0 0"
  proof -
    obtain buf err where b: "length buf = 8192"
      "disk_write_track demo_env 1 1 128 (Some buf) demo_disk = (err, dsk (fdc_serve demo_env ?st))"
      "sent (fdc_serve demo_env ?st) = sent ?st @ fdc_block ''WRIT'' 0 0 @ fdc_block ''WSTA'' (if err = ESP_OK then 0 else 3) 0"
      using t by (auto simp: st(2))
    have "err = ESP_OK" using demo_write_ok[OF b(1)] b(2) by simp
    then show ?thesis using b(3) by simp
  qed
  have "length ?x = unat (128 :: u16)" by simp
  from wire_write_then_read[OF demo_env_ok demo_fdc_wf st(1) this i loc ok, of demo_env] ok st(3) show ?thesis
    by simp
qed

end
