(* ===== verification/TnfsProto.thy ===== *)
theory TnfsProto
  imports SdsPrelude
begin

text \<open>
  The TNFS wire format of \<^verbatim>\<open>include/tnfs_proto.h\<close>, shared by the client and the server: the
  command and status bytes, the sizes of a message, and the little-endian accessors with
  their round trips.
\<close>

section \<open>Constants\<close>

abbreviation (input) TNFS_HDR_LEN :: nat where "TNFS_HDR_LEN \<equiv> 4"
abbreviation (input) TNFS_IO_CHUNK :: nat where "TNFS_IO_CHUNK \<equiv> 1024"
abbreviation (input) TNFS_MSG_CAP :: nat where "TNFS_MSG_CAP \<equiv> 1032"

abbreviation (input) TNFS_MOUNT :: byte where "TNFS_MOUNT \<equiv> 0x00"
abbreviation (input) TNFS_UMOUNT :: byte where "TNFS_UMOUNT \<equiv> 0x01"
abbreviation (input) TNFS_OPENDIR :: byte where "TNFS_OPENDIR \<equiv> 0x10"
abbreviation (input) TNFS_READDIR :: byte where "TNFS_READDIR \<equiv> 0x11"
abbreviation (input) TNFS_CLOSEDIR :: byte where "TNFS_CLOSEDIR \<equiv> 0x12"
abbreviation (input) TNFS_MKDIR :: byte where "TNFS_MKDIR \<equiv> 0x13"
abbreviation (input) TNFS_RMDIR :: byte where "TNFS_RMDIR \<equiv> 0x14"
abbreviation (input) TNFS_OPENDIRX :: byte where "TNFS_OPENDIRX \<equiv> 0x17"
abbreviation (input) TNFS_READDIRX :: byte where "TNFS_READDIRX \<equiv> 0x18"
abbreviation (input) TNFS_READ :: byte where "TNFS_READ \<equiv> 0x21"
abbreviation (input) TNFS_WRITE :: byte where "TNFS_WRITE \<equiv> 0x22"
abbreviation (input) TNFS_CLOSE :: byte where "TNFS_CLOSE \<equiv> 0x23"
abbreviation (input) TNFS_STAT :: byte where "TNFS_STAT \<equiv> 0x24"
abbreviation (input) TNFS_LSEEK :: byte where "TNFS_LSEEK \<equiv> 0x25"
abbreviation (input) TNFS_UNLINK :: byte where "TNFS_UNLINK \<equiv> 0x26"
abbreviation (input) TNFS_CHMOD :: byte where "TNFS_CHMOD \<equiv> 0x27"
abbreviation (input) TNFS_RENAME :: byte where "TNFS_RENAME \<equiv> 0x28"
abbreviation (input) TNFS_OPEN :: byte where "TNFS_OPEN \<equiv> 0x29"

abbreviation (input) TNFS_OK :: byte where "TNFS_OK \<equiv> 0x00"
abbreviation (input) TNFS_EPERM :: byte where "TNFS_EPERM \<equiv> 0x01"
abbreviation (input) TNFS_ENOENT :: byte where "TNFS_ENOENT \<equiv> 0x02"
abbreviation (input) TNFS_EIO :: byte where "TNFS_EIO \<equiv> 0x03"
abbreviation (input) TNFS_EBADF :: byte where "TNFS_EBADF \<equiv> 0x06"
abbreviation (input) TNFS_EAGAIN :: byte where "TNFS_EAGAIN \<equiv> 0x07"
abbreviation (input) TNFS_ENOMEM :: byte where "TNFS_ENOMEM \<equiv> 0x08"
abbreviation (input) TNFS_EACCES :: byte where "TNFS_EACCES \<equiv> 0x09"
abbreviation (input) TNFS_EBUSY :: byte where "TNFS_EBUSY \<equiv> 0x0A"
abbreviation (input) TNFS_EEXIST :: byte where "TNFS_EEXIST \<equiv> 0x0B"
abbreviation (input) TNFS_ENOTDIR :: byte where "TNFS_ENOTDIR \<equiv> 0x0C"
abbreviation (input) TNFS_EISDIR :: byte where "TNFS_EISDIR \<equiv> 0x0D"
abbreviation (input) TNFS_EINVAL :: byte where "TNFS_EINVAL \<equiv> 0x0E"
abbreviation (input) TNFS_EMFILE :: byte where "TNFS_EMFILE \<equiv> 0x10"
abbreviation (input) TNFS_ENOSPC :: byte where "TNFS_ENOSPC \<equiv> 0x12"
abbreviation (input) TNFS_EROFS :: byte where "TNFS_EROFS \<equiv> 0x14"
abbreviation (input) TNFS_ENAMETOOLONG :: byte where "TNFS_ENAMETOOLONG \<equiv> 0x15"
abbreviation (input) TNFS_ENOSYS :: byte where "TNFS_ENOSYS \<equiv> 0x16"
abbreviation (input) TNFS_ENOTEMPTY :: byte where "TNFS_ENOTEMPTY \<equiv> 0x17"
abbreviation (input) TNFS_EOF :: byte where "TNFS_EOF \<equiv> 0x21"

section \<open>Little-endian accessors\<close>

definition tnfs_rd16 :: "bytes \<Rightarrow> u16" where
  "tnfs_rd16 p = ucast (p ! 0) OR push_bit 8 (ucast (p ! 1))"

definition tnfs_rd32 :: "bytes \<Rightarrow> u32" where
  "tnfs_rd32 p = ucast (p ! 0) OR push_bit 8 (ucast (p ! 1)) OR
     push_bit 16 (ucast (p ! 2)) OR push_bit 24 (ucast (p ! 3))"

definition tnfs_wr16 :: "u16 \<Rightarrow> bytes" where
  "tnfs_wr16 v = [ucast v, ucast (drop_bit 8 v)]"

definition tnfs_wr32 :: "u32 \<Rightarrow> bytes" where
  "tnfs_wr32 v = [ucast v, ucast (drop_bit 8 v), ucast (drop_bit 16 v), ucast (drop_bit 24 v)]"

lemma length_wr16 [simp]: "length (tnfs_wr16 v) = 2"
  by (simp add: tnfs_wr16_def)

lemma length_wr32 [simp]: "length (tnfs_wr32 v) = 4"
  by (simp add: tnfs_wr32_def)

lemma rd16_wr16 [simp]: "tnfs_rd16 (tnfs_wr16 v @ r) = v"
  by (rule bit_word_eqI) (auto simp: tnfs_rd16_def tnfs_wr16_def bit_simps not_less)

lemma rd32_wr32 [simp]: "tnfs_rd32 (tnfs_wr32 v @ r) = v"
proof (rule bit_word_eqI)
  fix n assume n: "n < LENGTH(32)"
  then consider "n < 8" | "8 \<le> n" "n < 16" | "16 \<le> n" "n < 24" | "24 \<le> n" "n < 32" by fastforce
  then show "bit (tnfs_rd32 (tnfs_wr32 v @ r)) n = bit v n"
    by cases (auto simp: tnfs_rd32_def tnfs_wr32_def bit_simps)
qed

lemma wr16_rd16: "2 \<le> length p \<Longrightarrow> tnfs_wr16 (tnfs_rd16 p) = take 2 p"
proof -
  assume "2 \<le> length p"
  then obtain a b r where p: "p = a # b # r" by (metis Suc_le_length_iff numeral_2_eq_2)
  have "ucast (tnfs_rd16 p) = a" "ucast (drop_bit 8 (tnfs_rd16 p)) = b"
    by (rule bit_word_eqI; auto simp: tnfs_rd16_def p bit_simps dest: bit_imp_le_length)+
  then show ?thesis by (simp add: tnfs_wr16_def p)
qed

lemmas rd16_wr16_end [simp] = rd16_wr16[of _ "[]", simplified]
lemmas rd32_wr32_end [simp] = rd32_wr32[of _ "[]", simplified]

text \<open>
  A C string inside a received message: \<^verbatim>\<open>memchr(p, 0, n)\<close> must find its NUL, and what
  follows the NUL.
\<close>

definition c_str :: "bytes \<Rightarrow> string option" where
  "c_str p = (if 0 \<in> set p then Some (chars (takeWhile (\<lambda>b. b \<noteq> 0) p)) else None)"

definition after_nul :: "bytes \<Rightarrow> bytes" where
  "after_nul p = tl (dropWhile (\<lambda>b. b \<noteq> 0) p)"

lemma c_str_append [simp]: "0 \<notin> set b \<Longrightarrow> c_str (b @ 0 # r) = Some (chars b)"
  by (simp add: c_str_def takeWhile_append)

lemma after_nul_append [simp]: "0 \<notin> set b \<Longrightarrow> after_nul (b @ 0 # r) = r"
  by (simp add: after_nul_def dropWhile_append)

end
