(* ===== verification/TnfsClient.thy ===== *)
theory TnfsClient
  imports TnfsProto TnfsUrl
begin

text \<open>
  The TNFS client of \<^verbatim>\<open>src/net/tnfs.c\<close>: framing of responses on a datagram and on a stream
  socket, the command with its retransmissions, opening a file with its transport probe,
  seeking, and the chunked read and write. The network is a parameter \<open>'n\<close> with the socket
  calls; \<open>n_rx\<close> are the pieces (datagrams, or chunks of the stream) that successive \<^verbatim>\<open>recv\<close>
  calls return before one times out.
\<close>

section \<open>The network and the session\<close>

record 'n net =
  n_send :: "bytes \<Rightarrow> 'n \<Rightarrow> bool \<times> 'n"
  n_rx :: "'n \<Rightarrow> bytes list"
  n_set_rx :: "bytes list \<Rightarrow> 'n \<Rightarrow> 'n"
  n_delay :: "nat \<Rightarrow> 'n \<Rightarrow> 'n"
  n_connect :: "string \<Rightarrow> u16 \<Rightarrow> bool \<Rightarrow> 'n \<Rightarrow> bool \<times> 'n"
  n_close :: "'n \<Rightarrow> 'n"

text \<open>
  \<^verbatim>\<open>struct tnfs_file\<close>; \<open>f_resp\<close> are the first \<^verbatim>\<open>resp_len\<close> bytes of the response buffer. The
  request buffer is built by each command and passed to the send.
\<close>

record tnfs_file =
  f_tcp :: bool
  f_conn :: u16
  f_seq :: byte
  f_fd :: byte
  f_size :: u32
  f_pos :: u32
  f_pos_valid :: bool
  f_resp :: bytes

type_synonym 'n cstate = "tnfs_file \<times> 'n"

abbreviation (input) TNFS_RETRIES :: nat where "TNFS_RETRIES \<equiv> 3"

section \<open>Responses\<close>

text \<open>Exactly \<open>n\<close> bytes of the stream: what was read, the rest of the stream, and success.\<close>

function tcp_read_exact :: "bytes list \<Rightarrow> nat \<Rightarrow> bytes \<times> bytes list \<times> bool" where
  "tcp_read_exact q n =
     (if n = 0 then ([], q, True)
      else case q of
             [] \<Rightarrow> ([], [], False)
           | c # q \<Rightarrow> if c = [] then ([], q, False)
                      else if length c > n then (take n c, drop n c # q, True)
                      else (case tcp_read_exact q (n - length c) of (d, q, ok) \<Rightarrow> (c @ d, q, ok)))"
  by pat_completeness auto
termination
  by (relation "measure (\<lambda>(q, n). length q)") auto

declare tcp_read_exact.simps [simp del]

text \<open>
  The framing works on the bytes received so far and the stream; a step either goes on
  (\<open>ESP_OK\<close>) or ends the response.
\<close>

type_synonym frame = "bytes \<times> bytes list"
type_synonym frame_step = "frame \<Rightarrow> esp_err \<times> frame"

definition tcp_take :: "nat \<Rightarrow> frame_step" where
  "tcp_take n fr =
     (case tcp_read_exact (snd fr) n of
        (d, q, ok) \<Rightarrow> (if ok then ESP_OK else ESP_ERR_TIMEOUT, fst fr @ d, q))"

definition then_do :: "frame_step \<Rightarrow> frame_step \<Rightarrow> frame_step" where
  "then_do a b fr = (case a fr of (err, fr) \<Rightarrow> if err = ESP_OK then b fr else (err, fr))"

text \<open>
  A NUL-terminated name, byte by byte; the first argument is what the response buffer still
  has room for.
\<close>

fun tcp_cstr :: "nat \<Rightarrow> frame_step" where
  "tcp_cstr 0 fr = (ESP_FAIL, fr)"
| "tcp_cstr (Suc room) fr =
     (case tcp_take 1 fr of
        (err, fr) \<Rightarrow> if err \<noteq> ESP_OK then (err, fr)
                     else if last (fst fr) = 0 then (ESP_OK, fr) else tcp_cstr room fr)"

definition tcp_name :: frame_step where
  "tcp_name fr = tcp_cstr (TNFS_MSG_CAP - length (fst fr)) fr"

fun tcp_dirents :: "nat \<Rightarrow> frame_step" where
  "tcp_dirents 0 fr = (ESP_OK, fr)"
| "tcp_dirents (Suc n) fr =
     (if length (fst fr) + 13 > TNFS_MSG_CAP then (ESP_FAIL, fr)
      else then_do (then_do (tcp_take 13) tcp_name) (tcp_dirents n) fr)"

text \<open>The fixed part after the status of a successful reply.\<close>

definition tcp_extra :: "byte \<Rightarrow> nat" where
  "tcp_extra cmd =
     (if cmd = TNFS_MOUNT then 4 else if cmd = TNFS_OPEN then 1 else if cmd = TNFS_OPENDIR then 1
      else if cmd = TNFS_OPENDIRX then 3 else if cmd = TNFS_LSEEK then 4 else if cmd = TNFS_WRITE then 2
      else if cmd = TNFS_READ then 2 else 0)"

definition tcp_read_data :: frame_step where
  "tcp_read_data fr =
     (let cnt = unat (tnfs_rd16 (drop 5 (fst fr)))
      in if length (fst fr) + cnt > TNFS_MSG_CAP then (ESP_FAIL, fr)
         else if cnt \<noteq> 0 then tcp_take cnt fr else (ESP_OK, fr))"

definition tcp_body :: "byte \<Rightarrow> frame_step" where
  "tcp_body cmd fr =
     (let status = fst fr ! 4; ok = (status = TNFS_OK \<or> cmd = TNFS_READ \<and> status = TNFS_EOF)
      in if status = TNFS_EAGAIN then tcp_take 2 fr
         else if \<not> ok then (ESP_OK, fr)
         else then_do (if tcp_extra cmd \<noteq> 0 then tcp_take (tcp_extra cmd) else (\<lambda>fr. (ESP_OK, fr)))
                (if cmd = TNFS_READ then tcp_read_data
                 else if cmd = TNFS_READDIR then tcp_name
                 else if cmd = TNFS_READDIRX
                 then then_do (tcp_take 4) (\<lambda>fr. tcp_dirents (unat (fst fr ! 5)) fr)
                 else (\<lambda>fr. (ESP_OK, fr))) fr)"

definition tcp_response :: "'n net \<Rightarrow> byte \<Rightarrow> 'n cstate \<Rightarrow> esp_err \<times> 'n cstate" where
  "tcp_response v cmd st =
     (case then_do (tcp_take 5) (tcp_body cmd) ([], n_rx v (snd st)) of
        (err, resp, q) \<Rightarrow>
          (err, (if err = ESP_OK then (fst st)\<lparr>f_resp := resp\<rparr> else fst st), n_set_rx v q (snd st)))"

text \<open>The first datagram that answers the command, and the datagrams left after it.\<close>

fun udp_scan :: "bytes list \<Rightarrow> byte \<Rightarrow> byte \<Rightarrow> bytes option \<times> bytes list" where
  "udp_scan [] seq cmd = (None, [])"
| "udp_scan (d # q) seq cmd =
     (let r = take TNFS_MSG_CAP d
      in if length r < 5 then udp_scan q seq cmd
         else if r ! 2 \<noteq> seq \<or> r ! 3 \<noteq> cmd then udp_scan q seq cmd
         else (Some r, q))"

definition udp_response :: "'n net \<Rightarrow> byte \<Rightarrow> byte \<Rightarrow> 'n cstate \<Rightarrow> bool \<times> 'n cstate" where
  "udp_response v seq cmd st =
     (case udp_scan (n_rx v (snd st)) seq cmd of
        (r, q) \<Rightarrow> (r \<noteq> None, (case r of Some m \<Rightarrow> (fst st)\<lparr>f_resp := m\<rparr> | None \<Rightarrow> fst st), n_set_rx v q (snd st)))"

section \<open>Commands\<close>

definition backoff_ms :: "bytes \<Rightarrow> nat" where
  "backoff_ms resp =
     (let ms = (if length resp \<ge> 7 then unat (tnfs_rd16 (drop 5 resp)) else 100) in if ms \<noteq> 0 then ms else 100)"

text \<open>The attempts; \<open>n\<close> are left.\<close>

fun command_loop :: "'n net \<Rightarrow> nat \<Rightarrow> byte \<Rightarrow> byte \<Rightarrow> bytes \<Rightarrow> 'n cstate \<Rightarrow> esp_err \<times> 'n cstate" where
  "command_loop v 0 s cmd req st = (ESP_ERR_TIMEOUT, st)"
| "command_loop v (Suc n) s cmd req st =
     (case n_send v req (snd st) of
        (sent, net) \<Rightarrow>
          if \<not> sent then (ESP_FAIL, fst st, net)
          else (let r = (if f_tcp (fst st) then tcp_response v cmd (fst st, net)
                         else case udp_response v s cmd (fst st, net) of
                                (ok, st) \<Rightarrow> (if ok then ESP_OK else ESP_ERR_TIMEOUT, st))
                in case r of
                     (err, st) \<Rightarrow>
                       if err \<noteq> ESP_OK
                       then if f_tcp (fst st) then (err, st) else command_loop v n s cmd req st
                       else if f_resp (fst st) ! 4 = TNFS_EAGAIN
                       then command_loop v n s cmd req (fst st, n_delay v (backoff_ms (f_resp (fst st))) (snd st))
                       else (ESP_OK, (fst st)\<lparr>f_seq := s + 1\<rparr>, snd st)))"

definition tnfs_command :: "'n net \<Rightarrow> byte \<Rightarrow> bytes \<Rightarrow> 'n cstate \<Rightarrow> esp_err \<times> 'n cstate" where
  "tnfs_command v cmd pl st =
     (if TNFS_HDR_LEN + length pl > TNFS_MSG_CAP then (ESP_ERR_INVALID_SIZE, st)
      else let s = f_seq (fst st); req = tnfs_wr16 (f_conn (fst st)) @ [s, cmd] @ pl
           in command_loop v TNFS_RETRIES s cmd req st)"

definition status_err :: "byte \<Rightarrow> esp_err" where
  "status_err status = (if status = TNFS_OK then ESP_OK else if status = TNFS_ENOENT then ESP_ERR_NOT_FOUND else ESP_FAIL)"

section \<open>Sessions\<close>

definition tnfs_mount_root :: "'n net \<Rightarrow> 'n cstate \<Rightarrow> esp_err \<times> 'n cstate" where
  "tnfs_mount_root v st =
     (let st = ((fst st)\<lparr>f_seq := 0, f_conn := 0\<rparr>, snd st)
      in case tnfs_command v TNFS_MOUNT [0x02, 0x01, 0x2F, 0, 0, 0] st of
           (err, st) \<Rightarrow>
             if err \<noteq> ESP_OK then (err, st)
             else if f_resp (fst st) ! 4 \<noteq> TNFS_OK then (ESP_FAIL, st)
             else (ESP_OK, (fst st)\<lparr>f_conn := tnfs_rd16 (f_resp (fst st))\<rparr>, snd st))"

definition tnfs_try :: "'n net \<Rightarrow> string \<Rightarrow> u16 \<Rightarrow> bool \<Rightarrow> 'n cstate \<Rightarrow> esp_err \<times> 'n cstate" where
  "tnfs_try v host port tcp st =
     (let f = (fst st)\<lparr>f_tcp := tcp\<rparr>
      in case n_connect v host port tcp (snd st) of
           (ok, net) \<Rightarrow>
             if \<not> ok then (ESP_ERR_TIMEOUT, f, net)
             else case tnfs_mount_root v (f, net) of
                    (err, f, net) \<Rightarrow> (err, f, if err \<noteq> ESP_OK then n_close v net else net))"

definition tnfs_query_size :: "'n net \<Rightarrow> 'n cstate \<Rightarrow> esp_err \<times> 'n cstate" where
  "tnfs_query_size v st =
     (case tnfs_command v TNFS_LSEEK ([f_fd (fst st), 0x02] @ tnfs_wr32 0) st of
        (err, f, net) \<Rightarrow>
          if err \<noteq> ESP_OK \<or> f_resp f ! 4 \<noteq> TNFS_OK \<or> length (f_resp f) < 9 then (ESP_FAIL, f, net)
          else (ESP_OK, f\<lparr>f_size := tnfs_rd32 (drop 5 (f_resp f)), f_pos_valid := False\<rparr>, net))"

definition file0 :: tnfs_file where
  "file0 = \<lparr>f_tcp = False, f_conn = 0, f_seq = 0, f_fd = 0, f_size = 0, f_pos = 0, f_pos_valid = False, f_resp = []\<rparr>"

text \<open>Both transports in turn, then nothing.\<close>

definition tnfs_probe :: "'n net \<Rightarrow> string \<Rightarrow> u16 \<Rightarrow> 'n cstate \<Rightarrow> bool \<times> 'n cstate" where
  "tnfs_probe v host port st =
     (case tnfs_try v host port False st of
        (err, st) \<Rightarrow> if err = ESP_OK then (True, st)
                     else case tnfs_try v host port True st of (err, st) \<Rightarrow> (err = ESP_OK, st))"

definition tnfs_abort :: "'n net \<Rightarrow> 'n cstate \<Rightarrow> 'n" where
  "tnfs_abort v st = n_close v (snd (snd (tnfs_command v TNFS_UMOUNT [] st)))"

text \<open>\<open>alloc\<close> says whether the heap has room; the result is the open file or the error.\<close>

definition tnfs_open :: "'n net \<Rightarrow> bool \<Rightarrow> string \<Rightarrow> bool \<Rightarrow> bool \<Rightarrow> 'n \<Rightarrow> (esp_err + tnfs_file) \<times> 'n" where
  "tnfs_open v alloc url writable create net =
     (case tnfs_url_parse url 64 160 of
        None \<Rightarrow> (Inl ESP_ERR_INVALID_ARG, net)
      | Some (host, port, path) \<Rightarrow>
          if \<not> alloc then (Inl ESP_ERR_NO_MEM, net)
          else case tnfs_probe v host port (file0, net) of
            (up, st) \<Rightarrow>
              if \<not> up then (Inl ESP_ERR_TIMEOUT, snd st)
              else let flags = (if create then 0x0302 else if writable then 0x0003 else 0x0001) :: u16;
                       pl = tnfs_wr16 flags @ tnfs_wr16 0x01A4 @ ascii path @ [0]
                   in if length pl > TNFS_MSG_CAP - TNFS_HDR_LEN then (Inl ESP_FAIL, tnfs_abort v st)
                      else case tnfs_command v TNFS_OPEN pl st of
                        (err, st) \<Rightarrow>
                          let err = (if err = ESP_OK then status_err (f_resp (fst st) ! 4) else err)
                          in if err \<noteq> ESP_OK \<or> length (f_resp (fst st)) < 6
                             then (Inl (if err = ESP_OK then ESP_FAIL else err), tnfs_abort v st)
                             else let st = ((fst st)\<lparr>f_fd := f_resp (fst st) ! 5, f_size := 0\<rparr>, snd st);
                                      st = (if \<not> create then snd (tnfs_query_size v st) else st)
                                  in (Inr ((fst st)\<lparr>f_pos_valid := False\<rparr>), snd st))"

definition tnfs_size :: "tnfs_file option \<Rightarrow> u32" where
  "tnfs_size f = (case f of Some f \<Rightarrow> f_size f | None \<Rightarrow> 0)"

section \<open>Transfers\<close>

definition tnfs_seek :: "'n net \<Rightarrow> u32 \<Rightarrow> 'n cstate \<Rightarrow> esp_err \<times> 'n cstate" where
  "tnfs_seek v off st =
     (if f_pos_valid (fst st) \<and> f_pos (fst st) = off then (ESP_OK, st)
      else case tnfs_command v TNFS_LSEEK ([f_fd (fst st), 0x00] @ tnfs_wr32 off) st of
             (err, f, net) \<Rightarrow>
               if err \<noteq> ESP_OK \<or> f_resp f ! 4 \<noteq> TNFS_OK
               then (if err = ESP_OK then ESP_FAIL else err, f\<lparr>f_pos_valid := False\<rparr>, net)
               else (ESP_OK, f\<lparr>f_pos := off, f_pos_valid := True\<rparr>, net))"

text \<open>
  One round of the read loop: a seek and a READ of at most a chunk. \<open>Inr got\<close> are the bytes
  it delivered, at least one and at most \<open>len\<close>.
\<close>

definition read_chunk :: "'n net \<Rightarrow> u32 \<Rightarrow> nat \<Rightarrow> 'n cstate \<Rightarrow> (esp_err + bytes) \<times> 'n cstate" where
  "read_chunk v off len st =
     (case tnfs_seek v off st of
        (err, st) \<Rightarrow>
          if err \<noteq> ESP_OK then (Inl err, st)
          else let want = (if len > TNFS_IO_CHUNK then TNFS_IO_CHUNK else len)
               in case tnfs_command v TNFS_READ (f_fd (fst st) # tnfs_wr16 (of_nat want)) st of
                    (err, f, net) \<Rightarrow>
                      if err \<noteq> ESP_OK then (Inl err, f\<lparr>f_pos_valid := False\<rparr>, net)
                      else if f_resp f ! 4 \<noteq> TNFS_OK \<and> f_resp f ! 4 \<noteq> TNFS_EOF \<or> length (f_resp f) < 7
                      then (Inl ESP_FAIL, f\<lparr>f_pos_valid := False\<rparr>, net)
                      else let got = unat (tnfs_rd16 (drop 5 (f_resp f)))
                           in if got = 0 \<or> got > want \<or> length (f_resp f) < 7 + got
                              then (Inl ESP_FAIL, f\<lparr>f_pos_valid := False\<rparr>, net)
                              else (Inr (slice 7 got (f_resp f)), f\<lparr>f_pos := f_pos f + of_nat got\<rparr>, net))"

lemma slice_Nil_iff: "slice off n d = [] \<longleftrightarrow> n = 0 \<or> length d \<le> off"
  by (auto simp: slice_def)

lemma read_chunk_len:
  assumes "read_chunk v off len st = (Inr bs, st')"
  shows "0 < length bs \<and> length bs \<le> len"
  using assms by (auto simp: read_chunk_def Let_def slice_Nil_iff split: prod.splits if_splits)

text \<open>\<open>buf\<close> is what the loop has put into the caller's buffer so far.\<close>

function read_loop :: "'n net \<Rightarrow> u32 \<Rightarrow> nat \<Rightarrow> bytes \<Rightarrow> 'n cstate \<Rightarrow> esp_err \<times> bytes \<times> 'n cstate" where
  "read_loop v off len buf st =
     (if len = 0 then (ESP_OK, buf, st)
      else case read_chunk v off len st of
             (Inl err, st) \<Rightarrow> (err, buf, st)
           | (Inr bs, st) \<Rightarrow> read_loop v (off + of_nat (length bs)) (len - length bs) (buf @ bs) st)"
  by pat_completeness auto
termination
proof (relation "measure (\<lambda>(v, off, len, buf, st). len)", goal_cases)
  case (2 v off len buf st r st' bs)
  then show ?case using read_chunk_len[of v off len st bs st'] by simp
qed simp

declare read_loop.simps [simp del]

definition tnfs_read_at :: "'n net \<Rightarrow> u32 \<Rightarrow> nat \<Rightarrow> 'n cstate \<Rightarrow> esp_err \<times> bytes \<times> 'n cstate" where
  "tnfs_read_at v off len st = read_loop v off len [] st"

definition write_chunk :: "'n net \<Rightarrow> u32 \<Rightarrow> bytes \<Rightarrow> 'n cstate \<Rightarrow> (esp_err + nat) \<times> 'n cstate" where
  "write_chunk v off src st =
     (case tnfs_seek v off st of
        (err, st) \<Rightarrow>
          if err \<noteq> ESP_OK then (Inl err, st)
          else let want = (if length src > TNFS_IO_CHUNK then TNFS_IO_CHUNK else length src)
               in case tnfs_command v TNFS_WRITE (f_fd (fst st) # tnfs_wr16 (of_nat want) @ take want src) st of
                    (err, f, net) \<Rightarrow>
                      if err \<noteq> ESP_OK then (Inl err, f\<lparr>f_pos_valid := False\<rparr>, net)
                      else if f_resp f ! 4 \<noteq> TNFS_OK \<or> length (f_resp f) < 7
                      then (Inl ESP_FAIL, f\<lparr>f_pos_valid := False\<rparr>, net)
                      else let put = unat (tnfs_rd16 (drop 5 (f_resp f)))
                           in if put = 0 \<or> put > want
                              then (Inl ESP_FAIL, f\<lparr>f_pos_valid := False\<rparr>, net)
                              else (Inr put, f\<lparr>f_pos := f_pos f + of_nat put,
                                     f_size := (if off + of_nat put > f_size f then off + of_nat put else f_size f)\<rparr>, net))"

lemma write_chunk_len:
  assumes "write_chunk v off src st = (Inr n, st')"
  shows "0 < n \<and> n \<le> length src"
  using assms by (auto simp: write_chunk_def Let_def split: prod.splits if_splits)

function write_loop :: "'n net \<Rightarrow> u32 \<Rightarrow> bytes \<Rightarrow> 'n cstate \<Rightarrow> esp_err \<times> 'n cstate" where
  "write_loop v off src st =
     (if src = [] then (ESP_OK, st)
      else case write_chunk v off src st of
             (Inl err, st) \<Rightarrow> (err, st)
           | (Inr n, st) \<Rightarrow> write_loop v (off + of_nat n) (drop n src) st)"
  by pat_completeness auto
termination
proof (relation "measure (\<lambda>(v, off, src, st). length src)", goal_cases)
  case (2 v off src st r st' n)
  then show ?case using write_chunk_len[of v off src st n st'] by simp
qed simp

declare write_loop.simps [simp del]

definition tnfs_write_at :: "'n net \<Rightarrow> u32 \<Rightarrow> bytes \<Rightarrow> 'n cstate \<Rightarrow> esp_err \<times> 'n cstate" where
  "tnfs_write_at v off src st = write_loop v off src st"

definition tnfs_close :: "'n net \<Rightarrow> 'n cstate \<Rightarrow> 'n" where
  "tnfs_close v st = tnfs_abort v (snd (tnfs_command v TNFS_CLOSE [f_fd (fst st)] st))"

section \<open>Listings\<close>

text \<open>
  The entries of one READDIRX reply: \<open>n\<close> are left, \<open>p\<close> is the reply from the current entry to
  its end, \<open>acc\<close> what the callback has been told. \<open>None\<close> is a malformed reply.
\<close>

fun parse_dirents :: "nat \<Rightarrow> bytes \<Rightarrow> (string \<times> bool) list \<Rightarrow> bool \<times> (string \<times> bool) list" where
  "parse_dirents 0 p acc = (True, acc)"
| "parse_dirents (Suc n) p acc =
     (if length p \<le> 13 then (False, acc)
      else case c_str (drop 13 p) of
             None \<Rightarrow> (False, acc)
           | Some name \<Rightarrow>
               parse_dirents n (after_nul (drop 13 p))
                 (if name \<noteq> [] then acc @ [(name, p ! 0 AND 0x01 \<noteq> 0)] else acc))"

text \<open>
  The two listing loops run as long as the server goes on giving entries; \<open>None\<close> is a loop
  that never ends.
\<close>

partial_function (option) listx_loop ::
  "'n net \<Rightarrow> byte \<Rightarrow> (string \<times> bool) list \<Rightarrow> 'n cstate \<Rightarrow> (esp_err \<times> (string \<times> bool) list \<times> 'n cstate) option" where
  "listx_loop v dh acc st =
     (case tnfs_command v TNFS_READDIRX [dh, 1] st of
        (err, st) \<Rightarrow>
          let resp = f_resp (fst st); status = resp ! 4
          in if err \<noteq> ESP_OK then Some (err, acc, st)
             else if status = TNFS_EOF then Some (ESP_OK, acc, st)
             else if status \<noteq> TNFS_OK \<or> length resp < 9 then Some (ESP_FAIL, acc, st)
             else let r = parse_dirents (unat (resp ! 5)) (drop 9 resp) acc
                  in if \<not> fst r then Some (ESP_FAIL, snd r, st)
                     else if resp ! 6 AND 0x01 \<noteq> 0 then Some (ESP_OK, snd r, st)
                     else listx_loop v dh (snd r) st)"

definition tnfs_listx :: "'n net \<Rightarrow> string \<Rightarrow> 'n cstate \<Rightarrow> (esp_err \<times> byte \<times> (string \<times> bool) list \<times> 'n cstate) option" where
  "tnfs_listx v path st =
     (let pl = [0, 0] @ tnfs_wr16 0 @ [0] @ ascii path @ [0]
      in if length pl > TNFS_MSG_CAP - TNFS_HDR_LEN then Some (ESP_ERR_INVALID_SIZE, 0, [], st)
         else case tnfs_command v TNFS_OPENDIRX pl st of
           (err, st) \<Rightarrow>
             if err \<noteq> ESP_OK then Some (err, 0, [], st)
             else if f_resp (fst st) ! 4 \<noteq> TNFS_OK \<or> length (f_resp (fst st)) < 6
             then Some (if f_resp (fst st) ! 4 = TNFS_ENOENT then ESP_ERR_NOT_FOUND else ESP_ERR_NOT_SUPPORTED, 0, [], st)
             else let dh = f_resp (fst st) ! 5
                  in map_option (\<lambda>(err, acc, st). (err, dh, acc, st)) (listx_loop v dh [] st))"

text \<open>The name in a READDIR reply, cut at the end of what was received.\<close>

definition readdir_name :: "bytes \<Rightarrow> string" where
  "readdir_name resp =
     (let nm = drop 5 resp
      in case c_str nm of
           Some s \<Rightarrow> s
         | None \<Rightarrow> if 5 + length nm < TNFS_MSG_CAP then chars nm else chars (butlast nm))"

partial_function (option) list_basic_loop ::
  "'n net \<Rightarrow> byte \<Rightarrow> (string \<times> bool) list \<Rightarrow> 'n cstate \<Rightarrow> (esp_err \<times> (string \<times> bool) list \<times> 'n cstate) option" where
  "list_basic_loop v dh acc st =
     (case tnfs_command v TNFS_READDIR [dh] st of
        (err, st) \<Rightarrow>
          let resp = f_resp (fst st); status = resp ! 4
          in if err \<noteq> ESP_OK then Some (err, acc, st)
             else if status = TNFS_EOF then Some (ESP_OK, acc, st)
             else if status \<noteq> TNFS_OK then Some (ESP_FAIL, acc, st)
             else if length resp \<le> 5 then list_basic_loop v dh acc st
             else let nm = readdir_name resp
                  in list_basic_loop v dh (if nm \<noteq> [] then acc @ [(nm, False)] else acc) st)"

definition tnfs_list_basic :: "'n net \<Rightarrow> string \<Rightarrow> byte \<Rightarrow> (string \<times> bool) list \<Rightarrow> 'n cstate \<Rightarrow>
    (esp_err \<times> byte \<times> (string \<times> bool) list \<times> 'n cstate) option" where
  "tnfs_list_basic v path dh0 acc st =
     (let pl = ascii path @ [0]
      in if length pl > TNFS_MSG_CAP - TNFS_HDR_LEN then Some (ESP_ERR_INVALID_SIZE, dh0, acc, st)
         else case tnfs_command v TNFS_OPENDIR pl st of
           (err, st) \<Rightarrow>
             let err = (if err = ESP_OK then status_err (f_resp (fst st) ! 4) else err)
             in if err \<noteq> ESP_OK \<or> length (f_resp (fst st)) < 6
                then Some (if err = ESP_OK then ESP_FAIL else err, dh0, acc, st)
                else let dh = f_resp (fst st) ! 5
                     in map_option (\<lambda>(err, acc, st). (err, dh, acc, st)) (list_basic_loop v dh acc st))"

text \<open>The URL with a final slash when it has no path; the buffer holds 240 bytes.\<close>

definition list_url :: "string \<Rightarrow> string option" where
  "list_url url =
     (if CHR ''/'' \<in> set (drop 7 url) then Some url
      else if length url + 1 \<ge> 240 then None else Some (url @ ''/''))"

definition tnfs_list_dir :: "'n net \<Rightarrow> bool \<Rightarrow> string \<Rightarrow> 'n \<Rightarrow> (esp_err \<times> (string \<times> bool) list \<times> 'n) option" where
  "tnfs_list_dir v alloc url net =
     (if \<not> tnfs_is_url url then Some (ESP_ERR_INVALID_ARG, [], net)
      else case list_url url of None \<Rightarrow> Some (ESP_ERR_INVALID_ARG, [], net)
      | Some url \<Rightarrow> (case tnfs_url_parse url 64 160 of None \<Rightarrow> Some (ESP_ERR_INVALID_ARG, [], net)
      | Some (host, port, path) \<Rightarrow>
          if \<not> alloc then Some (ESP_ERR_NO_MEM, [], net)
          else case tnfs_probe v host port (file0, net) of
            (up, st) \<Rightarrow>
              if \<not> up then Some (ESP_ERR_TIMEOUT, [], snd st)
              else case tnfs_listx v path st of None \<Rightarrow> None
              | Some (err, dh, acc, st) \<Rightarrow>
                 (case (if err = ESP_ERR_NOT_SUPPORTED then tnfs_list_basic v path dh acc st else Some (err, dh, acc, st)) of
                    None \<Rightarrow> None
                  | Some (err, dh, acc, st) \<Rightarrow>
                      Some (err, acc, tnfs_abort v (snd (tnfs_command v TNFS_CLOSEDIR [dh] st))))))"

end
