(* ===== verification/TnfsTransfer.thy ===== *)
theory TnfsTransfer
  imports TnfsClient
begin

text \<open>
  Reads and writes of the TNFS client over a file that answers one command after the other.
  The locale \<open>served_file\<close> is what the client needs of the other end: a command that returns
  \<open>ESP_OK\<close> was carried out once, by a server that still had the session. \<open>R\<close> says that client
  and server agree on the next sequence number, \<open>up\<close> that the server has the session, and
  \<open>look\<close> are the bytes of the open file and its position. Theory \<open>TnfsLink\<close> discharges the
  laws for the modelled server behind a lossy datagram network.
\<close>

section \<open>What a command leaves alone\<close>

text \<open>A command changes the sequence number and the response, nothing else of the session.\<close>

definition same_file :: "tnfs_file \<Rightarrow> tnfs_file \<Rightarrow> bool" where
  "same_file f g \<longleftrightarrow> f_tcp g = f_tcp f \<and> f_conn g = f_conn f \<and> f_fd g = f_fd f \<and> f_size g = f_size f \<and>
     f_pos g = f_pos f \<and> f_pos_valid g = f_pos_valid f"

lemma same_file_refl [simp]: "same_file f f"
  by (simp add: same_file_def)

lemma same_file_trans: "same_file f g \<Longrightarrow> same_file g h \<Longrightarrow> same_file f h"
  by (simp add: same_file_def)

lemma tcp_response_file: "same_file (fst st) (fst (snd (tcp_response v cmd st)))"
  by (auto simp: tcp_response_def same_file_def split: prod.split)

lemma udp_response_file: "same_file (fst st) (fst (snd (udp_response v s cmd st)))"
  by (auto simp: udp_response_def same_file_def split: prod.split option.split)

text \<open>One attempt, apart from the loop around it.\<close>

definition attempt :: "'n net \<Rightarrow> byte \<Rightarrow> byte \<Rightarrow> tnfs_file \<Rightarrow> 'n \<Rightarrow> esp_err \<times> 'n cstate" where
  "attempt v s cmd f net =
     (if f_tcp f then tcp_response v cmd (f, net)
      else case udp_response v s cmd (f, net) of (ok, st) \<Rightarrow> (if ok then ESP_OK else ESP_ERR_TIMEOUT, st))"

lemma attempt_file: "attempt v s cmd f net = (err, g, net') \<Longrightarrow> same_file f g"
  using tcp_response_file[of "(f, net)" v cmd] udp_response_file[of "(f, net)" v s cmd]
  by (auto simp: attempt_def split: if_splits prod.splits)

lemma command_loop_Suc:
  "command_loop v (Suc n) s cmd req (f, net) =
     (case n_send v req net of (sent, net) \<Rightarrow>
        if \<not> sent then (ESP_FAIL, f, net)
        else case attempt v s cmd f net of (err, f, net) \<Rightarrow>
          if err \<noteq> ESP_OK then if f_tcp f then (err, f, net) else command_loop v n s cmd req (f, net)
          else if f_resp f ! 4 = TNFS_EAGAIN then command_loop v n s cmd req (f, n_delay v (backoff_ms (f_resp f)) net)
          else (ESP_OK, f\<lparr>f_seq := s + 1\<rparr>, net))"
  by (simp add: attempt_def Let_def split: prod.split)

declare command_loop.simps(2) [simp del]

lemma command_loop_file:
  "command_loop v n s cmd req (f, net) = (err, g, net') \<Longrightarrow> same_file f g"
proof (induction n arbitrary: f net)
  case (Suc n)
  obtain sent net1 where s: "n_send v req net = (sent, net1)" by (cases "n_send v req net")
  obtain er f2 net2 where r: "attempt v s cmd f net1 = (er, f2, net2)" by (metis prod_cases3)
  have k: "same_file f f2" by (rule attempt_file[OF r])
  have "same_file f (f2\<lparr>f_seq := s + 1\<rparr>)" using k by (simp add: same_file_def)
  then show ?case using Suc.prems Suc.IH same_file_trans[OF k] k by (auto simp: command_loop_Suc s r split: if_splits)
qed simp

lemma tnfs_command_file:
  assumes "tnfs_command v cmd pl st = (err, g, net')"
  shows "same_file (fst st) g"
  using assms command_loop_file[of v TNFS_RETRIES "f_seq (fst st)" cmd _ "fst st" "snd st"]
  by (auto simp: tnfs_command_def Let_def simp del: command_loop.simps split: if_splits)

lemma read_chunk_err: "read_chunk v off len st = (r, st') \<Longrightarrow> r \<noteq> Inl ESP_OK"
  by (auto simp: read_chunk_def Let_def split: prod.splits if_splits)

lemma write_chunk_err: "write_chunk v off src st = (r, st') \<Longrightarrow> r \<noteq> Inl ESP_OK"
  by (auto simp: write_chunk_def Let_def split: prod.splits if_splits)

lemma unat_add_len: "unat off + n < 4294967296 \<Longrightarrow> unat ((off :: u32) + of_nat n) = unat off + n"
  by (simp add: unat_word_ariths unat_of_nat)

lemma slice_split: "m \<le> n \<Longrightarrow> slice off n d = slice off m d @ slice (off + m) (n - m) d"
  unfolding slice_def by (metis drop_drop add.commute le_add_diff_inverse take_add)

lemma overwrite_split:
  assumes "n \<le> length src" "off + length src \<le> length d"
  shows "overwrite (off + n) (drop n src) (overwrite off (take n src) d) = overwrite off src d"
proof -
  have src: "src = take n src @ drop n src" by simp
  define a b where "a = take n src" and "b = drop n src"
  have "src = a @ b" "length a = n" using assms src by (simp_all add: a_def b_def)
  then show ?thesis using assms(2) by (simp add: overwrite_def add.commute add.left_commute)
qed

section \<open>The interface\<close>

text \<open>The fields of the session that commands use.\<close>

definition same_session :: "tnfs_file \<Rightarrow> tnfs_file \<Rightarrow> bool" where
  "same_session f g \<longleftrightarrow> f_tcp g = f_tcp f \<and> f_conn g = f_conn f \<and> f_seq g = f_seq f \<and> f_fd g = f_fd f"

locale served_file =
  fixes v :: "'n net"
    and R :: "'n cstate \<Rightarrow> bool"
    and up :: "'n cstate \<Rightarrow> bool"
    and look :: "'n cstate \<Rightarrow> bytes \<times> nat"
  assumes local_fields: "same_session f g \<Longrightarrow> R (g, net) = R (f, net) \<and> up (g, net) = up (f, net) \<and> look (g, net) = look (f, net)"
    and seek_rpc: "R st \<Longrightarrow> tnfs_command v TNFS_LSEEK ([f_fd (fst st), 0x00] @ tnfs_wr32 off) st = (ESP_OK, st') \<Longrightarrow>
      up st \<and> R st' \<and> (up st' \<longrightarrow> fst (look st') = fst (look st) \<and>
        (f_resp (fst st') ! 4 = TNFS_OK \<longrightarrow> snd (look st') = unat off))"
    and read_rpc: "R st \<Longrightarrow> tnfs_command v TNFS_READ (f_fd (fst st) # tnfs_wr16 n) st = (ESP_OK, st') \<Longrightarrow>
      7 \<le> length (f_resp (fst st')) \<Longrightarrow> f_resp (fst st') ! 4 = TNFS_OK \<or> f_resp (fst st') ! 4 = TNFS_EOF \<Longrightarrow>
      k = unat (tnfs_rd16 (drop 5 (f_resp (fst st')))) \<Longrightarrow>
      up st \<and> R st' \<and> slice 7 k (f_resp (fst st')) = slice (snd (look st)) k (fst (look st)) \<and>
        (0 < k \<longrightarrow> snd (look st) + k \<le> length (fst (look st))) \<and>
        (up st' \<longrightarrow> look st' = (fst (look st), snd (look st) + k))"
    and write_rpc: "R st \<Longrightarrow> length d \<le> TNFS_IO_CHUNK \<Longrightarrow>
      tnfs_command v TNFS_WRITE (f_fd (fst st) # tnfs_wr16 (of_nat (length d)) @ d) st = (ESP_OK, st') \<Longrightarrow>
      7 \<le> length (f_resp (fst st')) \<Longrightarrow> f_resp (fst st') ! 4 = TNFS_OK \<Longrightarrow>
      k = unat (tnfs_rd16 (drop 5 (f_resp (fst st')))) \<Longrightarrow>
      up st \<and> R st' \<and> (up st' \<longrightarrow> snd (look st) + length d \<le> length (fst (look st)) \<longrightarrow>
        look st' = (overwrite (snd (look st)) (take k d) (fst (look st)), snd (look st) + k))"

begin

text \<open>The position the client remembers is the server's; the file fits 32-bit offsets.\<close>

definition pos_ok :: "'n cstate \<Rightarrow> bool" where
  "pos_ok st \<longleftrightarrow> (f_pos_valid (fst st) \<longrightarrow> up st \<longrightarrow> snd (look st) = unat (f_pos (fst st)))"

definition agree :: "bytes \<Rightarrow> 'n cstate \<Rightarrow> bool" where
  "agree d st \<longleftrightarrow> R st \<and> pos_ok st \<and> (up st \<longrightarrow> fst (look st) = d)"

lemma same_session_R: "same_session f g \<Longrightarrow> R (g, net) = R (f, net)"
  and same_session_up: "same_session f g \<Longrightarrow> up (g, net) = up (f, net)"
  and same_session_look: "same_session f g \<Longrightarrow> look (g, net) = look (f, net)"
  using local_fields by blast+

lemma seek_exact:
  assumes "agree d st" "tnfs_seek v off st = (ESP_OK, st')"
  shows "agree d st' \<and> (up st' \<longrightarrow> up st \<and> snd (look st') = unat off) \<and> f_fd (fst st') = f_fd (fst st) \<and> f_pos (fst st') = off"
proof (cases "f_pos_valid (fst st) \<and> f_pos (fst st) = off")
  case True
  then show ?thesis using assms by (auto simp: tnfs_seek_def agree_def pos_ok_def)
next
  case False
  obtain err f net where c: "tnfs_command v TNFS_LSEEK ([f_fd (fst st), 0x00] @ tnfs_wr32 off) st = (err, f, net)" by (metis prod_cases3)
  have e: "err = ESP_OK" "f_resp f ! 4 = TNFS_OK" "st' = (f\<lparr>f_pos := off, f_pos_valid := True\<rparr>, net)"
    using assms(2) False c by (auto simp: tnfs_seek_def split: if_splits)
  have k: "same_session f (f\<lparr>f_pos := off, f_pos_valid := True\<rparr>)" by (simp add: same_session_def)
  have s: "up st" "R (f, net)" "up (f, net) \<longrightarrow> fst (look (f, net)) = fst (look st) \<and> snd (look (f, net)) = unat off"
    using seek_rpc[of st off "(f, net)"] assms(1) c e(1,2) by (simp_all add: agree_def)
  have fd: "f_fd f = f_fd (fst st)" using tnfs_command_file[OF c] by (simp add: same_file_def)
  show ?thesis using s assms(1) fd
    by (simp add: e agree_def pos_ok_def same_session_R[OF k] same_session_up[OF k] same_session_look[OF k])
qed

lemma read_chunk_exact:
  assumes "agree d st" "length d < 4294967296" "read_chunk v off len st = (Inr bs, st')"
  shows "agree d st' \<and> bs = slice (unat off) (length bs) d \<and> unat off + length bs \<le> length d"
proof -
  obtain er st1 where sk: "tnfs_seek v off st = (er, st1)" by (cases "tnfs_seek v off st")
  have er: "er = ESP_OK" using assms(3) sk by (auto simp: read_chunk_def split: if_splits)
  note s = seek_exact[OF assms(1) sk[unfolded er]]
  let ?want = "if len > TNFS_IO_CHUNK then TNFS_IO_CHUNK else len"
  obtain err f net where c: "tnfs_command v TNFS_READ (f_fd (fst st1) # tnfs_wr16 (of_nat ?want)) st1 = (err, f, net)" by (metis prod_cases3)
  obtain k where kd: "k = unat (tnfs_rd16 (drop 5 (f_resp f)))" by blast
  have g: "err = ESP_OK" "f_resp f ! 4 = TNFS_OK \<or> f_resp f ! 4 = TNFS_EOF" "7 \<le> length (f_resp f)" "0 < k"
    "7 + k \<le> length (f_resp f)" "bs = slice 7 k (f_resp f)" "st' = (f\<lparr>f_pos := f_pos f + of_nat k\<rparr>, net)"
    using assms(3) sk er c by (auto simp: read_chunk_def Let_def kd split: if_splits)
  have r: "up st1 \<and> R (f, net) \<and> slice 7 k (f_resp f) = slice (snd (look st1)) k (fst (look st1)) \<and>
      (0 < k \<longrightarrow> snd (look st1) + k \<le> length (fst (look st1))) \<and>
      (up (f, net) \<longrightarrow> look (f, net) = (fst (look st1), snd (look st1) + k))"
    using read_rpc[of st1 "of_nat ?want" "(f, net)" k] s c g(1-3) kd by (simp add: agree_def)
  have l: "snd (look st1) = unat off" "fst (look st1) = d" using r s by (simp_all add: agree_def)
  have p: "f_pos f = off" using tnfs_command_file[OF c] s by (simp add: same_file_def)
  have ss: "same_session f (f\<lparr>f_pos := off + of_nat k\<rparr>)" by (simp add: same_session_def)
  have kb: "length bs = k" using g by simp
  have in_file: "unat off + k \<le> length d" using r g(4) l by simp
  then have u: "unat (off + of_nat k) = unat off + k"
    using assms(2) unat_add_len[of off k] by simp
  show ?thesis using r l in_file g(6) kb
    by (simp add: g(7) agree_def pos_ok_def same_session_R[OF ss] same_session_up[OF ss] same_session_look[OF ss] p u)
qed

lemma read_loop_exact:
  assumes "agree d st" "length d < 4294967296" "read_loop v off len buf st = (ESP_OK, out, st')"
  shows "agree d st' \<and> out = buf @ slice (unat off) len d \<and> (0 < len \<longrightarrow> unat off + len \<le> length d)"
  using assms
proof (induction len arbitrary: off buf st rule: less_induct)
  case (less len)
  show ?case
  proof (cases "len = 0")
    case True
    then show ?thesis using less.prems by (simp add: read_loop.simps slice_def)
  next
    case False
    obtain r st1 where c: "read_chunk v off len st = (r, st1)" by (cases "read_chunk v off len st")
    have "\<exists>bs. r = Inr bs" using less.prems(3) False c read_chunk_err[OF c] by (cases r) (auto simp: read_loop.simps[of v off len])
    then obtain bs where r: "r = Inr bs" by blast
    note ch = read_chunk_exact[OF less.prems(1,2) c[unfolded r]] and len = read_chunk_len[OF c[unfolded r]]
    have u: "unat (off + of_nat (length bs)) = unat off + length bs"
      by (rule unat_add_len) (use ch less.prems(2) in simp)
    have rec: "read_loop v (off + of_nat (length bs)) (len - length bs) (buf @ bs) st1 = (ESP_OK, out, st')"
      using less.prems(3) False c r by (simp add: read_loop.simps[of v off len])
    have lt: "len - length bs < len" by (rule diff_less) (use len False in simp_all)
    note ih = less.IH[OF lt _ less.prems(2) rec, unfolded u]
    have "agree d st' \<and> out = (buf @ bs) @ slice (unat off + length bs) (len - length bs) d \<and>
        (0 < len - length bs \<longrightarrow> unat off + length bs + (len - length bs) \<le> length d)"
      by (rule ih) (use ch in simp)
    moreover have "slice (unat off) len d = bs @ slice (unat off + length bs) (len - length bs) d"
      using slice_split[of "length bs" len "unat off" d] ch len by simp
    ultimately show ?thesis using ch len by auto
  qed
qed

text \<open>A write, for bytes inside the file.\<close>

lemma write_chunk_exact:
  assumes "agree d st" "length d < 4294967296" "unat off + length src \<le> length d" "write_chunk v off src st = (Inr n, st')"
  shows "agree (overwrite (unat off) (take n src) d) st'"
proof -
  obtain er st1 where sk: "tnfs_seek v off st = (er, st1)" by (cases "tnfs_seek v off st")
  have er: "er = ESP_OK" using assms(4) sk by (auto simp: write_chunk_def split: if_splits)
  note s = seek_exact[OF assms(1) sk[unfolded er]]
  obtain want where wd: "want = (if length src > TNFS_IO_CHUNK then TNFS_IO_CHUNK else length src)" by blast
  have tw: "length (take want src) = want" "want \<le> 1024" "want \<le> length src" by (auto simp: wd)
  obtain err f net where c: "tnfs_command v TNFS_WRITE (f_fd (fst st1) # tnfs_wr16 (of_nat want) @ take want src) st1 = (err, f, net)"
    by (metis prod_cases3)
  obtain k where kd: "k = unat (tnfs_rd16 (drop 5 (f_resp f)))" by blast
  define f1 where "f1 = f\<lparr>f_pos := f_pos f + of_nat k, f_size := (if off + of_nat k > f_size f then off + of_nat k else f_size f)\<rparr>"
  have g: "err = ESP_OK" "f_resp f ! 4 = TNFS_OK" "7 \<le> length (f_resp f)" "0 < k" "k \<le> want" "n = k" "st' = (f1, net)"
    using assms(4) sk er c unfolding f1_def by (auto simp: write_chunk_def Let_def kd wd[symmetric] split: if_splits)
  have r: "up st1 \<and> R (f, net) \<and> (up (f, net) \<longrightarrow> snd (look st1) + want \<le> length (fst (look st1)) \<longrightarrow>
      look (f, net) = (overwrite (snd (look st1)) (take k src) (fst (look st1)), snd (look st1) + k))"
    using write_rpc[of st1 "take want src" "(f, net)" k] s c g kd tw by (simp add: agree_def min_def)
  have l: "snd (look st1) = unat off" "fst (look st1) = d" using r s by (simp_all add: agree_def)
  have p: "f_pos f = off" using tnfs_command_file[OF c] s by (simp add: same_file_def)
  have ss: "same_session f f1" by (simp add: same_session_def f1_def)
  have u: "unat (off + of_nat k) = unat off + k"
    using assms(2,3) g tw unat_add_len[of off k] by simp
  have "f_pos f1 = off + of_nat k" by (simp add: f1_def p)
  then show ?thesis using r l assms(3) tw
    by (simp add: g(6,7) agree_def pos_ok_def same_session_R[OF ss] same_session_up[OF ss] same_session_look[OF ss] u)
qed

lemma write_loop_exact:
  assumes "agree d st" "length d < 4294967296" "unat off + length src \<le> length d" "write_loop v off src st = (ESP_OK, st')"
  shows "agree (overwrite (unat off) src d) st'"
  using assms
proof (induction "length src" arbitrary: off src d st rule: less_induct)
  case less
  show ?case
  proof (cases "src = []")
    case True
    then show ?thesis using less.prems by (simp add: write_loop.simps overwrite_def)
  next
    case False
    obtain r st1 where c: "write_chunk v off src st = (r, st1)" by (cases "write_chunk v off src st")
    have "\<exists>n. r = Inr n" using less.prems(4) False c write_chunk_err[OF c] by (cases r) (auto simp: write_loop.simps[of v off src])
    then obtain n where r: "r = Inr n" by blast
    note ch = write_chunk_exact[OF less.prems(1-3) c[unfolded r]] and len = write_chunk_len[OF c[unfolded r]]
    have u: "unat (off + of_nat n) = unat off + n"
      by (rule unat_add_len) (use len less.prems(2,3) in simp)
    have lo: "length (overwrite (unat off) (take n src) d) = length d"
      by (rule length_overwrite) (use len less.prems(3) in simp)
    have lt: "length (drop n src) < length src" using len False by (cases src) auto
    have rec: "write_loop v (off + of_nat n) (drop n src) st1 = (ESP_OK, st')"
      using less.prems(4) False c r by (simp add: write_loop.simps[of v off src])
    have "agree (overwrite (unat off + n) (drop n src) (overwrite (unat off) (take n src) d)) st'"
      using less.hyps[OF lt ch _ _ rec] u lo len less.prems(2,3) by simp
    moreover have "overwrite (unat off + n) (drop n src) (overwrite (unat off) (take n src) d) = overwrite (unat off) src d"
      by (rule overwrite_split) (use len less.prems(3) in simp_all)
    ultimately show ?thesis by simp
  qed
qed

end

end
