(* ===== verification/Vfs.thy ===== *)
theory Vfs
  imports SdsPrelude
begin

text \<open>
  The card's file system as the code calls it: the POSIX calls of ESP-IDF's virtual file
  system and the stdio calls on top of them, as records of functions on a world \<open>'w\<close>
  that the models take as arguments. The file system itself (FatFs and the VFS layer) is
  not part of the repository.
\<close>

section \<open>POSIX calls\<close>

datatype errno = E_NONE | ENOENT | EACCES | EPERM | EEXIST | ENOTDIR | EISDIR | EINVAL | EMFILE | ENFILE
  | ENOSPC | EROFS | ENAMETOOLONG | ENOTEMPTY | EBADF | ENOMEM | EBUSY | EIO | E_OTHER nat

datatype o_access = O_RDONLY | O_WRONLY | O_RDWR

record oflags =
  o_acc :: o_access
  o_append :: bool
  o_creat :: bool
  o_trunc :: bool
  o_excl :: bool

datatype seek = SEEK_SET | SEEK_CUR | SEEK_END

record fstat =
  st_mode :: u32
  st_size :: int
  st_mtime :: int

text \<open>\<^verbatim>\<open>d_type == DT_DIR\<close> of a directory entry, and its name.\<close>

record dirent =
  d_name :: string
  d_isdir :: bool

record 'w vfs =
  v_open :: "string \<Rightarrow> oflags \<Rightarrow> 'w \<Rightarrow> (errno + int) \<times> 'w"
  v_read :: "int \<Rightarrow> nat \<Rightarrow> 'w \<Rightarrow> (errno + bytes) \<times> 'w"
  v_write :: "int \<Rightarrow> bytes \<Rightarrow> 'w \<Rightarrow> (errno + nat) \<times> 'w"
  v_close :: "int \<Rightarrow> 'w \<Rightarrow> 'w"
  v_lseek :: "int \<Rightarrow> int \<Rightarrow> seek \<Rightarrow> 'w \<Rightarrow> (errno + int) \<times> 'w"
  v_stat :: "string \<Rightarrow> 'w \<Rightarrow> errno + fstat"
  v_mkdir :: "string \<Rightarrow> 'w \<Rightarrow> errno option \<times> 'w"
  v_rmdir :: "string \<Rightarrow> 'w \<Rightarrow> errno option \<times> 'w"
  v_unlink :: "string \<Rightarrow> 'w \<Rightarrow> errno option \<times> 'w"
  v_rename :: "string \<Rightarrow> string \<Rightarrow> 'w \<Rightarrow> errno option \<times> 'w"
  v_opendir :: "string \<Rightarrow> 'w \<Rightarrow> (errno + int \<times> dirent list) \<times> 'w"
  v_closedir :: "int \<Rightarrow> 'w \<Rightarrow> 'w"

text \<open>\<^verbatim>\<open>S_ISDIR\<close> and \<^verbatim>\<open>S_ISREG\<close> of \<^verbatim>\<open>sys/stat.h\<close>.\<close>

definition S_ISDIR :: "u32 \<Rightarrow> bool" where
  "S_ISDIR m \<longleftrightarrow> m AND 0xF000 = 0x4000"

definition S_ISREG :: "u32 \<Rightarrow> bool" where
  "S_ISREG m \<longleftrightarrow> m AND 0xF000 = 0x8000"

section \<open>stdio streams\<close>

text \<open>
  \<open>f_open_r\<close> is \<^verbatim>\<open>fopen(path, "r")\<close> (\<^verbatim>\<open>"rb"\<close> is the same on the target) and \<open>f_open_w\<close>
  \<^verbatim>\<open>fopen(path, "wb")\<close>. \<open>f_read io f off n w\<close> are the bytes \<^verbatim>\<open>fread\<close> takes from the
  stream at offset \<open>off\<close>, at most \<open>n\<close>, as the file is at that moment; \<open>f_error\<close> is \<^verbatim>\<open>ferror\<close>
  after a read that took none. \<open>f_write\<close> gives the number of bytes \<^verbatim>\<open>fwrite\<close> took and
  \<open>f_close\<close> whether \<^verbatim>\<open>fclose\<close> succeeded.
\<close>

record 'w stdio =
  f_open_r :: "string \<Rightarrow> 'w \<Rightarrow> (errno + int) \<times> 'w"
  f_open_w :: "string \<Rightarrow> 'w \<Rightarrow> (errno + int) \<times> 'w"
  f_read :: "int \<Rightarrow> nat \<Rightarrow> nat \<Rightarrow> 'w \<Rightarrow> bytes"
  f_error :: "int \<Rightarrow> 'w \<Rightarrow> bool"
  f_write :: "int \<Rightarrow> bytes \<Rightarrow> 'w \<Rightarrow> nat \<times> 'w"
  f_close :: "int \<Rightarrow> 'w \<Rightarrow> bool \<times> 'w"

text \<open>A FAT file has fewer than 4 GiB, so a read at or past that offset takes nothing.\<close>

definition fread :: "'w stdio \<Rightarrow> int \<Rightarrow> nat \<Rightarrow> nat \<Rightarrow> 'w \<Rightarrow> bytes" where
  "fread io f off n w = (if off < 4294967296 then take n (f_read io f off n w) else [])"

lemma fread_progress: "fread io f off n w \<noteq> [] \<Longrightarrow> off < 4294967296"
  by (simp add: fread_def split: if_splits)

lemma fread_advances:
  assumes "fread io f off n w \<noteq> []"
  shows "4294967296 - (off + length (fread io f off n w)) < 4294967296 - off"
proof -
  from assms have "length (fread io f off n w) > 0" by simp
  with fread_progress[OF assms] show ?thesis by (simp only: diff_less_mono2 less_add_same_cancel1)
qed

lemma length_fread: "length (fread io f off n w) \<le> n"
  by (simp add: fread_def)

end
