(* ===== verification/TnfsServer.thy ===== *)
theory TnfsServer
  imports TnfsProto Vfs Wildcard SdPath DiskStore
begin

text \<open>
  The TNFS server of \<^verbatim>\<open>src/net/tnfs_server.c\<close>: sessions with their files and directories, path
  resolution, the replay of lost replies, every command handler and the serve loop. The
  card's file system (the POSIX calls of the VFS) is a record of functions on a world
  \<open>'w\<close>; the change guard is the disk store's own. An open directory carries the entries it
  will still yield, as they were when it was opened. Sockets: a datagram is a step's input,
  and \<open>td_out\<close> logs what was handed to \<^verbatim>\<open>sendto\<close>.
\<close>

section \<open>The calls the server makes\<close>

record 'w tn_env =
  te_fs :: "'w vfs"
  te_disk :: disk_env

fun errno_to_tnfs :: "errno \<Rightarrow> byte" where
  "errno_to_tnfs E_NONE = TNFS_OK"
| "errno_to_tnfs ENOENT = TNFS_ENOENT"
| "errno_to_tnfs EACCES = TNFS_EACCES"
| "errno_to_tnfs EPERM = TNFS_EACCES"
| "errno_to_tnfs EEXIST = TNFS_EEXIST"
| "errno_to_tnfs ENOTDIR = TNFS_ENOTDIR"
| "errno_to_tnfs EISDIR = TNFS_EISDIR"
| "errno_to_tnfs EINVAL = TNFS_EINVAL"
| "errno_to_tnfs EMFILE = TNFS_EMFILE"
| "errno_to_tnfs ENFILE = TNFS_EMFILE"
| "errno_to_tnfs ENOSPC = TNFS_ENOSPC"
| "errno_to_tnfs EROFS = TNFS_EROFS"
| "errno_to_tnfs ENAMETOOLONG = TNFS_ENAMETOOLONG"
| "errno_to_tnfs ENOTEMPTY = TNFS_ENOTEMPTY"
| "errno_to_tnfs EBADF = TNFS_EBADF"
| "errno_to_tnfs ENOMEM = TNFS_ENOMEM"
| "errno_to_tnfs EBUSY = TNFS_EBUSY"
| "errno_to_tnfs EIO = TNFS_EIO"
| "errno_to_tnfs (E_OTHER _) = TNFS_EIO"

section \<open>State\<close>

abbreviation (input) TNFSD_MAX_SESSIONS :: nat where "TNFSD_MAX_SESSIONS \<equiv> 2"
abbreviation (input) TNFSD_MAX_FILES :: nat where "TNFSD_MAX_FILES \<equiv> 4"
abbreviation (input) TNFSD_MAX_DIRS :: nat where "TNFSD_MAX_DIRS \<equiv> 2"
abbreviation (input) TNFSD_IDLE_US :: int where "TNFSD_IDLE_US \<equiv> 30000000"
abbreviation (input) TNFSD_MIN_RETRY_MS :: u16 where "TNFSD_MIN_RETRY_MS \<equiv> 1000"
abbreviation (input) TNFSD_ABS_CAP :: nat where "TNFSD_ABS_CAP \<equiv> 320"
abbreviation (input) TNFSD_ROOT_CAP :: nat where "TNFSD_ROOT_CAP \<equiv> 160"
abbreviation (input) TNFSD_PAT_CAP :: nat where "TNFSD_PAT_CAP \<equiv> 64"
abbreviation (input) TNFSD_NAME_CAP :: nat where "TNFSD_NAME_CAP \<equiv> 256"

text \<open>An open \<^verbatim>\<open>DIR\<close>: its handle, all its entries and those not yet read.\<close>

record dirh =
  dh_id :: int
  dh_all :: "dirent list"
  dh_left :: "dirent list"

record entry =
  en_flags :: byte
  en_size :: u32
  en_mtime :: u32
  en_ctime :: u32
  en_name :: string

record dirslot =
  ds_in_use :: bool
  ds_dir :: "dirh option"
  ds_abspath :: string
  ds_pattern :: string
  ds_pos :: u16
  ds_has_pending :: bool
  ds_pending :: entry

type_synonym sockaddr = "u32 \<times> u16"

text \<open>\<open>se_reply\<close> are the first \<^verbatim>\<open>reply_len\<close> bytes of the reply buffer.\<close>

record session =
  se_in_use :: bool
  se_sid :: u16
  se_peer :: sockaddr
  se_active :: int
  se_root :: string
  se_files :: "int list"
  se_dirs :: "dirslot list"
  se_have_reply :: bool
  se_seq :: byte
  se_cmd :: byte
  se_reply :: bytes

record 'w tnfsd =
  td_sessions :: "session list"
  td_next_sid :: u16
  td_fs :: 'w
  td_disk :: disk_state
  td_out :: "(sockaddr \<times> bytes) list"

type_synonym 'w card = "'w \<times> disk_state"

text \<open>Zeroed memory, and a free session: zeroed, then its descriptors set to -1.\<close>

definition entry0 :: entry where
  "entry0 = \<lparr>en_flags = 0, en_size = 0, en_mtime = 0, en_ctime = 0, en_name = []\<rparr>"

definition dirslot0 :: dirslot where
  "dirslot0 = \<lparr>ds_in_use = False, ds_dir = None, ds_abspath = [], ds_pattern = [], ds_pos = 0,
     ds_has_pending = False, ds_pending = entry0\<rparr>"

definition session_zero :: session where
  "session_zero = \<lparr>se_in_use = False, se_sid = 0, se_peer = (0, 0), se_active = 0, se_root = [],
     se_files = replicate TNFSD_MAX_FILES 0, se_dirs = replicate TNFSD_MAX_DIRS dirslot0,
     se_have_reply = False, se_seq = 0, se_cmd = 0, se_reply = []\<rparr>"

definition session0 :: session where
  "session0 = session_zero\<lparr>se_files := replicate TNFSD_MAX_FILES (-1)\<rparr>"

section \<open>Sessions\<close>

definition same_peer :: "sockaddr \<Rightarrow> sockaddr \<Rightarrow> bool" where
  "same_peer a b \<longleftrightarrow> fst a = fst b \<and> snd a = snd b"

fun find_slot :: "('a \<Rightarrow> bool) \<Rightarrow> 'a list \<Rightarrow> nat option" where
  "find_slot P [] = None"
| "find_slot P (x # xs) = (if P x then Some 0 else map_option Suc (find_slot P xs))"

definition find_session :: "u16 \<Rightarrow> sockaddr \<Rightarrow> 'w tnfsd \<Rightarrow> nat option" where
  "find_session sid peer st =
     (if sid = 0 then None
      else find_slot (\<lambda>s. se_in_use s \<and> se_sid s = sid \<and> same_peer (se_peer s) peer) (td_sessions st))"

definition close_files :: "'w vfs \<Rightarrow> int list \<Rightarrow> 'w \<Rightarrow> 'w" where
  "close_files v fds w = fold (\<lambda>fd w. if fd \<ge> 0 then v_close v fd w else w) fds w"

definition close_dirs :: "'w vfs \<Rightarrow> dirslot list \<Rightarrow> 'w \<Rightarrow> 'w" where
  "close_dirs v ds w =
     fold (\<lambda>d w. if ds_in_use d then (case ds_dir d of Some h \<Rightarrow> v_closedir v (dh_id h) w | None \<Rightarrow> w) else w) ds w"

definition free_session :: "'w tn_env \<Rightarrow> nat \<Rightarrow> 'w tnfsd \<Rightarrow> 'w tnfsd" where
  "free_session e i st =
     (let s = td_sessions st ! i
      in st\<lparr>td_fs := close_dirs (te_fs e) (se_dirs s) (close_files (te_fs e) (se_files s) (td_fs st)),
            td_sessions := (td_sessions st)[i := session0]\<rparr>)"

definition alloc_session :: "'w tn_env \<Rightarrow> 'w tnfsd \<Rightarrow> (nat \<times> 'w tnfsd) option" where
  "alloc_session e st =
     (case find_slot (\<lambda>s. \<not> se_in_use s) (td_sessions st) of
        None \<Rightarrow> None
      | Some i \<Rightarrow> let st = free_session e i st
                  in Some (i, st\<lparr>td_sessions := (td_sessions st)[i := (td_sessions st ! i)\<lparr>se_in_use := True\<rparr>]\<rparr>))"

definition drop_all_sessions :: "'w tn_env \<Rightarrow> 'w tnfsd \<Rightarrow> 'w tnfsd" where
  "drop_all_sessions e st =
     fold (\<lambda>i st. if se_in_use (td_sessions st ! i) then free_session e i st else st) [0..<TNFSD_MAX_SESSIONS] st"

definition reap_idle :: "'w tn_env \<Rightarrow> int \<Rightarrow> 'w tnfsd \<Rightarrow> 'w tnfsd" where
  "reap_idle e t st =
     fold (\<lambda>i st. let s = td_sessions st ! i
                  in if se_in_use s \<and> t - se_active s > TNFSD_IDLE_US then free_session e i st else st)
       [0..<TNFSD_MAX_SESSIONS] st"

text \<open>
  The search for an unused session id; four candidates are always enough (\<open>next_sid_total\<close>
  in \<open>TnfsServerProps\<close>): one may be zero and one may be taken by each of the two sessions.
\<close>

fun sid_loop :: "nat \<Rightarrow> u16 list \<Rightarrow> u16 \<Rightarrow> (u16 \<times> u16) option" where
  "sid_loop 0 taken nxt = None"
| "sid_loop (Suc fuel) taken nxt =
     (let cand = nxt; nxt = nxt + 1
      in if cand = 0 then sid_loop fuel taken nxt
         else if cand \<in> set taken then sid_loop fuel taken nxt
         else Some (cand, nxt))"

definition next_sid :: "'w tnfsd \<Rightarrow> (u16 \<times> 'w tnfsd) option" where
  "next_sid st =
     (case sid_loop 4 (map se_sid (filter se_in_use (td_sessions st))) (td_next_sid st) of
        None \<Rightarrow> None
      | Some (sid, nxt) \<Rightarrow> Some (sid, st\<lparr>td_next_sid := nxt\<rparr>))"

section \<open>Paths, replies and directory entries\<close>

definition rstrip_slash :: "string \<Rightarrow> string" where
  "rstrip_slash s = rev (dropWhile (\<lambda>c. c = CHR ''/'') (rev s))"

text \<open>\<open>Inl\<close> is an error status, \<open>Inr\<close> the absolute path with \<open>TNFS_OK\<close>.\<close>

definition resolve_path :: "session \<Rightarrow> string \<Rightarrow> nat \<Rightarrow> byte + string" where
  "resolve_path s req cap =
     (let req = dropWhile (\<lambda>c. c = CHR ''/'') req
      in if se_root s \<noteq> [] \<and> req \<noteq> [] \<and> length (se_root s @ ''/'' @ req) \<ge> TNFSD_ABS_CAP
         then Inl TNFS_ENAMETOOLONG
         else let rel = (if se_root s \<noteq> []
                         then if req \<noteq> [] then se_root s @ ''/'' @ req else strlcpy (se_root s) TNFSD_ABS_CAP
                         else strlcpy req TNFSD_ABS_CAP);
                  rel = rstrip_slash rel
              in if rel = [] then Inr (strlcpy SD_MOUNT_POINT cap)
                 else case sd_path rel cap of None \<Rightarrow> Inl TNFS_EINVAL | Some p \<Rightarrow> Inr p)"

definition send_to :: "sockaddr \<Rightarrow> bytes \<Rightarrow> 'w tnfsd \<Rightarrow> 'w tnfsd" where
  "send_to p m st = st\<lparr>td_out := td_out st @ [(p, m)]\<rparr>"

definition upd_session :: "nat \<Rightarrow> (session \<Rightarrow> session) \<Rightarrow> 'w tnfsd \<Rightarrow> 'w tnfsd" where
  "upd_session i f st = st\<lparr>td_sessions := (td_sessions st)[i := f (td_sessions st ! i)]\<rparr>"

definition reply_and_cache :: "nat \<Rightarrow> byte \<Rightarrow> byte \<Rightarrow> bytes \<Rightarrow> 'w tnfsd \<Rightarrow> 'w tnfsd" where
  "reply_and_cache i seq cmd body st =
     (let blen = (if TNFS_HDR_LEN + length body > TNFS_MSG_CAP then TNFS_MSG_CAP - TNFS_HDR_LEN else length body);
          r = tnfs_wr16 (se_sid (td_sessions st ! i)) @ [seq, cmd] @ take blen body;
          st = upd_session i (\<lambda>s. s\<lparr>se_reply := r, se_seq := seq, se_cmd := cmd, se_have_reply := True\<rparr>) st
      in send_to (se_peer (td_sessions st ! i)) r st)"

definition dir_stash :: "entry \<Rightarrow> dirslot \<Rightarrow> dirslot" where
  "dir_stash en d = d\<lparr>ds_has_pending := True, ds_pending := en\<lparr>en_name := strlcpy (en_name en) TNFSD_NAME_CAP\<rparr>\<rparr>"

text \<open>The entries a listing shows: no dotfiles, and only those matching the pattern.\<close>

definition visible :: "string \<Rightarrow> dirent \<Rightarrow> bool" where
  "visible pat de \<longleftrightarrow> \<not> (d_name de \<noteq> [] \<and> hd (d_name de) = CHR ''.'') \<and>
     \<not> (pat \<noteq> [] \<and> \<not> wildcard_match_ci pat (d_name de))"

fun dir_skip :: "string \<Rightarrow> dirent list \<Rightarrow> dirent list" where
  "dir_skip pat [] = []"
| "dir_skip pat (de # r) = (if visible pat de then de # r else dir_skip pat r)"

definition dir_meta :: "'w vfs \<Rightarrow> 'w \<Rightarrow> string \<Rightarrow> dirent \<Rightarrow> entry" where
  "dir_meta v w apath de =
     (let full = apath @ ''/'' @ d_name de;
          e0 = \<lparr>en_flags = 0, en_size = 0, en_mtime = 0, en_ctime = 0, en_name = strlcpy (d_name de) TNFSD_NAME_CAP\<rparr>
      in if length full < TNFSD_ABS_CAP
         then case v_stat v full w of
                Inr sb \<Rightarrow> e0\<lparr>en_flags := (if S_ISDIR (st_mode sb) then 0x01 else 0), en_size := word_of_int (st_size sb),
                             en_mtime := word_of_int (st_mtime sb), en_ctime := word_of_int (st_mtime sb)\<rparr>
              | Inl _ \<Rightarrow> e0\<lparr>en_flags := (if d_isdir de then 0x01 else 0)\<rparr>
         else e0)"

definition dir_next :: "'w vfs \<Rightarrow> 'w \<Rightarrow> dirslot \<Rightarrow> (entry \<times> dirslot) option" where
  "dir_next v w d =
     (if ds_has_pending d
      then Some ((ds_pending d)\<lparr>en_name := strlcpy (en_name (ds_pending d)) TNFSD_NAME_CAP\<rparr>, d\<lparr>ds_has_pending := False\<rparr>)
      else case ds_dir d of
             None \<Rightarrow> None
           | Some h \<Rightarrow> (case dir_skip (ds_pattern d) (dh_left h) of
                          [] \<Rightarrow> None
                        | de # r \<Rightarrow> Some (dir_meta v w (ds_abspath d) de, d\<lparr>ds_dir := Some (h\<lparr>dh_left := r\<rparr>)\<rparr>)))"

section \<open>Command handlers\<close>

definition open_flags :: "u16 \<Rightarrow> oflags" where
  "open_flags tf =
     \<lparr> o_acc = (if tf AND 0x0003 = 0x0002 then O_WRONLY else if tf AND 0x0003 = 0x0003 then O_RDWR else O_RDONLY),
       o_append = (tf AND 0x0008 \<noteq> 0), o_creat = (tf AND 0x0100 \<noteq> 0),
       o_trunc = (tf AND 0x0200 \<noteq> 0), o_excl = (tf AND 0x0400 \<noteq> 0) \<rparr>"

definition open_writes :: "oflags \<Rightarrow> bool" where
  "open_writes fl \<longleftrightarrow> o_acc fl = O_WRONLY \<or> o_acc fl = O_RDWR \<or> o_trunc fl \<or> o_append fl"

definition h_open :: "'w tn_env \<Rightarrow> bytes \<Rightarrow> session \<Rightarrow> 'w card \<Rightarrow> bytes \<times> session \<times> 'w card" where
  "h_open e pl s c =
     (if length pl < 5 then ([TNFS_EINVAL], s, c)
      else case c_str (drop 4 pl) of None \<Rightarrow> ([TNFS_EINVAL], s, c)
      | Some path \<Rightarrow> (case resolve_path s path TNFSD_ABS_CAP of Inl st \<Rightarrow> ([st], s, c)
      | Inr p \<Rightarrow> (case find_slot (\<lambda>fd. fd < 0) (se_files s) of None \<Rightarrow> ([TNFS_EMFILE], s, c)
      | Some slot \<Rightarrow>
          (let fl = open_flags (tnfs_rd16 pl); writes = open_writes fl;
               g = (if writes then disk_change_begin (te_disk e) p (snd c) else (-1, snd c))
           in if writes \<and> fst g \<ge> 0 then ([TNFS_EBUSY], s, (fst c, snd g))
              else let r = v_open (te_fs e) p fl (fst c);
                       c = (snd r, if writes then disk_change_end (snd g) else snd g)
                   in case fst r of
                        Inl er \<Rightarrow> ([errno_to_tnfs er], s, c)
                      | Inr fd \<Rightarrow> ([TNFS_OK, of_nat slot], s\<lparr>se_files := (se_files s)[slot := fd]\<rparr>, c)))))"

definition fd_bad :: "session \<Rightarrow> byte \<Rightarrow> bool" where
  "fd_bad s fd \<longleftrightarrow> unat fd \<ge> TNFSD_MAX_FILES \<or> se_files s ! unat fd < 0"

definition h_read :: "'w tn_env \<Rightarrow> bytes \<Rightarrow> session \<Rightarrow> 'w card \<Rightarrow> bytes \<times> session \<times> 'w card" where
  "h_read e pl s c =
     (if length pl < 3 then ([TNFS_EINVAL], s, c)
      else let fd = pl ! 0; want = unat (tnfs_rd16 (drop 1 pl))
      in if fd_bad s fd then ([TNFS_EBADF], s, c)
      else let want = (if want > TNFS_IO_CHUNK then TNFS_IO_CHUNK else want);
               r = v_read (te_fs e) (se_files s ! unat fd) want (fst c); c = (snd r, snd c)
      in case fst r of
           Inl er \<Rightarrow> ([errno_to_tnfs er], s, c)
         | Inr bs \<Rightarrow> if bs = [] \<and> want > 0 then ([TNFS_EOF], s, c)
                     else (TNFS_OK # tnfs_wr16 (of_nat (length bs)) @ bs, s, c))"

definition h_write :: "'w tn_env \<Rightarrow> bytes \<Rightarrow> session \<Rightarrow> 'w card \<Rightarrow> bytes \<times> session \<times> 'w card" where
  "h_write e pl s c =
     (if length pl < 3 then ([TNFS_EINVAL], s, c)
      else let fd = pl ! 0; cnt = unat (tnfs_rd16 (drop 1 pl))
      in if length pl < 3 + cnt then ([TNFS_EINVAL], s, c)
      else if fd_bad s fd then ([TNFS_EBADF], s, c)
      else let r = v_write (te_fs e) (se_files s ! unat fd) (slice 3 cnt pl) (fst c); c = (snd r, snd c)
      in case fst r of
           Inl er \<Rightarrow> ([errno_to_tnfs er], s, c)
         | Inr w \<Rightarrow> (TNFS_OK # tnfs_wr16 (of_nat w), s, c))"

definition h_close :: "'w tn_env \<Rightarrow> bytes \<Rightarrow> session \<Rightarrow> 'w card \<Rightarrow> bytes \<times> session \<times> 'w card" where
  "h_close e pl s c =
     (if length pl < 1 then ([TNFS_EINVAL], s, c)
      else let fd = pl ! 0
      in if fd_bad s fd then ([TNFS_EBADF], s, c)
      else ([TNFS_OK], s\<lparr>se_files := (se_files s)[unat fd := -1]\<rparr>,
            (v_close (te_fs e) (se_files s ! unat fd) (fst c), snd c)))"

fun seek_of :: "byte \<Rightarrow> seek option" where
  "seek_of b = (if b = 0 then Some SEEK_SET else if b = 1 then Some SEEK_CUR else if b = 2 then Some SEEK_END else None)"

definition h_lseek :: "'w tn_env \<Rightarrow> bytes \<Rightarrow> session \<Rightarrow> 'w card \<Rightarrow> bytes \<times> session \<times> 'w card" where
  "h_lseek e pl s c =
     (if length pl < 6 then ([TNFS_EINVAL], s, c)
      else let fd = pl ! 0; off = sint (tnfs_rd32 (drop 2 pl))
      in if fd_bad s fd then ([TNFS_EBADF], s, c)
      else case seek_of (pl ! 1) of None \<Rightarrow> ([TNFS_EINVAL], s, c)
      | Some w \<Rightarrow>
          (let r = v_lseek (te_fs e) (se_files s ! unat fd) off w (fst c); c = (snd r, snd c)
           in case fst r of
                Inl er \<Rightarrow> ([errno_to_tnfs er], s, c)
              | Inr pos \<Rightarrow> (TNFS_OK # tnfs_wr32 (word_of_int pos), s, c)))"

definition h_stat :: "'w tn_env \<Rightarrow> bytes \<Rightarrow> session \<Rightarrow> 'w card \<Rightarrow> bytes \<times> session \<times> 'w card" where
  "h_stat e pl s c =
     (case c_str pl of None \<Rightarrow> ([TNFS_EINVAL], s, c)
      | Some path \<Rightarrow> (case resolve_path s path TNFSD_ABS_CAP of Inl st \<Rightarrow> ([st], s, c)
      | Inr p \<Rightarrow> (case v_stat (te_fs e) p (fst c) of
          Inl er \<Rightarrow> ([errno_to_tnfs er], s, c)
        | Inr sb \<Rightarrow> (TNFS_OK # tnfs_wr16 (ucast (st_mode sb)) @ tnfs_wr16 0 @ tnfs_wr16 0 @
                      tnfs_wr32 (word_of_int (st_size sb)) @ tnfs_wr32 (word_of_int (st_mtime sb)) @
                      tnfs_wr32 (word_of_int (st_mtime sb)) @ tnfs_wr32 (word_of_int (st_mtime sb)), s, c))))"

text \<open>An \<^verbatim>\<open>op\<close> of the shared handler: its errno, or \<open>None\<close> for success.\<close>

type_synonym 'w path_op = "'w tn_env \<Rightarrow> string \<Rightarrow> 'w card \<Rightarrow> errno option \<times> 'w card"

definition h_pathop :: "'w path_op \<Rightarrow> 'w tn_env \<Rightarrow> bytes \<Rightarrow> session \<Rightarrow> 'w card \<Rightarrow> bytes \<times> session \<times> 'w card" where
  "h_pathop opr e pl s c =
     (case c_str pl of None \<Rightarrow> ([TNFS_EINVAL], s, c)
      | Some path \<Rightarrow> (case resolve_path s path TNFSD_ABS_CAP of Inl st \<Rightarrow> ([st], s, c)
      | Inr p \<Rightarrow> (case opr e p c of
          (None, c) \<Rightarrow> ([TNFS_OK], s, c)
        | (Some er, c) \<Rightarrow> ([errno_to_tnfs er], s, c))))"

definition mkdir_op :: "'w path_op" where
  "mkdir_op e p c = (fst (v_mkdir (te_fs e) p (fst c)), snd (v_mkdir (te_fs e) p (fst c)), snd c)"

definition rmdir_op :: "'w path_op" where
  "rmdir_op e p c = (fst (v_rmdir (te_fs e) p (fst c)), snd (v_rmdir (te_fs e) p (fst c)), snd c)"

definition unlink_op :: "'w path_op" where
  "unlink_op e p c =
     (let g = disk_change_begin (te_disk e) p (snd c)
      in if fst g \<ge> 0 then (Some EBUSY, fst c, snd g)
         else let r = v_unlink (te_fs e) p (fst c) in (fst r, snd r, disk_change_end (snd g)))"

definition h_rename :: "'w tn_env \<Rightarrow> bytes \<Rightarrow> session \<Rightarrow> 'w card \<Rightarrow> bytes \<times> session \<times> 'w card" where
  "h_rename e pl s c =
     (if length pl < 2 then ([TNFS_EINVAL], s, c)
      else case c_str pl of None \<Rightarrow> ([TNFS_EINVAL], s, c)
      | Some oldp \<Rightarrow> (case c_str (after_nul pl) of None \<Rightarrow> ([TNFS_EINVAL], s, c)
      | Some newp \<Rightarrow> (case resolve_path s oldp TNFSD_ABS_CAP of Inl st \<Rightarrow> ([st], s, c)
      | Inr oabs \<Rightarrow> (case resolve_path s newp TNFSD_ABS_CAP of Inl st \<Rightarrow> ([st], s, c)
      | Inr nabs \<Rightarrow>
          (let g = disk_change_begin (te_disk e) oabs (snd c)
           in if fst g \<ge> 0 then ([TNFS_EBUSY], s, (fst c, snd g))
              else let r = v_rename (te_fs e) oabs nabs (fst c); c = (snd r, disk_change_end (snd g))
              in case fst r of None \<Rightarrow> ([TNFS_OK], s, c) | Some er \<Rightarrow> ([errno_to_tnfs er], s, c))))))"

text \<open>The slot, the \<^verbatim>\<open>opendir\<close> and the new slot's contents, common to OPENDIR and OPENDIRX.\<close>

definition open_dir_slot :: "'w tn_env \<Rightarrow> string \<Rightarrow> string \<Rightarrow> session \<Rightarrow> 'w card \<Rightarrow> (byte + nat \<times> dirslot) \<times> session \<times> 'w card" where
  "open_dir_slot e p pat s c =
     (case find_slot (\<lambda>d. \<not> ds_in_use d) (se_dirs s) of None \<Rightarrow> (Inl TNFS_EMFILE, s, c)
      | Some slot \<Rightarrow>
          (let r = v_opendir (te_fs e) p (fst c); c = (snd r, snd c)
           in case fst r of
                Inl er \<Rightarrow> (Inl (errno_to_tnfs er), s, c)
              | Inr (h, ents) \<Rightarrow>
                  (let ds = dirslot0\<lparr>ds_in_use := True, ds_dir := Some \<lparr>dh_id = h, dh_all = ents, dh_left = ents\<rparr>,
                                     ds_abspath := strlcpy p TNFSD_ABS_CAP, ds_pattern := pat\<rparr>
                   in (Inr (slot, ds), s\<lparr>se_dirs := (se_dirs s)[slot := ds]\<rparr>, c))))"

definition h_opendir :: "'w tn_env \<Rightarrow> bytes \<Rightarrow> session \<Rightarrow> 'w card \<Rightarrow> bytes \<times> session \<times> 'w card" where
  "h_opendir e pl s c =
     (case c_str pl of None \<Rightarrow> ([TNFS_EINVAL], s, c)
      | Some path \<Rightarrow> (case resolve_path s path TNFSD_ABS_CAP of Inl st \<Rightarrow> ([st], s, c)
      | Inr p \<Rightarrow> (case open_dir_slot e p [] s c of
          (Inl st, s, c) \<Rightarrow> ([st], s, c)
        | (Inr (slot, ds), s, c) \<Rightarrow> ([TNFS_OK, of_nat slot], s, c))))"

text \<open>The pattern an OPENDIRX keeps: none for an empty one or a single star.\<close>

definition dirx_pattern :: "string \<Rightarrow> string" where
  "dirx_pattern pat = (if length pat > 0 \<and> \<not> (length pat = 1 \<and> pat ! 0 = CHR ''*'') then strlcpy pat TNFSD_PAT_CAP else [])"

definition dir_count :: "dirslot \<Rightarrow> u16" where
  "dir_count ds =
     (case ds_dir ds of None \<Rightarrow> 0
      | Some h \<Rightarrow> fold (\<lambda>de count. if visible (ds_pattern ds) de then count + 1 else count) (dh_all h) 0)"

definition h_opendirx :: "'w tn_env \<Rightarrow> bytes \<Rightarrow> session \<Rightarrow> 'w card \<Rightarrow> bytes \<times> session \<times> 'w card" where
  "h_opendirx e pl s c =
     (if length pl < 5 then ([TNFS_EINVAL], s, c)
      else case c_str (drop 4 pl) of None \<Rightarrow> ([TNFS_EINVAL], s, c)
      | Some pat \<Rightarrow> (case c_str (after_nul (drop 4 pl)) of None \<Rightarrow> ([TNFS_EINVAL], s, c)
      | Some path \<Rightarrow> (case resolve_path s path TNFSD_ABS_CAP of Inl st \<Rightarrow> ([st], s, c)
      | Inr p \<Rightarrow> (case open_dir_slot e p (dirx_pattern pat) s c of
          (Inl st, s, c) \<Rightarrow> ([st], s, c)
        | (Inr (slot, ds), s, c) \<Rightarrow> ([TNFS_OK, of_nat slot] @ tnfs_wr16 (dir_count ds), s, c)))))"

definition dir_bad :: "session \<Rightarrow> byte \<Rightarrow> bool" where
  "dir_bad s h \<longleftrightarrow> unat h \<ge> TNFSD_MAX_DIRS \<or> \<not> ds_in_use (se_dirs s ! unat h)"

definition h_readdir :: "'w tn_env \<Rightarrow> bytes \<Rightarrow> session \<Rightarrow> 'w card \<Rightarrow> bytes \<times> session \<times> 'w card" where
  "h_readdir e pl s c =
     (if length pl < 1 then ([TNFS_EINVAL], s, c)
      else let h = pl ! 0
      in if dir_bad s h then ([TNFS_EBADF], s, c)
      else case dir_next (te_fs e) (fst c) (se_dirs s ! unat h) of
             None \<Rightarrow> ([TNFS_EOF], s, c)
           | Some (en, d) \<Rightarrow>
               (let nm = en_name en;
                    nl = (if 1 + length nm + 1 > TNFS_MSG_CAP - TNFS_HDR_LEN then TNFS_MSG_CAP - TNFS_HDR_LEN - 2 else length nm)
                in (TNFS_OK # ascii (take nl nm) @ [0], s\<lparr>se_dirs := (se_dirs s)[unat h := d]\<rparr>, c)))"

definition enc_entry :: "entry \<Rightarrow> bytes" where
  "enc_entry en = en_flags en # tnfs_wr32 (en_size en) @ tnfs_wr32 (en_mtime en) @ tnfs_wr32 (en_ctime en) @
     ascii (en_name en) @ [0]"

text \<open>
  The loop of READDIRX: \<open>left\<close> entries are still wanted, \<open>es\<close> are the bytes from offset 5
  on. The result is the slot, the bytes, the count and whether the directory ended.
\<close>

fun readdirx_loop :: "'w vfs \<Rightarrow> 'w \<Rightarrow> nat \<Rightarrow> dirslot \<Rightarrow> bytes \<Rightarrow> byte \<Rightarrow> dirslot \<times> bytes \<times> byte \<times> bool" where
  "readdirx_loop v w 0 d es count = (d, es, count, False)"
| "readdirx_loop v w (Suc left) d es count =
     (case dir_next v w d of
        None \<Rightarrow> (d, es, count, True)
      | Some (en, d) \<Rightarrow>
          (if 5 + length es + (13 + length (en_name en) + 1) > TNFS_MSG_CAP - TNFS_HDR_LEN
           then (dir_stash en d, es, count, False)
           else readdirx_loop v w left d (es @ enc_entry en) (count + 1)))"

definition h_readdirx :: "'w tn_env \<Rightarrow> bytes \<Rightarrow> session \<Rightarrow> 'w card \<Rightarrow> bytes \<times> session \<times> 'w card" where
  "h_readdirx e pl s c =
     (if length pl < 2 then ([TNFS_EINVAL], s, c)
      else let h = pl ! 0; numwanted = pl ! 1
      in if dir_bad s h then ([TNFS_EBADF], s, c)
      else let numwanted = (if numwanted = 0 then 1 else numwanted)
      in case readdirx_loop (te_fs e) (fst c) (unat numwanted) (se_dirs s ! unat h) [] 0 of
           (d, es, count, eof) \<Rightarrow>
             if count = 0 then ([TNFS_EOF], s\<lparr>se_dirs := (se_dirs s)[unat h := d]\<rparr>, c)
             else ([TNFS_OK, count, if eof then 0x01 else 0] @ tnfs_wr16 (ds_pos d) @ es,
                   s\<lparr>se_dirs := (se_dirs s)[unat h := d\<lparr>ds_pos := ds_pos d + ucast count\<rparr>]\<rparr>, c))"

definition h_closedir :: "'w tn_env \<Rightarrow> bytes \<Rightarrow> session \<Rightarrow> 'w card \<Rightarrow> bytes \<times> session \<times> 'w card" where
  "h_closedir e pl s c =
     (if length pl < 1 then ([TNFS_EINVAL], s, c)
      else let h = pl ! 0
      in if dir_bad s h then ([TNFS_EBADF], s, c)
      else ([TNFS_OK], s\<lparr>se_dirs := (se_dirs s)[unat h := dirslot0]\<rparr>,
            (case ds_dir (se_dirs s ! unat h) of Some d \<Rightarrow> v_closedir (te_fs e) (dh_id d) (fst c) | None \<Rightarrow> fst c, snd c)))"

section \<open>Dispatch and the serve loop\<close>

definition h_ok :: "'w tn_env \<Rightarrow> bytes \<Rightarrow> session \<Rightarrow> 'w card \<Rightarrow> bytes \<times> session \<times> 'w card" where
  "h_ok e pl s c = ([TNFS_OK], s, c)"

definition h_enosys :: "'w tn_env \<Rightarrow> bytes \<Rightarrow> session \<Rightarrow> 'w card \<Rightarrow> bytes \<times> session \<times> 'w card" where
  "h_enosys e pl s c = ([TNFS_ENOSYS], s, c)"

definition handler :: "byte \<Rightarrow> 'w tn_env \<Rightarrow> bytes \<Rightarrow> session \<Rightarrow> 'w card \<Rightarrow> bytes \<times> session \<times> 'w card" where
  "handler cmd =
     (if cmd = TNFS_UMOUNT then h_ok
      else if cmd = TNFS_OPEN then h_open
      else if cmd = TNFS_READ then h_read
      else if cmd = TNFS_WRITE then h_write
      else if cmd = TNFS_CLOSE then h_close
      else if cmd = TNFS_LSEEK then h_lseek
      else if cmd = TNFS_STAT then h_stat
      else if cmd = TNFS_MKDIR then h_pathop mkdir_op
      else if cmd = TNFS_RMDIR then h_pathop rmdir_op
      else if cmd = TNFS_UNLINK then h_pathop unlink_op
      else if cmd = TNFS_RENAME then h_rename
      else if cmd = TNFS_OPENDIR then h_opendir
      else if cmd = TNFS_OPENDIRX then h_opendirx
      else if cmd = TNFS_READDIR then h_readdir
      else if cmd = TNFS_READDIRX then h_readdirx
      else if cmd = TNFS_CLOSEDIR then h_closedir
      else if cmd = TNFS_CHMOD then h_ok
      else h_enosys)"

definition process :: "'w tn_env \<Rightarrow> int \<Rightarrow> nat \<Rightarrow> byte \<Rightarrow> byte \<Rightarrow> bytes \<Rightarrow> 'w tnfsd \<Rightarrow> 'w tnfsd" where
  "process e now i seq cmd rx st =
     (case handler cmd e (drop TNFS_HDR_LEN rx) (td_sessions st ! i) (td_fs st, td_disk st) of
        (body, s, c) \<Rightarrow>
          (let st = st\<lparr>td_sessions := (td_sessions st)[i := s], td_fs := fst c, td_disk := snd c\<rparr>;
               st = reply_and_cache i seq cmd body st;
               st = upd_session i (\<lambda>s. s\<lparr>se_active := now\<rparr>) st
           in if cmd = TNFS_UMOUNT then free_session e i st else st))"

definition mount_point :: "bytes \<Rightarrow> string" where
  "mount_point rx =
     (let pl = drop TNFS_HDR_LEN rx;
          mp = (if length pl > 2 then case c_str (drop 2 pl) of Some m \<Rightarrow> m | None \<Rightarrow> [] else [])
      in rstrip_slash (strlcpy (dropWhile (\<lambda>c. c = CHR ''/'') mp) TNFSD_ROOT_CAP))"

definition mount_replay :: "byte \<Rightarrow> sockaddr \<Rightarrow> session \<Rightarrow> bool" where
  "mount_replay seq peer s \<longleftrightarrow> se_in_use s \<and> same_peer (se_peer s) peer \<and> se_have_reply s \<and>
     se_cmd s = TNFS_MOUNT \<and> se_seq s = seq"

definition resend :: "int \<Rightarrow> nat \<Rightarrow> 'w tnfsd \<Rightarrow> 'w tnfsd" where
  "resend now i st =
     upd_session i (\<lambda>s. s\<lparr>se_active := now\<rparr>)
       (send_to (se_peer (td_sessions st ! i)) (se_reply (td_sessions st ! i)) st)"

definition handle_mount :: "'w tn_env \<Rightarrow> int \<Rightarrow> byte \<Rightarrow> bytes \<Rightarrow> sockaddr \<Rightarrow> 'w tnfsd \<Rightarrow> 'w tnfsd" where
  "handle_mount e now seq rx peer st =
     (case find_slot (mount_replay seq peer) (td_sessions st) of
        Some i \<Rightarrow> resend now i st
      | None \<Rightarrow> (case alloc_session e st of
          None \<Rightarrow> send_to peer (tnfs_wr16 0 @ [seq, TNFS_MOUNT, TNFS_EAGAIN] @ tnfs_wr16 TNFSD_MIN_RETRY_MS) st
        | Some (i, st) \<Rightarrow>
            (let rootrel = mount_point rx
             in case next_sid st of
                  None \<Rightarrow> st
                | Some (sid, st) \<Rightarrow>
                    (if rootrel \<noteq> [] \<and> sd_path rootrel TNFSD_ABS_CAP = None
                     then free_session e i (reply_and_cache i seq TNFS_MOUNT [TNFS_ENOENT]
                            (upd_session i (\<lambda>s. s\<lparr>se_sid := sid\<rparr>) st))
                     else reply_and_cache i seq TNFS_MOUNT ([TNFS_OK, 0x02, 0x01] @ tnfs_wr16 TNFSD_MIN_RETRY_MS)
                            (upd_session i (\<lambda>s. s\<lparr>se_sid := sid, se_peer := peer,
                                                  se_root := strlcpy rootrel TNFSD_ROOT_CAP, se_active := now\<rparr>) st)))))"

text \<open>
  One turn of the loop: \<open>t0\<close> is the time at the reaping, \<open>now\<close> at the reply, \<open>dg\<close> the
  datagram with its sender, or \<open>None\<close> when the receive timed out. A longer datagram than the
  buffer is cut by \<^verbatim>\<open>recvfrom\<close>.
\<close>

definition serve_step :: "'w tn_env \<Rightarrow> int \<times> int \<times> (sockaddr \<times> bytes) option \<Rightarrow> 'w tnfsd \<Rightarrow> 'w tnfsd" where
  "serve_step e ev st =
     (case ev of (t0, now, dg) \<Rightarrow>
        let st = reap_idle e t0 st
        in case dg of
             None \<Rightarrow> st
           | Some (peer, m) \<Rightarrow>
               (let rx = take TNFS_MSG_CAP m; sid = tnfs_rd16 rx; seq = rx ! 2; cmd = rx ! 3
                in if length rx < TNFS_HDR_LEN then st
                   else if cmd = TNFS_MOUNT then handle_mount e now seq rx peer st
                   else case find_session sid peer st of
                          None \<Rightarrow> st
                        | Some i \<Rightarrow> if se_have_reply (td_sessions st ! i) \<and> se_seq (td_sessions st ! i) = seq \<and>
                                        se_cmd (td_sessions st ! i) = cmd
                                    then resend now i st
                                    else process e now i seq cmd rx st))"

text \<open>
  \<open>serve\<close>: nothing when the socket cannot be opened or bound, else the turns while the link
  is up, and then every session is dropped. \<open>tnfsd_statics\<close> is the module's memory at
  boot, and \<open>tnfsd_start\<close> what the task does with it before its first \<open>serve\<close>.
\<close>

definition serve :: "'w tn_env \<Rightarrow> bool \<Rightarrow> (int \<times> int \<times> (sockaddr \<times> bytes) option) list \<Rightarrow> 'w tnfsd \<Rightarrow> 'w tnfsd" where
  "serve e sock_ok evs st = (if \<not> sock_ok then st else drop_all_sessions e (fold (serve_step e) evs st))"

definition tnfsd_statics :: "'w \<Rightarrow> disk_state \<Rightarrow> 'w tnfsd" where
  "tnfsd_statics w dk = \<lparr>td_sessions = replicate TNFSD_MAX_SESSIONS session_zero, td_next_sid = 1, td_fs = w,
     td_disk = dk, td_out = []\<rparr>"

definition tnfsd_start :: "'w tn_env \<Rightarrow> 'w tnfsd \<Rightarrow> 'w tnfsd" where
  "tnfsd_start e st = fold (free_session e) [0..<TNFSD_MAX_SESSIONS] st"

text \<open>The task: every period the link is up is one run of \<open>serve\<close>.\<close>

definition tnfsd_task :: "'w tn_env \<Rightarrow> (bool \<times> (int \<times> int \<times> (sockaddr \<times> bytes) option) list) list \<Rightarrow> 'w tnfsd \<Rightarrow> 'w tnfsd" where
  "tnfsd_task e periods st = fold (\<lambda>(ok, evs). serve e ok evs) periods (tnfsd_start e st)"

end
