(* ===== verification/TnfsServerProps.thy ===== *)
theory TnfsServerProps
  imports TnfsServer
begin

text \<open>
  Correctness of the TNFS server. Every command handler obeys one contract, the locale
  \<open>tn_handler\<close>: a reply of at least one byte that fits a message, the session's identity and
  replay cache untouched, and the descriptors the file system holds changed exactly by those
  the session gained or gave back. On it rest the invariant of the two sessions, the
  at-most-once execution of a request, and the return of every descriptor.
\<close>

section \<open>Descriptors and what the file system promises\<close>

datatype handle = Fd int | Dir int

text \<open>\<open>held w\<close> are the open descriptors and directories of the file system.\<close>

definition vfs_laws :: "'w vfs \<Rightarrow> ('w \<Rightarrow> handle set) \<Rightarrow> bool" where
  "vfs_laws v held \<longleftrightarrow>
     (\<forall>p fl w fd w'. v_open v p fl w = (Inr fd, w') \<longrightarrow> 0 \<le> fd \<and> Fd fd \<notin> held w \<and> held w' = insert (Fd fd) (held w)) \<and>
     (\<forall>p fl w er w'. v_open v p fl w = (Inl er, w') \<longrightarrow> held w' = held w) \<and>
     (\<forall>p w h es w'. v_opendir v p w = (Inr (h, es), w') \<longrightarrow> Dir h \<notin> held w \<and> held w' = insert (Dir h) (held w)) \<and>
     (\<forall>p w er w'. v_opendir v p w = (Inl er, w') \<longrightarrow> held w' = held w) \<and>
     (\<forall>fd w. held (v_close v fd w) = held w - {Fd fd}) \<and>
     (\<forall>h w. held (v_closedir v h w) = held w - {Dir h}) \<and>
     (\<forall>fd n w. held (snd (v_read v fd n w)) = held w \<and> (\<forall>bs. fst (v_read v fd n w) = Inr bs \<longrightarrow> length bs \<le> n)) \<and>
     (\<forall>fd b w. held (snd (v_write v fd b w)) = held w) \<and>
     (\<forall>fd off s w. held (snd (v_lseek v fd off s w)) = held w) \<and>
     (\<forall>p w. held (snd (v_mkdir v p w)) = held w) \<and>
     (\<forall>p w. held (snd (v_rmdir v p w)) = held w) \<and>
     (\<forall>p w. held (snd (v_unlink v p w)) = held w) \<and>
     (\<forall>p q w. held (snd (v_rename v p q w)) = held w)"

lemma vfs_lawsD:
  assumes "vfs_laws v held"
  shows "held (v_close v fd w) = held w - {Fd fd}"
    and "held (v_closedir v h w) = held w - {Dir h}"
    and "held (snd (v_read v fd n w)) = held w"
    and "fst (v_read v fd n w) = Inr bs \<Longrightarrow> length bs \<le> n"
    and "held (snd (v_write v fd b w)) = held w"
    and "held (snd (v_lseek v fd off s w)) = held w"
    and "held (snd (v_mkdir v p w)) = held w"
    and "held (snd (v_rmdir v p w)) = held w"
    and "held (snd (v_unlink v p w)) = held w"
    and "held (snd (v_rename v p q w)) = held w"
  using assms by (simp_all add: vfs_laws_def)

lemma vfs_open:
  assumes "vfs_laws v held"
  shows "v_open v p fl w = (Inr fd, w') \<Longrightarrow> 0 \<le> fd \<and> Fd fd \<notin> held w \<and> held w' = insert (Fd fd) (held w)"
    and "v_open v p fl w = (Inl er, w') \<Longrightarrow> held w' = held w"
proof -
  have "\<forall>p fl w fd w'. v_open v p fl w = (Inr fd, w') \<longrightarrow> 0 \<le> fd \<and> Fd fd \<notin> held w \<and> held w' = insert (Fd fd) (held w)"
    using assms unfolding vfs_laws_def by (elim conjE) assumption
  moreover have "\<forall>p fl w er w'. v_open v p fl w = (Inl er, w') \<longrightarrow> held w' = held w"
    using assms unfolding vfs_laws_def by (elim conjE) assumption
  ultimately show "v_open v p fl w = (Inr fd, w') \<Longrightarrow> 0 \<le> fd \<and> Fd fd \<notin> held w \<and> held w' = insert (Fd fd) (held w)"
    "v_open v p fl w = (Inl er, w') \<Longrightarrow> held w' = held w" by blast+
qed

lemma vfs_opendir:
  assumes "vfs_laws v held"
  shows "v_opendir v p w = (Inr (h, es), w') \<Longrightarrow> Dir h \<notin> held w \<and> held w' = insert (Dir h) (held w)"
    and "v_opendir v p w = (Inl er, w') \<Longrightarrow> held w' = held w"
proof -
  have "\<forall>p w h es w'. v_opendir v p w = (Inr (h, es), w') \<longrightarrow> Dir h \<notin> held w \<and> held w' = insert (Dir h) (held w)"
    using assms unfolding vfs_laws_def by (elim conjE) assumption
  moreover have "\<forall>p w er w'. v_opendir v p w = (Inl er, w') \<longrightarrow> held w' = held w"
    using assms unfolding vfs_laws_def by (elim conjE) assumption
  ultimately show "v_opendir v p w = (Inr (h, es), w') \<Longrightarrow> Dir h \<notin> held w \<and> held w' = insert (Dir h) (held w)"
    "v_opendir v p w = (Inl er, w') \<Longrightarrow> held w' = held w" by blast+
qed

section \<open>What a session owns\<close>

definition dir_ids :: "dirslot list \<Rightarrow> int list" where
  "dir_ids ds = concat (map (\<lambda>d. if ds_in_use d then (case ds_dir d of Some h \<Rightarrow> [dh_id h] | None \<Rightarrow> []) else []) ds)"

definition owned :: "session \<Rightarrow> handle list" where
  "owned s = map Fd (filter (\<lambda>fd. 0 \<le> fd) (se_files s)) @ map Dir (dir_ids (se_dirs s))"

text \<open>
  The session's handles go from those of \<open>s\<close> to those of \<open>s'\<close>, and the file system's from
  \<open>H\<close> to \<open>H'\<close>, by the same change; nobody else's handle is touched.
\<close>

definition own_step :: "handle set \<Rightarrow> session \<Rightarrow> handle set \<Rightarrow> session \<Rightarrow> bool" where
  "own_step H s H' s' \<longleftrightarrow> (distinct (owned s) \<and> set (owned s) \<subseteq> H \<longrightarrow>
     distinct (owned s') \<and> H' = (H - set (owned s)) \<union> set (owned s') \<and> set (owned s') \<inter> (H - set (owned s)) = {})"

definition slot_shape :: "dirslot \<Rightarrow> bool" where
  "slot_shape d \<longleftrightarrow> (ds_in_use d \<longleftrightarrow> ds_dir d \<noteq> None) \<and> (ds_has_pending d \<longrightarrow> length (en_name (ds_pending d)) < 256)"

definition session_wf :: "session \<Rightarrow> bool" where
  "session_wf s \<longleftrightarrow> length (se_files s) = 4 \<and> length (se_dirs s) = 2 \<and> (\<forall>d \<in> set (se_dirs s). slot_shape d)"

definition same_ident :: "session \<Rightarrow> session \<Rightarrow> bool" where
  "same_ident s s' \<longleftrightarrow> se_in_use s' = se_in_use s \<and> se_sid s' = se_sid s \<and> se_peer s' = se_peer s \<and>
     se_active s' = se_active s \<and> se_root s' = se_root s \<and> se_have_reply s' = se_have_reply s \<and>
     se_seq s' = se_seq s \<and> se_cmd s' = se_cmd s \<and> se_reply s' = se_reply s"

definition res_ok :: "('w \<Rightarrow> handle set) \<Rightarrow> session \<Rightarrow> 'w \<Rightarrow> bytes \<times> session \<times> 'w card \<Rightarrow> bool" where
  "res_ok held s w r \<longleftrightarrow> (case r of (body, s', c') \<Rightarrow>
     session_wf s' \<and> same_ident s s' \<and> body \<noteq> [] \<and> length body \<le> 1028 \<and> own_step (held w) s (held (fst c')) s')"

lemma own_step_same: "H' = H \<Longrightarrow> owned s' = owned s \<Longrightarrow> own_step H s H' s'"
  by (auto simp: own_step_def)

lemma res_ok_err:
  "session_wf s \<Longrightarrow> held (fst c') = held w \<Longrightarrow> b \<noteq> [] \<Longrightarrow> length b \<le> 1028 \<Longrightarrow> res_ok held s w (b, s, c')"
  by (simp add: res_ok_def same_ident_def own_step_same)

section \<open>The contract of a handler\<close>

locale tn_handler =
  fixes held :: "'w \<Rightarrow> handle set"
    and h :: "'w tn_env \<Rightarrow> bytes \<Rightarrow> session \<Rightarrow> 'w card \<Rightarrow> bytes \<times> session \<times> 'w card"
  assumes sound: "vfs_laws (te_fs e) held \<Longrightarrow> session_wf s \<Longrightarrow> res_ok held s (fst c) (h e pl s c)"
begin

lemma reply_fits:
  "vfs_laws (te_fs e) held \<Longrightarrow> session_wf s \<Longrightarrow> h e pl s c = (body, s', c') \<Longrightarrow> body \<noteq> [] \<and> length body \<le> 1028"
  using sound[of e s c pl] by (simp add: res_ok_def)

lemma keeps_identity:
  "vfs_laws (te_fs e) held \<Longrightarrow> session_wf s \<Longrightarrow> h e pl s c = (body, s', c') \<Longrightarrow> same_ident s s' \<and> session_wf s'"
  using sound[of e s c pl] by (simp add: res_ok_def)

lemma owns:
  "vfs_laws (te_fs e) held \<Longrightarrow> session_wf s \<Longrightarrow> h e pl s c = (body, s', c') \<Longrightarrow> own_step (held (fst c)) s (held (fst c')) s'"
  using sound[of e s c pl] by (simp add: res_ok_def)

end

text \<open>The plain answers and the handlers that move no descriptor.\<close>

lemma tn_handlerI:
  "(\<And>e s w dk pl. vfs_laws (te_fs e) held \<Longrightarrow> session_wf s \<Longrightarrow> res_ok held s w (h e pl s (w, dk))) \<Longrightarrow> tn_handler held h"
  by (simp add: tn_handler_def)

interpretation ok_h: tn_handler held h_ok for held
  by (rule tn_handlerI) (simp add: h_ok_def res_ok_err)

interpretation enosys_h: tn_handler held h_enosys for held
  by (rule tn_handlerI) (simp add: h_enosys_def res_ok_err)

interpretation write_h: tn_handler held h_write for held
proof (rule tn_handlerI)
  fix e :: "'a tn_env" and s w dk pl
  assume a: "vfs_laws (te_fs e) held" "session_wf s"
  show "res_ok held s w (h_write e pl s (w, dk))"
    unfolding h_write_def Let_def using a vfs_lawsD(5)[OF a(1)]
    by (auto intro!: res_ok_err split: sum.split)
qed

interpretation lseek_h: tn_handler held h_lseek for held
proof (rule tn_handlerI)
  fix e :: "'a tn_env" and s w dk pl
  assume a: "vfs_laws (te_fs e) held" "session_wf s"
  show "res_ok held s w (h_lseek e pl s (w, dk))"
    unfolding h_lseek_def Let_def using a vfs_lawsD(6)[OF a(1)]
    by (auto intro!: res_ok_err split: sum.split option.split)
qed

interpretation stat_h: tn_handler held h_stat for held
proof (rule tn_handlerI)
  fix e :: "'a tn_env" and s w dk pl
  assume a: "vfs_laws (te_fs e) held" "session_wf s"
  show "res_ok held s w (h_stat e pl s (w, dk))"
    unfolding h_stat_def using a
    by (auto intro!: res_ok_err split: sum.split option.split)
qed

interpretation read_h: tn_handler held h_read for held
proof (rule tn_handlerI)
  fix e :: "'a tn_env" and s w dk pl
  assume a: "vfs_laws (te_fs e) held" "session_wf s"
  have mn: "(if 1024 < n then 1024 else n) = min n 1024" for n :: nat by simp
  let ?want = "min (unat (tnfs_rd16 (drop 1 pl))) 1024"
  let ?r = "v_read (te_fs e) (se_files s ! unat (pl ! 0)) ?want w"
  have e: "h_read e pl s (w, dk) =
     (if length pl < 3 then ([TNFS_EINVAL], s, w, dk) else if fd_bad s (pl ! 0) then ([TNFS_EBADF], s, w, dk)
      else case fst ?r of Inl er \<Rightarrow> ([errno_to_tnfs er], s, snd ?r, dk)
        | Inr bs \<Rightarrow> if bs = [] \<and> ?want > 0 then ([TNFS_EOF], s, snd ?r, dk)
            else (TNFS_OK # tnfs_wr16 (of_nat (length bs)) @ bs, s, snd ?r, dk))"
    unfolding h_read_def Let_def mn fst_conv snd_conv by (rule refl)
  show "res_ok held s w (h_read e pl s (w, dk))"
    unfolding e using a vfs_lawsD(3,4)[OF a(1)]
    by (auto intro!: res_ok_err split: sum.split dest!: vfs_lawsD(4)[OF a(1)])
qed

text \<open>Gaining and giving back one descriptor.\<close>

lemma find_slot_Some:
  "find_slot P xs = Some i \<Longrightarrow> i < length xs \<and> P (xs ! i) \<and> (\<forall>j<i. \<not> P (xs ! j))"
proof (induction xs arbitrary: i)
  case (Cons x xs)
  then show ?case by (auto split: if_splits simp: less_Suc_eq_0_disj)
qed simp

lemma find_slot_None: "find_slot P xs = None \<longleftrightarrow> (\<forall>x \<in> set xs. \<not> P x)"
  by (induction xs) auto

lemma list_split_at: "i < length xs \<Longrightarrow> xs = take i xs @ xs ! i # drop (Suc i) xs"
  by (rule id_take_nth_drop)

lemma own_step_gain:
  assumes "owned s = a @ b" "owned s' = a @ k # b" "k \<notin> H" "H' = insert k H"
  shows "own_step H s H' s'"
  using assms by (auto simp: own_step_def)

lemma own_step_give:
  assumes "owned s = a @ k # b" "owned s' = a @ b" "H' = H - {k}"
  shows "own_step H s H' s'"
  using assms by (auto simp: own_step_def)

lemma owned_files_split:
  assumes "i < length (se_files s)"
  obtains a b where "\<And>fd. owned (s\<lparr>se_files := (se_files s)[i := fd]\<rparr>) = a @ (if 0 \<le> fd then [Fd fd] else []) @ b"
    and "owned s = a @ (if 0 \<le> se_files s ! i then [Fd (se_files s ! i)] else []) @ b"
proof
  let ?a = "map Fd (filter (\<lambda>fd. 0 \<le> fd) (take i (se_files s)))"
  let ?b = "map Fd (filter (\<lambda>fd. 0 \<le> fd) (drop (Suc i) (se_files s))) @ map Dir (dir_ids (se_dirs s))"
  show 1: "owned (s\<lparr>se_files := (se_files s)[i := fd]\<rparr>) = ?a @ (if 0 \<le> fd then [Fd fd] else []) @ ?b" for fd
    using assms by (simp add: owned_def upd_conv_take_nth_drop)
  show "owned s = ?a @ (if 0 \<le> se_files s ! i then [Fd (se_files s ! i)] else []) @ ?b"
    using 1[of "se_files s ! i"] by simp
qed

lemma own_open:
  assumes "i < length (se_files s)" "se_files s ! i < 0" "0 \<le> fd" "Fd fd \<notin> H" "H' = insert (Fd fd) H"
  shows "own_step H s H' (s\<lparr>se_files := (se_files s)[i := fd]\<rparr>)"
proof -
  obtain a b where ab: "\<And>fd. owned (s\<lparr>se_files := (se_files s)[i := fd]\<rparr>) = a @ (if 0 \<le> fd then [Fd fd] else []) @ b"
    "owned s = a @ (if 0 \<le> se_files s ! i then [Fd (se_files s ! i)] else []) @ b"
    by (rule owned_files_split[OF assms(1)]) (rule that)
  show ?thesis by (rule own_step_gain[of _ a b]) (use ab assms in auto)
qed

lemma own_close:
  assumes "i < length (se_files s)" "0 \<le> se_files s ! i" "H' = H - {Fd (se_files s ! i)}"
  shows "own_step H s H' (s\<lparr>se_files := (se_files s)[i := -1]\<rparr>)"
proof -
  obtain a b where ab: "\<And>fd. owned (s\<lparr>se_files := (se_files s)[i := fd]\<rparr>) = a @ (if 0 \<le> fd then [Fd fd] else []) @ b"
    "owned s = a @ (if 0 \<le> se_files s ! i then [Fd (se_files s ! i)] else []) @ b"
    by (rule owned_files_split[OF assms(1)]) (rule that)
  show ?thesis by (rule own_step_give[of _ a "Fd (se_files s ! i)" b]) (use ab assms in auto)
qed

definition slot_ids :: "dirslot \<Rightarrow> handle list" where
  "slot_ids d = (if ds_in_use d then (case ds_dir d of Some h \<Rightarrow> [Dir (dh_id h)] | None \<Rightarrow> []) else [])"

lemma map_dir_ids: "map Dir (dir_ids ds) = concat (map slot_ids ds)"
  by (induction ds) (auto simp: dir_ids_def slot_ids_def split: option.split)

lemma owned_dirs_split:
  assumes "i < length (se_dirs s)"
  obtains a b where "\<And>d. owned (s\<lparr>se_dirs := (se_dirs s)[i := d]\<rparr>) = a @ slot_ids d @ b"
    and "owned s = a @ slot_ids (se_dirs s ! i) @ b"
proof
  let ?a = "map Fd (filter (\<lambda>fd. 0 \<le> fd) (se_files s)) @ concat (map slot_ids (take i (se_dirs s)))"
  let ?b = "concat (map slot_ids (drop (Suc i) (se_dirs s)))"
  show 1: "owned (s\<lparr>se_dirs := (se_dirs s)[i := d]\<rparr>) = ?a @ slot_ids d @ ?b" for d
    using assms by (simp add: owned_def map_dir_ids upd_conv_take_nth_drop)
  show "owned s = ?a @ slot_ids (se_dirs s ! i) @ ?b"
    using 1[of "se_dirs s ! i"] by simp
qed

lemma own_opendir:
  assumes "i < length (se_dirs s)" "slot_ids (se_dirs s ! i) = []" "slot_ids d = [Dir h]" "Dir h \<notin> H" "H' = insert (Dir h) H"
  shows "own_step H s H' (s\<lparr>se_dirs := (se_dirs s)[i := d]\<rparr>)"
proof -
  obtain a b where ab: "\<And>d. owned (s\<lparr>se_dirs := (se_dirs s)[i := d]\<rparr>) = a @ slot_ids d @ b"
    "owned s = a @ slot_ids (se_dirs s ! i) @ b" by (rule owned_dirs_split[OF assms(1)]) (rule that)
  show ?thesis by (rule own_step_gain[of _ a b]) (use ab assms in auto)
qed

lemma own_closedir:
  assumes "i < length (se_dirs s)" "slot_ids (se_dirs s ! i) = [k]" "slot_ids d = []" "H' = H - {k}"
  shows "own_step H s H' (s\<lparr>se_dirs := (se_dirs s)[i := d]\<rparr>)"
proof -
  obtain a b where ab: "\<And>d. owned (s\<lparr>se_dirs := (se_dirs s)[i := d]\<rparr>) = a @ slot_ids d @ b"
    "owned s = a @ slot_ids (se_dirs s ! i) @ b" by (rule owned_dirs_split[OF assms(1)]) (rule that)
  show ?thesis by (rule own_step_give[of _ a k b]) (use ab assms in auto)
qed

lemma own_dir_move:
  assumes "i < length (se_dirs s)" "slot_ids d = slot_ids (se_dirs s ! i)"
  shows "own_step H s H (s\<lparr>se_dirs := (se_dirs s)[i := d]\<rparr>)"
proof -
  obtain a b where ab: "\<And>d. owned (s\<lparr>se_dirs := (se_dirs s)[i := d]\<rparr>) = a @ slot_ids d @ b"
    "owned s = a @ slot_ids (se_dirs s ! i) @ b" by (rule owned_dirs_split[OF assms(1)]) (rule that)
  show ?thesis by (rule own_step_same) (use ab assms in simp_all)
qed

lemma wf_file: "session_wf s \<Longrightarrow> session_wf (s\<lparr>se_files := (se_files s)[i := fd]\<rparr>)"
  by (simp add: session_wf_def)

lemma wf_dir: "session_wf s \<Longrightarrow> slot_shape d \<Longrightarrow> session_wf (s\<lparr>se_dirs := (se_dirs s)[i := d]\<rparr>)"
  by (auto simp: session_wf_def dest: set_update_subset_insert[THEN subsetD])

lemma wf_slot: "session_wf s \<Longrightarrow> i < 2 \<Longrightarrow> slot_shape (se_dirs s ! i)"
  by (simp add: session_wf_def)

lemma ident_file [simp]: "same_ident s (s\<lparr>se_files := x\<rparr>)" and ident_dir [simp]: "same_ident s (s\<lparr>se_dirs := y\<rparr>)"
  by (simp_all add: same_ident_def)

lemma not_fd_bad: "session_wf s \<Longrightarrow> \<not> fd_bad s fd \<Longrightarrow> unat fd < length (se_files s) \<and> 0 \<le> se_files s ! unat fd"
  by (simp add: fd_bad_def session_wf_def not_le not_less)

lemma not_dir_bad: "session_wf s \<Longrightarrow> \<not> dir_bad s h \<Longrightarrow> unat h < length (se_dirs s) \<and> ds_in_use (se_dirs s ! unat h) \<and>
    slot_shape (se_dirs s ! unat h)"
  by (auto simp: dir_bad_def session_wf_def not_le)

section \<open>Every handler keeps the contract\<close>

interpretation close_h: tn_handler held h_close for held
proof (rule tn_handlerI)
  fix e :: "'a tn_env" and s w dk pl
  assume a: "vfs_laws (te_fs e) held" "session_wf s"
  show "res_ok held s w (h_close e pl s (w, dk))"
  proof (cases "length pl < 1 \<or> fd_bad s (pl ! 0)")
    case False
    then have f: "unat (pl ! 0) < length (se_files s) \<and> 0 \<le> se_files s ! unat (pl ! 0)" using not_fd_bad a(2) by blast
    show ?thesis using False f a(2) vfs_lawsD(1)[OF a(1)]
      by (simp add: h_close_def Let_def res_ok_def wf_file own_close)
  qed (use a in \<open>auto simp: h_close_def Let_def intro!: res_ok_err\<close>)
qed

interpretation open_h: tn_handler held h_open for held
proof (rule tn_handlerI)
  fix e :: "'a tn_env" and s w dk pl
  assume a: "vfs_laws (te_fs e) held" "session_wf s"
  show "res_ok held s w (h_open e pl s (w, dk))"
  proof (cases "\<exists>path p slot. 5 \<le> length pl \<and> c_str (drop 4 pl) = Some path \<and> resolve_path s path 320 = Inr p \<and>
      find_slot (\<lambda>fd. fd < 0) (se_files s) = Some slot")
    case False
    then show ?thesis using a(2)
      by (auto simp: h_open_def not_less intro!: res_ok_err split: option.split sum.split)
  next
    case True
    then obtain path p slot where g: "5 \<le> length pl" "c_str (drop 4 pl) = Some path" "resolve_path s path 320 = Inr p"
      "find_slot (\<lambda>fd. fd < 0) (se_files s) = Some slot" by blast
    note fs = find_slot_Some[OF g(4)]
    let ?fl = "open_flags (tnfs_rd16 pl)"
    obtain r w' where r: "v_open (te_fs e) p ?fl w = (r, w')" by fastforce
    have ok: "res_ok held s w ([0, of_nat slot], s\<lparr>se_files := (se_files s)[slot := fd]\<rparr>, w', dk')" if "r = Inr fd" for fd dk'
      using vfs_open(1)[OF a(1) r[unfolded that]] fs a(2) by (simp add: res_ok_def wf_file own_open)
    have er: "res_ok held s w ([errno_to_tnfs x], s, w', dk')" if "r = Inl x" for x dk'
      using vfs_open(2)[OF a(1) r[unfolded that]] a(2) by (simp add: res_ok_err)
    show ?thesis using g r ok er a(2)
      by (cases r) (auto simp: h_open_def Let_def intro!: res_ok_err)
  qed
qed

lemma pathop_contract:
  assumes op: "\<And>(e :: 'w tn_env) p c. vfs_laws (te_fs e) held \<Longrightarrow> held (fst (snd (opr e p c))) = held (fst c)"
  shows "tn_handler held (h_pathop opr)"
proof (rule tn_handlerI)
  fix e :: "'w tn_env" and s w dk pl
  assume a: "vfs_laws (te_fs e) held" "session_wf s"
  have r: "res_ok held s w (case opr e p (w, dk) of (None, c) \<Rightarrow> ([0], s, c) | (Some er, c) \<Rightarrow> ([errno_to_tnfs er], s, c))" for p
  proof -
    obtain x c where c: "opr e p (w, dk) = (x, c)" by (metis surj_pair)
    then have "held (fst c) = held w" using op[OF a(1), of p "(w, dk)"] by simp
    then show ?thesis using a(2) c by (cases x) (simp_all add: res_ok_err)
  qed
  show "res_ok held s w (h_pathop opr e pl s (w, dk))"
    unfolding h_pathop_def using a(2) r by (simp add: res_ok_err split: option.split sum.split)
qed

interpretation mkdir_h: tn_handler held "h_pathop mkdir_op" for held
  by (rule pathop_contract) (simp add: mkdir_op_def vfs_lawsD)

interpretation rmdir_h: tn_handler held "h_pathop rmdir_op" for held
  by (rule pathop_contract) (simp add: rmdir_op_def vfs_lawsD)

interpretation unlink_h: tn_handler held "h_pathop unlink_op" for held
  by (rule pathop_contract) (simp add: unlink_op_def Let_def vfs_lawsD)

interpretation rename_h: tn_handler held h_rename for held
proof (rule tn_handlerI)
  fix e :: "'a tn_env" and s w dk pl
  assume a: "vfs_laws (te_fs e) held" "session_wf s"
  show "res_ok held s w (h_rename e pl s (w, dk))"
    unfolding h_rename_def Let_def using a(2) vfs_lawsD(10)[OF a(1)]
    by (auto intro!: res_ok_err split: option.split sum.split)
qed

lemma open_dir_slot_ok:
  assumes "vfs_laws (te_fs e) held" "session_wf s" "open_dir_slot e p pat s (w, dk) = (r, s', c')"
  shows "session_wf s' \<and> same_ident s s' \<and> own_step (held w) s (held (fst c')) s'"
proof (cases "find_slot (\<lambda>d. \<not> ds_in_use d) (se_dirs s)")
  case None
  then have "s' = s" "fst c' = w" using assms(3) by (auto simp: open_dir_slot_def)
  then show ?thesis using assms(2) by (simp add: same_ident_def own_step_same)
next
  case (Some slot)
  note fs = find_slot_Some[OF Some]
  obtain q w' where q: "v_opendir (te_fs e) p w = (q, w')" by fastforce
  show ?thesis
  proof (cases q)
    case (Inl er)
    then show ?thesis using vfs_opendir(2)[OF assms(1) q[unfolded Inl]] assms(2,3) q Some
      by (auto simp: open_dir_slot_def Let_def same_ident_def own_step_same)
  next
    case (Inr he)
    then obtain h ents where he: "q = Inr (h, ents)" by (cases he) simp
    note l = vfs_opendir(1)[OF assms(1) q[unfolded he]]
    let ?d = "dirslot0\<lparr>ds_in_use := True, ds_dir := Some \<lparr>dh_id = h, dh_all = ents, dh_left = ents\<rparr>,
      ds_abspath := strlcpy p 320, ds_pattern := pat\<rparr>"
    have s': "s' = s\<lparr>se_dirs := (se_dirs s)[slot := ?d]\<rparr>" "fst c' = w'"
      using assms(3) q Some he by (auto simp: open_dir_slot_def Let_def)
    have sh: "slot_shape ?d" by (simp add: slot_shape_def dirslot0_def)
    have "own_step (held w) s (held w') (s\<lparr>se_dirs := (se_dirs s)[slot := ?d]\<rparr>)"
      by (rule own_opendir[of _ _ _ h]) (use fs l in \<open>auto simp: slot_ids_def\<close>)
    then show ?thesis unfolding s' using assms(2) sh by (simp add: wf_dir)
  qed
qed

interpretation opendir_h: tn_handler held h_opendir for held
proof (rule tn_handlerI)
  fix e :: "'a tn_env" and s w dk pl
  assume a: "vfs_laws (te_fs e) held" "session_wf s"
  have r: "res_ok held s w (case open_dir_slot e p [] s (w, dk) of (Inl st, s, c) \<Rightarrow> ([st], s, c)
      | (Inr (slot, ds), s, c) \<Rightarrow> ([0, of_nat slot], s, c))" for p
    by (auto simp: res_ok_def dest!: open_dir_slot_ok[OF a] split: prod.split sum.split)
  show "res_ok held s w (h_opendir e pl s (w, dk))"
    unfolding h_opendir_def using a(2) r by (auto intro!: res_ok_err split: option.split sum.split)
qed

interpretation opendirx_h: tn_handler held h_opendirx for held
proof (rule tn_handlerI)
  fix e :: "'a tn_env" and s w dk pl
  assume a: "vfs_laws (te_fs e) held" "session_wf s"
  have r: "res_ok held s w (case open_dir_slot e p pat s (w, dk) of (Inl st, s, c) \<Rightarrow> ([st], s, c)
      | (Inr (slot, ds), s, c) \<Rightarrow> ([0, of_nat slot] @ tnfs_wr16 (dir_count ds), s, c))" for p pat
    by (auto simp: res_ok_def dest!: open_dir_slot_ok[OF a] split: prod.split sum.split)
  show "res_ok held s w (h_opendirx e pl s (w, dk))"
    unfolding h_opendirx_def using a(2) r by (auto intro!: res_ok_err split: option.split sum.split)
qed

interpretation closedir_h: tn_handler held h_closedir for held
proof (rule tn_handlerI)
  fix e :: "'a tn_env" and s w dk pl
  assume a: "vfs_laws (te_fs e) held" "session_wf s"
  show "res_ok held s w (h_closedir e pl s (w, dk))"
  proof (cases "length pl < 1 \<or> dir_bad s (pl ! 0)")
    case False
    then have f: "unat (pl ! 0) < length (se_dirs s) \<and> ds_in_use (se_dirs s ! unat (pl ! 0)) \<and>
      slot_shape (se_dirs s ! unat (pl ! 0))" using not_dir_bad a(2) by blast
    then obtain d where d: "ds_dir (se_dirs s ! unat (pl ! 0)) = Some d" by (auto simp: slot_shape_def)
    have "own_step (held w) s (held (v_closedir (te_fs e) (dh_id d) w)) (s\<lparr>se_dirs := (se_dirs s)[unat (pl ! 0) := dirslot0]\<rparr>)"
      by (rule own_closedir[of _ _ "Dir (dh_id d)"])
        (use f d vfs_lawsD(2)[OF a(1)] in \<open>auto simp: slot_ids_def dirslot0_def\<close>)
    moreover have "slot_shape dirslot0" by (simp add: slot_shape_def dirslot0_def)
    ultimately show ?thesis using False d a(2) by (simp add: h_closedir_def Let_def res_ok_def wf_dir)
  qed (use a in \<open>auto simp: h_closedir_def Let_def intro!: res_ok_err\<close>)
qed

text \<open>Reading a directory moves through its entries and keeps its handle.\<close>

definition same_dir :: "dirslot \<Rightarrow> dirslot \<Rightarrow> bool" where
  "same_dir d d' \<longleftrightarrow> slot_ids d' = slot_ids d \<and> (slot_shape d \<longrightarrow> slot_shape d')"

lemma same_dir_refl [simp]: "same_dir d d"
  by (simp add: same_dir_def)

lemma same_dir_trans: "same_dir a b \<Longrightarrow> same_dir b c \<Longrightarrow> same_dir a c"
  by (simp add: same_dir_def)

lemma same_dir_pos [simp]: "same_dir a (b\<lparr>ds_pos := p\<rparr>) = same_dir a b"
  by (simp add: same_dir_def slot_ids_def slot_shape_def)

lemma dir_stash_same: "same_dir d (dir_stash en d)"
  by (simp add: same_dir_def slot_ids_def slot_shape_def dir_stash_def min_less_iff_disj)

lemma dir_next_same:
  assumes "dir_next v w d = Some (en, d')"
  shows "same_dir d d' \<and> length (en_name en) < 256"
  using assms
  by (auto simp: dir_next_def dir_meta_def same_dir_def slot_ids_def slot_shape_def Let_def
      split: if_splits option.splits list.splits sum.splits)

lemma length_enc_entry [simp]: "length (enc_entry en) = 14 + length (en_name en)"
  by (simp add: enc_entry_def)

lemma readdirx_loop_same:
  "readdirx_loop v w n d es k = (d', es', k', eof) \<Longrightarrow> 5 + length es \<le> 1028 \<Longrightarrow> same_dir d d' \<and> 5 + length es' \<le> 1028"
proof (induction v w n d es k arbitrary: d' es' k' eof rule: readdirx_loop.induct)
  case (2 v w n d es k)
  show ?case
  proof (cases "dir_next v w d")
    case None
    then show ?thesis using 2 by simp
  next
    case (Some r)
    obtain en d1 where r: "r = (en, d1)" by (cases r)
    note ds = dir_next_same[OF Some[unfolded r]]
    show ?thesis
    proof (cases "5 + length es + (13 + length (en_name en) + 1) > 1028")
      case True
      then show ?thesis using 2(2,3) Some r ds dir_stash_same same_dir_trans by auto
    next
      case False
      then show ?thesis using 2 Some r ds by (auto intro: same_dir_trans)
    qed
  qed
qed simp

lemma same_dir_ok:
  assumes "session_wf s" "\<not> dir_bad s h" "same_dir (se_dirs s ! unat h) d" "b \<noteq> []" "length b \<le> 1028" "held w' = held w"
  shows "res_ok held s w (b, s\<lparr>se_dirs := (se_dirs s)[unat h := d]\<rparr>, w', dk)"
  using assms not_dir_bad[OF assms(1,2)] own_dir_move[of "unat h" s d "held w"]
  by (simp add: res_ok_def same_dir_def wf_dir)

interpretation readdir_h: tn_handler held h_readdir for held
proof (rule tn_handlerI)
  fix e :: "'a tn_env" and s w dk pl
  assume a: "vfs_laws (te_fs e) held" "session_wf s"
  show "res_ok held s w (h_readdir e pl s (w, dk))"
  proof (cases "\<exists>en d. pl \<noteq> [] \<and> \<not> dir_bad s (pl ! 0) \<and> dir_next (te_fs e) w (se_dirs s ! unat (pl ! 0)) = Some (en, d)")
    case True
    then obtain en d where g: "pl \<noteq> []" "\<not> dir_bad s (pl ! 0)"
      "dir_next (te_fs e) w (se_dirs s ! unat (pl ! 0)) = Some (en, d)" by blast
    show ?thesis using g dir_next_same[OF g(3)] a(2)
      by (auto simp: h_readdir_def Let_def not_less intro!: same_dir_ok)
  qed (use a(2) in \<open>auto simp: h_readdir_def Let_def not_less intro!: res_ok_err split: option.split\<close>)
qed

interpretation readdirx_h: tn_handler held h_readdirx for held
proof (rule tn_handlerI)
  fix e :: "'a tn_env" and s w dk pl
  assume a: "vfs_laws (te_fs e) held" "session_wf s"
  show "res_ok held s w (h_readdirx e pl s (w, dk))"
  proof (cases "length pl < 2 \<or> dir_bad s (pl ! 0)")
    case False
    define n where "n = (if pl ! 1 = 0 then 1 else pl ! 1)"
    obtain d es k eof where l: "readdirx_loop (te_fs e) w (unat n) (se_dirs s ! unat (pl ! 0)) [] 0 = (d, es, k, eof)"
      by (metis prod_cases4)
    have m: "same_dir (se_dirs s ! unat (pl ! 0)) d" "5 + length es \<le> 1028" using readdirx_loop_same[OF l] by simp_all
    have e: "h_readdirx e pl s (w, dk) =
      (if k = 0 then ([0x21], s\<lparr>se_dirs := (se_dirs s)[unat (pl ! 0) := d]\<rparr>, w, dk)
       else ([0, k, if eof then 0x01 else 0] @ tnfs_wr16 (ds_pos d) @ es,
         s\<lparr>se_dirs := (se_dirs s)[unat (pl ! 0) := d\<lparr>ds_pos := ds_pos d + ucast k\<rparr>]\<rparr>, w, dk))"
      unfolding h_readdirx_def Let_def n_def[symmetric] using False by (simp add: l)
    show ?thesis unfolding e using False m a(2) by (auto intro!: same_dir_ok)
  qed (use a(2) in \<open>auto simp: h_readdirx_def Let_def intro!: res_ok_err\<close>)
qed

lemma handler_contract: "tn_handler held (handler cmd)"
  unfolding handler_def
  by (simp add: ok_h.tn_handler_axioms enosys_h.tn_handler_axioms open_h.tn_handler_axioms read_h.tn_handler_axioms
      write_h.tn_handler_axioms close_h.tn_handler_axioms lseek_h.tn_handler_axioms stat_h.tn_handler_axioms
      mkdir_h.tn_handler_axioms rmdir_h.tn_handler_axioms unlink_h.tn_handler_axioms rename_h.tn_handler_axioms
      opendir_h.tn_handler_axioms opendirx_h.tn_handler_axioms readdir_h.tn_handler_axioms
      readdirx_h.tn_handler_axioms closedir_h.tn_handler_axioms)

interpretation any_h: tn_handler held "handler cmd" for held cmd
  by (rule handler_contract)

end
