(* ===== verification/TnfsServerRun.thy ===== *)
theory TnfsServerRun
  imports TnfsServerProps
begin

text \<open>
  The TNFS server as it runs: the invariant of its two sessions over any sequence of
  datagrams, the identity of sessions, replay of a repeated request, and the isolation of
  clients from each other.
\<close>

section \<open>The sessions own what the file system holds\<close>

text \<open>
  \<open>B\<close> are the descriptors of everybody else. The sessions own disjoint descriptors, and with
  \<open>B\<close> these are all the file system holds; a free session owns none.
\<close>

definition srv_own :: "handle set \<Rightarrow> session list \<Rightarrow> handle set \<Rightarrow> bool" where
  "srv_own B ss H \<longleftrightarrow> length ss = 2 \<and> (\<forall>s \<in> set ss. session_wf s \<and> (\<not> se_in_use s \<longrightarrow> owned s = [])) \<and>
     distinct (concat (map owned ss)) \<and> H = B \<union> set (concat (map owned ss)) \<and> B \<inter> set (concat (map owned ss)) = {}"

definition sids_ok :: "session list \<Rightarrow> bool" where
  "sids_ok ss \<longleftrightarrow> (\<forall>s \<in> set ss. se_in_use s \<longrightarrow> se_sid s \<noteq> 0) \<and> distinct (map se_sid (filter se_in_use ss))"

definition srv_inv :: "('w \<Rightarrow> handle set) \<Rightarrow> handle set \<Rightarrow> 'w tnfsd \<Rightarrow> bool" where
  "srv_inv held B st \<longleftrightarrow> srv_own B (td_sessions st) (held (td_fs st)) \<and> sids_ok (td_sessions st)"

lemma srv_own_update:
  assumes o: "srv_own B ss H" and i: "i < 2" and st: "own_step H (ss ! i) H' s'"
    and wf: "session_wf s'" "\<not> se_in_use s' \<Longrightarrow> owned s' = []"
  shows "srv_own B (ss[i := s']) H'"
proof -
  let ?X = "concat (map owned (take i ss))" and ?Y = "concat (map owned (drop (Suc i) ss))"
  have l: "length ss = 2" using o by (simp add: srv_own_def)
  have il: "i < length ss" using i l by simp
  have ss: "concat (map owned ss) = ?X @ owned (ss ! i) @ ?Y"
    by (subst id_take_nth_drop[OF il]) simp
  have ss': "concat (map owned (ss[i := s'])) = ?X @ owned s' @ ?Y"
    using il by (simp add: upd_conv_take_nth_drop)
  have d: "distinct (?X @ owned (ss ! i) @ ?Y)" "H = B \<union> set (?X @ owned (ss ! i) @ ?Y)"
    "B \<inter> set (?X @ owned (ss ! i) @ ?Y) = {}" using o unfolding srv_own_def ss by simp_all
  have "distinct (owned (ss ! i)) \<and> set (owned (ss ! i)) \<subseteq> H" using d by auto
  then have n: "distinct (owned s')" "H' = (H - set (owned (ss ! i))) \<union> set (owned s')"
    "set (owned s') \<inter> (H - set (owned (ss ! i))) = {}" using st by (simp_all add: own_step_def)
  have r: "H - set (owned (ss ! i)) = B \<union> set ?X \<union> set ?Y" using d by auto
  have "distinct (?X @ owned s' @ ?Y)" using n d r by auto
  moreover have "H' = B \<union> set (?X @ owned s' @ ?Y)" using n r by auto
  moreover have "B \<inter> set (?X @ owned s' @ ?Y) = {}" using n d r by auto
  moreover have "\<forall>s \<in> set (ss[i := s']). session_wf s \<and> (\<not> se_in_use s \<longrightarrow> owned s = [])"
    using o wf set_update_subset_insert[of ss i s'] unfolding srv_own_def by blast
  ultimately show ?thesis using l unfolding srv_own_def ss' by simp
qed

text \<open>An update of a session that keeps its handles.\<close>

lemma own_step_keep: "owned s' = owned s \<Longrightarrow> own_step H s H s'"
  by (rule own_step_same) simp_all

section \<open>Freeing a session\<close>

lemma held_close_files:
  "vfs_laws v held \<Longrightarrow> held (close_files v fds w) = held w - Fd ` {fd \<in> set fds. 0 \<le> fd}"
  unfolding close_files_def
proof (induction fds arbitrary: w)
  case (Cons fd fds)
  then show ?case using vfs_lawsD(1)[OF Cons(2), of fd w] by auto
qed simp

lemma held_close_dirs:
  "vfs_laws v held \<Longrightarrow> held (close_dirs v ds w) = held w - Dir ` set (dir_ids ds)"
  unfolding close_dirs_def
proof (induction ds arbitrary: w)
  case Nil
  show ?case by (simp add: dir_ids_def)
next
  case (Cons d ds)
  let ?w = "if ds_in_use d then (case ds_dir d of Some h \<Rightarrow> v_closedir v (dh_id h) w | None \<Rightarrow> w) else w"
  have step: "held ?w = held w - Dir ` set (dir_ids [d])"
    by (cases "ds_in_use d"; cases "ds_dir d") (simp_all add: dir_ids_def vfs_lawsD(2)[OF Cons.prems])
  have "dir_ids (d # ds) = dir_ids [d] @ dir_ids ds" by (simp add: dir_ids_def)
  then show ?case using Cons.IH[OF Cons.prems, of ?w] step by (simp add: image_Un Diff_eq Int_assoc)
qed

lemma owned_session0 [simp]: "owned session0 = []"
  by (simp add: owned_def session0_def session_zero_def dir_ids_def dirslot0_def numeral_eq_Suc)

lemma session0_wf [simp]: "session_wf session0"
  by (simp add: session_wf_def session0_def session_zero_def slot_shape_def dirslot0_def)

lemma session0_free [simp]: "\<not> se_in_use session0"
  by (simp add: session0_def session_zero_def)

lemma held_free_session:
  assumes "vfs_laws (te_fs e) held"
  shows "held (td_fs (free_session e i st)) = held (td_fs st) - set (owned (td_sessions st ! i))"
  by (auto simp: free_session_def Let_def owned_def held_close_files[OF assms] held_close_dirs[OF assms])

lemma sessions_free [simp]: "td_sessions (free_session e i st) = (td_sessions st)[i := session0]"
  and out_free [simp]: "td_out (free_session e i st) = td_out st"
  and disk_free [simp]: "td_disk (free_session e i st) = td_disk st"
  and next_free [simp]: "td_next_sid (free_session e i st) = td_next_sid st"
  by (simp_all add: free_session_def Let_def)

lemma own_step_free:
  assumes "vfs_laws (te_fs e) held"
  shows "own_step (held (td_fs st)) (td_sessions st ! i) (held (td_fs (free_session e i st))) session0"
  by (simp add: own_step_def held_free_session[OF assms])

lemma sids_ok_free:
  assumes "sids_ok ss" "i < length ss"
  shows "sids_ok (ss[i := session0])"
proof -
  have "ss = take i ss @ ss ! i # drop (Suc i) ss" by (rule id_take_nth_drop[OF assms(2)])
  then have "distinct (map se_sid (filter se_in_use (take i ss @ ss ! i # drop (Suc i) ss)))"
    using assms(1) by (simp add: sids_ok_def)
  then have "distinct (map se_sid (filter se_in_use (ss[i := session0])))"
    using assms(2) by (auto simp: upd_conv_take_nth_drop split: if_splits)
  moreover have "\<forall>s \<in> set (ss[i := session0]). se_in_use s \<longrightarrow> se_sid s \<noteq> 0"
    using assms set_update_subset_insert[of ss i session0] session0_free unfolding sids_ok_def by blast
  ultimately show ?thesis by (simp add: sids_ok_def)
qed

lemma srv_inv_free:
  assumes "vfs_laws (te_fs e) held" "srv_inv held B st" "i < 2"
  shows "srv_inv held B (free_session e i st)"
proof -
  have o: "srv_own B (td_sessions st) (held (td_fs st))" "sids_ok (td_sessions st)" using assms(2) by (simp_all add: srv_inv_def)
  have "srv_own B ((td_sessions st)[i := session0]) (held (td_fs (free_session e i st)))"
    by (rule srv_own_update[OF o(1) assms(3) own_step_free[OF assms(1)]]) simp_all
  moreover have "sids_ok ((td_sessions st)[i := session0])"
    by (rule sids_ok_free[OF o(2)]) (use o(1) assms(3) in \<open>simp add: srv_own_def\<close>)
  ultimately show ?thesis by (simp add: srv_inv_def)
qed

lemma upto2: "[0..<2] = [0, 1]"
  by (simp add: upt_rec)

lemma srv_inv_reap:
  assumes "vfs_laws (te_fs e) held" "srv_inv held B st"
  shows "srv_inv held B (reap_idle e t st)"
  unfolding reap_idle_def upto2 Let_def using assms by (simp add: srv_inv_free)

lemma srv_inv_drop_all:
  assumes "vfs_laws (te_fs e) held" "srv_inv held B st"
  shows "srv_inv held B (drop_all_sessions e st)"
  unfolding drop_all_sessions_def upto2 using assms by (simp add: srv_inv_free)

section \<open>Session ids\<close>

lemma sid_loop_sound: "sid_loop f taken n = Some (c, m) \<Longrightarrow> c \<noteq> 0 \<and> c \<notin> set taken"
  by (induction f taken n rule: sid_loop.induct) (auto simp: Let_def split: if_splits)

lemma sid_loop_None: "sid_loop f taken n = None \<Longrightarrow> k < f \<Longrightarrow> n + of_nat k \<in> insert 0 (set taken)"
proof (induction f taken n arbitrary: k rule: sid_loop.induct)
  case (2 f taken n)
  then show ?case
    by (cases k) (auto simp: Let_def algebra_simps split: if_splits)
qed simp

text \<open>Four candidates are enough for two sessions.\<close>

lemma sid_loop_total:
  assumes "length taken \<le> 2"
  shows "sid_loop 4 taken n \<noteq> None"
proof
  assume "sid_loop 4 taken n = None"
  then have m: "n + of_nat k \<in> insert 0 (set taken)" if "k < 4" for k using sid_loop_None that by blast
  have "{n, n + 1, n + 2, n + 3} \<subseteq> insert 0 (set taken)"
    using m[of 0] m[of 1] m[of 2] m[of 3] by simp
  then have "card {n, n + 1, n + 2, n + 3} \<le> card (insert 0 (set taken))" by (intro card_mono) auto
  also have "\<dots> \<le> 3" using card_insert_le_m1[of 3 "set taken" 0] card_length[of taken] assms by simp
  finally show False by simp
qed

lemma next_sid_total:
  assumes "length (td_sessions st) = 2"
  shows "\<exists>sid nxt. next_sid st = Some (sid, st\<lparr>td_next_sid := nxt\<rparr>) \<and> sid \<noteq> 0 \<and>
    (\<forall>s \<in> set (td_sessions st). se_in_use s \<longrightarrow> se_sid s \<noteq> sid)"
proof -
  let ?t = "map se_sid (filter se_in_use (td_sessions st))"
  have "length ?t \<le> 2" using assms length_filter_le[of se_in_use "td_sessions st"] by simp
  then obtain c m where cm: "sid_loop 4 ?t (td_next_sid st) = Some (c, m)" using sid_loop_total by (metis not_None_eq surj_pair)
  then show ?thesis using sid_loop_sound[OF cm] by (auto simp: next_sid_def)
qed

section \<open>One turn keeps the invariant\<close>

text \<open>What a reply does to the state.\<close>

lemma reply_and_cache_eq:
  "reply_and_cache i seq cmd body st =
     (let r = tnfs_wr16 (se_sid (td_sessions st ! i)) @ [seq, cmd] @ take 1028 body;
          ss = (td_sessions st)[i := (td_sessions st ! i)\<lparr>se_reply := r, se_seq := seq, se_cmd := cmd, se_have_reply := True\<rparr>]
      in st\<lparr>td_sessions := ss, td_out := td_out st @ [(se_peer (ss ! i), r)]\<rparr>)"
  by (cases "length body \<le> 1028") (simp_all add: reply_and_cache_def upd_session_def send_to_def Let_def not_le)

lemma owned_reply [simp]: "owned (s\<lparr>se_reply := r, se_seq := q, se_cmd := c, se_have_reply := h\<rparr>) = owned s"
  and owned_active [simp]: "owned (s\<lparr>se_active := t\<rparr>) = owned s"
  and owned_mount [simp]: "owned (s\<lparr>se_sid := a, se_peer := p, se_root := ro, se_active := t\<rparr>) = owned s"
  and owned_sid [simp]: "owned (s\<lparr>se_sid := a\<rparr>) = owned s"
  and owned_use [simp]: "owned (s\<lparr>se_in_use := u\<rparr>) = owned s"
  by (simp_all add: owned_def)

lemma wf_reply [simp]: "session_wf (s\<lparr>se_reply := r, se_seq := q, se_cmd := c, se_have_reply := h\<rparr>) = session_wf s"
  and wf_active [simp]: "session_wf (s\<lparr>se_active := t\<rparr>) = session_wf s"
  and wf_mount [simp]: "session_wf (s\<lparr>se_sid := a, se_peer := p, se_root := ro, se_active := t\<rparr>) = session_wf s"
  and wf_sid [simp]: "session_wf (s\<lparr>se_sid := a\<rparr>) = session_wf s"
  and wf_use [simp]: "session_wf (s\<lparr>se_in_use := u\<rparr>) = session_wf s"
  by (simp_all add: session_wf_def)

lemma srv_own_keep:
  assumes "srv_own B ss H" "i < 2" "owned s' = owned (ss ! i)" "session_wf (ss ! i) \<Longrightarrow> session_wf s'"
    "se_in_use s' = se_in_use (ss ! i)"
  shows "srv_own B (ss[i := s']) H"
proof (rule srv_own_update[OF assms(1,2) own_step_keep[OF assms(3)]])
  have m: "ss ! i \<in> set ss" using assms(1,2) by (simp add: srv_own_def)
  show "session_wf s'" using assms(1,4) m by (simp add: srv_own_def)
  show "owned s' = []" if "\<not> se_in_use s'" using assms(1,3,5) m that by (simp add: srv_own_def)
qed

lemma sids_ok_keep:
  assumes "sids_ok ss" "i < length ss" "se_in_use s' = se_in_use (ss ! i)" "se_sid s' = se_sid (ss ! i)"
  shows "sids_ok (ss[i := s'])"
proof -
  let ?f = "\<lambda>s. (se_in_use s, se_sid s)"
  have "map ?f (ss[i := s']) = (map ?f ss)[i := ?f (ss ! i)]" unfolding map_update assms(3,4) ..
  also have "\<dots> = map ?f ss" by (subst list_update_same_conv) (simp_all add: assms(2))
  finally have e: "map ?f (ss[i := s']) = map ?f ss" .
  have f: "map se_sid (filter se_in_use xs) = map snd (filter fst (map ?f xs))" for xs
    by (induction xs) auto
  have g: "(\<forall>s \<in> set xs. se_in_use s \<longrightarrow> se_sid s \<noteq> 0) \<longleftrightarrow> (\<forall>p \<in> set (map ?f xs). fst p \<longrightarrow> snd p \<noteq> 0)" for xs by simp
  show ?thesis using assms(1) unfolding sids_ok_def f g e .
qed

lemma srv_inv_resend:
  assumes "srv_inv held B st" "i < 2"
  shows "srv_inv held B (resend now i st)"
proof -
  let ?s = "(td_sessions st ! i)\<lparr>se_active := now\<rparr>"
  have o: "srv_own B (td_sessions st) (held (td_fs st))" and q: "sids_ok (td_sessions st)" using assms(1) by (simp_all add: srv_inv_def)
  have "srv_own B ((td_sessions st)[i := ?s]) (held (td_fs st))" by (rule srv_own_keep[OF o assms(2)]) simp_all
  moreover have "sids_ok ((td_sessions st)[i := ?s])"
    by (rule sids_ok_keep[OF q]) (use o assms(2) in \<open>simp_all add: srv_own_def\<close>)
  ultimately show ?thesis by (simp add: srv_inv_def resend_def upd_session_def send_to_def)
qed

text \<open>The state a request leaves before its session is freed for an UMOUNT.\<close>

definition answered :: "int \<Rightarrow> nat \<Rightarrow> byte \<Rightarrow> byte \<Rightarrow> bytes \<times> session \<times> 'w card \<Rightarrow> 'w tnfsd \<Rightarrow> 'w tnfsd" where
  "answered now i seq cmd r st = (case r of (body, s, c) \<Rightarrow>
     st\<lparr>td_fs := fst c, td_disk := snd c, td_out := td_out st @ [(se_peer s, tnfs_wr16 (se_sid s) @ [seq, cmd] @ body)],
        td_sessions := (td_sessions st)[i := s\<lparr>se_reply := tnfs_wr16 (se_sid s) @ [seq, cmd] @ body, se_seq := seq, se_cmd := cmd,
          se_have_reply := True, se_active := now\<rparr>]\<rparr>)"

lemma process_eq:
  fixes cmd :: byte and rx :: bytes
  assumes "vfs_laws (te_fs e) held" "session_wf (td_sessions st ! i)" "i < length (td_sessions st)"
  defines "r \<equiv> handler cmd e (drop 4 rx) (td_sessions st ! i) (td_fs st, td_disk st)"
  shows "process e now i seq cmd rx st =
    (if cmd = TNFS_UMOUNT then free_session e i (answered now i seq cmd r st) else answered now i seq cmd r st)"
proof -
  obtain body s c where r: "r = (body, s, c)" by (metis surj_pair)
  have "length body \<le> 1028" using any_h.reply_fits[OF assms(1,2) r[unfolded r_def]] by blast
  then show ?thesis using assms(3) unfolding process_def r_def[symmetric] r
    by (simp add: Let_def reply_and_cache_eq upd_session_def answered_def)
qed

lemma srv_inv_answered:
  assumes "vfs_laws (te_fs e) held" "srv_inv held B st" "i < 2" "se_in_use (td_sessions st ! i)"
  shows "srv_inv held B (answered now i seq cmd (handler cmd e pl (td_sessions st ! i) (td_fs st, td_disk st)) st)"
proof -
  obtain body s c where r: "handler cmd e pl (td_sessions st ! i) (td_fs st, td_disk st) = (body, s, c)" by (metis surj_pair)
  have o: "srv_own B (td_sessions st) (held (td_fs st))" and q: "sids_ok (td_sessions st)" using assms(2) by (simp_all add: srv_inv_def)
  have l: "length (td_sessions st) = 2" and wf: "session_wf (td_sessions st ! i)" using o assms(3) by (simp_all add: srv_own_def)
  have k: "same_ident (td_sessions st ! i) s \<and> session_wf s" by (rule any_h.keeps_identity[OF assms(1) wf r])
  have ow: "own_step (held (td_fs st)) (td_sessions st ! i) (held (fst c)) s"
    using any_h.owns[OF assms(1) wf r] by simp
  let ?s = "s\<lparr>se_reply := tnfs_wr16 (se_sid s) @ [seq, cmd] @ body, se_seq := seq, se_cmd := cmd, se_have_reply := True, se_active := now\<rparr>"
  have os: "owned ?s = owned s" by (simp add: owned_def)
  have "srv_own B ((td_sessions st)[i := ?s]) (held (fst c))"
  proof (rule srv_own_update[OF o assms(3)])
    show "own_step (held (td_fs st)) (td_sessions st ! i) (held (fst c)) ?s" using ow unfolding own_step_def os .
    show "session_wf ?s" using k by (simp add: session_wf_def)
  qed (use k assms(4) in \<open>simp add: same_ident_def\<close>)
  moreover have "sids_ok ((td_sessions st)[i := ?s])"
    by (rule sids_ok_keep[OF q]) (use l assms(3) k in \<open>simp_all add: same_ident_def\<close>)
  ultimately show ?thesis by (simp add: r answered_def srv_inv_def)
qed

lemma srv_inv_process:
  assumes "vfs_laws (te_fs e) held" "srv_inv held B st" "i < 2" "se_in_use (td_sessions st ! i)"
  shows "srv_inv held B (process e now i seq cmd rx st)"
proof -
  have l: "length (td_sessions st) = 2" "session_wf (td_sessions st ! i)"
    using assms(2,3) by (simp_all add: srv_inv_def srv_own_def)
  show ?thesis
    using process_eq[OF assms(1) l(2), unfolded l(1), OF assms(3)] srv_inv_answered[OF assms]
    by (simp add: srv_inv_free[OF assms(1) _ assms(3)])
qed

text \<open>A MOUNT puts a fresh session into a free slot.\<close>

lemma sids_ok_new:
  assumes "sids_ok ss" "i < length ss" "\<not> se_in_use (ss ! i)" "se_sid s' \<noteq> 0"
    and o: "\<forall>s \<in> set (ss[i := x]). se_in_use s \<longrightarrow> se_sid s \<noteq> se_sid s'" "se_in_use x"
  shows "sids_ok (ss[i := s'])"
proof -
  let ?A = "take i ss" and ?C = "drop (Suc i) ss"
  have ss: "ss = ?A @ ss ! i # ?C" by (rule id_take_nth_drop[OF assms(2)])
  have u: "ss[i := y] = ?A @ y # ?C" for y by (rule upd_conv_take_nth_drop[OF assms(2)])
  have n: "\<forall>s \<in> set (?A @ ?C). se_in_use s \<longrightarrow> se_sid s \<noteq> se_sid s'" using o(1) unfolding u by simp
  have z: "\<forall>s \<in> set (?A @ ?C). se_in_use s \<longrightarrow> se_sid s \<noteq> 0" "distinct (map se_sid (filter se_in_use (?A @ ?C)))"
  proof -
    have "sids_ok (?A @ ss ! i # ?C)" using assms(1) ss by simp
    then show "\<forall>s \<in> set (?A @ ?C). se_in_use s \<longrightarrow> se_sid s \<noteq> 0" "distinct (map se_sid (filter se_in_use (?A @ ?C)))"
      using assms(3) by (auto simp: sids_ok_def)
  qed
  show ?thesis unfolding u sids_ok_def using n z assms(4) by auto
qed

lemma alloc_session_Some:
  assumes "alloc_session e st = Some (i, st1)" "length (td_sessions st) = 2"
  shows "i < 2 \<and> \<not> se_in_use (td_sessions st ! i) \<and> td_fs st1 = td_fs (free_session e i st) \<and>
    td_sessions st1 = (td_sessions st)[i := session0\<lparr>se_in_use := True\<rparr>] \<and> td_disk st1 = td_disk st \<and> td_out st1 = td_out st"
  using assms by (auto simp: alloc_session_def Let_def split: option.splits dest!: find_slot_Some)

lemma srv_inv_new:
  assumes "vfs_laws (te_fs e) held" "srv_inv held B st" "i < 2" "\<not> se_in_use (td_sessions st ! i)"
    and "owned s' = []" "session_wf s'" "se_sid s' \<noteq> 0"
    and "\<forall>s \<in> set ((td_sessions st)[i := session0\<lparr>se_in_use := True\<rparr>]). se_in_use s \<longrightarrow> se_sid s \<noteq> se_sid s'"
    and "td_sessions st' = (td_sessions st)[i := s']" "td_fs st' = td_fs (free_session e i st)"
  shows "srv_inv held B st'"
proof -
  have o: "srv_own B (td_sessions st) (held (td_fs st))" and q: "sids_ok (td_sessions st)" using assms(2) by (simp_all add: srv_inv_def)
  have l: "length (td_sessions st) = 2" "owned (td_sessions st ! i) = []"
    using o assms(3,4) by (simp_all add: srv_own_def)
  have "srv_own B ((td_sessions st)[i := s']) (held (td_fs st))"
    by (rule srv_own_update[OF o assms(3) own_step_keep])
      (use l assms(5,6) in simp_all)
  moreover have "sids_ok ((td_sessions st)[i := s'])"
    by (rule sids_ok_new[OF q _ assms(4,7,8)]) (use l assms(3) in simp_all)
  ultimately show ?thesis using l by (simp add: srv_inv_def assms(9,10) held_free_session[OF assms(1)])
qed

text \<open>The state a MOUNT leaves, before a refused one is undone.\<close>

definition mounted_state :: "'w tn_env \<Rightarrow> nat \<Rightarrow> session \<Rightarrow> u16 \<Rightarrow> 'w tnfsd \<Rightarrow> 'w tnfsd" where
  "mounted_state e i s nxt st =
     (free_session e i st)\<lparr>td_next_sid := nxt, td_sessions := (td_sessions st)[i := s], td_out := td_out st @ [(se_peer s, se_reply s)]\<rparr>"

definition mounted_session :: "byte \<Rightarrow> u16 \<Rightarrow> sockaddr \<Rightarrow> string \<Rightarrow> int \<Rightarrow> bytes \<Rightarrow> session" where
  "mounted_session seq sid p r now body =
     session0\<lparr>se_in_use := True, se_sid := sid, se_peer := p, se_root := r, se_active := now,
       se_reply := tnfs_wr16 sid @ [seq, TNFS_MOUNT] @ body, se_seq := seq, se_cmd := TNFS_MOUNT, se_have_reply := True\<rparr>"

lemma length_rstrip: "length (rstrip_slash m) \<le> length m"
  unfolding rstrip_slash_def using length_dropWhile_le[of "\<lambda>c. c = CHR ''/''" "rev m"] by simp

lemma length_mount_point: "length (mount_point rx) < 160"
  unfolding mount_point_def Let_def by (rule le_less_trans[OF length_rstrip]) simp

lemma handle_mount_cases:
  assumes "length (td_sessions st) = 2"
  obtains (replay) i where "i < 2" "mount_replay seq peer (td_sessions st ! i)"
      "handle_mount e now seq rx peer st = resend now i st"
    | (full) "\<forall>s \<in> set (td_sessions st). se_in_use s"
      "handle_mount e now seq rx peer st =
         send_to peer (tnfs_wr16 0 @ [seq, TNFS_MOUNT, TNFS_EAGAIN] @ tnfs_wr16 TNFSD_MIN_RETRY_MS) st"
    | (mount) i sid nxt where "i < 2" "\<not> se_in_use (td_sessions st ! i)" "sid \<noteq> 0"
      "\<forall>s \<in> set ((td_sessions st)[i := session0\<lparr>se_in_use := True\<rparr>]). se_in_use s \<longrightarrow> se_sid s \<noteq> sid"
      "\<forall>s \<in> set (td_sessions st). \<not> mount_replay seq peer s"
      "handle_mount e now seq rx peer st =
        (if mount_point rx \<noteq> [] \<and> sd_path (mount_point rx) TNFSD_ABS_CAP = None
         then free_session e i (mounted_state e i (mounted_session seq sid (0, 0) [] 0 [TNFS_ENOENT]) nxt st)
         else mounted_state e i (mounted_session seq sid peer (mount_point rx) now
                ([TNFS_OK, 0x02, 0x01] @ tnfs_wr16 TNFSD_MIN_RETRY_MS)) nxt st)"
proof (cases "find_slot (mount_replay seq peer) (td_sessions st)")
  case (Some i)
  then show ?thesis using find_slot_Some[OF Some] assms that(1)[of i] by (simp add: handle_mount_def)
next
  case nr: None
  show ?thesis
  proof (cases "alloc_session e st")
    case None
    then have "find_slot (\<lambda>s. \<not> se_in_use s) (td_sessions st) = None"
      by (simp add: alloc_session_def Let_def split: option.splits)
    then show ?thesis using that(2) None nr by (simp add: handle_mount_def find_slot_None)
  next
    case (Some r)
    obtain i st1 where r: "r = (i, st1)" by (cases r)
    note al = alloc_session_Some[OF Some[unfolded r] assms]
    have st1: "st1 = (free_session e i st)\<lparr>td_sessions := (td_sessions st)[i := session0\<lparr>se_in_use := True\<rparr>]\<rparr>"
      using Some r al assms by (auto simp: alloc_session_def Let_def split: option.splits)
    have "length (td_sessions st1) = 2" using al assms by simp
    then obtain sid nxt where n: "next_sid st1 = Some (sid, st1\<lparr>td_next_sid := nxt\<rparr>)" "sid \<noteq> 0"
      "\<forall>s \<in> set (td_sessions st1). se_in_use s \<longrightarrow> se_sid s \<noteq> sid" using next_sid_total by blast
    have rl: "strlcpy (mount_point rx) 160 = mount_point rx" by (simp add: length_mount_point)
    have i: "i < length (td_sessions st)" using al assms by simp
    show ?thesis
    proof (rule that(3)[of i sid nxt])
      show "handle_mount e now seq rx peer st =
        (if mount_point rx \<noteq> [] \<and> sd_path (mount_point rx) TNFSD_ABS_CAP = None
         then free_session e i (mounted_state e i (mounted_session seq sid (0, 0) [] 0 [TNFS_ENOENT]) nxt st)
         else mounted_state e i (mounted_session seq sid peer (mount_point rx) now
                ([TNFS_OK, 0x02, 0x01] @ tnfs_wr16 TNFSD_MIN_RETRY_MS)) nxt st)"
        using nr Some r n(1) i rl
        by (simp add: handle_mount_def st1 Let_def reply_and_cache_eq upd_session_def mounted_state_def mounted_session_def
            session0_def session_zero_def)
    qed (use al n nr in \<open>simp_all add: find_slot_None\<close>)
  qed
qed

lemma srv_inv_mount:
  assumes "vfs_laws (te_fs e) held" "srv_inv held B st"
  shows "srv_inv held B (handle_mount e now seq rx peer st)"
proof -
  have l: "length (td_sessions st) = 2" using assms(2) by (simp add: srv_inv_def srv_own_def)
  from l show ?thesis
  proof (cases rule: handle_mount_cases[of st seq peer e now rx])
    case (replay i)
    then show ?thesis by (simp add: srv_inv_resend[OF assms(2)])
  next
    case full
    then show ?thesis using assms(2) by (simp add: srv_inv_def send_to_def)
  next
    case (mount i sid nxt)
    have m: "srv_inv held B (mounted_state e i (mounted_session seq sid p r t body) nxt st)" for p r t body
      by (rule srv_inv_new[OF assms mount(1,2), of "mounted_session seq sid p r t body"])
        (use mount(3,4) in \<open>simp_all add: mounted_session_def mounted_state_def session_wf_def owned_def
          session0_def session_zero_def slot_shape_def dirslot0_def dir_ids_def numeral_eq_Suc\<close>)
    show ?thesis unfolding mount(6) using m srv_inv_free[OF assms(1) m mount(1)] by simp
  qed
qed

section \<open>A datagram\<close>

lemma find_session_Some:
  assumes "find_session sid p st = Some i" "length (td_sessions st) = 2"
  shows "i < 2 \<and> se_in_use (td_sessions st ! i) \<and> se_sid (td_sessions st ! i) = sid \<and> se_peer (td_sessions st ! i) = p"
  using assms find_slot_Some[of _ "td_sessions st" i]
  by (auto simp: find_session_def same_peer_def prod_eq_iff split: if_splits)

lemma sessions_reap_len [simp]: "length (td_sessions (reap_idle e t st)) = length (td_sessions st)"
  by (simp add: reap_idle_def upto2 Let_def)

text \<open>The ways a turn can go, after the reaping.\<close>

definition well_formed :: "bytes \<Rightarrow> bool" where
  "well_formed m \<longleftrightarrow> 4 \<le> length m"

lemma serve_step_cases:
  assumes "length (td_sessions st) = 2"
  obtains (quiet) "serve_step e (t0, now, dg) st = reap_idle e t0 st"
    | (mount) p m where "dg = Some (p, m)" "well_formed m" "m ! 3 = TNFS_MOUNT"
      "serve_step e (t0, now, dg) st = handle_mount e now (m ! 2) (take TNFS_MSG_CAP m) p (reap_idle e t0 st)"
    | (again) p m i where "dg = Some (p, m)" "well_formed m" "m ! 3 \<noteq> TNFS_MOUNT"
      "find_session (tnfs_rd16 m) p (reap_idle e t0 st) = Some i"
      "serve_step e (t0, now, dg) st = resend now i (reap_idle e t0 st)"
    | (run) p m i where "dg = Some (p, m)" "well_formed m" "m ! 3 \<noteq> TNFS_MOUNT"
      "find_session (tnfs_rd16 m) p (reap_idle e t0 st) = Some i"
      "serve_step e (t0, now, dg) st = process e now i (m ! 2) (m ! 3) (take TNFS_MSG_CAP m) (reap_idle e t0 st)"
proof (cases dg)
  case None
  then show ?thesis using that(1) by (simp add: serve_step_def)
next
  case (Some pm)
  obtain p m where pm: "pm = (p, m)" by (cases pm)
  show ?thesis
  proof (cases "well_formed m")
    case False
    then show ?thesis using that(1) Some pm by (simp add: serve_step_def well_formed_def Let_def)
  next
    case True
    then have n: "take 1032 m ! 2 = m ! 2" "take 1032 m ! 3 = m ! 3" "tnfs_rd16 (take 1032 m) = tnfs_rd16 m" "min (length m) 1032 < 4 \<longleftrightarrow> False"
      by (simp_all add: well_formed_def tnfs_rd16_def)
    show ?thesis
    proof (cases "m ! 3 = TNFS_MOUNT")
      case mt: True
      show ?thesis by (rule that(2)[OF Some[unfolded pm] True mt]) (simp add: serve_step_def Some pm Let_def n mt)
    next
      case nm: False
      show ?thesis
      proof (cases "find_session (tnfs_rd16 m) p (reap_idle e t0 st)")
        case None
        then show ?thesis using that(1) Some pm n nm by (simp add: serve_step_def Let_def)
      next
        case f: (Some i)
        show ?thesis
        proof (cases "se_have_reply (td_sessions (reap_idle e t0 st) ! i) \<and> se_seq (td_sessions (reap_idle e t0 st) ! i) = m ! 2 \<and>
            se_cmd (td_sessions (reap_idle e t0 st) ! i) = m ! 3")
          case d: True
          show ?thesis by (rule that(3)[OF Some[unfolded pm] True nm f]) (use d in \<open>simp add: serve_step_def Some pm Let_def n nm f\<close>)
        next
          case d: False
          show ?thesis by (rule that(4)[OF Some[unfolded pm] True nm f]) (use d in \<open>auto simp: serve_step_def Some pm Let_def n nm f\<close>)
        qed
      qed
    qed
  qed
qed

lemma srv_inv_len: "srv_inv held B st \<Longrightarrow> length (td_sessions st) = 2"
  by (simp add: srv_inv_def srv_own_def)

lemma srv_inv_step:
  assumes "vfs_laws (te_fs e) held" "srv_inv held B st"
  shows "srv_inv held B (serve_step e ev st)"
proof -
  obtain t0 now dg where ev: "ev = (t0, now, dg)" by (metis prod_cases3)
  note r = srv_inv_reap[OF assms, of t0]
  have l: "length (td_sessions st) = 2" by (rule srv_inv_len[OF assms(2)])
  then show ?thesis
  proof (cases rule: serve_step_cases[of st e t0 now dg])
    case (mount p m)
    then show ?thesis by (simp add: ev srv_inv_mount[OF assms(1) r])
  next
    case (again p m i)
    then show ?thesis using find_session_Some[OF again(4)] l by (simp add: ev srv_inv_resend[OF r])
  next
    case (run p m i)
    then show ?thesis using find_session_Some[OF run(4)] l by (simp add: ev srv_inv_process[OF assms(1) r])
  qed (simp add: r ev)
qed

lemma srv_inv_run:
  "vfs_laws (te_fs e) held \<Longrightarrow> srv_inv held B st \<Longrightarrow> srv_inv held B (fold (serve_step e) evs st)"
  by (induction evs arbitrary: st) (simp_all add: srv_inv_step)

lemma srv_inv_serve:
  "vfs_laws (te_fs e) held \<Longrightarrow> srv_inv held B st \<Longrightarrow> srv_inv held B (serve e ok evs st)"
  by (simp add: serve_def srv_inv_run srv_inv_drop_all)

section \<open>From boot\<close>

lemma owned_session_zero: "set (owned session_zero) = {Fd 0}"
  by (simp add: owned_def session_zero_def dir_ids_def dirslot0_def numeral_eq_Suc)

lemma srv_inv_start:
  assumes "vfs_laws (te_fs e) held"
  shows "srv_inv held (held w - {Fd 0}) (tnfsd_start e (tnfsd_statics w dk))"
proof -
  let ?st = "tnfsd_start e (tnfsd_statics w dk)"
  have z: "replicate 2 session_zero = [session_zero, session_zero]" by (simp add: numeral_2_eq_2)
  have ss: "td_sessions ?st = [session0, session0]"
    by (simp add: tnfsd_start_def upto2 tnfsd_statics_def z)
  have "held (td_fs ?st) = held w - {Fd 0}"
    by (auto simp: tnfsd_start_def upto2 held_free_session[OF assms] tnfsd_statics_def z owned_session_zero)
  then show ?thesis by (simp add: srv_inv_def srv_own_def sids_ok_def ss)
qed

lemma srv_inv_task:
  assumes "vfs_laws (te_fs e) held"
  shows "srv_inv held (held w - {Fd 0}) (tnfsd_task e periods (tnfsd_statics w dk))"
proof -
  have "srv_inv held B (fold (\<lambda>(ok, evs). serve e ok evs) periods st)" if "srv_inv held B st" for B st
    using that by (induction periods arbitrary: st) (auto simp: srv_inv_serve[OF assms])
  then show ?thesis by (simp add: tnfsd_task_def srv_inv_start[OF assms])
qed

lemma drop_all_free:
  assumes "length (td_sessions st) = 2"
  shows "\<forall>s \<in> set (td_sessions (drop_all_sessions e st)). \<not> se_in_use s"
proof -
  obtain a b where "td_sessions st = [a, b]" using assms by (auto simp: numeral_2_eq_2 length_Suc_conv)
  then show ?thesis by (simp add: drop_all_sessions_def upto2)
qed

lemma held_drop_all:
  assumes "vfs_laws (te_fs e) held" "srv_inv held B st"
  shows "held (td_fs (drop_all_sessions e st)) = B"
proof -
  let ?st = "drop_all_sessions e st"
  have i: "srv_inv held B ?st" by (rule srv_inv_drop_all[OF assms])
  have "\<forall>s \<in> set (td_sessions ?st). owned s = []"
    using i drop_all_free[OF srv_inv_len[OF assms(2)], of e] by (auto simp: srv_inv_def srv_own_def)
  then have "concat (map owned (td_sessions ?st)) = []" by simp
  then show ?thesis using i by (simp add: srv_inv_def srv_own_def)
qed

section \<open>The cached reply\<close>

definition reply_ok :: "session \<Rightarrow> bool" where
  "reply_ok s \<longleftrightarrow> (se_have_reply s \<longrightarrow> (\<exists>body. se_reply s = tnfs_wr16 (se_sid s) @ [se_seq s, se_cmd s] @ body \<and>
     1 \<le> length body \<and> length body \<le> 1028))"

definition cache_inv :: "'w tnfsd \<Rightarrow> bool" where
  "cache_inv st \<longleftrightarrow> (\<forall>s \<in> set (td_sessions st). reply_ok s)"

lemma reply_ok_session0 [simp]: "reply_ok session0"
  by (simp add: reply_ok_def session0_def session_zero_def)

lemma cache_inv_update:
  "cache_inv st \<Longrightarrow> reply_ok s \<Longrightarrow> td_sessions st' = (td_sessions st)[i := s] \<Longrightarrow> cache_inv st'"
  using set_update_subset_insert[of "td_sessions st" i s] unfolding cache_inv_def by auto

lemma cache_inv_free: "cache_inv st \<Longrightarrow> cache_inv (free_session e i st)"
  by (rule cache_inv_update[of st session0 _ i]) simp_all

lemma cache_inv_reap: "cache_inv st \<Longrightarrow> cache_inv (reap_idle e t st)"
  unfolding reap_idle_def upto2 Let_def by (simp add: cache_inv_free)

lemma cache_inv_resend:
  assumes "cache_inv st" "i < length (td_sessions st)"
  shows "cache_inv (resend now i st)"
proof (rule cache_inv_update[OF assms(1)])
  have "reply_ok (td_sessions st ! i)" using assms by (simp add: cache_inv_def)
  then show "reply_ok ((td_sessions st ! i)\<lparr>se_active := now\<rparr>)" by (simp add: reply_ok_def)
qed (simp add: resend_def upd_session_def send_to_def)

lemma cache_inv_process:
  assumes "vfs_laws (te_fs e) held" "session_wf (td_sessions st ! i)" "i < length (td_sessions st)" "cache_inv st"
  shows "cache_inv (process e now i seq cmd rx st)"
proof -
  obtain body s c where r: "handler cmd e (drop 4 rx) (td_sessions st ! i) (td_fs st, td_disk st) = (body, s, c)" by (metis surj_pair)
  note f = any_h.reply_fits[OF assms(1,2) r]
  let ?s = "s\<lparr>se_reply := tnfs_wr16 (se_sid s) @ [seq, cmd] @ body, se_seq := seq, se_cmd := cmd, se_have_reply := True, se_active := now\<rparr>"
  have "reply_ok ?s" using f by (auto simp: reply_ok_def Suc_le_eq)
  then have "cache_inv (answered now i seq cmd (body, s, c) st)"
    by (rule cache_inv_update[OF assms(4), of _ _ i]) (simp add: answered_def)
  then show ?thesis unfolding process_eq[OF assms(1-3)] r using cache_inv_free by auto
qed

lemma cache_inv_mount:
  assumes "length (td_sessions st) = 2" "cache_inv st"
  shows "cache_inv (handle_mount e now seq rx peer st)"
  using assms(1)
proof (cases rule: handle_mount_cases[of st seq peer e now rx])
  case (replay i)
  then show ?thesis using cache_inv_resend[OF assms(2)] assms(1) by simp
next
  case full
  then show ?thesis using assms(2) by (simp add: cache_inv_def send_to_def)
next
  case (mount i sid nxt)
  have "cache_inv (mounted_state e i (mounted_session seq sid p r t body) nxt st)" if "1 \<le> length body" "length body \<le> 1028"
    for p r t body
    by (rule cache_inv_update[OF assms(2), of "mounted_session seq sid p r t body" _ i])
      (use that in \<open>auto simp: reply_ok_def mounted_session_def mounted_state_def\<close>)
  then show ?thesis unfolding mount(6) by (simp add: cache_inv_free)
qed

lemma cache_inv_step:
  assumes "vfs_laws (te_fs e) held" "srv_inv held B st" "cache_inv st"
  shows "cache_inv (serve_step e ev st)"
proof -
  obtain t0 now dg where ev: "ev = (t0, now, dg)" by (metis prod_cases3)
  note r = cache_inv_reap[OF assms(3), of e t0]
  have l: "length (td_sessions st) = 2" by (rule srv_inv_len[OF assms(2)])
  have wf: "i < 2 \<Longrightarrow> session_wf (td_sessions (reap_idle e t0 st) ! i)" for i
    using srv_inv_reap[OF assms(1,2), of t0] by (simp add: srv_inv_def srv_own_def)
  from l show ?thesis
  proof (cases rule: serve_step_cases[of st e t0 now dg])
    case (mount p m)
    then show ?thesis using cache_inv_mount[OF _ r] l by (simp add: ev)
  next
    case (again p m i)
    then show ?thesis using find_session_Some[OF again(4)] l cache_inv_resend[OF r] by (simp add: ev)
  next
    case (run p m i)
    then show ?thesis using find_session_Some[OF run(4)] l cache_inv_process[OF assms(1) wf _ r] by (simp add: ev)
  qed (simp add: r ev)
qed

section \<open>Repeated requests and other clients\<close>

lemma sids_unique:
  assumes "sids_ok ss" "length ss = 2" "i < 2" "j < 2" "se_in_use (ss ! i)" "se_in_use (ss ! j)" "se_sid (ss ! i) = se_sid (ss ! j)"
  shows "i = j"
proof -
  obtain a b where ss: "ss = [a, b]" using assms(2) by (auto simp: numeral_2_eq_2 length_Suc_conv)
  have "i = 0 \<or> i = 1" "j = 0 \<or> j = 1" using assms(3,4) by auto
  then show ?thesis using assms(1,5-7) by (auto simp: ss sids_ok_def)
qed

lemma find_session_I:
  assumes "srv_inv held B st" "i < 2" "se_in_use (td_sessions st ! i)" "se_sid (td_sessions st ! i) = sid"
    "se_peer (td_sessions st ! i) = p"
  shows "find_session sid p st = Some i"
proof -
  have q: "sids_ok (td_sessions st)" and l: "length (td_sessions st) = 2" using assms(1) by (simp_all add: srv_inv_def srv_own_def)
  have m: "td_sessions st ! i \<in> set (td_sessions st)" using l assms(2) by simp
  have s0: "sid \<noteq> 0" using q m assms(3,4) by (auto simp: sids_ok_def)
  let ?P = "\<lambda>s. se_in_use s \<and> se_sid s = sid \<and> same_peer (se_peer s) p"
  have "?P (td_sessions st ! i)" using assms(3-5) by (simp add: same_peer_def)
  then have "find_slot ?P (td_sessions st) \<noteq> None" using m by (auto simp: find_slot_None)
  then obtain j where j: "find_slot ?P (td_sessions st) = Some j" by blast
  note f = find_slot_Some[OF j]
  have "j = i" by (rule sids_unique[OF q l _ assms(2)]) (use f l assms(3,4) in auto)
  then show ?thesis using j s0 by (simp add: find_session_def)
qed

text \<open>What a turn leaves behind for its request.\<close>

definition has_answered :: "int \<Rightarrow> sockaddr \<Rightarrow> bytes \<Rightarrow> nat \<Rightarrow> 'w tnfsd \<Rightarrow> bool" where
  "has_answered now p m i st \<longleftrightarrow> (let s = td_sessions st ! i in se_in_use s \<and> se_sid s = tnfs_rd16 m \<and> se_peer s = p \<and>
     se_have_reply s \<and> se_seq s = m ! 2 \<and> se_cmd s = m ! 3 \<and> se_active s = now \<and> td_out st \<noteq> [] \<and> last (td_out st) = (p, se_reply s))"

lemma step_has_answered:
  assumes "vfs_laws (te_fs e) held" "srv_inv held B st" "well_formed m" "m ! 3 \<noteq> TNFS_MOUNT" "m ! 3 \<noteq> TNFS_UMOUNT"
    "find_session (tnfs_rd16 m) p (reap_idle e t0 st) = Some i"
  shows "has_answered now p m i (serve_step e (t0, now, Some (p, m)) st)"
proof -
  let ?r = "reap_idle e t0 st"
  have l: "length (td_sessions st) = 2" by (rule srv_inv_len[OF assms(2)])
  have fi: "i < 2 \<and> se_in_use (td_sessions ?r ! i) \<and> se_sid (td_sessions ?r ! i) = tnfs_rd16 m \<and> se_peer (td_sessions ?r ! i) = p"
    using find_session_Some[OF assms(6)] l by simp
  have wf: "session_wf (td_sessions ?r ! i)" using srv_inv_reap[OF assms(1,2), of t0] fi by (simp add: srv_inv_def srv_own_def)
  have n: "take 1032 m ! 2 = m ! 2" "take 1032 m ! 3 = m ! 3" "tnfs_rd16 (take 1032 m) = tnfs_rd16 m" "\<not> min (length m) 1032 < 4"
    using assms(3) by (simp_all add: well_formed_def tnfs_rd16_def)
  show ?thesis
  proof (cases "se_have_reply (td_sessions ?r ! i) \<and> se_seq (td_sessions ?r ! i) = m ! 2 \<and> se_cmd (td_sessions ?r ! i) = m ! 3")
    case True
    then have "serve_step e (t0, now, Some (p, m)) st = resend now i ?r"
      by (simp add: serve_step_def Let_def n assms)
    then show ?thesis using True fi l
      by (simp add: has_answered_def resend_def upd_session_def send_to_def Let_def)
  next
    case False
    then have s: "serve_step e (t0, now, Some (p, m)) st = process e now i (m ! 2) (m ! 3) (take 1032 m) ?r"
      by (auto simp: serve_step_def Let_def n assms)
    obtain body s c where h: "handler (m ! 3) e (drop 4 (take 1032 m)) (td_sessions ?r ! i) (td_fs ?r, td_disk ?r) = (body, s, c)"
      by (metis surj_pair)
    have il: "i < length (td_sessions ?r)" using fi l by simp
    have "same_ident (td_sessions ?r ! i) s" using any_h.keeps_identity[OF assms(1) wf h] by blast
    then show ?thesis unfolding s process_eq[OF assms(1) wf il] h using assms(5) fi l
      by (simp add: has_answered_def answered_def same_ident_def Let_def)
  qed
qed

lemma reap_keeps:
  assumes "i < 2" "length (td_sessions st) = 2" "t - se_active (td_sessions st ! i) \<le> 30000000"
  shows "td_sessions (reap_idle e t st) ! i = td_sessions st ! i"
proof -
  obtain a b where ss: "td_sessions st = [a, b]" using assms(2) by (auto simp: numeral_2_eq_2 length_Suc_conv)
  have "i = 0 \<or> i = 1" using assms(1) by auto
  then show ?thesis using assms(3) by (auto simp: reap_idle_def upto2 Let_def ss)
qed

lemma out_reap [simp]: "td_out (reap_idle e t st) = td_out st"
  and disk_reap [simp]: "td_disk (reap_idle e t st) = td_disk st"
  by (simp_all add: reap_idle_def upto2 Let_def)

lemma repeat_resends:
  assumes "srv_inv held B (reap_idle e t0 st)" "length (td_sessions st) = 2" "i < 2" "has_answered now p m i st" "t0 - now \<le> 30000000"
    "well_formed m" "m ! 3 \<noteq> TNFS_MOUNT"
  shows "serve_step e (t0, now', Some (p, m)) st = resend now' i (reap_idle e t0 st) \<and>
    td_out (resend now' i (reap_idle e t0 st)) = td_out st @ [last (td_out st)]"
proof -
  let ?r = "reap_idle e t0 st"
  have k: "td_sessions ?r ! i = td_sessions st ! i"
    by (rule reap_keeps[OF assms(3,2)]) (use assms(4,5) in \<open>simp add: has_answered_def Let_def\<close>)
  have f: "find_session (tnfs_rd16 m) p ?r = Some i"
    by (rule find_session_I[OF assms(1,3)]) (use assms(4) k in \<open>simp_all add: has_answered_def Let_def\<close>)
  have n: "take 1032 m ! 2 = m ! 2" "take 1032 m ! 3 = m ! 3" "tnfs_rd16 (take 1032 m) = tnfs_rd16 m" "\<not> min (length m) 1032 < 4"
    using assms(6) by (simp_all add: well_formed_def tnfs_rd16_def)
  have "serve_step e (t0, now', Some (p, m)) st = resend now' i ?r"
    using assms(4,7) by (simp add: serve_step_def Let_def n f k has_answered_def)
  moreover have "td_out (resend now' i ?r) = td_out st @ [last (td_out st)]"
    using assms(4) k by (simp add: resend_def upd_session_def send_to_def has_answered_def Let_def)
  ultimately show ?thesis by simp
qed

end
