(* ===== verification/TnfsServerSpec.thy ===== *)
theory TnfsServerSpec
  imports TnfsServerRun DiskStoreProps "HOL-Library.AList"
begin

text \<open>
  What the TNFS server promises its clients and the rest of the firmware: paths stay inside
  the mounted folder, a listing yields every entry once, a mounted image is not changed, a
  request runs once, and clients do not see each other. The properties with their witnesses
  on a small file system stand at the end.
\<close>

section \<open>Paths\<close>

lemma rstrip_split: "\<exists>n. s = rstrip_slash s @ replicate n CHR ''/''"
proof -
  let ?P = "\<lambda>c. c = CHR ''/''"
  have "rev s = takeWhile ?P (rev s) @ dropWhile ?P (rev s)" by simp
  then have "s = rstrip_slash s @ rev (takeWhile ?P (rev s))"
    unfolding rstrip_slash_def by (metis rev_append rev_rev_ident)
  moreover have "takeWhile ?P (rev s) = replicate (length (takeWhile ?P (rev s))) CHR ''/''"
    by (rule replicate_eqI[symmetric, THEN sym]) (auto dest: set_takeWhileD)
  ultimately show ?thesis by (metis rev_replicate)
qed

lemma rstrip_append:
  assumes "t \<noteq> []" "hd t \<noteq> CHR ''/''"
  shows "\<exists>u. rstrip_slash (r @ t) = r @ u \<and> u \<noteq> []"
proof -
  let ?P = "\<lambda>c. c = CHR ''/''"
  have "dropWhile ?P (rev t) \<noteq> []"
  proof
    assume "dropWhile ?P (rev t) = []"
    then have "\<forall>c \<in> set (rev t). ?P c" by (simp add: dropWhile_eq_Nil_conv)
    then show False using assms by (cases t) auto
  qed
  then obtain x where "x \<in> set (rev t)" "\<not> ?P x" by (auto simp: dropWhile_eq_Nil_conv)
  then have "dropWhile ?P (rev (r @ t)) = dropWhile ?P (rev t) @ rev r" by (simp add: dropWhile_append1)
  then have "rstrip_slash (r @ t) = r @ rev (dropWhile ?P (rev t))" by (simp add: rstrip_slash_def)
  then show ?thesis using \<open>dropWhile ?P (rev t) \<noteq> []\<close> by (metis rev_is_Nil_conv)
qed

text \<open>
  A resolved path is the root, or a name \<open>sd_path\<close> accepts; with a mounted folder it is that
  folder or lies in it.
\<close>

lemma resolve_path_jailed:
  assumes "resolve_path s req cap = Inr p" "3 < cap" "length (se_root s) < 160" "rstrip_slash (se_root s) = se_root s"
  shows "(p = ''/sd'' \<and> se_root s = [] \<or> (\<exists>rel. sd_path rel cap = Some p)) \<and>
    (se_root s \<noteq> [] \<longrightarrow> p = ''/sd/'' @ se_root s \<or> (\<exists>u. u \<noteq> [] \<and> p = ''/sd/'' @ se_root s @ ''/'' @ u))"
proof -
  define rq where "rq = dropWhile (\<lambda>c. c = CHR ''/'') req"
  define rel where "rel = rstrip_slash (if se_root s \<noteq> [] then if rq \<noteq> [] then se_root s @ ''/'' @ rq
      else strlcpy (se_root s) 320 else strlcpy rq 320)"
  have r: "if rel = [] then p = strlcpy ''/sd'' cap else sd_path rel cap = Some p"
    using assms(1) unfolding resolve_path_def Let_def rq_def[symmetric] rel_def[symmetric]
    by (auto split: if_splits option.splits)
  have root: "rel = se_root s \<or> (\<exists>u. u \<noteq> [] \<and> rel = se_root s @ ''/'' @ u)" if ne: "se_root s \<noteq> []"
  proof (cases "rq = []")
    case True
    then show ?thesis using ne assms(3,4) by (simp add: rel_def)
  next
    case False
    then have "hd rq \<noteq> CHR ''/''" unfolding rq_def using hd_dropWhile by blast
    from rstrip_append[OF False this, of "se_root s @ ''/''"] obtain u
      where "rstrip_slash (se_root s @ ''/'' @ rq) = se_root s @ ''/'' @ u" "u \<noteq> []" by auto
    then show ?thesis using ne False by (auto simp: rel_def)
  qed
  show ?thesis
  proof (cases "rel = []")
    case True
    then have "se_root s = []" using root by auto
    then show ?thesis using r True assms(2) by simp
  next
    case False
    then have sp: "sd_path rel cap = Some p" using r by simp
    then have "p = ''/sd/'' @ rel" by (simp add: sd_path_def Let_def split: if_splits)
    then show ?thesis using sp root by auto
  qed
qed

lemma rstrip_idem: "rstrip_slash (rstrip_slash s) = rstrip_slash s"
  by (simp add: rstrip_slash_def dropWhile_idem)

section \<open>Listings\<close>

text \<open>The entries a directory slot has still to show: the stashed one, then the visible ones.\<close>

definition dir_rest :: "'w vfs \<Rightarrow> 'w \<Rightarrow> dirslot \<Rightarrow> entry list" where
  "dir_rest v w d =
     (if ds_has_pending d then [(ds_pending d)\<lparr>en_name := strlcpy (en_name (ds_pending d)) 256\<rparr>] else []) @
     (case ds_dir d of None \<Rightarrow> []
      | Some h \<Rightarrow> map (dir_meta v w (ds_abspath d)) (filter (visible (ds_pattern d)) (dh_left h)))"

lemma dir_skip_filter: "dir_skip pat es = [] \<and> filter (visible pat) es = [] \<or>
    (\<exists>de r. dir_skip pat es = de # r \<and> filter (visible pat) es = de # filter (visible pat) r)"
  by (induction es) auto

lemma dir_next_rest:
  "case dir_next v w d of None \<Rightarrow> dir_rest v w d = []
   | Some (en, d') \<Rightarrow> dir_rest v w d = en # dir_rest v w d' \<and> \<not> ds_has_pending d' \<and> ds_pos d' = ds_pos d"
proof (cases "ds_has_pending d")
  case False
  show ?thesis
  proof (cases "ds_dir d")
    case (Some h)
    then show ?thesis using False dir_skip_filter[of "ds_pattern d" "dh_left h"]
      by (auto simp: dir_next_def dir_rest_def)
  qed (use False in \<open>simp add: dir_next_def dir_rest_def\<close>)
qed (simp add: dir_next_def dir_rest_def split: option.split)

lemma dir_stash_rest:
  assumes "\<not> ds_has_pending d" "length (en_name en) < 256"
  shows "dir_rest v w (dir_stash en d) = en # dir_rest v w d"
  using assms by (simp add: dir_rest_def dir_stash_def split: option.split)

text \<open>The loop takes a prefix of what is left, and stops early only at the end or when full.\<close>

lemma readdirx_loop_stream:
  assumes "readdirx_loop v w n d es c = (d', es', c', eof)"
  shows "\<exists>k \<le> n. es' = es @ concat (map enc_entry (take k (dir_rest v w d))) \<and> k \<le> length (dir_rest v w d) \<and>
    dir_rest v w d' = drop k (dir_rest v w d) \<and> c' = c + of_nat k \<and> ds_pos d' = ds_pos d \<and>
    (eof \<longrightarrow> dir_rest v w d' = []) \<and>
    (k < n \<longrightarrow> eof \<or> dir_rest v w d' \<noteq> [] \<and> length es' + length (enc_entry (hd (dir_rest v w d'))) > 1023)"
  using assms
proof (induction v w n d es c arbitrary: d' es' c' eof rule: readdirx_loop.induct)
  case (1 v w d es count)
  then show ?case by (intro exI[of _ 0]) simp
next
  case (2 v w n d es c)
  show ?case
  proof (cases "dir_next v w d")
    case None
    then show ?thesis using 2(2) dir_next_rest[of v w d] by (intro exI[of _ 0]) auto
  next
    case (Some r)
    obtain en d1 where r: "r = (en, d1)" by (cases r)
    have nx: "dir_rest v w d = en # dir_rest v w d1" "\<not> ds_has_pending d1" "ds_pos d1 = ds_pos d"
      using dir_next_rest[of v w d] Some r by simp_all
    have nm: "length (en_name en) < 256" using dir_next_same[OF Some[unfolded r]] by simp
    show ?thesis
    proof (cases "5 + length es + (13 + length (en_name en) + 1) > 1028")
      case True
      then have "d' = dir_stash en d1" "es' = es" "c' = c" "\<not> eof" using 2(2) Some r by auto
      moreover have "ds_pos (dir_stash en d1) = ds_pos d1" by (simp add: dir_stash_def)
      ultimately show ?thesis using nx dir_stash_rest[OF nx(2) nm, of v w] True
        by (intro exI[of _ 0]) auto
    next
      case False
      then have "readdirx_loop v w n d1 (es @ enc_entry en) (c + 1) = (d', es', c', eof)" using 2(2) Some r by simp
      moreover have "\<not> 1032 - 4 < 5 + length es + (13 + length (en_name en) + 1)" using False by simp
      ultimately obtain k where k: "k \<le> n"
        "es' = (es @ enc_entry en) @ concat (map enc_entry (take k (dir_rest v w d1)))" "k \<le> length (dir_rest v w d1)"
        "dir_rest v w d' = drop k (dir_rest v w d1)" "c' = c + 1 + of_nat k" "ds_pos d' = ds_pos d1"
        "eof \<longrightarrow> dir_rest v w d' = []"
        "k < n \<longrightarrow> eof \<or> dir_rest v w d' \<noteq> [] \<and> length es' + length (enc_entry (hd (dir_rest v w d'))) > 1023"
        using 2(1)[OF Some r[symmetric]] by blast
      then show ?thesis using nx by (intro exI[of _ "Suc k"]) (auto simp: algebra_simps)
    qed
  qed
qed

lemma h_readdirx_stream:
  assumes "session_wf s" "2 \<le> length pl" "\<not> dir_bad s (pl ! 0)" "h_readdirx e pl s c = (body, s', c')"
  defines "d \<equiv> se_dirs s ! unat (pl ! 0)" and "d' \<equiv> se_dirs s' ! unat (pl ! 0)"
    and "rest \<equiv> dir_rest (te_fs e) (fst c) (se_dirs s ! unat (pl ! 0))"
  shows "c' = c \<and> (\<exists>k f. k \<le> length rest \<and> (k = 0 \<longleftrightarrow> rest = []) \<and> k \<le> max 1 (unat (pl ! 1)) \<and>
    dir_rest (te_fs e) (fst c) d' = drop k rest \<and> (f = 1 \<longrightarrow> drop k rest = []) \<and>
    (if rest = [] then body = [TNFS_EOF]
     else body = [TNFS_OK, of_nat k, f] @ tnfs_wr16 (ds_pos d) @ concat (map enc_entry (take k rest)) \<and>
       ds_pos d' = ds_pos d + of_nat k))"
proof -
  define n where "n = (if pl ! 1 = 0 then 1 else pl ! 1)"
  have nn: "unat n = max 1 (unat (pl ! 1))" "unat n < 256" "1 \<le> unat n"
    unfolding n_def by (auto simp: max_def Suc_le_eq unat_gt_0)
  obtain d1 es k8 eof where l: "readdirx_loop (te_fs e) (fst c) (unat n) d [] 0 = (d1, es, k8, eof)" by (metis prod_cases4)
  have h: "unat (pl ! 0) < length (se_dirs s)" using not_dir_bad[OF assms(1,3)] by blast
  have rd: "dir_rest (te_fs e) (fst c) d = rest" by (simp add: rest_def d_def)
  obtain k where K: "k \<le> unat n" "es = concat (map enc_entry (take k rest))" "k \<le> length rest"
    "dir_rest (te_fs e) (fst c) d1 = drop k rest" "k8 = of_nat k" "ds_pos d1 = ds_pos d"
    "eof \<longrightarrow> dir_rest (te_fs e) (fst c) d1 = []"
    "k < unat n \<longrightarrow> eof \<or> dir_rest (te_fs e) (fst c) d1 \<noteq> [] \<and>
      length es + length (enc_entry (hd (dir_rest (te_fs e) (fst c) d1))) > 1023"
    using readdirx_loop_stream[OF l] unfolding rd append_Nil add_0 by blast
  note k = K(1-6) K(7,8)[unfolded K(4)]
  have e: "h_readdirx e pl s c =
    (if k8 = 0 then ([TNFS_EOF], s\<lparr>se_dirs := (se_dirs s)[unat (pl ! 0) := d1]\<rparr>, c)
     else ([TNFS_OK, k8, if eof then 0x01 else 0] @ tnfs_wr16 (ds_pos d1) @ es,
       s\<lparr>se_dirs := (se_dirs s)[unat (pl ! 0) := d1\<lparr>ds_pos := ds_pos d1 + ucast k8\<rparr>]\<rparr>, c))"
    unfolding h_readdirx_def Let_def n_def[symmetric] using assms(2,3) by (simp add: l[unfolded d_def])
  have rp: "dir_rest v w (x\<lparr>ds_pos := q\<rparr>) = dir_rest v w x" for v and w :: 'a and x q
    by (simp add: dir_rest_def split: option.split)
  have k256: "k < 256" by (rule le_less_trans[OF k(1) unat_u8_lt])
  have uk8: "unat k8 = k" using k256 by (simp add: k(5) unat_of_nat)
  have kw: "k8 = 0 \<longleftrightarrow> k = 0" using uk8 by (metis unsigned_eq_0_iff)
  have en: "length (en_name x) < 256" if "x \<in> set rest" for x
    using that unfolding rest_def dir_rest_def dir_meta_def
    by (auto simp: Let_def min_less_iff_disj split: if_splits option.splits sum.splits)
  have k0: "k = 0 \<longleftrightarrow> rest = []"
  proof
    assume z: "k = 0"
    show "rest = []"
    proof (rule ccontr)
      assume ne: "rest \<noteq> []"
      then have "length (enc_entry (hd rest)) > 1023" using k(2,7,8) z nn by auto
      moreover have "length (en_name (hd rest)) < 256" using en ne by simp
      ultimately show False by simp
    qed
  qed (use k(3) in simp)
  have uk: "(ucast (of_nat k :: byte) :: u16) = of_nat k"
    using uk8 unfolding k(5) by (metis of_nat_unat)
  show ?thesis
  proof (cases "k = 0")
    case True
    then show ?thesis using assms(4) e kw k k0 nn h by (intro conjI exI[of _ 0]) (auto simp: d'_def intro: exI[of _ 0])
  next
    case False
    then have "rest \<noteq> []" using k0 by simp
    then show ?thesis using assms(4) e kw k k0 nn h False
      by (intro conjI exI[of _ k] exI[of _ "if eof then 1 else 0"]) (auto simp: d'_def rp uk)
  qed
qed

section \<open>The change guard\<close>

lemma guard_open: "snd (snd (snd (h_open e pl s c))) = snd c"
  by (auto simp: h_open_def Let_def change_begin_refuses change_end_begin split: option.split sum.split)

lemma guard_pathop:
  "(\<And>p c. snd (snd (opr e p c)) = snd c) \<Longrightarrow> snd (snd (snd (h_pathop opr e pl s c))) = snd c"
proof -
  assume a: "\<And>p c. snd (snd (opr e p c)) = snd c"
  have "snd (snd (snd (case opr e p c of (None, c) \<Rightarrow> ([TNFS_OK], s, c) | (Some er, c) \<Rightarrow> ([errno_to_tnfs er], s, c)))) = snd c" for p
    using a[of p c] by (cases "opr e p c"; cases "fst (opr e p c)") auto
  then show ?thesis by (simp add: h_pathop_def split: option.split sum.split)
qed

lemma guard_unlink: "snd (snd (unlink_op e p c)) = snd c"
  by (simp add: unlink_op_def Let_def change_begin_refuses change_end_begin)

lemma guard_rename: "snd (snd (snd (h_rename e pl s c))) = snd c"
  by (auto simp: h_rename_def Let_def change_begin_refuses change_end_begin split: option.split sum.split)

lemma guard_opendir: "snd (snd (snd (open_dir_slot e p pat s c))) = snd c"
  by (simp add: open_dir_slot_def Let_def split: option.split sum.split prod.split)

lemma guard_opendirs: "snd (snd (snd (h_opendir e pl s c))) = snd c" "snd (snd (snd (h_opendirx e pl s c))) = snd c"
proof -
  have "snd (snd (snd (case open_dir_slot e p pat s c of (Inl st, s, c) \<Rightarrow> ([st], s, c)
      | (Inr (slot, ds), s, c) \<Rightarrow> (f slot ds, s, c)))) = snd c" for p pat f
    using guard_opendir[of e p pat s c] by (cases "open_dir_slot e p pat s c"; cases "fst (open_dir_slot e p pat s c)") auto
  then show "snd (snd (snd (h_opendir e pl s c))) = snd c" "snd (snd (snd (h_opendirx e pl s c))) = snd c"
    by (simp_all add: h_opendir_def h_opendirx_def split: option.split sum.split)
qed

lemma guard_io: "snd (snd (snd (h_read e pl s c))) = snd c" "snd (snd (snd (h_write e pl s c))) = snd c"
    "snd (snd (snd (h_close e pl s c))) = snd c" "snd (snd (snd (h_lseek e pl s c))) = snd c"
    "snd (snd (snd (h_stat e pl s c))) = snd c" "snd (snd (snd (h_readdir e pl s c))) = snd c"
    "snd (snd (snd (h_closedir e pl s c))) = snd c" "snd (snd (snd (h_ok e pl s c))) = snd c"
    "snd (snd (snd (h_enosys e pl s c))) = snd c"
  by (auto simp: h_read_def h_write_def h_close_def h_lseek_def h_stat_def h_readdir_def h_closedir_def h_ok_def h_enosys_def Let_def
      split: option.split sum.split)

lemma guard_readdirx: "snd (snd (snd (h_readdirx e pl s c))) = snd c"
  unfolding h_readdirx_def Let_def by (auto split: prod.split)

text \<open>Every handler gives back the lock it took.\<close>

lemma guard_released: "snd (snd (snd (handler cmd e pl s c))) = snd c"
  unfolding handler_def
  by (simp add: guard_io guard_opendirs guard_rename guard_open guard_readdirx guard_pathop guard_unlink
      mkdir_op_def rmdir_op_def)

section \<open>A file system to run on\<close>

record demo_w =
  dw_fds :: "(int \<times> string \<times> nat) list"
  dw_dirs :: "int list"
  dw_data :: "(string \<times> bytes) list"

definition dw_held :: "demo_w \<Rightarrow> handle set" where
  "dw_held w = Fd ` fst ` set (dw_fds w) \<union> Dir ` set (dw_dirs w)"

definition fresh :: "int list \<Rightarrow> int" where
  "fresh xs = 1 + fold max xs 2"

definition dw_file :: "string \<Rightarrow> demo_w \<Rightarrow> bytes" where
  "dw_file p w = (case map_of (dw_data w) p of Some d \<Rightarrow> d | None \<Rightarrow> [])"

definition dw_move :: "int \<Rightarrow> string \<Rightarrow> nat \<Rightarrow> demo_w \<Rightarrow> demo_w" where
  "dw_move fd p pos w = w\<lparr>dw_fds := map (\<lambda>x. if fst x = fd then (fd, p, pos) else x) (dw_fds w)\<rparr>"

definition demo_vfs :: "demo_w vfs" where
  "demo_vfs =
     \<lparr> v_open = (\<lambda>p fl w. if p \<in> fst ` set (dw_data w) \<or> o_creat fl
         then (let fd = fresh (map fst (dw_fds w))
               in (Inr fd, w\<lparr>dw_fds := (fd, p, 0) # dw_fds w,
                    dw_data := (if p \<in> fst ` set (dw_data w) then dw_data w else (p, []) # dw_data w)\<rparr>))
         else (Inl ENOENT, w)),
       v_read = (\<lambda>fd n w. case map_of (dw_fds w) fd of None \<Rightarrow> (Inl EBADF, w)
         | Some (p, pos) \<Rightarrow> (Inr (slice pos n (dw_file p w)), dw_move fd p (pos + length (slice pos n (dw_file p w))) w)),
       v_write = (\<lambda>fd b w. case map_of (dw_fds w) fd of None \<Rightarrow> (Inl EBADF, w)
         | Some (p, pos) \<Rightarrow> (Inr (length b),
             dw_move fd p (pos + length b) (w\<lparr>dw_data := AList.update p (overwrite pos b (dw_file p w)) (dw_data w)\<rparr>))),
       v_close = (\<lambda>fd w. w\<lparr>dw_fds := filter (\<lambda>x. fst x \<noteq> fd) (dw_fds w)\<rparr>),
       v_lseek = (\<lambda>fd off s w. case map_of (dw_fds w) fd of None \<Rightarrow> (Inl EBADF, w)
         | Some (p, pos) \<Rightarrow>
             (let t = (case s of SEEK_SET \<Rightarrow> 0 | SEEK_CUR \<Rightarrow> int pos | SEEK_END \<Rightarrow> int (length (dw_file p w))) + off
              in if t < 0 then (Inl EINVAL, w) else (Inr t, dw_move fd p (nat t) w))),
       v_stat = (\<lambda>p w. case map_of (dw_data w) p of None \<Rightarrow> Inl ENOENT
         | Some d \<Rightarrow> Inr \<lparr>st_mode = 0x8000, st_size = int (length d), st_mtime = 0\<rparr>),
       v_mkdir = (\<lambda>p w. (None, w)),
       v_rmdir = (\<lambda>p w. (None, w)),
       v_unlink = (\<lambda>p w. (None, w\<lparr>dw_data := filter (\<lambda>x. fst x \<noteq> p) (dw_data w)\<rparr>)),
       v_rename = (\<lambda>p q w. (None, w\<lparr>dw_data := map (\<lambda>x. if fst x = p then (q, snd x) else x) (dw_data w)\<rparr>)),
       v_opendir = (\<lambda>p w. let h = fresh (dw_dirs w)
         in (Inr (h, map (\<lambda>x. \<lparr>d_name = drop 4 (fst x), d_isdir = False\<rparr>) (dw_data w)), w\<lparr>dw_dirs := h # dw_dirs w\<rparr>)),
       v_closedir = (\<lambda>h w. w\<lparr>dw_dirs := filter (\<lambda>x. x \<noteq> h) (dw_dirs w)\<rparr>) \<rparr>"

lemma fold_max_ge: "a \<le> fold max xs (a :: int) \<and> (\<forall>x \<in> set xs. x \<le> fold max xs a)"
proof (induction xs arbitrary: a)
  case (Cons x xs)
  show ?case using Cons[of "max x a"] by auto
qed simp

lemma fresh_new: "fresh xs \<notin> set xs \<and> 0 \<le> fresh xs"
  using fold_max_ge[of 2 xs] by (auto simp: fresh_def)

lemma held_move [simp]: "dw_held (dw_move fd p pos w) = dw_held w"
proof -
  have "fst ` set (map (\<lambda>x. if fst x = fd then (fd, p, pos) else x) xs) = fst ` set xs" for xs
    by (induction xs) auto
  then show ?thesis by (simp add: dw_held_def dw_move_def)
qed

lemma held_data [simp]: "dw_held (w\<lparr>dw_data := x\<rparr>) = dw_held w"
  by (simp add: dw_held_def)

lemma held_open [simp]: "dw_held (w\<lparr>dw_fds := (fd, p, n) # dw_fds w\<rparr>) = insert (Fd fd) (dw_held w)"
  and held_opendir [simp]: "dw_held (w\<lparr>dw_dirs := h # dw_dirs w\<rparr>) = insert (Dir h) (dw_held w)"
  and held_close [simp]: "dw_held (w\<lparr>dw_fds := filter (\<lambda>x. fst x \<noteq> fd) (dw_fds w)\<rparr>) = dw_held w - {Fd fd}"
  and held_closedir [simp]: "dw_held (w\<lparr>dw_dirs := filter (\<lambda>x. x \<noteq> h) (dw_dirs w)\<rparr>) = dw_held w - {Dir h}"
  by (auto simp: dw_held_def)

lemma held_open_data [simp]: "dw_held (w\<lparr>dw_fds := f, dw_data := x\<rparr>) = dw_held (w\<lparr>dw_fds := f\<rparr>)"
  by (simp add: dw_held_def)

lemma dw_open_fresh: "Fd (fresh (map fst (dw_fds w))) \<notin> dw_held w" "Dir (fresh (dw_dirs w)) \<notin> dw_held w"
  using fresh_new[of "map fst (dw_fds w)"] fresh_new[of "dw_dirs w"] by (auto simp: dw_held_def)

lemma demo_laws: "vfs_laws demo_vfs dw_held"
  unfolding vfs_laws_def
proof (intro conjI allI impI)
  fix p fl w fd w' assume "v_open demo_vfs p fl w = (Inr fd, w')"
  then show "0 \<le> fd" "Fd fd \<notin> dw_held w" "dw_held w' = insert (Fd fd) (dw_held w)"
    using fresh_new[of "map fst (dw_fds w)"] dw_open_fresh[of w]
    by (auto simp: demo_vfs_def Let_def split: if_splits)
next
  fix p w h es w' assume "v_opendir demo_vfs p w = (Inr (h, es), w')"
  then show "Dir h \<notin> dw_held w" "dw_held w' = insert (Dir h) (dw_held w)"
    using dw_open_fresh[of w] by (auto simp: demo_vfs_def Let_def)
qed (auto simp: demo_vfs_def Let_def split: if_splits option.splits prod.splits)

definition demo_tn :: "demo_w tn_env" where
  "demo_tn = \<lparr>te_fs = demo_vfs, te_disk = demo_env\<rparr>"

definition demo_card :: demo_w where
  "demo_card = \<lparr>dw_fds = [(0, ''/dev/console'', 0)], dw_dirs = [], dw_data = [(''/sd/A.DSK'', [1, 2, 3]), (''/sd/B.DSK'', [9])]\<rparr>"

text \<open>One client, 1.2.3.4:5, mounted with session id 7.\<close>

definition demo_session :: session where
  "demo_session = session0\<lparr>se_in_use := True, se_sid := 7, se_peer := (0x01020304, 5)\<rparr>"

definition demo_td :: "demo_w tnfsd" where
  "demo_td = \<lparr>td_sessions = [demo_session, session0], td_next_sid = 8, td_fs = demo_card, td_disk = disk_boot demo_files, td_out = []\<rparr>"

lemma demo_session_wf: "session_wf demo_session" "owned demo_session = []" "reply_ok demo_session"
  using session0_wf owned_session0 by (simp_all add: demo_session_def session_wf_def owned_def reply_ok_def session0_def session_zero_def)

lemma demo_td_inv: "srv_inv dw_held (dw_held demo_card) demo_td" "cache_inv demo_td"
  using demo_session_wf by (simp_all add: srv_inv_def srv_own_def sids_ok_def demo_td_def cache_inv_def)
    (simp_all add: demo_session_def)

section \<open>A run of the task\<close>

text \<open>The server after whole periods of the link and then the turns \<open>evs\<close> of the current one.\<close>

definition tnfsd_after :: "'w tn_env \<Rightarrow> (bool \<times> (int \<times> int \<times> (sockaddr \<times> bytes) option) list) list \<Rightarrow>
    (int \<times> int \<times> (sockaddr \<times> bytes) option) list \<Rightarrow> 'w \<Rightarrow> disk_state \<Rightarrow> 'w tnfsd" where
  "tnfsd_after e periods evs w dk = fold (serve_step e) evs (tnfsd_task e periods (tnfsd_statics w dk))"

lemma after_inv:
  assumes "vfs_laws (te_fs e) held"
  shows "srv_inv held (held w - {Fd 0}) (tnfsd_after e periods evs w dk)"
  unfolding tnfsd_after_def by (rule srv_inv_run[OF assms srv_inv_task[OF assms]])

lemma cache_inv_run:
  assumes "vfs_laws (te_fs e) held"
  shows "srv_inv held B st \<Longrightarrow> cache_inv st \<Longrightarrow> cache_inv (fold (serve_step e) evs st)"
  by (induction evs arbitrary: st) (simp_all add: cache_inv_step[OF assms] srv_inv_step[OF assms])

lemma cache_inv_drop: "cache_inv st \<Longrightarrow> cache_inv (drop_all_sessions e st)"
  unfolding drop_all_sessions_def upto2 by (simp add: cache_inv_free)

lemma after_cache:
  assumes "vfs_laws (te_fs e) held"
  shows "cache_inv (tnfsd_after e periods evs w dk)"
proof -
  have c: "cache_inv (fold (\<lambda>(ok, evs). serve e ok evs) periods st)" if "srv_inv held B st" "cache_inv st" for B st
    using that
  proof (induction periods arbitrary: st)
    case (Cons p ps)
    obtain ok evs where p: "p = (ok, evs)" by (cases p)
    have "cache_inv (serve e ok evs st)"
      using Cons.prems cache_inv_run[OF assms] by (simp add: serve_def cache_inv_drop)
    then show ?case using Cons srv_inv_serve[OF assms Cons.prems(1), of ok evs] by (simp add: p)
  qed simp
  have "replicate 2 session_zero = [session_zero, session_zero]" by (simp add: numeral_2_eq_2)
  then have "cache_inv (tnfsd_start e (tnfsd_statics w dk))"
    by (simp add: cache_inv_def tnfsd_start_def upto2 tnfsd_statics_def)
  then have "cache_inv (tnfsd_task e periods (tnfsd_statics w dk))"
    unfolding tnfsd_task_def by (rule c[OF srv_inv_start[OF assms]])
  then show ?thesis unfolding tnfsd_after_def using cache_inv_run[OF assms srv_inv_task[OF assms]] by blast
qed

text \<open>The session's reply repeats the request's first four bytes.\<close>

lemma header_echo:
  assumes "well_formed m"
  shows "tnfs_wr16 (tnfs_rd16 m) @ m ! 2 # m ! 3 # body = take 4 m @ body"
proof -
  have "take 4 m = take 2 m @ [m ! 2, m ! 3]"
    using assms take_Suc_conv_app_nth[of 3 m] take_Suc_conv_app_nth[of 2 m]
    by (simp add: well_formed_def numeral_eq_Suc)
  then show ?thesis using assms by (simp add: wr16_rd16 well_formed_def)
qed

lemma serve_reply:
  assumes "vfs_laws (te_fs e) held" "srv_inv held B st" "cache_inv st" "well_formed m" "m ! 3 \<noteq> TNFS_MOUNT"
  shows "td_out (serve_step e (t0, now, Some (p, m)) st) = td_out st \<or>
    (\<exists>body. td_out (serve_step e (t0, now, Some (p, m)) st) = td_out st @ [(p, take 4 m @ body)] \<and>
       1 \<le> length body \<and> length body \<le> 1028)"
proof -
  let ?r = "reap_idle e t0 st"
  have l: "length (td_sessions st) = 2" by (rule srv_inv_len[OF assms(2)])
  have fi: "i < 2 \<and> se_sid (td_sessions ?r ! i) = tnfs_rd16 m \<and> se_peer (td_sessions ?r ! i) = p \<and>
      session_wf (td_sessions ?r ! i) \<and> reply_ok (td_sessions ?r ! i)"
    if "find_session (tnfs_rd16 m) p ?r = Some i" for i
    using find_session_Some[OF that] l srv_inv_reap[OF assms(1,2), of t0] cache_inv_reap[OF assms(3), of e t0]
    by (simp add: srv_inv_def srv_own_def cache_inv_def)
  have n: "take 1032 m ! 2 = m ! 2" "take 1032 m ! 3 = m ! 3" "tnfs_rd16 (take 1032 m) = tnfs_rd16 m" "\<not> min (length m) 1032 < 4"
    using assms(4) by (simp_all add: well_formed_def tnfs_rd16_def)
  show ?thesis
  proof (cases "find_session (tnfs_rd16 m) p ?r")
    case None
    then show ?thesis by (simp add: serve_step_def Let_def n assms(5))
  next
    case (Some i)
    note f = fi[OF Some]
    show ?thesis
    proof (cases "se_have_reply (td_sessions ?r ! i) \<and> se_seq (td_sessions ?r ! i) = m ! 2 \<and> se_cmd (td_sessions ?r ! i) = m ! 3")
      case True
      then have "serve_step e (t0, now, Some (p, m)) st = resend now i ?r" by (simp add: serve_step_def Let_def n assms(5) Some)
      moreover obtain body where "se_reply (td_sessions ?r ! i) = take 4 m @ body" "1 \<le> length body" "length body \<le> 1028"
        using f True by (auto simp: reply_ok_def header_echo[OF assms(4)])
      ultimately show ?thesis using f by (auto simp: resend_def upd_session_def send_to_def)
    next
      case False
      then have s: "serve_step e (t0, now, Some (p, m)) st = process e now i (m ! 2) (m ! 3) (take 1032 m) ?r"
        by (auto simp: serve_step_def Let_def n assms(5) Some)
      obtain body s c where h: "handler (m ! 3) e (drop 4 (take 1032 m)) (td_sessions ?r ! i) (td_fs ?r, td_disk ?r) = (body, s, c)"
        by (metis surj_pair)
      have wf: "session_wf (td_sessions ?r ! i)" and il: "i < length (td_sessions ?r)" using f l by simp_all
      have b: "1 \<le> length body" "length body \<le> 1028" using any_h.reply_fits[OF assms(1) wf h] by (simp_all add: Suc_le_eq)
      have "se_sid s = tnfs_rd16 m" "se_peer s = p"
        using any_h.keeps_identity[OF assms(1) wf h] f by (simp_all add: same_ident_def)
      then have "td_out (process e now i (m ! 2) (m ! 3) (take 1032 m) ?r) = td_out st @ [(p, take 4 m @ body)]"
        unfolding process_eq[OF assms(1) wf il] h using header_echo[OF assms(4), of body] by (auto simp: answered_def)
      then show ?thesis unfolding s using b by blast
    qed
  qed
qed

text \<open>A client of another address.\<close>

lemma step_isolated:
  assumes "vfs_laws (te_fs e) held" "srv_inv held B st" "j < 2"
    "se_in_use (td_sessions (reap_idle e t0 st) ! j)" "se_peer (td_sessions (reap_idle e t0 st) ! j) \<noteq> p"
  shows "td_sessions (serve_step e (t0, now, Some (p, m)) st) ! j = td_sessions (reap_idle e t0 st) ! j"
proof -
  let ?r = "reap_idle e t0 st"
  have l: "length (td_sessions st) = 2" by (rule srv_inv_len[OF assms(2)])
  have nf: "i < 2 \<and> i \<noteq> j" if "find_session x p ?r = Some i" for i x
    using find_session_Some[OF that] l assms(5) by auto
  have rs: "td_sessions (resend now i ?r) ! j = td_sessions ?r ! j" if "i \<noteq> j" for i
    using that by (simp add: resend_def upd_session_def send_to_def)
  from l show ?thesis
  proof (cases rule: serve_step_cases[of st e t0 now "Some (p, m)"])
    case (again p' m' i)
    then show ?thesis using nf rs by auto
  next
    case (run p' m' i)
    then have i: "i < 2" "i \<noteq> j" using nf by auto
    have wf: "session_wf (td_sessions ?r ! i)" using srv_inv_reap[OF assms(1,2), of t0] i by (simp add: srv_inv_def srv_own_def)
    have il: "i < length (td_sessions ?r)" using i l by simp
    show ?thesis unfolding run(5) process_eq[OF assms(1) wf il] using i by (simp add: answered_def split: prod.split)
  next
    case (mount p' m')
    have pp: "p' = p" using mount(1) by simp
    have lr: "length (td_sessions ?r) = 2" using l by simp
    from lr show ?thesis unfolding mount(4)
    proof (cases rule: handle_mount_cases[of ?r "m' ! 2" p' e now "take 1032 m'"])
      case (replay i)
      then have "i \<noteq> j" using assms(5) pp by (auto simp: mount_replay_def same_peer_def prod_eq_iff)
      then show "td_sessions (handle_mount e now (m' ! 2) (take 1032 m') p' ?r) ! j = td_sessions ?r ! j"
        using replay rs by simp
    next
      case full
      then show "td_sessions (handle_mount e now (m' ! 2) (take 1032 m') p' ?r) ! j = td_sessions ?r ! j"
        by (simp add: send_to_def)
    next
      case (mount i sid nxt)
      then have "i \<noteq> j" using assms(4) by auto
      then show "td_sessions (handle_mount e now (m' ! 2) (take 1032 m') p' ?r) ! j = td_sessions ?r ! j"
        unfolding mount(6) by (simp add: mounted_state_def)
    qed
  qed simp
qed

section \<open>Properties\<close>

lemma demo_tn_laws: "vfs_laws (te_fs demo_tn) dw_held"
  by (simp add: demo_tn_def demo_laws)

text \<open>
  C7. The server leaks no descriptor: whatever datagrams arrive over whatever periods of the
  link, its two sessions own disjoint files and directories, what the file system holds is
  exactly these and everybody else's, and when the sessions are dropped it holds what it
  held at boot, except descriptor 0, which the task closes when it first clears its zeroed
  session table.
\<close>

theorem server_descriptors:
  assumes "vfs_laws (te_fs e) held"
  shows "srv_own (held w - {Fd 0}) (td_sessions (tnfsd_after e periods evs w dk)) (held (td_fs (tnfsd_after e periods evs w dk))) \<and>
    held (td_fs (drop_all_sessions e (tnfsd_after e periods evs w dk))) = held w - {Fd 0}"
  using after_inv[OF assms] held_drop_all[OF assms after_inv[OF assms]] by (simp add: srv_inv_def)

theorem server_descriptors_witness:
  "dw_held (td_fs (drop_all_sessions demo_tn (tnfsd_after demo_tn []
     [(0, 0, Some ((1, 5), [0, 0, 1, 0, 2, 1, 0x2F, 0, 0, 0])),
      (9, 9, Some ((1, 5), [1, 0, 2, 0x29, 1, 0, 0, 0] @ ascii ''A.DSK'' @ [0]))]
     demo_card (disk_boot demo_files)))) = {}"
proof -
  have "dw_held demo_card - {Fd 0} = {}" by (simp add: dw_held_def demo_card_def)
  then show ?thesis using server_descriptors[OF demo_tn_laws] by blast
qed



text \<open>
  C13. Clients are isolated: a datagram changes no session of another address, and what a
  request is answered goes to its sender, repeats the request's session, sequence number
  and command, and fits a datagram (no reply is ever cut).
\<close>

theorem clients_isolated:
  assumes "vfs_laws (te_fs e) held" "st = tnfsd_after e periods evs w dk" "well_formed m"
  shows "(\<forall>j<2. se_in_use (td_sessions (reap_idle e ta st) ! j) \<and> se_peer (td_sessions (reap_idle e ta st) ! j) \<noteq> p \<longrightarrow>
      td_sessions (serve_step e (ta, na, Some (p, m)) st) ! j = td_sessions (reap_idle e ta st) ! j) \<and>
    (m ! 3 \<noteq> TNFS_MOUNT \<longrightarrow> td_out (serve_step e (ta, na, Some (p, m)) st) = td_out st \<or>
      (\<exists>body. td_out (serve_step e (ta, na, Some (p, m)) st) = td_out st @ [(p, take 4 m @ body)] \<and>
        1 \<le> length body \<and> length body \<le> 1028))"
proof -
  have i: "srv_inv held (held w - {Fd 0}) st" "cache_inv st"
    unfolding assms(2) by (rule after_inv[OF assms(1)] after_cache[OF assms(1)])+
  show ?thesis using step_isolated[OF assms(1) i(1)] serve_reply[OF assms(1) i assms(3)] by blast
qed

theorem clients_isolated_witness:
  "let st = tnfsd_after demo_tn [] [(0, 0, Some ((1, 5), [0, 0, 1, 0, 2, 1, 0x2F, 0, 0, 0]))] demo_card (disk_boot demo_files);
       m = [1, 0, 2, 0x23, 0]
   in td_out (serve_step demo_tn (9, 9, Some ((2, 6), m)) st) = td_out st \<or>
      (\<exists>body. td_out (serve_step demo_tn (9, 9, Some ((2, 6), m)) st) = td_out st @ [((2, 6), take 4 m @ body)])"
proof -
  let ?m = "[1, 0, 2, 0x23, 0] :: bytes"
  have m: "well_formed ?m" "?m ! 3 \<noteq> TNFS_MOUNT" by (simp_all add: well_formed_def)
  show ?thesis unfolding Let_def
    using clients_isolated[OF demo_tn_laws refl m(1), where ta = 9 and na = 9 and p = "(2, 6)"] m(2) by meson
qed



text \<open>
  C18. A listing shows every entry once: each READDIRX answers with the next entries still to
  be shown, in order and as many as were asked for or fit, never skipping or repeating one
  (the one that did not fit comes first in the next answer); it reports the end only when
  nothing is left, and an empty rest with the end-of-file status.
\<close>

theorem listing_streams:
  assumes "session_wf s" "2 \<le> length pl" "\<not> dir_bad s (pl ! 0)" "h_readdirx e pl s c = (body, s', c')"
    and "d = se_dirs s ! unat (pl ! 0)" "d' = se_dirs s' ! unat (pl ! 0)" "rest = dir_rest (te_fs e) (fst c) d"
  shows "c' = c \<and> (\<exists>k f. k \<le> length rest \<and> (k = 0 \<longleftrightarrow> rest = []) \<and> k \<le> max 1 (unat (pl ! 1)) \<and>
    dir_rest (te_fs e) (fst c) d' = drop k rest \<and> (f = 1 \<longrightarrow> drop k rest = []) \<and>
    (if rest = [] then body = [TNFS_EOF]
     else body = [TNFS_OK, of_nat k, f] @ tnfs_wr16 (ds_pos d) @ concat (map enc_entry (take k rest)) \<and>
       ds_pos d' = ds_pos d + of_nat k))"
  unfolding assms(5-7) by (rule h_readdirx_stream[OF assms(1-4)])

theorem listing_streams_witness:
  "let c = (demo_card, disk_boot demo_files);
       d = dirslot0\<lparr>ds_in_use := True, ds_dir := Some \<lparr>dh_id = 3, dh_all = [], dh_left = [\<lparr>d_name = ''.X'', d_isdir = False\<rparr>, \<lparr>d_name = ''A.DSK'', d_isdir = False\<rparr>]\<rparr>, ds_abspath := ''/sd''\<rparr>;
       s = demo_session\<lparr>se_dirs := [d, dirslot0]\<rparr>;
       rest = dir_rest demo_vfs demo_card d
   in length rest = 1 \<and> (\<exists>f. fst (h_readdirx demo_tn [0, 5] s c) = [0, 1, f, 0, 0] @ enc_entry (hd rest))"
proof -
  define c where "c = (demo_card, disk_boot demo_files)"
  define d where "d = dirslot0\<lparr>ds_in_use := True, ds_dir := Some \<lparr>dh_id = 3, dh_all = [], dh_left = [\<lparr>d_name = ''.X'', d_isdir = False\<rparr>, \<lparr>d_name = ''A.DSK'', d_isdir = False\<rparr>]\<rparr>, ds_abspath := ''/sd''\<rparr>"
  define s where "s = demo_session\<lparr>se_dirs := [d, dirslot0]\<rparr>"
  define r where "r = dir_rest demo_vfs demo_card d"
  have l: "length r = 1" by (simp add: r_def d_def dir_rest_def dirslot0_def visible_def)
  have wf: "session_wf s" using demo_session_wf(1) by (simp add: s_def d_def session_wf_def slot_shape_def dirslot0_def)
  have nb: "\<not> dir_bad s ([0, 5] ! 0)" by (simp add: s_def d_def dir_bad_def)
  obtain body s' c' where h: "h_readdirx demo_tn [0, 5] s c = (body, s', c')" by (metis surj_pair)
  have d: "d = se_dirs s ! unat ([0 :: byte, 5] ! 0)" "r = dir_rest (te_fs demo_tn) (fst c) d" "ds_pos d = 0"
    by (simp_all add: s_def d_def c_def r_def demo_tn_def dirslot0_def)
  have "r \<noteq> []" using l by auto
  moreover obtain k f where "k \<le> length r" "k = 0 \<longleftrightarrow> r = []"
    "if r = [] then body = [0x21] else body = [0, of_nat k, f] @ tnfs_wr16 (ds_pos d) @ concat (map enc_entry (take k r)) \<and>
       ds_pos (se_dirs s' ! unat ([0 :: byte, 5] ! 0)) = ds_pos d + of_nat k"
    using listing_streams[OF wf _ nb h d(1) refl d(2)] by auto
  ultimately have k: "k = 1" "body = [0, of_nat k, f] @ tnfs_wr16 0 @ concat (map enc_entry (take k r))"
    using l d(3) by auto
  obtain x where x: "r = [x]" using l by (auto simp: length_Suc_conv)
  have "body = [0, 1, f, 0, 0] @ enc_entry (hd r)" using k by (simp add: x tnfs_wr16_def)
  then have "fst (h_readdirx demo_tn [0, 5] s c) = [0, 1, f, 0, 0] @ enc_entry (hd r)" unfolding h fst_conv .
  then show ?thesis unfolding Let_def c_def[symmetric] d_def[symmetric] s_def[symmetric] r_def[symmetric] using l by blast
qed



lemma sid_loop_more: "sid_loop f t n = Some r \<Longrightarrow> sid_loop (f + k) t n = Some r"
proof (induction f arbitrary: n)
  case (Suc f)
  show ?case
  proof (cases "n = 0 \<or> n \<in> set t")
    case True
    then have "sid_loop f t (n + 1) = Some r" using Suc.prems by (auto simp: Let_def split: if_splits)
    then have "sid_loop (f + k) t (n + 1) = Some r" by (rule Suc.IH)
    then show ?thesis using True by (auto simp: Let_def)
  next
    case False
    then show ?thesis using Suc.prems by (auto simp: Let_def)
  qed
qed simp

text \<open>
  The search for a session id ends: with the two sessions of the table at most four
  candidates are looked at (the counter may pass zero and the ids of both sessions), so any
  larger number of rounds gives the same id, which is not zero and belongs to no session.
\<close>

theorem session_id_search_ends:
  assumes "length (td_sessions st) = 2"
  shows "\<exists>sid nxt. (\<forall>rounds \<ge> 4. sid_loop rounds (map se_sid (filter se_in_use (td_sessions st))) (td_next_sid st) = Some (sid, nxt)) \<and>
    next_sid st = Some (sid, st\<lparr>td_next_sid := nxt\<rparr>) \<and> sid \<noteq> 0 \<and>
    (\<forall>s \<in> set (td_sessions st). se_in_use s \<longrightarrow> se_sid s \<noteq> sid)"
proof -
  let ?t = "map se_sid (filter se_in_use (td_sessions st))"
  obtain sid nxt where n: "next_sid st = Some (sid, st\<lparr>td_next_sid := nxt\<rparr>)" "sid \<noteq> 0"
    "\<forall>s \<in> set (td_sessions st). se_in_use s \<longrightarrow> se_sid s \<noteq> sid" using next_sid_total[OF assms] by blast
  obtain c m where cm: "sid_loop 4 ?t (td_next_sid st) = Some (c, m)" using n(1) by (auto simp: next_sid_def split: option.splits)
  then have "next_sid st = Some (c, st\<lparr>td_next_sid := m\<rparr>)" by (simp add: next_sid_def)
  then have "c = sid" using n(1) by simp
  then have "sid_loop rounds ?t (td_next_sid st) = Some (sid, m)" if "4 \<le> rounds" for rounds
    using sid_loop_more[OF cm, of "rounds - 4"] that \<open>c = sid\<close> by simp
  moreover have "next_sid st = Some (sid, st\<lparr>td_next_sid := m\<rparr>)"
    using \<open>next_sid st = Some (c, st\<lparr>td_next_sid := m\<rparr>)\<close> \<open>c = sid\<close> by simp
  ultimately show ?thesis using n(2,3) by blast
qed

theorem session_id_search_ends_witness:
  "let st = demo_td\<lparr>td_sessions := [demo_session\<lparr>se_sid := 65535\<rparr>, demo_session\<lparr>se_sid := 1\<rparr>], td_next_sid := 65535\<rparr>
   in sid_loop 4 [65535, 1] 65535 = Some (2, 3) \<and> (\<exists>sid nxt. next_sid st = Some (sid, st\<lparr>td_next_sid := nxt\<rparr>) \<and> sid \<noteq> 0)"
proof -
  let ?st = "demo_td\<lparr>td_sessions := [demo_session\<lparr>se_sid := 65535\<rparr>, demo_session\<lparr>se_sid := 1\<rparr>], td_next_sid := 65535\<rparr>"
  have "length (td_sessions ?st) = 2" by simp
  from session_id_search_ends[OF this] have "\<exists>sid nxt. next_sid ?st = Some (sid, ?st\<lparr>td_next_sid := nxt\<rparr>) \<and> sid \<noteq> 0" by blast
  moreover have "sid_loop 4 [65535, 1] 65535 = Some (2, 3)" by code_simp
  ultimately show ?thesis unfolding Let_def by blast
qed

end
