(* ===== verification/TnfsFraming.thy ===== *)
theory TnfsFraming
  imports TnfsTransfer TnfsServerSpec
begin

text \<open>
  How the client delimits replies: on a stream the end of each reply is found from its own
  fields, however the stream is cut into chunks; on datagrams a reply is accepted only for the
  request's sequence number and command. And the entries the server encodes are the entries the
  client decodes.
\<close>

section \<open>Reading a stream\<close>

text \<open>
  A stream of non-empty chunks that starts with \<open>d\<close> and goes on with \<open>r\<close>; a framing step takes
  \<open>d\<close> from it.
\<close>

definition chunks :: "bytes list \<Rightarrow> bytes \<Rightarrow> bool" where
  "chunks q d \<longleftrightarrow> [] \<notin> set q \<and> concat q = d"

definition takes :: "frame_step \<Rightarrow> bytes \<Rightarrow> bytes \<Rightarrow> bool" where
  "takes a b d \<longleftrightarrow> (\<forall>q r. chunks q (d @ r) \<longrightarrow> (\<exists>q'. a (b, q) = (ESP_OK, b @ d, q') \<and> chunks q' r))"

lemma tcp_read_exact_chunks:
  assumes "chunks q (d @ r)"
  shows "\<exists>q'. tcp_read_exact q (length d) = (d, q', True) \<and> chunks q' r"
  using assms
proof (induction q arbitrary: d)
  case Nil
  then show ?case by (simp add: chunks_def tcp_read_exact.simps)
next
  case (Cons c q)
  show ?case
  proof (cases "d = []")
    case True
    then show ?thesis using Cons.prems by (simp add: tcp_read_exact.simps)
  next
    case False
    have c: "c \<noteq> []" "[] \<notin> set q" "c @ concat q = d @ r" using Cons.prems by (auto simp: chunks_def)
    then obtain u where "c = d @ u \<and> u @ concat q = r \<or> c @ u = d \<and> concat q = u @ r" by (auto simp: append_eq_append_conv2)
    then consider (more) "u \<noteq> []" "c = d @ u" "u @ concat q = r" | (less) e where "d = c @ e" "concat q = e @ r"
      by (cases "u = []") auto
    then show ?thesis
    proof cases
      case more
      then show ?thesis using False c by (auto simp: tcp_read_exact.simps[of "(d @ u) # q"] chunks_def)
    next
      case (less e)
      obtain q' where "tcp_read_exact q (length e) = (e, q', True)" "chunks q' r"
        using Cons.IH[of e] c(2) less by (auto simp: chunks_def)
      then show ?thesis using False c(1) by (simp add: tcp_read_exact.simps[of "c # q"] less(1))
    qed
  qed
qed

lemma takes_take: "length d = n \<Longrightarrow> takes (tcp_take n) b d"
  unfolding takes_def tcp_take_def using tcp_read_exact_chunks by fastforce

lemma takes_then: "takes a b d \<Longrightarrow> takes a' (b @ d) d' \<Longrightarrow> takes (then_do a a') b (d @ d')"
  unfolding takes_def then_do_def by fastforce

lemma takes_nothing: "takes (\<lambda>fr. (ESP_OK, fr)) b []"
  by (simp add: takes_def)

text \<open>A name with its NUL, then the entries of a READDIRX reply.\<close>

lemma takes_cstr:
  "0 \<notin> set nm \<Longrightarrow> length nm < room \<Longrightarrow> takes (tcp_cstr room) b (nm @ [0])"
proof (induction nm arbitrary: room b)
  case Nil
  then obtain m where m: "room = Suc m" by (cases room) auto
  show ?case using takes_take[of "[0]" 1 b] unfolding takes_def m by fastforce
next
  case (Cons x nm)
  then obtain m where m: "room = Suc m" "length nm < m" by (cases room) auto
  have x: "x \<noteq> 0" using Cons.prems by auto
  have i: "takes (tcp_cstr m) (b @ [x]) (nm @ [0])" using Cons m by simp
  show ?case unfolding takes_def
  proof (intro allI impI)
    fix q r assume "chunks q (((x # nm) @ [0]) @ r)"
    then have "chunks q ([x] @ (nm @ [0] @ r))" by simp
    then obtain q1 where q1: "tcp_take 1 (b, q) = (ESP_OK, b @ [x], q1)" "chunks q1 ((nm @ [0]) @ r)"
      using takes_take[of "[x]" 1 b] unfolding takes_def by fastforce
    obtain q2 where "tcp_cstr m (b @ [x], q1) = (ESP_OK, (b @ [x]) @ nm @ [0], q2)" "chunks q2 r"
      using i q1(2) unfolding takes_def by blast
    then show "\<exists>q'. tcp_cstr room (b, q) = (ESP_OK, b @ (x # nm) @ [0], q') \<and> chunks q' r"
      using q1(1) x by (simp add: m(1))
  qed
qed

lemma takes_name: "0 \<notin> set nm \<Longrightarrow> length b + length nm < TNFS_MSG_CAP \<Longrightarrow> takes tcp_name b (nm @ [0])"
  using takes_cstr[of nm "TNFS_MSG_CAP - length b" b] by (simp add: takes_def tcp_name_def)

definition raw_entry :: "bytes \<times> bytes \<Rightarrow> bytes" where
  "raw_entry en = fst en @ snd en @ [0]"

definition raw_ok :: "bytes \<times> bytes \<Rightarrow> bool" where
  "raw_ok en \<longleftrightarrow> length (fst en) = 13 \<and> 0 \<notin> set (snd en)"

lemma length_raw [simp]: "length (raw_entry en) = length (fst en) + length (snd en) + 1"
  by (simp add: raw_entry_def)

lemma takes_dirents:
  "\<forall>en \<in> set es. raw_ok en \<Longrightarrow> length b + length (concat (map raw_entry es)) \<le> TNFS_MSG_CAP \<Longrightarrow>
   takes (tcp_dirents (length es)) b (concat (map raw_entry es))"
proof (induction es arbitrary: b)
  case Nil
  then show ?case by (simp add: takes_def)
next
  case (Cons en es)
  have o: "length (fst en) = 13" "0 \<notin> set (snd en)" using Cons.prems(1) by (simp_all add: raw_ok_def)
  have l: "length b + 13 + length (snd en) + 1 + length (concat (map raw_entry es)) \<le> 1032"
    using Cons.prems(2) o by simp
  have e: "takes (then_do (tcp_take 13) tcp_name) b (raw_entry en)" unfolding raw_entry_def
    by (rule takes_then[OF takes_take[OF o(1)] takes_name[OF o(2)]]) (use l o in simp)
  have r: "takes (tcp_dirents (length es)) (b @ raw_entry en) (concat (map raw_entry es))"
    by (rule Cons.IH) (use Cons.prems l o in simp_all)
  have "takes (then_do (then_do (tcp_take 13) tcp_name) (tcp_dirents (length es))) b (raw_entry en @ concat (map raw_entry es))"
    by (rule takes_then[OF e r])
  then show ?case using l by (simp add: takes_def)
qed

section \<open>Replies\<close>

text \<open>
  The replies of the protocol after their four header bytes and the status, as the client
  expects them: the retry time of a busy server, nothing after an error, and after a success
  the fields of the command.
\<close>

inductive reply_tail :: "byte \<Rightarrow> byte \<Rightarrow> bytes \<Rightarrow> bool" where
  busy: "length t = 2 \<Longrightarrow> reply_tail cmd TNFS_EAGAIN t"
| error: "st \<noteq> TNFS_OK \<Longrightarrow> st \<noteq> TNFS_EAGAIN \<Longrightarrow> \<not> (cmd = TNFS_READ \<and> st = TNFS_EOF) \<Longrightarrow> reply_tail cmd st []"
| read: "st = TNFS_OK \<or> st = TNFS_EOF \<Longrightarrow> length d \<le> 1025 \<Longrightarrow> reply_tail TNFS_READ st (tnfs_wr16 (of_nat (length d)) @ d)"
| name: "0 \<notin> set nm \<Longrightarrow> length nm < 1027 \<Longrightarrow> reply_tail TNFS_READDIR TNFS_OK (nm @ [0])"
| entries: "\<forall>en \<in> set es. raw_ok en \<Longrightarrow> length es < 256 \<Longrightarrow> length (concat (map raw_entry es)) \<le> 1023 \<Longrightarrow> length p = 3 \<Longrightarrow>
    reply_tail TNFS_READDIRX TNFS_OK (of_nat (length es) # p @ concat (map raw_entry es))"
| fixed: "cmd \<noteq> TNFS_READ \<Longrightarrow> cmd \<noteq> TNFS_READDIR \<Longrightarrow> cmd \<noteq> TNFS_READDIRX \<Longrightarrow> length t = tcp_extra cmd \<Longrightarrow> reply_tail cmd TNFS_OK t"

lemma takes_body:
  assumes "reply_tail cmd st t" "length h = 4"
  shows "takes (tcp_body cmd) (h @ [st]) t"
  using assms(1)
proof cases
  case busy
  then show ?thesis using takes_take[of t 2 "h @ [st]"] assms(2) by (simp add: takes_def tcp_body_def nth_append)
next
  case error
  then show ?thesis using assms(2) by (simp add: takes_def tcp_body_def nth_append)
next
  case (read d)
  have u: "unat (of_nat (length d) :: u16) = length d" using read by (intro unat_u16_of_nat) simp
  let ?b = "h @ [st]" and ?c = "tnfs_wr16 (of_nat (length d) :: u16)"
  have "takes tcp_read_data (?b @ ?c) d"
  proof (cases "d = []")
    case True
    then show ?thesis using assms(2) u by (simp add: takes_def tcp_read_data_def)
  next
    case False
    then show ?thesis using takes_take[of d "length d" "?b @ ?c"] read assms(2) u
      by (simp add: takes_def tcp_read_data_def Let_def)
  qed
  then have "takes (then_do (tcp_take 2) tcp_read_data) ?b (?c @ d)" by (intro takes_then takes_take) simp_all
  then show ?thesis using read assms(2) by (auto simp: takes_def tcp_body_def nth_append tcp_extra_def)
next
  case (name nm)
  have "takes tcp_name (h @ [st]) t" unfolding name(3) by (rule takes_name) (use name assms(2) in simp_all)
  then show ?thesis using name assms(2) by (simp add: takes_def tcp_body_def nth_append tcp_extra_def then_do_def)
next
  case (entries es p)
  have u: "unat (of_nat (length es) :: byte) = length es" using entries by (simp add: unat_of_nat)
  let ?f = "of_nat (length es) # p" and ?b = "h @ [st]"
  have "takes (\<lambda>fr. tcp_dirents (unat (fst fr ! 5)) fr) (?b @ ?f) (concat (map raw_entry es))"
    using takes_dirents[of es "?b @ ?f"] entries assms(2) u by (simp add: takes_def nth_append)
  then have "takes (then_do (tcp_take 4) (\<lambda>fr. tcp_dirents (unat (fst fr ! 5)) fr)) ?b (?f @ concat (map raw_entry es))"
    by (intro takes_then takes_take) (simp_all add: entries)
  then show ?thesis using entries assms(2) by (simp add: takes_def tcp_body_def nth_append tcp_extra_def then_do_def)
next
  case fixed
  show ?thesis
  proof (cases "tcp_extra cmd = 0")
    case True
    then show ?thesis using fixed assms(2) by (simp add: takes_def tcp_body_def nth_append then_do_def)
  next
    case False
    then show ?thesis using takes_then[OF takes_take[of t "tcp_extra cmd" "h @ [st]"] takes_nothing] fixed assms(2)
      by (simp add: takes_def tcp_body_def nth_append)
  qed
qed



section \<open>Datagrams\<close>

text \<open>
  On a datagram socket the client takes the first datagram that carries the request's
  sequence number and command, cut to the buffer, and drops those before it; when none does it
  drops them all and the response of an earlier command is not touched.
\<close>

definition answers :: "byte \<Rightarrow> byte \<Rightarrow> bytes \<Rightarrow> bool" where
  "answers s cmd d \<longleftrightarrow> 5 \<le> length d \<and> d ! 2 = s \<and> d ! 3 = cmd"

lemma udp_scan_find:
  "udp_scan q s cmd = (case dropWhile (\<lambda>d. \<not> answers s cmd d) q of [] \<Rightarrow> (None, []) | d # r \<Rightarrow> (Some (take TNFS_MSG_CAP d), r))"
  by (induction q) (auto simp: answers_def Let_def min_def)

theorem udp_reply_matched:
  "udp_response v s cmd (f, net) =
     (case dropWhile (\<lambda>d. \<not> (5 \<le> length d \<and> d ! 2 = s \<and> d ! 3 = cmd)) (n_rx v net) of
        [] \<Rightarrow> (False, f, n_set_rx v [] net)
      | d # r \<Rightarrow> (True, f\<lparr>f_resp := take 1032 d\<rparr>, n_set_rx v r net))"
  unfolding answers_def[symmetric] udp_response_def fst_conv snd_conv udp_scan_find
  by (cases "dropWhile (\<lambda>d. \<not> answers s cmd d) (n_rx v net)") (simp_all del: dropWhile_eq_Nil_conv)

section \<open>Listings\<close>

text \<open>Decoding is the inverse of encoding, for names that are C strings.\<close>

lemma unat_of_char: "unat (of_char c :: byte) = of_char c"
proof -
  have "(of_char c :: byte) = of_nat (of_char c)" by (rule of_nat_of_char[symmetric])
  moreover have "(of_char c :: nat) mod 256 = of_char c" by (rule of_char_mod_256)
  ultimately show ?thesis by (simp add: unat_of_nat)
qed

lemma chars_ascii [simp]: "chars (ascii s) = s"
  by (simp add: chars_def ascii_def unat_of_char comp_def)

lemma ascii_nul: "CHR 0x00 \<notin> set s \<Longrightarrow> 0 \<notin> set (ascii s)"
proof
  assume n: "CHR 0x00 \<notin> set s" "0 \<in> set (ascii s)"
  then obtain c where c: "c \<in> set s" "(of_char c :: byte) = 0" by (auto simp: ascii_def)
  then have "(of_char c :: nat) = 0" using unat_of_char[of c] by simp
  then have "(of_char c :: nat) = of_char (CHR 0x00)" by simp
  then have "c = CHR 0x00" by (simp only: of_char_eq_iff)
  then show False using c n by simp
qed

lemma parse_entry:
  assumes "CHR 0x00 \<notin> set (en_name en)"
  shows "parse_dirents (Suc n) (enc_entry en @ r) acc =
    parse_dirents n r (if en_name en \<noteq> [] then acc @ [(en_name en, en_flags en AND 1 \<noteq> 0)] else acc)"
proof -
  have "drop 13 (enc_entry en @ r) = ascii (en_name en) @ 0 # r" by (simp add: enc_entry_def tnfs_wr32_def)
  then show ?thesis using ascii_nul[OF assms] by (simp add: enc_entry_def)
qed

definition shown :: "entry \<Rightarrow> string \<times> bool" where
  "shown en = (en_name en, en_flags en AND 1 \<noteq> 0)"

lemma parse_entries:
  "\<forall>en \<in> set es. CHR 0x00 \<notin> set (en_name en) \<and> en_name en \<noteq> [] \<Longrightarrow>
   parse_dirents (length es) (concat (map enc_entry es)) acc = (True, acc @ map shown es)"
proof (induction es arbitrary: acc)
  case (Cons en es)
  then show ?case by (simp add: parse_entry shown_def del: parse_dirents.simps(2))
qed simp

text \<open>
  What the server lists is what the client shows: the entries the client decodes from a
  READDIRX reply of the server are the next entries of the directory, with their names and
  their directory flag, as many as the reply's count says.
\<close>

theorem listing_decoded:
  assumes "session_wf s" "2 \<le> length pl" "\<not> dir_bad s (pl ! 0)" "h_readdirx e pl s c = (body, s', c')"
    and "rest = dir_rest (te_fs e) (fst c) (se_dirs s ! unat (pl ! 0))" "rest \<noteq> []"
    and "\<forall>en \<in> set rest. CHR 0x00 \<notin> set (en_name en) \<and> en_name en \<noteq> []"
    and "resp = h @ body" "length h = 4"
  shows "resp ! 4 = TNFS_OK \<and> 9 \<le> length resp \<and> 0 < unat (resp ! 5) \<and>
    dir_rest (te_fs e) (fst c) (se_dirs s' ! unat (pl ! 0)) = drop (unat (resp ! 5)) rest \<and>
    parse_dirents (unat (resp ! 5)) (drop 9 resp) acc = (True, acc @ map shown (take (unat (resp ! 5)) rest))"
proof -
  obtain k f where k: "k \<le> length rest" "k = 0 \<longleftrightarrow> rest = []" "k \<le> max 1 (unat (pl ! 1))"
      "dir_rest (te_fs e) (fst c) (se_dirs s' ! unat (pl ! 0)) = drop k rest"
    and b: "body = [TNFS_OK, of_nat k, f] @ tnfs_wr16 (ds_pos (se_dirs s ! unat (pl ! 0))) @ concat (map enc_entry (take k rest))"
    using h_readdirx_stream[OF assms(1-4)] assms(6) unfolding assms(5)[symmetric] by auto
  have "max 1 (unat (pl ! 1)) < 256" using unat_u8_lt[of "pl ! 1"] by simp
  then have "k < 256" using k(3) by (rule le_less_trans[rotated])
  then have u: "unat (of_nat k :: byte) = k" by (simp add: unat_of_nat)
  have d: "drop 9 resp = concat (map enc_entry (take k rest))" "resp ! 4 = TNFS_OK" "resp ! 5 = of_nat k" "9 \<le> length resp"
    using assms(9) by (simp_all add: assms(8) b tnfs_wr16_def nth_append)
  have "parse_dirents (length (take k rest)) (concat (map enc_entry (take k rest))) acc = (True, acc @ map shown (take k rest))"
    by (rule parse_entries) (use assms(7) in \<open>auto dest: in_set_takeD\<close>)
  then show ?thesis using d u k assms(6) by simp
qed

theorem listing_decoded_witness:
  "let d = dirslot0\<lparr>ds_in_use := True, ds_dir := Some \<lparr>dh_id = 3, dh_all = [],
             dh_left = [\<lparr>d_name = ''.X'', d_isdir = False\<rparr>, \<lparr>d_name = ''A.DSK'', d_isdir = False\<rparr>]\<rparr>, ds_abspath := ''/sd''\<rparr>;
       resp = [7, 0, 1, TNFS_READDIRX] @ fst (h_readdirx demo_tn [0, 5] (demo_session\<lparr>se_dirs := [d, dirslot0]\<rparr>) (demo_card, disk_boot demo_files))
   in parse_dirents (unat (resp ! 5)) (drop 9 resp) [] = (True, [(''A.DSK'', False)])"
proof -
  define d where "d = dirslot0\<lparr>ds_in_use := True, ds_dir := Some \<lparr>dh_id = 3, dh_all = [],
             dh_left = [\<lparr>d_name = ''.X'', d_isdir = False\<rparr>, \<lparr>d_name = ''A.DSK'', d_isdir = False\<rparr>]\<rparr>, ds_abspath := ''/sd''\<rparr>"
  define s where "s = demo_session\<lparr>se_dirs := [d, dirslot0]\<rparr>"
  have rest: "dir_rest (te_fs demo_tn) demo_card d = [\<lparr>en_flags = 0, en_size = 3, en_mtime = 0, en_ctime = 0, en_name = ''A.DSK''\<rparr>]"
    by (simp add: d_def dir_rest_def dirslot0_def visible_def dir_meta_def demo_tn_def demo_vfs_def demo_card_def Let_def S_ISDIR_def)
  have wf: "session_wf s" using demo_session_wf(1) by (simp add: s_def d_def session_wf_def slot_shape_def dirslot0_def)
  have nb: "\<not> dir_bad s ([0, 5] ! 0)" by (simp add: s_def d_def dir_bad_def)
  obtain body s' c' where h: "h_readdirx demo_tn [0, 5] s (demo_card, disk_boot demo_files) = (body, s', c')" by (metis surj_pair)
  have r: "[\<lparr>en_flags = 0, en_size = 3, en_mtime = 0, en_ctime = 0, en_name = ''A.DSK''\<rparr>] =
      dir_rest (te_fs demo_tn) (fst (demo_card, disk_boot demo_files)) (se_dirs s ! unat ([0 :: byte, 5] ! 0))"
    using rest by (simp add: s_def)
  define resp where "resp = [7, 0, 1, TNFS_READDIRX] @ body"
  note L = listing_decoded[OF wf _ nb h r _ _ resp_def, of "[]", simplified]
  have "parse_dirents (unat (resp ! 5)) (drop 9 resp) [] = (True, [(''A.DSK'', False)])"
    using L by (cases "unat (resp ! 5)") (simp_all add: shown_def)
  then show ?thesis unfolding Let_def d_def[symmetric] s_def[symmetric] h fst_conv resp_def[symmetric] .
qed

end
