(* ===== verification/TnfsLink.thy ===== *)
theory TnfsLink
  imports TnfsTransfer TnfsServerSpec
begin

text \<open>
  The modelled client in front of the modelled server, with a datagram network between them
  that loses, repeats and delays: the client's commands are carried out once, and its reads
  and writes are those of the file on the server's card.
\<close>

section \<open>The network\<close>

text \<open>
  Each datagram the client sends has a fate, the copies of it that reach the server: for each
  the times of the server's turn and what becomes of the reply. A late reply arrives after
  the client has given up waiting and is received with the next attempt.
\<close>

datatype journey = ReplyLost | ReplySent | ReplyLate

type_synonym fate = "(int \<times> int \<times> journey) list"

record 'w link =
  lk_srv :: "'w tnfsd"
  lk_q :: "bytes list"
  lk_late :: "bytes list"
  lk_fates :: "fate list"

definition link_replies :: "sockaddr \<Rightarrow> 'w tnfsd \<Rightarrow> 'w tnfsd \<Rightarrow> bytes list" where
  "link_replies me st st' = map snd (filter (\<lambda>x. fst x = me) (drop (length (td_out st)) (td_out st')))"

definition link_copy :: "'w tn_env \<Rightarrow> sockaddr \<Rightarrow> bytes \<Rightarrow> int \<times> int \<times> journey \<Rightarrow> 'w link \<Rightarrow> 'w link" where
  "link_copy e me m c l =
     (case c of (t0, now, j) \<Rightarrow>
        let srv = serve_step e (t0, now, Some (me, m)) (lk_srv l);
            r = link_replies me (lk_srv l) srv
        in l\<lparr>lk_srv := srv, lk_q := lk_q l @ (if j = ReplySent then r else []),
             lk_late := lk_late l @ (if j = ReplyLate then r else [])\<rparr>)"

definition arrived :: "'w link \<Rightarrow> 'w link" where
  "arrived l = l\<lparr>lk_q := lk_q l @ lk_late l, lk_late := []\<rparr>"

definition link_send :: "'w tn_env \<Rightarrow> sockaddr \<Rightarrow> bytes \<Rightarrow> 'w link \<Rightarrow> 'w link" where
  "link_send e me m l =
     fold (link_copy e me m) (case lk_fates l of [] \<Rightarrow> [] | f # _ \<Rightarrow> f)
       ((arrived l)\<lparr>lk_fates := tl (lk_fates l)\<rparr>)"

definition link_net :: "'w tn_env \<Rightarrow> sockaddr \<Rightarrow> 'w link net" where
  "link_net e me =
     \<lparr> n_send = (\<lambda>m l. (True, link_send e me m l)), n_rx = lk_q, n_set_rx = (\<lambda>q l. l\<lparr>lk_q := q\<rparr>),
       n_delay = (\<lambda>ms l. l), n_connect = (\<lambda>host port tcp l. (\<not> tcp, l)), n_close = (\<lambda>l. l) \<rparr>"

section \<open>What the file system promises of an open file\<close>

text \<open>
  \<open>fv fd w\<close> are the bytes of the file open at \<open>fd\<close> and its position. These are the POSIX
  rules for \<^verbatim>\<open>lseek\<close> to a position, \<^verbatim>\<open>read\<close> and \<^verbatim>\<open>write\<close> inside the file; closing another
  descriptor changes nothing, and a call that fails sets \<^verbatim>\<open>errno\<close>.
\<close>

definition file_laws :: "'w vfs \<Rightarrow> (int \<Rightarrow> 'w \<Rightarrow> bytes \<times> nat) \<Rightarrow> bool" where
  "file_laws v fv \<longleftrightarrow>
     (\<forall>x fd w. x \<noteq> fd \<longrightarrow> fv fd (v_close v x w) = fv fd w) \<and>
     (\<forall>h fd w. fv fd (v_closedir v h w) = fv fd w) \<and>
     (\<forall>fd off w. fst (fv fd (snd (v_lseek v fd off SEEK_SET w))) = fst (fv fd w)) \<and>
     (\<forall>fd off w p. fst (v_lseek v fd off SEEK_SET w) = Inr p \<longrightarrow>
        0 \<le> off \<and> snd (fv fd (snd (v_lseek v fd off SEEK_SET w))) = nat off) \<and>
     (\<forall>fd off w. fst (v_lseek v fd off SEEK_SET w) \<noteq> Inl E_NONE) \<and>
     (\<forall>fd n w bs. fst (v_read v fd n w) = Inr bs \<longrightarrow>
        bs = slice (snd (fv fd w)) (length bs) (fst (fv fd w)) \<and>
        fv fd (snd (v_read v fd n w)) = (fst (fv fd w), snd (fv fd w) + length bs)) \<and>
     (\<forall>fd b w k. fst (v_write v fd b w) = Inr k \<longrightarrow> k \<le> length b \<and>
        (snd (fv fd w) + length b \<le> length (fst (fv fd w)) \<longrightarrow>
         fv fd (snd (v_write v fd b w)) = (overwrite (snd (fv fd w)) (take k b) (fst (fv fd w)), snd (fv fd w) + k)))"

section \<open>The client's session on the server\<close>

text \<open>
  The session is gone, or it is in one of the two slots, holds the file at its descriptor
  \<open>k\<close>, and \<open>Q\<close> is true of it and of the file.
\<close>

definition gone :: "sockaddr \<Rightarrow> u16 \<Rightarrow> 'w tnfsd \<Rightarrow> bool" where
  "gone me sid st \<longleftrightarrow> (\<forall>s \<in> set (td_sessions st). \<not> (se_in_use s \<and> se_sid s = sid \<and> se_peer s = me))"

definition holds_at :: "(int \<Rightarrow> 'w \<Rightarrow> bytes \<times> nat) \<Rightarrow> sockaddr \<Rightarrow> u16 \<Rightarrow> nat \<Rightarrow> (session \<Rightarrow> bytes \<times> nat \<Rightarrow> bool) \<Rightarrow>
    'w tnfsd \<Rightarrow> nat \<Rightarrow> bool" where
  "holds_at fv me sid k Q st i \<longleftrightarrow> (let s = td_sessions st ! i; fd = se_files s ! k in
     i < 2 \<and> se_in_use s \<and> se_sid s = sid \<and> se_peer s = me \<and> 0 \<le> fd \<and> Q s (fv fd (td_fs st)))"

definition session_at :: "(int \<Rightarrow> 'w \<Rightarrow> bytes \<times> nat) \<Rightarrow> sockaddr \<Rightarrow> u16 \<Rightarrow> nat \<Rightarrow> (session \<Rightarrow> bytes \<times> nat \<Rightarrow> bool) \<Rightarrow>
    'w tnfsd \<Rightarrow> bool" where
  "session_at fv me sid k Q st \<longleftrightarrow> gone me sid st \<or> (\<exists>i. holds_at fv me sid k Q st i)"

lemma file_close_files:
  assumes "file_laws v fv" "fd \<notin> set fds"
  shows "fv fd (close_files v fds w) = fv fd w"
  using assms(2) unfolding close_files_def
proof (induction fds arbitrary: w)
  case (Cons x fds)
  then show ?case using assms(1) by (auto simp: file_laws_def)
qed simp

lemma file_close_dirs:
  assumes "file_laws v fv"
  shows "fv fd (close_dirs v ds w) = fv fd w"
  unfolding close_dirs_def
proof (induction ds arbitrary: w)
  case (Cons d ds)
  then show ?case using assms by (auto simp: file_laws_def split: option.split)
qed simp

lemma other_session_files:
  assumes "srv_inv held B st" "i < 2" "j < 2" "i \<noteq> j" "k < 4" "0 \<le> se_files (td_sessions st ! i) ! k"
  shows "se_files (td_sessions st ! i) ! k \<notin> set (se_files (td_sessions st ! j))"
proof -
  let ?fd = "se_files (td_sessions st ! i) ! k"
  obtain a b where ss: "td_sessions st = [a, b]"
    using assms(1) by (auto simp: srv_inv_def srv_own_def numeral_2_eq_2 length_Suc_conv)
  have wf: "session_wf (td_sessions st ! i)" using assms(1,2) by (simp add: srv_inv_def srv_own_def)
  then have "?fd \<in> set (se_files (td_sessions st ! i))" using assms(5) by (simp add: session_wf_def)
  then have m: "Fd ?fd \<in> set (owned (td_sessions st ! i))" using assms(6) by (simp add: owned_def)
  have ij: "i = 0 \<and> j = 1 \<or> i = 1 \<and> j = 0" using assms(2-4) by auto
  have "set (owned a) \<inter> set (owned b) = {}" using assms(1) by (simp add: srv_inv_def srv_own_def ss)
  then have "Fd ?fd \<notin> set (owned (td_sessions st ! j))" using m ij by (auto simp: ss)
  then show ?thesis using assms(6) by (auto simp: owned_def)
qed

text \<open>Freeing a slot ends the session or leaves it and its file as they were.\<close>

lemma gone_free: "gone me sid st \<Longrightarrow> gone me sid (free_session e j st)"
  by (auto simp: gone_def dest!: set_update_subset_insert[THEN subsetD])

lemma session_at_free:
  assumes "file_laws (te_fs e) fv" "srv_inv held B st" "k < 4" "j < 2" "session_at fv me sid k Q st"
  shows "session_at fv me sid k Q (free_session e j st)"
proof (cases "gone me sid st")
  case True
  then show ?thesis using gone_free[OF True] by (simp add: session_at_def)
next
  case False
  then obtain i where i: "holds_at fv me sid k Q st i" using assms(5) by (auto simp: session_at_def)
  have l: "length (td_sessions st) = 2" by (rule srv_inv_len[OF assms(2)])
  have i2: "i < 2" "se_in_use (td_sessions st ! i)" "se_sid (td_sessions st ! i) = sid" "0 \<le> se_files (td_sessions st ! i) ! k"
    using i by (simp_all add: holds_at_def Let_def)
  show ?thesis
  proof (cases "j = i")
    case True
    have "gone me sid (free_session e i st)"
      unfolding gone_def sessions_free
    proof
      fix s assume "s \<in> set ((td_sessions st)[i := session0])"
      then obtain n where n: "n < 2" "s = (td_sessions st)[i := session0] ! n" using l by (auto simp: in_set_conv_nth)
      show "\<not> (se_in_use s \<and> se_sid s = sid \<and> se_peer s = me)"
      proof (cases "n = i")
        case True
        then show ?thesis using n l by simp
      next
        case False
        then show ?thesis using n sids_unique[OF _ l i2(1) n(1) i2(2)] assms(2) i2(3) by (auto simp: srv_inv_def)
      qed
    qed
    then show ?thesis using True by (simp add: session_at_def)
  next
    case False
    have "fv (se_files (td_sessions st ! i) ! k) (td_fs (free_session e j st)) = fv (se_files (td_sessions st ! i) ! k) (td_fs st)"
      using other_session_files[OF assms(2) i2(1) assms(4) _ assms(3) i2(4)] False
      by (simp add: free_session_def Let_def file_close_dirs[OF assms(1)] file_close_files[OF assms(1)])
    then have "holds_at fv me sid k Q (free_session e j st) i" using i False by (simp add: holds_at_def Let_def)
    then show ?thesis by (auto simp: session_at_def)
  qed
qed

lemma session_at_reap:
  assumes "file_laws (te_fs e) fv" "vfs_laws (te_fs e) held" "srv_inv held B st" "k < 4" "session_at fv me sid k Q st"
  shows "session_at fv me sid k Q (reap_idle e t st)"
proof -
  have i0: "srv_inv held B (free_session e 0 st)" using srv_inv_free[OF assms(2,3)] by simp
  have s: "session_at fv me sid k Q (free_session e j st)" if "j < 2" for j
    by (rule session_at_free[OF assms(1,3,4) that assms(5)])
  have "session_at fv me sid k Q (free_session e 1 (free_session e 0 st))"
    using session_at_free[OF assms(1) i0 assms(4) _ s[of 0], of 1] by simp
  then show ?thesis unfolding reap_idle_def upto2 Let_def using assms(5) s[of 0] s[of 1] by auto
qed

lemma gone_find: "gone me sid st \<Longrightarrow> find_session sid me st = None"
  by (auto simp: find_session_def gone_def find_slot_None same_peer_def prod_eq_iff)

text \<open>
  One copy of a request \<open>m\<close> at the server. \<open>fresh_for m\<close> are sessions that have not answered
  it; \<open>told m body\<close> those that have, with \<open>body\<close> after the header.
\<close>

definition fresh_for :: "bytes \<Rightarrow> (bytes \<times> nat \<Rightarrow> bool) \<Rightarrow> session \<Rightarrow> bytes \<times> nat \<Rightarrow> bool" where
  "fresh_for m P s x \<longleftrightarrow> P x \<and> \<not> (se_have_reply s \<and> se_seq s = m ! 2 \<and> se_cmd s = m ! 3)"

definition told :: "bytes \<Rightarrow> bytes \<Rightarrow> bytes \<times> nat \<Rightarrow> session \<Rightarrow> bytes \<times> nat \<Rightarrow> bool" where
  "told m body x1 s x \<longleftrightarrow> x = x1 \<and> se_have_reply s \<and> se_seq s = m ! 2 \<and> se_cmd s = m ! 3 \<and> se_reply s = take 4 m @ body"

definition request :: "u16 \<Rightarrow> bytes \<Rightarrow> bool" where
  "request sid m \<longleftrightarrow> well_formed m \<and> length m \<le> 1032 \<and> tnfs_rd16 m = sid \<and> m ! 3 \<noteq> TNFS_MOUNT \<and> m ! 3 \<noteq> TNFS_UMOUNT"

text \<open>What the command does to the file, as a relation of the body of its reply and the file after it.\<close>

definition carries_out :: "'w tn_env \<Rightarrow> (int \<Rightarrow> 'w \<Rightarrow> bytes \<times> nat) \<Rightarrow> nat \<Rightarrow> bytes \<Rightarrow> (bytes \<times> nat \<Rightarrow> bool) \<Rightarrow> (bytes \<Rightarrow> bytes \<times> nat \<Rightarrow> bool) \<Rightarrow> bool" where
  "carries_out e fv k m P ex \<longleftrightarrow> (\<forall>s c body s' c'. session_wf s \<longrightarrow> 0 \<le> se_files s ! k \<longrightarrow> P (fv (se_files s ! k) (fst c)) \<longrightarrow>
     handler (m ! 3) e (drop 4 m) s c = (body, s', c') \<longrightarrow> ex body (fv (se_files s ! k) (fst c')) \<and> se_files s' = se_files s)"

lemma carries_outD:
  assumes "carries_out e fv k m P ex" "session_wf s" "0 \<le> se_files s ! k" "P (fv (se_files s ! k) (fst c))"
    "handler (m ! 3) e (drop 4 m) s c = (body, s', c')"
  shows "ex body (fv (se_files s ! k) (fst c'))" "se_files s' = se_files s"
  using assms unfolding carries_out_def by blast+

lemma serve_request:
  assumes "request sid m" "find_session sid me (reap_idle e t0 st) = Some i"
  shows "serve_step e (t0, now, Some (me, m)) st = (let r = reap_idle e t0 st; s = td_sessions r ! i in
    if se_have_reply s \<and> se_seq s = m ! 2 \<and> se_cmd s = m ! 3 then resend now i r else process e now i (m ! 2) (m ! 3) m r)"
  using assms by (auto simp: serve_step_def Let_def request_def well_formed_def)

lemma serve_gone:
  assumes "request sid m" "gone me sid (reap_idle e t0 st)"
  shows "serve_step e (t0, now, Some (me, m)) st = reap_idle e t0 st"
  using assms gone_find[OF assms(2)] by (auto simp: serve_step_def Let_def request_def well_formed_def)

lemma link_resend:
  assumes "holds_at fv me sid k (told m body x1) st i" "srv_inv held B st"
  shows "session_at fv me sid k (told m body x1) (resend now i st)" "td_out (resend now i st) = td_out st @ [(me, take 4 m @ body)]"
proof -
  have l: "length (td_sessions st) = 2" by (rule srv_inv_len[OF assms(2)])
  have "holds_at fv me sid k (told m body x1) (resend now i st) i"
    using assms(1) l by (simp add: holds_at_def Let_def resend_def upd_session_def send_to_def told_def)
  then show "session_at fv me sid k (told m body x1) (resend now i st)" by (auto simp: session_at_def)
  show "td_out (resend now i st) = td_out st @ [(me, take 4 m @ body)]"
    using assms(1) by (simp add: holds_at_def Let_def resend_def upd_session_def send_to_def told_def)
qed

lemma link_told:
  fixes t0 now :: int
  assumes "file_laws (te_fs e) fv" "vfs_laws (te_fs e) held" "srv_inv held B st" "k < 4" "request sid m"
    "session_at fv me sid k (told m body x1) st"
  defines "st' \<equiv> serve_step e (t0, now, Some (me, m)) st"
  shows "session_at fv me sid k (told m body x1) st' \<and>
    (td_out st' = td_out st \<or> td_out st' = td_out st @ [(me, take 4 m @ body)])"
proof -
  let ?r = "reap_idle e t0 st"
  have r: "srv_inv held B ?r" by (rule srv_inv_reap[OF assms(2,3)])
  have a: "session_at fv me sid k (told m body x1) ?r" by (rule session_at_reap[OF assms(1-4,6)])
  show ?thesis
  proof (cases "gone me sid ?r")
    case True
    then show ?thesis unfolding st'_def using serve_gone[OF assms(5) True] a by simp
  next
    case False
    then obtain i where i: "holds_at fv me sid k (told m body x1) ?r i" using a by (auto simp: session_at_def)
    have "find_session sid me ?r = Some i" using i by (intro find_session_I[OF r]) (simp_all add: holds_at_def Let_def)
    then have "st' = resend now i ?r" unfolding st'_def using i by (simp add: serve_request[OF assms(5)] Let_def holds_at_def told_def)
    then show ?thesis using link_resend[OF i r] by simp
  qed
qed

lemma link_first:
  fixes t0 now :: int
  assumes "file_laws (te_fs e) fv" "vfs_laws (te_fs e) held" "srv_inv held B st" "k < 4" "request sid m"
    "carries_out e fv k m P ex" "session_at fv me sid k (fresh_for m P) st"
  defines "st' \<equiv> serve_step e (t0, now, Some (me, m)) st"
  shows "(session_at fv me sid k (fresh_for m P) st' \<and> td_out st' = td_out st) \<or>
    (\<exists>body x1. ex body x1 \<and> 1 \<le> length body \<and> length body \<le> 1028 \<and> session_at fv me sid k (told m body x1) st' \<and>
       td_out st' = td_out st @ [(me, take 4 m @ body)])"
proof -
  let ?r = "reap_idle e t0 st"
  have r: "srv_inv held B ?r" by (rule srv_inv_reap[OF assms(2,3)])
  have a: "session_at fv me sid k (fresh_for m P) ?r" by (rule session_at_reap[OF assms(1-4,7)])
  show ?thesis
  proof (cases "gone me sid ?r")
    case True
    then show ?thesis unfolding st'_def using serve_gone[OF assms(5) True] a by simp
  next
    case False
    then obtain i where i: "holds_at fv me sid k (fresh_for m P) ?r i" using a by (auto simp: session_at_def)
    have i2: "i < 2" using i by (simp add: holds_at_def Let_def)
    have il: "i < length (td_sessions ?r)" using srv_inv_len[OF r] i2 by simp
    have wf: "session_wf (td_sessions ?r ! i)" using r i2 by (simp add: srv_inv_def srv_own_def)
    have "find_session sid me ?r = Some i" using i by (intro find_session_I[OF r]) (simp_all add: holds_at_def Let_def)
    then have p: "st' = process e now i (m ! 2) (m ! 3) m ?r" unfolding st'_def
      using i by (auto simp: serve_request[OF assms(5)] Let_def holds_at_def fresh_for_def)
    obtain body s c where h: "handler (m ! 3) e (drop 4 m) (td_sessions ?r ! i) (td_fs ?r, td_disk ?r) = (body, s, c)"
      by (metis surj_pair)
    have b: "body \<noteq> [] \<and> length body \<le> 1028" by (rule any_h.reply_fits[OF assms(2) wf h])
    have id: "same_ident (td_sessions ?r ! i) s" using any_h.keeps_identity[OF assms(2) wf h] by blast
    have ex: "ex body (fv (se_files (td_sessions ?r ! i) ! k) (fst c))" "se_files s = se_files (td_sessions ?r ! i)"
      using carries_outD[OF assms(6) wf _ _ h] i by (simp_all add: holds_at_def Let_def fresh_for_def)
    have st': "st' = answered now i (m ! 2) (m ! 3) (body, s, c) ?r"
      using assms(5) unfolding p process_eq[OF assms(2) wf il] h by (simp add: request_def)
    have hd: "tnfs_wr16 (se_sid s) @ [m ! 2, m ! 3] @ body = take 4 m @ body"
      using header_echo[of m body] assms(5) i id by (simp add: request_def holds_at_def Let_def same_ident_def)
    have "holds_at fv me sid k (told m body (fv (se_files (td_sessions ?r ! i) ! k) (fst c))) st' i"
      using i id il ex(2) hd by (simp add: st' answered_def holds_at_def Let_def same_ident_def told_def)
    moreover have "td_out st' = td_out st @ [(me, take 4 m @ body)]"
      using i id hd by (simp add: st' answered_def holds_at_def Let_def same_ident_def)
    moreover have "1 \<le> length body" "length body \<le> 1028" using b by (simp_all add: Suc_le_eq)
    ultimately show ?thesis using ex(1) unfolding session_at_def by blast
  qed
qed

section \<open>A command over the network\<close>

text \<open>
  The link during a command \<open>m\<close>: the datagrams on their way to the client are old ones, which
  do not carry its sequence number, followed by copies of its reply.
\<close>

definition stale_for :: "bytes \<Rightarrow> bytes \<Rightarrow> bool" where
  "stale_for m d \<longleftrightarrow> length d < 5 \<or> d ! 2 \<noteq> m ! 2"

definition pending :: "bytes \<Rightarrow> bytes list \<Rightarrow> bytes list \<Rightarrow> bytes list \<Rightarrow> bool" where
  "pending m reply q late \<longleftrightarrow> (\<exists>old new. q = old @ new \<and> (\<forall>d \<in> set old. stale_for m d) \<and> set (new @ late) \<subseteq> set reply)"

definition link_inv :: "'w tn_env \<Rightarrow> ('w \<Rightarrow> handle set) \<Rightarrow> handle set \<Rightarrow> 'w tnfsd \<Rightarrow> bool" where
  "link_inv e held B st \<longleftrightarrow> vfs_laws (te_fs e) held \<and> srv_inv held B st"

definition unasked :: "(int \<Rightarrow> 'w \<Rightarrow> bytes \<times> nat) \<Rightarrow> sockaddr \<Rightarrow> u16 \<Rightarrow> nat \<Rightarrow> bytes \<Rightarrow> (bytes \<times> nat \<Rightarrow> bool) \<Rightarrow> 'w link \<Rightarrow> bool" where
  "unasked fv me sid k m P l \<longleftrightarrow> session_at fv me sid k (fresh_for m P) (lk_srv l) \<and> pending m [] (lk_q l) (lk_late l)"

definition asked :: "(int \<Rightarrow> 'w \<Rightarrow> bytes \<times> nat) \<Rightarrow> sockaddr \<Rightarrow> u16 \<Rightarrow> nat \<Rightarrow> bytes \<Rightarrow> (bytes \<Rightarrow> bytes \<times> nat \<Rightarrow> bool) \<Rightarrow>
    bytes \<Rightarrow> bytes \<times> nat \<Rightarrow> 'w link \<Rightarrow> bool" where
  "asked fv me sid k m ex body x1 l \<longleftrightarrow> ex body x1 \<and> 1 \<le> length body \<and> length body \<le> 1028 \<and>
     session_at fv me sid k (told m body x1) (lk_srv l) \<and> pending m [take 4 m @ body] (lk_q l) (lk_late l)"

definition asking :: "(int \<Rightarrow> 'w \<Rightarrow> bytes \<times> nat) \<Rightarrow> sockaddr \<Rightarrow> u16 \<Rightarrow> nat \<Rightarrow> bytes \<Rightarrow> (bytes \<times> nat \<Rightarrow> bool) \<Rightarrow> (bytes \<Rightarrow> bytes \<times> nat \<Rightarrow> bool) \<Rightarrow>
    'w link \<Rightarrow> bool" where
  "asking fv me sid k m P ex l \<longleftrightarrow> unasked fv me sid k m P l \<or> (\<exists>body x1. asked fv me sid k m ex body x1 l)"

lemma pending_more:
  assumes "pending m reply q late" "set r \<subseteq> set reply'" "set reply \<subseteq> set reply'"
  shows "pending m reply' (q @ (if a then r else [])) (late @ (if b then r else []))"
proof -
  obtain old new where "q = old @ new" "\<forall>d \<in> set old. stale_for m d" "set (new @ late) \<subseteq> set reply"
    using assms(1) by (auto simp: pending_def)
  then show ?thesis using assms(2,3) unfolding pending_def
    by (intro exI[of _ old] exI[of _ "new @ (if a then r else [])"]) auto
qed

lemma pending_arrive: "pending m reply q late \<Longrightarrow> pending m reply (q @ late) []"
  unfolding pending_def by (metis append.assoc append_Nil2)

lemma link_invD:
  "link_inv e held B st \<Longrightarrow> vfs_laws (te_fs e) held"
  "link_inv e held B st \<Longrightarrow> srv_inv held B st"
  by (simp_all add: link_inv_def)

lemma asking_arrived: "asking fv me sid k m P ex l \<Longrightarrow> asking fv me sid k m P ex (arrived l)"
proof -
  have "unasked fv me sid k m P l \<Longrightarrow> unasked fv me sid k m P (arrived l)"
    "asked fv me sid k m ex body x1 l \<Longrightarrow> asked fv me sid k m ex body x1 (arrived l)" for body x1
    by (simp_all add: unasked_def asked_def arrived_def pending_arrive)
  then show "asking fv me sid k m P ex l \<Longrightarrow> ?thesis" unfolding asking_def by blast
qed

lemma asking_fates: "asking fv me sid k m P ex l \<Longrightarrow> asking fv me sid k m P ex (l\<lparr>lk_fates := x\<rparr>)"
  by (simp add: asking_def unasked_def asked_def)

lemma link_copy_asked:
  assumes "file_laws (te_fs e) fv" "link_inv e held B (lk_srv l)" "k < 4" "request sid m" "asked fv me sid k m ex body x1 l"
  shows "asked fv me sid k m ex body x1 (link_copy e me m c l)"
proof -
  obtain t0 now j where c: "c = (t0, now, j)" by (metis prod_cases3)
  let ?srv = "serve_step e (t0, now, Some (me, m)) (lk_srv l)"
  have t: "session_at fv me sid k (told m body x1) ?srv \<and>
      (td_out ?srv = td_out (lk_srv l) \<or> td_out ?srv = td_out (lk_srv l) @ [(me, take 4 m @ body)])"
    by (rule link_told[OF assms(1) link_invD[OF assms(2)] assms(3,4)]) (use assms(5) in \<open>simp add: asked_def\<close>)
  then have "set (link_replies me (lk_srv l) ?srv) \<subseteq> set [take 4 m @ body]" by (auto simp: link_replies_def)
  then show ?thesis using assms(5) t pending_more[of m "[take 4 m @ body]" "lk_q l" "lk_late l" "link_replies me (lk_srv l) ?srv"]
    by (simp add: asked_def link_copy_def c Let_def)
qed

lemma link_copy_unasked:
  assumes "file_laws (te_fs e) fv" "link_inv e held B (lk_srv l)" "k < 4" "request sid m" "carries_out e fv k m P ex"
    "unasked fv me sid k m P l"
  shows "asking fv me sid k m P ex (link_copy e me m c l)"
proof -
  obtain t0 now j where c: "c = (t0, now, j)" by (metis prod_cases3)
  let ?srv = "serve_step e (t0, now, Some (me, m)) (lk_srv l)" and ?r = "link_replies me (lk_srv l)"
  have s: "session_at fv me sid k (fresh_for m P) (lk_srv l)" and p: "pending m [] (lk_q l) (lk_late l)"
    using assms(6) by (simp_all add: unasked_def)
  have "(session_at fv me sid k (fresh_for m P) ?srv \<and> td_out ?srv = td_out (lk_srv l)) \<or>
    (\<exists>body x1. ex body x1 \<and> 1 \<le> length body \<and> length body \<le> 1028 \<and> session_at fv me sid k (told m body x1) ?srv \<and>
       td_out ?srv = td_out (lk_srv l) @ [(me, take 4 m @ body)])"
    by (rule link_first[OF assms(1) link_invD[OF assms(2)] assms(3-5) s])
  then consider (no) "session_at fv me sid k (fresh_for m P) ?srv" "?r ?srv = []"
    | (yes) body x1 where "ex body x1" "1 \<le> length body" "length body \<le> 1028" "session_at fv me sid k (told m body x1) ?srv"
        "?r ?srv = [take 4 m @ body]"
    by (auto simp: link_replies_def)
  then show ?thesis
  proof cases
    case no
    then show ?thesis using p by (simp add: asking_def unasked_def link_copy_def c Let_def)
  next
    case (yes body x1)
    have "pending m [take 4 m @ body] (lk_q l @ (if j = ReplySent then ?r ?srv else [])) (lk_late l @ (if j = ReplyLate then ?r ?srv else []))"
      by (rule pending_more[OF p]) (simp_all add: yes)
    then have "asked fv me sid k m ex body x1 (link_copy e me m c l)" using yes by (simp add: asked_def link_copy_def c Let_def)
    then show ?thesis unfolding asking_def by blast
  qed
qed

lemma link_copy_inv: "link_inv e held B (lk_srv l) \<Longrightarrow> link_inv e held B (lk_srv (link_copy e me m c l))"
  by (cases c) (simp add: link_inv_def link_copy_def Let_def srv_inv_step)

lemma link_send_asking:
  assumes "file_laws (te_fs e) fv" "link_inv e held B (lk_srv l)" "k < 4" "request sid m" "carries_out e fv k m P ex"
    "asking fv me sid k m P ex (arrived l)"
  shows "asking fv me sid k m P ex (link_send e me m l) \<and> link_inv e held B (lk_srv (link_send e me m l))"
proof -
  have f: "asking fv me sid k m P ex (fold (link_copy e me m) cs l) \<and> link_inv e held B (lk_srv (fold (link_copy e me m) cs l))"
    if "asking fv me sid k m P ex l" "link_inv e held B (lk_srv l)" for cs l
    using that
  proof (induction cs arbitrary: l)
    case (Cons c cs)
    have "asking fv me sid k m P ex (link_copy e me m c l)"
      using Cons.prems link_copy_unasked[OF assms(1) Cons.prems(2) assms(3-5)] link_copy_asked[OF assms(1) Cons.prems(2) assms(3,4)]
      unfolding asking_def[of fv me sid k m P ex l] by (metis asking_def)
    then show ?case using Cons.IH link_copy_inv[OF Cons.prems(2)] by simp
  qed simp
  show ?thesis unfolding link_send_def using assms(2,6) by (intro f asking_fates) (simp_all add: arrived_def)
qed

text \<open>What the client takes from the queue.\<close>

lemma udp_scan_stale: "\<forall>d \<in> set old. stale_for m d \<Longrightarrow> udp_scan (old @ q) (m ! 2) c = udp_scan q (m ! 2) c"
  by (induction old) (auto simp: stale_for_def Let_def min_def)

lemma udp_scan_reply:
  assumes "request sid m" "1 \<le> length body" "length body \<le> 1028" "set q \<subseteq> {take 4 m @ body}"
  shows "udp_scan q (m ! 2) (m ! 3) = (if q = [] then (None, []) else (Some (take 4 m @ body), tl q))"
proof (cases q)
  case (Cons d r)
  have "length (take 4 m) = 4" using assms(1) by (simp add: request_def well_formed_def)
  moreover have "body \<noteq> []" using assms(2) by auto
  ultimately show ?thesis using assms Cons by (simp add: Let_def nth_append)
qed simp

lemma udp_scan_pending:
  assumes "request sid m" "1 \<le> length body" "length body \<le> 1028" "pending m reply q late" "set reply \<subseteq> {take 4 m @ body}"
    "udp_scan q (m ! 2) (m ! 3) = (r, q')"
  shows "r = None \<and> q' = [] \<or> reply \<noteq> [] \<and> r = Some (take 4 m @ body) \<and> set (q' @ late) \<subseteq> {take 4 m @ body}"
proof -
  obtain old new where q: "q = old @ new" "\<forall>d \<in> set old. stale_for m d" "set (new @ late) \<subseteq> set reply"
    using assms(4) by (auto simp: pending_def)
  have n: "set new \<subseteq> {take 4 m @ body}" using q(3) assms(5) by auto
  have "(r, q') = (if new = [] then (None, []) else (Some (take 4 m @ body), tl new))"
    using assms(6) unfolding q(1) udp_scan_stale[OF q(2)] udp_scan_reply[OF assms(1-3) n] by simp
  moreover have "set (tl new @ late) \<subseteq> {take 4 m @ body}" using q(3) assms(5) by (cases new) auto
  moreover have "new \<noteq> [] \<Longrightarrow> reply \<noteq> []" using q(3) by auto
  ultimately show ?thesis by (auto split: if_splits)
qed

lemma pending_rest:
  "pending m reply q late \<Longrightarrow> pending m reply [] late"
  "set (q @ late) \<subseteq> set reply \<Longrightarrow> pending m reply q late"
  unfolding pending_def by (auto intro: exI[of _ "[]"])

text \<open>The client's session during and after a command that was answered.\<close>

definition served :: "(int \<Rightarrow> 'w \<Rightarrow> bytes \<times> nat) \<Rightarrow> sockaddr \<Rightarrow> u16 \<Rightarrow> nat \<Rightarrow> bytes \<Rightarrow> (bytes \<Rightarrow> bytes \<times> nat \<Rightarrow> bool) \<Rightarrow>
    bytes \<Rightarrow> 'w link \<Rightarrow> bool" where
  "served fv me sid k m ex r l \<longleftrightarrow> (\<exists>body x1. r = take 4 m @ body \<and> ex body x1 \<and> 1 \<le> length body \<and> length body \<le> 1028 \<and>
     session_at fv me sid k (told m body x1) (lk_srv l) \<and> set (lk_q l @ lk_late l) \<subseteq> {r})"

lemma served_asking: "served fv me sid k m ex r l \<Longrightarrow> asking fv me sid k m P ex l"
  unfolding served_def asking_def asked_def using pending_rest(2)[of "lk_q l" "lk_late l"] by (metis empty_set list.simps(15))

lemma asking_attempt:
  assumes "request sid m" "asking fv me sid k m P ex l" "attempt (link_net e me) (m ! 2) (m ! 3) f l = (err, f2, l2)" "\<not> f_tcp f"
  shows "lk_srv l2 = lk_srv l \<and> \<not> f_tcp f2 \<and> (err \<noteq> ESP_OK \<and> asking fv me sid k m P ex l2 \<or> err = ESP_OK \<and> served fv me sid k m ex (f_resp f2) l2)"
proof -
  obtain r q' where u: "udp_scan (lk_q l) (m ! 2) (m ! 3) = (r, q')" by (cases "udp_scan (lk_q l) (m ! 2) (m ! 3)")
  have a: "l2 = l\<lparr>lk_q := q'\<rparr>" "\<not> f_tcp f2" "err = (if r \<noteq> None then ESP_OK else ESP_ERR_TIMEOUT)" "r = Some d \<Longrightarrow> f_resp f2 = d" for d
    using assms(3,4) by (auto simp: attempt_def udp_response_def link_net_def u split: option.splits)
  show ?thesis
  proof (cases "unasked fv me sid k m P l")
    case True
    have "r = None \<and> q' = []" using udp_scan_pending[OF assms(1) _ _ _ _ u, of "[0]" "[]" "lk_late l"] True by (simp add: unasked_def)
    then show ?thesis using True a pending_rest(1)[of m "[]" "lk_q l" "lk_late l"] by (auto simp: asking_def unasked_def)
  next
    case False
    then obtain body x1 where b: "asked fv me sid k m ex body x1 l" using assms(2) by (auto simp: asking_def)
    have "r = None \<and> q' = [] \<or> r = Some (take 4 m @ body) \<and> set (q' @ lk_late l) \<subseteq> {take 4 m @ body}"
      using udp_scan_pending[OF assms(1) _ _ _ _ u, of body "[take 4 m @ body]" "lk_late l"] b by (simp add: asked_def)
    then show ?thesis
    proof
      assume n: "r = None \<and> q' = []"
      then have "asked fv me sid k m ex body x1 l2" using b a(1) pending_rest(1)[of m "[take 4 m @ body]" "lk_q l" "lk_late l"] by (simp add: asked_def)
      then have "asking fv me sid k m P ex l2" unfolding asking_def by blast
      then show ?thesis using a n by simp
    next
      assume y: "r = Some (take 4 m @ body) \<and> set (q' @ lk_late l) \<subseteq> {take 4 m @ body}"
      then have "ex body x1 \<and> 1 \<le> length body \<and> length body \<le> 1028 \<and> session_at fv me sid k (told m body x1) (lk_srv l2) \<and>
          set (lk_q l2 @ lk_late l2) \<subseteq> {f_resp f2}" "f_resp f2 = take 4 m @ body"
        using b a(1,4) by (simp_all add: asked_def)
      then have "served fv me sid k m ex (f_resp f2) l2" unfolding served_def by blast
      then show ?thesis using a y by simp
    qed
  qed
qed

lemma link_command_loop:
  assumes "file_laws (te_fs e) fv" "k < 4" "request sid m" "carries_out e fv k m P ex"
  shows "link_inv e held B (lk_srv l) \<Longrightarrow> asking fv me sid k m P ex (arrived l) \<Longrightarrow> \<not> f_tcp f \<Longrightarrow>
    command_loop (link_net e me) n (m ! 2) (m ! 3) m (f, l) = (ESP_OK, f', l') \<Longrightarrow>
    link_inv e held B (lk_srv l') \<and> served fv me sid k m ex (f_resp f') l' \<and> f_seq f' = m ! 2 + 1"
proof (induction n arbitrary: f l)
  case (Suc n)
  let ?l = "link_send e me m l"
  have a: "asking fv me sid k m P ex ?l" "link_inv e held B (lk_srv ?l)"
    using link_send_asking[OF assms(1) Suc.prems(1) assms(2-4) Suc.prems(2)] by simp_all
  obtain err f2 l2 where t: "attempt (link_net e me) (m ! 2) (m ! 3) f ?l = (err, f2, l2)" by (metis prod_cases3)
  note at = asking_attempt[OF assms(3) a(1) t Suc.prems(3)]
  have s: "n_send (link_net e me) m l = (True, ?l)" "n_delay (link_net e me) d l2 = l2" for d by (simp_all add: link_net_def)
  have inv: "link_inv e held B (lk_srv l2)" using a(2) at by simp
  show ?case
  proof (cases "err = ESP_OK \<and> f_resp f2 ! 4 \<noteq> TNFS_EAGAIN")
    case True
    then show ?thesis using Suc.prems(4) at inv by (auto simp: command_loop_Suc s t)
  next
    case False
    have "asking fv me sid k m P ex (arrived l2)" using at served_asking asking_arrived by blast
    moreover have "command_loop (link_net e me) n (m ! 2) (m ! 3) m (f2, l2) = (ESP_OK, f', l')"
      using Suc.prems(4) False at by (auto simp: command_loop_Suc s t split: if_splits)
    ultimately show ?thesis using Suc.IH[OF inv] at by blast
  qed
qed simp

section \<open>Client and server in step\<close>

definition link_ok :: "'w tn_env \<Rightarrow> (int \<Rightarrow> 'w \<Rightarrow> bytes \<times> nat) \<Rightarrow> ('w \<Rightarrow> handle set) \<Rightarrow> handle set \<Rightarrow> sockaddr \<Rightarrow> 'w link cstate \<Rightarrow> bool" where
  "link_ok e fv held B me st \<longleftrightarrow> (case st of (f, l) \<Rightarrow>
     file_laws (te_fs e) fv \<and> link_inv e held B (lk_srv l) \<and> \<not> f_tcp f \<and> unat (f_fd f) < 4 \<and>
     session_at fv me (f_conn f) (unat (f_fd f)) (\<lambda>s x. \<not> (se_have_reply s \<and> se_seq s = f_seq f)) (lk_srv l) \<and>
     (\<forall>d \<in> set (lk_q l @ lk_late l). length d < 5 \<or> d ! 2 \<noteq> f_seq f))"

definition link_up :: "sockaddr \<Rightarrow> 'w link cstate \<Rightarrow> bool" where
  "link_up me st \<longleftrightarrow> \<not> gone me (f_conn (fst st)) (lk_srv (snd st))"

definition link_look :: "(int \<Rightarrow> 'w \<Rightarrow> bytes \<times> nat) \<Rightarrow> sockaddr \<Rightarrow> 'w link cstate \<Rightarrow> bytes \<times> nat" where
  "link_look fv me st = (case st of (f, l) \<Rightarrow>
     let i = the (find_session (f_conn f) me (lk_srv l))
     in fv (se_files (td_sessions (lk_srv l) ! i) ! unat (f_fd f)) (td_fs (lk_srv l)))"

lemma holds_at_look:
  assumes "holds_at fv me (f_conn f) (unat (f_fd f)) Q (lk_srv l) i" "srv_inv held B (lk_srv l)"
  shows "Q (td_sessions (lk_srv l) ! i) (link_look fv me (f, l))"
proof -
  have "find_session (f_conn f) me (lk_srv l) = Some i"
    using assms(1) by (intro find_session_I[OF assms(2)]) (simp_all add: holds_at_def Let_def)
  then show ?thesis using assms(1) by (simp add: link_look_def holds_at_def Let_def)
qed

lemma session_at_look:
  assumes "session_at fv me (f_conn f) (unat (f_fd f)) Q (lk_srv l)" "srv_inv held B (lk_srv l)" "link_up me (f, l)"
  shows "\<exists>s. Q s (link_look fv me (f, l))"
  using assms holds_at_look[OF _ assms(2)] unfolding session_at_def link_up_def by fastforce

lemma session_at_mono:
  assumes "session_at fv me sid k Q st" "\<And>s x. Q s x \<Longrightarrow> Q' s x"
  shows "session_at fv me sid k Q' st"
  using assms unfolding session_at_def holds_at_def Let_def by blast

lemma link_ok_asking:
  assumes "link_ok e fv held B me (f, l)" "m ! 2 = f_seq f"
    "link_up me (f, l) \<Longrightarrow> P (link_look fv me (f, l))"
  shows "asking fv me (f_conn f) (unat (f_fd f)) m P ex (arrived l)"
proof -
  let ?Q = "\<lambda>s x. \<not> (se_have_reply s \<and> se_seq s = f_seq f)"
  have s: "session_at fv me (f_conn f) (unat (f_fd f)) ?Q (lk_srv l)" and i: "srv_inv held B (lk_srv l)"
    using assms(1) by (simp_all add: link_ok_def link_inv_def)
  have "session_at fv me (f_conn f) (unat (f_fd f)) (fresh_for m P) (lk_srv l)"
  proof (cases "gone me (f_conn f) (lk_srv l)")
    case True
    then show ?thesis by (simp add: session_at_def)
  next
    case False
    then obtain j where j: "holds_at fv me (f_conn f) (unat (f_fd f)) ?Q (lk_srv l) j" using s by (auto simp: session_at_def)
    have "find_session (f_conn f) me (lk_srv l) = Some j"
      using j by (intro find_session_I[OF i]) (simp_all add: holds_at_def Let_def)
    then have "holds_at fv me (f_conn f) (unat (f_fd f)) (fresh_for m P) (lk_srv l) j"
      using j False assms(2,3) by (auto simp: holds_at_def Let_def fresh_for_def link_look_def link_up_def)
    then show ?thesis by (auto simp: session_at_def)
  qed
  moreover have "pending m [] (lk_q l @ lk_late l) []"
    unfolding pending_def using assms(1,2) by (intro exI[of _ "lk_q l @ lk_late l"] exI[of _ "[]"]) (auto simp: link_ok_def stale_for_def)
  ultimately show ?thesis by (simp add: asking_def unasked_def arrived_def)
qed

lemma request_bytes:
  assumes "length pl \<le> 1028" "cmd \<noteq> TNFS_MOUNT" "cmd \<noteq> TNFS_UMOUNT"
  shows "request sid (tnfs_wr16 sid @ [q, cmd] @ pl)"
  using assms by (simp add: request_def well_formed_def nth_append)

lemma request_fields:
  "(tnfs_wr16 sid @ [q, cmd] @ pl) ! 2 = q" "(tnfs_wr16 sid @ [q, cmd] @ pl) ! 3 = cmd"
  "drop 4 (tnfs_wr16 sid @ [q, cmd] @ pl) = pl" "length (take 4 (tnfs_wr16 sid @ [q, cmd] @ pl)) = 4"
  by (simp_all add: nth_append)

lemma carries_out_none: "carries_out e fv k m (\<lambda>x. False) ex"
  by (simp add: carries_out_def)

text \<open>
  A command that returns \<open>ESP_OK\<close> was carried out on a live session, its response is the
  handler's, and client and server are in step again.
\<close>

lemma link_command:
  assumes ok: "link_ok e fv held B me (f, l)" and c: "cmd \<noteq> TNFS_MOUNT" "cmd \<noteq> TNFS_UMOUNT"
    and ex: "\<And>m. m ! 3 = cmd \<Longrightarrow> drop 4 m = pl \<Longrightarrow> carries_out e fv (unat (f_fd f)) m (\<lambda>x. x = link_look fv me (f, l)) ex"
    and r: "tnfs_command (link_net e me) cmd pl (f, l) = (ESP_OK, f', l')"
  shows "link_up me (f, l) \<and> link_ok e fv held B me (f', l') \<and>
    (\<exists>h body x1. f_resp f' = h @ body \<and> length h = 4 \<and> body \<noteq> [] \<and> ex body x1 \<and>
       (link_up me (f', l') \<longrightarrow> link_look fv me (f', l') = x1))"
proof -
  define m where "m = tnfs_wr16 (f_conn f) @ [f_seq f, cmd] @ pl"
  have pl: "length pl \<le> 1028" using r by (auto simp: tnfs_command_def split: if_splits)
  have rq: "request (f_conn f) m" unfolding m_def by (rule request_bytes[OF pl c])
  note mf = request_fields[of "f_conn f" "f_seq f" cmd pl, folded m_def]
  have lp: "command_loop (link_net e me) 3 (m ! 2) (m ! 3) m (f, l) = (ESP_OK, f', l')"
    using r pl by (simp add: tnfs_command_def Let_def mf m_def[symmetric] del: append.simps append_Cons append_assoc)
  have fl: "file_laws (te_fs e) fv" "unat (f_fd f) < 4" "link_inv e held B (lk_srv l)" "\<not> f_tcp f" using ok by (simp_all add: link_ok_def)
  note run = link_command_loop[OF fl(1,2) rq _ fl(3) _ fl(4) lp]
  have up: "link_up me (f, l)"
  proof (rule ccontr)
    assume n: "\<not> link_up me (f, l)"
    have "asking fv me (f_conn f) (unat (f_fd f)) m (\<lambda>x. False) (\<lambda>b x. False) (arrived l)"
      by (rule link_ok_asking[OF ok mf(1)]) (use n in simp)
    then show False using run[OF carries_out_none] by (auto simp: served_def)
  qed
  have "asking fv me (f_conn f) (unat (f_fd f)) m (\<lambda>x. x = link_look fv me (f, l)) ex (arrived l)"
    by (rule link_ok_asking[OF ok mf(1)]) simp
  then have d: "link_inv e held B (lk_srv l')" "served fv me (f_conn f) (unat (f_fd f)) m ex (f_resp f') l'" "f_seq f' = f_seq f + 1"
    using run[OF ex[OF mf(2,3)]] mf by simp_all
  have same: "same_file f f'" using tnfs_command_file[OF r] by simp
  obtain body x1 where b: "f_resp f' = take 4 m @ body" "ex body x1" "1 \<le> length body"
    "session_at fv me (f_conn f) (unat (f_fd f)) (told m body x1) (lk_srv l')" "set (lk_q l' @ lk_late l') \<subseteq> {f_resp f'}"
    using d(2) unfolding served_def by blast
  have sq: "f_seq f \<noteq> f_seq f'" using d(3) by (simp add: d(3))
  have fr: "f_resp f' ! 2 = f_seq f" using mf by (simp add: b(1) nth_append)
  have ok': "link_ok e fv held B me (f', l')"
  proof -
    have "session_at fv me (f_conn f) (unat (f_fd f)) (\<lambda>s x. \<not> (se_have_reply s \<and> se_seq s = f_seq f')) (lk_srv l')"
      by (rule session_at_mono[OF b(4)]) (use sq mf(1) in \<open>auto simp: told_def\<close>)
    moreover have "\<forall>d \<in> set (lk_q l' @ lk_late l'). length d < 5 \<or> d ! 2 \<noteq> f_seq f'" using b(5) fr sq by auto
    ultimately show ?thesis using fl d(1) same by (simp add: link_ok_def same_file_def)
  qed
  have lk: "link_look fv me (f', l') = x1" if "link_up me (f', l')"
  proof -
    have "session_at fv me (f_conn f') (unat (f_fd f')) (told m body x1) (lk_srv l')" using b(4) same by (simp add: same_file_def)
    from session_at_look[OF this link_invD(2)[OF d(1)] that] show ?thesis by (auto simp: told_def)
  qed
  show ?thesis using up ok' b(1-3) lk mf(4) by (metis list.size(3) not_one_le_zero)
qed

section \<open>The three commands\<close>

lemma file_lawsD:
  assumes "file_laws v fv"
  shows "fst (fv fd (snd (v_lseek v fd off SEEK_SET w))) = fst (fv fd w)"
    and "fst (v_lseek v fd off SEEK_SET w) = Inr p \<Longrightarrow> 0 \<le> off \<and> snd (fv fd (snd (v_lseek v fd off SEEK_SET w))) = nat off"
    and "fst (v_lseek v fd off SEEK_SET w) \<noteq> Inl E_NONE"
    and "fst (v_read v fd n w) = Inr bs \<Longrightarrow> bs = slice (snd (fv fd w)) (length bs) (fst (fv fd w)) \<and>
        fv fd (snd (v_read v fd n w)) = (fst (fv fd w), snd (fv fd w) + length bs)"
    and "fst (v_write v fd b w) = Inr j \<Longrightarrow> j \<le> length b \<and> (snd (fv fd w) + length b \<le> length (fst (fv fd w)) \<longrightarrow>
         fv fd (snd (v_write v fd b w)) = (overwrite (snd (fv fd w)) (take j b) (fst (fv fd w)), snd (fv fd w) + j))"
  using assms unfolding file_laws_def by blast+

lemma errno_ok_iff: "errno_to_tnfs er = TNFS_OK \<longleftrightarrow> er = E_NONE"
  by (cases er) simp_all

lemma nat_sint:
  assumes "0 \<le> sint (w :: u32)"
  shows "nat (sint w) = unat w"
proof -
  have "uint (word_of_int j :: u32) = j mod 4294967296" for j by (simp add: uint_word_of_int)
  moreover have "word_of_int (sint w) = w" by simp
  moreover have "sint w < 4294967296" using sint_lt[of w] by simp
  ultimately show ?thesis using assms by (metis mod_pos_pos_trivial unat_eq_nat_uint)
qed

lemma slice_within: "bs = slice p n d \<Longrightarrow> length bs = n \<Longrightarrow> bs \<noteq> [] \<Longrightarrow> p + n \<le> length d"
  by (auto simp: slice_def)

definition seek_done :: "u32 \<Rightarrow> bytes \<times> nat \<Rightarrow> bytes \<Rightarrow> bytes \<times> nat \<Rightarrow> bool" where
  "seek_done off x b x' \<longleftrightarrow> fst x' = fst x \<and> (b ! 0 = TNFS_OK \<longrightarrow> snd x' = unat off)"

definition read_done :: "bytes \<times> nat \<Rightarrow> bytes \<Rightarrow> bytes \<times> nat \<Rightarrow> bool" where
  "read_done x b x' \<longleftrightarrow> (3 \<le> length b \<longrightarrow> (let k = unat (tnfs_rd16 (drop 1 b)) in
     slice 3 k b = slice (snd x) k (fst x) \<and> (0 < k \<longrightarrow> snd x + k \<le> length (fst x)) \<and> x' = (fst x, snd x + k)))"

definition write_done :: "bytes \<Rightarrow> bytes \<times> nat \<Rightarrow> bytes \<Rightarrow> bytes \<times> nat \<Rightarrow> bool" where
  "write_done d x b x' \<longleftrightarrow> (3 \<le> length b \<longrightarrow> (let k = unat (tnfs_rd16 (drop 1 b)) in
     snd x + length d \<le> length (fst x) \<longrightarrow> x' = (overwrite (snd x) (take k d) (fst x), snd x + k)))"

lemma seek_carries:
  assumes "file_laws (te_fs e) fv" "unat fd < 4" "m ! 3 = TNFS_LSEEK" "drop 4 m = [fd, 0] @ tnfs_wr32 off"
  shows "carries_out e fv (unat fd) m (\<lambda>x. x = x0) (seek_done off x0)"
  unfolding carries_out_def assms(3,4)
proof (intro allI impI)
  fix s c body s' c'
  assume a: "session_wf s" "0 \<le> se_files s ! unat fd" "fv (se_files s ! unat fd) (fst c) = x0"
    "handler TNFS_LSEEK e ([fd, 0] @ tnfs_wr32 off) s c = (body, s', c')"
  let ?r = "v_lseek (te_fs e) (se_files s ! unat fd) (sint off) SEEK_SET (fst c)"
  have h: "(body, s', c') = (case fst ?r of Inl er \<Rightarrow> ([errno_to_tnfs er], s, snd ?r, snd c)
      | Inr pos \<Rightarrow> (TNFS_OK # tnfs_wr32 (word_of_int pos), s, snd ?r, snd c))"
    using a(2,4) assms(2) by (simp add: handler_def h_lseek_def fd_bad_def Let_def)
  show "seek_done off x0 body (fv (se_files s ! unat fd) (fst c')) \<and> se_files s' = se_files s"
    using h a(3) file_lawsD(1-3)[OF assms(1), of "se_files s ! unat fd" "sint off" "fst c"]
    by (auto simp: seek_done_def errno_ok_iff nat_sint split: sum.splits)
qed

lemma read_carries:
  assumes "file_laws (te_fs e) fv" "vfs_laws (te_fs e) held" "unat fd < 4" "m ! 3 = TNFS_READ" "drop 4 m = fd # tnfs_wr16 n"
  shows "carries_out e fv (unat fd) m (\<lambda>x. x = x0) (read_done x0)"
  unfolding carries_out_def assms(4,5)
proof (intro allI impI)
  fix s c body s' c'
  assume a: "session_wf s" "0 \<le> se_files s ! unat fd" "fv (se_files s ! unat fd) (fst c) = x0"
    "handler TNFS_READ e (fd # tnfs_wr16 n) s c = (body, s', c')"
  obtain want where w: "want = (if unat n > 1024 then 1024 else unat n)" by blast
  let ?r = "v_read (te_fs e) (se_files s ! unat fd) want (fst c)"
  have h: "(body, s', c') = (case fst ?r of Inl er \<Rightarrow> ([errno_to_tnfs er], s, snd ?r, snd c)
      | Inr bs \<Rightarrow> if bs = [] \<and> want > 0 then ([TNFS_EOF], s, snd ?r, snd c)
                  else (TNFS_OK # tnfs_wr16 (of_nat (length bs)) @ bs, s, snd ?r, snd c))"
    using a(2,4) assms(3) by (simp add: handler_def h_read_def fd_bad_def Let_def w[symmetric])
  show "read_done x0 body (fv (se_files s ! unat fd) (fst c')) \<and> se_files s' = se_files s"
  proof (cases "fst ?r")
    case (Inl er)
    then show ?thesis using h by (simp add: read_done_def)
  next
    case (Inr bs)
    note f = file_lawsD(4)[OF assms(1) Inr] and l = vfs_lawsD(4)[OF assms(2) Inr]
    have u: "unat (of_nat (length bs) :: u16) = length bs" using l w by (intro unat_u16_of_nat) (auto split: if_splits)
    have sl: "slice 3 (length bs) (TNFS_OK # tnfs_wr16 (of_nat (length bs)) @ bs) = bs" by (simp add: slice_def tnfs_wr16_def)
    have le: "bs \<noteq> [] \<Longrightarrow> snd x0 + length bs \<le> length (fst x0)"
      using slice_within[of bs "snd x0" "length bs" "fst x0"] f a(3) by simp
    show ?thesis using h f u sl le a(3) by (auto simp: Inr read_done_def Let_def split: if_splits)
  qed
qed

lemma write_carries:
  assumes "file_laws (te_fs e) fv" "unat fd < 4" "m ! 3 = TNFS_WRITE" "length d \<le> 1024"
    "drop 4 m = fd # tnfs_wr16 (of_nat (length d)) @ d"
  shows "carries_out e fv (unat fd) m (\<lambda>x. x = x0) (write_done d x0)"
  unfolding carries_out_def assms(3,5)
proof (intro allI impI)
  fix s c body s' c'
  assume a: "session_wf s" "0 \<le> se_files s ! unat fd" "fv (se_files s ! unat fd) (fst c) = x0"
    "handler TNFS_WRITE e (fd # tnfs_wr16 (of_nat (length d)) @ d) s c = (body, s', c')"
  have u: "unat (of_nat (length d) :: u16) = length d" using assms(4) by (intro unat_u16_of_nat) simp
  have sl: "slice 3 (length d) (fd # tnfs_wr16 (of_nat (length d)) @ d) = d" by (simp add: slice_def tnfs_wr16_def)
  let ?r = "v_write (te_fs e) (se_files s ! unat fd) d (fst c)"
  have h: "(body, s', c') = (case fst ?r of Inl er \<Rightarrow> ([errno_to_tnfs er], s, snd ?r, snd c)
      | Inr w \<Rightarrow> (TNFS_OK # tnfs_wr16 (of_nat w), s, snd ?r, snd c))"
    using a(2,4) assms(2) by (simp add: handler_def h_write_def fd_bad_def Let_def u sl)
  show "write_done d x0 body (fv (se_files s ! unat fd) (fst c')) \<and> se_files s' = se_files s"
  proof (cases "fst ?r")
    case (Inl er)
    then show ?thesis using h by (simp add: write_done_def)
  next
    case (Inr w)
    note f = file_lawsD(5)[OF assms(1) Inr]
    have "unat (of_nat w :: u16) = w" using f assms(4) by (intro unat_u16_of_nat) simp
    then show ?thesis using h f a(3) by (simp add: Inr write_done_def Let_def)
  qed
qed

section \<open>The laws of the client's interface\<close>

lemma response_split:
  assumes "length h = 4" "body \<noteq> []"
  shows "(h @ body) ! 4 = body ! 0" "drop 5 (h @ body) = drop 1 body" "slice 7 n (h @ body) = slice 3 n body"
    "7 \<le> length (h @ body) \<longleftrightarrow> 3 \<le> length body"
  using assms by (auto simp: nth_append slice_def)

interpretation link: served_file "link_net e me" "link_ok e fv held B me" "link_up me" "link_look fv me" for e me fv held B
proof unfold_locales
  fix f g and l :: "'a link"
  assume "same_session f g"
  then show "link_ok e fv held B me (g, l) = link_ok e fv held B me (f, l) \<and> link_up me (g, l) = link_up me (f, l) \<and>
      link_look fv me (g, l) = link_look fv me (f, l)"
    by (simp add: same_session_def link_ok_def link_up_def link_look_def)
next
  fix st st' :: "'a link cstate" and off
  obtain f l f' l' where st: "st = (f, l)" "st' = (f', l')" by (metis surj_pair)
  assume a: "link_ok e fv held B me st" "tnfs_command (link_net e me) TNFS_LSEEK ([f_fd (fst st), 0] @ tnfs_wr32 off) st = (ESP_OK, st')"
  have fl: "file_laws (te_fs e) fv" "unat (f_fd f) < 4" using a(1) by (simp_all add: link_ok_def st)
  have "link_up me (f, l) \<and> link_ok e fv held B me (f', l') \<and>
    (\<exists>h body x1. f_resp f' = h @ body \<and> length h = 4 \<and> body \<noteq> [] \<and> seek_done off (link_look fv me (f, l)) body x1 \<and>
       (link_up me (f', l') \<longrightarrow> link_look fv me (f', l') = x1))"
    by (rule link_command[OF a(1)[unfolded st] _ _ seek_carries[OF fl] a(2)[unfolded st fst_conv]]) simp_all
  then show "link_up me st \<and> link_ok e fv held B me st' \<and> (link_up me st' \<longrightarrow> fst (link_look fv me st') = fst (link_look fv me st) \<and>
      (f_resp (fst st') ! 4 = TNFS_OK \<longrightarrow> snd (link_look fv me st') = unat off))"
    by (auto simp: st seek_done_def response_split)
next
  fix st st' :: "'a link cstate" and n k
  obtain f l f' l' where st: "st = (f, l)" "st' = (f', l')" by (metis surj_pair)
  assume a: "link_ok e fv held B me st" "tnfs_command (link_net e me) TNFS_READ (f_fd (fst st) # tnfs_wr16 n) st = (ESP_OK, st')"
    and r: "7 \<le> length (f_resp (fst st'))" "k = unat (tnfs_rd16 (drop 5 (f_resp (fst st'))))"
  have fl: "file_laws (te_fs e) fv" "vfs_laws (te_fs e) held" "unat (f_fd f) < 4" using a(1) by (simp_all add: link_ok_def link_inv_def st)
  have "link_up me (f, l) \<and> link_ok e fv held B me (f', l') \<and>
    (\<exists>h body x1. f_resp f' = h @ body \<and> length h = 4 \<and> body \<noteq> [] \<and> read_done (link_look fv me (f, l)) body x1 \<and>
       (link_up me (f', l') \<longrightarrow> link_look fv me (f', l') = x1))"
    by (rule link_command[OF a(1)[unfolded st] _ _ read_carries[OF fl] a(2)[unfolded st fst_conv]]) simp_all
  then show "link_up me st \<and> link_ok e fv held B me st' \<and>
      slice 7 k (f_resp (fst st')) = slice (snd (link_look fv me st)) k (fst (link_look fv me st)) \<and>
      (0 < k \<longrightarrow> snd (link_look fv me st) + k \<le> length (fst (link_look fv me st))) \<and>
      (link_up me st' \<longrightarrow> link_look fv me st' = (fst (link_look fv me st), snd (link_look fv me st) + k))"
    using r by (auto simp: st read_done_def Let_def response_split)
next
  fix st st' :: "'a link cstate" and d k
  obtain f l f' l' where st: "st = (f, l)" "st' = (f', l')" by (metis surj_pair)
  assume a: "link_ok e fv held B me st" "length d \<le> TNFS_IO_CHUNK"
      "tnfs_command (link_net e me) TNFS_WRITE (f_fd (fst st) # tnfs_wr16 (of_nat (length d)) @ d) st = (ESP_OK, st')"
    and r: "7 \<le> length (f_resp (fst st'))" "k = unat (tnfs_rd16 (drop 5 (f_resp (fst st'))))"
  have fl: "file_laws (te_fs e) fv" "unat (f_fd f) < 4" using a(1) by (simp_all add: link_ok_def st)
  have "link_up me (f, l) \<and> link_ok e fv held B me (f', l') \<and>
    (\<exists>h body x1. f_resp f' = h @ body \<and> length h = 4 \<and> body \<noteq> [] \<and> write_done d (link_look fv me (f, l)) body x1 \<and>
       (link_up me (f', l') \<longrightarrow> link_look fv me (f', l') = x1))"
    by (rule link_command[OF a(1)[unfolded st] _ _ write_carries[OF fl _ a(2)] a(3)[unfolded st fst_conv]]) simp_all
  then show "link_up me st \<and> link_ok e fv held B me st' \<and>
      (link_up me st' \<longrightarrow> snd (link_look fv me st) + length d \<le> length (fst (link_look fv me st)) \<longrightarrow>
        link_look fv me st' = (overwrite (snd (link_look fv me st)) (take k d) (fst (link_look fv me st)), snd (link_look fv me st) + k))"
    using r by (auto simp: st write_done_def Let_def response_split)
qed

end
