(* ===== verification/TnfsLinkProps.thy ===== *)
theory TnfsLinkProps
  imports TnfsLink
begin

text \<open>
  Reads and writes of the client through the modelled server, for every behaviour of the
  network of theory \<open>TnfsLink\<close>, and what a timeout does to the sequence numbers. The
  demonstration is one client with a three-byte file open.
\<close>

section \<open>A file served over a bad network\<close>

text \<open>One client, 1.2.3.4:5, with \<^verbatim>\<open>/sd/A.DSK\<close> open at descriptor 3 of the card.\<close>

abbreviation (input) demo_me :: sockaddr where "demo_me \<equiv> (0x01020304, 5)"

definition demo_sess :: "bool \<Rightarrow> byte \<Rightarrow> byte \<Rightarrow> bytes \<Rightarrow> session" where
  "demo_sess h q c r = \<lparr>se_in_use = True, se_sid = 7, se_peer = demo_me, se_active = 0, se_root = [],
     se_files = [3, -1, -1, -1], se_dirs = [dirslot0, dirslot0], se_have_reply = h, se_seq = q, se_cmd = c, se_reply = r\<rparr>"

definition demo_at :: "bytes \<Rightarrow> nat \<Rightarrow> session \<Rightarrow> (sockaddr \<times> bytes) list \<Rightarrow> demo_w tnfsd" where
  "demo_at d pos s out = \<lparr>td_sessions = [s, session0], td_next_sid = 8,
     td_fs = demo_card\<lparr>dw_fds := [(3, ''/sd/A.DSK'', pos)], dw_data := [(''/sd/A.DSK'', d)]\<rparr>,
     td_disk = disk_boot demo_files, td_out = out\<rparr>"

definition demo_client :: "byte \<Rightarrow> tnfs_file" where
  "demo_client q = file0\<lparr>f_conn := 7, f_seq := q\<rparr>"

definition demo_link :: "fate list \<Rightarrow> demo_w link" where
  "demo_link fs = \<lparr>lk_srv = demo_at [1, 2, 3] 0 (demo_sess False 0 0 []) [], lk_q = [], lk_late = [], lk_fates = fs\<rparr>"

definition demo_view :: "int \<Rightarrow> demo_w \<Rightarrow> bytes \<times> nat" where
  "demo_view fd w = (case map_of (dw_fds w) fd of None \<Rightarrow> ([], 0) | Some (p, pos) \<Rightarrow> (dw_file p w, pos))"

lemmas demo_defs = demo_at_def demo_sess_def demo_card_def session0_def session_zero_def

lemma demo_reap: "reap_idle e 0 (demo_at d pos (demo_sess h q c r) out) = demo_at d pos (demo_sess h q c r) out"
  by (simp add: reap_idle_def upto2 demo_defs)

lemma demo_find: "find_session 7 demo_me (demo_at d pos (demo_sess h q c r) out) = Some 0"
  by (simp add: find_session_def demo_defs same_peer_def)

lemma demo_again:
  assumes "h \<and> q = m ! 2 \<and> c = m ! 3" "request 7 m"
  shows "serve_step demo_tn (0, 0, Some (demo_me, m)) (demo_at d pos (demo_sess h q c r) out) =
    demo_at d pos (demo_sess h q c r) (out @ [(demo_me, r)])"
  using assms by (simp add: serve_request[OF assms(2)] demo_reap demo_find)
    (simp add: demo_at_def demo_sess_def resend_def upd_session_def send_to_def)

lemma link_demo_run:
  assumes "\<not> (h \<and> q = m ! 2 \<and> c = m ! 3)" "request 7 m"
    "handler (m ! 3) demo_tn (drop 4 m) (demo_sess h q c r) (td_fs (demo_at d pos s out), disk_boot demo_files) =
       (body, demo_sess h q c r, td_fs (demo_at d' pos' s out), disk_boot demo_files)" "length body \<le> 1028"
  shows "serve_step demo_tn (0, 0, Some (demo_me, m)) (demo_at d pos (demo_sess h q c r) out) =
    demo_at d' pos' (demo_sess True (m ! 2) (m ! 3) (take 4 m @ body)) (out @ [(demo_me, take 4 m @ body)])"
proof -
  have u: "m ! 3 \<noteq> TNFS_UMOUNT" using assms(2) by (simp add: request_def)
  have h: "tnfs_wr16 7 @ m ! 2 # m ! 3 # body = take 4 m @ body"
    using header_echo[of m body] assms(2) by (simp add: request_def)
  have f: "find_session 7 demo_me (reap_idle demo_tn 0 (demo_at d pos (demo_sess h q c r) out)) = Some 0"
    by (simp add: demo_reap demo_find)
  have n: "\<not> (se_have_reply (td_sessions (demo_at d pos (demo_sess h q c r) out) ! 0) \<and>
      se_seq (td_sessions (demo_at d pos (demo_sess h q c r) out) ! 0) = m ! 2 \<and>
      se_cmd (td_sessions (demo_at d pos (demo_sess h q c r) out) ! 0) = m ! 3)"
    using assms(1) by (simp add: demo_at_def demo_sess_def)
  have "serve_step demo_tn (0, 0, Some (demo_me, m)) (demo_at d pos (demo_sess h q c r) out) =
      process demo_tn 0 0 (m ! 2) (m ! 3) m (demo_at d pos (demo_sess h q c r) out)"
    unfolding serve_request[OF assms(2) f] demo_reap Let_def by (rule if_not_P[OF n])
  also have "\<dots> = demo_at d' pos' (demo_sess True (m ! 2) (m ! 3) (take 4 m @ body)) (out @ [(demo_me, take 4 m @ body)])"
    using assms(3,4) h u
    by (simp add: process_def demo_at_def reply_and_cache_def upd_session_def send_to_def Let_def demo_sess_def)
  finally show ?thesis .
qed

lemma link_demo_file [simp]: "dw_file ''/sd/A.DSK'' (td_fs (demo_at d pos s out)) = d"
  and demo_fds [simp]: "dw_fds (td_fs (demo_at d pos s out)) = [(3, ''/sd/A.DSK'', pos)]"
  and demo_move [simp]: "dw_move 3 ''/sd/A.DSK'' p (td_fs (demo_at d pos s out)) = td_fs (demo_at d p s out)"
  and demo_fd [simp]: "se_files (demo_sess h q c r) = [3, -1, -1, -1]"
  by (simp_all add: demo_at_def demo_card_def dw_file_def dw_move_def demo_sess_def)

lemma slice_one: "pos < length d \<Longrightarrow> slice pos (Suc 0) d = [d ! pos]"
  by (simp add: slice_def take_Suc_conv_app_nth hd_drop_conv_nth take_Suc)

definition seek_msg :: "byte \<Rightarrow> byte \<Rightarrow> bytes" where
  "seek_msg q off = [7, 0, q, TNFS_LSEEK, 0, 0, off, 0, 0, 0]"

definition read_msg :: "byte \<Rightarrow> byte \<Rightarrow> bytes" where
  "read_msg q n = [7, 0, q, TNFS_READ, 0, n, 0]"

lemma link_demo_seek:
  assumes "\<not> (h \<and> q = n \<and> c = TNFS_LSEEK)" "off = 0 \<or> off = 1 \<or> off = 2"
  shows "serve_step demo_tn (0, 0, Some (demo_me, seek_msg n off)) (demo_at d pos (demo_sess h q c r) out) =
    demo_at d (unat off) (demo_sess True n TNFS_LSEEK ([7, 0, n, TNFS_LSEEK, TNFS_OK, off, 0, 0, 0]))
      (out @ [(demo_me, [7, 0, n, TNFS_LSEEK, TNFS_OK, off, 0, 0, 0])])"
proof -
  have h: "handler (seek_msg n off ! 3) demo_tn (drop 4 (seek_msg n off)) (demo_sess h q c r) (td_fs (demo_at d pos s out), disk_boot demo_files) =
       ([TNFS_OK, off, 0, 0, 0], demo_sess h q c r, td_fs (demo_at d (unat off) s out), disk_boot demo_files)" for s out
    using assms(2) unfolding seek_msg_def handler_def h_lseek_def
    by (elim disjE) (simp_all add: fd_bad_def Let_def demo_tn_def demo_vfs_def tnfs_rd32_def tnfs_wr32_def)
  show ?thesis using link_demo_run[OF _ _ h, where out = out] assms by (simp add: seek_msg_def request_def well_formed_def tnfs_rd16_def)
qed

lemma link_demo_read:
  assumes "\<not> (h \<and> q = n \<and> c = TNFS_READ)" "pos < length d"
  shows "serve_step demo_tn (0, 0, Some (demo_me, read_msg n 1)) (demo_at d pos (demo_sess h q c r) out) =
    demo_at d (pos + 1) (demo_sess True n TNFS_READ ([7, 0, n, TNFS_READ, TNFS_OK, 1, 0, d ! pos]))
      (out @ [(demo_me, [7, 0, n, TNFS_READ, TNFS_OK, 1, 0, d ! pos])])"
proof -
  have h: "handler (read_msg n 1 ! 3) demo_tn (drop 4 (read_msg n 1)) (demo_sess h q c r) (td_fs (demo_at d pos s out), disk_boot demo_files) =
       ([TNFS_OK, 1, 0, d ! pos], demo_sess h q c r, td_fs (demo_at d (pos + 1) s out), disk_boot demo_files)" for s out
    using assms(2) unfolding read_msg_def handler_def h_read_def
    by (simp add: fd_bad_def Let_def demo_tn_def demo_vfs_def tnfs_rd16_def tnfs_wr16_def slice_one)
  show ?thesis using link_demo_run[OF _ _ h, where out = out] assms by (simp add: read_msg_def request_def well_formed_def tnfs_rd16_def)
qed

definition write_msg :: "byte \<Rightarrow> byte \<Rightarrow> bytes" where
  "write_msg q b = [7, 0, q, TNFS_WRITE, 0, 1, 0, b]"

lemma demo_update: "dw_move 3 ''/sd/A.DSK'' p ((td_fs (demo_at d pos s out))
    \<lparr>dw_data := AList.update ''/sd/A.DSK'' d' (dw_data (td_fs (demo_at d pos s out)))\<rparr>) = td_fs (demo_at d' p s out)"
  by (simp add: demo_at_def dw_move_def demo_card_def)

lemma link_demo_write:
  assumes "\<not> (h \<and> q = n \<and> c = TNFS_WRITE)"
  shows "serve_step demo_tn (0, 0, Some (demo_me, write_msg n b)) (demo_at d pos (demo_sess h q c r) out) =
    demo_at (overwrite pos [b] d) (pos + 1) (demo_sess True n TNFS_WRITE ([7, 0, n, TNFS_WRITE, TNFS_OK, 1, 0]))
      (out @ [(demo_me, [7, 0, n, TNFS_WRITE, TNFS_OK, 1, 0])])"
proof -
  have h: "handler (write_msg n b ! 3) demo_tn (drop 4 (write_msg n b)) (demo_sess h q c r) (td_fs (demo_at d pos s out), disk_boot demo_files) =
       ([TNFS_OK, 1, 0], demo_sess h q c r, td_fs (demo_at (overwrite pos [b] d) (pos + 1) s out), disk_boot demo_files)" for s out
    unfolding write_msg_def handler_def h_write_def
    by (simp add: fd_bad_def Let_def demo_tn_def demo_vfs_def tnfs_rd16_def tnfs_wr16_def slice_def demo_update[simplified])
  show ?thesis using link_demo_run[OF _ _ h, where out = out] assms by (simp add: write_msg_def request_def well_formed_def tnfs_rd16_def)
qed

lemma demo_out [simp]: "td_out (demo_at d p s out) = out"
  by (simp add: demo_at_def)

lemmas demo_steps = link_demo_seek[unfolded seek_msg_def] link_demo_read[unfolded read_msg_def] link_demo_write[unfolded write_msg_def]

lemma demo_seek_again:
  "serve_step demo_tn (0, 0, Some (demo_me, [7, 0, q, TNFS_LSEEK, 0, 0, off, 0, 0, 0])) (demo_at d pos (demo_sess True q TNFS_LSEEK r) out) =
    demo_at d pos (demo_sess True q TNFS_LSEEK r) (out @ [(demo_me, r)])"
  by (rule demo_again) (simp_all add: request_def well_formed_def tnfs_rd16_def)

lemma demo_write_again:
  "serve_step demo_tn (0, 0, Some (demo_me, [7, 0, q, TNFS_WRITE, 0, 1, 0, b])) (demo_at d pos (demo_sess True q TNFS_WRITE r) out) =
    demo_at d pos (demo_sess True q TNFS_WRITE r) (out @ [(demo_me, r)])"
  by (rule demo_again) (simp_all add: request_def well_formed_def tnfs_rd16_def)

lemmas link_run = command_loop_Suc tnfs_command_def Let_def attempt_def udp_response_def link_net_def link_send_def arrived_def link_copy_def link_replies_def
  tnfs_read_at_def read_chunk_def tnfs_write_at_def write_chunk_def overwrite_def tnfs_seek_def demo_client_def file0_def demo_link_def tnfs_wr16_def tnfs_wr32_def tnfs_rd16_def slice_def
  numeral_3_eq_3

lemmas link_read_run = link_run read_loop.simps write_loop.simps demo_steps demo_seek_again demo_write_again

lemma map_move: "map_of (map (\<lambda>x. if fst x = fd then (fd, p, n) else x) xs) y =
    (if y = fd \<and> map_of xs y \<noteq> None then Some (p, n) else map_of xs y)"
  by (induction xs) auto

lemma map_close: "x \<noteq> y \<Longrightarrow> map_of (filter (\<lambda>p. fst p \<noteq> x) xs) y = map_of xs y"
  by (induction xs) auto

lemma demo_file_laws: "file_laws demo_vfs demo_view"
  unfolding file_laws_def
  by (intro conjI allI impI)
    (auto simp: demo_vfs_def demo_view_def dw_move_def map_move map_close dw_file_def Let_def slice_def min_def AList.update_conv'
       overwrite_def
       split: option.splits if_splits)

lemma demo_sess_owned: "session_wf (demo_sess h q c r)" "owned (demo_sess h q c r) = [Fd 3]" "se_in_use (demo_sess h q c r)" "se_sid (demo_sess h q c r) = 7"
  by (simp_all add: demo_sess_def session_wf_def owned_def dir_ids_def dirslot0_def slot_shape_def)

lemma demo_at_inv: "srv_inv dw_held {} (demo_at d pos (demo_sess h q c r) out)"
proof -
  have "dw_held (td_fs (demo_at d pos (demo_sess h q c r) out)) = {Fd 3}" by (simp add: dw_held_def) (simp add: demo_at_def demo_card_def)
  moreover have "td_sessions (demo_at d pos (demo_sess h q c r) out) = [demo_sess h q c r, session0]" by (simp add: demo_at_def)
  ultimately show ?thesis by (simp add: srv_inv_def srv_own_def sids_ok_def demo_sess_owned)
qed

lemma demo_link_ok: "link_ok demo_tn demo_view dw_held {} demo_me (demo_client q, demo_link fs)"
proof -
  have "holds_at demo_view demo_me 7 0 (\<lambda>s x. \<not> (se_have_reply s \<and> se_seq s = q)) (lk_srv (demo_link fs)) 0"
    by (simp add: holds_at_def Let_def demo_link_def demo_at_def) (simp add: demo_sess_def)
  then have "session_at demo_view demo_me 7 0 (\<lambda>s x. \<not> (se_have_reply s \<and> se_seq s = q)) (lk_srv (demo_link fs))"
    by (auto simp: session_at_def)
  moreover have "srv_inv dw_held {} (lk_srv (demo_link fs))" by (simp add: demo_link_def demo_at_inv)
  ultimately show ?thesis
    using demo_file_laws demo_laws by (simp add: link_ok_def demo_client_def file0_def link_inv_def demo_tn_def) (simp add: demo_link_def)
qed

lemma demo_look: "link_look demo_view demo_me (demo_client q, demo_link fs) = ([1, 2, 3], 0)"
  by (simp add: link_look_def demo_client_def file0_def demo_link_def demo_find Let_def)
    (simp add: demo_at_def demo_sess_def demo_view_def demo_card_def dw_file_def)

lemma demo_pos: "\<not> f_pos_valid (demo_client q)"
  by (simp add: demo_client_def file0_def)

section \<open>Transfers end to end\<close>





text \<open>
  C15. The sequence number of a command that was never answered is used again: after a read
  that timed out because every reply was lost, the next seek of the client is answered from
  the server's replay cache without moving the file, and \<open>tnfs_read_at\<close> returns \<open>ESP_OK\<close> with
  the wrong byte, the first one of the file \<open>[1, 2, 3]\<close> instead of the third.
\<close>

theorem seek_replayed_after_timeout:
  "let v = link_net demo_tn demo_me;
       st = (demo_client 1, demo_link [[(0, 0, ReplyLost)], [], [], [(0, 0, ReplySent)], [(0, 0, ReplySent)]]);
       r1 = tnfs_read_at v 0 1 st;
       r2 = tnfs_read_at v 2 1 (snd (snd r1))
   in link_ok demo_tn demo_view dw_held {} demo_me st \<and> fst (link_look demo_view demo_me st) = [1, 2, 3] \<and>
      fst r1 = ESP_ERR_TIMEOUT \<and> fst r2 = ESP_OK \<and> fst (snd r2) = [1]"
  using demo_link_ok[of 1 "[[(0, 0, ReplyLost)], [], [], [(0, 0, ReplySent)], [(0, 0, ReplySent)]]"]
    demo_look[of 1 "[[(0, 0, ReplyLost)], [], [], [(0, 0, ReplySent)], [(0, 0, ReplySent)]]"]
  by (simp add: link_read_run)

end
