(* ===== verification/TnfsLive.thy ===== *)
theory TnfsLive
  imports TnfsLinkProps
begin

text \<open>
  When a command succeeds: if one of the three attempts gets through in both directions and
  the session has not been idle too long, the client has its answer.
\<close>

section \<open>A session that is not reaped\<close>

definition lively :: "sockaddr \<Rightarrow> u16 \<Rightarrow> int \<Rightarrow> 'w tnfsd \<Rightarrow> bool" where
  "lively me sid A st \<longleftrightarrow> (\<exists>i < 2. se_in_use (td_sessions st ! i) \<and> se_sid (td_sessions st ! i) = sid \<and>
     se_peer (td_sessions st ! i) = me \<and> A \<le> se_active (td_sessions st ! i))"

definition in_time :: "int \<Rightarrow> fate \<Rightarrow> bool" where
  "in_time A f \<longleftrightarrow> (\<forall>c \<in> set f. fst c \<le> A + 30000000 \<and> A \<le> fst (snd c))"

definition gets_through :: "fate \<Rightarrow> bool" where
  "gets_through f \<longleftrightarrow> (\<exists>c \<in> set f. snd (snd c) = ReplySent)"

lemma lively_step:
  assumes "vfs_laws (te_fs e) held" "srv_inv held B st" "request sid m" "lively me sid A st" "t0 \<le> A + 30000000" "A \<le> now"
  shows "lively me sid A (serve_step e (t0, now, Some (me, m)) st) \<and> td_out (serve_step e (t0, now, Some (me, m)) st) \<noteq> td_out st"
proof -
  let ?r = "reap_idle e t0 st" and ?st = "serve_step e (t0, now, Some (me, m)) st"
  obtain i where i: "i < 2" "se_in_use (td_sessions st ! i)" "se_sid (td_sessions st ! i) = sid" "se_peer (td_sessions st ! i) = me"
    "A \<le> se_active (td_sessions st ! i)" using assms(4) by (auto simp: lively_def)
  have l: "length (td_sessions st) = 2" by (rule srv_inv_len[OF assms(2)])
  have k: "td_sessions ?r ! i = td_sessions st ! i" by (rule reap_keeps[OF i(1) l]) (use i(5) assms(5) in simp)
  have r: "srv_inv held B ?r" by (rule srv_inv_reap[OF assms(1,2)])
  have f: "find_session sid me ?r = Some i" by (rule find_session_I[OF r i(1)]) (simp_all add: k i)
  have w: "well_formed m" "m ! 3 \<noteq> TNFS_MOUNT" "m ! 3 \<noteq> TNFS_UMOUNT" "tnfs_rd16 m = sid" using assms(3) by (simp_all add: request_def)
  have h: "has_answered now me m i ?st" by (rule step_has_answered[OF assms(1,2) w(1-3)]) (simp add: w f)
  have wf: "session_wf (td_sessions ?r ! i)" "i < length (td_sessions ?r)" using r i(1) l by (simp_all add: srv_inv_def srv_own_def)
  have "td_out ?st \<noteq> td_out st"
  proof (cases "se_have_reply (td_sessions ?r ! i) \<and> se_seq (td_sessions ?r ! i) = m ! 2 \<and> se_cmd (td_sessions ?r ! i) = m ! 3")
    case True
    then show ?thesis unfolding serve_request[OF assms(3) f] Let_def by (simp add: resend_def upd_session_def send_to_def)
  next
    case False
    obtain body s c where hd: "handler (m ! 3) e (drop 4 m) (td_sessions ?r ! i) (td_fs ?r, td_disk ?r) = (body, s, c)" by (metis surj_pair)
    show ?thesis unfolding serve_request[OF assms(3) f] Let_def if_not_P[OF False] process_eq[OF assms(1) wf] hd
      using w(3) by (simp add: answered_def)
  qed
  moreover have "lively me sid A ?st" using h i(1) assms(6) w(4) by (auto simp: lively_def has_answered_def Let_def)
  ultimately show ?thesis by blast
qed

section \<open>A fate that gets through\<close>

definition has_fresh :: "bytes \<Rightarrow> 'w link \<Rightarrow> bool" where
  "has_fresh m l \<longleftrightarrow> (\<exists>d \<in> set (lk_q l). \<not> stale_for m d)"

lemma copy_asking:
  assumes "file_laws (te_fs e) fv" "link_inv e held B (lk_srv l)" "k < 4" "request sid m" "carries_out e fv k m P ex"
    "asking fv me sid k m P ex l"
  shows "asking fv me sid k m P ex (link_copy e me m c l)"
  using assms(6) link_copy_unasked[OF assms(1-5)] link_copy_asked[OF assms(1-4)] unfolding asking_def[of fv me sid k m P ex l]
  by (metis asking_def)

lemma copy_answers:
  assumes "file_laws (te_fs e) fv" "link_inv e held B (lk_srv l)" "k < 4" "request sid m" "carries_out e fv k m P ex"
    "asking fv me sid k m P ex l" "lively me sid A (lk_srv l)" "fst c \<le> A + 30000000" "A \<le> fst (snd c)"
  shows "lively me sid A (lk_srv (link_copy e me m c l)) \<and> (snd (snd c) = ReplySent \<longrightarrow> has_fresh m (link_copy e me m c l))"
proof -
  obtain t0 now j where c: "c = (t0, now, j)" by (metis prod_cases3)
  let ?srv = "serve_step e (t0, now, Some (me, m)) (lk_srv l)"
  note inv = link_invD[OF assms(2)]
  have lv: "lively me sid A ?srv" "td_out ?srv \<noteq> td_out (lk_srv l)"
    using lively_step[OF inv assms(4,7), of t0 now] assms(8,9) by (simp_all add: c)
  have "\<exists>body. 1 \<le> length body \<and> td_out ?srv = td_out (lk_srv l) @ [(me, take 4 m @ body)]"
  proof (cases "unasked fv me sid k m P l")
    case True
    then show ?thesis using link_first[OF assms(1) inv assms(3-5), of me t0 now] lv(2) by (auto simp: unasked_def)
  next
    case False
    then obtain body x1 where "asked fv me sid k m ex body x1 l" using assms(6) by (auto simp: asking_def)
    then show ?thesis using link_told[OF assms(1) inv assms(3,4), of me body x1 t0 now] lv(2) by (auto simp: asked_def)
  qed
  then obtain body where b: "1 \<le> length body" "td_out ?srv = td_out (lk_srv l) @ [(me, take 4 m @ body)]" by blast
  have "body \<noteq> []" using b(1) by auto
  then have "\<not> stale_for m (take 4 m @ body)"
    using assms(4) b(1) by (simp add: stale_for_def request_def well_formed_def nth_append)
  then show ?thesis using lv(1) b(2) by (auto simp: c link_copy_def Let_def has_fresh_def link_replies_def)
qed

lemma has_fresh_copy: "has_fresh m l \<Longrightarrow> has_fresh m (link_copy e me m c l)"
  by (cases c) (auto simp: has_fresh_def link_copy_def Let_def)

lemma fate_answers:
  assumes "file_laws (te_fs e) fv" "k < 4" "request sid m" "carries_out e fv k m P ex"
  shows "link_inv e held B (lk_srv l) \<Longrightarrow> asking fv me sid k m P ex l \<Longrightarrow> lively me sid A (lk_srv l) \<Longrightarrow> in_time A f \<Longrightarrow>
    lively me sid A (lk_srv (fold (link_copy e me m) f l)) \<and>
    (gets_through f \<or> has_fresh m l \<longrightarrow> has_fresh m (fold (link_copy e me m) f l))"
proof (induction f arbitrary: l)
  case (Cons c f)
  let ?l = "link_copy e me m c l"
  have t: "fst c \<le> A + 30000000" "A \<le> fst (snd c)" "in_time A f" using Cons.prems(4) by (simp_all add: in_time_def)
  note s = copy_answers[OF assms(1) Cons.prems(1) assms(2-4) Cons.prems(2,3) t(1,2)]
  have "lively me sid A (lk_srv (fold (link_copy e me m) f ?l)) \<and>
    (gets_through f \<or> has_fresh m ?l \<longrightarrow> has_fresh m (fold (link_copy e me m) f ?l))"
    by (rule Cons.IH[OF link_copy_inv[OF Cons.prems(1)] copy_asking[OF assms(1) Cons.prems(1) assms(2-4) Cons.prems(2)] _ t(3)])
      (use s in blast)
  then show ?case using s has_fresh_copy[of m l e me c] by (auto simp: gets_through_def)
qed (simp add: gets_through_def)

lemma send_answers:
  assumes "file_laws (te_fs e) fv" "k < 4" "request sid m" "carries_out e fv k m P ex" "link_inv e held B (lk_srv l)"
    "asking fv me sid k m P ex (arrived l)" "lively me sid A (lk_srv l)" "lk_fates l = f # fs" "in_time A f"
  shows "lively me sid A (lk_srv (link_send e me m l)) \<and> lk_fates (link_send e me m l) = fs \<and>
    (gets_through f \<longrightarrow> has_fresh m (link_send e me m l))"
proof -
  let ?l = "(arrived l)\<lparr>lk_fates := fs\<rparr>"
  have "lk_fates (link_copy e me m c x) = lk_fates x" for c x by (cases c) (simp add: link_copy_def Let_def)
  then have k: "lk_fates (fold (link_copy e me m) cs x) = lk_fates x" for cs x by (induction cs arbitrary: x) simp_all
  have a: "link_inv e held B (lk_srv ?l)" "lively me sid A (lk_srv ?l)" using assms(5,7) by (simp_all add: arrived_def)
  show ?thesis using fate_answers[OF assms(1-4) a(1) asking_fates[OF assms(6)] a(2) assms(9)] k
    by (simp add: link_send_def assms(8))
qed

lemma fresh_attempt:
  assumes "request sid m" "asking fv me sid k m P ex l" "has_fresh m l"
    "attempt (link_net e me) (m ! 2) (m ! 3) f l = (err, f2, l2)" "\<not> f_tcp f"
  shows "err = ESP_OK"
proof -
  have "\<not> unasked fv me sid k m P l" using assms(3) by (auto simp: unasked_def pending_def has_fresh_def)
  then obtain body x1 where b: "asked fv me sid k m ex body x1 l" using assms(2) by (auto simp: asking_def)
  then obtain old new where q: "lk_q l = old @ new" "\<forall>d \<in> set old. stale_for m d" "set new \<subseteq> {take 4 m @ body}"
    by (auto simp: asked_def pending_def)
  have "new \<noteq> []" using assms(3) q by (auto simp: has_fresh_def)
  then have "udp_scan (lk_q l) (m ! 2) (m ! 3) = (Some (take 4 m @ body), tl new)"
    using b unfolding q(1) udp_scan_stale[OF q(2)] by (subst udp_scan_reply[OF assms(1) _ _ q(3)]) (simp_all add: asked_def)
  then show ?thesis using assms(4,5) by (auto simp: attempt_def udp_response_def link_net_def)
qed

lemma attempts_answered:
  assumes "file_laws (te_fs e) fv" "k < 4" "request sid m" "carries_out e fv k m P ex" "\<And>b x. ex b x \<Longrightarrow> b ! 0 \<noteq> TNFS_EAGAIN"
  shows "link_inv e held B (lk_srv l) \<Longrightarrow> asking fv me sid k m P ex (arrived l) \<Longrightarrow> \<not> f_tcp f \<Longrightarrow> lively me sid A (lk_srv l) \<Longrightarrow>
    n \<le> length (lk_fates l) \<Longrightarrow> \<forall>x \<in> set (take n (lk_fates l)). in_time A x \<Longrightarrow> \<exists>x \<in> set (take n (lk_fates l)). gets_through x \<Longrightarrow>
    fst (command_loop (link_net e me) n (m ! 2) (m ! 3) m (f, l)) = ESP_OK"
proof (induction n arbitrary: f l)
  case (Suc n)
  obtain ft fs where fs: "lk_fates l = ft # fs" using Suc.prems(5) by (cases "lk_fates l") auto
  let ?l = "link_send e me m l"
  have t: "in_time A ft" "\<forall>x \<in> set (take n fs). in_time A x" "gets_through ft \<or> (\<exists>x \<in> set (take n fs). gets_through x)"
    using Suc.prems(6,7) by (auto simp: fs)
  have a: "asking fv me sid k m P ex ?l" "link_inv e held B (lk_srv ?l)"
    using link_send_asking[OF assms(1) Suc.prems(1) assms(2-4) Suc.prems(2)] by simp_all
  note s = send_answers[OF assms(1-4) Suc.prems(1,2,4) fs t(1)]
  obtain err f2 l2 where at: "attempt (link_net e me) (m ! 2) (m ! 3) f ?l = (err, f2, l2)" by (metis prod_cases3)
  note r = asking_attempt[OF assms(3) a(1) at Suc.prems(3)]
  have n: "n_send (link_net e me) m l = (True, ?l)" by (simp add: link_net_def)
  have keep: "lk_fates l2 = lk_fates ?l"
    using at Suc.prems(3) by (auto simp: attempt_def udp_response_def link_net_def split: prod.splits)
  show ?case
  proof (cases "err = ESP_OK")
    case True
    then obtain body x1 where b: "f_resp f2 = take 4 m @ body" "ex body x1" "1 \<le> length body" using r by (auto simp: served_def)
    have "f_resp f2 ! 4 = body ! 0" using assms(3) b by (simp add: request_def well_formed_def nth_append)
    then show ?thesis using True assms(5)[OF b(2)] by (simp add: command_loop_Suc n at)
  next
    case False
    then have g: "\<not> gets_through ft" using fresh_attempt[OF assms(3) a(1) _ at Suc.prems(3)] s by blast
    have r2: "asking fv me sid k m P ex l2" "link_inv e held B (lk_srv l2)" "\<not> f_tcp f2" "lively me sid A (lk_srv l2)"
      using r False a(2) s by auto
    have "fst (command_loop (link_net e me) n (m ! 2) (m ! 3) m (f2, l2)) = ESP_OK"
      by (rule Suc.IH[OF r2(2) asking_arrived[OF r2(1)] r2(3,4)]) (use keep s t g Suc.prems(5) fs in auto)
    then show ?thesis using False r2(3) by (simp add: command_loop_Suc n at)
  qed
qed simp

lemma errno_not_eagain: "errno_to_tnfs er \<noteq> TNFS_EAGAIN"
  by (cases er) simp_all

lemma io_handler:
  assumes "cmd = TNFS_LSEEK \<or> cmd = TNFS_READ \<or> cmd = TNFS_WRITE" "handler cmd e pl s c = (body, s', c')"
  shows "s' = s \<and> body ! 0 \<noteq> TNFS_EAGAIN"
  using assms errno_not_eagain
  by (auto simp: handler_def h_lseek_def h_read_def h_write_def Let_def split: if_splits option.splits sum.splits)

text \<open>
  C16. A seek, read or write command is answered when the network lets it: if client and server
  are in step, the session has been active within the last thirty seconds at every turn, and
  at least one of the three attempts reaches the server and its reply comes back in time, then
  \<open>tnfs_command\<close> returns \<open>ESP_OK\<close>, whatever happens to the other copies.
\<close>

theorem command_gets_answer:
  assumes "link_ok e fv held B me (f, l)" "cmd = TNFS_LSEEK \<or> cmd = TNFS_READ \<or> cmd = TNFS_WRITE" "length pl \<le> 1028"
    and "lively me (f_conn f) A (lk_srv l)" "3 \<le> length (lk_fates l)"
    and "\<forall>x \<in> set (take 3 (lk_fates l)). in_time A x" "\<exists>x \<in> set (take 3 (lk_fates l)). gets_through x"
  shows "fst (tnfs_command (link_net e me) cmd pl (f, l)) = ESP_OK"
proof -
  define m where "m = tnfs_wr16 (f_conn f) @ [f_seq f, cmd] @ pl"
  let ?ex = "\<lambda>b x. b ! 0 \<noteq> TNFS_EAGAIN"
  have rq: "request (f_conn f) m" unfolding m_def by (rule request_bytes[OF assms(3)]) (use assms(2) in auto)
  note mf = request_fields[of "f_conn f" "f_seq f" cmd pl, folded m_def]
  have ok: "file_laws (te_fs e) fv" "unat (f_fd f) < 4" "link_inv e held B (lk_srv l)" "\<not> f_tcp f"
    using assms(1) by (simp_all add: link_ok_def)
  have cy: "carries_out e fv (unat (f_fd f)) m (\<lambda>x. True) ?ex"
    unfolding carries_out_def mf(2) using io_handler[OF assms(2)] by blast
  have as: "asking fv me (f_conn f) (unat (f_fd f)) m (\<lambda>x. True) ?ex (arrived l)"
    by (rule link_ok_asking[OF assms(1) mf(1)]) simp
  have "fst (command_loop (link_net e me) 3 (m ! 2) (m ! 3) m (f, l)) = ESP_OK"
    by (rule attempts_answered[OF ok(1,2) rq cy _ ok(3) as ok(4) assms(4-7)])
  then show ?thesis using assms(3) mf(1,2)
    by (simp add: tnfs_command_def Let_def m_def[symmetric] del: append.simps append_Cons append_assoc)
qed

theorem command_gets_answer_witness:
  "let l = demo_link [[], [(0, 0, ReplyLost)], [(0, 0, ReplySent), (0, 0, ReplyLate)]]
   in fst (tnfs_command (link_net demo_tn demo_me) TNFS_LSEEK [0, 0, 2, 0, 0, 0] (demo_client 1, l)) = ESP_OK"
proof -
  have "lively demo_me 7 0 (demo_at [1, 2, 3] 0 (demo_sess False 0 0 []) [])"
    by (auto simp: lively_def demo_at_def demo_sess_def intro: exI[of _ 0])
  then show ?thesis unfolding Let_def
    by (intro command_gets_answer[OF demo_link_ok, where A = 0])
      (simp_all add: demo_link_def demo_client_def file0_def in_time_def gets_through_def numeral_3_eq_3)
qed

end
