(* ===== verification/RemoteDrive.thy ===== *)
theory RemoteDrive
  imports FdcSession TnfsLinkProps
begin

text \<open>
  A READ of a remote drive, from the disk controller to the file on the server and back: the
  FDC engine (\<^verbatim>\<open>src/fdc/fdc.c\<close>), the disk store and its worker (\<^verbatim>\<open>src/disk/disk.c\<close>), the TNFS
  client (\<^verbatim>\<open>src/net/tnfs.c\<close>), a network that loses, repeats and delays datagrams, and the TNFS
  server (\<^verbatim>\<open>src/net/tnfs_server.c\<close>), all of them as modelled. The theories of the parts take
  what they call as arguments; here the arguments are the other parts.
\<close>

section \<open>The parts joined\<close>

text \<open>
  \<open>remote_read_at\<close> calls the client, whose session and network are \<open>cst\<close>; a read that fails has
  filled the buffer as far as it came.
\<close>

definition remote_read_at :: "'w tn_env \<Rightarrow> sockaddr \<Rightarrow> 'w link cstate \<Rightarrow> u32 \<Rightarrow> bytes \<Rightarrow> nat \<Rightarrow> esp_err \<times> bytes" where
  "remote_read_at tn me cst off buf len =
     (case tnfs_read_at (link_net tn me) off len cst of (err, bs, _) \<Rightarrow> (err, memcpy0 bs buf))"

text \<open>The worker runs the job while the engine's task waits for it.\<close>

definition worker_wait :: "disk_env \<Rightarrow> wait_env" where
  "worker_wait e j st = (case diskio_task e st of None \<Rightarrow> (None, st) | Some (r, st) \<Rightarrow> (Some r, st))"

definition served_env :: "disk_env \<Rightarrow> 'w tn_env \<Rightarrow> sockaddr \<Rightarrow> 'w link cstate \<Rightarrow> disk_env" where
  "served_env e tn me cst =
     (let e = e\<lparr>e_tread := (\<lambda>_. remote_read_at tn me cst)\<rparr> in e\<lparr>e_run := worker_wait e\<rparr>)"

text \<open>
  Drive \<open>d\<close> is a remote one whose file is \<open>data\<close>, nothing else is queued; the disk store's own
  theory keeps the contents of remote files in \<open>files\<close>.
\<close>

definition remote_drive :: "disk_state \<Rightarrow> int \<Rightarrow> bytes \<Rightarrow> bool" where
  "remote_drive dk d data \<longleftrightarrow> s_rq dk = Some [] \<and> remote (drv dk d) \<and>
     (\<forall>b. backing_of (drv dk d) = Some b \<longrightarrow> files dk (b_obj b) = data)"

section \<open>Through the disk store\<close>

lemma served_read_at:
  assumes "link_ok tn fv held B me cst" "length (fst (link_look fv me cst)) < 4294967296"
    and "f_pos_valid (fst cst) \<Longrightarrow> link_up me cst \<Longrightarrow> snd (link_look fv me cst) = unat (f_pos (fst cst))"
    and "remote_read_at tn me cst off buf len = (ESP_OK, out)" "len \<le> length buf"
  shows "take len out = slice (unat off) len (fst (link_look fv me cst)) \<and> length out = length buf \<and>
    (0 < len \<longrightarrow> unat off + len \<le> length (fst (link_look fv me cst)))"
proof -
  let ?F = "fst (link_look fv me cst)"
  obtain bs cst' where r: "tnfs_read_at (link_net tn me) off len cst = (ESP_OK, bs, cst')" "out = memcpy0 bs buf"
    using assms(4) by (auto simp: remote_read_at_def split: prod.splits)
  have "link.agree tn fv held B me ?F cst" using assms(1,3) by (simp add: link.agree_def link.pos_ok_def)
  from link.read_loop_exact[OF this assms(2) r(1)[unfolded tnfs_read_at_def]]
  have b: "bs = slice (unat off) len ?F" "0 < len \<longrightarrow> unat off + len \<le> length ?F" by simp_all
  then have "length bs = len" by (cases "len = 0") (simp_all add: slice_def)
  then show ?thesis using b r(2) assms(5) take_memcpy0[of bs buf] by (simp add: length_memcpy0)
qed

lemma served_disk_read:
  assumes "link_ok tn fv held B me cst" "length (fst (link_look fv me cst)) < 4294967296"
    and "f_pos_valid (fst cst) \<Longrightarrow> link_up me cst \<Longrightarrow> snd (link_look fv me cst) = unat (f_pos (fst cst))"
    and inv: "disk_inv None dk" and rem: "remote_drive dk d (fst (link_look fv me cst))"
    and r: "disk_read_track (served_env e tn me cst) d t len True dk = (ESP_OK, w, dk')"
  shows "w = Some (slice (unat t * len) len (fst (link_look fv me cst))) \<and> len \<le> 8192 \<and>
    unat t * len + len \<le> length (fst (link_look fv me cst))"
proof -
  let ?F = "fst (link_look fv me cst)" and ?e = "served_env e tn me cst"
  have chk: "check_track d t len dk = ESP_OK" using r by (auto simp: disk_read_track_def Let_def split: if_splits)
  then obtain b where d: "drive_ok d" "0 < len" "len \<le> 8192" "mounted (drv dk d)" "backing_of (drv dk d) = Some b"
    and t: "disk_track_in_bounds t (of_nat len) (b_size b)" by (auto simp: check_track_ok)
  note D = disk_inv_slotD[OF inv d(1,4,5)] and T = track_region[OF t d(3)]
  have q: "s_rq dk = Some []" and F: "files dk (b_obj b) = ?F" and m: "remote (drv dk d)"
    using rem d(5) by (simp_all add: remote_drive_def)
  obtain f where f: "b_obj b = NetFile f" using D(2) m by (auto simp: is_net_def split: fobj.splits)
  have bound: "unat t * len + len \<le> length ?F" using T(2) D(1) F by simp
  show ?thesis
  proof (cases "cache_copy_out d t len dk")
    case (Some x)
    then have "w = Some x" using r chk by (simp add: disk_read_track_def Let_def split: if_splits)
    moreover have "x = track_data b t len dk" using cache_coh_copy[OF inv Some] d(5) by auto
    ultimately show ?thesis using F bound d(3) by (simp add: track_data_def)
  next
    case None
    let ?j = "\<lparr>jtype = RJOB_READ, jdrive = d, jtrack = t, jlen = len, wdata = [], bclose = None\<rparr>"
    let ?r = "remote_read_at tn me cst (disk_track_offset t (of_nat len)) (s_stage dk) len"
    have stage: "length (s_stage dk) = 8192" "length (s_track_buf dk) = 8192" using inv by (simp_all add: disk_inv_def disk_wf_def)
    obtain st' x where p: "rjob_post_wait (e_sem ?e) (e_room ?e) (e_run ?e)
        (rjob_new_io (e_alloc ?e) (e_malloc ?e) RJOB_READ d t len []) dk = (ESP_OK, st')"
      and w: "cache_copy_out d t len st' = Some x" "w = Some x"
      using r chk None m by (auto simp: disk_read_track_def Let_def split: if_splits prod.splits option.splits)
    have wr: "worker_read (e\<lparr>e_tread := (\<lambda>_. remote_read_at tn me cst)\<rparr>) ?j (dk\<lparr>s_rq := Some []\<rparr>) = (ESP_OK, st')"
      using p q by (auto simp: rjob_post_wait_def rjob_new_io_def rjob_new_def served_env_def Let_def worker_wait_def
          diskio_task_def worker_run_def split: if_splits option.splits prod.splits)
    have chkw: "worker_check False ?j (dk\<lparr>s_rq := Some []\<rparr>) = Some b"
      using d t m by (simp add: worker_check_def)
    obtain er out where ro: "?r = (er, out)" by (metis surj_pair)
    have o: "er = ESP_OK \<and> st' = cache_fill d t len out (dk\<lparr>s_rq := Some [], s_stage := out\<rparr>)"
      using wr chkw f ro by (auto simp: worker_read_def worker_read_io_def worker_read_install_def backing_read_at_def
          Let_def split: if_splits)
    then have "?r = (ESP_OK, out)" using ro by simp
    from served_read_at[OF assms(1-3) this] stage d(3) T(1)
    have out: "take len out = slice (unat t * len) len ?F" "length out = 8192" by simp_all
    have "w = Some (take len out)"
      using w stage d(3) out(2) take_memcpy0[of "take len out" "s_track_buf dk"]
      by (simp add: o cache_fill_def cache_copy_out_def split: if_splits)
    then show ?thesis using out bound d(3) by simp
  qed
qed

section \<open>Over the wire\<close>

lemma read_turn_fails:
  fixes e :: disk_env
  assumes "steady st" "fdc_wf st" "input st = fdc_block ''READ'' w n @ rest"
    and "fst (disk_read_track e (int (unat (fdc_word1_drive w))) (ucast (fdc_word1_track w)) (unat n) True (dsk st)) \<noteq> ESP_OK"
  shows "sent (fdc_serve e st) = sent st"
proof -
  obtain s0 where s0: "fdc_serve e st = dispatch e s0" "s_cmd s0 = fdc_block ''READ'' w n" "dsk s0 = dsk st" "sent s0 = sent st"
    using serve_steady[OF assms(1,2,3)] fdc_block_fields(1)[of "''READ''" w n] by auto
  have f: "fdc_read_le16 (s_cmd (blip s0)) 4 = w" "fdc_read_le16 (s_cmd (blip s0)) 6 = n"
    using fdc_block_fields(3,4)[of "''READ''" w n] by (simp_all add: s0(2))
  show ?thesis
    using assms(4) s0(1,3,4) dispatch_read[OF s0(2)] f by (simp add: handle_read_def Let_def split: prod.splits)
qed


text \<open>The witness: the server's three-byte file as a drive with tracks of one byte; the first reply is lost.\<close>

definition demo_slot :: drive_t where
  "demo_slot = \<lparr>mounted = True, remote = True, readonly = False, dname = ''tnfs://h/A.DSK'', canon = [],
     backing_of = Some \<lparr>b_id = 0, b_obj = NetFile 0, b_size = 3\<rparr>\<rparr>"

definition demo_remote_disk :: disk_state where
  "demo_remote_disk = (disk_boot (\<lambda>_. [1, 2, 3]))\<lparr>s_drv := (replicate 4 empty_drive)[1 := demo_slot], next_id := 1\<rparr>"

lemma demo_remote_nth: "d < 4 \<Longrightarrow> s_drv demo_remote_disk ! d = (if d = 1 then demo_slot else empty_drive)"
  by (simp add: demo_remote_disk_def nth_list_update)

lemma demo_remote_inv: "disk_inv None demo_remote_disk"
proof -
  have "slot_wf demo_remote_disk d (s_drv demo_remote_disk ! d)" if "d < 4" for d
    using that by (auto simp: slot_wf_def demo_remote_nth demo_slot_def empty_drive_def is_net_def)
      (simp_all add: demo_remote_disk_def disk_boot_def)
  then show ?thesis
    by (simp add: disk_inv_def disk_wf_def) (simp add: demo_remote_disk_def disk_boot_def cache_coh_def)
qed

abbreviation (input) demo_bad_link where
  "demo_bad_link \<equiv> (demo_client 1, demo_link [[(0, 0, ReplyLost)], [(0, 0, ReplySent)], [], [(0, 0, ReplySent)]])"

definition demo_remote_env :: disk_env where
  "demo_remote_env = served_env (demo_env\<lparr>e_net := True\<rparr>) demo_tn demo_me demo_bad_link"

definition demo_remote_fdc :: fdc_state where
  "demo_remote_fdc = (demo_fdc (replicate 10 0) [RxBytes (fdc_block ''READ'' 0x1002 1)])\<lparr>dsk := demo_remote_disk\<rparr>"

lemma demo_remote_ok:
  "fst (disk_read_track demo_remote_env 1 2 1 True demo_remote_disk) = ESP_OK"
proof -
  let ?e = "demo_env\<lparr>e_net := True, e_tread := (\<lambda>_. remote_read_at demo_tn demo_me demo_bad_link)\<rparr>"
  let ?j = "\<lparr>jtype = RJOB_READ, jdrive = 1, jtrack = 2, jlen = 1, wdata = [], bclose = None\<rparr>"
  let ?dk = "demo_remote_disk\<lparr>s_rq := Some []\<rparr>"
  obtain st' where r: "tnfs_read_at (link_net demo_tn demo_me) 2 1 demo_bad_link = (ESP_OK, [3], st')"
    by (simp add: link_read_run)
  have d: "drv demo_remote_disk 1 = demo_slot" by (simp add: demo_remote_nth)
  have in_b: "disk_track_in_bounds 2 1 3" by (simp add: track_in_bounds_iff)
  have off: "disk_track_offset 2 1 = 2" by (simp add: disk_track_offset_def)
  have chk: "check_track 1 2 1 demo_remote_disk = ESP_OK"
    using d in_b by (simp add: check_track_ok drive_ok_def demo_slot_def)
  have wc: "worker_check False ?j ?dk = Some \<lparr>b_id = 0, b_obj = NetFile 0, b_size = 3\<rparr>"
    using d in_b by (simp add: worker_check_def drive_ok_def demo_slot_def)
  let ?out = "memcpy0 [3] (s_stage demo_remote_disk)"
  have "worker_read ?e ?j ?dk = (ESP_OK, cache_fill 1 2 1 ?out (?dk\<lparr>s_stage := ?out\<rparr>))"
    using wc r off d by (simp add: worker_read_def worker_read_io_def worker_read_install_def backing_read_at_def
        remote_read_at_def same_backing_def demo_slot_def Let_def)
  then have w: "worker_wait ?e ?j (demo_remote_disk\<lparr>s_rq := Some [?j]\<rparr>) =
      (Some ESP_OK, cache_fill 1 2 1 ?out (?dk\<lparr>s_stage := ?out\<rparr>))"
    by (simp add: worker_wait_def diskio_task_def worker_run_def)
  have env: "e_sem demo_remote_env" "e_room demo_remote_env" "e_alloc demo_remote_env" "e_run demo_remote_env = worker_wait ?e"
    by (simp_all add: demo_remote_env_def served_env_def demo_env_def Let_def)
  have f: "s_lock demo_remote_disk" "cache_copy_out 1 2 1 demo_remote_disk = None" "s_rq demo_remote_disk = Some []"
    by (simp_all add: demo_remote_disk_def disk_boot_def cache_copy_out_def)
  have "rjob_post_wait True True (e_run demo_remote_env) (rjob_new_io True x RJOB_READ 1 2 1 []) demo_remote_disk =
      (ESP_OK, cache_fill 1 2 1 ?out (?dk\<lparr>s_stage := ?out\<rparr>))" for x
    using w f(3) env(4) by (simp add: rjob_post_wait_def rjob_new_io_def rjob_new_def)
  then show ?thesis
    using f(1,2) chk d env(1-3) by (simp add: disk_read_track_def demo_slot_def cache_fill_def cache_copy_out_def)
qed


end
