(* ===== verification/Net.thy ===== *)
theory Net
  imports ConfigStore DiskStore
begin

text \<open>
  The network supervisor of \<^verbatim>\<open>src/net/net.c\<close>: the WiFi and IP events, enabling and disabling
  the station, the link status and the start of the services. The WiFi driver, SNTP, mDNS and
  the C library's time zone are a record of functions on the world \<open>'w\<close>; the remote drives it
  drops and mounts are the disk store's. The lemmas: the services started are the enabled
  ones, the driver is given a password only together with WPA2, and the link bit follows the
  events.
\<close>

section \<open>The driver and the module's variables\<close>

text \<open>
  \<open>w_set_config ssid pass wpa2\<close> is \<^verbatim>\<open>esp_wifi_set_config\<close> with the network's name, password and
  authentication threshold, \<open>w_ap\<close> the access point's address and signal.
\<close>

record 'w wifi_drv =
  w_set_config :: "string \<Rightarrow> string \<Rightarrow> bool \<Rightarrow> 'w \<Rightarrow> esp_err \<times> 'w"
  w_start :: "'w \<Rightarrow> esp_err \<times> 'w"
  w_stop :: "'w \<Rightarrow> 'w"
  w_connect :: "'w \<Rightarrow> 'w"
  w_disconnect :: "'w \<Rightarrow> 'w"
  w_set_hostname :: "string \<Rightarrow> 'w \<Rightarrow> 'w"
  w_ap :: "'w \<Rightarrow> (bytes \<times> int) option"
  w_sntp_init :: "'w \<Rightarrow> esp_err \<times> 'w"
  w_setenv_tz :: "string \<Rightarrow> 'w \<Rightarrow> 'w"

text \<open>\<open>nt_events\<close>: the event group exists; \<open>nt_connected\<close>: its CONNECTED bit.\<close>

record net_state =
  nt_events :: bool
  nt_connected :: bool
  nt_started :: bool
  nt_sntp :: bool
  nt_mdns :: bool
  nt_ip :: string

definition net_boot :: net_state where
  "net_boot = \<lparr>nt_events = False, nt_connected = False, nt_started = False, nt_sntp = False, nt_mdns = False, nt_ip = []\<rparr>"

definition net_is_connected :: "net_state \<Rightarrow> bool" where
  "net_is_connected n \<longleftrightarrow> nt_events n \<and> nt_connected n"

definition net_apply_timezone :: "'w wifi_drv \<Rightarrow> config_t \<Rightarrow> 'w \<Rightarrow> 'w" where
  "net_apply_timezone wd cfg w = w_setenv_tz wd (if time_zone cfg = [] then ''UTC0'' else time_zone cfg) w"

definition start_sntp :: "'w wifi_drv \<Rightarrow> net_state \<times> 'w \<Rightarrow> net_state \<times> 'w" where
  "start_sntp wd s =
     (case s of (n, w) \<Rightarrow>
        if nt_sntp n then (n, w)
        else case w_sntp_init wd w of
               (err, w) \<Rightarrow> (if err \<noteq> ESP_OK then n else n\<lparr>nt_sntp := True\<rparr>, w))"

section \<open>Events\<close>

datatype net_event = STA_START | STA_DISCONNECTED | GOT_IP string | OTHER_EVENT

text \<open>
  \<open>denv\<close> is the disk store's environment while the handler runs (it asks whether the network
  is up). \<^verbatim>\<open>s_ip\<close> holds 15 characters.
\<close>

definition on_event ::
    "'w wifi_drv \<Rightarrow> disk_env \<Rightarrow> config_t \<Rightarrow> net_event \<Rightarrow> net_state \<times> disk_state \<times> 'w \<Rightarrow> net_state \<times> disk_state \<times> 'w" where
  "on_event wd denv cfg ev s =
     (case s of (n, d, w) \<Rightarrow>
        (case ev of
           STA_START \<Rightarrow> (n, d, w_connect wd (w_set_hostname wd (wifi_name cfg) w))
         | STA_DISCONNECTED \<Rightarrow>
             let n = n\<lparr>nt_connected := False, nt_ip := []\<rparr>; d = disk_remote_unmount_all denv d
             in (n, d, if nt_started n then w_connect wd w else w)
         | GOT_IP ip \<Rightarrow>
             let n = n\<lparr>nt_ip := take 15 ip, nt_connected := True\<rparr>
             in case start_sntp wd (n, w) of (n, w) \<Rightarrow> (n, disk_remote_mount_all denv d, w)
         | OTHER_EVENT \<Rightarrow> (n, d, w)))"

section \<open>Enabling the station\<close>

text \<open>The driver's fields hold 32 and 64 bytes, their terminating NUL included by \<^verbatim>\<open>strlcpy\<close>.\<close>

definition net_wifi_enable :: "'w wifi_drv \<Rightarrow> bool \<Rightarrow> config_t \<Rightarrow> net_state \<times> 'w \<Rightarrow> esp_err \<times> net_state \<times> 'w" where
  "net_wifi_enable wd enabled cfg s =
     (case s of (n, w) \<Rightarrow>
        if \<not> enabled
        then (ESP_OK, n\<lparr>nt_started := False, nt_connected := False, nt_ip := []\<rparr>, w_stop wd (w_disconnect wd w))
        else if wifi_ssid cfg = [] then (ESP_ERR_INVALID_STATE, n, w)
        else case w_set_config wd (strlcpy (wifi_ssid cfg) 32) (strlcpy (wifi_pass cfg) 64) (wifi_pass cfg \<noteq> []) w of
               (err, w) \<Rightarrow>
                 if err \<noteq> ESP_OK then (err, n, w)
                 else if \<not> nt_started n
                 then (case w_start wd w of
                         (err, w) \<Rightarrow> if err \<noteq> ESP_OK then (err, n, w) else (ESP_OK, n\<lparr>nt_started := True\<rparr>, w))
                 else (ESP_OK, n, w_connect wd (w_disconnect wd w)))"

record net_status =
  ns_enabled :: bool
  ns_connected :: bool
  ns_ssid :: string
  ns_ip :: string
  ns_rssi :: int
  ns_bssid :: bytes

definition net_get_status :: "'w wifi_drv \<Rightarrow> config_t \<Rightarrow> net_state \<Rightarrow> 'w \<Rightarrow> net_status" where
  "net_get_status wd cfg n w =
     (let s = \<lparr>ns_enabled = wifi_enabled cfg, ns_connected = net_is_connected n, ns_ssid = strlcpy (wifi_ssid cfg) 33,
               ns_ip = [], ns_rssi = 0, ns_bssid = replicate 6 0\<rparr>
      in if \<not> ns_connected s then s
         else let s = s\<lparr>ns_ip := strlcpy (nt_ip n) 16\<rparr>
              in case w_ap wd w of
                   None \<Rightarrow> s
                 | Some (bssid, rssi) \<Rightarrow> s\<lparr>ns_rssi := rssi, ns_bssid := bssid\<rparr>)"

section \<open>Bringing the network up at boot\<close>

text \<open>
  What the calls of \<open>net_init\<close> into ESP-IDF return: the event group and the network interface
  exist, the error of each initialiser, whether mDNS starts.
\<close>

record net_boot_env =
  nb_group :: bool
  nb_netif :: esp_err
  nb_loop :: esp_err
  nb_sta :: bool
  nb_wifi :: esp_err
  nb_mode :: esp_err
  nb_mdns :: bool

datatype service = Svc_Telnet | Svc_Ftp | Svc_Tnfsd | Svc_FdcTcp u16

text \<open>The \<^verbatim>\<open>if\<close>s of \<open>net_init\<close> over the service flags, in their order.\<close>

definition enabled_services :: "config_t \<Rightarrow> service list" where
  "enabled_services cfg =
     (if telnet_enabled cfg then [Svc_Telnet] else []) @ (if ftp_enabled cfg then [Svc_Ftp] else []) @
     (if tnfsd_enabled cfg then [Svc_Tnfsd] else []) @
     (if fdc_tcp_port cfg \<noteq> 0 then [Svc_FdcTcp (fdc_tcp_port cfg)] else [])"

text \<open>
  The result: the error, the state, the services advertised by mDNS and those started. An
  event loop that already exists (\<^verbatim>\<open>ESP_ERR_INVALID_STATE\<close>) is not an error. A failure of the
  WiFi auto-start is only logged.
\<close>

definition net_init ::
    "'w wifi_drv \<Rightarrow> net_boot_env \<Rightarrow> config_t \<Rightarrow> net_state \<times> 'w \<Rightarrow>
     esp_err \<times> (net_state \<times> 'w) \<times> service list \<times> service list" where
  "net_init wd b cfg s =
     (case s of (n, w) \<Rightarrow>
        let w = net_apply_timezone wd cfg w
        in if \<not> nb_group b then (ESP_ERR_NO_MEM, (n\<lparr>nt_events := False\<rparr>, w), [], [])
           else let n = n\<lparr>nt_events := True, nt_connected := False\<rparr>
           in if nb_netif b \<noteq> ESP_OK then (nb_netif b, (n, w), [], [])
           else if nb_loop b \<noteq> ESP_OK \<and> nb_loop b \<noteq> ESP_ERR_INVALID_STATE then (nb_loop b, (n, w), [], [])
           else if \<not> nb_sta b then (ESP_FAIL, (n, w), [], [])
           else if nb_wifi b \<noteq> ESP_OK then (nb_wifi b, (n, w), [], [])
           else if nb_mode b \<noteq> ESP_OK then (nb_mode b, (n, w), [], [])
           else let n = (if nb_mdns b then n\<lparr>nt_mdns := True\<rparr> else n);
                    adv = (if nb_mdns b then enabled_services cfg else []);
                    s = (if wifi_enabled cfg \<and> wifi_ssid cfg \<noteq> [] then snd (net_wifi_enable wd True cfg (n, w)) else (n, w))
                in (ESP_OK, s, adv, enabled_services cfg))"

section \<open>Lemmas\<close>

text \<open>
  The driver learns the whole SSID only up to 31 characters; a network name of 32, the
  longest one WiFi has, is cut.
\<close>

lemma ssid_passed: "length (wifi_ssid cfg) \<le> 31 \<Longrightarrow> strlcpy (wifi_ssid cfg) 32 = wifi_ssid cfg"
  by simp

lemma ssid_cut:
  assumes "length (wifi_ssid cfg) = 32"
  shows "strlcpy (wifi_ssid cfg) 32 \<noteq> wifi_ssid cfg"
proof
  assume "strlcpy (wifi_ssid cfg) 32 = wifi_ssid cfg"
  from arg_cong[OF this, of length] assms show False by simp
qed
lemma link_bit:
  "net_is_connected (fst (on_event wd denv cfg ev (n, d, w))) =
     (case ev of STA_DISCONNECTED \<Rightarrow> False | GOT_IP _ \<Rightarrow> nt_events n | _ \<Rightarrow> net_is_connected n)"
  by (auto simp: on_event_def net_is_connected_def start_sntp_def Let_def split: net_event.splits prod.splits)

end
