(* ===== verification/Cli.thy ===== *)
theory Cli
  imports SdPath ConfigStore FdcEngine Net
begin

text \<open>
  The command line of \<^verbatim>\<open>src/cli/cli.c\<close>: a console with its line editor and output sink, the
  command table's names, the match of an abbreviated command, the tokenizer that works in
  place on the line buffer, the dispatcher and the byte-at-a-time editor. The commands
  themselves are an argument of the dispatcher here; \<open>Commands\<close> and \<open>Batch\<close> supply them.
  \<open>cn_out\<close> is everything handed to the console's \<^verbatim>\<open>write\<close> callback, in order.
\<close>

abbreviation (input) CLI_LINE_MAX :: nat where "CLI_LINE_MAX \<equiv> 200"
abbreviation (input) CLI_MAX_ARGS :: nat where "CLI_MAX_ARGS \<equiv> 8"
abbreviation (input) CLI_PROMPT_MAX :: nat where "CLI_PROMPT_MAX \<equiv> 48"
abbreviation (input) FDCSDS_PRODUCT :: string where "FDCSDS_PRODUCT \<equiv> ''ESP32 FDC+ Serial Disk Server''"
abbreviation (input) FDCSDS_VERSION_STRING :: string where "FDCSDS_VERSION_STRING \<equiv> ''1.0.7''"
abbreviation (input) NUL :: char where "NUL \<equiv> CHR 0x00"
abbreviation (input) CR :: char where "CR \<equiv> CHR 0x0D"
abbreviation (input) LF :: char where "LF \<equiv> CHR 0x0A"

definition crlf :: string where
  "crlf = [CR, LF]"

section \<open>Consoles and the state the commands share\<close>

record console =
  cn_out :: string
  cn_echo :: bool
  cn_network :: bool
  cn_disconnect :: bool
  cn_depth :: nat
  cn_len :: nat
  cn_saw_cr :: bool
  cn_buf :: string

text \<open>
  What a command run on the console \<open>sh_con\<close> can touch: the configuration, the FDC engine
  with the disk store inside it, the network state, the working directory of the running batch file, whether
  \<^verbatim>\<open>esp_restart\<close> was called (it does not return, so nothing runs after it), whether a firmware
  update is under way, and the world \<open>'w\<close>
  outside the firmware (card, flash, network, libraries).
\<close>

record 'w shell =
  sh_con :: console
  sh_cfg :: config_state
  sh_fdc :: fdc_state
  sh_net :: net_state
  sh_cwd :: string
  sh_restarted :: bool
  sh_ota_busy :: bool
  sh_ext :: 'w

section \<open>Output\<close>

definition cli_writen :: "string \<Rightarrow> console \<Rightarrow> console" where
  "cli_writen data c = (if data \<noteq> [] then c\<lparr>cn_out := cn_out c @ data\<rparr> else c)"

text \<open>The argument of \<open>cli_printf\<close> is the text \<^verbatim>\<open>vsnprintf\<close> makes; at most 255 characters fit.\<close>

definition cli_printf :: "string \<Rightarrow> console \<Rightarrow> console" where
  "cli_printf s c = cli_writen (take 255 s) c"

definition say :: "string \<Rightarrow> 'w shell \<Rightarrow> 'w shell" where
  "say s sh = sh\<lparr>sh_con := cli_writen s (sh_con sh)\<rparr>"

definition sayf :: "string \<Rightarrow> 'w shell \<Rightarrow> 'w shell" where
  "sayf s sh = sh\<lparr>sh_con := cli_printf s (sh_con sh)\<rparr>"

definition cli_prompt :: "'w shell \<Rightarrow> 'w shell" where
  "cli_prompt sh = say (config_prompt CLI_PROMPT_MAX (sh_cfg sh)) sh"

section \<open>Matching a command\<close>

text \<open>The handlers, by the name of their C function, and one row of the table.\<close>

datatype cli_cmd =
    Help | Version | Baud | Dir | Mount | Unmount | Stats | Diag | Clear | Log | Save | Wipe | Dump
  | Wifi | Ssid | Pass | Hostname | Telnetd | Ftpd | Tnfsd | Fdctcp | Ftpuser | Ftppass | Update
  | TypeFile | Exec | Logout | Delete | Mkdir | Rmdir | Rename | Copy | Loopback | Time | Tz | Reboot

record cli_command =
  cm_name :: string
  cm_alias :: "string option"
  cm_help :: string
  cm_fn :: cli_cmd
  cm_detail :: "string option"

datatype cli_found = NoCommand | Ambiguous | Found cli_command

definition alias_is :: "(string \<Rightarrow> bool) \<Rightarrow> cli_command \<Rightarrow> bool" where
  "alias_is P t = (case cm_alias t of None \<Rightarrow> False | Some a \<Rightarrow> P a)"

fun match_exact :: "string \<Rightarrow> cli_command list \<Rightarrow> cli_command option" where
  "match_exact tok [] = None"
| "match_exact tok (t # ts) =
     (if strcaseeq tok (cm_name t) then Some t
      else if alias_is (strcaseeq tok) t then Some t
      else match_exact tok ts)"

fun match_prefix :: "string \<Rightarrow> cli_command option \<Rightarrow> nat \<Rightarrow> cli_command list \<Rightarrow> cli_command option \<times> nat" where
  "match_prefix tok hit count [] = (hit, count)"
| "match_prefix tok hit count (t # ts) =
     (if strncaseeq tok (cm_name t) (length tok) \<or> alias_is (\<lambda>a. strncaseeq tok a (length tok)) t
      then match_prefix tok (Some t) (count + 1) ts
      else match_prefix tok hit count ts)"

definition cli_match :: "cli_command list \<Rightarrow> string \<Rightarrow> cli_found" where
  "cli_match table tok =
     (case match_exact tok table of
        Some t \<Rightarrow> Found t
      | None \<Rightarrow>
          (case match_prefix tok None 0 table of
             (hit, count) \<Rightarrow>
               if count = 1 then (case hit of Some t \<Rightarrow> Found t | None \<Rightarrow> NoCommand)
               else if count > 1 then Ambiguous else NoCommand))"

section \<open>The tokenizer\<close>

text \<open>
  The line buffer is a list of characters, \<open>p\<close> and \<open>dst\<close> are indices into it. \<open>cell\<close> is
  \<^verbatim>\<open>*p\<close>: past the end of the buffer it reads NUL, which stops every loop; the tokenizer's
  theorem shows that no index gets past the NUL that ends the line.
\<close>

definition cell :: "string \<Rightarrow> nat \<Rightarrow> char" where
  "cell b p = (if p < length b then b ! p else NUL)"

definition blank :: "char \<Rightarrow> bool" where
  "blank c \<longleftrightarrow> c = CHR '' '' \<or> c = CHR 0x09"

function tok_skip :: "string \<Rightarrow> nat \<Rightarrow> nat" where
  "tok_skip b p = (if blank (cell b p) then tok_skip b (p + 1) else p)"
  by pat_completeness auto
termination
  by (relation "measure (\<lambda>(b, p). length b - p)") (auto simp: cell_def blank_def split: if_splits)

declare tok_skip.simps [simp del]

text \<open>One token compacted onto itself; the result is the buffer, \<open>p\<close> and \<open>dst\<close>.\<close>

function tok_copy :: "string \<Rightarrow> nat \<Rightarrow> nat \<Rightarrow> bool \<Rightarrow> string \<times> nat \<times> nat" where
  "tok_copy b p dst q =
     (if cell b p = NUL then (b, p, dst)
      else if cell b p = CHR 0x22 then tok_copy b (p + 1) dst (\<not> q)
      else if \<not> q \<and> blank (cell b p) then (b, p, dst)
      else tok_copy (b[dst := cell b p]) (p + 1) (dst + 1) q)"
  by pat_completeness auto
termination
  by (relation "measure (\<lambda>(b, p, dst, q). length b - p)") (auto simp: cell_def split: if_splits)

declare tok_copy.simps [simp del]

text \<open>The loop over the tokens: the buffer and the indices of \<^verbatim>\<open>argv[]\<close>.\<close>

function tok_loop :: "string \<Rightarrow> nat \<Rightarrow> nat list \<Rightarrow> string \<times> nat list" where
  "tok_loop b p argv =
     (if cell b p = NUL \<or> length argv \<ge> CLI_MAX_ARGS then (b, argv)
      else let p = tok_skip b p
           in if cell b p = NUL then (b, argv)
              else let start = p; (b, p, dst) = tok_copy b p p False;
                       p = (if cell b p \<noteq> NUL then p + 1 else p)
                   in tok_loop (b[dst := NUL]) p (argv @ [start]))"
  by pat_completeness auto
termination
  by (relation "measure (\<lambda>(b, p, argv). CLI_MAX_ARGS - length argv)") auto

declare tok_loop.simps [simp del]

text \<open>The C string at an index of a buffer.\<close>

definition cstr :: "string \<Rightarrow> nat \<Rightarrow> string" where
  "cstr b i = takeWhile (\<lambda>c. c \<noteq> NUL) (drop i b)"

definition cli_args :: "string \<Rightarrow> string list" where
  "cli_args b = (case tok_loop b 0 [] of (b, argv) \<Rightarrow> map (cstr b) argv)"

section \<open>Dispatching a line\<close>

type_synonym 'w handler = "string list \<Rightarrow> 'w shell \<Rightarrow> nat \<times> 'w shell"

text \<open>
  \<open>table\<close> is \<^verbatim>\<open>cli_commands()\<close>, \<open>run\<close> the handlers behind its rows and \<open>autorun\<close> is
  \<^verbatim>\<open>cli_try_autorun\<close>. The handlers' return value is not used.
\<close>

definition cli_dispatch ::
    "cli_command list \<Rightarrow> (cli_cmd \<Rightarrow> 'w handler) \<Rightarrow> (string \<Rightarrow> 'w shell \<Rightarrow> bool \<times> 'w shell) \<Rightarrow>
     string \<Rightarrow> 'w shell \<Rightarrow> 'w shell" where
  "cli_dispatch table run autorun line sh =
     (case cli_args line of
        [] \<Rightarrow> sh
      | tok # rest \<Rightarrow>
          (case cli_match table tok of
             NoCommand \<Rightarrow>
               (case autorun tok sh of
                  (True, sh) \<Rightarrow> sh
                | (False, sh) \<Rightarrow> sayf (tok @ '': unknown command (try ''@ [CHR 0x27] @ ''help'' @ [CHR 0x27] @ '')'' @ crlf) sh)
           | Ambiguous \<Rightarrow> sayf (tok @ '': ambiguous command (try '' @ [CHR 0x27] @ ''help'' @ [CHR 0x27] @ '')'' @ crlf) sh
           | Found t \<Rightarrow> snd (run (cm_fn t) (tok # rest) sh)))"

section \<open>The line editor\<close>

definition cli_console_init :: "bool \<Rightarrow> console" where
  "cli_console_init echo =
     \<lparr>cn_out = [], cn_echo = echo, cn_network = False, cn_disconnect = False, cn_depth = 0, cn_len = 0,
      cn_saw_cr = False, cn_buf = replicate (CLI_LINE_MAX + 1) NUL\<rparr>"

definition upd_con :: "(console \<Rightarrow> console) \<Rightarrow> 'w shell \<Rightarrow> 'w shell" where
  "upd_con f sh = sh\<lparr>sh_con := f (sh_con sh)\<rparr>"

text \<open>A byte that does not end the line.\<close>

definition cli_key :: "char \<Rightarrow> console \<Rightarrow> console" where
  "cli_key b c =
     (let c = c\<lparr>cn_saw_cr := False\<rparr>
      in if b = CHR 0x08 \<or> b = CHR 0x7F
         then if cn_len c > 0
              then (if cn_echo c then cli_writen [CHR 0x08, CHR '' '', CHR 0x08] else id) (c\<lparr>cn_len := cn_len c - 1\<rparr>)
              else c
         else if b = CHR 0x04
         then if cn_network c then c\<lparr>cn_disconnect := True\<rparr> else c
         else if (of_char b :: nat) \<ge> 0x20 \<and> (of_char b :: nat) \<le> 0x7E
         then if cn_len c < CLI_LINE_MAX
              then (if cn_echo c then cli_writen [b] else id)
                     (c\<lparr>cn_buf := (cn_buf c)[cn_len c := b], cn_len := cn_len c + 1\<rparr>)
              else c
         else c)"

text \<open>
  \<open>disp\<close> is the dispatcher on the line buffer. It tokenizes \<^verbatim>\<open>line[]\<close> in place, but what it
  leaves there is never read again: the length is reset and every later read is below it.
\<close>

definition cli_feed :: "(string \<Rightarrow> 'w shell \<Rightarrow> 'w shell) \<Rightarrow> char \<Rightarrow> 'w shell \<Rightarrow> 'w shell" where
  "cli_feed disp b sh =
     (if b = CR \<or> b = LF
      then if b = LF \<and> cn_saw_cr (sh_con sh) then upd_con (\<lambda>c. c\<lparr>cn_saw_cr := False\<rparr>) sh
           else let sh = upd_con (\<lambda>c. cli_writen crlf (c\<lparr>cn_saw_cr := (b = CR)\<rparr>)) sh;
                    sh = upd_con (\<lambda>c. c\<lparr>cn_buf := (cn_buf c)[cn_len c := NUL]\<rparr>) sh;
                    sh = disp (cn_buf (sh_con sh)) sh;
                    sh = upd_con (\<lambda>c. c\<lparr>cn_len := 0\<rparr>) sh
                in if \<not> cn_disconnect (sh_con sh) \<and> \<not> sh_restarted sh then cli_prompt sh else sh
      else upd_con (cli_key b) sh)"

end
