(* ===== verification/Telnet.thy ===== *)
theory Telnet
  imports Cli "HOL-Library.Multiset"
begin

text \<open>
  The network console of \<^verbatim>\<open>src/net/console.c\<close>: the Telnet filter in front of the line editor,
  its replies, the loop that serves one client, and the task that listens and accepts. What
  goes to the socket is what goes to the console's sink, in order. The lemmas compare the byte-at-a-time state machine with a
  reading of the stream by its grammar (\<open>tel_events\<close>).
\<close>

abbreviation (input) TEL_SE :: byte where "TEL_SE \<equiv> 240"
abbreviation (input) TEL_SB :: byte where "TEL_SB \<equiv> 250"
abbreviation (input) TEL_WILL :: byte where "TEL_WILL \<equiv> 251"
abbreviation (input) TEL_WONT :: byte where "TEL_WONT \<equiv> 252"
abbreviation (input) TEL_DO :: byte where "TEL_DO \<equiv> 253"
abbreviation (input) TEL_DONT :: byte where "TEL_DONT \<equiv> 254"
abbreviation (input) TEL_IAC :: byte where "TEL_IAC \<equiv> 255"
abbreviation (input) TELOPT_ECHO :: byte where "TELOPT_ECHO \<equiv> 1"
abbreviation (input) TELOPT_SGA :: byte where "TELOPT_SGA \<equiv> 3"

section \<open>The filter\<close>

datatype tn_state = TN_DATA | TN_IAC | TN_OPT | TN_SB | TN_SB_IAC

record telnet_t =
  tn_st :: tn_state
  tn_cmd :: byte

definition byte_char :: "byte \<Rightarrow> char" where
  "byte_char b = char_of (unat b)"

text \<open>
  \<open>sock_write\<close>: \<open>tx\<close> holds what the next \<^verbatim>\<open>send\<close> calls return (0 for an error, an empty script
  sends everything); the result is what was sent and the rest of the script.
\<close>

fun sock_write :: "nat list \<Rightarrow> bytes \<Rightarrow> bytes \<times> nat list" where
  "sock_write [] data = (data, [])"
| "sock_write (r # tx) data =
     (if data = [] then ([], r # tx)
      else if r = 0 then ([], tx)
      else (case sock_write tx (drop r data) of (out, tx') \<Rightarrow> (take r data @ out, tx')))"

definition telnet_cmd :: "byte \<Rightarrow> byte \<Rightarrow> 'w shell \<Rightarrow> 'w shell" where
  "telnet_cmd cmd opt sh = say (chars [TEL_IAC, cmd, opt]) sh"

definition telnet_start :: "'w shell \<Rightarrow> 'w shell" where
  "telnet_start sh = telnet_cmd TEL_WILL TELOPT_SGA (telnet_cmd TEL_WILL TELOPT_ECHO sh)"

text \<open>The option byte after WILL, WONT, DO or DONT.\<close>

definition telnet_opt :: "byte \<Rightarrow> byte \<Rightarrow> 'w shell \<Rightarrow> 'w shell" where
  "telnet_opt cmd opt sh =
     (if opt = TELOPT_ECHO \<and> (cmd = TEL_DO \<or> cmd = TEL_DONT)
      then upd_con (\<lambda>c. c\<lparr>cn_echo := (cmd = TEL_DO)\<rparr>) sh
      else if cmd = TEL_DO \<and> opt \<noteq> TELOPT_SGA then telnet_cmd TEL_WONT opt sh
      else if cmd = TEL_WILL then telnet_cmd TEL_DONT opt sh
      else sh)"

definition telnet_feed ::
    "(string \<Rightarrow> 'w shell \<Rightarrow> 'w shell) \<Rightarrow> byte \<Rightarrow> telnet_t \<times> 'w shell \<Rightarrow> telnet_t \<times> 'w shell" where
  "telnet_feed disp b s =
     (case s of (tn, sh) \<Rightarrow>
        (case tn_st tn of
           TN_DATA \<Rightarrow> if b = TEL_IAC then (tn\<lparr>tn_st := TN_IAC\<rparr>, sh) else (tn, cli_feed disp (byte_char b) sh)
         | TN_IAC \<Rightarrow>
             if b = TEL_IAC then (tn\<lparr>tn_st := TN_DATA\<rparr>, cli_feed disp (byte_char b) sh)
             else if b = TEL_WILL \<or> b = TEL_WONT \<or> b = TEL_DO \<or> b = TEL_DONT
             then (tn\<lparr>tn_cmd := b, tn_st := TN_OPT\<rparr>, sh)
             else if b = TEL_SB then (tn\<lparr>tn_st := TN_SB\<rparr>, sh)
             else (tn\<lparr>tn_st := TN_DATA\<rparr>, sh)
         | TN_OPT \<Rightarrow> (tn\<lparr>tn_st := TN_DATA\<rparr>, telnet_opt (tn_cmd tn) b sh)
         | TN_SB \<Rightarrow> ((if b = TEL_IAC then tn\<lparr>tn_st := TN_SB_IAC\<rparr> else tn), sh)
         | TN_SB_IAC \<Rightarrow> (tn\<lparr>tn_st := (if b = TEL_SE then TN_DATA else TN_SB)\<rparr>, sh)))"

section \<open>Serving a client\<close>

text \<open>One return of \<^verbatim>\<open>recv\<close>: data (never empty), end of stream, the timeout, another error.\<close>

datatype recv_ev = Rx_Data bytes | Rx_Closed | Rx_Timeout | Rx_Error

text \<open>The bytes of one read; it stops when a command asked to disconnect.\<close>

fun feed_chunk ::
    "(string \<Rightarrow> 'w shell \<Rightarrow> 'w shell) \<Rightarrow> bytes \<Rightarrow> telnet_t \<times> 'w shell \<Rightarrow> telnet_t \<times> 'w shell" where
  "feed_chunk disp [] s = s"
| "feed_chunk disp (b # bs) s =
     (let s = telnet_feed disp b s
      in if cn_disconnect (sh_con (snd s)) then s else feed_chunk disp bs s)"

text \<open>
  The loop over what happens at its head: whether the link is up and what \<^verbatim>\<open>recv\<close> then
  returns. The result says whether the loop has ended; at the end of the list it still waits.
\<close>

fun serve_loop ::
    "(string \<Rightarrow> 'w shell \<Rightarrow> 'w shell) \<Rightarrow> (bool \<times> recv_ev) list \<Rightarrow> telnet_t \<times> 'w shell \<Rightarrow> bool \<times> telnet_t \<times> 'w shell" where
  "serve_loop disp [] s = (False, s)"
| "serve_loop disp ((up, ev) # evs) s =
     (if \<not> up \<or> cn_disconnect (sh_con (snd s)) then (True, s)
      else case ev of
             Rx_Data bs \<Rightarrow> serve_loop disp evs (feed_chunk disp bs s)
           | Rx_Closed \<Rightarrow> (True, s)
           | Rx_Timeout \<Rightarrow> serve_loop disp evs s
           | Rx_Error \<Rightarrow> (True, s))"

text \<open>\<open>sh\<close> is the state the client's console joins; the banner is written without \<open>cli_printf\<close>.\<close>

definition client_start :: "'w shell \<Rightarrow> telnet_t \<times> 'w shell" where
  "client_start sh =
     (let sh = sh\<lparr>sh_con := (cli_console_init False)\<lparr>cn_network := True\<rparr>\<rparr>;
          sh = telnet_start sh;
          sh = say (crlf @ FDCSDS_PRODUCT @ '' '' @ FDCSDS_VERSION_STRING @ crlf @ crlf) sh
      in (\<lparr>tn_st = TN_DATA, tn_cmd = 0\<rparr>, cli_prompt sh))"

definition serve_client ::
    "(string \<Rightarrow> 'w shell \<Rightarrow> 'w shell) \<Rightarrow> (bool \<times> recv_ev) list \<Rightarrow> 'w shell \<Rightarrow> bool \<times> telnet_t \<times> 'w shell" where
  "serve_client disp evs sh = serve_loop disp evs (client_start sh)"

section \<open>The task\<close>

text \<open>
  The task's variables: the listening socket, and logs of the descriptors it got from
  \<^verbatim>\<open>socket\<close> and \<^verbatim>\<open>accept\<close> and of those it closed.
\<close>

record 'w console_task =
  ct_lfd :: "int option"
  ct_opened :: "int list"
  ct_closed :: "int list"
  ct_shell :: "'w shell"

text \<open>
  What one turn of a loop meets. \<open>Ce_socket fd ok\<close>: the link is up, \<^verbatim>\<open>socket\<close> returns \<open>fd\<close> and
  \<open>ok\<close> says whether \<^verbatim>\<open>bind\<close> and \<^verbatim>\<open>listen\<close> succeed. \<open>Ce_accept fd evs\<close>: the link is up, \<^verbatim>\<open>accept\<close>
  returns \<open>fd\<close> and the client then gives rise to \<open>evs\<close>. \<open>Ce_down\<close>: the link is down at the head
  of the inner loop.
\<close>

datatype console_ev = Ce_socket int bool | Ce_accept int "(bool \<times> recv_ev) list" | Ce_down

text \<open>\<open>None\<close>: the task does not wait for such a thing now, or is still serving the client.\<close>

definition console_step ::
    "(string \<Rightarrow> 'w shell \<Rightarrow> 'w shell) \<Rightarrow> console_ev \<Rightarrow> 'w console_task \<Rightarrow> 'w console_task option" where
  "console_step disp ev t =
     (case (ct_lfd t, ev) of
        (None, Ce_socket fd ok) \<Rightarrow>
          if fd < 0 then Some t
          else let t = t\<lparr>ct_opened := ct_opened t @ [fd]\<rparr>
               in if \<not> ok then Some (t\<lparr>ct_closed := ct_closed t @ [fd]\<rparr>)
                  else Some (t\<lparr>ct_lfd := Some fd\<rparr>)
      | (Some lfd, Ce_accept fd evs) \<Rightarrow>
          if fd < 0 then Some t
          else (case serve_client disp evs (ct_shell t) of (ended, tn, sh) \<Rightarrow>
                  if \<not> ended then None
                  else Some (t\<lparr>ct_opened := ct_opened t @ [fd], ct_closed := ct_closed t @ [fd], ct_shell := sh\<rparr>))
      | (Some lfd, Ce_down) \<Rightarrow> Some (t\<lparr>ct_closed := ct_closed t @ [lfd], ct_lfd := None\<rparr>)
      | _ \<Rightarrow> None)"

fun console_run ::
    "(string \<Rightarrow> 'w shell \<Rightarrow> 'w shell) \<Rightarrow> console_ev list \<Rightarrow> 'w console_task \<Rightarrow> 'w console_task option" where
  "console_run disp [] t = Some t"
| "console_run disp (ev # evs) t =
     (case console_step disp ev t of None \<Rightarrow> None | Some t \<Rightarrow> console_run disp evs t)"

text \<open>Between two clients the only descriptor that is open is the listening socket.\<close>

definition console_sockets :: "'w console_task \<Rightarrow> bool" where
  "console_sockets t \<longleftrightarrow>
     mset (ct_opened t) = mset (ct_closed t) + (case ct_lfd t of None \<Rightarrow> {#} | Some fd \<Rightarrow> {#fd#})"

lemma console_step_sockets:
  "console_sockets t \<Longrightarrow> console_step disp ev t = Some t' \<Longrightarrow> console_sockets t'"
  by (auto simp: console_step_def console_sockets_def Let_def
      split: option.splits console_ev.splits if_splits prod.splits)

lemma console_run_sockets:
  "console_sockets t \<Longrightarrow> console_run disp evs t = Some t' \<Longrightarrow> console_sockets t'"
  by (induction evs arbitrary: t) (auto split: option.splits dest: console_step_sockets)

lemma console_starts_without_sockets:
  "console_sockets \<lparr>ct_lfd = None, ct_opened = [], ct_closed = [], ct_shell = sh\<rparr>"
  by (simp add: console_sockets_def)

section \<open>The stream's grammar\<close>

text \<open>
  What a received stream says: a data byte, or an option command. A command of two bytes says
  nothing, a subnegotiation is skipped up to its IAC SE, and a sequence the stream ends in
  says nothing yet.
\<close>

datatype tel_ev = TelKey byte | TelOption byte byte

definition is_opt_cmd :: "byte \<Rightarrow> bool" where
  "is_opt_cmd b \<longleftrightarrow> b = TEL_WILL \<or> b = TEL_WONT \<or> b = TEL_DO \<or> b = TEL_DONT"

fun after_sb :: "bytes \<Rightarrow> bytes" where
  "after_sb [] = []"
| "after_sb [b] = []"
| "after_sb (b # c # r) = (if b = TEL_IAC then (if c = TEL_SE then r else after_sb r) else after_sb (c # r))"

lemma length_after_sb: "length (after_sb r) \<le> length r"
  by (induction r rule: after_sb.induct) auto

function tel_events :: "bytes \<Rightarrow> tel_ev list" where
  "tel_events bs =
     (case bs of
        [] \<Rightarrow> []
      | b # r \<Rightarrow>
          if b \<noteq> TEL_IAC then TelKey b # tel_events r
          else case r of
                 [] \<Rightarrow> []
               | c # r \<Rightarrow>
                   if c = TEL_IAC then TelKey TEL_IAC # tel_events r
                   else if is_opt_cmd c
                   then (case r of [] \<Rightarrow> [] | opt # r \<Rightarrow> TelOption c opt # tel_events r)
                   else if c = TEL_SB then tel_events (after_sb r)
                   else tel_events r)"
  by pat_completeness auto
termination
  by (relation "measure length") (auto simp: le_imp_less_Suc length_after_sb less_SucI)

declare tel_events.simps [simp del]

text \<open>What each of these does to the console.\<close>

fun tel_act :: "(string \<Rightarrow> 'w shell \<Rightarrow> 'w shell) \<Rightarrow> tel_ev \<Rightarrow> 'w shell \<Rightarrow> 'w shell" where
  "tel_act disp (TelKey b) sh = cli_feed disp (byte_char b) sh"
| "tel_act disp (TelOption cmd opt) sh = telnet_opt cmd opt sh"

section \<open>Lemmas\<close>

lemma feed_step:
  "tn_st tn = TN_DATA \<Longrightarrow> telnet_feed disp b (tn, sh) =
     (if b = TEL_IAC then (tn\<lparr>tn_st := TN_IAC\<rparr>, sh) else (tn, cli_feed disp (byte_char b) sh))"
  "tn_st tn = TN_IAC \<Longrightarrow> telnet_feed disp b (tn, sh) =
     (if b = TEL_IAC then (tn\<lparr>tn_st := TN_DATA\<rparr>, cli_feed disp (byte_char b) sh)
      else if is_opt_cmd b then (tn\<lparr>tn_cmd := b, tn_st := TN_OPT\<rparr>, sh)
      else if b = TEL_SB then (tn\<lparr>tn_st := TN_SB\<rparr>, sh) else (tn\<lparr>tn_st := TN_DATA\<rparr>, sh))"
  "tn_st tn = TN_OPT \<Longrightarrow> telnet_feed disp b (tn, sh) = (tn\<lparr>tn_st := TN_DATA\<rparr>, telnet_opt (tn_cmd tn) b sh)"
  "tn_st tn = TN_SB \<Longrightarrow> telnet_feed disp b (tn, sh) = ((if b = TEL_IAC then tn\<lparr>tn_st := TN_SB_IAC\<rparr> else tn), sh)"
  "tn_st tn = TN_SB_IAC \<Longrightarrow> telnet_feed disp b (tn, sh) = (tn\<lparr>tn_st := (if b = TEL_SE then TN_DATA else TN_SB)\<rparr>, sh)"
  by (simp_all add: telnet_feed_def is_opt_cmd_def)

lemma tel_events_simps [simp]:
  "tel_events [] = []"
  "b \<noteq> TEL_IAC \<Longrightarrow> tel_events (b # r) = TelKey b # tel_events r"
  "tel_events [TEL_IAC] = []"
  "tel_events (TEL_IAC # TEL_IAC # r) = TelKey TEL_IAC # tel_events r"
  "is_opt_cmd c \<Longrightarrow> tel_events [TEL_IAC, c] = []"
  "is_opt_cmd c \<Longrightarrow> tel_events (TEL_IAC # c # opt # r) = TelOption c opt # tel_events r"
  "tel_events (TEL_IAC # TEL_SB # r) = tel_events (after_sb r)"
  "c \<noteq> TEL_IAC \<Longrightarrow> \<not> is_opt_cmd c \<Longrightarrow> c \<noteq> TEL_SB \<Longrightarrow> tel_events (TEL_IAC # c # r) = tel_events r"
  by (auto simp: tel_events.simps[of "_ # _"] tel_events.simps[of "[]"] is_opt_cmd_def)

lemma feed_sb:
  assumes "tn_st tn = TN_SB"
  shows "\<exists>tn'. snd (fold (telnet_feed disp) bs (tn, sh)) = snd (fold (telnet_feed disp) (after_sb bs) (tn', sh)) \<and>
               tn_st tn' = TN_DATA"
  using assms
proof (induction bs arbitrary: tn rule: after_sb.induct)
  case 1
  then show ?case by (auto intro: exI[of _ "tn\<lparr>tn_st := TN_DATA\<rparr>"])
next
  case (2 b)
  then show ?case by (auto simp: feed_step intro: exI[of _ "tn\<lparr>tn_st := TN_DATA\<rparr>"])
next
  case (3 b c r)
  show ?case
  proof (cases "b = TEL_IAC")
    case iac: True
    show ?thesis
    proof (cases "c = TEL_SE")
      case True
      with iac 3(3) show ?thesis
        by (auto simp: feed_step intro: exI[of _ "tn\<lparr>tn_st := TN_DATA\<rparr>"])
    next
      case False
      from 3(1)[OF iac False, of "tn\<lparr>tn_st := TN_SB\<rparr>"] iac False 3(3) show ?thesis
        by (simp add: feed_step)
    qed
  next
    case False
    with 3(2)[OF False 3(3)] 3(3) show ?thesis by (simp add: feed_step)
  qed
qed

lemma feed_stream:
  assumes "tn_st tn = TN_DATA"
  shows "snd (fold (telnet_feed disp) bs (tn, sh)) = fold (tel_act disp) (tel_events bs) sh"
  using assms
proof (induction "length bs" arbitrary: bs tn sh rule: less_induct)
  case less
  show ?case
  proof (cases bs)
    case Nil
    then show ?thesis by simp
  next
    case (Cons b r)
    consider (key) "b \<noteq> TEL_IAC" | (short) "b = TEL_IAC" "r = []" | (cmd) c q where "b = TEL_IAC" "r = c # q"
      by (cases r) auto
    then show ?thesis
    proof cases
      case key
      with less(1)[of r tn] less(2) Cons show ?thesis by (simp add: feed_step)
    next
      case short
      with less(2) Cons show ?thesis by (simp add: feed_step)
    next
      case cmd
      have iac: "telnet_feed disp b (tn, sh) = (tn\<lparr>tn_st := TN_IAC\<rparr>, sh)"
        using cmd less(2) by (simp add: feed_step)
      consider (esc) "c = TEL_IAC" | (opt) "c \<noteq> TEL_IAC" "is_opt_cmd c" | (sb) "c = TEL_SB"
        | (two) "c \<noteq> TEL_IAC" "\<not> is_opt_cmd c" "c \<noteq> TEL_SB" by blast
      then show ?thesis
      proof cases
        case esc
        with less(1)[of q "tn\<lparr>tn_st := TN_DATA\<rparr>"] Cons cmd iac show ?thesis by (simp add: feed_step)
      next
        case opt
        show ?thesis
        proof (cases q)
          case Nil
          with opt Cons cmd iac show ?thesis by (simp add: feed_step)
        next
          case q: (Cons o' q')
          with less(1)[of q' "tn\<lparr>tn_cmd := c, tn_st := TN_DATA\<rparr>"] opt Cons cmd iac show ?thesis
            by (simp add: feed_step)
        qed
      next
        case sb
        have "\<not> is_opt_cmd c" using sb by (simp add: is_opt_cmd_def)
        obtain tn' where "snd (fold (telnet_feed disp) q (tn\<lparr>tn_st := TN_SB\<rparr>, sh)) =
            snd (fold (telnet_feed disp) (after_sb q) (tn', sh))" "tn_st tn' = TN_DATA"
          using feed_sb[of "tn\<lparr>tn_st := TN_SB\<rparr>" disp q sh] by auto
        moreover have "length (after_sb q) < length bs"
          using length_after_sb[of q] Cons cmd by simp
        ultimately show ?thesis
          using less(1)[of "after_sb q" tn'] sb \<open>\<not> is_opt_cmd c\<close> Cons cmd iac by (simp add: feed_step)
      next
        case two
        with less(1)[of q "tn\<lparr>tn_st := TN_DATA\<rparr>"] Cons cmd iac show ?thesis by (simp add: feed_step)
      qed
    qed
  qed
qed

section \<open>The property\<close>


end
