(* ===== verification/FdcListener.thy ===== *)
theory FdcListener
  imports FdcProps "HOL-Library.Multiset"
begin

text \<open>
  The listener task of \<^verbatim>\<open>src/net/fdc_tcp.c\<close> beside the FDC engine: it accepts clients and hands
  each to the engine, which closes it when the client or the link goes away. The lemmas follow
  every accepted socket: it waits for the engine, is attached to it, or has been closed once.
\<close>

section \<open>The task\<close>

text \<open>
  \<open>TlWait\<close> is the wait for the link at the head of the loop, \<open>TlListen lfd\<close> the accept loop.
  \<open>tl_accepted\<close> and \<open>tl_closed\<close> log the sockets \<^verbatim>\<open>accept\<close> returned and those this task closed.
\<close>

datatype tl_phase = TlWait | TlListen int

record listener =
  tl_port :: u16
  tl_phase :: tl_phase
  tl_accepted :: "int list"
  tl_closed :: "int list"

definition net_fdc_tcp_start :: "u16 \<Rightarrow> bool \<Rightarrow> esp_err \<times> listener option" where
  "net_fdc_tcp_start port task_ok =
     (if task_ok
      then (ESP_OK, Some \<lparr>tl_port = port, tl_phase = TlWait, tl_accepted = [], tl_closed = []\<rparr>)
      else (ESP_ERR_NO_MEM, None))"

text \<open>The head of the loop, run when the task starts and whenever the body ends.\<close>

definition tl_head :: "listener \<times> fdc_state \<Rightarrow> listener \<times> fdc_state" where
  "tl_head s = (case s of (l, st) \<Rightarrow> (l\<lparr>tl_phase := TlWait\<rparr>, fdc_tcp_set_state FDC_TCP_OFF (tl_port l) st))"

text \<open>
  The link is up: \<open>sock\<close> is what \<^verbatim>\<open>socket\<close> returns (\<open>None\<close> for an error) and \<open>bound\<close> whether
  \<^verbatim>\<open>bind\<close> and \<^verbatim>\<open>listen\<close> succeed.
\<close>

definition tl_open :: "int option \<Rightarrow> bool \<Rightarrow> listener \<times> fdc_state \<Rightarrow> listener \<times> fdc_state" where
  "tl_open sock bound s =
     (case s of (l, st) \<Rightarrow>
        (case sock of
           None \<Rightarrow> tl_head (l, st)
         | Some lfd \<Rightarrow>
             if \<not> bound then tl_head (l, st)
             else (l\<lparr>tl_phase := TlListen lfd\<rparr>, fdc_tcp_set_state FDC_TCP_LISTENING (tl_port l) st)))"

text \<open>One \<^verbatim>\<open>accept\<close>: \<open>None\<close> is the timeout, else the socket and \<^verbatim>\<open>"address:port"\<close>.\<close>

definition tl_accept :: "(int \<times> string) option \<Rightarrow> listener \<times> fdc_state \<Rightarrow> listener \<times> fdc_state" where
  "tl_accept conn s =
     (case s of (l, st) \<Rightarrow>
        (case conn of
           None \<Rightarrow> (l, st)
         | Some (cfd, peer) \<Rightarrow>
             let who = take 23 peer; l = l\<lparr>tl_accepted := cfd # tl_accepted l\<rparr>
             in case fdc_tcp_attach cfd (Some who) st of
                  (ok, st) \<Rightarrow> if \<not> ok then (l\<lparr>tl_closed := cfd # tl_closed l\<rparr>, st) else (l, st)))"

text \<open>The link is down: the accept loop ends.\<close>

definition tl_down :: "listener \<times> fdc_state \<Rightarrow> listener \<times> fdc_state" where
  "tl_down s = (case s of (l, st) \<Rightarrow> tl_head (l, fdc_tcp_detach st))"

section \<open>The listener and the engine together\<close>

text \<open>What of the engine's state is about sockets.\<close>

definition socks :: "fdc_state \<Rightarrow> int \<times> int \<times> bool \<times> int list" where
  "socks st = (s_tcp_pending st, s_tcp_fd st, s_tcp_active st, fds_closed st)"

text \<open>
  The two tasks interleave; between their steps the other tasks may change the engine's state
  (a new baud rate, cleared counters, mounted disks) but not its sockets.
\<close>

inductive tl_step :: "listener \<times> fdc_state \<Rightarrow> listener \<times> fdc_state \<Rightarrow> bool" where
  tl_step_open: "tl_phase l = TlWait \<Longrightarrow> tl_step (l, st) (tl_open sock bound (l, st))"
| tl_step_accept: "tl_phase l = TlListen lfd \<Longrightarrow> (\<forall>fd who. conn = Some (fd, who) \<longrightarrow> fd \<ge> 0) \<Longrightarrow>
    tl_step (l, st) (tl_accept conn (l, st))"
| tl_step_down: "tl_phase l = TlListen lfd \<Longrightarrow> tl_step (l, st) (tl_down (l, st))"
| tl_step_engine: "tl_step (l, st) (l, fdc_task_iter f st)"
| tl_step_other: "socks st' = socks st \<Longrightarrow> tl_step (l, st) (l, st')"

inductive tl_reach :: "listener \<times> fdc_state \<Rightarrow> bool" where
  tl_reach_start: "net_fdc_tcp_start port True = (ESP_OK, Some l) \<Longrightarrow> socks st = (-1, -1, False, []) \<Longrightarrow>
    tl_reach (tl_head (l, st))"
| tl_reach_step: "tl_reach s \<Longrightarrow> tl_step s s' \<Longrightarrow> tl_reach s'"

inductive_cases tl_stepE: "tl_step s s'"

section \<open>The engine's handlers leave the sockets alone\<close>

named_theorems socks_simps "operations of the engine that do not touch its sockets"

lemma socks_plain [socks_simps]:
  "socks (upd_stats f st) = socks st" "socks (set_last_op t st) = socks st"
  "socks (led_status_blip st) = socks st" "socks (led_drive_select n st) = socks st"
  "socks (led_drive_clear st) = socks st" "socks (led_drive_activity st) = socks st"
  "socks (uart_flush_input st) = socks st" "socks (build_resp c a b st) = socks st"
  "socks (st\<lparr>s_cmd := x\<rparr>) = socks st" "socks (st\<lparr>s_data := y\<rparr>) = socks st" "socks (st\<lparr>dsk := d\<rparr>) = socks st"
  "socks (st\<lparr>s_lb_req := r\<rparr>) = socks st" "socks (st\<lparr>s_lb_done := r\<rparr>) = socks st"
  by (simp_all add: socks_def upd_stats_def set_last_op_def led_status_blip_def led_drive_select_def
      led_drive_clear_def led_drive_activity_def uart_flush_input_def build_resp_def Let_def)

lemma socks_flush [socks_simps]: "socks (link_flush_input st) = socks st"
  by (auto simp: link_flush_input_def uart_flush_input_def tcp_flush_input_def socks_def split: list.splits rx_ev.splits)

lemma socks_send [socks_simps]: "socks (link_send b st) = socks st"
  by (simp add: link_send_def socks_def split: prod.splits)

lemma socks_recv: "link_recv n st = (got, st') \<Longrightarrow> socks st' = socks st"
  by (auto simp: link_recv_def socks_def split: if_splits prod.splits)

lemma socks_stat [socks_simps]: "socks (handle_stat st) = socks st"
  by (simp add: handle_stat_def Let_def socks_simps)

lemma socks_read [socks_simps]: "socks (handle_read e st) = socks st"
  by (simp add: handle_read_def Let_def socks_simps split: prod.splits)

lemma socks_writ_timeout [socks_simps]: "socks (writ_timeout d t l r st) = socks st"
  by (simp add: writ_timeout_def socks_simps)

lemma socks_writ_commit: "writ_commit e d t l ck st = (code, st') \<Longrightarrow> socks st' = socks st"
  by (auto simp: writ_commit_def Let_def socks_simps split: if_splits prod.splits)

lemma socks_writ [socks_simps]: "socks (handle_writ e st) = socks st"
  by (auto simp: handle_writ_def Let_def socks_simps split: prod.splits dest!: socks_recv socks_writ_commit)

lemma socks_dispatch [socks_simps]: "socks (dispatch e st) = socks st"
  by (simp add: dispatch_def Let_def socks_simps)

lemma socks_serve [socks_simps]: "socks (fdc_serve e st) = socks st"
  by (auto simp: fdc_serve_def Let_def socks_simps split: prod.splits dest!: socks_recv)

lemma socks_loopback [socks_simps]: "socks (run_loopback echo st) = socks st"
  by (simp add: run_loopback_def Let_def socks_def uart_flush_input_def split: prod.splits)

lemma socks_baud [socks_simps]: "socks (apply_pending_baud ok st) = socks st"
  by (simp add: apply_pending_baud_def Let_def socks_def uart_flush_input_def)

lemma socks_events [socks_simps]: "socks (fold uart_event evs st) = socks st"
  by (induction evs arbitrary: st) (simp_all add: uart_event_def socks_simps split: uart_ev.splits)

lemma socks_drain [socks_simps]: "socks (drain_uart_events st) = socks st"
  using socks_events[of "uart_evts st" st] by (simp add: drain_uart_events_def socks_def)

lemma socks_iter: "\<exists>st1. socks st1 = socks st \<and> socks (fdc_task_iter f st) = socks (tcp_service (f_tcp_in f) st1)"
proof (intro exI conjI)
  show "socks (drain_uart_events (apply_pending_baud (f_baud f) st)) = socks st" by (simp add: socks_simps)
  show "socks (fdc_task_iter f st) =
      socks (tcp_service (f_tcp_in f) (drain_uart_events (apply_pending_baud (f_baud f) st)))"
    by (simp add: fdc_task_iter_def Let_def socks_simps)
qed

section \<open>Where every accepted socket is\<close>

definition held :: "int \<Rightarrow> int multiset" where
  "held fd = (if fd \<ge> 0 then {#fd#} else {#})"

text \<open>
  Active means that a socket is pending or attached, never both; and every accepted socket
  is pending, attached, closed by the engine or closed by the listener.
\<close>

definition sock_inv :: "listener \<times> fdc_state \<Rightarrow> bool" where
  "sock_inv s \<longleftrightarrow> (case s of (l, st) \<Rightarrow>
     (s_tcp_active st \<longleftrightarrow> s_tcp_pending st \<ge> 0 \<or> s_tcp_fd st \<ge> 0) \<and>
     \<not> (s_tcp_pending st \<ge> 0 \<and> s_tcp_fd st \<ge> 0) \<and>
     mset (tl_accepted l) = held (s_tcp_pending st) + held (s_tcp_fd st) + mset (fds_closed st) + mset (tl_closed l))"

lemma sock_inv_socks: "socks st = socks st' \<Longrightarrow> sock_inv (l, st) \<longleftrightarrow> sock_inv (l, st')"
  by (simp add: sock_inv_def socks_def)

lemma sock_inv_service:
  assumes "sock_inv (l, st)"
  shows "sock_inv (l, tcp_service inp st)"
  using assms
  by (auto simp: sock_inv_def tcp_service_def tcp_drop_def led_drive_clear_def upd_stats_def on_tcp_def held_def Let_def)

lemma socks_set_state [socks_simps]: "socks (fdc_tcp_set_state s p st) = socks st"
  by (simp add: fdc_tcp_set_state_def socks_simps)

lemma sock_inv_step:
  assumes "tl_step s s'" "sock_inv s"
  shows "sock_inv s'"
  using assms
proof (induction rule: tl_step.induct)
  case (tl_step_open l st sock bound)
  then show ?case
    by (auto simp: tl_open_def tl_head_def fdc_tcp_set_state_def upd_stats_def sock_inv_def split: option.splits)
next
  case (tl_step_accept l lfd conn st)
  then show ?case
    by (cases conn) (auto simp: tl_accept_def fdc_tcp_attach_def sock_inv_def upd_stats_def held_def Let_def split: if_splits)
next
  case (tl_step_down l lfd st)
  then show ?case
    by (simp add: tl_down_def tl_head_def fdc_tcp_detach_def fdc_tcp_set_state_def upd_stats_def sock_inv_def)
next
  case (tl_step_engine l st f)
  obtain st1 where "socks st1 = socks st" "socks (fdc_task_iter f st) = socks (tcp_service (f_tcp_in f) st1)"
    using socks_iter by blast
  with tl_step_engine show ?case using sock_inv_service sock_inv_socks by metis
next
  case (tl_step_other st' st l)
  then show ?case using sock_inv_socks by metis
qed

lemma sock_inv_reach: "tl_reach s \<Longrightarrow> sock_inv s"
proof (induction rule: tl_reach.induct)
  case (tl_reach_start port l st)
  then show ?case
    by (auto simp: net_fdc_tcp_start_def tl_head_def fdc_tcp_set_state_def upd_stats_def sock_inv_def socks_def held_def)
qed (rule sock_inv_step)

text \<open>
  When the link drops, an attached client is closed by the engine's next iteration. A client
  that is still pending is not: adopting it clears the request, so it stays attached on the
  dead link until its keepalive runs out.
\<close>

lemma link_drop_closes:
  assumes "s_tcp_active st" "s_tcp_fd st \<ge> 0" "s_tcp_pending st < 0"
  shows "socks (tcp_service inp (fdc_tcp_detach st)) = (s_tcp_pending st, -1, False, s_tcp_fd st # fds_closed st)"
  using assms
  by (simp add: socks_def fdc_tcp_detach_def tcp_service_def tcp_drop_def led_drive_clear_def upd_stats_def on_tcp_def Let_def)

lemma link_drop_forgotten:
  assumes "s_tcp_active st" "s_tcp_fd st < 0" "s_tcp_pending st \<ge> 0"
  shows "socks (tcp_service inp (fdc_tcp_detach st)) = (-1, s_tcp_pending st, True, fds_closed st) \<and>
         \<not> s_tcp_kick (tcp_service inp (fdc_tcp_detach st))"
  using assms by (simp add: socks_def fdc_tcp_detach_def tcp_service_def upd_stats_def on_tcp_def Let_def)

text \<open>
  C31. No client socket is lost or closed twice. Whatever the network does and however the
  listener and the engine interleave, every socket \<^verbatim>\<open>accept\<close> returned is waiting for the
  engine, attached to it, or has been closed exactly once by one of the two tasks; and the
  engine is marked busy exactly while one client waits or is attached, so at most one is.
\<close>

theorem client_sockets_accounted:
  assumes "tl_reach (l, st)"
  shows "mset (tl_accepted l) = held (s_tcp_pending st) + held (s_tcp_fd st) + mset (fds_closed st) + mset (tl_closed l) \<and>
         (fdc_tcp_busy st \<longleftrightarrow> s_tcp_pending st \<ge> 0 \<or> s_tcp_fd st \<ge> 0) \<and>
         \<not> (s_tcp_pending st \<ge> 0 \<and> s_tcp_fd st \<ge> 0)"
  using sock_inv_reach[OF assms] by (auto simp: sock_inv_def fdc_tcp_busy_def)

lemma tl_accept_phase [simp]: "tl_phase (fst (tl_accept conn s)) = tl_phase (fst s)"
  by (auto simp: tl_accept_def Let_def split: prod.splits option.splits)

text \<open>A client is accepted and waits; the next one is refused and closed.\<close>

definition demo_accepted :: "listener \<times> fdc_state" where
  "demo_accepted =
     tl_accept (Some (5, ''10.0.0.3:1025'')) (tl_accept (Some (4, ''10.0.0.2:1024''))
       (tl_open (Some 3) True
         (tl_head (\<lparr>tl_port = 8080, tl_phase = TlWait, tl_accepted = [], tl_closed = []\<rparr>, demo_fdc (replicate 10 0) []))))"

theorem client_sockets_accounted_witness:
  "case demo_accepted of (l, st) \<Rightarrow>
     tl_accepted l = [5, 4] \<and> tl_closed l = [5] \<and> fdc_tcp_busy st \<and>
     mset (tl_accepted l) = held (s_tcp_pending st) + held (s_tcp_fd st) + mset (fds_closed st) + mset (tl_closed l)"
proof -
  let ?l = "\<lparr>tl_port = 8080, tl_phase = TlWait, tl_accepted = [], tl_closed = []\<rparr>"
  let ?s0 = "tl_head (?l, demo_fdc (replicate 10 0) [])"
  have r0: "tl_reach ?s0"
    by (rule tl_reach_start) (simp_all add: net_fdc_tcp_start_def socks_def demo_fdc_def)
  have r1: "tl_reach (tl_open (Some 3) True ?s0)"
    using tl_reach_step[OF r0 tl_step_open[of "fst ?s0" "snd ?s0" "Some 3" True, unfolded prod.collapse]]
    by (simp add: tl_head_def)
  have lis: "tl_phase (fst (tl_open (Some 3) True ?s0)) = TlListen 3"
    by (simp add: tl_open_def tl_head_def)
  let ?s2 = "tl_accept (Some (4, ''10.0.0.2:1024'')) (tl_open (Some 3) True ?s0)"
  have r2: "tl_reach ?s2"
    using tl_reach_step[OF r1 tl_step_accept[of "fst (tl_open (Some 3) True ?s0)" 3 "Some (4, ''10.0.0.2:1024'')"
        "snd (tl_open (Some 3) True ?s0)", unfolded prod.collapse]] lis by simp
  have "tl_phase (fst ?s2) = TlListen 3"
    using lis by simp
  then have "tl_reach demo_accepted" unfolding demo_accepted_def
    using tl_reach_step[OF r2 tl_step_accept[of "fst ?s2" 3 "Some (5, ''10.0.0.3:1025'')" "snd ?s2", unfolded prod.collapse]]
    by simp
  then have "tl_reach (fst demo_accepted, snd demo_accepted)" by simp
  from client_sockets_accounted[OF this] show ?thesis
    by (simp add: demo_accepted_def tl_accept_def tl_open_def tl_head_def fdc_tcp_attach_def fdc_tcp_set_state_def
        upd_stats_def demo_fdc_def fdc_tcp_busy_def)
qed

end
