(* ===== verification/Shell.thy ===== *)
theory Shell
  imports Cli Vfs
begin

text \<open>
  What the commands of \<^verbatim>\<open>src/cli/commands.c\<close> share: the world they act on, the number parsers
  and the \<^verbatim>\<open>printf\<close> conversions of the C library they use, the folding of the running batch
  file's folder into a name (\<open>qualify\<close>), its resolution to a path on the card (\<open>resolve\<close>), the
  change guard in front of every deletion, renaming and write (\<open>change_begin\<close>), and the
  streaming HTTP download of \<^verbatim>\<open>src/net/http.c\<close>.
\<close>

section \<open>The world of the commands\<close>

text \<open>
  The TNFS client by its interface (\<open>TnfsClient\<close> models it): \<open>r_list\<close> gives the entries
  \<^verbatim>\<open>tnfs_list_dir\<close> reports to its callback and its result.
\<close>

record 'w remote_api =
  r_open :: "string \<Rightarrow> bool \<Rightarrow> bool \<Rightarrow> 'w \<Rightarrow> (esp_err + int) \<times> 'w"
  r_size :: "int \<Rightarrow> 'w \<Rightarrow> u32"
  r_read :: "int \<Rightarrow> u32 \<Rightarrow> nat \<Rightarrow> 'w \<Rightarrow> (esp_err \<times> bytes) \<times> 'w"
  r_write :: "int \<Rightarrow> u32 \<Rightarrow> bytes \<Rightarrow> 'w \<Rightarrow> esp_err \<times> 'w"
  r_close :: "int \<Rightarrow> 'w \<Rightarrow> 'w"
  r_list :: "string \<Rightarrow> 'w \<Rightarrow> (esp_err \<times> (string \<times> bool) list) \<times> 'w"

text \<open>
  \<^verbatim>\<open>esp_http_client\<close>: whether the client can be made; the bodies it delivers while it performs
  the request, each with the status code at that moment; and the result and final status.
\<close>

record http_run =
  hr_init :: bool
  hr_data :: "(nat \<times> bytes) list"
  hr_result :: esp_err
  hr_status :: nat

text \<open>
  \<open>x_disk\<close> is the disk store's environment, given whether the network is up; \<open>x_strerror\<close> and
  \<open>x_errname\<close> are \<^verbatim>\<open>strerror\<close> and \<^verbatim>\<open>esp_err_to_name\<close>, \<open>x_log_level\<close> is \<^verbatim>\<open>esp_log_level_set("*", level)\<close>,
  \<open>x_now\<close> the clock as \<open>cmd_time\<close> prints it (\<open>None\<close> before 2016), \<open>x_loopback\<close> the FDC task
  during a loopback test.
\<close>

text \<open>
  The update functions of ESP-IDF. \<open>oa_slot\<close> is the label of the inactive slot, \<open>oa_desc_at\<close>,
  \<open>oa_desc_len\<close> and \<open>oa_desc\<close> the place, size and reading of the descriptor in an image file
  (its version if the magic is right). For an update over HTTPS \<open>oh_perform\<close> gives the image
  lengths read after each \<^verbatim>\<open>ESP_ERR_HTTPS_OTA_IN_PROGRESS\<close> and the result that ends the loop.
\<close>

record 'w ota_api =
  oa_sem :: bool
  oa_task :: bool
  oa_slot :: "'w \<Rightarrow> string option"
  oa_desc_at :: nat
  oa_desc_len :: nat
  oa_desc :: "bytes \<Rightarrow> string option"
  oa_begin :: "string \<Rightarrow> int \<Rightarrow> 'w \<Rightarrow> (esp_err + int) \<times> 'w"
  oa_write :: "int \<Rightarrow> bytes \<Rightarrow> 'w \<Rightarrow> esp_err \<times> 'w"
  oa_end :: "int \<Rightarrow> 'w \<Rightarrow> esp_err \<times> 'w"
  oa_abort :: "int \<Rightarrow> 'w \<Rightarrow> unit \<times> 'w"
  oa_set_boot :: "string \<Rightarrow> 'w \<Rightarrow> esp_err \<times> 'w"
  oh_begin :: "string \<Rightarrow> 'w \<Rightarrow> (esp_err + int) \<times> 'w"
  oh_desc :: "int \<Rightarrow> 'w \<Rightarrow> esp_err + string"
  oh_size :: "int \<Rightarrow> 'w \<Rightarrow> int"
  oh_perform :: "int \<Rightarrow> 'w \<Rightarrow> (int list \<times> esp_err) \<times> 'w"
  oh_complete :: "int \<Rightarrow> 'w \<Rightarrow> bool"
  oh_finish :: "int \<Rightarrow> 'w \<Rightarrow> esp_err \<times> 'w"
  oh_abort :: "int \<Rightarrow> 'w \<Rightarrow> unit \<times> 'w"

datatype reset_reason = ESP_RST_POWERON | ESP_RST_EXT | ESP_RST_SW | ESP_RST_PANIC | ESP_RST_INT_WDT
  | ESP_RST_TASK_WDT | ESP_RST_WDT | ESP_RST_BROWNOUT | ESP_RST_DEEPSLEEP | ESP_RST_SDIO | ESP_RST_UNKNOWN

text \<open>The facts about the chip that \<open>diag\<close> asks for.\<close>

record 'w sys_api =
  sy_idf :: string
  sy_revision :: nat
  sy_cores :: nat
  sy_mac :: bytes
  sy_uptime_us :: "'w \<Rightarrow> nat"
  sy_heap :: "'w \<Rightarrow> u32"
  sy_min_heap :: "'w \<Rightarrow> u32"
  sy_reset :: reset_reason

record 'w sh_env =
  x_fs :: "'w vfs"
  x_io :: "'w stdio"
  x_nvs :: "'w nvs_api"
  x_wifi :: "'w wifi_drv"
  x_remote :: "'w remote_api"
  x_http :: "string \<Rightarrow> 'w \<Rightarrow> http_run \<times> 'w"
  x_ota :: "'w ota_api"
  x_sys :: "'w sys_api"
  x_disk :: "bool \<Rightarrow> 'w \<Rightarrow> disk_env"
  x_strerror :: "errno \<Rightarrow> string"
  x_errname :: "esp_err \<Rightarrow> string"
  x_log_level :: "byte \<Rightarrow> 'w \<Rightarrow> 'w"
  x_now :: "'w \<Rightarrow> string option"
  x_fdc_task :: bool
  x_loopback :: "fdc_state \<Rightarrow> fdc_state"

definition denv :: "'w sh_env \<Rightarrow> 'w shell \<Rightarrow> disk_env" where
  "denv e sh = x_disk e (net_is_connected (sh_net sh)) (sh_ext sh)"

definition sd_mounted :: "'w sh_env \<Rightarrow> 'w shell \<Rightarrow> bool" where
  "sd_mounted e sh \<longleftrightarrow> e_sd_mounted (denv e sh)"

definition disk :: "'w shell \<Rightarrow> disk_state" where
  "disk sh = dsk (sh_fdc sh)"

definition upd_disk :: "disk_state \<Rightarrow> 'w shell \<Rightarrow> 'w shell" where
  "upd_disk d sh = sh\<lparr>sh_fdc := (sh_fdc sh)\<lparr>dsk := d\<rparr>\<rparr>"

definition upd_cfg :: "(config_state \<Rightarrow> config_state) \<Rightarrow> 'w shell \<Rightarrow> 'w shell" where
  "upd_cfg f sh = sh\<lparr>sh_cfg := f (sh_cfg sh)\<rparr>"

text \<open>One call into the world, with its result.\<close>

definition call :: "('w \<Rightarrow> 'a \<times> 'w) \<Rightarrow> 'w shell \<Rightarrow> 'a \<times> 'w shell" where
  "call f sh = (case f (sh_ext sh) of (a, w) \<Rightarrow> (a, sh\<lparr>sh_ext := w\<rparr>))"

definition config_get :: "'w shell \<Rightarrow> config_t" where
  "config_get sh = s_cfg (sh_cfg sh)"

section \<open>Numbers and padding\<close>

text \<open>\<^verbatim>\<open>%10s\<close> and \<^verbatim>\<open>%-10s\<close>; \<^verbatim>\<open>%02x\<close> of a byte and \<^verbatim>\<open>%08lx\<close>.\<close>

definition padl :: "nat \<Rightarrow> string \<Rightarrow> string" where
  "padl n s = replicate (n - length s) (CHR '' '') @ s"

definition padr :: "nat \<Rightarrow> string \<Rightarrow> string" where
  "padr n s = s @ replicate (n - length s) (CHR '' '')"

definition hex2 :: "byte \<Rightarrow> string" where
  "hex2 b = [hexdigit (unat b div 16), hexdigit (unat b mod 16)]"

definition hex8 :: "u32 \<Rightarrow> string" where
  "hex8 w = map (\<lambda>i. hexdigit (unat w div 16 ^ i mod 16)) [7, 6, 5, 4, 3, 2, 1, 0]"

definition dec32 :: "u32 \<Rightarrow> string" where
  "dec32 w = dec (unat w)"

definition quoted :: "string \<Rightarrow> string" where
  "quoted s = CHR 0x27 # s @ [CHR 0x27]"

text \<open>\<^verbatim>\<open>isspace\<close> of the C locale, and the value of a digit in a base.\<close>

definition isspace :: "char \<Rightarrow> bool" where
  "isspace c \<longleftrightarrow> c = CHR '' '' \<or> (9 \<le> (of_char c :: nat) \<and> (of_char c :: nat) \<le> 13)"

definition digit_in :: "nat \<Rightarrow> char \<Rightarrow> nat option" where
  "digit_in base c =
     (let k = of_char (tolower c) :: nat;
          d = (if 48 \<le> k \<and> k \<le> 57 then k - 48 else if 97 \<le> k \<and> k \<le> 122 then k - 87 else 36)
      in if d < base then Some d else None)"

fun digits :: "nat \<Rightarrow> nat \<Rightarrow> string \<Rightarrow> nat \<times> string" where
  "digits base acc [] = (acc, [])"
| "digits base acc (c # cs) =
     (case digit_in base c of None \<Rightarrow> (acc, c # cs) | Some d \<Rightarrow> digits base (acc * base + d) cs)"

text \<open>
  The scan \<^verbatim>\<open>strtol\<close> and \<^verbatim>\<open>strtoul\<close> share: white space, a sign, for base 0 the prefix that
  chooses the base, the digits. The result is the sign, the value and \<^verbatim>\<open>*end\<close>; without a
  digit the value is 0 and \<^verbatim>\<open>end\<close> the start.
\<close>

definition strto :: "nat \<Rightarrow> string \<Rightarrow> bool \<times> nat \<times> string" where
  "strto base s =
     (let p = dropWhile isspace s;
          neg = (p \<noteq> [] \<and> hd p = CHR ''-'');
          p = (if p \<noteq> [] \<and> (hd p = CHR ''-'' \<or> hd p = CHR ''+'') then tl p else p);
          hex = (base = 0 \<and> length p \<ge> 3 \<and> p ! 0 = CHR ''0'' \<and> tolower (p ! 1) = CHR ''x'' \<and> digit_in 16 (p ! 2) \<noteq> None);
          base' = (if base \<noteq> 0 then base else if hex then 16
                   else if p \<noteq> [] \<and> hd p = CHR ''0'' then 8 else 10);
          q = (if hex then drop 2 p else p)
      in if q = [] \<or> digit_in base' (hd q) = None then (False, 0, s)
         else case digits base' 0 q of (v, r) \<Rightarrow> (neg, v, r))"

text \<open>\<^verbatim>\<open>long\<close> has 32 bits on the target; out of range both saturate.\<close>

definition strtol :: "string \<Rightarrow> int \<times> string" where
  "strtol s =
     (case strto 10 s of (neg, v, r) \<Rightarrow>
        (if neg then max (- int v) (-2147483648) else min (int v) 2147483647, r))"

definition strtoul :: "nat \<Rightarrow> string \<Rightarrow> u32 \<times> string" where
  "strtoul base s =
     (case strto base s of (neg, v, r) \<Rightarrow>
        (if v > 4294967295 then - 1 else if neg then - of_nat v else of_nat v, r))"

section \<open>Names and the change guard\<close>

definition qualify :: "string \<Rightarrow> nat \<Rightarrow> 'w shell \<Rightarrow> string option" where
  "qualify name len sh =
     (let q = (if sh_cwd sh \<noteq> [] then sh_cwd sh @ ''/'' @ name else name)
      in if length q < len then Some q else None)"

text \<open>The path, or \<open>None\<close> after a message.\<close>

definition resolve :: "'w sh_env \<Rightarrow> string \<Rightarrow> nat \<Rightarrow> 'w shell \<Rightarrow> string option \<times> 'w shell" where
  "resolve e name len sh =
     (if \<not> sd_mounted e sh then (None, say (''no SD card'' @ crlf) sh)
      else case (case qualify name (2 * CONFIG_FILE_CAP) sh of None \<Rightarrow> None | Some q \<Rightarrow> sd_path q len) of
             None \<Rightarrow> (None, sayf (name @ '': invalid filename'' @ crlf) sh)
           | Some path \<Rightarrow> (Some path, sh))"

definition change_begin :: "'w sh_env \<Rightarrow> string \<Rightarrow> string \<Rightarrow> 'w shell \<Rightarrow> bool \<times> 'w shell" where
  "change_begin e name path sh =
     (case disk_change_begin (denv e sh) path (disk sh) of
        (d, st) \<Rightarrow>
          let sh = upd_disk st sh
          in if d \<ge> 0
             then (False, sayf (name @ '': in use by drive '' @ dec (nat d) @ '', unmount it first'' @ crlf) sh)
             else (True, sh))"

definition change_end :: "'w shell \<Rightarrow> 'w shell" where
  "change_end sh = upd_disk (disk_change_end (disk sh)) sh"

text \<open>\<open>None\<close> is -1, after the message.\<close>

definition parse_drive :: "string \<Rightarrow> 'w shell \<Rightarrow> int option \<times> 'w shell" where
  "parse_drive arg sh =
     (case strtol arg of (drive, rest) \<Rightarrow>
        if rest \<noteq> [] \<or> drive < 0 \<or> drive \<ge> int CONFIG_MAX_DRIVE
        then (None, sayf (''drive must be 0..3'' @ crlf) sh)
        else (Some drive, sh))"

section \<open>The HTTP download\<close>

definition http_is_url :: "string \<Rightarrow> bool" where
  "http_is_url s \<longleftrightarrow> strncaseeq s ''http://'' 7 \<or> strncaseeq s ''https://'' 8"

text \<open>
  One body event on \<open>(bytes, aborted, s)\<close>: the bytes handed to the sink so far, whether the
  sink has failed, and the sink's own state. \<open>sink\<close> returns whether to continue.
\<close>

definition on_http_data ::
    "(bytes \<Rightarrow> 's \<Rightarrow> bool \<times> 's) \<Rightarrow> nat \<times> bytes \<Rightarrow> u32 \<times> bool \<times> 's \<Rightarrow> u32 \<times> bool \<times> 's" where
  "on_http_data sink ev g =
     (case ev of (status, data) \<Rightarrow> case g of (n, aborted, s) \<Rightarrow>
        if aborted then g
        else if status < 200 \<or> status \<ge> 300 then g
        else if data \<noteq> []
        then (case sink data s of
                (ok, s) \<Rightarrow> if \<not> ok then (n, True, s) else (n + of_nat (length data), False, s))
        else g)"

definition http_get :: "(bytes \<Rightarrow> 's \<Rightarrow> bool \<times> 's) \<Rightarrow> http_run \<Rightarrow> 's \<Rightarrow> esp_err \<times> u32 \<times> 's" where
  "http_get sink run s =
     (if \<not> hr_init run then (ESP_ERR_NO_MEM, 0, s)
      else case fold (on_http_data sink) (hr_data run) (0, False, s) of
             (n, aborted, s) \<Rightarrow>
               (if aborted then (ESP_FAIL, 0, s)
                else if hr_result run \<noteq> ESP_OK then (hr_result run, 0, s)
                else if hr_status run < 200 \<or> hr_status run \<ge> 300 then (ESP_ERR_INVALID_RESPONSE, 0, s)
                else (ESP_OK, n, s)))"

end
