(* ===== verification/FileCommands.thy ===== *)
theory FileCommands
  imports Shell Wildcard
begin

text \<open>
  The commands of \<^verbatim>\<open>src/cli/commands.c\<close> on files and drives: \<open>dir\<close> with its remote form,
  \<open>mount\<close>, \<open>unmount\<close>, \<open>dump\<close>, \<open>type\<close>, \<open>delete\<close>, \<open>mkdir\<close>, \<open>rmdir\<close>, \<open>rename\<close> and \<open>copy\<close>.
  A handler takes \<^verbatim>\<open>argv\<close> and returns its result code with the new state.
\<close>

abbreviation (input) PATH_CAP :: nat where "PATH_CAP \<equiv> 16 + CONFIG_FILE_CAP"

section \<open>Listing a TNFS directory\<close>

text \<open>\<open>dir_remote_entry\<close> on one reported entry; the count is the context's \<open>files\<close>.\<close>

definition dir_remote_entry :: "string option \<Rightarrow> string \<times> bool \<Rightarrow> nat \<times> 'w shell \<Rightarrow> nat \<times> 'w shell" where
  "dir_remote_entry spec de s =
     (case de of (name, is_dir) \<Rightarrow> case s of (nf, sh) \<Rightarrow>
        let is_dot = (case spec of Some (c # _) \<Rightarrow> c = CHR ''.'' | _ \<Rightarrow> False)
        in if name \<noteq> [] \<and> hd name = CHR ''.'' \<and> \<not> is_dot then (nf, sh)
           else if (case spec of Some p \<Rightarrow> \<not> wildcard_match_ci p name | None \<Rightarrow> False) then (nf, sh)
           else (nf + 1, sayf (''  '' @ name @ (if is_dir then ''/'' else []) @ crlf) sh))"

text \<open>\<^verbatim>\<open>strrchr(s, '/')\<close> splits off the last component.\<close>

definition after_last_slash :: "string \<Rightarrow> string" where
  "after_last_slash s = rev (takeWhile (\<lambda>c. c \<noteq> CHR ''/'') (rev s))"

definition cmd_dir_remote :: "'w sh_env \<Rightarrow> string \<Rightarrow> string option \<Rightarrow> 'w shell \<Rightarrow> nat \<times> 'w shell" where
  "cmd_dir_remote e url spec sh =
     (if \<not> net_is_connected (sh_net sh) then (1, say (''dir: WiFi not connected'' @ crlf) sh)
      else let leaf = after_last_slash url;
               glued = (spec = None \<and> before_last_slash url \<noteq> None \<and>
                        (\<exists>c \<in> set leaf. c = CHR ''*'' \<or> c = CHR ''?''));
               dir = (case before_last_slash url of Some d \<Rightarrow> d | None \<Rightarrow> url);
               spec' = (if glued then Some leaf else spec);
               url' = (if glued \<and> 0 < length dir \<and> length dir < PATH_CAP then dir else url)
           in case call (r_list (x_remote e) url') sh of
                ((err, ents), sh) \<Rightarrow>
                  (case fold (dir_remote_entry spec') ents (0, sh) of
                     (nf, sh) \<Rightarrow>
                       if err \<noteq> ESP_OK
                       then (1, sayf (url' @ '': '' @
                              (if err = ESP_ERR_NOT_FOUND then ''not found''
                               else if err = ESP_ERR_TIMEOUT then ''server unreachable''
                               else if err = ESP_ERR_INVALID_ARG then ''bad URL'' else ''listing failed'') @ crlf) sh)
                       else (0, sayf (dec nf @ '' item(s)'' @ crlf) sh)))"

section \<open>Listing the card\<close>

abbreviation (input) DIR_MAX_ENTS :: nat where "DIR_MAX_ENTS \<equiv> 1024"

record dir_ent =
  de_size :: u32
  de_isdir :: bool
  de_name :: string

text \<open>\<^verbatim>\<open>strcmp(a, b) <= 0\<close> on the characters' codes, and \<open>dir_ent_cmp(a, b) <= 0\<close>.\<close>

fun strcmp_le :: "string \<Rightarrow> string \<Rightarrow> bool" where
  "strcmp_le [] b = True"
| "strcmp_le (x # a) [] = False"
| "strcmp_le (x # a) (y # b) =
     ((of_char x :: nat) < of_char y \<or> (x = y \<and> strcmp_le a b))"

definition dir_ent_le :: "dir_ent \<Rightarrow> dir_ent \<Rightarrow> bool" where
  "dir_ent_le a b =
     (if de_isdir a \<noteq> de_isdir b then de_isdir a
      else if map tolower (de_name a) \<noteq> map tolower (de_name b)
      then strcmp_le (map tolower (de_name a)) (map tolower (de_name b))
      else strcmp_le (de_name a) (de_name b))"

text \<open>\<^verbatim>\<open>qsort\<close> with that order, as an insertion sort.\<close>

fun dir_insert :: "dir_ent \<Rightarrow> dir_ent list \<Rightarrow> dir_ent list" where
  "dir_insert x [] = [x]"
| "dir_insert x (y # ys) = (if dir_ent_le x y then x # y # ys else y # dir_insert x ys)"

definition dir_sort :: "dir_ent list \<Rightarrow> dir_ent list" where
  "dir_sort ents = foldr dir_insert ents []"

text \<open>
  The collecting loop: \<open>stat\<close> is \<^verbatim>\<open>stat\<close> on a path, \<open>alloc\<close> whether the heap has room. The
  result is the entries in the order read and whether the list was cut.
\<close>

fun dir_collect ::
    "(string \<Rightarrow> errno + fstat) \<Rightarrow> bool \<Rightarrow> string \<Rightarrow> string option \<Rightarrow> dirent list \<Rightarrow> dir_ent list \<Rightarrow> dir_ent list \<times> bool" where
  "dir_collect stat alloc dirpath spec [] ents = (ents, False)"
| "dir_collect stat alloc dirpath spec (e # es) ents =
     (let name = d_name e;
          is_dot = (case spec of Some (c # _) \<Rightarrow> c = CHR ''.'' | _ \<Rightarrow> False);
          path = dirpath @ ''/'' @ name
      in if name \<noteq> [] \<and> hd name = CHR ''.'' \<and> \<not> is_dot then dir_collect stat alloc dirpath spec es ents
         else if (case spec of Some p \<Rightarrow> \<not> wildcard_match_ci p name | None \<Rightarrow> False)
         then dir_collect stat alloc dirpath spec es ents
         else if length path \<ge> PATH_CAP + CONFIG_FILE_CAP then dir_collect stat alloc dirpath spec es ents
         else case stat path of
                Inl _ \<Rightarrow> dir_collect stat alloc dirpath spec es ents
              | Inr st \<Rightarrow>
                  if length ents \<ge> DIR_MAX_ENTS \<or> \<not> alloc then (ents, True)
                  else dir_collect stat alloc dirpath spec es
                         (ents @ [\<lparr>de_size = word_of_int (st_size st), de_isdir = S_ISDIR (st_mode st), de_name = name\<rparr>]))"

text \<open>The printing loop, on the counters of files and directories and the 32-bit total.\<close>

definition dir_print :: "dir_ent \<Rightarrow> nat \<times> nat \<times> u32 \<times> 'w shell \<Rightarrow> nat \<times> nat \<times> u32 \<times> 'w shell" where
  "dir_print ent s =
     (case s of (nf, nd, tot, sh) \<Rightarrow>
        if de_isdir ent
        then (nf, nd + 1, tot, sayf (padl 10 ''<DIR>'' @ ''  '' @ de_name ent @ ''/'' @ crlf) sh)
        else (nf + 1, nd, tot + de_size ent,
              sayf (padl 10 (dec32 (de_size ent)) @ ''  '' @ de_name ent @ crlf) sh))"

text \<open>
  The split of the argument: \<open>Inl\<close> when it cannot be a name, else the subdirectory to list
  (empty for the current one) and the pattern. \<open>is_dir\<close> is the probe's \<^verbatim>\<open>stat\<close>.
\<close>

definition dir_split :: "(string \<Rightarrow> bool) \<Rightarrow> string option \<Rightarrow> 'w shell \<Rightarrow> unit + string \<times> string option" where
  "dir_split is_dir arg sh =
     (case arg of
        None \<Rightarrow> Inr ([], None)
      | Some a \<Rightarrow>
          if length a < CONFIG_FILE_CAP \<and>
             (case qualify a (2 * CONFIG_FILE_CAP) sh of
                None \<Rightarrow> False
              | Some q \<Rightarrow> (case sd_path q PATH_CAP of None \<Rightarrow> False | Some p \<Rightarrow> is_dir p))
          then Inr (a, None)
          else case before_last_slash a of
                 None \<Rightarrow> Inr ([], Some a)
               | Some d \<Rightarrow>
                   if length d \<ge> CONFIG_FILE_CAP then Inl ()
                   else Inr (d, if after_last_slash a \<noteq> [] then Some (after_last_slash a) else None))"

definition stat_isdir :: "'w sh_env \<Rightarrow> 'w shell \<Rightarrow> string \<Rightarrow> bool" where
  "stat_isdir e sh p = (case v_stat (x_fs e) p (sh_ext sh) of Inr st \<Rightarrow> S_ISDIR (st_mode st) | Inl _ \<Rightarrow> False)"

text \<open>The listing itself, once the directory is open.\<close>

definition dir_list :: "'w sh_env \<Rightarrow> string \<Rightarrow> string \<Rightarrow> string option \<Rightarrow> int \<Rightarrow> dirent list \<Rightarrow> 'w shell \<Rightarrow> nat \<times> 'w shell" where
  "dir_list e reldir dirpath spec d es sh =
     (let disp = (if sh_cwd sh \<noteq> [] \<and> reldir \<noteq> [] then sh_cwd sh @ ''/'' @ reldir
                  else if sh_cwd sh \<noteq> [] then sh_cwd sh else reldir);
          disp = take (2 * CONFIG_FILE_CAP - 1) disp;
          sh = (if disp \<noteq> [] then sayf (''Directory of /'' @ disp @ crlf) sh else say (''Directory of /'' @ crlf) sh);
          (ents, truncated) = dir_collect (\<lambda>p. v_stat (x_fs e) p (sh_ext sh)) (e_alloc (denv e sh)) dirpath spec es [];
          sh = sh\<lparr>sh_ext := v_closedir (x_fs e) d (sh_ext sh)\<rparr>;
          (nf, nd, tot, sh) = fold dir_print (if length ents > 1 then dir_sort ents else ents) (0, 0, 0, sh);
          sh = (if truncated then sayf (''(list truncated at 1024 entries)'' @ crlf) sh else sh)
      in (0, if nd \<noteq> 0
             then sayf (dec nf @ '' file(s), '' @ dec nd @ '' dir(s), '' @ dec32 tot @ '' bytes'' @ crlf) sh
             else sayf (dec nf @ '' file(s), '' @ dec32 tot @ '' bytes'' @ crlf) sh))"

definition cmd_dir :: "'w sh_env \<Rightarrow> 'w handler" where
  "cmd_dir e args sh =
     (if length args > 1 \<and> tnfs_is_url (args ! 1)
      then cmd_dir_remote e (args ! 1) (if length args > 2 then Some (args ! 2) else None) sh
      else if \<not> sd_mounted e sh then (1, say (''no SD card'' @ crlf) sh)
      else let arg = (if length args > 1 then Some (args ! 1) else None)
           in case dir_split (stat_isdir e sh) arg sh of
                Inl _ \<Rightarrow> (1, sayf (args ! 1 @ '': invalid filename'' @ crlf) sh)
              | Inr (reldir, spec) \<Rightarrow>
                  (case (if reldir \<noteq> []
                         then (case qualify reldir (2 * CONFIG_FILE_CAP) sh of
                                 None \<Rightarrow> None | Some q \<Rightarrow> sd_path q PATH_CAP)
                         else if sh_cwd sh \<noteq> [] then Some (take (PATH_CAP - 1) (SD_MOUNT_POINT @ ''/'' @ sh_cwd sh))
                         else Some SD_MOUNT_POINT) of
                     None \<Rightarrow> (1, sayf (reldir @ '': invalid filename'' @ crlf) sh)
                   | Some dirpath \<Rightarrow>
                       (case call (v_opendir (x_fs e) dirpath) sh of
                          (Inl err, sh) \<Rightarrow>
                            (1, sayf ((case arg of Some a \<Rightarrow> a | None \<Rightarrow> SD_MOUNT_POINT) @ '': '' @ x_strerror e err @ crlf) sh)
                        | (Inr (d, es), sh) \<Rightarrow> dir_list e reldir dirpath spec d es sh)))"

section \<open>Mounting\<close>

definition report_mount_err :: "'w sh_env \<Rightarrow> string \<Rightarrow> esp_err \<Rightarrow> 'w shell \<Rightarrow> 'w shell" where
  "report_mount_err e name err sh =
     (if err = ESP_ERR_INVALID_STATE then say (''no SD card'' @ crlf) sh
      else if err = ESP_ERR_INVALID_ARG then sayf (name @ '': invalid filename'' @ crlf) sh
      else if err = ESP_ERR_NOT_FOUND then sayf (name @ '': not found'' @ crlf) sh
      else if err = ESP_ERR_NO_MEM then say (''out of memory'' @ crlf) sh
      else sayf (''mount failed: '' @ x_errname e err @ crlf) sh)"

text \<open>One drive's line of the mount table, as \<open>mount\<close> and \<open>diag\<close> print it.\<close>

definition drive_line :: "nat \<Rightarrow> 'w shell \<Rightarrow> 'w shell" where
  "drive_line i sh =
     (let d = disk sh
      in if disk_is_mounted (int i) d
         then sayf (dec i @ '': '' @ disk_name (int i) d @ '' ('' @ dec32 (disk_image_size (int i) d) @ '' bytes)'' @
                (if disk_is_readonly (int i) d then '' [read-only]'' else []) @ crlf) sh
         else if disk_is_remote (int i) d
         then sayf (dec i @ '': '' @ disk_name (int i) d @ '' (not ready)'' @ crlf) sh
         else sayf (dec i @ '': (empty)'' @ crlf) sh)"

definition drive_table :: "'w shell \<Rightarrow> 'w shell" where
  "drive_table sh = fold drive_line [0..<CONFIG_MAX_DRIVE] sh"

text \<open>\<^verbatim>\<open>disk_mount\<close> and \<^verbatim>\<open>disk_unmount\<close> on the shell's disk store.\<close>

definition mount_drive :: "'w sh_env \<Rightarrow> int \<Rightarrow> string \<Rightarrow> 'w shell \<Rightarrow> esp_err \<times> 'w shell" where
  "mount_drive e drive name sh =
     (case disk_mount (denv e sh) drive (Some name) (disk sh) of (err, d) \<Rightarrow> (err, upd_disk d sh))"

text \<open>The bytes of the dash in the message for a server that does not answer (UTF-8).\<close>

definition em_dash :: string where
  "em_dash = [CHR 0xE2, CHR 0x80, CHR 0x94]"

definition mount_remote :: "'w sh_env \<Rightarrow> int \<Rightarrow> string \<Rightarrow> 'w shell \<Rightarrow> nat \<times> 'w shell" where
  "mount_remote e drive url sh =
     (case mount_drive e drive url sh of
        (_, sh) \<Rightarrow>
          let sh = upd_cfg (config_set_drive drive (Some url)) sh;
              head = ''drive '' @ dec (nat drive) @ '': '' @ url;
              d = disk sh
          in (0, if disk_is_mounted drive d
                 then sayf (head @ '' ('' @ dec32 (disk_image_size drive d) @ '' bytes)'' @
                        (if disk_is_readonly drive d then '' [read-only]'' else []) @ crlf) sh
                 else if \<not> net_is_connected (sh_net sh)
                 then sayf (head @ '' (will mount when WiFi connects)'' @ crlf) sh
                 else sayf (head @ '' (not ready '' @ em_dash @ '' server unreachable, will retry)'' @ crlf) sh))"

definition mount_local :: "'w sh_env \<Rightarrow> int \<Rightarrow> string \<Rightarrow> 'w shell \<Rightarrow> nat \<times> 'w shell" where
  "mount_local e drive name sh =
     (case qualify name (2 * CONFIG_FILE_CAP) sh of
        None \<Rightarrow> (1, sayf (name @ '': invalid filename'' @ crlf) sh)
      | Some qname \<Rightarrow>
          (case mount_drive e drive qname sh of
             (err, sh) \<Rightarrow>
               if err \<noteq> ESP_OK
               then (1, sayf (''drive '' @ dec (nat drive) @ '': (empty)'' @ crlf)
                          (report_mount_err e qname err (upd_cfg (config_set_drive drive None) sh)))
               else let sh = upd_cfg (config_set_drive drive (Some qname)) sh
                    in (0, sayf (''drive '' @ dec (nat drive) @ '': '' @ qname @ '' ('' @
                             dec32 (disk_image_size drive (disk sh)) @ '' bytes)'' @ crlf) sh)))"

definition cmd_mount :: "'w sh_env \<Rightarrow> 'w handler" where
  "cmd_mount e args sh =
     (if length args < 2 then (0, drive_table sh)
      else if length args < 3 then (1, say (''usage: mount <drive> <file|tnfs://url>'' @ crlf) sh)
      else case parse_drive (args ! 1) sh of
             (None, sh) \<Rightarrow> (1, sh)
           | (Some drive, sh) \<Rightarrow>
               if tnfs_is_url (args ! 2) then mount_remote e drive (args ! 2) sh
               else mount_local e drive (args ! 2) sh)"

definition cmd_unmount :: "'w sh_env \<Rightarrow> 'w handler" where
  "cmd_unmount e args sh =
     (if length args < 2 then (1, say (''usage: unmount <drive>'' @ crlf) sh)
      else case parse_drive (args ! 1) sh of
             (None, sh) \<Rightarrow> (1, sh)
           | (Some drive, sh) \<Rightarrow>
               if \<not> disk_is_mounted drive (disk sh) then (0, sh)
               else let sh = upd_disk (snd (disk_unmount (denv e sh) drive (disk sh))) sh;
                        sh = upd_cfg (config_set_drive drive None) sh
                    in (0, sayf (''drive '' @ dec (nat drive) @ '' unmounted'' @ crlf) sh))"

section \<open>Dumping a track\<close>

text \<open>One line of at most 16 bytes \<open>p\<close>.\<close>

definition dump_line :: "u32 \<Rightarrow> bytes \<Rightarrow> string" where
  "dump_line off p =
     hex8 off @ '': '' @
     concat (map (\<lambda>i. if i < length p then hex2 (p ! i) @ '' '' else ''   '') [0..<16]) @ '' '' @
     map (\<lambda>b. if 32 \<le> unat b \<and> unat b < 127 then char_of (unat b) else CHR ''.'') p @ crlf"

text \<open>The loop over the lines of the first \<open>len\<close> bytes.\<close>

definition dump_lines :: "nat \<Rightarrow> bytes \<Rightarrow> 'w shell \<Rightarrow> 'w shell" where
  "dump_lines len buf sh =
     fold (\<lambda>i sh. say (dump_line (of_nat (16 * i)) (take (min 16 (len - 16 * i)) (drop (16 * i) buf))) sh)
       [0..<(len + 15) div 16] sh"

definition dump_show :: "int \<Rightarrow> u32 \<Rightarrow> nat \<Rightarrow> bytes \<Rightarrow> 'w shell \<Rightarrow> nat \<times> 'w shell" where
  "dump_show drive track len buf sh =
     (0, dump_lines len buf
           (sayf (''drive '' @ dec (nat drive) @ '' track '' @ dec32 track @ '', '' @ dec len @ '' bytes:'' @ crlf) sh))"

definition read_track :: "'w sh_env \<Rightarrow> int \<Rightarrow> u32 \<Rightarrow> nat \<Rightarrow> 'w shell \<Rightarrow> (esp_err \<times> bytes) \<times> 'w shell" where
  "read_track e drive track len sh =
     (case disk_read_track (denv e sh) drive track len True (disk sh) of
        (err, w, d) \<Rightarrow> ((err, case w of Some x \<Rightarrow> x | None \<Rightarrow> []), upd_disk d sh))"

definition cmd_dump :: "'w sh_env \<Rightarrow> 'w handler" where
  "cmd_dump e args sh =
     (if \<not> e_malloc (denv e sh) then (1, say (''dump: out of memory'' @ crlf) sh)
      else if length args > 1
      then (case parse_drive (args ! 1) sh of
              (None, sh) \<Rightarrow> (1, sh)
            | (Some drive, sh) \<Rightarrow>
                let track = (if length args > 2 then fst (strtoul 0 (args ! 2)) else 0);
                    len = (if length args > 3 then unat (fst (strtoul 0 (args ! 3))) else 256)
                in case read_track e drive track len sh of
                     ((err, buf), sh) \<Rightarrow>
                       if err \<noteq> ESP_OK then (1, sayf (''dump: read failed: '' @ x_errname e err @ crlf) sh)
                       else dump_show drive track len buf sh)
      else case disk_copy_track_buffer (disk sh) of
             (buf, drive, track, len) \<Rightarrow>
               if len = 0
               then (case read_track e 0 0 256 sh of
                       ((err, buf), sh) \<Rightarrow>
                         if err \<noteq> ESP_OK
                         then (1, say (''dump: no track loaded (mount a drive first)'' @ crlf) sh)
                         else dump_show 0 0 256 buf sh)
               else dump_show drive track len (case buf of Some x \<Rightarrow> x | None \<Rightarrow> []) sh)"

end
