(* ===== verification/CopyCommands.thy ===== *)
theory CopyCommands
  imports FileCommands
begin

text \<open>
  The commands of \<^verbatim>\<open>src/cli/commands.c\<close> that read, change and copy files: \<open>type\<close>, \<open>delete\<close>,
  \<open>mkdir\<close>, \<open>rmdir\<close>, \<open>rename\<close> and \<open>copy\<close> between the card, a TNFS server and a web server. A
  stream is read as the file is at that moment, so what a command writes meanwhile counts.
\<close>

section \<open>type\<close>

text \<open>One character on its way to the console; \<open>prev\<close> is the one before.\<close>

definition type_char :: "char \<Rightarrow> char \<times> 'w shell \<Rightarrow> char \<times> 'w shell" where
  "type_char ch s =
     (case s of (prev, sh) \<Rightarrow>
        (ch, if ch = LF \<and> prev \<noteq> CR then say crlf sh else say [ch] sh))"

definition char_byte :: "byte \<Rightarrow> char" where
  "char_byte b = char_of (unat b)"

function type_loop :: "'w stdio \<Rightarrow> int \<Rightarrow> nat \<Rightarrow> char \<times> 'w shell \<Rightarrow> char \<times> 'w shell" where
  "type_loop io f pos s =
     (let data = fread io f pos 256 (sh_ext (snd s))
      in if data = [] then s
         else type_loop io f (pos + length data) (fold type_char (map char_byte data) s))"
  by pat_completeness auto
termination
  by (relation "measure (\<lambda>(io, f, pos, s). 4294967296 - pos)") (auto dest: fread_advances)

declare type_loop.simps [simp del]

definition cmd_type :: "'w sh_env \<Rightarrow> 'w handler" where
  "cmd_type e args sh =
     (if length args < 2 then (1, say (''usage: type <file>'' @ crlf) sh)
      else case resolve e (args ! 1) PATH_CAP sh of
             (None, sh) \<Rightarrow> (1, sh)
           | (Some path, sh) \<Rightarrow>
               (case call (f_open_r (x_io e) path) sh of
                  (Inl err, sh) \<Rightarrow> (1, sayf (args ! 1 @ '': '' @ x_strerror e err @ crlf) sh)
                | (Inr f, sh) \<Rightarrow>
                    (case type_loop (x_io e) f 0 (NUL, sh) of
                       (prev, sh) \<Rightarrow>
                         let sh = (if prev \<noteq> NUL \<and> prev \<noteq> LF then say crlf sh else sh)
                         in (0, snd (call (f_close (x_io e) f) sh)))))"

section \<open>Changing the card\<close>

definition cmd_delete :: "'w sh_env \<Rightarrow> 'w handler" where
  "cmd_delete e args sh =
     (if length args < 2 then (1, say (''usage: delete <file>'' @ crlf) sh)
      else case resolve e (args ! 1) PATH_CAP sh of
             (None, sh) \<Rightarrow> (1, sh)
           | (Some path, sh) \<Rightarrow>
               (case change_begin e (args ! 1) path sh of
                  (False, sh) \<Rightarrow> (1, sh)
                | (True, sh) \<Rightarrow>
                    (case call (v_unlink (x_fs e) path) sh of
                       (r, sh) \<Rightarrow>
                         let sh = change_end sh
                         in case r of
                              Some err \<Rightarrow> (1, sayf (args ! 1 @ '': '' @ x_strerror e err @ crlf) sh)
                            | None \<Rightarrow> (0, sayf (''deleted '' @ args ! 1 @ crlf) sh))))"

definition cmd_mkdir :: "'w sh_env \<Rightarrow> 'w handler" where
  "cmd_mkdir e args sh =
     (if length args < 2 then (1, say (''usage: mkdir <dir>'' @ crlf) sh)
      else case resolve e (args ! 1) PATH_CAP sh of
             (None, sh) \<Rightarrow> (1, sh)
           | (Some path, sh) \<Rightarrow>
               (case call (v_mkdir (x_fs e) path) sh of
                  (Some err, sh) \<Rightarrow> (1, sayf (args ! 1 @ '': '' @ x_strerror e err @ crlf) sh)
                | (None, sh) \<Rightarrow> (0, sayf (''created '' @ args ! 1 @ crlf) sh)))"

definition cmd_rmdir :: "'w sh_env \<Rightarrow> 'w handler" where
  "cmd_rmdir e args sh =
     (if length args < 2 then (1, say (''usage: rmdir <dir>'' @ crlf) sh)
      else case resolve e (args ! 1) PATH_CAP sh of
             (None, sh) \<Rightarrow> (1, sh)
           | (Some path, sh) \<Rightarrow>
               (case call (v_rmdir (x_fs e) path) sh of
                  (Some err, sh) \<Rightarrow>
                    (1, sayf (args ! 1 @ '': '' @
                          (if err = EACCES \<or> err = ENOTEMPTY then ''directory not empty'' else x_strerror e err) @ crlf) sh)
                | (None, sh) \<Rightarrow> (0, sayf (''removed '' @ args ! 1 @ crlf) sh)))"

definition cmd_rename :: "'w sh_env \<Rightarrow> 'w handler" where
  "cmd_rename e args sh =
     (if length args < 3 then (1, say (''usage: rename <old> <new>'' @ crlf) sh)
      else case resolve e (args ! 1) PATH_CAP sh of
             (None, sh) \<Rightarrow> (1, sh)
           | (Some old, sh) \<Rightarrow>
               (case resolve e (args ! 2) PATH_CAP sh of
                  (None, sh) \<Rightarrow> (1, sh)
                | (Some new, sh) \<Rightarrow>
                    (case change_begin e (args ! 1) old sh of
                       (False, sh) \<Rightarrow> (1, sh)
                     | (True, sh) \<Rightarrow>
                         (case call (v_rename (x_fs e) old new) sh of
                            (r, sh) \<Rightarrow>
                              let sh = change_end sh
                              in case r of
                                   Some err \<Rightarrow> (1, sayf (''rename: '' @ x_strerror e err @ crlf) sh)
                                 | None \<Rightarrow> (0, sayf (''renamed '' @ args ! 1 @ '' -> '' @ args ! 2 @ crlf) sh)))))"

section \<open>copy\<close>

text \<open>
  The open ends of a copy: the two pointers of which exactly one is set. A remote source has
  the size it had when it was opened.
\<close>

datatype copy_end = OnCard int | OnServer int

definition copy_open_dest :: "'w sh_env \<Rightarrow> string \<Rightarrow> bool \<Rightarrow> 'w shell \<Rightarrow> copy_end option \<times> 'w shell" where
  "copy_open_dest e name rem sh =
     (if rem
      then (case call (r_open (x_remote e) name True True) sh of
              (Inl err, sh) \<Rightarrow>
                (None, sayf (name @ '': '' @ (if err = ESP_ERR_TIMEOUT then ''server unreachable'' else ''create failed'') @ crlf) sh)
            | (Inr rf, sh) \<Rightarrow> (Some (OnServer rf), sh))
      else case resolve e name PATH_CAP sh of
             (None, sh) \<Rightarrow> (None, sh)
           | (Some path, sh) \<Rightarrow>
               (case change_begin e name path sh of
                  (False, sh) \<Rightarrow> (None, sh)
                | (True, sh) \<Rightarrow>
                    (case call (f_open_w (x_io e) path) sh of
                       (r, sh) \<Rightarrow>
                         let sh = change_end sh
                         in case r of
                              Inl err \<Rightarrow> (None, sayf (name @ '': '' @ x_strerror e err @ crlf) sh)
                            | Inr sf \<Rightarrow> (Some (OnCard sf), sh))))"

abbreviation (input) COPY_PROGRESS_STEP :: u32 where "COPY_PROGRESS_STEP \<equiv> 20480"

text \<open>Writing one chunk, as the sink and the loop of \<open>cmd_copy\<close> do; \<open>Some\<close> is the message.\<close>

definition copy_write :: "'w sh_env \<Rightarrow> copy_end \<Rightarrow> u32 \<Rightarrow> bytes \<Rightarrow> 'w shell \<Rightarrow> string option \<times> 'w shell" where
  "copy_write e dst off data sh =
     (case dst of
        OnServer rf \<Rightarrow>
          (case call (r_write (x_remote e) rf off data) sh of
             (err, sh) \<Rightarrow> (if err \<noteq> ESP_OK then Some (''copy: remote write error'' @ crlf) else None, sh))
      | OnCard sf \<Rightarrow>
          (case call (f_write (x_io e) sf data) sh of
             (n, sh) \<Rightarrow> (if n \<noteq> length data then Some (''copy: write error'' @ crlf) else None, sh)))"

definition copy_progress :: "u32 \<Rightarrow> u32 \<times> 'w shell \<Rightarrow> u32 \<times> 'w shell" where
  "copy_progress off s =
     (case s of (reported, sh) \<Rightarrow>
        if off - reported \<ge> COPY_PROGRESS_STEP
        then (off, sayf ([CR] @ ''copied '' @ dec32 off @ '' bytes'') sh) else (reported, sh))"

text \<open>The sink of an HTTP source; its \<open>c\<close> is never null here.\<close>

record 'w copy_sink =
  cs_dst :: copy_end
  cs_off :: u32
  cs_err :: "string option"
  cs_reported :: u32
  cs_sh :: "'w shell"

definition copy_sink_write :: "'w sh_env \<Rightarrow> bytes \<Rightarrow> 'w copy_sink \<Rightarrow> bool \<times> 'w copy_sink" where
  "copy_sink_write e data s =
     (case copy_write e (cs_dst s) (cs_off s) data (cs_sh s) of
        (Some msg, sh) \<Rightarrow> (False, s\<lparr>cs_err := Some msg, cs_sh := sh\<rparr>)
      | (None, sh) \<Rightarrow>
          let off = cs_off s + of_nat (length data)
          in case copy_progress off (cs_reported s, sh) of
               (reported, sh) \<Rightarrow> (True, s\<lparr>cs_off := off, cs_reported := reported, cs_sh := sh\<rparr>))"

text \<open>
  Reading one chunk: \<open>None\<close> ends the loop, without a message at the end of the source. \<open>pos\<close>
  is the position of a local stream, \<open>tot\<close> the size of a remote source; a remote read fills the
  first \<open>want\<close> bytes of the buffer.
\<close>

definition filled :: "nat \<Rightarrow> bytes \<Rightarrow> bytes" where
  "filled n data = take n (data @ replicate n 0)"

lemma length_filled [simp]: "length (filled n data) = n"
  by (simp add: filled_def)

definition copy_read ::
    "'w sh_env \<Rightarrow> copy_end \<Rightarrow> u32 \<Rightarrow> nat \<Rightarrow> u32 \<Rightarrow> 'w shell \<Rightarrow> (string option + bytes) \<times> 'w shell" where
  "copy_read e src tot pos off sh =
     (case src of
        OnServer rf \<Rightarrow>
          if off \<ge> tot then (Inl None, sh)
          else let want = min (unat (tot - off)) 512
               in (case call (r_read (x_remote e) rf off want) sh of
                     ((err, data), sh) \<Rightarrow>
                       (if err \<noteq> ESP_OK then Inl (Some (''copy: remote read error'' @ crlf))
                        else Inr (filled want data), sh))
      | OnCard sf \<Rightarrow>
          let data = fread (x_io e) sf pos 512 (sh_ext sh)
          in (if data = []
              then Inl (if f_error (x_io e) sf (sh_ext sh) then Some (''copy: read error'' @ crlf) else None)
              else Inr data, sh))"

definition copy_left :: "copy_end \<Rightarrow> u32 \<Rightarrow> nat \<Rightarrow> u32 \<Rightarrow> nat" where
  "copy_left src tot pos off = (case src of OnServer _ \<Rightarrow> unat tot - unat off | OnCard _ \<Rightarrow> 4294967296 - pos)"

lemma copy_read_progress:
  assumes "copy_read e src tot pos off sh = (Inr data, sh')"
  shows "copy_left src tot (pos + length data) (off + of_nat (length data)) < copy_left src tot pos off"
proof (cases src)
  case (OnCard sf)
  with assms show ?thesis
    by (auto simp: copy_read_def copy_left_def Let_def split: if_splits dest: fread_advances)
next
  case (OnServer rf)
  then have o: "unat off < unat tot" "length data = min (unat (tot - off)) 512"
    using assms
    by (auto simp: copy_read_def Let_def word_le_nat_alt not_le unat_sub_if' unat_0_iff split: prod.splits if_splits)
  moreover have "unat (tot - off) = unat tot - unat off" using o(1) by (simp add: unat_sub word_le_nat_alt)
  ultimately have n: "unat off + length data \<le> unat tot" "0 < length data" by linarith+
  have "unat tot < 4294967296" using unsigned_less[of tot] by simp
  with n have "unat off + length data < 4294967296" by linarith
  then have "unat (off + of_nat (length data)) = unat off + length data"
    by (simp add: unat_word_ariths unat_of_nat mod_add_right_eq)
  moreover have "unat tot - (unat off + length data) < unat tot - unat off" using n o(1) by linarith
  ultimately show ?thesis using OnServer by (simp add: copy_left_def)
qed

text \<open>The result is the message of the failure, if any, the bytes copied and the state.\<close>

function copy_loop ::
    "'w sh_env \<Rightarrow> copy_end \<Rightarrow> copy_end \<Rightarrow> u32 \<Rightarrow> nat \<Rightarrow> u32 \<Rightarrow> u32 \<Rightarrow> 'w shell \<Rightarrow> string option \<times> u32 \<times> 'w shell" where
  "copy_loop e src dst tot pos off reported sh =
     (case copy_read e src tot pos off sh of
        (Inl msg, sh) \<Rightarrow> (msg, off, sh)
      | (Inr data, sh) \<Rightarrow>
          (case copy_write e dst off data sh of
             (Some msg, sh) \<Rightarrow> (Some msg, off, sh)
           | (None, sh) \<Rightarrow>
               (case copy_progress (off + of_nat (length data)) (reported, sh) of
                  (reported, sh) \<Rightarrow>
                    copy_loop e src dst tot (pos + length data) (off + of_nat (length data)) reported sh)))"
  by pat_completeness auto
termination
  by (relation "measure (\<lambda>(e, src, dst, tot, pos, off, reported, sh). copy_left src tot pos off)")
     (auto dest: copy_read_progress[OF sym])

declare copy_loop.simps [simp del]

text \<open>Closing an end; the result is false when \<^verbatim>\<open>fclose\<close> fails.\<close>

definition copy_close :: "'w sh_env \<Rightarrow> copy_end \<Rightarrow> 'w shell \<Rightarrow> bool \<times> 'w shell" where
  "copy_close e x sh =
     (case x of OnServer rf \<Rightarrow> (True, sh\<lparr>sh_ext := r_close (x_remote e) rf (sh_ext sh)\<rparr>)
      | OnCard sf \<Rightarrow> call (f_close (x_io e) sf) sh)"

text \<open>After the transfer: close the destination, report \<open>msg\<close> or the bytes copied.\<close>

definition copy_finish :: "'w sh_env \<Rightarrow> copy_end \<Rightarrow> string option \<Rightarrow> u32 \<Rightarrow> 'w shell \<Rightarrow> nat \<times> 'w shell" where
  "copy_finish e dst msg got sh =
     (case copy_close e dst sh of
        (done_ok, sh) \<Rightarrow>
          case (if msg = None \<and> \<not> done_ok then Some (''copy: close error'' @ crlf) else msg) of
            Some m \<Rightarrow> (1, say m sh)
          | None \<Rightarrow> (0, sayf ([CR] @ ''copied '' @ dec32 got @ '' bytes'' @ crlf) sh))"

definition copy_http :: "'w sh_env \<Rightarrow> string \<Rightarrow> string \<Rightarrow> bool \<Rightarrow> 'w shell \<Rightarrow> nat \<times> 'w shell" where
  "copy_http e url name dst_remote sh =
     (case copy_open_dest e name dst_remote sh of
        (None, sh) \<Rightarrow> (1, sh)
      | (Some dst, sh) \<Rightarrow>
          (case call (x_http e url) sh of
             (run, sh) \<Rightarrow>
               (case http_get (copy_sink_write e) run
                       \<lparr>cs_dst = dst, cs_off = 0, cs_err = None, cs_reported = 0, cs_sh = sh\<rparr> of
                  (err, got, s) \<Rightarrow>
                    copy_finish e dst
                      (if err = ESP_OK then None
                       else Some (case cs_err s of
                                    Some m \<Rightarrow> m
                                  | None \<Rightarrow>
                                      if err = ESP_ERR_INVALID_RESPONSE then ''copy: HTTP request failed'' @ crlf
                                      else if err = ESP_ERR_TIMEOUT then ''copy: server unreachable'' @ crlf
                                      else ''copy: fetch failed'' @ crlf))
                      got (cs_sh s))))"

definition copy_open_src :: "'w sh_env \<Rightarrow> string \<Rightarrow> bool \<Rightarrow> 'w shell \<Rightarrow> (copy_end \<times> u32) option \<times> 'w shell" where
  "copy_open_src e name rem sh =
     (if rem
      then (case call (r_open (x_remote e) name False False) sh of
              (Inl err, sh) \<Rightarrow>
                (None, sayf (name @ '': '' @
                   (if err = ESP_ERR_NOT_FOUND then ''not found''
                    else if err = ESP_ERR_TIMEOUT then ''server unreachable'' else ''open failed'') @ crlf) sh)
            | (Inr rf, sh) \<Rightarrow> (Some (OnServer rf, r_size (x_remote e) rf (sh_ext sh)), sh))
      else case resolve e name PATH_CAP sh of
             (None, sh) \<Rightarrow> (None, sh)
           | (Some path, sh) \<Rightarrow>
               (case call (f_open_r (x_io e) path) sh of
                  (Inl err, sh) \<Rightarrow> (None, sayf (name @ '': '' @ x_strerror e err @ crlf) sh)
                | (Inr sf, sh) \<Rightarrow> (Some (OnCard sf, 0), sh)))"

definition cmd_copy :: "'w sh_env \<Rightarrow> 'w handler" where
  "cmd_copy e args sh =
     (if length args < 3 then (1, say (''usage: copy <src> <dst>'' @ crlf) sh)
      else let src_http = http_is_url (args ! 1);
               src_remote = tnfs_is_url (args ! 1);
               dst_remote = tnfs_is_url (args ! 2)
           in if http_is_url (args ! 2)
              then (1, say (''copy: http(s):// is a source only, not a destination'' @ crlf) sh)
              else if (src_http \<or> src_remote \<or> dst_remote) \<and> \<not> net_is_connected (sh_net sh)
              then (1, say (''copy: WiFi not connected'' @ crlf) sh)
              else if src_http then copy_http e (args ! 1) (args ! 2) dst_remote sh
              else case copy_open_src e (args ! 1) src_remote sh of
                     (None, sh) \<Rightarrow> (1, sh)
                   | (Some (src, tot), sh) \<Rightarrow>
                       (case copy_open_dest e (args ! 2) dst_remote sh of
                          (None, sh) \<Rightarrow> (1, snd (copy_close e src sh))
                        | (Some dst, sh) \<Rightarrow>
                            (case copy_loop e src dst tot 0 0 0 sh of
                               (msg, off, sh) \<Rightarrow>
                                 copy_finish e dst msg off (snd (copy_close e src sh)))))"

end
