(* ===== verification/ConfigCommands.thy ===== *)
theory ConfigCommands
  imports Shell
begin

text \<open>
  The commands of \<^verbatim>\<open>src/cli/commands.c\<close> that show or change settings and counters: \<open>version\<close>,
  \<open>reboot\<close>, \<open>save\<close>, \<open>wipe\<close>, \<open>hostname\<close>, \<open>baud\<close>, \<open>stats\<close>, \<open>clear\<close>, \<open>log\<close>, \<open>loopback\<close>, \<open>wifi\<close>,
  \<open>ssid\<close>, \<open>pass\<close>, \<open>ftpuser\<close>, \<open>ftppass\<close>, the service switches, \<open>fdctcp\<close>, \<open>time\<close>, \<open>tz\<close> and
  \<open>logout\<close>.
\<close>

section \<open>Restart and flash\<close>

definition cmd_version :: "'w handler" where
  "cmd_version args sh = (0, sayf (FDCSDS_PRODUCT @ '' '' @ FDCSDS_VERSION_STRING @ crlf) sh)"

definition cmd_reboot :: "'w sh_env \<Rightarrow> 'w handler" where
  "cmd_reboot e args sh =
     (let sh = say (''Rebooting...'' @ crlf) sh;
          sh = upd_disk (disk_unmount_all (denv e sh) (disk sh)) sh
      in (0, sh\<lparr>sh_restarted := True\<rparr>))"

definition cmd_save :: "'w sh_env \<Rightarrow> 'w handler" where
  "cmd_save e args sh =
     (case config_save (x_nvs e) (sh_ext sh) (sh_cfg sh) of
        (rc, c, w) \<Rightarrow>
          let sh = sh\<lparr>sh_cfg := c, sh_ext := w\<rparr>
          in if rc \<noteq> NVS_OK then (1, say (''save failed'' @ crlf) sh)
             else (0, say (''configuration saved'' @ crlf) sh))"

definition cmd_wipe :: "'w sh_env \<Rightarrow> 'w handler" where
  "cmd_wipe e args sh =
     (case config_wipe (x_nvs e) (sh_ext sh) (sh_cfg sh) of
        (rc, c, w) \<Rightarrow>
          let sh = sh\<lparr>sh_cfg := c, sh_ext := w\<rparr>
          in if rc \<noteq> NVS_OK then (1, say (''wipe failed'' @ crlf) sh)
             else (0, say (''NVS erased; defaults restored'' @ crlf) sh))"

section \<open>String settings\<close>

definition set_str :: "config_str_id \<Rightarrow> string \<Rightarrow> 'w shell \<Rightarrow> 'w shell" where
  "set_str k s sh = upd_cfg (config_set_str k (Some s)) sh"

definition or_unset :: "string \<Rightarrow> string" where
  "or_unset s = (if s \<noteq> [] then s else ''(unset)'')"

definition set_unset :: "string \<Rightarrow> string" where
  "set_unset s = (if s \<noteq> [] then ''set'' else ''unset'')"

definition cmd_hostname :: "'w handler" where
  "cmd_hostname args sh =
     (if length args < 2 then (0, sayf (wifi_name (config_get sh) @ crlf) sh)
      else if length (args ! 1) \<ge> CONFIG_NAME_CAP then (1, sayf (''hostname too long (max 40)'' @ crlf) sh)
      else (0, sayf (''hostname set to '' @ args ! 1 @ crlf) (set_str CFG_STR_WIFI_NAME (args ! 1) sh)))"

definition cmd_ssid :: "'w handler" where
  "cmd_ssid args sh =
     (if length args < 2 then (0, sayf (or_unset (wifi_ssid (config_get sh)) @ crlf) sh)
      else if length (args ! 1) \<ge> CONFIG_SSID_CAP then (1, sayf (''SSID too long (max 80)'' @ crlf) sh)
      else (0, sayf (''SSID set to '' @ args ! 1 @ crlf) (set_str CFG_STR_WIFI_SSID (args ! 1) sh)))"

definition cmd_pass :: "'w handler" where
  "cmd_pass args sh =
     (if length args < 2 then (0, sayf (''WiFi password is '' @ set_unset (wifi_pass (config_get sh)) @ crlf) sh)
      else if length (args ! 1) \<ge> CONFIG_PASS_CAP then (1, sayf (''password too long (max 80)'' @ crlf) sh)
      else (0, say (''WiFi password set'' @ crlf) (set_str CFG_STR_WIFI_PASS (args ! 1) sh)))"

definition cmd_ftpuser :: "'w handler" where
  "cmd_ftpuser args sh =
     (if length args < 2 then (0, sayf (or_unset (ftp_user (config_get sh)) @ crlf) sh)
      else if length (args ! 1) \<ge> CONFIG_FTP_CAP then (1, sayf (''FTP username too long (max 32)'' @ crlf) sh)
      else (0, sayf (''FTP username set to '' @ args ! 1 @ '' (save; applies on next connect)'' @ crlf)
                 (set_str CFG_STR_FTP_USER (args ! 1) sh)))"

definition cmd_ftppass :: "'w handler" where
  "cmd_ftppass args sh =
     (if length args < 2 then (0, sayf (''FTP password is '' @ set_unset (ftp_pass (config_get sh)) @ crlf) sh)
      else if length (args ! 1) \<ge> CONFIG_FTP_CAP then (1, sayf (''FTP password too long (max 32)'' @ crlf) sh)
      else (0, say (''FTP password set (save; applies on next connect)'' @ crlf)
                 (set_str CFG_STR_FTP_PASS (args ! 1) sh)))"

text \<open>The time zones of \<^verbatim>\<open>k_tzs\<close>.\<close>

definition k_tzs :: "(string \<times> string) list" where
  "k_tzs = [(''UTC'', ''UTC0''), (''Eastern'', ''EST5EDT''), (''Central'', ''CST6CDT''), (''Mountain'', ''MST7MDT''),
            (''Arizona'', ''MST7''), (''Pacific'', ''PST8PDT''), (''Alaska'', ''AKST9AKDT''), (''Hawaii'', ''HST10'')]"

definition tz_posix :: "string \<Rightarrow> string" where
  "tz_posix s = (case List.find (\<lambda>(n, _). strcaseeq s n) k_tzs of Some (_, tz) \<Rightarrow> tz | None \<Rightarrow> s)"

definition cmd_tz :: "'w sh_env \<Rightarrow> 'w handler" where
  "cmd_tz e args sh =
     (if length args < 2 then (0, sayf (''timezone: '' @ time_zone (config_get sh) @ crlf) sh)
      else let posix = tz_posix (args ! 1)
           in if length posix \<ge> CONFIG_TZ_CAP then (1, sayf (''timezone too long (max 40)'' @ crlf) sh)
              else let sh = set_str CFG_STR_TIME_ZONE posix sh;
                       sh = sh\<lparr>sh_ext := net_apply_timezone (x_wifi e) (config_get sh) (sh_ext sh)\<rparr>
                   in (0, sayf (''timezone set to '' @ posix @ crlf) sh))"

definition cmd_time :: "'w sh_env \<Rightarrow> 'w handler" where
  "cmd_time e args sh =
     (case x_now e (sh_ext sh) of
        None \<Rightarrow> (0, say (''time not set (waiting for NTP; needs WiFi)'' @ crlf) sh)
      | Some t \<Rightarrow> (0, sayf (t @ crlf) sh))"

definition cmd_logout :: "'w handler" where
  "cmd_logout args sh =
     (if \<not> cn_network (sh_con sh) then (0, say (''logout applies only to network sessions'' @ crlf) sh)
      else (0, upd_con (\<lambda>c. c\<lparr>cn_disconnect := True\<rparr>) (say (''Goodbye'' @ crlf) sh)))"

section \<open>The FDC+ link\<close>

definition k_bauds :: "u32 list" where
  "k_bauds = [9600, 19200, 38400, 57600, 76800, 115200, 230400, 403200, 460800]"

definition bauds_list :: "'w shell \<Rightarrow> 'w shell" where
  "bauds_list sh = fold (\<lambda>b. sayf ('' '' @ dec32 b)) k_bauds sh"

definition cmd_baud :: "'w handler" where
  "cmd_baud args sh =
     (if length args < 2 then (0, sayf (''baud '' @ dec32 (baud_rate (config_get sh)) @ crlf) sh)
      else case strtoul 10 (args ! 1) of
             (rate, rest) \<Rightarrow>
               if \<not> (rest = [] \<and> rate \<in> set k_bauds)
               then (1, say crlf (bauds_list (say (''unsupported baud; use one of:'' @ crlf @ '' '') sh)))
               else let sh = upd_cfg (config_set_baud rate) sh;
                        sh = sh\<lparr>sh_fdc := snd (fdc_set_baud rate (sh_fdc sh))\<rparr>
                    in (0, sayf (''baud set to '' @ dec32 rate @ '' (applies to FDC+ link)'' @ crlf) sh))"

definition fdc_tcp_state_name :: "fdc_tcp_state \<Rightarrow> string" where
  "fdc_tcp_state_name st =
     (case st of FDC_TCP_LISTENING \<Rightarrow> ''listening'' | FDC_TCP_CONNECTED \<Rightarrow> ''connected'' | FDC_TCP_OFF \<Rightarrow> ''off'')"

definition print_fdc_interface :: "fdc_stats \<Rightarrow> string \<Rightarrow> 'w shell \<Rightarrow> 'w shell" where
  "print_fdc_interface s indent sh =
     (let sh = (if transport s = FDC_XPORT_TCP
                then sayf (indent @ ''interface: TCP ('' @ tcp_peer s @ '')'' @ crlf) sh
                else sayf (indent @ ''interface: UART ('' @ dec32 (fdc_baud (sh_fdc sh)) @ '' baud)'' @ crlf) sh)
      in if tcp_port s \<noteq> 0
         then sayf (indent @ ''socket:    '' @ fdc_tcp_state_name (tcp_state s) @ '' :'' @ dec (unat (tcp_port s)) @ crlf) sh
         else sayf (indent @ ''socket:    off'' @ crlf) sh)"

definition stat_line :: "string \<Rightarrow> u32 \<Rightarrow> 'w shell \<Rightarrow> 'w shell" where
  "stat_line label n sh = sayf (''  '' @ padr 10 label @ dec32 n @ crlf) sh"

definition stat_line_of :: "string \<Rightarrow> u32 \<Rightarrow> string \<Rightarrow> 'w shell \<Rightarrow> 'w shell" where
  "stat_line_of label n what sh = sayf (''  '' @ padr 10 label @ padr 6 (dec32 n) @ what @ crlf) sh"

definition cmd_stats :: "'w handler" where
  "cmd_stats args sh =
     (let s = fdc_get_stats (sh_fdc sh);
          sh = sayf (''FDC+ link: '' @ dec32 (fdc_baud (sh_fdc sh)) @ '' baud'' @ crlf) sh;
          sh = print_fdc_interface s ''  '' sh;
          sh = stat_line ''STAT'' (n_stat s) sh;
          sh = stat_line ''READ'' (n_read s) sh;
          sh = stat_line ''WRIT'' (n_writ s) sh;
          sh = stat_line ''not-rdy'' (n_not_ready s) sh;
          sh = stat_line_of ''cmd-csum'' (n_cmd_csum s) ''(bad command header from FDC)'' sh;
          sh = stat_line_of ''data-csum'' (n_data_csum s) ''(bad WRIT track data from FDC)'' sh;
          sh = stat_line_of ''cmd-tmo'' (n_cmd_timeout s) ''(command header truncated)'' sh;
          sh = stat_line_of ''data-tmo'' (n_data_timeout s) ''(WRIT track data incomplete)'' sh;
          sh = stat_line_of ''fifo-ovf'' (n_fifo_ovf s) ''(RX overflow: bytes lost, ISR starved)'' sh;
          sh = stat_line_of ''frame-err'' (n_frame_err s) ''(RX framing: baud / electrical)'' sh;
          sh = stat_line ''unknown'' (n_unknown s) sh;
          sh = (if tcp_port s \<noteq> 0
                then sayf (''  '' @ padr 10 ''tcp'' @ dec32 (n_tcp_connects s) @ '' connects, '' @
                        dec32 (n_tcp_disconnects s) @ '' disconnects, '' @ dec32 (n_tcp_refused s) @ '' refused'' @ crlf) sh
                else sh)
      in (0, sayf (''  '' @ padr 10 ''last'' @ (if last_op s \<noteq> [] then last_op s else ''(none)'') @ crlf) sh))"

definition cmd_clear :: "'w handler" where
  "cmd_clear args sh = (0, say (''statistics cleared'' @ crlf) (sh\<lparr>sh_fdc := fdc_clear_stats (sh_fdc sh)\<rparr>))"

definition cmd_loopback :: "'w sh_env \<Rightarrow> 'w handler" where
  "cmd_loopback e args sh =
     (let sh = say (''loopback: jumper FDC+ TX<->RX, sending 256-byte pattern...'' @ crlf) sh
      in case fdc_loopback (x_fdc_task e) True (x_loopback e) (sh_fdc sh) of
           (err, res, st) \<Rightarrow>
             let sh = sh\<lparr>sh_fdc := st\<rparr>
             in (case (err, res) of
                   (ESP_OK, Some r) \<Rightarrow>
                     if lb_mismatches r = 0
                     then (0, sayf (''loopback OK: '' @ dec32 (lb_received r) @ ''/'' @ dec32 (lb_sent r) @ '' bytes matched'' @ crlf) sh)
                     else (1, say (''  (check TX<->RX jumper, wiring, and baud)'' @ crlf)
                            (sayf (''loopback FAILED: '' @ dec32 (lb_received r) @ ''/'' @ dec32 (lb_sent r) @ '' received, '' @
                                   dec32 (lb_mismatches r) @ '' mismatch(es), first at '' @ dec32 (lb_first_bad r) @ crlf) sh))
                 | _ \<Rightarrow> (1, sayf (''loopback: '' @ x_errname e err @ crlf) sh)))"

definition cmd_fdctcp :: "'w handler" where
  "cmd_fdctcp args sh =
     (if length args < 2
      then let port = fdc_tcp_port (config_get sh);
               sh = (if port \<noteq> 0 then sayf (''FDC+ TCP port is '' @ dec (unat port) @ crlf) sh
                     else say (''FDC+ TCP is off'' @ crlf) sh)
           in (0, print_fdc_interface (fdc_get_stats (sh_fdc sh)) [] sh)
      else case (if strcaseeq (args ! 1) ''off'' then (0, []) else strtoul 10 (args ! 1)) of
             (port, rest) \<Rightarrow>
               if \<not> strcaseeq (args ! 1) ''off'' \<and> (rest \<noteq> [] \<or> port < 1 \<or> port > 65535)
               then (1, say (''usage: fdctcp [off | <port 1-65535>]'' @ crlf) sh)
               else let sh = upd_cfg (config_set_fdc_tcp_port (ucast port)) sh
                    in (0, if port \<noteq> 0
                           then sayf (''FDC+ TCP set to port '' @ dec32 port @ '' (save, then reboot to apply)'' @ crlf) sh
                           else say (''FDC+ TCP off (save, then reboot to apply)'' @ crlf) sh))"

section \<open>Logging, WiFi and services\<close>

definition k_log_levels :: "(string \<times> byte) list" where
  "k_log_levels = [(''none'', 0), (''error'', 1), (''warn'', 2), (''info'', 3), (''debug'', 4), (''verbose'', 5)]"

definition log_level_name :: "byte \<Rightarrow> string" where
  "log_level_name level = (case List.find (\<lambda>(_, l). l = level) k_log_levels of Some (n, _) \<Rightarrow> n | None \<Rightarrow> ''?'')"

definition log_level_of :: "string \<Rightarrow> byte option" where
  "log_level_of s =
     (if strcaseeq s ''off'' then Some 0 else if strcaseeq s ''on'' then Some 3
      else map_option snd (List.find (\<lambda>(n, _). strcaseeq s n) k_log_levels))"

definition cmd_log :: "'w sh_env \<Rightarrow> 'w handler" where
  "cmd_log e args sh =
     (if length args < 2 then (0, sayf (''log level: '' @ log_level_name (log_level (config_get sh)) @ crlf) sh)
      else case log_level_of (args ! 1) of
             None \<Rightarrow> (1, say (''usage: log none|error|warn|info|debug|verbose'' @ crlf) sh)
           | Some level \<Rightarrow>
               let sh = upd_cfg (config_set_log_level level) sh;
                   sh = sh\<lparr>sh_ext := x_log_level e level (sh_ext sh)\<rparr>
               in (0, sayf (''log level set to '' @ log_level_name level @ '' (save to persist)'' @ crlf) sh))"

definition wifi_enable :: "'w sh_env \<Rightarrow> bool \<Rightarrow> 'w shell \<Rightarrow> esp_err \<times> 'w shell" where
  "wifi_enable e on sh =
     (case net_wifi_enable (x_wifi e) on (config_get sh) (sh_net sh, sh_ext sh) of
        (err, n, w) \<Rightarrow> (err, sh\<lparr>sh_net := n, sh_ext := w\<rparr>))"

definition mac_text :: "bytes \<Rightarrow> string" where
  "mac_text m = hex2 (m ! 0) @ concat (map (\<lambda>i. '':'' @ hex2 (m ! i)) [1..<6])"

definition dec_int :: "int \<Rightarrow> string" where
  "dec_int n = (if n < 0 then ''-'' @ dec (nat (- n)) else dec (nat n))"

definition cmd_wifi :: "'w sh_env \<Rightarrow> 'w handler" where
  "cmd_wifi e args sh =
     (if length args > 1
      then if strcaseeq (args ! 1) ''on''
           then (case wifi_enable e True (upd_cfg (config_set_wifi_enabled True) sh) of
                   (err, sh) \<Rightarrow>
                     if err = ESP_ERR_INVALID_STATE then (1, say (''set an SSID first (ssid <name>)'' @ crlf) sh)
                     else if err \<noteq> ESP_OK then (1, sayf (''wifi on: '' @ x_errname e err @ crlf) sh)
                     else (0, say (''WiFi enabled; connecting...'' @ crlf) sh))
           else if strcaseeq (args ! 1) ''off''
           then (0, say (''WiFi disabled'' @ crlf) (snd (wifi_enable e False (upd_cfg (config_set_wifi_enabled False) sh))))
           else (1, say (''usage: wifi [on|off]'' @ crlf) sh)
      else let s = net_get_status (x_wifi e) (config_get sh) (sh_net sh) (sh_ext sh);
               sh = sayf (''WiFi:  '' @ (if ns_enabled s then ''enabled'' else ''disabled'') @ crlf) sh;
               sh = sayf (''SSID:  '' @ or_unset (ns_ssid s) @ crlf) sh
           in (0, if ns_connected s
                  then sayf (''AP:    '' @ mac_text (ns_bssid s) @ ''  RSSI '' @ dec_int (ns_rssi s) @ '' dBm'' @ crlf)
                         (sayf (''State: connected  IP '' @ ns_ip s @ crlf) sh)
                  else sayf (''State: '' @ (if ns_enabled s then ''connecting/disconnected'' else ''idle'') @ crlf) sh))"

text \<open>The three service switches, which differ in the flag and the name.\<close>

definition service_switch ::
    "string \<Rightarrow> string \<Rightarrow> (config_t \<Rightarrow> bool) \<Rightarrow> (bool \<Rightarrow> config_state \<Rightarrow> config_state) \<Rightarrow> 'w handler" where
  "service_switch cmd what flag set_flag args sh =
     (if length args < 2
      then (0, sayf (what @ '' is '' @ (if flag (config_get sh) then ''enabled'' else ''disabled'') @ crlf) sh)
      else if \<not> strcaseeq (args ! 1) ''on'' \<and> \<not> strcaseeq (args ! 1) ''off''
      then (1, say (''usage: '' @ cmd @ '' [on|off]'' @ crlf) sh)
      else let on = strcaseeq (args ! 1) ''on''
           in (0, sayf (what @ '' '' @ (if on then ''enabled'' else ''disabled'') @ '' (save, then reboot to apply)'' @ crlf)
                    (upd_cfg (set_flag on) sh)))"

definition cmd_telnetd :: "'w handler" where
  "cmd_telnetd = service_switch ''telnetd'' ''Telnet console'' telnet_enabled config_set_telnet_enabled"

definition cmd_ftpd :: "'w handler" where
  "cmd_ftpd = service_switch ''ftpd'' ''FTP server'' ftp_enabled config_set_ftp_enabled"

definition cmd_tnfsd :: "'w handler" where
  "cmd_tnfsd = service_switch ''tnfsd'' ''TNFS server'' tnfsd_enabled config_set_tnfsd_enabled"

end
