(* ===== verification/Ota.thy ===== *)
theory Ota
  imports ConfigCommands
begin

text \<open>
  The firmware update of \<^verbatim>\<open>src/net/ota.c\<close>: the version report, the installation from the card
  and over HTTPS, and the entry that runs one update at a time. Writing the inactive slot,
  checking the image and selecting the boot slot are calls of ESP-IDF (\<open>ota_api\<close>). The task the
  update runs on is joined before the entry returns, so the model runs it in place. The count
  of bytes flashed is an \<^verbatim>\<open>int\<close>; a slot is far smaller than 2 GiB, so it does not overflow.
\<close>

section \<open>Versions\<close>

text \<open>One \<^verbatim>\<open>%d\<close> of \<^verbatim>\<open>sscanf\<close>: \<open>None\<close> without a digit.\<close>

definition scan_int :: "string \<Rightarrow> (int \<times> string) option" where
  "scan_int s = (case strtol s of (v, r) \<Rightarrow> if length r < length s then Some (v, r) else None)"

definition scan_dot :: "string \<Rightarrow> (int \<times> string) option" where
  "scan_dot s = (case s of c # r \<Rightarrow> if c = CHR ''.'' then scan_int r else None | [] \<Rightarrow> None)"

definition parse_semver :: "string \<Rightarrow> (int \<times> int \<times> int) option" where
  "parse_semver s =
     (case scan_int (dropWhile (\<lambda>c. c = CHR '' '' \<or> c = CHR 0x09 \<or> c = CHR ''v'' \<or> c = CHR ''V'') s) of
        None \<Rightarrow> None
      | Some (maj, r) \<Rightarrow>
          (case scan_dot r of
             None \<Rightarrow> None
           | Some (mn, r) \<Rightarrow> (case scan_dot r of None \<Rightarrow> None | Some (pat, _) \<Rightarrow> Some (maj, mn, pat))))"

text \<open>The running version is 1.0.7.\<close>

definition version_newer :: "int \<Rightarrow> int \<Rightarrow> int \<Rightarrow> bool" where
  "version_newer maj mn pat = (if maj \<noteq> 1 then maj > 1 else if mn \<noteq> 0 then mn > 0 else pat > 7)"

definition version_relation :: "int \<Rightarrow> int \<Rightarrow> int \<Rightarrow> string" where
  "version_relation maj mn pat =
     (if maj = 1 \<and> mn = 0 \<and> pat = 7 then ''same version''
      else if version_newer maj mn pat then ''newer'' else ''older'')"

text \<open>The conversion of a file size to \<^verbatim>\<open>int\<close>.\<close>

definition c_int :: "int \<Rightarrow> int" where
  "c_int n = sint (word_of_int n :: 32 word)"

section \<open>What an image says of itself\<close>

abbreviation (input) OTA_SD_PATH :: string where "OTA_SD_PATH \<equiv> ''/sd/firmware.bin''"
abbreviation (input) OTA_SD_NAME :: string where "OTA_SD_NAME \<equiv> ''/firmware.bin''"
abbreviation (input) OTA_URL_MAX :: nat where "OTA_URL_MAX \<equiv> 256"

definition image_file_version :: "'w sh_env \<Rightarrow> string \<Rightarrow> 'w shell \<Rightarrow> string option \<times> 'w shell" where
  "image_file_version e path sh =
     (case call (f_open_r (x_io e) path) sh of
        (Inl _, sh) \<Rightarrow> (None, sh)
      | (Inr f, sh) \<Rightarrow>
          let o' = x_ota e;
              desc = fread (x_io e) f (oa_desc_at o') (oa_desc_len o') (sh_ext sh);
              ver = (if length desc = oa_desc_len o' then oa_desc o' desc else None)
          in (map_option (\<lambda>v. strlcpy v 32) ver, snd (call (f_close (x_io e) f) sh)))"

definition https_image_version :: "'w sh_env \<Rightarrow> string \<Rightarrow> 'w shell \<Rightarrow> (esp_err + string) \<times> 'w shell" where
  "https_image_version e url sh =
     (case call (oh_begin (x_ota e) url) sh of
        (Inl err, sh) \<Rightarrow> (Inl err, sh)
      | (Inr h, sh) \<Rightarrow>
          let res = (case oh_desc (x_ota e) h (sh_ext sh) of Inl err \<Rightarrow> Inl err | Inr v \<Rightarrow> Inr (strlcpy v 32))
          in (res, snd (call (oh_abort (x_ota e) h) sh)))"

definition report_install_version :: "string \<Rightarrow> 'w shell \<Rightarrow> 'w shell" where
  "report_install_version embedded sh =
     (case parse_semver embedded of
        Some (maj, mn, pat) \<Rightarrow>
          sayf (''running '' @ FDCSDS_VERSION_STRING @ '', image '' @ embedded @ '' ('' @ version_relation maj mn pat @ '')'' @ crlf) sh
      | None \<Rightarrow> sayf (''running '' @ FDCSDS_VERSION_STRING @ '', image '' @ embedded @ crlf) sh)"

section \<open>Installing\<close>

text \<open>\<open>mark\<close> is the value last printed.\<close>

definition progress :: "int \<Rightarrow> int \<Rightarrow> int \<times> 'w shell \<Rightarrow> int \<times> 'w shell" where
  "progress n tot s =
     (case s of (mark, sh) \<Rightarrow>
        if tot > 0
        then let pct = n * 100 div tot
             in if pct \<noteq> mark
                then (pct, sayf ([CR] @ ''  '' @ padl 3 (dec (nat pct)) @ ''%'') sh) else (mark, sh)
        else let dots = n div 65536 in if dots \<noteq> mark then (dots, say ''.'' sh) else (mark, sh))"

text \<open>The flashing loop on the file: the error of \<^verbatim>\<open>esp_ota_write\<close> that ended it, if any.\<close>

function flash_loop :: "'w sh_env \<Rightarrow> int \<Rightarrow> int \<Rightarrow> int \<Rightarrow> nat \<Rightarrow> int \<times> 'w shell \<Rightarrow> esp_err \<times> 'w shell" where
  "flash_loop e f h tot pos s =
     (let data = fread (x_io e) f pos 4096 (sh_ext (snd s))
      in if data = [] then (ESP_OK, snd s)
         else case call (oa_write (x_ota e) h data) (snd s) of
                (err, sh) \<Rightarrow>
                  if err \<noteq> ESP_OK then (err, sh)
                  else flash_loop e f h tot (pos + length data) (progress (int (pos + length data)) tot (fst s, sh)))"
  by pat_completeness auto
termination
  by (relation "measure (\<lambda>(e, f, h, tot, pos, s). 4294967296 - pos)") (auto dest: fread_advances)

declare flash_loop.simps [simp del]

definition flash_msg :: "int \<Rightarrow> string \<Rightarrow> string" where
  "flash_msg tot slot =
     ''flashing '' @ dec_int tot @ '' bytes from '' @ OTA_SD_NAME @ '' to '' @ quoted slot @ '' (erasing)...'' @ crlf"

text \<open>
  \<open>do_sd\<close> behind the opening of the file; the result is the error and whether to reboot. The
  closing and freeing of the loop's end is written once.
\<close>

definition sd_flash :: "'w sh_env \<Rightarrow> int \<Rightarrow> int \<Rightarrow> 'w shell \<Rightarrow> (esp_err \<times> bool) \<times> 'w shell" where
  "sd_flash e tot f sh =
     (case oa_slot (x_ota e) (sh_ext sh) of
        None \<Rightarrow> ((ESP_FAIL, False), say (''no OTA slot available (check partitions)'' @ crlf) (snd (call (f_close (x_io e) f) sh)))
      | Some slot \<Rightarrow>
          if \<not> e_malloc (denv e sh)
          then ((ESP_ERR_NO_MEM, False), say (''out of memory'' @ crlf) (snd (call (f_close (x_io e) f) sh)))
          else let sh = sayf (flash_msg tot slot) sh
          in case call (oa_begin (x_ota e) slot tot) sh of
               (Inl err, sh) \<Rightarrow>
                 ((err, False), sayf (''ota_begin: '' @ x_errname e err @ crlf) (snd (call (f_close (x_io e) f) sh)))
             | (Inr h, sh) \<Rightarrow>
                 (case flash_loop e f h tot 0 (-1, sh) of
                    (err, sh) \<Rightarrow>
                      let read_err = f_error (x_io e) f (sh_ext sh);
                          sh = snd (call (f_close (x_io e) f) sh)
                      in if err \<noteq> ESP_OK
                         then ((err, False), sayf (crlf @ ''ota_write: '' @ x_errname e err @ crlf) (snd (call (oa_abort (x_ota e) h) sh)))
                         else if read_err
                         then ((ESP_FAIL, False), say (crlf @ ''read error on firmware.bin'' @ crlf) (snd (call (oa_abort (x_ota e) h) sh)))
                         else case call (oa_end (x_ota e) h) sh of
                           (err, sh) \<Rightarrow>
                             if err \<noteq> ESP_OK then ((err, False), sayf (crlf @ ''ota_end (bad image?): '' @ x_errname e err @ crlf) sh)
                             else (case call (oa_set_boot (x_ota e) slot) sh of
                                     (err, sh) \<Rightarrow>
                                       if err \<noteq> ESP_OK then ((err, False), sayf (crlf @ ''set_boot: '' @ x_errname e err @ crlf) sh)
                                       else ((ESP_OK, True),
                                             sayf (crlf @ ''flashed OK; boot set to '' @ quoted slot @ crlf)
                                               (snd (call (v_unlink (x_fs e) OTA_SD_PATH) sh))))))"

definition do_sd :: "'w sh_env \<Rightarrow> 'w shell \<Rightarrow> (esp_err \<times> bool) \<times> 'w shell" where
  "do_sd e sh =
     (if \<not> sd_mounted e sh then ((ESP_ERR_INVALID_STATE, False), say (''no SD card'' @ crlf) sh)
      else case v_stat (x_fs e) OTA_SD_PATH (sh_ext sh) of
             Inl _ \<Rightarrow> ((ESP_ERR_NOT_FOUND, False), sayf (OTA_SD_NAME @ '' not found on SD'' @ crlf) sh)
           | Inr st \<Rightarrow>
               if st_size st \<le> 0 then ((ESP_ERR_INVALID_SIZE, False), sayf (OTA_SD_NAME @ '' is empty'' @ crlf) sh)
               else case image_file_version e OTA_SD_PATH sh of
                      (ver, sh) \<Rightarrow>
                        let sh = (case ver of Some v \<Rightarrow> report_install_version v sh | None \<Rightarrow> sh)
                        in (case call (f_open_r (x_io e) OTA_SD_PATH) sh of
                              (Inl err, sh) \<Rightarrow> ((ESP_FAIL, False), sayf (''open '' @ OTA_SD_NAME @ '': '' @ x_strerror e err @ crlf) sh)
                            | (Inr f, sh) \<Rightarrow> sd_flash e (c_int (st_size st)) f sh))"

definition do_https :: "'w sh_env \<Rightarrow> string \<Rightarrow> 'w shell \<Rightarrow> (esp_err \<times> bool) \<times> 'w shell" where
  "do_https e url sh =
     (if \<not> net_is_connected (sh_net sh) then ((ESP_ERR_INVALID_STATE, False), say (''WiFi not connected'' @ crlf) sh)
      else let sh = sayf (''connecting to '' @ url @ '' ...'' @ crlf) sh
      in case call (oh_begin (x_ota e) url) sh of
           (Inl err, sh) \<Rightarrow> ((err, False), sayf (''connect failed: '' @ x_errname e err @ crlf) sh)
         | (Inr h, sh) \<Rightarrow>
             let sh = (case oh_desc (x_ota e) h (sh_ext sh) of Inr v \<Rightarrow> report_install_version v sh | Inl _ \<Rightarrow> sh);
                 tot = oh_size (x_ota e) h (sh_ext sh);
                 sh = (if tot > 0 then sayf (''downloading '' @ dec (nat tot) @ '' bytes...'' @ crlf) sh
                       else say (''downloading...'' @ crlf) sh)
             in (case call (oh_perform (x_ota e) h) sh of
                   ((lens, err), sh) \<Rightarrow>
                     (case fold (\<lambda>n. progress n tot) lens (-1, sh) of
                        (mark, sh) \<Rightarrow>
                          if err \<noteq> ESP_OK
                          then ((err, False), snd (call (oh_abort (x_ota e) h)
                                 (sayf (crlf @ ''download failed: '' @ x_errname e err @ crlf) sh)))
                          else if \<not> oh_complete (x_ota e) h (sh_ext sh)
                          then ((ESP_FAIL, False), snd (call (oh_abort (x_ota e) h) (say (crlf @ ''incomplete download'' @ crlf) sh)))
                          else case call (oh_finish (x_ota e) h) sh of
                                 (err, sh) \<Rightarrow>
                                   if err \<noteq> ESP_OK
                                   then ((err, False), sayf (crlf @ ''finish (bad image?): '' @ x_errname e err @ crlf) sh)
                                   else ((ESP_OK, True), say (crlf @ ''downloaded and verified; boot set to new slot'' @ crlf) sh))))"

definition repo_url :: "string \<Rightarrow> string" where
  "repo_url repo = take (OTA_URL_MAX - 1)
     (''https://raw.githubusercontent.com/'' @ repo @ ''/master/ota/firmware.bin'')"

definition do_repo :: "'w sh_env \<Rightarrow> 'w shell \<Rightarrow> (esp_err \<times> bool) \<times> 'w shell" where
  "do_repo e sh =
     (if \<not> net_is_connected (sh_net sh) then ((ESP_ERR_INVALID_STATE, False), say (''WiFi not connected'' @ crlf) sh)
      else if ota_repo (config_get sh) = []
      then ((ESP_ERR_INVALID_STATE, False), say (''no OTA repo configured (otaRepo empty)'' @ crlf) sh)
      else do_https e (repo_url (ota_repo (config_get sh))) sh)"

definition do_url :: "'w sh_env \<Rightarrow> string \<Rightarrow> 'w shell \<Rightarrow> (esp_err \<times> bool) \<times> 'w shell" where
  "do_url e url sh =
     (if strncaseeq url ''https://'' 8 then do_https e url sh
      else if strncaseeq url ''tnfs://'' 7
      then ((ESP_ERR_NOT_SUPPORTED, False), say (''tnfs:// OTA is not available yet (needs the TNFS client, M9)'' @ crlf) sh)
      else ((ESP_ERR_INVALID_ARG, False), say (''url must start with https:// or tnfs://'' @ crlf) sh))"

section \<open>The report of a bare \<open>update\<close>\<close>

definition report_local :: "'w sh_env \<Rightarrow> 'w shell \<Rightarrow> 'w shell" where
  "report_local e sh =
     (let head = padr 9 ''local:'' @ '' ''
      in if \<not> sd_mounted e sh then sayf (head @ ''no SD card'' @ crlf) sh
         else case v_stat (x_fs e) OTA_SD_PATH (sh_ext sh) of
                Inl _ \<Rightarrow> sayf (head @ ''none ('' @ OTA_SD_NAME @ '')'' @ crlf) sh
              | Inr st \<Rightarrow>
                  if st_size st \<le> 0 then sayf (head @ ''none ('' @ OTA_SD_NAME @ '')'' @ crlf) sh
                  else case image_file_version e OTA_SD_PATH sh of
                         (Some v, sh) \<Rightarrow> sayf (head @ OTA_SD_NAME @ ''  ('' @ dec_int (c_int (st_size st)) @ '' bytes, v'' @ v @ '')'' @ crlf) sh
                       | (None, sh) \<Rightarrow> sayf (head @ OTA_SD_NAME @ ''  ('' @ dec_int (c_int (st_size st)) @ '' bytes)'' @ crlf) sh)"

definition report_ota :: "'w sh_env \<Rightarrow> 'w shell \<Rightarrow> 'w shell" where
  "report_ota e sh =
     (let head = padr 9 ''ota:'' @ '' ''; repo = ota_repo (config_get sh)
      in if repo = [] then sayf (head @ ''no repo configured'' @ crlf) sh
         else if \<not> net_is_connected (sh_net sh) then sayf (head @ repo @ '' (WiFi not connected)'' @ crlf) sh
         else case https_image_version e (repo_url repo) sh of
                (Inl err, sh) \<Rightarrow> sayf (head @ repo @ '' ('' @ x_errname e err @ '')'' @ crlf) sh
              | (Inr ver, sh) \<Rightarrow>
                  (case parse_semver ver of
                     Some (maj, mn, pat) \<Rightarrow> sayf (head @ repo @ '' -> '' @ ver @ ''  ('' @ version_relation maj mn pat @ '')'' @ crlf) sh
                   | None \<Rightarrow> sayf (head @ repo @ '' -> '' @ ver @ crlf) sh))"

definition do_status :: "'w sh_env \<Rightarrow> 'w shell \<Rightarrow> (esp_err \<times> bool) \<times> 'w shell" where
  "do_status e sh =
     ((ESP_OK, False),
      say (''install with '' @ quoted ''update local'' @ '' (SD) or '' @ quoted ''update ota'' @ '' (network)'' @ crlf)
        (report_ota e (report_local e (sayf (padr 9 ''running:'' @ '' '' @ FDCSDS_VERSION_STRING @ crlf) sh))))"

section \<open>Running an update\<close>

datatype ota_src = OTA_SRC_STATUS | OTA_SRC_SD | OTA_SRC_REPO | OTA_SRC_URL string

definition ota_task :: "'w sh_env \<Rightarrow> ota_src \<Rightarrow> 'w shell \<Rightarrow> esp_err \<times> 'w shell" where
  "ota_task e src sh =
     (case (case src of OTA_SRC_STATUS \<Rightarrow> do_status e sh | OTA_SRC_SD \<Rightarrow> do_sd e sh
            | OTA_SRC_REPO \<Rightarrow> do_repo e sh | OTA_SRC_URL url \<Rightarrow> do_url e url sh) of
        ((err, reboot), sh) \<Rightarrow>
          if err = ESP_OK \<and> reboot
          then let sh = say (''rebooting into the new firmware...'' @ crlf) sh;
                   sh = upd_disk (disk_unmount_all (denv e sh) (disk sh)) sh
               in (err, sh\<lparr>sh_restarted := True\<rparr>)
          else (err, sh))"

text \<open>After a restart the entry never returns, and the flag is left set.\<close>

definition ota_run :: "'w sh_env \<Rightarrow> ota_src \<Rightarrow> 'w shell \<Rightarrow> esp_err \<times> 'w shell" where
  "ota_run e src sh =
     (if sh_ota_busy sh then (ESP_ERR_INVALID_STATE, say (''an update is already in progress'' @ crlf) sh)
      else let sh = sh\<lparr>sh_ota_busy := True\<rparr>
      in if \<not> oa_sem (x_ota e)
         then (ESP_ERR_NO_MEM, say (''out of memory'' @ crlf) (sh\<lparr>sh_ota_busy := False\<rparr>))
         else if \<not> oa_task (x_ota e)
         then (ESP_ERR_NO_MEM, say (''cannot start OTA task (out of memory)'' @ crlf) (sh\<lparr>sh_ota_busy := False\<rparr>))
         else case ota_task e src sh of
                (err, sh) \<Rightarrow> (err, if sh_restarted sh then sh else sh\<lparr>sh_ota_busy := False\<rparr>))"

text \<open>The entries of \<^verbatim>\<open>ota.h\<close>; the URL is copied into the job.\<close>

definition ota_status :: "'w sh_env \<Rightarrow> 'w shell \<Rightarrow> esp_err \<times> 'w shell" where
  "ota_status e sh = ota_run e OTA_SRC_STATUS sh"

definition ota_update_sd :: "'w sh_env \<Rightarrow> 'w shell \<Rightarrow> esp_err \<times> 'w shell" where
  "ota_update_sd e sh = ota_run e OTA_SRC_SD sh"

definition ota_update_repo :: "'w sh_env \<Rightarrow> 'w shell \<Rightarrow> esp_err \<times> 'w shell" where
  "ota_update_repo e sh = ota_run e OTA_SRC_REPO sh"

definition ota_update_url :: "'w sh_env \<Rightarrow> string \<Rightarrow> 'w shell \<Rightarrow> esp_err \<times> 'w shell" where
  "ota_update_url e url sh = ota_run e (OTA_SRC_URL (strlcpy url OTA_URL_MAX)) sh"

definition cmd_update :: "'w sh_env \<Rightarrow> 'w handler" where
  "cmd_update e args sh =
     (case (if length args < 2 then ota_status e sh
            else if strcaseeq (args ! 1) ''local'' then ota_update_sd e sh
            else if strcaseeq (args ! 1) ''ota'' then ota_update_repo e sh
            else ota_update_url e (args ! 1) sh) of
        (err, sh) \<Rightarrow> (if err = ESP_OK then 0 else 1, sh))"

lemmas ota_entries = ota_status_def ota_update_sd_def ota_update_repo_def ota_update_url_def

end
