(* ===== verification/CommandTable.thy ===== *)
theory CommandTable
  imports Cli
begin

text \<open>
  The command table of \<^verbatim>\<open>src/cli/commands.c\<close>: \<open>k_commands\<close> in the order of the source, with the
  names, aliases, one-line summaries and detailed help of every command. The lemmas: every name
  and alias finds its own command, and an abbreviation the only command it can mean.
\<close>

section \<open>Detailed help\<close>

definition D_help :: string where
  "D_help =
     ''usage: help [<command>]'' @ crlf @
     ''  '' @ [CHR 0x27] @ ''?'' @ [CHR 0x27] @ '' is a synonym for help  (e.g. '' @ [CHR 0x27] @ ''? mount'' @ [CHR 0x27] @ '')'' @ crlf"

definition D_baud :: string where
  "D_baud =
     ''Sets the speed of the serial link to the FDC+ board - not this USB console,'' @ crlf @
     ''which is unaffected. The FDC+ S-100 board must be set to the same rate or the'' @ crlf @
     ''two cannot talk. A new rate applies immediately; run '' @ [CHR 0x27] @ ''save'' @ [CHR 0x27] @ '' to keep it across'' @ crlf @
     ''reboots.'' @ crlf @
     ''usage: baud [<rate>]        (with no rate, shows the current speed)'' @ crlf"

definition D_dir :: string where
  "D_dir =
     ''With a pattern, shows only matching files; with a subdirectory name, lists'' @ crlf @
     ''that folder; with a tnfs:// URL, lists a directory on a TNFS server.'' @ crlf @
     ''Subdirectories are shown with a trailing '' @ [CHR 0x27] @ ''/'' @ [CHR 0x27] @ '', listed first, then files,'' @ crlf @
     ''each in case-insensitive alphabetical order.'' @ crlf @
     ''usage: dir [<pattern> | <subdir> | tnfs://<host>/<path>]'' @ crlf @
     ''examples:'' @ crlf @
     ''  dir                 list every file'' @ crlf @
     ''  dir *.DSK           list only .DSK files'' @ crlf @
     ''  dir cpm             list the cpm/ subdirectory'' @ crlf @
     ''  dir cpm/*.DSK       list .DSK files under cpm/'' @ crlf @
     ''  dir tnfs://192.168.1.10/disks'' @ crlf"

definition D_mount :: string where
  "D_mount =
     ''With no arguments, shows what is mounted on each drive.'' @ crlf @
     ''usage: mount [<drive> <file | tnfs://host/path>]'' @ crlf @
     ''  <drive> is 0-3'' @ crlf @
     ''  <file> is an image on the SD card; a tnfs:// URL mounts it over the network'' @ crlf @
     ''examples:'' @ crlf @
     ''  mount               show the mount table'' @ crlf @
     ''  mount 0 CPM22.DSK'' @ crlf @
     ''  mount 1 tnfs://192.168.1.10/disks/GAMES.DSK'' @ crlf"

definition D_unmount :: string where
  "D_unmount =
     ''usage: unmount <drive>      (<drive> is 0-3)'' @ crlf"

definition D_log :: string where
  "D_log =
     ''A new level applies immediately; run '' @ [CHR 0x27] @ ''save'' @ [CHR 0x27] @ '' to keep it across reboots.'' @ crlf @
     ''usage: log [<level>]        (with no level, shows the current setting)'' @ crlf"

definition D_save :: string where
  "D_save =
     ''Covers mounts, WiFi, baud, timezone, and the rest, so the device restores'' @ crlf @
     ''them automatically after a reboot or power loss.'' @ crlf @
     ''usage: save'' @ crlf"

definition D_wipe :: string where
  "D_wipe =
     ''Takes effect at once. Does not touch the SD card or its disk images.'' @ crlf @
     ''usage: wipe'' @ crlf"

definition D_stats :: string where
  "D_stats =
     ''Reports the FDC+ link speed and running counts since boot (or the last'' @ crlf @
     [CHR 0x27] @ ''clear'' @ [CHR 0x27] @ ''):'' @ crlf @
     ''  STAT / READ / WRIT   commands the FDC+ has issued, by type'' @ crlf @
     ''  not-rdy              requests to a drive with no image mounted'' @ crlf @
     ''  csum-err             commands rejected for a bad checksum'' @ crlf @
     ''  timeout              commands that did not complete in time'' @ crlf @
     ''  unknown              unrecognized commands'' @ crlf @
     ''  last                 the most recent command handled'' @ crlf @
     ''usage: stats'' @ crlf"

definition D_diag :: string where
  "D_diag =
     ''Prints one self-contained report - firmware/hardware, saved (NVS) settings,'' @ crlf @
     ''WiFi, SD card, drives, and FDC+ link stats - meant to be copied out of the'' @ crlf @
     ''console and pasted into a support email. Passwords are never shown, only'' @ crlf @
     ''whether one is set. Read-only: it changes nothing.'' @ crlf @
     ''usage: diag'' @ crlf"

definition D_dump :: string where
  "D_dump =
     ''16 bytes per line, like xxd, for troubleshooting. With no arguments, shows'' @ crlf @
     ''the last track the FDC+ transferred.'' @ crlf @
     ''usage: dump [<drive> [<track> [<length>]]]'' @ crlf @
     ''  <drive> is 0-3; <track> defaults to 0; <length> defaults to 256 bytes'' @ crlf"

definition D_wifi :: string where
  "D_wifi =
     ''Set the network first with '' @ [CHR 0x27] @ ''ssid'' @ [CHR 0x27] @ '' and '' @ [CHR 0x27] @ ''pass'' @ [CHR 0x27] @ ''.'' @ crlf @
     ''usage: wifi [on | off]      (with no argument, shows status: SSID, IP, signal)'' @ crlf"

definition D_ssid :: string where
  "D_ssid =
     ''usage: ssid [<network-name>]   (with no name, shows the current SSID)'' @ crlf"

definition D_pass :: string where
  "D_pass =
     ''For safety the stored password is never shown - only whether one is set.'' @ crlf @
     ''usage: pass <password>'' @ crlf"

definition D_hostname :: string where
  "D_hostname =
     ''The name is used on the network (<name>.local) and shown in the prompt.'' @ crlf @
     ''usage: hostname [<name>]    (with no name, shows the current name)'' @ crlf"

definition D_ftpuser :: string where
  "D_ftpuser =
     ''Takes effect on the next FTP connection.'' @ crlf @
     ''usage: ftpuser [<name>]     (with no name, shows the current username)'' @ crlf"

definition D_ftppass :: string where
  "D_ftppass =
     ''The stored password is never shown. Takes effect on the next FTP connection.'' @ crlf @
     ''usage: ftppass <password>'' @ crlf"

definition D_telnetd :: string where
  "D_telnetd =
     ''Turns the network console (Telnet, port 23) on or off. The console has no'' @ crlf @
     ''password, so turn it off on an untrusted network. Save the change with'' @ crlf @
     [CHR 0x27] @ ''save'' @ [CHR 0x27] @ ''; it takes effect after a reboot.'' @ crlf @
     ''usage: telnetd [on | off]   (with no argument, shows whether it is enabled)'' @ crlf"

definition D_ftpd :: string where
  "D_ftpd =
     ''Turns the FTP server (port 21) on or off. Save the change with '' @ [CHR 0x27] @ ''save'' @ [CHR 0x27] @ ''; it'' @ crlf @
     ''takes effect after a reboot. Set the login with '' @ [CHR 0x27] @ ''ftpuser'' @ [CHR 0x27] @ '' / '' @ [CHR 0x27] @ ''ftppass'' @ [CHR 0x27] @ ''.'' @ crlf @
     ''usage: ftpd [on | off]      (with no argument, shows whether it is enabled)'' @ crlf"

definition D_tnfsd :: string where
  "D_tnfsd =
     ''Turns the TNFS server (UDP port 16384) on or off. It serves the SD card'' @ crlf @
     ''read/write to a TNFS client, with no password, so turn it off on an untrusted'' @ crlf @
     ''network. Save the change with '' @ [CHR 0x27] @ ''save'' @ [CHR 0x27] @ ''; it takes effect after a reboot.'' @ crlf @
     ''usage: tnfsd [on | off]     (with no argument, shows whether it is enabled)'' @ crlf"

definition D_fdctcp :: string where
  "D_fdctcp =
     ''Serves the FDC+ drive protocol on a TCP port, for a network FDC+ such as a'' @ crlf @
     ''simulator (altairsim: connect = '' @ [CHR 0x22] @ ''socket:<this-ip>:<port>'' @ [CHR 0x22] @ ''). The socket carries'' @ crlf @
     ''the same bytes as the serial port. While a client is connected it takes over'' @ crlf @
     ''from the FDC+ serial port; when it disconnects, the serial port is served again.'' @ crlf @
     ''One client at a time, no password. Save the change with '' @ [CHR 0x27] @ ''save'' @ [CHR 0x27] @ ''; it takes'' @ crlf @
     ''effect after a reboot.'' @ crlf @
     ''usage: fdctcp [off | <port>]   (with no argument, shows the setting and state)'' @ crlf"

definition D_update :: string where
  "D_update =
     ''usage: update [local | ota]'' @ crlf @
     ''  update            show the running, SD-card, and available versions'' @ crlf @
     ''  update local      install /firmware.bin from the SD card'' @ crlf @
     ''  update ota        download and install the latest release over WiFi'' @ crlf"

definition D_type :: string where
  "D_type =
     ''Reads the file from the SD card.'' @ crlf @
     ''usage: type <file>'' @ crlf"

definition D_exec :: string where
  "D_exec =
     ''One command per line; lines starting with '' @ [CHR 0x27] @ ''#'' @ [CHR 0x27] @ '' are comments. The .bat'' @ crlf @
     ''extension is optional. The batch file may be in a subdirectory (exec'' @ crlf @
     ''basic/setup.bat); while it runs, bare names inside it resolve relative to'' @ crlf @
     ''the batch'' @ [CHR 0x27] @ ''s own folder, so a disk-set folder is self-contained (setup.bat'' @ crlf @
     ''in basic/ writes '' @ [CHR 0x27] @ ''mount 0 setup.dsk'' @ [CHR 0x27] @ ''). No '' @ [CHR 0x27] @ ''..'' @ [CHR 0x27] @ '' - a batch stays in its'' @ crlf @
     ''folder. The prompt itself always runs at the SD root.'' @ crlf @
     ''usage: exec <file>'' @ crlf"

definition D_delete :: string where
  "D_delete =
     ''This cannot be undone.'' @ crlf @
     ''usage: delete <file>'' @ crlf"

definition D_mkdir :: string where
  "D_mkdir =
     ''Creates a directory on the SD card. Any parent directories must already'' @ crlf @
     ''exist. Names may include '' @ [CHR 0x27] @ ''/'' @ [CHR 0x27] @ '' to create a folder inside an existing one.'' @ crlf @
     ''usage: mkdir <dir>'' @ crlf"

definition D_rmdir :: string where
  "D_rmdir =
     ''Removes a directory from the SD card. The directory must be empty.'' @ crlf @
     ''usage: rmdir <dir>'' @ crlf"

definition D_rename :: string where
  "D_rename =
     ''usage: rename <old-name> <new-name>'' @ crlf"

definition D_copy :: string where
  "D_copy =
     ''Each of <src> and <dst> may be an SD-card file or a tnfs:// URL, so this'' @ crlf @
     ''also transfers files to or from a TNFS server. <src> may also be an'' @ crlf @
     ''http:// or https:// URL to pull a file from a web server (source only).'' @ crlf @
     ''usage: copy <src> <dst>'' @ crlf @
     ''examples:'' @ crlf @
     ''  copy CPM22.DSK BACKUP.DSK'' @ crlf @
     ''  copy tnfs://192.168.1.10/disks/GAMES.DSK GAMES.DSK'' @ crlf @
     ''  copy https://example.com/disks/CPM22.DSK CPM22.DSK'' @ crlf"

definition D_loopback :: string where
  "D_loopback =
     ''Sends a 256-byte pattern out the FDC+ serial port and checks it comes back.'' @ crlf @
     ''Jumper the FDC+ TX and RX pins together first.'' @ crlf @
     ''usage: loopback'' @ crlf"

definition D_tz :: string where
  "D_tz =
     ''Used by '' @ [CHR 0x27] @ ''time'' @ [CHR 0x27] @ ''. Accepts a US zone name (listed below) or a raw POSIX TZ'' @ crlf @
     ''string. A change applies immediately.'' @ crlf @
     ''usage: tz [<zone>]          (with no zone, shows the current setting)'' @ crlf"

section \<open>The table\<close>

definition k_commands :: "cli_command list" where
  "k_commands = [
     \<lparr>cm_name = ''help'', cm_alias = Some ''?'', cm_help = ''List commands, or show help for one'', cm_fn = Help, cm_detail = Some D_help\<rparr>,
     \<lparr>cm_name = ''version'', cm_alias = None, cm_help = ''Show the firmware version'', cm_fn = Version, cm_detail = None\<rparr>,
     \<lparr>cm_name = ''baud'', cm_alias = None, cm_help = ''Show or set the FDC+ link speed'', cm_fn = Baud, cm_detail = Some D_baud\<rparr>,
     \<lparr>cm_name = ''dir'', cm_alias = Some ''ls'', cm_help = ''List files on SD or a TNFS server'', cm_fn = Dir, cm_detail = Some D_dir\<rparr>,
     \<lparr>cm_name = ''mount'', cm_alias = None, cm_help = ''Mount a disk image on a drive'', cm_fn = Mount, cm_detail = Some D_mount\<rparr>,
     \<lparr>cm_name = ''unmount'', cm_alias = Some ''umount'', cm_help = ''Unmount a drive'', cm_fn = Unmount, cm_detail = Some D_unmount\<rparr>,
     \<lparr>cm_name = ''stats'', cm_alias = None, cm_help = ''Show FDC+ statistics'', cm_fn = Stats, cm_detail = Some D_stats\<rparr>,
     \<lparr>cm_name = ''diag'', cm_alias = None, cm_help = ''Print a full status report for support'', cm_fn = Diag, cm_detail = Some D_diag\<rparr>,
     \<lparr>cm_name = ''clear'', cm_alias = None, cm_help = ''Reset FDC+ statistics to zero'', cm_fn = Clear, cm_detail = None\<rparr>,
     \<lparr>cm_name = ''log'', cm_alias = None, cm_help = ''Show or set console logging detail'', cm_fn = Log, cm_detail = Some D_log\<rparr>,
     \<lparr>cm_name = ''save'', cm_alias = Some ''write'', cm_help = ''Save settings so they survive reboot'', cm_fn = Save, cm_detail = Some D_save\<rparr>,
     \<lparr>cm_name = ''wipe'', cm_alias = None, cm_help = ''Erase saved settings; restore defaults'', cm_fn = Wipe, cm_detail = Some D_wipe\<rparr>,
     \<lparr>cm_name = ''dump'', cm_alias = None, cm_help = ''Hex-dump a disk track'', cm_fn = Dump, cm_detail = Some D_dump\<rparr>,
     \<lparr>cm_name = ''wifi'', cm_alias = None, cm_help = ''Show WiFi status, or turn it on/off'', cm_fn = Wifi, cm_detail = Some D_wifi\<rparr>,
     \<lparr>cm_name = ''ssid'', cm_alias = None, cm_help = ''Show or set the WiFi network name'', cm_fn = Ssid, cm_detail = Some D_ssid\<rparr>,
     \<lparr>cm_name = ''pass'', cm_alias = None, cm_help = ''Set the WiFi password'', cm_fn = Pass, cm_detail = Some D_pass\<rparr>,
     \<lparr>cm_name = ''hostname'', cm_alias = None, cm_help = ''Show or set the device name'', cm_fn = Hostname, cm_detail = Some D_hostname\<rparr>,
     \<lparr>cm_name = ''telnetd'', cm_alias = None, cm_help = ''Enable or disable the Telnet console'', cm_fn = Telnetd, cm_detail = Some D_telnetd\<rparr>,
     \<lparr>cm_name = ''ftpd'', cm_alias = None, cm_help = ''Enable or disable the FTP server'', cm_fn = Ftpd, cm_detail = Some D_ftpd\<rparr>,
     \<lparr>cm_name = ''tnfsd'', cm_alias = None, cm_help = ''Enable or disable the TNFS server'', cm_fn = Tnfsd, cm_detail = Some D_tnfsd\<rparr>,
     \<lparr>cm_name = ''fdctcp'', cm_alias = None, cm_help = ''Serve the FDC+ protocol on a TCP port'', cm_fn = Fdctcp, cm_detail = Some D_fdctcp\<rparr>,
     \<lparr>cm_name = ''ftpuser'', cm_alias = None, cm_help = ''Show or set the FTP username'', cm_fn = Ftpuser, cm_detail = Some D_ftpuser\<rparr>,
     \<lparr>cm_name = ''ftppass'', cm_alias = None, cm_help = ''Set the FTP password'', cm_fn = Ftppass, cm_detail = Some D_ftppass\<rparr>,
     \<lparr>cm_name = ''update'', cm_alias = None, cm_help = ''Show versions, or install an update'', cm_fn = Update, cm_detail = Some D_update\<rparr>,
     \<lparr>cm_name = ''type'', cm_alias = Some ''cat'', cm_help = ''Print a text file'', cm_fn = TypeFile, cm_detail = Some D_type\<rparr>,
     \<lparr>cm_name = ''exec'', cm_alias = Some ''run'', cm_help = ''Run a batch file of commands'', cm_fn = Exec, cm_detail = Some D_exec\<rparr>,
     \<lparr>cm_name = ''logout'', cm_alias = Some ''exit'', cm_help = ''Disconnect this network session'', cm_fn = Logout, cm_detail = None\<rparr>,
     \<lparr>cm_name = ''delete'', cm_alias = Some ''rm'', cm_help = ''Delete a file from SD'', cm_fn = Delete, cm_detail = Some D_delete\<rparr>,
     \<lparr>cm_name = ''mkdir'', cm_alias = Some ''md'', cm_help = ''Create a directory on SD'', cm_fn = Mkdir, cm_detail = Some D_mkdir\<rparr>,
     \<lparr>cm_name = ''rmdir'', cm_alias = Some ''rd'', cm_help = ''Remove an empty directory on SD'', cm_fn = Rmdir, cm_detail = Some D_rmdir\<rparr>,
     \<lparr>cm_name = ''rename'', cm_alias = Some ''mv'', cm_help = ''Rename a file on SD'', cm_fn = Rename, cm_detail = Some D_rename\<rparr>,
     \<lparr>cm_name = ''copy'', cm_alias = Some ''cp'', cm_help = ''Copy a file (SD/TNFS, or HTTP src)'', cm_fn = Copy, cm_detail = Some D_copy\<rparr>,
     \<lparr>cm_name = ''loopback'', cm_alias = Some ''lb'', cm_help = ''Run the FDC+ serial loopback test'', cm_fn = Loopback, cm_detail = Some D_loopback\<rparr>,
     \<lparr>cm_name = ''time'', cm_alias = Some ''date'', cm_help = ''Show the current date and time'', cm_fn = Time, cm_detail = None\<rparr>,
     \<lparr>cm_name = ''tz'', cm_alias = None, cm_help = ''Show or set the timezone'', cm_fn = Tz, cm_detail = Some D_tz\<rparr>,
     \<lparr>cm_name = ''reboot'', cm_alias = None, cm_help = ''Restart the device'', cm_fn = Reboot, cm_detail = None\<rparr>]"

section \<open>What a typed word selects\<close>

definition cm_words :: "cli_command \<Rightarrow> string list" where
  "cm_words t = cm_name t # (case cm_alias t of None \<Rightarrow> [] | Some a \<Rightarrow> [a])"

definition abbreviates :: "string \<Rightarrow> cli_command \<Rightarrow> bool" where
  "abbreviates tok t \<longleftrightarrow> (\<exists>w \<in> set (cm_words t). strncaseeq tok w (length tok))"

lemma match_exact_words: "match_exact tok table = List.find (\<lambda>t. \<exists>w \<in> set (cm_words t). strcaseeq tok w) table"
  by (induction table) (auto simp: cm_words_def alias_is_def split: option.splits)

lemma match_prefix_filter:
  "match_prefix tok hit n table =
     (let fs = filter (abbreviates tok) table in (if fs = [] then hit else Some (last fs), n + length fs))"
  by (induction table arbitrary: hit n)
     (auto simp: abbreviates_def cm_words_def alias_is_def Let_def split: option.splits)

text \<open>A word that is no full name selects the one command it abbreviates, if there is just one.\<close>

lemma cli_match_abbreviation:
  assumes "match_exact tok table = None"
  shows "cli_match table tok =
     (case filter (abbreviates tok) table of [] \<Rightarrow> NoCommand | [t] \<Rightarrow> Found t | _ \<Rightarrow> Ambiguous)"
  using assms by (auto simp: cli_match_def match_prefix_filter Let_def split: list.splits)

lemma command_words_distinct: "distinct (map (map tolower) (concat (map cm_words k_commands)))"
  by code_simp

lemma find_word:
  assumes "distinct (map (map tolower) (concat (map cm_words table)))" "t \<in> set table" "w \<in> set (cm_words t)"
  shows "List.find (\<lambda>t. \<exists>v \<in> set (cm_words t). strcaseeq w v) table = Some t"
  using assms
proof (induction table)
  case (Cons x xs)
  show ?case
  proof (cases "x = t")
    case True
    with Cons.prems show ?thesis by (auto simp: strcaseeq_def)
  next
    case False
    with Cons.prems have "t \<in> set xs" by simp
    let ?low = "\<lambda>ts. set (map (map tolower) (concat (map cm_words ts)))"
    have "map tolower w \<in> ?low xs" using \<open>t \<in> set xs\<close> Cons.prems(3) by auto
    moreover have "?low [x] \<inter> ?low xs = {}" using Cons.prems(1) by (simp add: distinct_append)
    ultimately have "map tolower w \<notin> ?low [x]" by blast
    then have "\<not> (\<exists>v \<in> set (cm_words x). strcaseeq w v)" by (auto simp: strcaseeq_def)
    moreover have "distinct (map (map tolower) (concat (map cm_words xs)))" using Cons.prems(1) by simp
    ultimately show ?thesis using Cons.IH \<open>t \<in> set xs\<close> Cons.prems(3) by simp
  qed
qed simp

lemma command_names_found:
  "t \<in> set k_commands \<Longrightarrow> w \<in> set (cm_words t) \<Longrightarrow> cli_match k_commands w = Found t"
  by (simp add: cli_match_def match_exact_words find_word[OF command_words_distinct])

end
