(* ===== verification/Reports.thy ===== *)
theory Reports
  imports FileCommands ConfigCommands CommandTable
begin

text \<open>
  The two commands of \<^verbatim>\<open>src/cli/commands.c\<close> that print long reports: \<open>help\<close>, over the command
  table, and \<open>diag\<close>, the status of every part for a support request.
\<close>

section \<open>help\<close>

text \<open>
  The insertion sort by name. The part of \<^verbatim>\<open>sorted[]\<close> already filled is kept back to front, as
  the inner loop walks it.
\<close>

definition name_after :: "cli_command \<Rightarrow> cli_command \<Rightarrow> bool" where
  "name_after a b \<longleftrightarrow> \<not> strcmp_le (map tolower (cm_name a)) (map tolower (cm_name b))"

fun help_insert :: "cli_command \<Rightarrow> cli_command list \<Rightarrow> cli_command list" where
  "help_insert key [] = [key]"
| "help_insert key (x # xs) = (if name_after x key then x # help_insert key xs else key # x # xs)"

definition help_sort :: "cli_command list \<Rightarrow> cli_command list" where
  "help_sort ts = rev (fold help_insert ts [])"

definition help_line :: "cli_command \<Rightarrow> string" where
  "help_line t =
     (let name = take 23 (case cm_alias t of Some a \<Rightarrow> cm_name t @ ''/'' @ a | None \<Rightarrow> cm_name t)
      in ''  '' @ padr 16 name @ '' '' @ cm_help t @ crlf)"

text \<open>The values appended for \<open>baud\<close>, \<open>log\<close> and \<open>tz\<close>.\<close>

definition help_values :: "cli_cmd \<Rightarrow> 'w shell \<Rightarrow> 'w shell" where
  "help_values fn sh =
     (if fn = Baud then say crlf (bauds_list (say ''valid rates:'' sh))
      else if fn = Log
      then say (''  (also off = none, on = info)'' @ crlf)
             (fold (\<lambda>(n, _). sayf ('' '' @ n)) k_log_levels (say ''levels:'' sh))
      else if fn = Tz
      then fold (\<lambda>(n, tz). sayf (''  '' @ padr 9 n @ '' '' @ tz @ crlf)) k_tzs (say (''zones (name -> POSIX TZ):'' @ crlf) sh)
      else sh)"

definition help_one :: "cli_command \<Rightarrow> 'w shell \<Rightarrow> 'w shell" where
  "help_one t sh =
     (let sh = (case cm_alias t of
                  Some a \<Rightarrow> sayf (cm_name t @ '' ('' @ a @ '') - '' @ cm_help t @ crlf) sh
                | None \<Rightarrow> sayf (cm_name t @ '' - '' @ cm_help t @ crlf) sh);
          sh = (case cm_detail t of Some d \<Rightarrow> say d (say crlf sh) | None \<Rightarrow> sh)
      in help_values (cm_fn t) sh)"

definition cmd_help :: "'w handler" where
  "cmd_help args sh =
     (if length args > 1
      then (case match_exact (args ! 1) k_commands of
              None \<Rightarrow> (1, sayf (args ! 1 @ '': no such command (try '' @ quoted ''help'' @ '')'' @ crlf) sh)
            | Some t \<Rightarrow> (0, help_one t sh))
      else (0, say (crlf @ ''Type '' @ quoted ''help <command>'' @ '' for full help on one command.'' @ crlf)
                 (fold (\<lambda>t. sayf (help_line t)) (help_sort k_commands) (say (''Commands:'' @ crlf) sh))))"

section \<open>diag\<close>

definition file_is_regular :: "'w sh_env \<Rightarrow> string \<Rightarrow> 'w shell \<Rightarrow> bool" where
  "file_is_regular e path sh = (case v_stat (x_fs e) path (sh_ext sh) of Inr st \<Rightarrow> S_ISREG (st_mode st) | Inl _ \<Rightarrow> False)"

definition reset_reason_str :: "reset_reason \<Rightarrow> string" where
  "reset_reason_str r =
     (case r of ESP_RST_POWERON \<Rightarrow> ''power-on'' | ESP_RST_EXT \<Rightarrow> ''external pin''
      | ESP_RST_SW \<Rightarrow> ''software (reboot/update)'' | ESP_RST_PANIC \<Rightarrow> ''panic / exception''
      | ESP_RST_INT_WDT \<Rightarrow> ''interrupt watchdog'' | ESP_RST_TASK_WDT \<Rightarrow> ''task watchdog''
      | ESP_RST_WDT \<Rightarrow> ''other watchdog'' | ESP_RST_BROWNOUT \<Rightarrow> ''brownout (power dip)''
      | ESP_RST_DEEPSLEEP \<Rightarrow> ''wake from deep sleep'' | ESP_RST_SDIO \<Rightarrow> ''SDIO'' | ESP_RST_UNKNOWN \<Rightarrow> ''unknown'')"

definition dec02 :: "nat \<Rightarrow> string" where
  "dec02 n = (if n < 10 then ''0'' @ dec n else dec n)"

definition on_off :: "bool \<Rightarrow> string" where
  "on_off b = (if b then ''on'' else ''off'')"

definition diag_hardware :: "'w sh_env \<Rightarrow> 'w shell \<Rightarrow> 'w shell" where
  "diag_hardware e sh =
     (let sy = x_sys e; up = sy_uptime_us sy (sh_ext sh) div 1000000 mod 2 ^ 32;
          sh = sayf (''Firmware:  '' @ FDCSDS_PRODUCT @ '' '' @ FDCSDS_VERSION_STRING @ crlf) sh;
          sh = sayf (''ESP-IDF:   '' @ sy_idf sy @ crlf) sh;
          sh = sayf (''Chip:      ESP32 rev v'' @ dec (sy_revision sy div 100) @ ''.'' @ dec (sy_revision sy mod 100) @
                 '', '' @ dec (sy_cores sy) @ '' core(s)'' @ crlf) sh;
          sh = sayf (''MAC:       '' @ mac_text (sy_mac sy) @ crlf) sh;
          sh = sayf (''Uptime:    '' @ dec (up div 86400) @ ''d '' @ dec02 (up mod 86400 div 3600) @ '':'' @
                 dec02 (up mod 3600 div 60) @ '':'' @ dec02 (up mod 60) @ crlf) sh;
          sh = sayf (''Free heap: '' @ dec32 (sy_heap sy (sh_ext sh)) @ '' bytes (min '' @
                 dec32 (sy_min_heap sy (sh_ext sh)) @ '' since boot)'' @ crlf) sh;
          sh = sayf (''Last boot: '' @ reset_reason_str (sy_reset sy) @ crlf) sh
      in case x_now e (sh_ext sh) of
           None \<Rightarrow> say (''Time:      not set (NTP not synced; needs WiFi)'' @ crlf) sh
         | Some t \<Rightarrow> sayf (''Time:      '' @ t @ crlf) sh)"

definition diag_config :: "'w shell \<Rightarrow> 'w shell" where
  "diag_config sh =
     (let c = config_get sh;
          sh = say (crlf @ ''-- Configuration (NVS) --'' @ crlf) sh;
          sh = sayf (''Saved:     '' @ (if s_dirty (sh_cfg sh) then ''NO - unsaved changes (run '' @ quoted ''save'' @ '')'' else ''yes'') @ crlf) sh;
          sh = sayf (''Hostname:  '' @ wifi_name c @ crlf) sh;
          sh = sayf (''FDC+ baud: '' @ dec32 (baud_rate c) @ crlf) sh;
          sh = sayf (''Log level: '' @ log_level_name (log_level c) @ crlf) sh;
          sh = sayf (''Timezone:  '' @ or_unset (time_zone c) @ crlf) sh;
          sh = sayf (''FTP user:  '' @ or_unset (ftp_user c) @ '' (password '' @ set_unset (ftp_pass c) @ '')'' @ crlf) sh;
          sh = sayf (''Services:  telnetd '' @ on_off (telnet_enabled c) @ '', ftpd '' @ on_off (ftp_enabled c) @
                 '', tnfsd '' @ on_off (tnfsd_enabled c) @ '', fdctcp '') sh;
          sh = (if fdc_tcp_port c \<noteq> 0 then sayf (dec (unat (fdc_tcp_port c)) @ crlf) sh else say (''off'' @ crlf) sh)
      in sayf (''OTA repo:  '' @ or_unset (ota_repo c) @ crlf) sh)"

definition diag_wifi :: "'w sh_env \<Rightarrow> 'w shell \<Rightarrow> 'w shell" where
  "diag_wifi e sh =
     (let c = config_get sh;
          sh = say (crlf @ ''-- WiFi --'' @ crlf) sh;
          ns = net_get_status (x_wifi e) c (sh_net sh) (sh_ext sh);
          sh = sayf (''WiFi:      '' @ (if ns_enabled ns then ''enabled'' else ''disabled'') @ crlf) sh;
          sh = sayf (''SSID:      '' @ or_unset (ns_ssid ns) @ '' (password '' @ set_unset (wifi_pass c) @ '')'' @ crlf) sh
      in if ns_connected ns
         then sayf (''mDNS:      '' @ wifi_name c @ ''.local'' @ crlf)
                (sayf (''AP:        '' @ mac_text (ns_bssid ns) @ ''  RSSI '' @ dec_int (ns_rssi ns) @ '' dBm'' @ crlf)
                   (sayf (''State:     connected  IP '' @ ns_ip ns @ crlf) sh))
         else sayf (''State:     '' @ (if ns_enabled ns then ''connecting/disconnected'' else ''idle'') @ crlf) sh)"

definition diag_card :: "'w sh_env \<Rightarrow> 'w shell \<Rightarrow> 'w shell" where
  "diag_card e sh =
     (let sh = say (crlf @ ''-- SD card --'' @ crlf) sh
      in if \<not> sd_mounted e sh then say (''SD card:   not present / not mounted'' @ crlf) sh
         else let sh = say (''SD card:   present'' @ crlf) sh;
                  have_autoexec = (case sd_path ''autoexec.bat'' PATH_CAP of None \<Rightarrow> False | Some p \<Rightarrow> file_is_regular e p sh)
              in sayf (''autoexec.bat: '' @ (if have_autoexec then ''present'' else ''none'') @ crlf) sh)"

definition diag_link :: "'w shell \<Rightarrow> 'w shell" where
  "diag_link sh =
     (let sh = say (crlf @ ''-- FDC+ link --'' @ crlf) sh;
          s = fdc_get_stats (sh_fdc sh);
          sh = sayf (''Link:      '' @ dec32 (fdc_baud (sh_fdc sh)) @ '' baud'' @ crlf) sh;
          sh = print_fdc_interface s [] sh;
          sh = sayf (''TCP:       '' @ dec32 (n_tcp_connects s) @ '' connects, '' @ dec32 (n_tcp_disconnects s) @
                 '' disconnects, '' @ dec32 (n_tcp_refused s) @ '' refused'' @ crlf) sh;
          sh = sayf (''STAT '' @ dec32 (n_stat s) @ ''  READ '' @ dec32 (n_read s) @ ''  WRIT '' @ dec32 (n_writ s) @
                 ''  not-rdy '' @ dec32 (n_not_ready s) @ ''  unknown '' @ dec32 (n_unknown s) @ crlf) sh;
          sh = sayf (''cmd-csum '' @ dec32 (n_cmd_csum s) @ ''  data-csum '' @ dec32 (n_data_csum s) @
                 ''  cmd-tmo '' @ dec32 (n_cmd_timeout s) @ ''  data-tmo '' @ dec32 (n_data_timeout s) @
                 ''  fifo-ovf '' @ dec32 (n_fifo_ovf s) @ ''  frame-err '' @ dec32 (n_frame_err s) @ crlf) sh
      in sayf (''Last op:   '' @ (if last_op s \<noteq> [] then last_op s else ''(none)'') @ crlf) sh)"

definition cmd_diag :: "'w sh_env \<Rightarrow> 'w handler" where
  "cmd_diag e args sh =
     (let sh = say (''==== FDC+ Serial Disk Server diagnostics ===='' @ crlf) sh;
          sh = diag_card e (diag_wifi e (diag_config (diag_hardware e sh)));
          sh = drive_table (say (crlf @ ''-- Drives --'' @ crlf) sh);
          sh = diag_link sh
      in (0, say (''==== end diagnostics ===='' @ crlf) sh))"

end
