(* ===== verification/Batch.thy ===== *)
theory Batch
  imports CopyCommands Ota Reports
begin

text \<open>
  Batch files of \<^verbatim>\<open>src/cli/commands.c\<close> (\<open>exec\<close>, the auto-run of a name that is no command, and
  \<^verbatim>\<open>/autoexec.bat\<close>), and the complete command line: the table's handlers, the dispatcher that
  batch files call again for each of their lines, and the serial console's task. A batch file
  is run by a dispatcher \<open>disp\<close>; \<open>cli_levels e n\<close> is the dispatcher whose batch files may nest \<open>n\<close>
  deep. Five levels are all there are: \<open>BatchProps\<close> shows that more change nothing.
\<close>

abbreviation (input) BATCH_MAX_DEPTH :: nat where "BATCH_MAX_DEPTH \<equiv> 4"

section \<open>Finding a batch file\<close>

definition ends_bat :: "string \<Rightarrow> bool" where
  "ends_bat q \<longleftrightarrow> length q \<ge> 4 \<and> strcaseeq (drop (length q - 4) q) ''.bat''"

definition regular_path :: "'w sh_env \<Rightarrow> string \<Rightarrow> 'w shell \<Rightarrow> string option" where
  "regular_path e q sh =
     (case sd_path q PATH_CAP of None \<Rightarrow> None | Some path \<Rightarrow> if file_is_regular e path sh then Some path else None)"

definition batch_path :: "'w sh_env \<Rightarrow> string \<Rightarrow> 'w shell \<Rightarrow> string option" where
  "batch_path e name sh =
     (if \<not> sd_mounted e sh then None
      else case qualify name (2 * CONFIG_FILE_CAP) sh of
             None \<Rightarrow> None
           | Some q \<Rightarrow>
               (case regular_path e q sh of
                  Some path \<Rightarrow> Some path
                | None \<Rightarrow> if ends_bat q then None
                          else regular_path e (take (2 * CONFIG_FILE_CAP + 7) (q @ ''.bat'')) sh))"

section \<open>Reading its lines\<close>

text \<open>
  \<^verbatim>\<open>fgets\<close> into the buffer of 202 bytes: up to 201 characters, through the first line feed;
  nothing at the end of the file.
\<close>

definition through_lf :: "string \<Rightarrow> string" where
  "through_lf s = (let l = takeWhile (\<lambda>c. c \<noteq> LF) s in if length l < length s then l @ [LF] else l)"

definition get_line :: "'w stdio \<Rightarrow> int \<Rightarrow> nat \<Rightarrow> 'w \<Rightarrow> string" where
  "get_line io f pos w = through_lf (map char_byte (fread io f pos (CLI_LINE_MAX + 1) w))"

lemma get_line_advances:
  assumes "get_line io f pos w \<noteq> []"
  shows "4294967296 - (pos + length (get_line io f pos w)) < 4294967296 - pos"
proof -
  have "fread io f pos (CLI_LINE_MAX + 1) w \<noteq> []"
    using assms by (auto simp: get_line_def through_lf_def Let_def)
  from fread_progress[OF this] have "pos < 4294967296" .
  moreover from assms have "length (get_line io f pos w) > 0" by simp
  ultimately show ?thesis by (simp only: diff_less_mono2 less_add_same_cancel1)
qed

text \<open>The \<^verbatim>\<open>fgetc\<close> loop that drops the rest of a line: the position behind it.\<close>

function discard :: "'w stdio \<Rightarrow> int \<Rightarrow> nat \<Rightarrow> 'w \<Rightarrow> nat" where
  "discard io f pos w =
     (let data = fread io f pos 1 w
      in if data = [] then pos
         else if char_byte (hd data) = LF then pos + length data else discard io f (pos + length data) w)"
  by pat_completeness auto
termination
  by (relation "measure (\<lambda>(io, f, pos, w). 4294967296 - pos)") (auto dest: fread_advances)

declare discard.simps [simp del]

lemma discard_ge: "pos \<le> discard io f pos w"
proof (induction io f pos w rule: discard.induct)
  case (1 io f pos w)
  then show ?case by (subst discard.simps) (auto simp: Let_def intro: order_trans[rotated])
qed

section \<open>Running it\<close>

text \<open>
  One line \<open>raw\<close> that ended in a line feed, at its first NUL or at the end of the buffer: the
  flag says whether it was complete.
\<close>

definition strip_eol :: "string \<Rightarrow> string" where
  "strip_eol s = rev (dropWhile (\<lambda>c. c = LF \<or> c = CR) (rev s))"

definition batch_line :: "(string \<Rightarrow> 'w shell \<Rightarrow> 'w shell) \<Rightarrow> string \<Rightarrow> 'w shell \<Rightarrow> 'w shell" where
  "batch_line disp line sh =
     (let p = dropWhile blank (strip_eol line)
      in if p = [] then sh
         else let sh = sayf (p @ crlf) sh
              in if hd p = CHR ''#'' then sh else disp (p @ [NUL]) sh)"

text \<open>The loop over the lines; nothing runs after a restart.\<close>

function batch_loop :: "'w stdio \<Rightarrow> int \<Rightarrow> (string \<Rightarrow> 'w shell \<Rightarrow> 'w shell) \<Rightarrow> nat \<Rightarrow> 'w shell \<Rightarrow> 'w shell" where
  "batch_loop io f disp pos sh =
     (let raw = get_line io f pos (sh_ext sh); line = cstr raw 0; pos' = pos + length raw
      in if sh_restarted sh \<or> raw = [] then sh
         else if \<not> (line \<noteq> [] \<and> last line = LF)
         then batch_loop io f disp (discard io f pos' (sh_ext sh)) (say (''exec: line too long, skipped'' @ crlf) sh)
         else batch_loop io f disp pos' (batch_line disp line sh))"
  by pat_completeness auto
termination
proof (relation "measure (\<lambda>(io, f, disp, pos, sh). 4294967296 - pos)", goal_cases)
  case 1
  show ?case by simp
next
  case (2 io f disp pos sh raw line pos')
  then show ?case
    using get_line_advances[of io f pos "sh_ext sh"] discard_ge[of pos' io f "sh_ext sh"] by auto
next
  case (3 io f disp pos sh raw line pos')
  then show ?case using get_line_advances[of io f pos "sh_ext sh"] by auto
qed

declare batch_loop.simps [simp del]

definition run_batch_file :: "'w sh_env \<Rightarrow> (string \<Rightarrow> 'w shell \<Rightarrow> 'w shell) \<Rightarrow> string \<Rightarrow> 'w shell \<Rightarrow> 'w shell" where
  "run_batch_file e disp path sh =
     (case call (f_open_r (x_io e) path) sh of
        (Inl err, sh) \<Rightarrow> sayf (''exec: '' @ path @ '': '' @ x_strerror e err @ crlf) sh
      | (Inr f, sh) \<Rightarrow>
          let sh = batch_loop (x_io e) f disp 0 sh
          in if sh_restarted sh then sh else snd (call (f_close (x_io e) f) sh))"

definition batch_dir_of :: "string \<Rightarrow> nat \<Rightarrow> string" where
  "batch_dir_of abspath len =
     (let rel = (if take 4 abspath = ''/sd/'' then drop 4 abspath else abspath)
      in take (len - 1) (case before_last_slash rel of Some d \<Rightarrow> d | None \<Rightarrow> []))"

definition batch_exec_path :: "'w sh_env \<Rightarrow> (string \<Rightarrow> 'w shell \<Rightarrow> 'w shell) \<Rightarrow> string \<Rightarrow> 'w shell \<Rightarrow> 'w shell" where
  "batch_exec_path e disp path sh =
     (if cn_depth (sh_con sh) \<ge> BATCH_MAX_DEPTH then say (''exec: batch files nested too deep'' @ crlf) sh
      else let saved = take (CONFIG_FILE_CAP - 1) (sh_cwd sh);
               sh = sh\<lparr>sh_cwd := batch_dir_of path CONFIG_FILE_CAP\<rparr>;
               sh = upd_con (\<lambda>c. c\<lparr>cn_depth := cn_depth c + 1\<rparr>) sh;
               sh = run_batch_file e disp path sh
           in if sh_restarted sh then sh
              else let sh = upd_con (\<lambda>c. c\<lparr>cn_depth := cn_depth c - 1\<rparr>) sh
                   in sh\<lparr>sh_cwd := saved\<rparr>)"

definition cli_exec_batch :: "'w sh_env \<Rightarrow> (string \<Rightarrow> 'w shell \<Rightarrow> 'w shell) \<Rightarrow> string \<Rightarrow> 'w shell \<Rightarrow> nat \<times> 'w shell" where
  "cli_exec_batch e disp name sh =
     (case batch_path e name sh of
        None \<Rightarrow> (1, sayf (name @ '': not found'' @ crlf) sh)
      | Some path \<Rightarrow> (0, batch_exec_path e disp path sh))"

definition cli_try_autorun :: "'w sh_env \<Rightarrow> (string \<Rightarrow> 'w shell \<Rightarrow> 'w shell) \<Rightarrow> string \<Rightarrow> 'w shell \<Rightarrow> bool \<times> 'w shell" where
  "cli_try_autorun e disp name sh =
     (case batch_path e name sh of
        None \<Rightarrow> (False, sh)
      | Some path \<Rightarrow> (True, batch_exec_path e disp path sh))"

definition cli_run_autoexec :: "'w sh_env \<Rightarrow> (string \<Rightarrow> 'w shell \<Rightarrow> 'w shell) \<Rightarrow> 'w shell \<Rightarrow> 'w shell" where
  "cli_run_autoexec e disp sh =
     (if \<not> sd_mounted e sh then sh
      else case regular_path e ''autoexec.bat'' sh of
             None \<Rightarrow> sh
           | Some path \<Rightarrow> batch_exec_path e disp path (say (''running /autoexec.bat'' @ crlf) sh))"

definition cmd_exec :: "'w sh_env \<Rightarrow> (string \<Rightarrow> 'w shell \<Rightarrow> 'w shell) \<Rightarrow> 'w handler" where
  "cmd_exec e disp args sh =
     (if length args < 2 then (1, say (''usage: exec <file>'' @ crlf) sh)
      else cli_exec_batch e disp (args ! 1) sh)"

section \<open>The command line\<close>

fun commands :: "'w sh_env \<Rightarrow> (string \<Rightarrow> 'w shell \<Rightarrow> 'w shell) \<Rightarrow> cli_cmd \<Rightarrow> 'w handler" where
  "commands e disp Help = cmd_help"
| "commands e disp Version = cmd_version"
| "commands e disp Baud = cmd_baud"
| "commands e disp Dir = cmd_dir e"
| "commands e disp Mount = cmd_mount e"
| "commands e disp Unmount = cmd_unmount e"
| "commands e disp Stats = cmd_stats"
| "commands e disp Diag = cmd_diag e"
| "commands e disp Clear = cmd_clear"
| "commands e disp Log = cmd_log e"
| "commands e disp Save = cmd_save e"
| "commands e disp Wipe = cmd_wipe e"
| "commands e disp Dump = cmd_dump e"
| "commands e disp Wifi = cmd_wifi e"
| "commands e disp Ssid = cmd_ssid"
| "commands e disp Pass = cmd_pass"
| "commands e disp Hostname = cmd_hostname"
| "commands e disp Telnetd = cmd_telnetd"
| "commands e disp Ftpd = cmd_ftpd"
| "commands e disp Tnfsd = cmd_tnfsd"
| "commands e disp Fdctcp = cmd_fdctcp"
| "commands e disp Ftpuser = cmd_ftpuser"
| "commands e disp Ftppass = cmd_ftppass"
| "commands e disp Update = cmd_update e"
| "commands e disp TypeFile = cmd_type e"
| "commands e disp Exec = cmd_exec e disp"
| "commands e disp Logout = cmd_logout"
| "commands e disp Delete = cmd_delete e"
| "commands e disp Mkdir = cmd_mkdir e"
| "commands e disp Rmdir = cmd_rmdir e"
| "commands e disp Rename = cmd_rename e"
| "commands e disp Copy = cmd_copy e"
| "commands e disp Loopback = cmd_loopback e"
| "commands e disp Time = cmd_time e"
| "commands e disp Tz = cmd_tz e"
| "commands e disp Reboot = cmd_reboot e"

primrec cli_levels :: "'w sh_env \<Rightarrow> nat \<Rightarrow> string \<Rightarrow> 'w shell \<Rightarrow> 'w shell" where
  "cli_levels e 0 = (\<lambda>line sh. sh)"
| "cli_levels e (Suc n) = cli_dispatch k_commands (commands e (cli_levels e n)) (cli_try_autorun e (cli_levels e n))"

definition cli_line :: "'w sh_env \<Rightarrow> string \<Rightarrow> 'w shell \<Rightarrow> 'w shell" where
  "cli_line e = cli_levels e (BATCH_MAX_DEPTH + 1)"

text \<open>The serial console's task on the bytes the UART delivers.\<close>

definition cli_serial_task :: "'w sh_env \<Rightarrow> string \<Rightarrow> 'w shell \<Rightarrow> 'w shell" where
  "cli_serial_task e bs sh =
     (let sh = cli_run_autoexec e (cli_line e) (sh\<lparr>sh_con := cli_console_init True\<rparr>)
      in if sh_restarted sh then sh
         else fold (\<lambda>b sh. if sh_restarted sh then sh else cli_feed (cli_line e) b sh) bs (cli_prompt sh))"

end
