(* ===== verification/CommandFrame.thy ===== *)
theory CommandFrame
  imports Batch
begin

text \<open>
  What running commands leaves alone. The handlers are walked through once, in the locale
  \<open>command_inv\<close>: a property \<open>ok\<close> of the device that survives output, settings and the calls a
  handler makes survives every handler, and what \<open>Q\<close> says of the world outside holds after it. The
  proofs follow the structure of the code with one rule per construct (\<open>frame_rules\<close>). The
  instance here is the frame of a command: the console's line buffer, its settings and nesting
  depth, and the folder names resolve in. Theory \<open>ImageGuard\<close> has another.
\<close>

section \<open>Calls that keep something of the world\<close>

definition keeps :: "('w \<Rightarrow> bool) \<Rightarrow> ('w \<Rightarrow> 'a \<times> 'w) \<Rightarrow> bool" where
  "keeps Q g \<longleftrightarrow> (\<forall>w. Q w \<longrightarrow> Q (snd (g w)))"

definition keeps1 :: "('w \<Rightarrow> bool) \<Rightarrow> ('w \<Rightarrow> 'w) \<Rightarrow> bool" where
  "keeps1 Q g \<longleftrightarrow> (\<forall>w. Q w \<longrightarrow> Q (g w))"

text \<open>The calls on the card that need no permission, those on the network, and the rest.\<close>

definition quiet_card :: "'w vfs \<Rightarrow> 'w stdio \<Rightarrow> ('w \<Rightarrow> bool) \<Rightarrow> bool" where
  "quiet_card fs io Q \<longleftrightarrow>
     (\<forall>p. keeps Q (v_opendir fs p)) \<and> (\<forall>d. keeps1 Q (v_closedir fs d)) \<and> (\<forall>p. keeps Q (v_mkdir fs p)) \<and>
     (\<forall>p. keeps Q (v_rmdir fs p)) \<and> (\<forall>p. keeps Q (f_open_r io p)) \<and> (\<forall>f data. keeps Q (f_write io f data)) \<and>
     (\<forall>f. keeps Q (f_close io f))"

definition quiet_remote :: "'w remote_api \<Rightarrow> (string \<Rightarrow> 'w \<Rightarrow> http_run \<times> 'w) \<Rightarrow> ('w \<Rightarrow> bool) \<Rightarrow> bool" where
  "quiet_remote r http Q \<longleftrightarrow>
     (\<forall>u c t. keeps Q (r_open r u c t)) \<and> (\<forall>f off n. keeps Q (r_read r f off n)) \<and>
     (\<forall>f off data. keeps Q (r_write r f off data)) \<and> (\<forall>f. keeps1 Q (r_close r f)) \<and>
     (\<forall>u. keeps Q (r_list r u)) \<and> (\<forall>u. keeps Q (http u))"

definition quiet_wifi :: "'w wifi_drv \<Rightarrow> ('w \<Rightarrow> bool) \<Rightarrow> bool" where
  "quiet_wifi wd Q \<longleftrightarrow>
     (\<forall>s p a. keeps Q (w_set_config wd s p a)) \<and> keeps Q (w_start wd) \<and> keeps1 Q (w_stop wd) \<and>
     keeps1 Q (w_connect wd) \<and> keeps1 Q (w_disconnect wd) \<and> (\<forall>z. keeps1 Q (w_setenv_tz wd z))"

definition quiet_nvs :: "'w nvs_api \<Rightarrow> ('w \<Rightarrow> bool) \<Rightarrow> bool" where
  "quiet_nvs api Q \<longleftrightarrow>
     keeps Q (nvs_open_rw api) \<and> (\<forall>k x. keeps Q (\<lambda>s. nvs_set api s k x)) \<and> keeps Q (nvs_commit api) \<and>
     keeps Q (nvs_erase_all api)"

definition quiet_ota :: "'w ota_api \<Rightarrow> ('w \<Rightarrow> bool) \<Rightarrow> bool" where
  "quiet_ota a Q \<longleftrightarrow>
     (\<forall>s n. keeps Q (oa_begin a s n)) \<and> (\<forall>h data. keeps Q (oa_write a h data)) \<and> (\<forall>h. keeps Q (oa_end a h)) \<and>
     (\<forall>h. keeps Q (oa_abort a h)) \<and> (\<forall>s. keeps Q (oa_set_boot a s)) \<and> (\<forall>u. keeps Q (oh_begin a u)) \<and>
     (\<forall>h. keeps Q (oh_perform a h)) \<and> (\<forall>h. keeps Q (oh_finish a h)) \<and> (\<forall>h. keeps Q (oh_abort a h))"

definition quiet :: "'w sh_env \<Rightarrow> ('w \<Rightarrow> bool) \<Rightarrow> bool" where
  "quiet e Q \<longleftrightarrow>
     quiet_card (x_fs e) (x_io e) Q \<and> quiet_remote (x_remote e) (x_http e) Q \<and> quiet_wifi (x_wifi e) Q \<and>
     quiet_nvs (x_nvs e) Q \<and> quiet_ota (x_ota e) Q \<and> (\<forall>l. keeps1 Q (x_log_level e l))"

lemmas quiet_defs = quiet_def quiet_card_def quiet_remote_def quiet_wifi_def quiet_nvs_def quiet_ota_def

lemma keeps_all: "keeps (\<lambda>_. True) g" "keeps1 (\<lambda>_. True) h"
  by (simp_all add: keeps_def keeps1_def)

lemma quiet_all: "quiet e (\<lambda>_. True)"
  by (simp add: quiet_defs keeps_all)

lemma keepsD: "keeps Q g \<Longrightarrow> Q w \<Longrightarrow> g w = (a, w') \<Longrightarrow> Q w'"
  unfolding keeps_def by (metis snd_conv)

lemma quiet_put_all:
  assumes "quiet_nvs api Q"
  shows "Q s \<Longrightarrow> Q (snd (nvs_put_all api kvs s))"
  using assms
  by (induction api kvs s rule: nvs_put_all.induct) (auto simp: Let_def quiet_nvs_def keeps_def)

lemma quiet_save:
  assumes "quiet_nvs api Q" "Q s"
  shows "Q (snd (snd (config_save api s st)))"
  using assms quiet_put_all[OF assms(1)]
  by (auto simp: config_save_def Let_def quiet_nvs_def keeps_def)

lemma quiet_wipe: "quiet_nvs api Q \<Longrightarrow> Q s \<Longrightarrow> Q (snd (snd (config_wipe api s st)))"
  by (auto simp: config_wipe_def Let_def quiet_nvs_def keeps_def)

lemma quiet_wifi_enable:
  assumes "quiet_wifi wd Q" "Q w"
  shows "Q (snd (snd (net_wifi_enable wd on cfg (n, w))))"
proof -
  note q = assms(1)[unfolded quiet_wifi_def]
  obtain err w1 where c: "w_set_config wd (strlcpy (wifi_ssid cfg) 32) (strlcpy (wifi_pass cfg) 64) (wifi_pass cfg \<noteq> []) w = (err, w1)"
    by fastforce
  with q assms(2) have w1: "Q w1" by (blast intro: keepsD)
  obtain err2 w2 where s: "w_start wd w1 = (err2, w2)" by fastforce
  with q w1 have "Q w2" by (blast intro: keepsD)
  with c s q w1 assms(2) show ?thesis by (auto simp: net_wifi_enable_def keeps1_def)
qed

section \<open>The interface\<close>

definition kept :: "('w shell \<Rightarrow> bool) \<Rightarrow> 'a \<times> 'w shell \<Rightarrow> bool" where
  "kept ok r \<longleftrightarrow> ok (snd r)"

named_theorems frame_rules "constructs that keep the property"
named_theorems guard_rules "the change guard and the calls it covers"
named_theorems frame_skip "constructs that do not touch the state"

text \<open>
  \<open>fin\<close> is what is left of \<open>ok\<close> after a restart. \<open>may p sh\<close> is the permission to delete, rename or
  empty the file \<open>p\<close>, which \<open>change_begin\<close> grants.
\<close>

locale command_inv =
  fixes e :: "'w sh_env" and ok :: "'w shell \<Rightarrow> bool" and fin :: "'w shell \<Rightarrow> bool"
    and Q :: "'w \<Rightarrow> bool" and may :: "string \<Rightarrow> 'w shell \<Rightarrow> bool"
  assumes ok_say: "ok sh \<Longrightarrow> ok (say s sh)" "ok sh \<Longrightarrow> ok (sayf s sh)"
    and ok_bye: "ok sh \<Longrightarrow> ok (upd_con (\<lambda>c. c\<lparr>cn_disconnect := q\<rparr>) sh)"
    and ok_cfg: "ok sh \<Longrightarrow> ok (sh\<lparr>sh_cfg := c\<rparr>)"
    and ok_net: "ok sh \<Longrightarrow> ok (sh\<lparr>sh_net := n\<rparr>)"
    and ok_busy: "ok sh \<Longrightarrow> ok (sh\<lparr>sh_ota_busy := b\<rparr>)"
    and ok_fdc: "ok sh \<Longrightarrow> s_drv (dsk f) = s_drv (disk sh) \<Longrightarrow> s_mount_lock (dsk f) = s_mount_lock (disk sh) \<Longrightarrow>
      ok (sh\<lparr>sh_fdc := f\<rparr>)"
    and ok_loop: "ok sh \<Longrightarrow> ok (sh\<lparr>sh_fdc := snd (snd (fdc_loopback (x_fdc_task e) True (x_loopback e) (sh_fdc sh)))\<rparr>)"
    and ok_read: "ok sh \<Longrightarrow> ok (upd_disk (snd (snd (disk_read_track (denv e sh) d t len True (disk sh)))) sh)"
    and ok_world: "ok sh \<Longrightarrow> Q (sh_ext sh)"
    and ok_ext: "ok sh \<Longrightarrow> Q w \<Longrightarrow> ok (sh\<lparr>sh_ext := w\<rparr>)"
    and ok_fin: "ok sh \<Longrightarrow> fin sh"
    and fin_restart: "ok sh \<Longrightarrow> fin (upd_disk dk sh\<lparr>sh_restarted := True\<rparr>)"
    and fin_busy: "fin sh \<Longrightarrow> fin (sh\<lparr>sh_ota_busy := b\<rparr>)"
    and quiet: "quiet e Q"
    and grant: "ok sh \<Longrightarrow> change_begin e name path sh = (True, sh') \<Longrightarrow> may path sh'"
    and may_unlink: "ok sh \<Longrightarrow> may p sh \<Longrightarrow> Q (snd (v_unlink (x_fs e) p (sh_ext sh)))"
    and may_rename: "ok sh \<Longrightarrow> may p sh \<Longrightarrow> Q (snd (v_rename (x_fs e) p p' (sh_ext sh)))"
    and may_empty: "ok sh \<Longrightarrow> may p sh \<Longrightarrow> Q (snd (f_open_w (x_io e) p (sh_ext sh)))"
    and update_file: "ok sh \<Longrightarrow> Q (snd (v_unlink (x_fs e) OTA_SD_PATH (sh_ext sh)))"
begin

section \<open>The rules\<close>

lemma kept_frame [frame_rules]: "kept ok r \<Longrightarrow> ok (snd r)"
  by (simp add: kept_def)

lemma kept_pair [frame_rules]: "ok sh \<Longrightarrow> kept ok (x, sh)"
  by (simp add: kept_def)

lemma kept_bind [frame_rules]:
  "kept ok r \<Longrightarrow> (\<And>a sh. ok sh \<Longrightarrow> kept ok (g a sh)) \<Longrightarrow> kept ok (case r of (a, sh) \<Rightarrow> g a sh)"
  by (cases r) (simp add: kept_def)

lemma frame_bind [frame_rules]:
  "kept ok r \<Longrightarrow> (\<And>a sh. ok sh \<Longrightarrow> ok (h a sh)) \<Longrightarrow> ok (case r of (a, sh) \<Rightarrow> h a sh)"
  by (cases r) (simp add: kept_def)

lemma kept_if [frame_rules]: "kept ok a \<Longrightarrow> kept ok b \<Longrightarrow> kept ok (if c then a else b)"
  by simp

lemma frame_if [frame_rules]: "ok a \<Longrightarrow> ok b \<Longrightarrow> ok (if c then a else b)"
  by simp

lemma kept_option [frame_rules]:
  "kept ok a \<Longrightarrow> (\<And>y. kept ok (b y)) \<Longrightarrow> kept ok (case x of None \<Rightarrow> a | Some y \<Rightarrow> b y)"
  by (cases x) simp_all

lemma frame_option [frame_rules]:
  "ok a \<Longrightarrow> (\<And>y. ok (b y)) \<Longrightarrow> ok (case x of None \<Rightarrow> a | Some y \<Rightarrow> b y)"
  by (cases x) simp_all

lemma kept_sum [frame_rules]:
  "(\<And>y. kept ok (a y)) \<Longrightarrow> (\<And>y. kept ok (b y)) \<Longrightarrow> kept ok (case x of Inl y \<Rightarrow> a y | Inr y \<Rightarrow> b y)"
  by (cases x) simp_all

lemma frame_sum [frame_rules]:
  "(\<And>y. ok (a y)) \<Longrightarrow> (\<And>y. ok (b y)) \<Longrightarrow> ok (case x of Inl y \<Rightarrow> a y | Inr y \<Rightarrow> b y)"
  by (cases x) simp_all

lemma kept_bool [frame_rules]: "kept ok a \<Longrightarrow> kept ok b \<Longrightarrow> kept ok (case x of True \<Rightarrow> a | False \<Rightarrow> b)"
  by (cases x) simp_all

lemma kept_let [frame_rules]:
  "ok v \<Longrightarrow> (\<And>x. ok x \<Longrightarrow> kept ok (g x)) \<Longrightarrow> kept ok (let x = v in g x)"
  "ok v \<Longrightarrow> (\<And>x. ok x \<Longrightarrow> ok (h x)) \<Longrightarrow> ok (let x = v in h x)"
  by simp_all

lemma kept_skip [frame_skip]:
  "(\<And>x. kept ok (g x)) \<Longrightarrow> kept ok (let x = v in g x)"
  "(\<And>x. ok (h x)) \<Longrightarrow> ok (let x = v in h x)"
  "(\<And>a b. kept ok (k a b)) \<Longrightarrow> kept ok (case p of (a, b) \<Rightarrow> k a b)"
  "(\<And>a b. ok (l a b)) \<Longrightarrow> ok (case p of (a, b) \<Rightarrow> l a b)"
  "(\<And>a b. ok (m a b sh)) \<Longrightarrow> ok ((case p of (a, b) \<Rightarrow> m a b) sh)"
  by (simp_all split: prod.splits)

lemma frame_say [frame_rules]: "ok sh \<Longrightarrow> ok (say s sh)" "ok sh \<Longrightarrow> ok (sayf s sh)"
  by (simp_all add: ok_say)

lemma frame_upd [frame_rules]:
  "ok sh \<Longrightarrow> ok (upd_cfg g sh)" "ok sh \<Longrightarrow> ok (set_str k s sh)" "ok sh \<Longrightarrow> ok (change_end sh)"
  "ok sh \<Longrightarrow> Q w \<Longrightarrow> ok (sh\<lparr>sh_ext := w\<rparr>)" "ok sh \<Longrightarrow> ok (sh\<lparr>sh_cfg := c\<rparr>)" "ok sh \<Longrightarrow> ok (sh\<lparr>sh_net := n\<rparr>)"
  "ok sh \<Longrightarrow> ok (sh\<lparr>sh_ota_busy := b\<rparr>)" "ok sh \<Longrightarrow> ok (upd_con (\<lambda>c. c\<lparr>cn_disconnect := q\<rparr>) sh)"
  "ok sh \<Longrightarrow> ok (sh\<lparr>sh_fdc := snd (fdc_set_baud r (sh_fdc sh))\<rparr>)"
  "ok sh \<Longrightarrow> ok (sh\<lparr>sh_fdc := fdc_clear_stats (sh_fdc sh)\<rparr>)"
  by (auto simp: upd_cfg_def set_str_def change_end_def upd_disk_def ok_cfg ok_net ok_busy ok_bye disk_change_end_def mount_unlock_def
      disk_def fdc_set_baud_def fdc_clear_stats_def upd_stats_def intro: ok_ext ok_fdc)

lemma frame_two [frame_rules]:
  "ok sh \<Longrightarrow> Q w \<Longrightarrow> ok (sh\<lparr>sh_cfg := c, sh_ext := w\<rparr>)" "ok sh \<Longrightarrow> Q w \<Longrightarrow> ok (sh\<lparr>sh_net := n, sh_ext := w\<rparr>)"
  using ok_ext[OF ok_cfg] ok_ext[OF ok_net] by simp_all

lemma kept_call [frame_rules]: "ok sh \<Longrightarrow> keeps Q g \<Longrightarrow> kept ok (call g sh)"
  by (auto simp: call_def kept_def split: prod.splits intro: ok_ext keepsD dest: ok_world)

lemma quiet_calls [frame_rules]:
  "keeps Q (v_opendir (x_fs e) p)" "keeps Q (v_mkdir (x_fs e) p)" "keeps Q (v_rmdir (x_fs e) p)"
  "keeps Q (f_open_r (x_io e) p)" "keeps Q (f_write (x_io e) f data)" "keeps Q (f_close (x_io e) f)"
  "keeps Q (r_open (x_remote e) u c t)" "keeps Q (r_read (x_remote e) f off n)"
  "keeps Q (r_write (x_remote e) f off data)" "keeps Q (r_list (x_remote e) u)" "keeps Q (x_http e u)"
  "keeps Q (oa_begin (x_ota e) s k)" "keeps Q (oa_write (x_ota e) h data)" "keeps Q (oa_end (x_ota e) h)"
  "keeps Q (oa_abort (x_ota e) h)" "keeps Q (oa_set_boot (x_ota e) s)" "keeps Q (oh_begin (x_ota e) u)"
  "keeps Q (oh_perform (x_ota e) h)" "keeps Q (oh_finish (x_ota e) h)" "keeps Q (oh_abort (x_ota e) h)"
  using quiet by (simp_all add: quiet_defs)

lemma quiet_steps [frame_rules]:
  "ok sh \<Longrightarrow> Q (v_closedir (x_fs e) d (sh_ext sh))" "ok sh \<Longrightarrow> Q (r_close (x_remote e) f (sh_ext sh))"
  "ok sh \<Longrightarrow> Q (x_log_level e l (sh_ext sh))" "ok sh \<Longrightarrow> Q (net_apply_timezone (x_wifi e) cfg (sh_ext sh))"
  using quiet by (auto simp: quiet_defs keeps1_def net_apply_timezone_def dest: ok_world)

lemma frame_fold [frame_rules]:
  assumes "\<And>x s. ok s \<Longrightarrow> ok (g x s)" "ok sh"
  shows "ok (fold g xs sh)"
  using assms(2) by (induction xs arbitrary: sh) (simp_all add: assms(1))

lemma kept_fold [frame_rules]:
  assumes "\<And>x n s. ok s \<Longrightarrow> kept ok (g x (n, s))" "ok sh"
  shows "kept ok (fold g xs (n, sh))"
  using assms(2)
proof (induction xs arbitrary: n sh)
  case (Cons x xs)
  obtain m s where gx: "g x (n, sh) = (m, s)" by (cases "g x (n, sh)")
  with assms(1)[OF Cons.prems, of x n] have "ok s" by (simp add: kept_def)
  from Cons.IH[OF this] show ?case by (simp add: gx)
qed (simp add: kept_def)

section \<open>The handlers\<close>

lemma kept_resolve [frame_rules]: "ok sh \<Longrightarrow> kept ok (resolve e name len sh)"
  unfolding resolve_def by (rule frame_rules | rule frame_skip | assumption)+

lemma kept_change_begin [frame_rules]: "ok sh \<Longrightarrow> kept ok (change_begin e name path sh)"
  by (auto simp: change_begin_def kept_def upd_disk_def disk_change_begin_def Let_def mount_lock_def mount_unlock_def disk_def
      split: option.splits intro!: ok_say ok_fdc)

lemma guarded [guard_rules]:
  assumes "ok sh" "\<And>s. ok s \<Longrightarrow> kept ok (a s)" "\<And>s. ok s \<Longrightarrow> may path s \<Longrightarrow> kept ok (b s)"
  shows "kept ok (case change_begin e name path sh of (x, s) \<Rightarrow> case x of True \<Rightarrow> b s | False \<Rightarrow> a s)"
proof (cases "change_begin e name path sh")
  case (Pair x s)
  with kept_change_begin[OF assms(1), of name path] have "ok s" by (simp add: kept_def)
  with Pair assms grant[OF assms(1), of name path s] show ?thesis by (cases x) simp_all
qed

lemma guarded_call [guard_rules]:
  "ok sh \<Longrightarrow> may p sh \<Longrightarrow> kept ok (call (v_unlink (x_fs e) p) sh)"
  "ok sh \<Longrightarrow> may p sh \<Longrightarrow> kept ok (call (v_rename (x_fs e) p p') sh)"
  "ok sh \<Longrightarrow> may p sh \<Longrightarrow> kept ok (call (f_open_w (x_io e) p) sh)"
  "ok sh \<Longrightarrow> kept ok (call (v_unlink (x_fs e) OTA_SD_PATH) sh)"
  by (auto simp: call_def kept_def split: prod.splits intro!: ok_ext dest: may_unlink may_rename[of _ _ p'] may_empty update_file)

lemma kept_parse_drive [frame_rules]: "ok sh \<Longrightarrow> kept ok (parse_drive a sh)"
  unfolding parse_drive_def by (rule frame_rules | rule frame_skip | assumption)+

lemma kept_dir_entry [frame_rules]: "ok sh \<Longrightarrow> kept ok (dir_remote_entry spec de (n, sh))"
  unfolding dir_remote_entry_def prod.case by (rule frame_rules | rule frame_skip | assumption)+

lemma kept_dir_remote [frame_rules]: "ok sh \<Longrightarrow> kept ok (cmd_dir_remote e url spec sh)"
  unfolding cmd_dir_remote_def by (rule frame_rules | rule frame_skip | assumption)+

lemma frame_dir_prints:
  "ok sh \<Longrightarrow> ok (snd (snd (snd (fold dir_print xs (a, b, c, sh)))))"
proof (induction xs arbitrary: a b c sh)
  case (Cons x xs)
  have "ok (snd (snd (snd (dir_print x (a, b, c, sh)))))"
    using Cons.prems by (simp add: dir_print_def frame_say)
  then show ?case using Cons.IH by (cases "dir_print x (a, b, c, sh)") simp
qed simp

lemma kept_dir_print [frame_rules]:
  assumes "ok sh" "\<And>nf nd tot sh. ok sh \<Longrightarrow> kept ok (g nf nd tot sh)"
  shows "kept ok (case fold dir_print xs (a, b, c, sh) of (nf, nd, tot, sh) \<Rightarrow> g nf nd tot sh)"
  using frame_dir_prints[OF assms(1), of xs a b c] assms(2)
  by (cases "fold dir_print xs (a, b, c, sh)") simp

lemma kept_dir_list [frame_rules]: "ok sh \<Longrightarrow> kept ok (dir_list e reldir dirpath spec d es sh)"
  unfolding dir_list_def Let_def[where s = "fold f xs s" for f xs s] by (rule frame_rules | rule frame_skip | assumption)+

lemma kept_dir [frame_rules]: "ok sh \<Longrightarrow> kept ok (cmd_dir e args sh)"
  unfolding cmd_dir_def by (rule frame_rules | rule frame_skip | assumption)+

lemma kept_mount_err [frame_rules]: "ok sh \<Longrightarrow> ok (report_mount_err e name err sh)"
  unfolding report_mount_err_def by (rule frame_rules | rule frame_skip | assumption)+

lemma kept_drive_line [frame_rules]: "ok sh \<Longrightarrow> ok (drive_line i sh)"
  unfolding drive_line_def by (rule frame_rules | rule frame_skip | assumption)+

lemma kept_drive_table [frame_rules]: "ok sh \<Longrightarrow> ok (drive_table sh)"
  unfolding drive_table_def by (rule frame_rules | rule frame_skip | assumption)+

lemma kept_dump_lines [frame_rules]: "ok sh \<Longrightarrow> ok (dump_lines len buf sh)"
  unfolding dump_lines_def by (rule frame_rules | rule frame_skip | assumption)+

lemma kept_dump_show [frame_rules]: "ok sh \<Longrightarrow> kept ok (dump_show d t len buf sh)"
  unfolding dump_show_def by (rule frame_rules | rule frame_skip | assumption)+

lemma kept_read_track [frame_rules]: "ok sh \<Longrightarrow> kept ok (read_track e d t len sh)"
  using ok_read[of sh d t len] by (auto simp: read_track_def kept_def split: prod.splits)

lemma kept_dump [frame_rules]: "ok sh \<Longrightarrow> kept ok (cmd_dump e args sh)"
  unfolding cmd_dump_def by (rule frame_rules | rule frame_skip | assumption)+

lemma kept_type_char [frame_rules]: "ok sh \<Longrightarrow> kept ok (type_char ch (prev, sh))"
  unfolding type_char_def prod.case by (rule frame_rules | rule frame_skip | assumption)+

lemma kept_type_loop [frame_rules]: "ok sh \<Longrightarrow> kept ok (type_loop io f pos (prev, sh))"
proof (induction io f pos "(prev, sh)" arbitrary: prev sh rule: type_loop.induct)
  case (1 io f pos prev sh)
  let ?data = "fread io f pos 256 (sh_ext sh)"
  let ?r = "fold type_char (map char_byte ?data) (prev, sh)"
  have "kept ok ?r" by (rule frame_rules | rule 1 | assumption)+
  with 1(1)[of ?data "fst ?r" "snd ?r"] have "?data \<noteq> [] \<Longrightarrow> kept ok (type_loop io f (pos + length ?data) ?r)"
    by (simp add: kept_def)
  with 1(2) show ?case by (subst type_loop.simps) (simp add: kept_def Let_def)
qed

lemma kept_type [frame_rules]: "ok sh \<Longrightarrow> kept ok (cmd_type e args sh)"
  unfolding cmd_type_def by (rule frame_rules | rule frame_skip | assumption)+

lemma kept_delete [frame_rules]: "ok sh \<Longrightarrow> kept ok (cmd_delete e args sh)"
  unfolding cmd_delete_def by (rule guard_rules | rule frame_rules | rule frame_skip | assumption)+

lemma kept_mkdir [frame_rules]: "ok sh \<Longrightarrow> kept ok (cmd_mkdir e args sh)"
  unfolding cmd_mkdir_def by (rule frame_rules | rule frame_skip | assumption)+

lemma kept_rmdir [frame_rules]: "ok sh \<Longrightarrow> kept ok (cmd_rmdir e args sh)"
  unfolding cmd_rmdir_def by (rule frame_rules | rule frame_skip | assumption)+

lemma kept_rename [frame_rules]: "ok sh \<Longrightarrow> kept ok (cmd_rename e args sh)"
  unfolding cmd_rename_def by (rule guard_rules | rule frame_rules | rule frame_skip | assumption)+

lemma kept_copy_dest [frame_rules]: "ok sh \<Longrightarrow> kept ok (copy_open_dest e name rem sh)"
  unfolding copy_open_dest_def by (rule guard_rules | rule frame_rules | rule frame_skip | assumption)+

lemma kept_copy_write [frame_rules]: "ok sh \<Longrightarrow> kept ok (copy_write e dst off data sh)"
  by (cases dst; simp only: copy_write_def copy_end.case; (rule frame_rules | rule frame_skip | assumption)+)

lemma kept_copy_read [frame_rules]: "ok sh \<Longrightarrow> kept ok (copy_read e src tot pos off sh)"
  by (cases src; simp only: copy_read_def copy_end.case; (rule frame_rules | rule frame_skip | assumption)+)

lemma kept_copy_close [frame_rules]: "ok sh \<Longrightarrow> kept ok (copy_close e x sh)"
  by (cases x; simp only: copy_close_def copy_end.case; (rule frame_rules | rule frame_skip | assumption)+)

lemma kept_copy_progress [frame_rules]: "ok sh \<Longrightarrow> kept ok (copy_progress off (r, sh))"
  unfolding copy_progress_def prod.case by (rule frame_rules | rule frame_skip | assumption)+

lemma frame_copy_loop': "e' = e \<Longrightarrow> ok sh \<Longrightarrow> ok (snd (snd (copy_loop e' src dst tot pos off rep sh)))"
proof (induction e' src dst tot pos off rep sh rule: copy_loop.induct)
  case (1 e' src dst tot pos off rep sh)
  note IH = 1(1)[unfolded 1(2), OF _ _ _ _ _ refl] and 1 = 1(3)
  obtain r sh1 where r: "copy_read e src tot pos off sh = (r, sh1)" by (cases "copy_read e src tot pos off sh")
  with kept_copy_read[OF 1, of src tot pos off] have f1: "ok sh1" by (simp add: kept_def)
  have "ok (snd (snd (copy_loop e src dst tot pos off rep sh)))"
  proof (cases r)
    case (Inl m)
    with r f1 show ?thesis by (subst copy_loop.simps) simp
  next
    case (Inr data)
    obtain w sh2 where w: "copy_write e dst off data sh1 = (w, sh2)" by (cases "copy_write e dst off data sh1")
    with kept_copy_write[OF f1, of dst off data] have f2: "ok sh2" by (simp add: kept_def)
    obtain rp sh3 where p: "copy_progress (off + of_nat (length data)) (rep, sh2) = (rp, sh3)"
      by (cases "copy_progress (off + of_nat (length data)) (rep, sh2)")
    with kept_copy_progress[OF f2, of "off + of_nat (length data)" rep] have "ok sh3" by (simp add: kept_def)
    with IH[OF r[symmetric] Inr w[symmetric] _ p[symmetric]] r w p Inr f2 show ?thesis
      by (subst copy_loop.simps) (cases w; simp)
  qed
  then show ?case by (simp only: \<open>e' = e\<close>)
qed

lemmas frame_copy_loop = frame_copy_loop'[OF refl]

lemma kept_copied [frame_rules]:
  assumes "ok sh" "\<And>m off s. ok s \<Longrightarrow> kept ok (g m off s)"
  shows "kept ok (case copy_loop e src dst tot pos off rep sh of (m, off, s) \<Rightarrow> g m off s)"
  using frame_copy_loop[OF assms(1), of src dst tot pos off rep] assms(2)
  by (cases "copy_loop e src dst tot pos off rep sh") simp

lemma kept_copy_finish [frame_rules]: "ok sh \<Longrightarrow> kept ok (copy_finish e dst msg got sh)"
  unfolding copy_finish_def by (rule frame_rules | rule frame_skip | assumption)+

lemma kept_copy_src [frame_rules]: "ok sh \<Longrightarrow> kept ok (copy_open_src e name rem sh)"
  unfolding copy_open_src_def by (rule frame_rules | rule frame_skip | assumption)+

lemma frame_sink: "ok (cs_sh s) \<Longrightarrow> ok (cs_sh (snd (copy_sink_write e data s)))"
proof -
  assume f: "ok (cs_sh s)"
  obtain m sh1 where w: "copy_write e (cs_dst s) (cs_off s) data (cs_sh s) = (m, sh1)"
    by (cases "copy_write e (cs_dst s) (cs_off s) data (cs_sh s)")
  with kept_copy_write[OF f, of "cs_dst s" "cs_off s" data] have f1: "ok sh1" by (simp add: kept_def)
  obtain rp sh2 where p: "copy_progress (cs_off s + of_nat (length data)) (cs_reported s, sh1) = (rp, sh2)"
    by (cases "copy_progress (cs_off s + of_nat (length data)) (cs_reported s, sh1)")
  with kept_copy_progress[OF f1, of "cs_off s + of_nat (length data)" "cs_reported s"] have "ok sh2"
    by (simp add: kept_def)
  with w p f1 show ?thesis by (cases m) (simp_all add: copy_sink_write_def)
qed

lemma frame_http_data:
  assumes "\<And>d s. I s \<Longrightarrow> I (snd (sink d s))"
  shows "I s \<Longrightarrow> I (snd (snd (fold (on_http_data sink) evs (n, ab, s))))"
proof (induction evs arbitrary: n ab s)
  case (Cons x evs)
  have "I (snd (snd (on_http_data sink x (n, ab, s))))"
  proof -
    have "sink d s = (b, t) \<Longrightarrow> I t" for d b t using assms[OF Cons.prems, of d] by simp
    with Cons.prems show ?thesis by (auto simp: on_http_data_def split: prod.splits)
  qed
  then show ?case using Cons.IH by (cases "on_http_data sink x (n, ab, s)") simp
qed simp

lemma frame_http_get:
  assumes "\<And>d s. I s \<Longrightarrow> I (snd (sink d s))" "I s"
  shows "I (snd (snd (http_get sink run s)))"
  using frame_http_data[of I sink s "hr_data run" 0 False, OF assms] assms(2)
  by (auto simp: http_get_def split: prod.splits)

lemma kept_http [frame_rules]:
  assumes "ok (cs_sh s)" "\<And>err got s. ok (cs_sh s) \<Longrightarrow> kept ok (g err got s)"
  shows "kept ok (case http_get (copy_sink_write e) run s of (err, got, s) \<Rightarrow> g err got s)"
  using frame_http_get[where I = "\<lambda>s. ok (cs_sh s)" and sink = "copy_sink_write e", OF frame_sink assms(1), of run] assms(2)
  by (cases "http_get (copy_sink_write e) run s") simp

lemma frame_new_sink [frame_rules]:
  "ok sh \<Longrightarrow> ok (cs_sh \<lparr>cs_dst = d, cs_off = x, cs_err = y, cs_reported = z, cs_sh = sh\<rparr>)"
  by simp

lemma kept_copy_http [frame_rules]: "ok sh \<Longrightarrow> kept ok (copy_http e url name rem sh)"
  unfolding copy_http_def by (rule frame_rules | rule frame_skip | assumption)+

lemma kept_copy [frame_rules]: "ok sh \<Longrightarrow> kept ok (cmd_copy e args sh)"
  unfolding cmd_copy_def by (rule frame_rules | rule frame_skip | assumption)+

lemma kept_version [frame_rules]: "ok sh \<Longrightarrow> kept ok (cmd_version args sh)"
  unfolding cmd_version_def by (rule frame_rules | rule frame_skip | assumption)+

lemma kept_save [frame_rules]: "ok sh \<Longrightarrow> kept ok (cmd_save e args sh)"
  using quiet_save[of "x_nvs e" Q "sh_ext sh" "sh_cfg sh"] quiet ok_world[of sh]
  by (auto simp: cmd_save_def kept_def quiet_def Let_def split: prod.splits intro!: frame_say frame_two)

lemma kept_wipe [frame_rules]: "ok sh \<Longrightarrow> kept ok (cmd_wipe e args sh)"
  using quiet_wipe[of "x_nvs e" Q "sh_ext sh" "sh_cfg sh"] quiet ok_world[of sh]
  by (auto simp: cmd_wipe_def kept_def quiet_def Let_def split: prod.splits intro!: frame_say frame_two)

lemma kept_hostname [frame_rules]: "ok sh \<Longrightarrow> kept ok (cmd_hostname args sh)"
  unfolding cmd_hostname_def by (rule frame_rules | rule frame_skip | assumption)+

lemma kept_ssid [frame_rules]: "ok sh \<Longrightarrow> kept ok (cmd_ssid args sh)"
  unfolding cmd_ssid_def by (rule frame_rules | rule frame_skip | assumption)+

lemma kept_pass [frame_rules]: "ok sh \<Longrightarrow> kept ok (cmd_pass args sh)"
  unfolding cmd_pass_def by (rule frame_rules | rule frame_skip | assumption)+

lemma kept_ftpuser [frame_rules]: "ok sh \<Longrightarrow> kept ok (cmd_ftpuser args sh)"
  unfolding cmd_ftpuser_def by (rule frame_rules | rule frame_skip | assumption)+

lemma kept_ftppass [frame_rules]: "ok sh \<Longrightarrow> kept ok (cmd_ftppass args sh)"
  unfolding cmd_ftppass_def by (rule frame_rules | rule frame_skip | assumption)+

lemma kept_tz [frame_rules]: "ok sh \<Longrightarrow> kept ok (cmd_tz e args sh)"
  unfolding cmd_tz_def by (rule frame_rules | rule frame_skip | assumption)+

lemma kept_time [frame_rules]: "ok sh \<Longrightarrow> kept ok (cmd_time e args sh)"
  unfolding cmd_time_def by (rule frame_rules | rule frame_skip | assumption)+

lemma kept_logout [frame_rules]: "ok sh \<Longrightarrow> kept ok (cmd_logout args sh)"
  unfolding cmd_logout_def by (rule frame_rules | rule frame_skip | assumption)+

lemma kept_bauds [frame_rules]: "ok sh \<Longrightarrow> ok (bauds_list sh)"
  unfolding bauds_list_def by (rule frame_rules | rule frame_skip | assumption)+

lemma kept_baud [frame_rules]: "ok sh \<Longrightarrow> kept ok (cmd_baud args sh)"
  unfolding cmd_baud_def by (rule frame_rules | rule frame_skip | assumption)+

lemma kept_interface [frame_rules]: "ok sh \<Longrightarrow> ok (print_fdc_interface s ind sh)"
  unfolding print_fdc_interface_def by (rule frame_rules | rule frame_skip | assumption)+

lemma kept_stat_lines [frame_rules]:
  "ok sh \<Longrightarrow> ok (stat_line l n sh)" "ok sh \<Longrightarrow> ok (stat_line_of l n x sh)"
  by (simp_all add: stat_line_def stat_line_of_def frame_say)

lemma kept_stats [frame_rules]: "ok sh \<Longrightarrow> kept ok (cmd_stats args sh)"
  unfolding cmd_stats_def by (rule frame_rules | rule frame_skip | assumption)+

lemma kept_clear [frame_rules]: "ok sh \<Longrightarrow> kept ok (cmd_clear args sh)"
  unfolding cmd_clear_def by (rule frame_rules | rule frame_skip | assumption)+

lemma kept_loopback [frame_rules]:
  assumes "ok sh"
  shows "kept ok (cmd_loopback e args sh)"
proof -
  obtain err res st where r: "fdc_loopback (x_fdc_task e) True (x_loopback e) (sh_fdc sh) = (err, res, st)"
    by (cases "fdc_loopback (x_fdc_task e) True (x_loopback e) (sh_fdc sh)")
  have f: "sh_fdc (say s sh) = sh_fdc sh" for s by (simp add: say_def)
  have "ok (say s sh\<lparr>sh_fdc := st\<rparr>)" for s using ok_loop[OF ok_say(1)[OF assms], of s] by (simp add: f r)
  then show ?thesis
    by (simp add: cmd_loopback_def f r kept_def Let_def frame_say split: esp_err.splits option.splits)
qed

lemma kept_fdctcp [frame_rules]: "ok sh \<Longrightarrow> kept ok (cmd_fdctcp args sh)"
  unfolding cmd_fdctcp_def by (rule frame_rules | rule frame_skip | assumption)+

lemma kept_log [frame_rules]: "ok sh \<Longrightarrow> kept ok (cmd_log e args sh)"
  unfolding cmd_log_def by (rule frame_rules | rule frame_skip | assumption)+

lemma kept_wifi_enable [frame_rules]: "ok sh \<Longrightarrow> kept ok (wifi_enable e on sh)"
  using quiet_wifi_enable[of "x_wifi e" Q "sh_ext sh" on "config_get sh" "sh_net sh"] quiet ok_world[of sh]
  by (auto simp: wifi_enable_def kept_def quiet_def split: prod.splits intro!: frame_two)

lemma kept_wifi [frame_rules]: "ok sh \<Longrightarrow> kept ok (cmd_wifi e args sh)"
  unfolding cmd_wifi_def by (rule frame_rules | rule frame_skip | assumption)+

lemma kept_switch [frame_rules]: "ok sh \<Longrightarrow> kept ok (service_switch c w fl sf args sh)"
  unfolding service_switch_def by (rule frame_rules | rule frame_skip | assumption)+

lemma kept_telnetd [frame_rules]: "ok sh \<Longrightarrow> kept ok (cmd_telnetd args sh)"
  unfolding cmd_telnetd_def by (rule frame_rules | rule frame_skip | assumption)+

lemma kept_ftpd [frame_rules]: "ok sh \<Longrightarrow> kept ok (cmd_ftpd args sh)"
  unfolding cmd_ftpd_def by (rule frame_rules | rule frame_skip | assumption)+

lemma kept_tnfsd [frame_rules]: "ok sh \<Longrightarrow> kept ok (cmd_tnfsd args sh)"
  unfolding cmd_tnfsd_def by (rule frame_rules | rule frame_skip | assumption)+

lemma kept_image_version [frame_rules]: "ok sh \<Longrightarrow> kept ok (image_file_version e path sh)"
  unfolding image_file_version_def by (rule frame_rules | rule frame_skip | assumption)+

lemma kept_https_version [frame_rules]: "ok sh \<Longrightarrow> kept ok (https_image_version e url sh)"
  unfolding https_image_version_def by (rule frame_rules | rule frame_skip | assumption)+

lemma kept_install_version [frame_rules]: "ok sh \<Longrightarrow> ok (report_install_version v sh)"
  unfolding report_install_version_def by (rule frame_rules | rule frame_skip | assumption)+

lemma kept_progress [frame_rules]: "ok sh \<Longrightarrow> kept ok (progress n tot (m, sh))"
  unfolding progress_def prod.case by (rule frame_rules | rule frame_skip | assumption)+

lemma kept_flash_loop': "e' = e \<Longrightarrow> ok sh \<Longrightarrow> kept ok (flash_loop e' f h tot pos (m, sh))"
proof (induction e' f h tot pos "(m, sh)" arbitrary: m sh rule: flash_loop.induct)
  case (1 e' f h tot pos m sh)
  note IH = 1(1)[unfolded 1(2), OF _ _ _ _ _ refl] and 1 = 1(3)
  let ?data = "fread (x_io e) f pos 4096 (sh_ext sh)"
  obtain err sh1 where w: "call (oa_write (x_ota e) h ?data) sh = (err, sh1)"
    by (cases "call (oa_write (x_ota e) h ?data) sh")
  with kept_call[OF 1 quiet_calls(13), of h ?data] have f1: "ok sh1" by (simp add: kept_def)
  obtain m2 sh2 where p: "progress (int (pos + length ?data)) tot (m, sh1) = (m2, sh2)"
    by (cases "progress (int (pos + length ?data)) tot (m, sh1)")
  with kept_progress[OF f1, of "int (pos + length ?data)" tot m] have f2: "ok sh2" by (simp add: kept_def)
  have "?data \<noteq> [] \<Longrightarrow> err = ESP_OK \<Longrightarrow> kept ok (flash_loop e f h tot (pos + length ?data) (m2, sh2))"
    using IH[of ?data err sh1 m2 sh2] w p f2 by simp
  with 1 f1 w p show ?case unfolding \<open>e' = e\<close> by (subst flash_loop.simps) (auto simp: kept_def Let_def)
qed

lemmas kept_flash_loop [frame_rules] = kept_flash_loop'[OF refl]

lemma kept_sd_flash [frame_rules]: "ok sh \<Longrightarrow> kept ok (sd_flash e tot f sh)"
  unfolding sd_flash_def by (rule guard_rules | rule frame_rules | rule frame_skip | assumption)+

lemma kept_do_sd [frame_rules]: "ok sh \<Longrightarrow> kept ok (do_sd e sh)"
  unfolding do_sd_def by (rule frame_rules | rule frame_skip | assumption)+

lemma kept_do_https [frame_rules]: "ok sh \<Longrightarrow> kept ok (do_https e url sh)"
  unfolding do_https_def by (rule frame_rules | rule frame_skip | assumption)+

lemma kept_do_repo [frame_rules]: "ok sh \<Longrightarrow> kept ok (do_repo e sh)"
  unfolding do_repo_def by (rule frame_rules | rule frame_skip | assumption)+

lemma kept_do_url [frame_rules]: "ok sh \<Longrightarrow> kept ok (do_url e url sh)"
  unfolding do_url_def by (rule frame_rules | rule frame_skip | assumption)+

lemma kept_report_local [frame_rules]: "ok sh \<Longrightarrow> ok (report_local e sh)"
  unfolding report_local_def by (rule frame_rules | rule frame_skip | assumption)+

lemma kept_report_ota [frame_rules]: "ok sh \<Longrightarrow> ok (report_ota e sh)"
  unfolding report_ota_def by (rule frame_rules | rule frame_skip | assumption)+

lemma kept_do_status [frame_rules]: "ok sh \<Longrightarrow> kept ok (do_status e sh)"
  unfolding do_status_def by (rule frame_rules | rule frame_skip | assumption)+

lemma kept_help_values [frame_rules]: "ok sh \<Longrightarrow> ok (help_values fn sh)"
  unfolding help_values_def by (rule frame_rules | rule frame_skip | assumption)+

lemma kept_help_one [frame_rules]: "ok sh \<Longrightarrow> ok (help_one t sh)"
  unfolding help_one_def by (rule frame_rules | rule frame_skip | assumption)+

lemma kept_help [frame_rules]: "ok sh \<Longrightarrow> kept ok (cmd_help args sh)"
  unfolding cmd_help_def by (rule frame_rules | rule frame_skip | assumption)+

lemma kept_diag_hardware [frame_rules]: "ok sh \<Longrightarrow> ok (diag_hardware e sh)"
  unfolding diag_hardware_def by (rule frame_rules | rule frame_skip | assumption)+

lemma kept_diag_config [frame_rules]: "ok sh \<Longrightarrow> ok (diag_config sh)"
  unfolding diag_config_def by (rule frame_rules | rule frame_skip | assumption)+

lemma kept_diag_wifi [frame_rules]: "ok sh \<Longrightarrow> ok (diag_wifi e sh)"
  unfolding diag_wifi_def by (rule frame_rules | rule frame_skip | assumption)+

lemma kept_diag_card [frame_rules]: "ok sh \<Longrightarrow> ok (diag_card e sh)"
  unfolding diag_card_def by (rule frame_rules | rule frame_skip | assumption)+

lemma kept_diag_link [frame_rules]: "ok sh \<Longrightarrow> ok (diag_link sh)"
  unfolding diag_link_def by (rule frame_rules | rule frame_skip | assumption)+

lemma kept_diag [frame_rules]: "ok sh \<Longrightarrow> kept ok (cmd_diag e args sh)"
  unfolding cmd_diag_def by (rule frame_rules | rule frame_skip | assumption)+

section \<open>Commands that may restart\<close>

lemma fin_reboot: "ok sh \<Longrightarrow> fin (snd (cmd_reboot e args sh))"
  by (simp add: cmd_reboot_def fin_restart ok_say Let_def)

lemma fin_ota_task:
  assumes "ok sh"
  shows "fin (snd (ota_task e src sh))"
proof -
  let ?r = "case src of OTA_SRC_STATUS \<Rightarrow> do_status e sh | OTA_SRC_SD \<Rightarrow> do_sd e sh
            | OTA_SRC_REPO \<Rightarrow> do_repo e sh | OTA_SRC_URL url \<Rightarrow> do_url e url sh"
  have "kept ok ?r" using assms by (cases src) (simp_all add: frame_rules)
  then show ?thesis
    by (cases ?r) (auto simp: ota_task_def kept_def Let_def intro: ok_fin fin_restart[OF ok_say(1)])
qed

lemma fin_update:
  assumes "ok sh"
  shows "fin (snd (cmd_update e args sh))"
proof -
  have "fin (snd (ota_run e src sh))" for src
  proof -
    have "fin (say s sh)" "fin (say s (sh\<lparr>sh_ota_busy := b\<rparr>))" for s b
      using assms by (auto intro: ok_fin ok_say ok_busy)
    with fin_ota_task[OF ok_busy[OF assms, of True], of src] show ?thesis
      by (auto simp: ota_run_def Let_def intro: fin_busy split: prod.splits)
  qed
  then show ?thesis by (simp add: cmd_update_def ota_entries case_prod_beta')
qed

section \<open>All of them\<close>

lemma kept_commands:
  assumes "c \<notin> {Exec, Mount, Unmount, Reboot, Update}" "ok sh"
  shows "kept ok (commands e disp c args sh)"
  using assms(2)
  by (cases c; (simp only: commands.simps; (rule frame_rules | assumption)+)?) (use assms(1) in blast)+

lemma fin_commands:
  assumes "c \<notin> {Exec, Mount, Unmount}" "ok sh"
  shows "fin (snd (commands e disp c args sh))"
proof (cases "c \<in> {Reboot, Update}")
  case True
  then show ?thesis using assms(2) fin_reboot fin_update by auto
next
  case False
  then have "kept ok (commands e disp c args sh)" using assms kept_commands by blast
  then show ?thesis by (simp add: kept_def ok_fin)
qed

end

text \<open>What does not look at the disk store survives mounting and unmounting as well.\<close>

locale command_inv_disk = command_inv +
  assumes ok_disk: "ok sh \<Longrightarrow> ok (upd_disk d sh)"
begin

lemma kept_upd_disk [frame_rules]: "ok sh \<Longrightarrow> ok (upd_disk d sh)"
  by (rule ok_disk)

lemma kept_mount_drive [frame_rules]: "ok sh \<Longrightarrow> kept ok (mount_drive e d name sh)"
  unfolding mount_drive_def by (rule frame_rules | rule frame_skip | assumption)+

lemma kept_mount_remote [frame_rules]: "ok sh \<Longrightarrow> kept ok (mount_remote e d url sh)"
  unfolding mount_remote_def by (rule frame_rules | rule frame_skip | assumption)+

lemma kept_mount_local [frame_rules]: "ok sh \<Longrightarrow> kept ok (mount_local e d name sh)"
  unfolding mount_local_def by (rule frame_rules | rule frame_skip | assumption)+

lemma kept_mount [frame_rules]: "ok sh \<Longrightarrow> kept ok (cmd_mount e args sh)"
  unfolding cmd_mount_def by (rule frame_rules | rule frame_skip | assumption)+

lemma kept_unmount [frame_rules]: "ok sh \<Longrightarrow> kept ok (cmd_unmount e args sh)"
  unfolding cmd_unmount_def by (rule frame_rules | rule frame_skip | assumption)+

end

section \<open>The frame of a command\<close>

definition frame :: "'w shell \<Rightarrow> console \<times> string" where
  "frame sh = ((sh_con sh)\<lparr>cn_out := [], cn_disconnect := False\<rparr>, sh_cwd sh)"

interpretation framed: command_inv_disk e "\<lambda>sh. frame sh = F" "\<lambda>sh. frame sh = F" "\<lambda>_. True" "\<lambda>_ _. True"
  for e :: "'w sh_env" and F
  by unfold_locales
    (simp_all add: frame_def say_def sayf_def cli_printf_def cli_writen_def upd_con_def upd_disk_def quiet_all)

lemma frame_printed: "frame (say s sh) = frame sh" "frame (sayf s sh) = frame sh"
  by (simp_all add: frame_def say_def sayf_def cli_printf_def cli_writen_def)

lemma frame_call: "frame (snd (call g sh)) = frame sh"
  by (simp add: call_def frame_def split: prod.splits)

lemma frame_commands:
  assumes "c \<noteq> Exec"
  shows "frame (snd (commands e disp c args sh)) = frame sh"
proof -
  have "kept (\<lambda>s. frame s = frame sh) (cmd_mount e args sh)" "kept (\<lambda>s. frame s = frame sh) (cmd_unmount e args sh)"
    by (rule framed.kept_mount framed.kept_unmount, simp)+
  moreover have "frame (snd (commands e disp c args sh)) = frame sh" if "c \<notin> {Exec, Mount, Unmount}"
    using framed.fin_commands[OF that refl] .
  ultimately show ?thesis using assms by (cases "c \<in> {Mount, Unmount}") (auto simp: kept_def)
qed

end
