(* ===== verification/CliProps.thy ===== *)
theory CliProps
  imports Cli FdcProps
begin

text \<open>
  What the command line's pieces do: the in-place tokenizer against a recursive definition
  of the tokens of a line (\<open>tokens\<close>), and the line editor against an editor on a list of
  typed characters.
\<close>

section \<open>Tokens of a line\<close>

text \<open>One token and what is left, from its delimiter on; quotes switch blanks off and vanish.\<close>

fun token :: "bool \<Rightarrow> string \<Rightarrow> string \<times> string" where
  "token q [] = ([], [])"
| "token q (c # cs) =
     (if c = CHR 0x22 then token (\<not> q) cs
      else if \<not> q \<and> blank c then ([], c # cs)
      else (case token q cs of (t, r) \<Rightarrow> (c # t, r)))"

fun tokens :: "nat \<Rightarrow> string \<Rightarrow> string list" where
  "tokens 0 s = []"
| "tokens (Suc n) s =
     (let s = dropWhile blank s
      in if s = [] then [] else (case token False s of (t, r) \<Rightarrow> t # tokens n (tl r)))"

lemma cell_at [simp]: "cell (pre @ c # r) (length pre) = c"
  by (simp add: cell_def)

lemma cell_behind [simp]: "cell (pre @ gap @ c # r) (length pre + length gap) = c"
  using cell_at[of "pre @ gap" c r] by simp

lemma not_blank_NUL [simp]: "\<not> blank NUL"
  by (simp add: blank_def)

lemma tok_skip_spec:
  "tok_skip (pre @ s @ NUL # junk) (length pre) = length pre + length (takeWhile blank s)"
proof (induction s arbitrary: pre)
  case Nil
  then show ?case by (simp add: tok_skip.simps)
next
  case (Cons c s)
  show ?case using Cons[of "pre @ [c]"]
    by (simp add: tok_skip.simps[of "pre @ c # s @ NUL # junk" "length pre"])
qed

lemma token_rest: "set (snd (token q s)) \<subseteq> set s" "length (fst (token q s)) + length (snd (token q s)) \<le> length s"
  by (induction q s rule: token.induct) (auto split: prod.splits)

lemma tok_copy_spec:
  assumes "NUL \<notin> set s"
  shows "\<exists>gap'. length gap' + length (fst (token q s)) + length (snd (token q s)) = length gap + length s \<and>
           tok_copy (pre @ gap @ s @ NUL # junk) (length pre + length gap) (length pre) q =
             (pre @ fst (token q s) @ gap' @ snd (token q s) @ NUL # junk,
              length pre + length (fst (token q s)) + length gap', length pre + length (fst (token q s)))"
  using assms
proof (induction s arbitrary: pre gap q)
  case Nil
  show ?case by (rule exI[of _ gap]) (simp add: tok_copy.simps)
next
  case (Cons c s)
  let ?b = "pre @ gap @ c # s @ NUL # junk"
  have c: "cell ?b (length pre + length gap) = c" "c \<noteq> NUL" and s: "NUL \<notin> set s"
    using Cons.prems by auto
  note step = tok_copy.simps[of ?b "length pre + length gap" "length pre" q, unfolded c(1)]
  consider (quote) "c = CHR 0x22" | (stop) "c \<noteq> CHR 0x22" "\<not> q" "blank c"
    | (keep) "c \<noteq> CHR 0x22" "\<not> (\<not> q \<and> blank c)" by blast
  then show ?case
  proof cases
    case quote
    with Cons.IH[OF s, of "\<not> q" "gap @ [c]" pre] step c(2) show ?thesis by simp
  next
    case stop
    with step c(2) show ?thesis by (intro exI[of _ gap]) simp
  next
    case keep
    show ?thesis
    proof (cases gap)
      case Nil
      with Cons.IH[OF s, of q "[]" "pre @ [c]"] step keep c(2) show ?thesis
        by (auto split: prod.splits)
    next
      case (Cons g gs)
      with Cons.IH[OF s, of q "gs @ [c]" "pre @ [c]"] step keep c(2) show ?thesis
        by (auto split: prod.splits)
    qed
  qed
qed

text \<open>A token's NUL lands on the first cell the token does not fill.\<close>

lemma takeWhile_until: "x \<notin> set t \<Longrightarrow> takeWhile (\<lambda>c. c \<noteq> x) (t @ x # r) = t"
  by (induction t) auto

lemma cstr_here: "NUL \<notin> set t \<Longrightarrow> cstr (pre @ t @ NUL # r) (length pre) = t"
  by (simp add: cstr_def takeWhile_until)

lemma tokens_Nil [simp]: "tokens n [] = []"
  by (cases n) simp_all

lemma token_set: "set (fst (token q s)) \<subseteq> set s"
  by (induction q s rule: token.induct) (auto split: prod.splits)

lemma dropWhile_hd_not: "dropWhile P s = c # r \<Longrightarrow> \<not> P c"
  by (metis hd_dropWhile list.distinct(1) list.sel(1))

lemma tok_loop_stop: "tok_loop (pre @ NUL # junk) (length pre) argv = (pre @ NUL # junk, argv)"
  by (simp add: tok_loop.simps)

text \<open>
  One round of the loop. Either the token reaches the end of the line and nothing follows, or
  the loop goes on behind a prefix in which the token is closed by a NUL.
\<close>

lemma tok_loop_token:
  assumes s: "NUL \<notin> set s" and lt: "length argv < CLI_MAX_ARGS"
    and u: "dropWhile blank s = c # cs" and tr: "token False (c # cs) = (t, r)"
    and ws: "ws = takeWhile blank s"
  shows "(tok_loop (pre @ s @ NUL # junk) (length pre) argv =
            (pre @ (ws @ t) @ NUL # junk, argv @ [length pre + length ws]) \<and>
          r = [] \<and> t \<noteq> [] \<and> length (ws @ t) = length s) \<or>
         (\<exists>ys. tok_loop (pre @ s @ NUL # junk) (length pre) argv =
            tok_loop ((pre @ ws @ t @ NUL # ys) @ tl r @ NUL # junk) (length (pre @ ws @ t @ NUL # ys))
              (argv @ [length pre + length ws]) \<and>
          length (pre @ ws @ t @ NUL # ys) + length (tl r) = length pre + length s)"
proof -
  let ?b = "pre @ s @ NUL # junk" and ?st = "length pre + length ws"
  have s_eq: "s = ws @ c # cs" using u ws by (metis takeWhile_dropWhile_id)
  have nn: "c \<noteq> NUL" "NUL \<notin> set (c # cs)" "NUL \<notin> set r"
    using s s_eq tr token_rest(1)[of False "c # cs"] by auto
  obtain gap where g: "length gap + length t + length r = length (c # cs)"
    and copy: "tok_copy ((pre @ ws) @ [] @ (c # cs) @ NUL # junk) (length (pre @ ws) + 0) (length (pre @ ws)) False =
      ((pre @ ws) @ t @ gap @ r @ NUL # junk, length (pre @ ws) + length t + length gap, length (pre @ ws) + length t)"
    using tok_copy_spec[OF nn(2), of False "[]" "pre @ ws" junk] tr by auto
  define e where "e = take 1 r"
  have r: "r = e @ tl r" by (cases r) (simp_all add: e_def)
  have len_r: "length r = length e + length (tl r)"
    using arg_cong[OF r, of length] by (simp del: length_tl)
  have len_s: "length s = length ws + length gap + length t + length r"
    using g s_eq by simp
  have step: "tok_loop ?b (length pre) argv =
      tok_loop ((pre @ ws @ t @ gap @ r @ NUL # junk)[?st + length t := NUL])
        (?st + length t + length gap + length e) (argv @ [?st])"
  proof -
    have "cell ?b (length pre) \<noteq> NUL"
      using s unfolding s_eq by (cases ws) auto
    moreover have "tok_skip ?b (length pre) = ?st"
      by (simp add: tok_skip_spec ws)
    moreover have "cell ?b ?st = c" using s_eq by simp
    moreover have "tok_copy ?b ?st ?st False =
        (pre @ ws @ t @ gap @ r @ NUL # junk, ?st + length t + length gap, ?st + length t)"
      using copy s_eq by simp
    moreover have "cell (pre @ ws @ t @ gap @ r @ NUL # junk) (?st + length t + length gap) = hd (r @ [NUL])"
      using cell_at[of "pre @ ws @ t @ gap"] by (cases r) (simp_all add: add.assoc)
    ultimately show ?thesis
      using lt nn(1,3) by (cases r) (auto simp: tok_loop.simps[of ?b "length pre" argv] Let_def e_def)
  qed
  show ?thesis
  proof (cases "gap @ e")
    case Nil
    then have "r = []" by (cases r) (simp_all add: e_def)
    with Nil step tok_loop_stop[of "pre @ ws @ t" junk] g len_s show ?thesis
      by (auto simp: list_update_append add.assoc)
  next
    case (Cons x ys)
    have eq: "pre @ ws @ t @ gap @ r @ NUL # junk = (pre @ ws @ t) @ x # ys @ tl r @ NUL # junk"
      using Cons r by (metis append.assoc append_Cons)
    have "(pre @ ws @ t @ gap @ r @ NUL # junk)[?st + length t := NUL] = (pre @ ws @ t @ NUL # ys) @ tl r @ NUL # junk"
      unfolding eq by (simp add: list_update_append add.assoc)
    moreover have p: "?st + length t + length gap + length e = length (pre @ ws @ t @ NUL # ys)"
      using arg_cong[OF Cons, of length] by simp
    moreover have "length (pre @ ws @ t @ NUL # ys) + length (tl r) = length pre + length s"
      using p len_s len_r by linarith
    ultimately show ?thesis using step by metis
  qed
qed

lemma tok_loop_spec:
  assumes "NUL \<notin> set s" "length argv + n = CLI_MAX_ARGS"
  shows "\<exists>mid new. tok_loop (pre @ s @ NUL # junk) (length pre) argv = (pre @ mid @ NUL # junk, argv @ new) \<and>
           length mid = length s \<and> (\<forall>i \<in> set new. length pre \<le> i \<and> i < length pre + length s) \<and>
           map (cstr (pre @ mid @ NUL # junk)) new = tokens n s"
  using assms
proof (induction n arbitrary: pre s argv)
  case 0
  then show ?case
    by (intro exI[of _ s] exI[of _ "[]"]) (simp add: tok_loop.simps)
next
  case (Suc n)
  define ws where "ws = takeWhile blank s"
  let ?st = "length pre + length ws"
  show ?case
  proof (cases "dropWhile blank s")
    case Nil
    then have tw: "takeWhile blank s = s" by (simp add: dropWhile_eq_Nil_conv takeWhile_eq_all_conv)
    have "tok_loop (pre @ s @ NUL # junk) (length pre) argv = (pre @ s @ NUL # junk, argv)"
      using tok_skip_spec[of pre s junk, unfolded tw] cell_at[of "pre @ s" NUL junk]
      by (simp add: tok_loop.simps[of "pre @ s @ NUL # junk"] Let_def)
    with Nil show ?thesis
      by (intro exI[of _ s] exI[of _ "[]"]) (simp add: Let_def)
  next
    case (Cons c cs)
    obtain t r where tr: "token False (c # cs) = (t, r)" by (cases "token False (c # cs)")
    have tokens: "tokens (Suc n) s = t # tokens n (tl r)"
      using Cons tr by (simp add: Let_def)
    have sub: "set (c # cs) \<subseteq> set s" using Cons by (metis set_dropWhileD subsetI)
    then have nt: "NUL \<notin> set t" "NUL \<notin> set r"
      using Suc.prems(1) tr token_set[of False "c # cs"] token_rest(1)[of False "c # cs"] by auto
    have lt: "length argv < CLI_MAX_ARGS" using Suc.prems(2) by simp
    from tok_loop_token[OF Suc.prems(1) lt Cons tr ws_def, of pre junk] show ?thesis
    proof (elim disjE exE conjE)
      assume out: "tok_loop (pre @ s @ NUL # junk) (length pre) argv = (pre @ (ws @ t) @ NUL # junk, argv @ [?st])"
        and "r = []" and t: "t \<noteq> []" "length (ws @ t) = length s"
      moreover have "cstr (pre @ (ws @ t) @ NUL # junk) ?st = t"
        using cstr_here[OF nt(1), of "pre @ ws" junk] by simp
      moreover have "tokens (Suc n) s = [t]" using tokens \<open>r = []\<close> by simp
      moreover have "?st < length pre + length s" using t by (cases t) auto
      ultimately show ?thesis
        by (intro exI[of _ "ws @ t"] exI[of _ "[?st]"]) (auto simp del: tokens.simps)
    next
      fix ys
      let ?pre = "pre @ ws @ t @ NUL # ys"
      assume step: "tok_loop (pre @ s @ NUL # junk) (length pre) argv =
          tok_loop (?pre @ tl r @ NUL # junk) (length ?pre) (argv @ [?st])"
        and len: "length ?pre + length (tl r) = length pre + length s"
      have pr: "NUL \<notin> set (tl r)" "length (argv @ [?st]) + n = CLI_MAX_ARGS"
        using nt(2) Suc.prems(2) by (cases r; simp)+
      obtain mid new where rec:
        "tok_loop (?pre @ tl r @ NUL # junk) (length ?pre) (argv @ [?st]) = (?pre @ mid @ NUL # junk, (argv @ [?st]) @ new)"
        "length mid = length (tl r)" "\<forall>i \<in> set new. length ?pre \<le> i \<and> i < length ?pre + length (tl r)"
        "map (cstr (?pre @ mid @ NUL # junk)) new = tokens n (tl r)"
        using Suc.IH[OF pr, of ?pre] by blast
      have arg: "cstr (?pre @ mid @ NUL # junk) ?st = t"
        using cstr_here[OF nt(1), of "pre @ ws" "ys @ mid @ NUL # junk"] by simp
      have "?st < length ?pre" by simp
      with len have lt: "?st < length pre + length s" by linarith
      let ?mid = "ws @ t @ NUL # ys @ mid"
      have "tok_loop (pre @ s @ NUL # junk) (length pre) argv = (pre @ ?mid @ NUL # junk, argv @ ?st # new)"
        using rec(1) step by simp
      moreover have "length ?mid = length s"
        using rec(2) len by (simp del: length_tl)
      moreover have "\<forall>i \<in> set (?st # new). length pre \<le> i \<and> i < length pre + length s"
        using rec(3)[unfolded len] lt by auto
      moreover have "map (cstr (pre @ ?mid @ NUL # junk)) (?st # new) = tokens (Suc n) s"
        using rec(4) arg unfolding tokens by simp
      ultimately show ?thesis by blast
    qed
  qed
qed

section \<open>Quoting\<close>

text \<open>A line that passes \<open>args\<close>: each in double quotes, followed by a blank.\<close>

definition quote_line :: "string list \<Rightarrow> string" where
  "quote_line args = concat (map (\<lambda>a. CHR 0x22 # a @ [CHR 0x22, CHR '' '']) args)"

lemma token_quoted:
  assumes "CHR 0x22 \<notin> set a"
  shows "token True (a @ CHR 0x22 # CHR '' '' # r) = (a, CHR '' '' # r)"
  using assms by (induction a) (auto simp: blank_def)

lemma tokens_quote_line:
  assumes "\<forall>a \<in> set args. CHR 0x22 \<notin> set a" "length args \<le> n"
  shows "tokens n (quote_line args) = args"
  using assms
proof (induction n arbitrary: args)
  case (Suc n)
  show ?case
  proof (cases args)
    case Nil
    then show ?thesis by (simp add: quote_line_def)
  next
    case (Cons a as)
    have "quote_line args = CHR 0x22 # a @ CHR 0x22 # CHR '' '' # quote_line as"
      by (simp add: quote_line_def Cons)
    moreover have "tokens n (quote_line as) = as"
      using Suc Cons by simp
    ultimately show ?thesis
      using Suc.prems Cons token_quoted[of a "quote_line as"] by (simp add: blank_def Let_def)
  qed
qed (simp add: quote_line_def)

section \<open>The editor\<close>

text \<open>An editor on the list of typed characters.\<close>

definition printable :: "char \<Rightarrow> bool" where
  "printable b \<longleftrightarrow> (of_char b :: nat) \<ge> 0x20 \<and> (of_char b :: nat) \<le> 0x7E"

definition rubout :: "char \<Rightarrow> bool" where
  "rubout b \<longleftrightarrow> b = CHR 0x08 \<or> b = CHR 0x7F"

definition edit :: "string \<Rightarrow> char \<Rightarrow> string" where
  "edit s b = (if rubout b then butlast s
               else if printable b \<and> length s < CLI_LINE_MAX then s @ [b] else s)"

text \<open>
  A terminal's current line, as the text before and from the cursor: a backspace moves the
  cursor left, every other character overwrites the cell at the cursor.
\<close>

definition glyph :: "char \<Rightarrow> string \<times> string \<Rightarrow> string \<times> string" where
  "glyph b t = (case t of (l, r) \<Rightarrow>
     if b = CHR 0x08 then (if l = [] then ([], r) else (butlast l, last l # r)) else (l @ [b], tl r))"

definition typed :: "console \<Rightarrow> string" where
  "typed c = take (cn_len c) (cn_buf c)"

definition con_ok :: "console \<Rightarrow> bool" where
  "con_ok c \<longleftrightarrow> length (cn_buf c) = CLI_LINE_MAX + 1 \<and> cn_len c \<le> CLI_LINE_MAX"

text \<open>A terminal on which the text before the cursor is \<open>s\<close> and nothing follows it.\<close>

definition shows_line :: "string \<Rightarrow> string \<times> string \<Rightarrow> bool" where
  "shows_line s t \<longleftrightarrow> (\<exists>n. t = (s, replicate n (CHR '' '')))"

definition eol :: "char \<Rightarrow> bool" where
  "eol b \<longleftrightarrow> b = CR \<or> b = LF"

lemma length_typed: "con_ok c \<Longrightarrow> length (typed c) = cn_len c"
  by (simp add: con_ok_def typed_def)

lemma feed_key [simp]: "\<not> eol b \<Longrightarrow> cli_feed disp b sh = upd_con (cli_key b) sh"
  by (simp add: cli_feed_def eol_def)

lemma shows_push: "shows_line s t \<Longrightarrow> b \<noteq> CHR 0x08 \<Longrightarrow> shows_line (s @ [b]) (glyph b t)"
  unfolding shows_line_def glyph_def by (auto simp: tl_replicate)

lemma shows_erase:
  "shows_line s t \<Longrightarrow> s \<noteq> [] \<Longrightarrow> shows_line (butlast s) (fold glyph [CHR 0x08, CHR '' '', CHR 0x08] t)"
proof -
  assume "shows_line s t" "s \<noteq> []"
  then obtain n where t: "t = (s, replicate n (CHR '' ''))" by (auto simp: shows_line_def)
  have "glyph (CHR 0x08) t = (butlast s, last s # replicate n (CHR '' ''))"
    using \<open>s \<noteq> []\<close> by (simp add: t glyph_def)
  then have "fold glyph [CHR 0x08, CHR '' '', CHR 0x08] t = (butlast s, replicate (Suc n) (CHR '' ''))"
    by (simp add: glyph_def)
  then show ?thesis unfolding shows_line_def by blast
qed

lemma key_rub:
  assumes "rubout b"
  shows "cli_key b c = (let c = c\<lparr>cn_saw_cr := False\<rparr> in
     if cn_len c > 0
     then (if cn_echo c then cli_writen [CHR 0x08, CHR '' '', CHR 0x08] else id) (c\<lparr>cn_len := cn_len c - 1\<rparr>)
     else c)"
  using assms by (simp add: cli_key_def rubout_def Let_def)

lemma key_print:
  assumes "printable b" "\<not> rubout b" "b \<noteq> CHR 0x04"
  shows "cli_key b c = (let c = c\<lparr>cn_saw_cr := False\<rparr> in
     if cn_len c < CLI_LINE_MAX
     then (if cn_echo c then cli_writen [b] else id) (c\<lparr>cn_buf := (cn_buf c)[cn_len c := b], cn_len := cn_len c + 1\<rparr>)
     else c)"
  using assms unfolding cli_key_def rubout_def printable_def Let_def by simp

lemma key_other:
  assumes "\<not> printable b" "\<not> rubout b"
  shows "cli_key b c = (if b = CHR 0x04 \<and> cn_network c then c\<lparr>cn_saw_cr := False, cn_disconnect := True\<rparr>
                        else c\<lparr>cn_saw_cr := False\<rparr>)"
  using assms unfolding cli_key_def rubout_def printable_def Let_def by auto

text \<open>Output that turns a terminal showing \<open>s\<close> into one showing \<open>s'\<close>.\<close>

definition paints :: "string \<Rightarrow> string \<Rightarrow> string \<Rightarrow> bool" where
  "paints out s s' \<longleftrightarrow> (\<forall>t. shows_line s t \<longrightarrow> shows_line s' (fold glyph out t))"

lemma paints_nothing [simp]: "paints [] s s"
  by (simp add: paints_def)

lemma paints_append: "paints o1 s1 s2 \<Longrightarrow> paints o2 s2 s3 \<Longrightarrow> paints (o1 @ o2) s1 s3"
  unfolding paints_def fold_append comp_def by blast

lemma paints_push: "b \<noteq> CHR 0x08 \<Longrightarrow> paints [b] s (s @ [b])"
  by (simp add: paints_def shows_push)

lemma paints_erase: "s \<noteq> [] \<Longrightarrow> paints [CHR 0x08, CHR '' '', CHR 0x08] s (butlast s)"
  using shows_erase by (simp add: paints_def)

text \<open>What one key does, for the editor on typed characters and for the screen.\<close>

definition key_step :: "console \<Rightarrow> console \<Rightarrow> char list \<Rightarrow> bool" where
  "key_step c c' keys \<longleftrightarrow>
     con_ok c' \<and> typed c' = foldl edit (typed c) keys \<and> cn_echo c' = cn_echo c \<and>
     (\<exists>out. cn_out c' = cn_out c @ out \<and> (cn_echo c \<longrightarrow> paints out (typed c) (typed c')))"

lemma key_step_same:
  assumes "con_ok c" "typed c' = typed c" "con_ok c'" "cn_echo c' = cn_echo c" "cn_out c' = cn_out c"
    "edit (typed c) b = typed c"
  shows "key_step c c' [b]"
  using assms unfolding key_step_def by (intro conjI exI[of _ "[]"]) auto

lemma key_step_one:
  assumes ok: "con_ok c"
  shows "key_step c (cli_key b c) [b]"
proof -
  have len: "length (typed c) = cn_len c" by (rule length_typed[OF ok])
  consider (rub) "rubout b" | (other) "\<not> printable b" "\<not> rubout b" | (eot) "b = CHR 0x04"
    | (key) "printable b" "\<not> rubout b" "b \<noteq> CHR 0x04" by blast
  then show ?thesis
  proof cases
    case rub
    show ?thesis
    proof (cases "cn_len c = 0")
      case True
      then have "typed c = []" by (simp add: typed_def)
      with True rub ok show ?thesis
        by (intro key_step_same) (simp_all add: key_rub edit_def con_ok_def typed_def Let_def)
    next
      case False
      have ne: "typed c \<noteq> []" using False len by auto
      let ?c = "cli_key b c"
      have f: "cn_len ?c = cn_len c - 1" "cn_buf ?c = cn_buf c" "cn_echo ?c = cn_echo c"
        "cn_out ?c = cn_out c @ (if cn_echo c then [CHR 0x08, CHR '' '', CHR 0x08] else [])"
        using False by (simp_all add: key_rub[OF rub] Let_def cli_writen_def)
      have t: "typed ?c = butlast (typed c)" "edit (typed c) b = butlast (typed c)" "con_ok ?c"
        using ok rub f by (auto simp: con_ok_def typed_def edit_def butlast_take)
      show ?thesis
        unfolding key_step_def using t f paints_erase[OF ne] by auto
    qed
  next
    case other
    with ok show ?thesis
      by (intro key_step_same) (simp_all add: key_other edit_def con_ok_def typed_def)
  next
    case eot
    have np: "\<not> printable b" "\<not> rubout b" by (simp_all add: eot printable_def rubout_def)
    with ok show ?thesis
      by (intro key_step_same) (simp_all add: key_other edit_def con_ok_def typed_def)
  next
    case key
    show ?thesis
    proof (cases "cn_len c < CLI_LINE_MAX")
      case False
      with key ok len show ?thesis
        by (intro key_step_same) (simp_all add: key_print edit_def con_ok_def typed_def Let_def)
    next
      case True
      let ?c = "cli_key b c"
      have f: "cn_len ?c = cn_len c + 1" "cn_buf ?c = (cn_buf c)[cn_len c := b]" "cn_echo ?c = cn_echo c"
        "cn_out ?c = cn_out c @ (if cn_echo c then [b] else [])"
        using True by (simp_all add: key_print[OF key] Let_def cli_writen_def)
      have t: "typed ?c = typed c @ [b]" "edit (typed c) b = typed c @ [b]" "con_ok ?c"
        using ok key f len True by (simp_all add: con_ok_def typed_def edit_def take_Suc_conv_app_nth)
      have "b \<noteq> CHR 0x08" using key(2) by (simp add: rubout_def)
      then show ?thesis
        unfolding key_step_def using t f paints_push by auto
    qed
  qed
qed

lemma key_step_trans:
  assumes "key_step a b ks" "key_step b c ls"
  shows "key_step a c (ks @ ls)"
  using assms unfolding key_step_def by (auto intro: paints_append)

lemma feed_keys:
  assumes "con_ok (sh_con sh)" "\<forall>b \<in> set keys. \<not> eol b"
  shows "\<exists>c. fold (cli_feed disp) keys sh = sh\<lparr>sh_con := c\<rparr> \<and> key_step (sh_con sh) c keys"
  using assms
proof (induction keys arbitrary: sh)
  case Nil
  then show ?case
    by (intro exI[of _ "sh_con sh"]) (auto simp: key_step_def intro: exI[of _ "[]"])
next
  case (Cons b bs)
  let ?c = "cli_key b (sh_con sh)"
  have k: "key_step (sh_con sh) ?c [b]" by (rule key_step_one[OF Cons.prems(1)])
  then have "con_ok ?c" by (simp add: key_step_def)
  with Cons.IH[of "upd_con (cli_key b) sh"] Cons.prems(2) obtain c where
    "fold (cli_feed disp) bs (upd_con (cli_key b) sh) = (upd_con (cli_key b) sh)\<lparr>sh_con := c\<rparr>" "key_step ?c c bs"
    by (auto simp: upd_con_def)
  with key_step_trans[OF k, of c bs] Cons.prems(2) show ?case
    by (intro exI[of _ c]) (simp add: upd_con_def)
qed

text \<open>What the editor types never holds a NUL, so the C string it dispatches is all of it.\<close>

lemma edit_no_NUL: "NUL \<notin> set s \<Longrightarrow> NUL \<notin> set (edit s b)"
  by (auto simp: edit_def printable_def dest: in_set_butlastD)

lemma edits_no_NUL: "NUL \<notin> set s \<Longrightarrow> NUL \<notin> set (foldl edit s bs)"
  by (induction bs arbitrary: s) (simp_all add: edit_no_NUL)

text \<open>The rest of \<open>cli_feed\<close> once the line has been dispatched.\<close>

definition line_done :: "'w shell \<Rightarrow> 'w shell" where
  "line_done sh =
     (let sh = upd_con (\<lambda>c. c\<lparr>cn_len := 0\<rparr>) sh
      in if \<not> cn_disconnect (sh_con sh) \<and> \<not> sh_restarted sh then cli_prompt sh else sh)"

lemma cli_args_buffer:
  assumes "NUL \<notin> set s"
  shows "cli_args (s @ NUL # junk) = tokens CLI_MAX_ARGS s"
proof -
  have "length [] + CLI_MAX_ARGS = CLI_MAX_ARGS" by simp
  from tok_loop_spec[OF assms this, of "[]" junk] show ?thesis
    by (auto simp: cli_args_def)
qed

text \<open>The dispatcher sees a line only through its tokens.\<close>

lemma dispatch_line:
  "NUL \<notin> set s \<Longrightarrow> cli_dispatch table run auto (s @ NUL # junk) = cli_dispatch table run auto (s @ [NUL])"
  by (intro ext) (simp add: cli_dispatch_def cli_args_buffer)

lemma feed_enter:
  assumes "con_ok (sh_con sh)" "NUL \<notin> set (typed (sh_con sh))"
  shows "\<exists>c. cli_feed (cli_dispatch table run auto) CR sh =
             line_done (cli_dispatch table run auto (typed (sh_con sh) @ [NUL]) (sh\<lparr>sh_con := c\<rparr>)) \<and>
             cn_out c = cn_out (sh_con sh) @ crlf \<and> cn_depth c = cn_depth (sh_con sh)"
proof -
  let ?c = "sh_con sh"
  have buf: "(cn_buf ?c)[cn_len ?c := NUL] = typed ?c @ NUL # drop (Suc (cn_len ?c)) (cn_buf ?c)"
    using assms(1) by (simp add: con_ok_def typed_def upd_conv_take_nth_drop)
  let ?d = "(cli_writen crlf (?c\<lparr>cn_saw_cr := True\<rparr>))\<lparr>cn_buf := (cn_buf ?c)[cn_len ?c := NUL]\<rparr>"
  have w: "cn_buf (cli_writen crlf x) = cn_buf x" "cn_len (cli_writen crlf x) = cn_len x" for x
    by (simp_all add: cli_writen_def)
  have "cli_feed (cli_dispatch table run auto) CR sh =
      line_done (cli_dispatch table run auto (cn_buf ?d) (sh\<lparr>sh_con := ?d\<rparr>))"
    by (simp add: cli_feed_def upd_con_def Let_def line_done_def w)
  moreover have "cli_dispatch table run auto (cn_buf ?d) = cli_dispatch table run auto (typed ?c @ [NUL])"
    using dispatch_line[OF assms(2), of table run auto "drop (Suc (cn_len ?c)) (cn_buf ?c)"] by (simp add: buf)
  ultimately show ?thesis
    by (intro exI[of _ ?d]) (simp add: cli_writen_def crlf_def)
qed

section \<open>Properties\<close>

text \<open>A shell on a fresh console over the demonstration disk, for the witnesses.\<close>

definition demo_shell :: "'w \<Rightarrow> 'w shell" where
  "demo_shell w =
     \<lparr>sh_con = cli_console_init True, sh_cfg = \<lparr>s_cfg = config_defaults, s_dirty = False, s_loaded = True\<rparr>,
      sh_fdc = demo_fdc (replicate 10 0) [],
      sh_net = net_boot, sh_cwd = [], sh_restarted = False, sh_ota_busy = False, sh_ext = w\<rparr>"

text \<open>
  C29. The tokenizer, which compacts every token onto itself inside the line buffer, computes
  the tokens of the line: blanks separate, a quoted run keeps its blanks and loses its
  quotes, at most eight tokens count. Whatever the buffer holds behind the line's NUL, no
  byte from the NUL on is changed and every \<^verbatim>\<open>argv\<close> pointer stays inside the line.
\<close>

theorem tokenizer_in_place:
  assumes "NUL \<notin> set line"
  shows "\<exists>mid argv. tok_loop (line @ NUL # junk) 0 [] = (mid @ NUL # junk, argv) \<and>
           length mid = length line \<and> (\<forall>i \<in> set argv. i < length line) \<and>
           map (cstr (mid @ NUL # junk)) argv = tokens CLI_MAX_ARGS line"
proof -
  have "length [] + CLI_MAX_ARGS = CLI_MAX_ARGS" by simp
  from tok_loop_spec[OF assms this, of "[]" junk] show ?thesis by auto
qed

theorem tokenizer_in_place_witness:
  "\<exists>mid argv. tok_loop (''mount 1 '' @ quote_line [''A B''] @ NUL # ''xy'') 0 [] = (mid @ NUL # ''xy'', argv) \<and>
     length argv = 3"
proof -
  let ?l = "''mount 1 '' @ quote_line [''A B'']"
  have "NUL \<notin> set ?l" by (simp add: quote_line_def)
  from tokenizer_in_place[OF this, of "''xy''"] obtain mid argv where
    r: "tok_loop (?l @ NUL # ''xy'') 0 [] = (mid @ NUL # ''xy'', argv)"
    and a: "map (cstr (mid @ NUL # ''xy'')) argv = tokens CLI_MAX_ARGS ?l" by blast
  have "length argv = length (tokens CLI_MAX_ARGS ?l)" using a by (metis length_map)
  also have "\<dots> = 3" by code_simp
  finally show ?thesis using r by (metis append.assoc)
qed

text \<open>
  Quoting works: any up to eight arguments without a quote character, blanks and empty
  arguments included, reach the command exactly as they were when each is typed between
  double quotes.
\<close>

theorem quoted_args_roundtrip:
  assumes "length args \<le> CLI_MAX_ARGS" "\<forall>a \<in> set args. CHR 0x22 \<notin> set a \<and> NUL \<notin> set a"
  shows "cli_args (quote_line args @ NUL # junk) = args"
proof -
  have "NUL \<notin> set (quote_line args)"
    using assms(2) by (auto simp: quote_line_def)
  then show ?thesis
    using assms by (simp add: cli_args_buffer tokens_quote_line)
qed

theorem quoted_args_roundtrip_witness:
  "cli_args (quote_line [''mount'', ''1'', ''BLANK 8MB.DSK'', []] @ [NUL]) = [''mount'', ''1'', ''BLANK 8MB.DSK'', []]"
  by (rule quoted_args_roundtrip) simp_all

text \<open>
  C30. The line editor. Whatever bytes are typed on a fresh line, Enter dispatches exactly the
  line an editor on the typed characters makes of them (printable ones are appended up to
  200, backspace and DEL take the last one back, everything else is ignored), and when the
  console echoes, the terminal's line then shows exactly that line and no stale character.
\<close>

theorem line_editor:
  assumes "con_ok (sh_con sh)" "cn_len (sh_con sh) = 0" "\<forall>b \<in> set keys. \<not> eol b"
  shows "\<exists>c out. cn_out c = cn_out (sh_con sh) @ out @ crlf \<and>
           (cn_echo (sh_con sh) \<longrightarrow> paints out [] (foldl edit [] keys)) \<and>
           length (foldl edit [] keys) \<le> CLI_LINE_MAX \<and>
           fold (cli_feed (cli_dispatch table run auto)) (keys @ [CR]) sh =
             line_done (cli_dispatch table run auto (foldl edit [] keys @ [NUL]) (sh\<lparr>sh_con := c\<rparr>))"
proof -
  have fresh: "typed (sh_con sh) = []" using assms(2) by (simp add: typed_def)
  let ?line = "foldl edit [] keys"
  obtain c where c: "fold (cli_feed (cli_dispatch table run auto)) keys sh = sh\<lparr>sh_con := c\<rparr>"
    and k: "key_step (sh_con sh) c keys"
    using feed_keys[OF assms(1,3)] by blast
  then have t: "typed c = ?line" "con_ok c" by (simp_all add: key_step_def fresh)
  have "NUL \<notin> set (typed c)" unfolding t(1) by (rule edits_no_NUL) simp
  with feed_enter[of "sh\<lparr>sh_con := c\<rparr>" table run auto] t(2) obtain c' where
    e: "cli_feed (cli_dispatch table run auto) CR (sh\<lparr>sh_con := c\<rparr>) =
          line_done (cli_dispatch table run auto (?line @ [NUL]) (sh\<lparr>sh_con := c'\<rparr>))"
      "cn_out c' = cn_out c @ crlf"
    by (auto simp: t(1))
  obtain out where "cn_out c = cn_out (sh_con sh) @ out" "cn_echo (sh_con sh) \<longrightarrow> paints out [] ?line"
    using k t(1) by (auto simp: key_step_def fresh)
  moreover have "length ?line \<le> CLI_LINE_MAX"
    using t length_typed[OF t(2)] by (simp add: con_ok_def)
  ultimately show ?thesis using c e by (intro exI[of _ c'] exI[of _ out]) simp
qed

theorem line_editor_witness:
  "\<exists>c out. paints out [] ''ls'' \<and>
     fold (cli_feed (cli_dispatch [] (\<lambda>_ _ sh. (0, sh)) (\<lambda>_ sh. (False, sh))))
       [CHR ''l'', CHR ''x'', CHR 0x7F, CHR 0x07, CHR ''s'', CR] (demo_shell ()) =
     line_done (cli_dispatch [] (\<lambda>_ _ sh. (0, sh)) (\<lambda>_ sh. (False, sh)) (''ls'' @ [NUL]) ((demo_shell ())\<lparr>sh_con := c\<rparr>))"
proof -
  let ?keys = "[CHR ''l'', CHR ''x'', CHR 0x7F, CHR 0x07, CHR ''s'']"
  have "foldl edit [] ?keys = ''ls''" by code_simp
  then show ?thesis
    using line_editor[of "demo_shell ()" ?keys "[]" "\<lambda>_ _ sh. (0, sh)" "\<lambda>_ sh. (False, sh)"]
    by (auto simp: demo_shell_def cli_console_init_def con_ok_def eol_def)
qed

end
