(* ===== verification/CardFiles.thy ===== *)
theory CardFiles
  imports Batch CliProps
begin

text \<open>
  What the commands may rely on of the card: the documented behaviour of the stdio calls
  (\<open>stdio_laws\<close>), stated over a view of the world as files under canonical names (FAT does not
  distinguish case) and open streams; of the update calls (\<open>ota_laws\<close>); and a small concrete
  card that has these laws, on which the theorems about commands are exercised.
\<close>

section \<open>The laws of stdio\<close>

text \<open>
  \<open>cv_canon\<close> gives a path's canonical name, \<open>cv_file\<close> the contents under it, \<open>cv_str\<close> the canonical name
  an open stream belongs to. A call on one stream or path leaves the other files and streams
  alone; \<^verbatim>\<open>"rb"\<close> finds an existing file, \<^verbatim>\<open>"wb"\<close> empties it; a read takes the bytes at
  its offset, a whole write appends its bytes.
\<close>

record 'w card_view =
  cv_canon :: "string \<Rightarrow> string"
  cv_file :: "string \<Rightarrow> 'w \<Rightarrow> bytes option"
  cv_str :: "int \<Rightarrow> 'w \<Rightarrow> string option"

definition same_files :: "'w card_view \<Rightarrow> 'w \<Rightarrow> 'w \<Rightarrow> bool" where
  "same_files v w w' \<longleftrightarrow> (\<forall>q. cv_file v q w' = cv_file v q w)"

definition same_streams :: "'w card_view \<Rightarrow> 'w \<Rightarrow> 'w \<Rightarrow> bool" where
  "same_streams v w w' \<longleftrightarrow> (\<forall>g. cv_str v g w' = cv_str v g w)"

definition opened :: "'w card_view \<Rightarrow> int \<Rightarrow> string \<Rightarrow> 'w \<Rightarrow> 'w \<Rightarrow> bool" where
  "opened v f q w w' \<longleftrightarrow> cv_str v f w = None \<and> cv_str v f w' = Some q \<and> (\<forall>g. g \<noteq> f \<longrightarrow> cv_str v g w' = cv_str v g w)"

definition law_open_r :: "'w card_view \<Rightarrow> 'w stdio \<Rightarrow> bool" where
  "law_open_r v io \<longleftrightarrow>
     (\<forall>p w f w'. f_open_r io p w = (Inr f, w') \<longrightarrow>
        opened v f (cv_canon v p) w w' \<and> cv_file v (cv_canon v p) w \<noteq> None \<and> same_files v w w') \<and>
     (\<forall>p w err w'. f_open_r io p w = (Inl err, w') \<longrightarrow> same_files v w w')"

definition law_open_w :: "'w card_view \<Rightarrow> 'w stdio \<Rightarrow> bool" where
  "law_open_w v io \<longleftrightarrow>
     (\<forall>p w f w'. f_open_w io p w = (Inr f, w') \<longrightarrow>
        opened v f (cv_canon v p) w w' \<and> cv_file v (cv_canon v p) w' = Some [] \<and>
        (\<forall>q. q \<noteq> cv_canon v p \<longrightarrow> cv_file v q w' = cv_file v q w))"

definition law_read :: "'w card_view \<Rightarrow> 'w stdio \<Rightarrow> bool" where
  "law_read v io \<longleftrightarrow>
     (\<forall>f q c w off n. cv_str v f w = Some q \<longrightarrow> cv_file v q w = Some c \<longrightarrow>
        length c < 4294967296 \<and> f_read io f off n w = take n (drop off c))"

definition law_write :: "'w card_view \<Rightarrow> 'w stdio \<Rightarrow> bool" where
  "law_write v io \<longleftrightarrow>
     (\<forall>f data w n w' q c. f_write io f data w = (n, w') \<longrightarrow> cv_str v f w = Some q \<longrightarrow> cv_file v q w = Some c \<longrightarrow>
        same_streams v w w' \<and> (\<forall>q'. q' \<noteq> q \<longrightarrow> cv_file v q' w' = cv_file v q' w) \<and>
        (n = length data \<longrightarrow> cv_file v q w' = Some (c @ data)))"

definition law_close :: "'w card_view \<Rightarrow> 'w stdio \<Rightarrow> bool" where
  "law_close v io \<longleftrightarrow>
     (\<forall>f w b w'. f_close io f w = (b, w') \<longrightarrow>
        same_files v w w' \<and> (\<forall>g. g \<noteq> f \<longrightarrow> cv_str v g w' = cv_str v g w))"

definition stdio_laws :: "'w card_view \<Rightarrow> 'w stdio \<Rightarrow> bool" where
  "stdio_laws v io \<longleftrightarrow> law_open_r v io \<and> law_open_w v io \<and> law_read v io \<and> law_write v io \<and> law_close v io"

lemma stdio_open_r:
  assumes "stdio_laws v io" "f_open_r io p w = (Inr f, w')"
  shows "opened v f (cv_canon v p) w w' \<and> cv_file v (cv_canon v p) w \<noteq> None \<and> same_files v w w'"
  using assms unfolding stdio_laws_def law_open_r_def by blast

lemma stdio_open_fails:
  assumes "stdio_laws v io" "f_open_r io p w = (Inl err, w')"
  shows "same_files v w w'"
  using assms unfolding stdio_laws_def law_open_r_def by blast

lemma stdio_open_w:
  assumes "stdio_laws v io" "f_open_w io p w = (Inr f, w')"
  shows "opened v f (cv_canon v p) w w' \<and> cv_file v (cv_canon v p) w' = Some [] \<and>
    (\<forall>q. q \<noteq> cv_canon v p \<longrightarrow> cv_file v q w' = cv_file v q w)"
  using assms unfolding stdio_laws_def law_open_w_def by blast

lemma stdio_read:
  assumes "stdio_laws v io" "cv_str v f w = Some q" "cv_file v q w = Some c"
  shows "fread io f off n w = take n (drop off c)" "length c < 4294967296"
proof -
  have "length c < 4294967296 \<and> f_read io f off n w = take n (drop off c)"
    using assms unfolding stdio_laws_def law_read_def by blast
  then show "fread io f off n w = take n (drop off c)" "length c < 4294967296"
    by (auto simp: fread_def)
qed

lemma stdio_write:
  assumes "stdio_laws v io" "f_write io f data w = (n, w')" "cv_str v f w = Some q" "cv_file v q w = Some c"
  shows "same_streams v w w'" "\<forall>q'. q' \<noteq> q \<longrightarrow> cv_file v q' w' = cv_file v q' w"
    "n = length data \<Longrightarrow> cv_file v q w' = Some (c @ data)"
proof -
  have "law_write v io" using assms(1) by (simp add: stdio_laws_def)
  from this[unfolded law_write_def, rule_format, OF assms(2,3,4)]
  show "same_streams v w w'" "\<forall>q'. q' \<noteq> q \<longrightarrow> cv_file v q' w' = cv_file v q' w"
    "n = length data \<Longrightarrow> cv_file v q w' = Some (c @ data)" by simp_all
qed

lemma stdio_close:
  assumes "stdio_laws v io" "f_close io f w = (b, w')"
  shows "same_files v w w' \<and> (\<forall>g. g \<noteq> f \<longrightarrow> cv_str v g w' = cv_str v g w)"
  using assms unfolding stdio_laws_def law_close_def by blast

section \<open>The laws of the update calls\<close>

text \<open>
  \<open>ov_boot\<close> is the slot the next start boots from, \<open>ov_target\<close> the slot being written, \<open>ov_image\<close> what has been written to the
  inactive slot since the update began, \<open>ov_valid\<close> whether \<^verbatim>\<open>esp_ota_end\<close> accepts an image. Only
  \<^verbatim>\<open>esp_ota_set_boot_partition\<close> changes the boot slot, and only when it succeeds; none of the
  calls touches a file or a stream.
\<close>

record 'w ota_view =
  ov_boot :: "'w \<Rightarrow> string"
  ov_target :: "'w \<Rightarrow> string"
  ov_image :: "'w \<Rightarrow> bytes"
  ov_valid :: "bytes \<Rightarrow> bool"

definition same_card :: "'w card_view \<Rightarrow> 'w \<Rightarrow> 'w \<Rightarrow> bool" where
  "same_card v w w' \<longleftrightarrow> same_files v w w' \<and> same_streams v w w'"

definition same_slots :: "'w ota_view \<Rightarrow> 'w \<Rightarrow> 'w \<Rightarrow> bool" where
  "same_slots o' w w' \<longleftrightarrow> ov_boot o' w' = ov_boot o' w \<and> ov_target o' w' = ov_target o' w \<and> ov_image o' w' = ov_image o' w"

definition ota_laws :: "'w card_view \<Rightarrow> 'w ota_view \<Rightarrow> 'w ota_api \<Rightarrow> bool" where
  "ota_laws v o' a \<longleftrightarrow>
     (\<forall>slot n w h w'. oa_begin a slot n w = (Inr h, w') \<longrightarrow>
        same_card v w w' \<and> ov_boot o' w' = ov_boot o' w \<and> ov_target o' w' = slot \<and> ov_image o' w' = []) \<and>
     (\<forall>slot n w err w'. oa_begin a slot n w = (Inl err, w') \<longrightarrow> err \<noteq> ESP_OK \<and> ov_boot o' w' = ov_boot o' w) \<and>
     (\<forall>h data w err w'. oa_write a h data w = (err, w') \<longrightarrow>
        same_card v w w' \<and> ov_boot o' w' = ov_boot o' w \<and> ov_target o' w' = ov_target o' w \<and> (err = ESP_OK \<longrightarrow> ov_image o' w' = ov_image o' w @ data)) \<and>
     (\<forall>h w err w'. oa_end a h w = (err, w') \<longrightarrow>
        same_slots o' w w' \<and> (err = ESP_OK \<longrightarrow> ov_valid o' (ov_image o' w))) \<and>
     (\<forall>h w. ov_boot o' (snd (oa_abort a h w)) = ov_boot o' w) \<and>
     (\<forall>slot w err w'. oa_set_boot a slot w = (err, w') \<longrightarrow>
        ov_image o' w' = ov_image o' w \<and> ov_target o' w' = ov_target o' w \<and>
        ov_boot o' w' = (if err = ESP_OK then slot else ov_boot o' w))"

text \<open>The calls on the card leave the slots alone.\<close>

definition card_apart :: "'w ota_view \<Rightarrow> 'w vfs \<Rightarrow> 'w stdio \<Rightarrow> bool" where
  "card_apart o' fs io \<longleftrightarrow>
     (\<forall>p w. same_slots o' w (snd (f_open_r io p w))) \<and>
     (\<forall>f w. same_slots o' w (snd (f_close io f w))) \<and>
     (\<forall>p w. same_slots o' w (snd (v_unlink fs p w)))"

end
