(* ===== verification/DemoCard.thy ===== *)
theory DemoCard
  imports CardFiles
begin

text \<open>
  A concrete card and update area with the laws of \<open>CardFiles\<close>, for the witnesses of the
  theorems about commands: files under lower-case names, numbered streams, two boot slots.
\<close>

record card =
  cd_files :: "string \<Rightarrow> bytes option"
  cd_streams :: "int \<Rightarrow> string option"
  cd_next :: int
  cd_boot :: string
  cd_target :: string
  cd_image :: bytes

definition card_file :: "string \<Rightarrow> card \<Rightarrow> bytes option" where
  "card_file q w = (case cd_files w q of None \<Rightarrow> None | Some c \<Rightarrow> if length c < 4294967296 then Some c else None)"

definition card_stream :: "int \<Rightarrow> card \<Rightarrow> string option" where
  "card_stream f w = (if f < cd_next w then cd_streams w f else None)"

definition card_opened :: "string \<Rightarrow> card \<Rightarrow> (errno + int) \<times> card" where
  "card_opened q w =
     (Inr (cd_next w), w\<lparr>cd_streams := (cd_streams w)(cd_next w \<mapsto> q), cd_next := cd_next w + 1\<rparr>)"

definition demo_stdio :: "card stdio" where
  "demo_stdio =
     \<lparr>f_open_r = (\<lambda>p w. if card_file (map tolower p) w = None then (Inl ENOENT, w) else card_opened (map tolower p) w),
      f_open_w = (\<lambda>p w. card_opened (map tolower p) (w\<lparr>cd_files := (cd_files w)(map tolower p \<mapsto> [])\<rparr>)),
      f_read = (\<lambda>f off n w. case card_stream f w of None \<Rightarrow> []
                | Some q \<Rightarrow> (case card_file q w of None \<Rightarrow> [] | Some c \<Rightarrow> take n (drop off c))),
      f_error = (\<lambda>f w. False),
      f_write = (\<lambda>f data w. case card_stream f w of None \<Rightarrow> (0, w)
                 | Some q \<Rightarrow> (case card_file q w of None \<Rightarrow> (0, w)
                     | Some c \<Rightarrow> if length (c @ data) < 4294967296
                                 then (length data, w\<lparr>cd_files := (cd_files w)(q \<mapsto> c @ data)\<rparr>) else (0, w))),
      f_close = (\<lambda>f w. (True, w\<lparr>cd_streams := (cd_streams w)(f := None)\<rparr>))\<rparr>"

definition demo_view :: "card card_view" where
  "demo_view = \<lparr>cv_canon = map tolower, cv_file = card_file, cv_str = card_stream\<rparr>"

lemma card_opened_facts:
  "card_opened q w = (Inr f, w') \<Longrightarrow> opened demo_view f q w w' \<and> (\<forall>r. card_file r w' = card_file r w)"
  by (auto simp: card_opened_def opened_def demo_view_def card_stream_def card_file_def)

lemma card_opened_Inl: "card_opened q w \<noteq> (Inl err, w')"
  by (simp add: card_opened_def)

lemma card_file_upd: "card_file r (w\<lparr>cd_files := (cd_files w)(q \<mapsto> c)\<rparr>) =
  (if r = q then if length c < 4294967296 then Some c else None else card_file r w)"
  by (simp add: card_file_def)

lemma demo_stdio_laws: "stdio_laws demo_view demo_stdio"
proof -
  have "law_open_r demo_view demo_stdio"
    unfolding law_open_r_def
    by (auto simp: demo_stdio_def demo_view_def same_files_def card_opened_Inl dest!: card_opened_facts
        split: if_splits)
  moreover have "law_open_w demo_view demo_stdio"
    unfolding law_open_w_def
    by (simp add: demo_stdio_def demo_view_def card_opened_def opened_def card_stream_def card_file_def)
  moreover have "law_read demo_view demo_stdio"
    unfolding law_read_def by (auto simp: demo_stdio_def demo_view_def card_file_def split: option.splits if_splits)
  moreover have "law_write demo_view demo_stdio"
    unfolding law_write_def
    by (auto simp: demo_stdio_def demo_view_def same_streams_def card_stream_def card_file_upd split: if_splits)
  moreover have "law_close demo_view demo_stdio"
    unfolding law_close_def
    by (auto simp: demo_stdio_def demo_view_def same_files_def card_file_def card_stream_def)
  ultimately show ?thesis by (simp add: stdio_laws_def)
qed

section \<open>The update area\<close>

definition demo_ota :: "card ota_api" where
  "demo_ota =
     \<lparr>oa_sem = True, oa_task = True, oa_slot = (\<lambda>w. Some ''ota_1''), oa_desc_at = 32, oa_desc_len = 256,
      oa_desc = (\<lambda>_. None), oa_begin = (\<lambda>slot n w. (Inr 0, w\<lparr>cd_target := slot, cd_image := []\<rparr>)),
      oa_write = (\<lambda>h data w. (ESP_OK, w\<lparr>cd_image := cd_image w @ data\<rparr>)),
      oa_end = (\<lambda>h w. (if take 1 (cd_image w) = [0xE9] then ESP_OK else ESP_FAIL, w)),
      oa_abort = (\<lambda>h w. ((), w)), oa_set_boot = (\<lambda>slot w. (ESP_OK, w\<lparr>cd_boot := slot\<rparr>)),
      oh_begin = (\<lambda>url w. (Inl ESP_FAIL, w)), oh_desc = (\<lambda>h w. Inl ESP_FAIL), oh_size = (\<lambda>h w. 0),
      oh_perform = (\<lambda>h w. (([], ESP_FAIL), w)), oh_complete = (\<lambda>h w. False), oh_finish = (\<lambda>h w. (ESP_FAIL, w)),
      oh_abort = (\<lambda>h w. ((), w))\<rparr>"

definition demo_slots :: "card ota_view" where
  "demo_slots = \<lparr>ov_boot = cd_boot, ov_target = cd_target, ov_image = cd_image, ov_valid = (\<lambda>c. take 1 c = [0xE9])\<rparr>"

lemma demo_ota_laws: "ota_laws demo_view demo_slots demo_ota"
  by (auto simp: ota_laws_def demo_ota_def demo_slots_def demo_view_def same_card_def same_files_def same_streams_def
      same_slots_def card_file_def card_stream_def)

section \<open>The rest of the world\<close>

definition demo_vfs :: "card vfs" where
  "demo_vfs =
     \<lparr>v_open = (\<lambda>p fl w. (Inl EACCES, w)), v_read = (\<lambda>f n w. (Inl EBADF, w)), v_write = (\<lambda>f d w. (Inl EBADF, w)),
      v_close = (\<lambda>f w. w), v_lseek = (\<lambda>f o' s w. (Inl EBADF, w)),
      v_stat = (\<lambda>p w. case card_file (map tolower p) w of None \<Rightarrow> Inl ENOENT
                 | Some c \<Rightarrow> Inr \<lparr>st_mode = 0x8000, st_size = int (length c), st_mtime = 0\<rparr>),
      v_mkdir = (\<lambda>p w. (Some EACCES, w)), v_rmdir = (\<lambda>p w. (Some EACCES, w)),
      v_unlink = (\<lambda>p w. (None, w\<lparr>cd_files := (cd_files w)(map tolower p := None)\<rparr>)),
      v_rename = (\<lambda>a b w. (Some EACCES, w)), v_opendir = (\<lambda>p w. (Inl ENOENT, w)), v_closedir = (\<lambda>d w. w)\<rparr>"

lemma demo_card_apart: "card_apart demo_slots demo_vfs demo_stdio"
  by (simp add: card_apart_def demo_vfs_def demo_stdio_def demo_slots_def same_slots_def card_opened_def)

definition demo_sh_env :: "card sh_env" where
  "demo_sh_env =
     \<lparr>x_fs = demo_vfs, x_io = demo_stdio,
      x_nvs = \<lparr>nvs_flash_init = (\<lambda>s. (NVS_OK, s)), nvs_flash_erase = (\<lambda>s. (NVS_OK, s)), nvs_open_ro = (\<lambda>s. NVS_NOT_FOUND),
               nvs_open_rw = (\<lambda>s. (NVS_ERROR, s)), nvs_get = (\<lambda>s k. None), nvs_set = (\<lambda>s k x. (NVS_ERROR, s)),
               nvs_commit = (\<lambda>s. (NVS_ERROR, s)), nvs_erase_all = (\<lambda>s. (NVS_ERROR, s))\<rparr>,
      x_wifi = \<lparr>w_set_config = (\<lambda>s p a w. (ESP_OK, w)), w_start = (\<lambda>w. (ESP_OK, w)), w_stop = (\<lambda>w. w), w_connect = (\<lambda>w. w),
                w_disconnect = (\<lambda>w. w), w_set_hostname = (\<lambda>n w. w), w_ap = (\<lambda>w. None),
                w_sntp_init = (\<lambda>w. (ESP_OK, w)), w_setenv_tz = (\<lambda>z w. w)\<rparr>,
      x_remote = \<lparr>r_open = (\<lambda>u c t w. (Inl ESP_FAIL, w)), r_size = (\<lambda>f w. 0), r_read = (\<lambda>f o' n w. ((ESP_FAIL, []), w)),
                  r_write = (\<lambda>f o' d w. (ESP_FAIL, w)), r_close = (\<lambda>f w. w), r_list = (\<lambda>u w. ((ESP_FAIL, []), w))\<rparr>,
      x_http = (\<lambda>u w. (\<lparr>hr_init = False, hr_data = [], hr_result = ESP_FAIL, hr_status = 0\<rparr>, w)),
      x_ota = demo_ota,
      x_sys = \<lparr>sy_idf = ''v5.5'', sy_revision = 301, sy_cores = 2, sy_mac = replicate 6 0, sy_uptime_us = (\<lambda>w. 0),
               sy_heap = (\<lambda>w. 0), sy_min_heap = (\<lambda>w. 0), sy_reset = ESP_RST_POWERON\<rparr>,
      x_disk = (\<lambda>net w. demo_env), x_strerror = (\<lambda>err. ''error''), x_errname = (\<lambda>err. ''error''),
      x_log_level = (\<lambda>l w. w), x_now = (\<lambda>w. None), x_fdc_task = True, x_loopback = (\<lambda>st. st)\<rparr>"

lemma demo_sh_env_parts [simp]:
  "x_fs demo_sh_env = demo_vfs" "x_io demo_sh_env = demo_stdio" "x_ota demo_sh_env = demo_ota"
  "x_disk demo_sh_env net w = demo_env"
  by (simp_all add: demo_sh_env_def)

definition demo_card :: "(string \<times> bytes) list \<Rightarrow> card" where
  "demo_card fs = \<lparr>cd_files = map_of fs, cd_streams = (\<lambda>_. None), cd_next = 3, cd_boot = ''ota_0'', cd_target = [], cd_image = []\<rparr>"

end
