(* ===== verification/BatchProps.thy ===== *)
theory BatchProps
  imports CommandFrame DemoCard
begin

text \<open>
  Batch files nest at most four deep, put back the console's depth and the working folder, and
  return: a dispatcher with more levels does the same as the one with five, and every line ends.
\<close>

section \<open>What a run leaves behind\<close>

definition put_back :: "'w shell \<Rightarrow> 'w shell \<Rightarrow> bool" where
  "put_back sh sh' \<longleftrightarrow> sh_restarted sh' \<or> frame sh' = frame sh"

definition cwd_fits :: "'w shell \<Rightarrow> bool" where
  "cwd_fits sh \<longleftrightarrow> length (sh_cwd sh) < CONFIG_FILE_CAP"

definition tame :: "(string \<Rightarrow> 'w shell \<Rightarrow> 'w shell) \<Rightarrow> bool" where
  "tame disp \<longleftrightarrow> (\<forall>line sh. cwd_fits sh \<longrightarrow> put_back sh (disp line sh))"

lemma same_frame:
  assumes "frame sh' = frame sh"
  shows "cn_depth (sh_con sh') = cn_depth (sh_con sh)" "sh_cwd sh' = sh_cwd sh" "cwd_fits sh' = cwd_fits sh"
proof -
  from assms have "cn_depth (fst (frame sh')) = cn_depth (fst (frame sh))" "snd (frame sh') = snd (frame sh)"
    by simp_all
  then show "cn_depth (sh_con sh') = cn_depth (sh_con sh)" "sh_cwd sh' = sh_cwd sh" "cwd_fits sh' = cwd_fits sh"
    by (simp_all add: frame_def cwd_fits_def)
qed

lemma batch_loop_stops: "sh_restarted sh \<Longrightarrow> batch_loop io f disp pos sh = sh"
  by (simp add: batch_loop.simps Let_def)

lemma batch_line_ran:
  assumes "tame disp" "cwd_fits sh"
  shows "put_back sh (batch_line disp line sh)"
proof -
  let ?p = "dropWhile blank (strip_eol line)"
  have f: "frame (sayf (?p @ crlf) sh) = frame sh" by (simp add: frame_printed)
  moreover have "put_back (sayf (?p @ crlf) sh) (disp (?p @ [NUL]) (sayf (?p @ crlf) sh))"
    using assms same_frame(3)[OF f] by (auto simp: tame_def)
  ultimately show ?thesis by (auto simp: batch_line_def put_back_def Let_def)
qed

section \<open>The loop over the lines\<close>

text \<open>One turn of the loop: where it goes on, unless it ends.\<close>

definition batch_next :: "'w stdio \<Rightarrow> int \<Rightarrow> (string \<Rightarrow> 'w shell \<Rightarrow> 'w shell) \<Rightarrow> nat \<Rightarrow> 'w shell \<Rightarrow> (nat \<times> 'w shell) option" where
  "batch_next io f disp pos sh =
     (let raw = get_line io f pos (sh_ext sh); line = cstr raw 0; pos' = pos + length raw
      in if sh_restarted sh \<or> raw = [] then None
         else if \<not> (line \<noteq> [] \<and> last line = LF)
         then Some (discard io f pos' (sh_ext sh), say (''exec: line too long, skipped'' @ crlf) sh)
         else Some (pos', batch_line disp line sh))"

lemma batch_loop_next:
  "batch_loop io f disp pos sh =
     (case batch_next io f disp pos sh of None \<Rightarrow> sh | Some (p, s) \<Rightarrow> batch_loop io f disp p s)"
  by (subst batch_loop.simps) (simp add: batch_next_def Let_def)

lemma batch_induct:
  assumes "\<And>pos sh. (\<And>p s. batch_next io f disp pos sh = Some (p, s) \<Longrightarrow> P p s) \<Longrightarrow> P pos sh"
  shows "P pos sh"
proof (induction "4294967296 - pos" arbitrary: pos sh rule: less_induct)
  case (less pos sh)
  have "4294967296 - p < 4294967296 - pos" if "batch_next io f disp pos sh = Some (p, s)" for p s
    using that get_line_advances[of io f pos "sh_ext sh"]
      discard_ge[of "pos + length (get_line io f pos (sh_ext sh))" io f "sh_ext sh"]
    by (auto simp: batch_next_def Let_def split: if_splits)
  with less show ?case by (blast intro: assms)
qed

lemma batch_next_ran:
  assumes "tame disp" "cwd_fits sh" "batch_next io f disp pos sh = Some (p, s)"
  shows "put_back sh s"
  using assms(3) batch_line_ran[OF assms(1,2)]
  by (auto simp: batch_next_def Let_def put_back_def frame_printed split: if_splits)

lemma batch_loop_ran:
  assumes "tame disp"
  shows "cwd_fits sh \<Longrightarrow> put_back sh (batch_loop io f disp pos sh)"
proof (induction pos sh rule: batch_induct[where io = io and f = f and disp = disp])
  case (1 pos sh)
  show ?case
  proof (cases "batch_next io f disp pos sh")
    case None
    then show ?thesis by (simp add: batch_loop_next put_back_def)
  next
    case (Some q)
    then obtain p s where q: "batch_next io f disp pos sh = Some (p, s)" by (cases q) simp
    from batch_next_ran[OF assms 1(2) q] consider "sh_restarted s" | "frame s = frame sh" by (auto simp: put_back_def)
    then show ?thesis
    proof cases
      case 1
      with q show ?thesis by (simp add: batch_loop_next[of _ _ _ pos] batch_loop_stops put_back_def)
    next
      case 2
      with 1 q same_frame[OF 2] show ?thesis by (simp add: batch_loop_next[of _ _ _ pos] put_back_def)
    qed
  qed
qed

text \<open>Two dispatchers that agree at one depth run a batch file at that depth alike.\<close>

definition agree :: "nat \<Rightarrow> (string \<Rightarrow> 'w shell \<Rightarrow> 'w shell) \<Rightarrow> (string \<Rightarrow> 'w shell \<Rightarrow> 'w shell) \<Rightarrow> bool" where
  "agree d disp disp' \<longleftrightarrow>
     (\<forall>line sh. cn_depth (sh_con sh) = d \<and> cwd_fits sh \<longrightarrow> disp' line sh = disp line sh)"

lemma batch_loop_agree:
  assumes "tame disp" "agree d disp disp'"
  shows "cwd_fits sh \<Longrightarrow> cn_depth (sh_con sh) = d \<Longrightarrow> batch_loop io f disp' pos sh = batch_loop io f disp pos sh"
proof (induction pos sh rule: batch_induct[where io = io and f = f and disp = disp])
  case (1 pos sh)
  let ?l = "cstr (get_line io f pos (sh_ext sh)) 0"
  let ?p = "dropWhile blank (strip_eol ?l)"
  have "frame (sayf (?p @ crlf) sh) = frame sh" by (simp add: frame_printed)
  from same_frame[OF this] have "batch_line disp' ?l sh = batch_line disp ?l sh"
    using assms(2) 1(2,3) by (simp add: batch_line_def Let_def agree_def)
  then have same: "batch_next io f disp' pos sh = batch_next io f disp pos sh"
    by (simp add: batch_next_def Let_def)
  show ?case
  proof (cases "batch_next io f disp pos sh")
    case None
    with same show ?thesis by (simp add: batch_loop_next)
  next
    case (Some q)
    then obtain p s where q: "batch_next io f disp pos sh = Some (p, s)" by (cases q) simp
    from batch_next_ran[OF assms(1) 1(2) q] consider "sh_restarted s" | "frame s = frame sh" by (auto simp: put_back_def)
    then show ?thesis
    proof cases
      case 1
      with q same show ?thesis by (simp add: batch_loop_next[of _ _ _ pos] batch_loop_stops)
    next
      case 2
      with 1 q same same_frame[OF 2] show ?thesis by (simp add: batch_loop_next[of _ _ _ pos])
    qed
  qed
qed

section \<open>A batch file\<close>

lemma entered:
  "cwd_fits (upd_con (\<lambda>c. c\<lparr>cn_depth := cn_depth c + 1\<rparr>) (sh\<lparr>sh_cwd := batch_dir_of path CONFIG_FILE_CAP\<rparr>))"
  "cn_depth (sh_con (upd_con (\<lambda>c. c\<lparr>cn_depth := cn_depth c + 1\<rparr>) (sh\<lparr>sh_cwd := d\<rparr>))) = cn_depth (sh_con sh) + 1"
  by (simp_all add: cwd_fits_def batch_dir_of_def upd_con_def Let_def)

lemma frame_left:
  assumes "frame r = frame (upd_con (\<lambda>c. c\<lparr>cn_depth := cn_depth c + 1\<rparr>) (sh\<lparr>sh_cwd := d\<rparr>))" "cwd_fits sh"
  shows "frame ((upd_con (\<lambda>c. c\<lparr>cn_depth := cn_depth c - 1\<rparr>) r)\<lparr>sh_cwd := take (CONFIG_FILE_CAP - 1) (sh_cwd sh)\<rparr>) = frame sh"
  using assms by (cases "sh_con r"; cases "sh_con sh") (simp add: frame_def upd_con_def cwd_fits_def)

lemma run_file_ran:
  assumes "tame disp" "cwd_fits sh"
  shows "put_back sh (run_batch_file e disp path sh)"
proof -
  obtain r s where o: "call (f_open_r (x_io e) path) sh = (r, s)" by (cases "call (f_open_r (x_io e) path) sh")
  with frame_call[of "f_open_r (x_io e) path" sh] have f: "frame s = frame sh" by simp
  have "frame (snd (call (f_close (x_io e) x) t)) = frame t" for x t
    by (rule frame_call)
  with o f batch_loop_ran[OF assms(1), of s "x_io e" _ 0] same_frame(3)[OF f] assms(2) show ?thesis
    by (cases r) (auto simp: run_batch_file_def put_back_def frame_printed Let_def)
qed

lemma run_file_agree:
  assumes "tame disp" "agree d disp disp'" "cwd_fits sh" "cn_depth (sh_con sh) = d"
  shows "run_batch_file e disp' path sh = run_batch_file e disp path sh"
proof -
  obtain r s where o: "call (f_open_r (x_io e) path) sh = (r, s)" by (cases "call (f_open_r (x_io e) path) sh")
  with frame_call[of "f_open_r (x_io e) path" sh] have f: "frame s = frame sh" by simp
  with o same_frame[OF f] assms batch_loop_agree[OF assms(1,2), of s "x_io e" _ 0] show ?thesis
    by (cases r) (simp_all add: run_batch_file_def)
qed

lemma batch_path_ran:
  assumes "tame disp" "cwd_fits sh"
  shows "put_back sh (batch_exec_path e disp path sh)"
proof -
  let ?in = "upd_con (\<lambda>c. c\<lparr>cn_depth := cn_depth c + 1\<rparr>) (sh\<lparr>sh_cwd := batch_dir_of path CONFIG_FILE_CAP\<rparr>)"
  let ?r = "run_batch_file e disp path ?in"
  have "put_back ?in ?r" using run_file_ran[OF assms(1) entered(1)] .
  moreover have "frame ?r = frame ?in \<Longrightarrow>
      frame ((upd_con (\<lambda>c. c\<lparr>cn_depth := cn_depth c - 1\<rparr>) ?r)\<lparr>sh_cwd := take (CONFIG_FILE_CAP - 1) (sh_cwd sh)\<rparr>) = frame sh"
    by (erule frame_left[OF _ assms(2)])
  ultimately show ?thesis
    by (auto simp: batch_exec_path_def put_back_def frame_printed Let_def upd_con_def)
qed

lemma batch_path_agree:
  assumes "tame disp" "agree (cn_depth (sh_con sh) + 1) disp disp'"
  shows "batch_exec_path e disp' path sh = batch_exec_path e disp path sh"
  using run_file_agree[OF assms entered] by (simp add: batch_exec_path_def Let_def)

lemma batch_path_full:
  "cn_depth (sh_con sh) \<ge> BATCH_MAX_DEPTH \<Longrightarrow> batch_exec_path e disp' path sh = batch_exec_path e disp path sh"
  by (simp add: batch_exec_path_def)

section \<open>The dispatcher\<close>

lemma exec_ran:
  assumes "tame disp" "cwd_fits sh"
  shows "put_back sh (snd (cmd_exec e disp args sh))" "put_back sh (snd (cli_try_autorun e disp name sh))"
  using batch_path_ran[OF assms]
  by (auto simp: cmd_exec_def cli_exec_batch_def cli_try_autorun_def put_back_def frame_printed split: option.splits)

lemma commands_ran:
  assumes "tame disp" "cwd_fits sh"
  shows "put_back sh (snd (commands e disp c args sh))"
  using exec_ran(1)[OF assms, of e args] frame_commands[of c e disp args sh]
  by (cases "c = Exec") (simp_all add: put_back_def)

lemma cli_dispatch_ran:
  assumes "tame disp" "cwd_fits sh"
  shows "put_back sh (cli_dispatch table (commands e disp) (cli_try_autorun e disp) line sh)"
proof (cases "cli_args line")
  case Nil
  then show ?thesis by (simp add: cli_dispatch_def put_back_def)
next
  case (Cons tok rest)
  show ?thesis
  proof (cases "cli_match table tok")
    case NoCommand
    obtain b s where a: "cli_try_autorun e disp tok sh = (b, s)" by (cases "cli_try_autorun e disp tok sh")
    with exec_ran(2)[OF assms, of e tok] have "put_back sh s" by simp
    moreover have "\<not> b \<Longrightarrow> s = sh" using a by (auto simp: cli_try_autorun_def split: option.splits)
    ultimately show ?thesis using a Cons NoCommand
      by (cases b) (simp_all add: cli_dispatch_def put_back_def frame_printed)
  next
    case Ambiguous
    with Cons show ?thesis by (simp add: cli_dispatch_def put_back_def frame_printed)
  next
    case (Found t)
    with Cons commands_ran[OF assms, of e "cm_fn t" "tok # rest"] show ?thesis by (simp add: cli_dispatch_def)
  qed
qed

lemma dispatch_tame: "tame (cli_levels e n)"
proof (induction n)
  case 0
  show ?case by (simp add: tame_def put_back_def)
next
  case (Suc n)
  show ?case using cli_dispatch_ran[OF Suc] unfolding cli_levels.simps tame_def by blast
qed

lemma batch_same:
  assumes "batch_exec_path e disp' = batch_exec_path e disp"
  shows "cli_try_autorun e disp' = cli_try_autorun e disp" "cmd_exec e disp' = cmd_exec e disp"
  using assms by (auto simp: fun_eq_iff cli_try_autorun_def cmd_exec_def cli_exec_batch_def split: option.splits)

lemma commands_other: "c \<noteq> Exec \<Longrightarrow> commands e disp' c = commands e disp c"
  by (cases c) simp_all

lemma cli_dispatch_same:
  assumes "\<And>path. batch_exec_path e disp' path sh = batch_exec_path e disp path sh"
  shows "cli_dispatch table (commands e disp') (cli_try_autorun e disp') line sh =
         cli_dispatch table (commands e disp) (cli_try_autorun e disp) line sh"
proof -
  have "cli_try_autorun e disp' tok sh = cli_try_autorun e disp tok sh" for tok
    using assms by (simp add: cli_try_autorun_def split: option.splits)
  moreover have "commands e disp' c args sh = commands e disp c args sh" for c args
    using assms commands_other[of c e disp' disp]
    by (cases "c = Exec") (simp_all add: cmd_exec_def cli_exec_batch_def split: option.splits)
  ultimately show ?thesis by (simp add: cli_dispatch_def split: list.splits cli_found.splits)
qed

lemma dispatch_levels: "d \<le> BATCH_MAX_DEPTH \<Longrightarrow> BATCH_MAX_DEPTH + 1 \<le> d + n \<Longrightarrow> agree d (cli_levels e n) (cli_levels e (Suc n))"
proof (induction n arbitrary: d)
  case (Suc n)
  show ?case
    unfolding agree_def
  proof (intro allI impI)
    fix line and sh :: "'a shell"
    assume sh: "cn_depth (sh_con sh) = d \<and> cwd_fits sh"
    have "batch_exec_path e (cli_levels e (Suc n)) path sh = batch_exec_path e (cli_levels e n) path sh" for path
    proof (cases "d = BATCH_MAX_DEPTH")
      case True
      with sh show ?thesis by (intro batch_path_full) simp
    next
      case False
      with Suc have "agree (d + 1) (cli_levels e n) (cli_levels e (Suc n))" by simp
      with sh show ?thesis by (intro batch_path_agree dispatch_tame) simp
    qed
    then show "cli_levels e (Suc (Suc n)) line sh = cli_levels e (Suc n) line sh"
      unfolding cli_levels.simps(2)[of e "Suc n"] cli_levels.simps(2)[of e n] by (rule cli_dispatch_same)
  qed
qed simp

lemma dispatch_enough:
  assumes "cn_depth (sh_con sh) \<le> BATCH_MAX_DEPTH" "cwd_fits sh"
  shows "cli_levels e (BATCH_MAX_DEPTH + 1 + k) line sh = cli_line e line sh"
proof (induction k)
  case (Suc k)
  have "agree (cn_depth (sh_con sh)) (cli_levels e (BATCH_MAX_DEPTH + 1 + k)) (cli_levels e (Suc (BATCH_MAX_DEPTH + 1 + k)))"
    by (rule dispatch_levels[OF assms(1)]) simp
  with Suc assms(2) show ?case by (simp add: agree_def)
qed (simp add: cli_line_def)

section \<open>The property\<close>

text \<open>
  C33. Every line of the command line ends, however batch files call each other: five levels of
  dispatcher are all it takes, more compute the same. When it is over the nesting depth, the
  working folder and the line editor are as before, whatever the batch files did, unless
  the device was restarted.
\<close>

theorem batch_nesting_ends:
  assumes "cn_depth (sh_con sh) \<le> BATCH_MAX_DEPTH" "length (sh_cwd sh) < CONFIG_FILE_CAP"
  shows "cli_levels e (BATCH_MAX_DEPTH + 1 + k) line sh = cli_line e line sh \<and>
    (let sh' = cli_line e line sh
     in sh_restarted sh' \<or>
        (cn_depth (sh_con sh') = cn_depth (sh_con sh) \<and> sh_cwd sh' = sh_cwd sh \<and>
         cn_buf (sh_con sh') = cn_buf (sh_con sh) \<and> cn_len (sh_con sh') = cn_len (sh_con sh) \<and>
         cn_network (sh_con sh') = cn_network (sh_con sh)))"
proof -
  have fits: "cwd_fits sh" using assms(2) by (simp add: cwd_fits_def)
  then have "put_back sh (cli_line e line sh)" using dispatch_tame by (auto simp: tame_def cli_line_def)
  then show ?thesis
    using dispatch_enough[OF assms(1) fits, of e k line]
    by (cases "sh_con sh"; cases "sh_con (cli_line e line sh)") (auto simp: put_back_def frame_def Let_def)
qed

text \<open>The witness: a batch file that runs itself.\<close>

definition loop_shell :: "card shell" where
  "loop_shell = demo_shell (demo_card [(''/sd/loop.bat'', map (\<lambda>c. of_nat (of_char c)) (''exec loop'' @ [LF]))])"

theorem batch_nesting_ends_witness:
  "cli_levels demo_sh_env 8 (''exec loop'' @ [NUL]) loop_shell = cli_line demo_sh_env (''exec loop'' @ [NUL]) loop_shell \<and>
   (let sh' = cli_line demo_sh_env (''exec loop'' @ [NUL]) loop_shell in sh_restarted sh' \<or> cn_depth (sh_con sh') = 0)"
proof -
  have "cn_depth (sh_con loop_shell) = 0" "sh_cwd loop_shell = []"
    by (simp_all add: loop_shell_def demo_shell_def cli_console_init_def)
  with batch_nesting_ends[of loop_shell demo_sh_env 3 "''exec loop'' @ [NUL]"] show ?thesis
    by (auto simp: Let_def)
qed

end
