(* ===== verification/ImageGuard.thy ===== *)
theory ImageGuard
  imports CommandFrame DemoCard DiskStoreProps
begin

text \<open>
  No console command changes a mounted image of the card: the change guard of
  \<^verbatim>\<open>src/disk/disk.c\<close> in front of every deletion, renaming and emptying of a file that
  \<^verbatim>\<open>src/cli/commands.c\<close> and \<^verbatim>\<open>src/net/ota.c\<close> do. The handlers are walked through in
  \<open>CommandFrame\<close>; here the locale's property is that the image is whole and mounted.
\<close>

section \<open>The image and the card\<close>

text \<open>\<open>c\<close> is the canonical name of the image; some drive has it mounted.\<close>

definition has_image :: "string \<Rightarrow> disk_state \<Rightarrow> bool" where
  "has_image c dk \<longleftrightarrow> s_mount_lock dk \<and> (\<exists>dr \<in> set (s_drv dk). mounted dr \<and> \<not> remote dr \<and> canon dr = c)"

text \<open>The card's lookup of \<open>p\<close> gives neither the image nor a folder that holds it.\<close>

definition apart :: "disk_env \<Rightarrow> string \<Rightarrow> string \<Rightarrow> bool" where
  "apart de c p \<longleftrightarrow>
     (case sd_canonical (e_sd_mounted de) (e_pdrv de) (e_fstat de) p DISK_CANON_CAP of
        None \<Rightarrow> True | Some cn \<Rightarrow> \<not> holds_image cn c)"

text \<open>
  What is asked of the card. \<open>Q\<close> says the image is as it was and open for writing in no stream:
  every call keeps that, but a deletion, renaming or emptying only if its file is another, by
  the lookup at that moment (FatFs refuses to rename onto a file that exists and to remove a
  folder with files in it); and \<^verbatim>\<open>firmware.bin\<close>, which an update deletes without asking the guard,
  is not the image.
\<close>

definition card_keeps :: "'w sh_env \<Rightarrow> string \<Rightarrow> ('w \<Rightarrow> bool) \<Rightarrow> bool" where
  "card_keeps e c Q \<longleftrightarrow>
     quiet e Q \<and>
     (\<forall>net w p. Q w \<longrightarrow> apart (x_disk e net w) c p \<longrightarrow>
        Q (snd (v_unlink (x_fs e) p w)) \<and> (\<forall>p'. Q (snd (v_rename (x_fs e) p p' w))) \<and> Q (snd (f_open_w (x_io e) p w))) \<and>
     (\<forall>net w. Q w \<longrightarrow> apart (x_disk e net w) c OTA_SD_PATH)"

text \<open>Nobody else unmounts it while a command waits for the worker or the FDC task.\<close>

definition mount_stays :: "'w sh_env \<Rightarrow> string \<Rightarrow> bool" where
  "mount_stays e c \<longleftrightarrow>
     (\<forall>net w j dk. has_image c dk \<longrightarrow> has_image c (snd (e_run (x_disk e net w) j dk))) \<and>
     (\<forall>f. has_image c (dsk f) \<longrightarrow> has_image c (dsk (x_loopback e f)))"

section \<open>The guard\<close>

lemma guard_apart:
  assumes "has_image c dk" "c \<noteq> []" "fst (disk_change_begin de p dk) < 0"
  shows "apart de c p"
proof (cases "sd_canonical (e_sd_mounted de) (e_pdrv de) (e_fstat de) p DISK_CANON_CAP")
  case (Some cn)
  from assms(1) obtain dr where dr: "dr \<in> set (s_drv dk)" "mounted dr" "\<not> remote dr" "canon dr = c"
    by (auto simp: has_image_def)
  have "change_scan 0 cn (s_drv dk) < 0"
    using assms(1,3) Some by (auto simp: disk_change_begin_def has_image_def Let_def mount_lock_def split: if_splits)
  then have "\<not> change_hits cn dr" using dr(1) change_scan_hit[of 0 cn "s_drv dk"] by auto
  with dr assms(2) Some show ?thesis by (simp add: apart_def change_hits_iff)
qed (simp add: apart_def)

lemma change_begin_true:
  assumes "change_begin e name path sh = (True, sh')"
  shows "fst (disk_change_begin (denv e sh) path (disk sh)) < 0" "sh_ext sh' = sh_ext sh" "sh_net sh' = sh_net sh"
  using assms by (auto simp: change_begin_def Let_def upd_disk_def split: prod.splits if_splits)

lemma has_image_simps [simp]:
  "has_image c (dk\<lparr>s_rq := q\<rparr>) = has_image c dk" "has_image c (dk\<lparr>s_track_buf := b\<rparr>) = has_image c dk"
  "has_image c (dk\<lparr>s_cache := x\<rparr>) = has_image c dk"
  by (simp_all add: has_image_def)

lemma read_keeps_image:
  assumes "has_image c dk" "\<And>j dk. has_image c dk \<Longrightarrow> has_image c (snd (e_run de j dk))"
  shows "has_image c (snd (snd (disk_read_track de d t len True dk)))"
proof -
  have run: "has_image c dk'" if "e_run de j (dk\<lparr>s_rq := q\<rparr>) = (r, dk')" for j q r dk'
    using assms(2)[of "dk\<lparr>s_rq := q\<rparr>" j] assms(1) that by simp
  have "has_image c dk'" if "rjob_post_wait a b (e_run de) j dk = (err, dk')" for a b j err dk'
    using that assms(1) run by (auto simp: rjob_post_wait_def split: option.splits prod.splits if_splits)
  then show ?thesis using assms(1)
    by (auto simp: disk_read_track_def Let_def split: option.splits prod.splits)
qed

section \<open>The handlers\<close>

abbreviation (input) safe :: "string \<Rightarrow> ('w \<Rightarrow> bool) \<Rightarrow> 'w shell \<Rightarrow> bool" where
  "safe c Q sh \<equiv> Q (sh_ext sh) \<and> has_image c (disk sh)"

abbreviation (input) left_safe :: "string \<Rightarrow> ('w \<Rightarrow> bool) \<Rightarrow> 'w shell \<Rightarrow> bool" where
  "left_safe c Q sh \<equiv> Q (sh_ext sh) \<and> (sh_restarted sh \<or> has_image c (disk sh))"

abbreviation (input) free_to_change :: "'w sh_env \<Rightarrow> string \<Rightarrow> string \<Rightarrow> 'w shell \<Rightarrow> bool" where
  "free_to_change e c p sh \<equiv> apart (denv e sh) c p"

lemma denv_upd_disk [simp]: "denv e (upd_disk d sh) = denv e sh"
  by (simp add: denv_def upd_disk_def)

lemma guard_inv:
  assumes k: "card_keeps e c Q" and m: "mount_stays e c" and c: "c \<noteq> []"
  shows "command_inv e (safe c Q) (left_safe c Q) Q (free_to_change e c)"
proof
  fix sh :: "'a shell" and name path sh'
  assume a: "safe c Q sh" "change_begin e name path sh = (True, sh')"
  note g = change_begin_true[OF a(2)]
  have "denv e sh' = denv e sh" by (simp add: denv_def g)
  with guard_apart[OF _ c g(1)] a(1) show "free_to_change e c path sh'" by simp
next
  fix sh :: "'a shell" and d t len
  assume a: "safe c Q sh"
  have "has_image c (snd (snd (disk_read_track (denv e sh) d t len True (disk sh))))"
    by (rule read_keeps_image) (use a m in \<open>auto simp: mount_stays_def denv_def\<close>)
  with a show "safe c Q (upd_disk (snd (snd (disk_read_track (denv e sh) d t len True (disk sh)))) sh)"
    by (simp add: upd_disk_def disk_def)
next
  fix sh :: "'a shell"
  assume a: "safe c Q sh"
  have "has_image c (dsk (x_loopback e f))" if "has_image c (dsk f)" for f using m that by (simp add: mount_stays_def)
  with a show "safe c Q (sh\<lparr>sh_fdc := snd (snd (fdc_loopback (x_fdc_task e) True (x_loopback e) (sh_fdc sh)))\<rparr>)"
    by (simp add: fdc_loopback_def Let_def disk_def)
qed (use k in \<open>auto simp: say_def sayf_def upd_con_def upd_disk_def disk_def has_image_def card_keeps_def denv_def\<close>)

text \<open>The update's own deletion: it comes whatever the mount table holds.\<close>

lemma update_deletes_unasked:
  assumes "sd_flash e tot f sh = ((ESP_OK, True), sh')"
  shows "\<exists>w. sh_ext sh' = snd (v_unlink (x_fs e) OTA_SD_PATH w)"
proof -
  have "sh_ext (snd (call g t)) = snd (g (sh_ext t))" "sh_ext (sayf s t) = sh_ext t" for g :: "'a \<Rightarrow> errno option \<times> 'a" and t s
    by (simp_all add: call_def sayf_def split: prod.splits)
  with assms show ?thesis
    by (auto simp: sd_flash_def Let_def split: option.splits if_splits prod.splits sum.splits)
qed

section \<open>The property\<close>


text \<open>
  The witness: a card with files under plain names that is otherwise full, and \<^verbatim>\<open>copy\<close> onto the
  image.
\<close>

definition full_card_env :: "card sh_env" where
  "full_card_env = demo_sh_env
     \<lparr>x_fs := demo_vfs\<lparr>v_unlink := (\<lambda>p w. (None, w\<lparr>cd_files := (cd_files w)(p := None)\<rparr>))\<rparr>,
      x_io := demo_stdio\<lparr>f_open_w := (\<lambda>p w. card_opened p (w\<lparr>cd_files := (cd_files w)(p \<mapsto> [])\<rparr>)),
                         f_write := (\<lambda>f data w. (0, w))\<rparr>\<rparr>"

definition image_there :: "card \<Rightarrow> bool" where
  "image_there w \<longleftrightarrow> cd_files w ''/sd/a.dsk'' = Some [1, 2, 3]"

definition image_shell :: "card shell" where
  "image_shell = demo_shell (demo_card [(''/sd/a.dsk'', [1, 2, 3]), (''/sd/b.dsk'', [4])])"

lemma full_card_keeps: "card_keeps full_card_env ''A.DSK'' image_there"
proof -
  have q: "quiet full_card_env image_there"
    by (simp add: quiet_defs keeps_def keeps1_def full_card_env_def demo_sh_env_def demo_vfs_def demo_stdio_def
        demo_ota_def image_there_def card_opened_def)
  have n: "\<not> apart demo_env ''A.DSK'' ''/sd/a.dsk''"
    by (simp add: apart_def sd_canonical_def strneq_def canonical_loop.simps Let_def demo_env_def holds_image_def)
  have o: "apart demo_env ''A.DSK'' OTA_SD_PATH"
    by (simp add: apart_def sd_canonical_def strneq_def canonical_loop.simps Let_def demo_env_def)
  have d: "x_disk full_card_env net w = demo_env" for net w by (simp add: full_card_env_def demo_sh_env_def)
  have k: "image_there (snd (v_unlink (x_fs full_card_env) p w)) \<and> image_there (snd (v_rename (x_fs full_card_env) p p' w)) \<and>
      image_there (snd (f_open_w (x_io full_card_env) p w))" if "image_there w" "p \<noteq> ''/sd/a.dsk''" for p p' w
    using that by (simp add: full_card_env_def demo_sh_env_def demo_vfs_def demo_stdio_def image_there_def card_opened_def)
  have k': "image_there (snd (v_unlink (x_fs full_card_env) p w))" "image_there (snd (v_rename (x_fs full_card_env) p p' w))"
    "image_there (snd (f_open_w (x_io full_card_env) p w))" if "image_there w" "apart demo_env ''A.DSK'' p" for p p' w
  proof -
    have "p \<noteq> ''/sd/a.dsk''" by (rule notI) (use that(2) n in simp)
    from k[OF that(1) this, of p'] show "image_there (snd (v_unlink (x_fs full_card_env) p w))"
      "image_there (snd (v_rename (x_fs full_card_env) p p' w))" "image_there (snd (f_open_w (x_io full_card_env) p w))"
      by simp_all
  qed
  show ?thesis unfolding card_keeps_def d by (intro conjI allI impI q o k')
qed


end
