(* ===== verification/CopyProps.thy ===== *)
theory CopyProps
  imports DemoCard CommandFrame
begin

text \<open>
  What \<open>copy\<close> between files of the card does, on the laws of stdio: a copy that reports success
  has made the destination equal to the source and touched nothing else, unless the two names
  are the same file, which it empties.
\<close>

section \<open>The world during the commands\<close>

lemma ext_simps [simp]:
  "sh_ext (say s sh) = sh_ext sh" "sh_ext (sayf s sh) = sh_ext sh" "sh_ext (upd_disk d sh) = sh_ext sh"
  "sh_ext (change_end sh) = sh_ext sh" "sh_cwd (say s sh) = sh_cwd sh" "sh_cwd (sayf s sh) = sh_cwd sh"
  "sh_cwd (upd_disk d sh) = sh_cwd sh" "sh_cwd (change_end sh) = sh_cwd sh"
  by (simp_all add: say_def sayf_def upd_disk_def change_end_def)

lemma call_ext:
  "call g sh = (a, sh') \<longleftrightarrow> g (sh_ext sh) = (a, sh_ext sh') \<and> sh' = sh\<lparr>sh_ext := sh_ext sh'\<rparr>"
  by (auto simp: call_def split: prod.splits)

lemma call_cwd: "call g sh = (a, sh') \<Longrightarrow> sh_cwd sh' = sh_cwd sh"
  by (auto simp: call_def split: prod.splits)

definition card_path :: "string \<Rightarrow> 'w shell \<Rightarrow> string option" where
  "card_path name sh =
     (case qualify name (2 * CONFIG_FILE_CAP) sh of None \<Rightarrow> None | Some q \<Rightarrow> sd_path q PATH_CAP)"

lemma card_path_cong: "sh_cwd sh' = sh_cwd sh \<Longrightarrow> card_path name sh' = card_path name sh"
  by (simp add: card_path_def qualify_def)

lemma resolve_Some: "resolve e name PATH_CAP sh = (Some p, sh') \<Longrightarrow> card_path name sh = Some p \<and> sh' = sh"
  unfolding resolve_def card_path_def by (cases "qualify name (2 * CONFIG_FILE_CAP) sh") (simp_all split: if_splits option.splits)

lemma change_begin_ext:
  "change_begin e name p sh = (r, sh') \<Longrightarrow> sh_ext sh' = sh_ext sh \<and> sh_cwd sh' = sh_cwd sh"
  unfolding change_begin_def by (cases "disk_change_begin (denv e sh) p (disk sh)") (auto simp: Let_def split: if_splits)

lemma progress_ext: "copy_progress off (r, sh) = (r', sh') \<Longrightarrow> sh_ext sh' = sh_ext sh"
  by (auto simp: copy_progress_def split: if_splits)

section \<open>The loop\<close>

lemma copy_loop_exact:
  assumes "stdio_laws v (x_io e)" "p \<noteq> q"
  shows "cv_str v f (sh_ext sh) = Some p \<Longrightarrow> cv_str v g (sh_ext sh) = Some q \<Longrightarrow>
    cv_file v p (sh_ext sh) = Some c \<Longrightarrow> cv_file v q (sh_ext sh) = Some (take pos c) \<Longrightarrow> pos \<le> length c \<Longrightarrow>
    copy_loop e (OnCard f) (OnCard g) tot pos off rp sh = (None, off', sh') \<Longrightarrow>
    cv_file v q (sh_ext sh') = Some c \<and> (\<forall>r. r \<noteq> q \<longrightarrow> cv_file v r (sh_ext sh') = cv_file v r (sh_ext sh)) \<and>
    same_streams v (sh_ext sh) (sh_ext sh')"
proof (induction "length c - pos" arbitrary: pos off rp sh rule: less_induct)
  case less
  let ?data = "take 512 (drop pos c)"
  have data: "fread (x_io e) f pos 512 (sh_ext sh) = ?data" by (rule stdio_read(1)[OF assms(1) less(2,4)])
  show ?case
  proof (cases "pos = length c")
    case True
    with data less(5,7) show ?thesis
      by (auto simp: copy_loop.simps[of e] copy_read_def same_streams_def split: if_splits)
  next
    case False
    with less(6) have "?data \<noteq> []" by simp
    with data have rd: "copy_read e (OnCard f) tot pos off sh = (Inr ?data, sh)" by (simp add: copy_read_def)
    obtain n sh1 where w: "call (f_write (x_io e) g ?data) sh = (n, sh1)"
      by (cases "call (f_write (x_io e) g ?data) sh")
    with less(7) rd have n: "n = length ?data"
      by (auto simp: copy_loop.simps[of e] copy_write_def split: if_splits)
    from w have fw: "f_write (x_io e) g ?data (sh_ext sh) = (n, sh_ext sh1)" by (simp add: call_ext)
    note W = stdio_write[OF assms(1) fw less(3) less(5)]
    obtain rp2 sh2 where p: "copy_progress (off + of_nat (length ?data)) (rp, sh1) = (rp2, sh2)"
      by (cases "copy_progress (off + of_nat (length ?data)) (rp, sh1)")
    have x: "sh_ext sh2 = sh_ext sh1" by (rule progress_ext[OF p])
    have go: "copy_loop e (OnCard f) (OnCard g) tot (pos + length ?data) (off + of_nat (length ?data)) rp2 sh2 = (None, off', sh')"
      using less(7) rd w n p by (simp add: copy_loop.simps[of e _ _ _ pos] copy_write_def)
    have app: "take (pos + length ?data) c = take pos c @ ?data"
      by (simp add: take_add min_def)
    have l: "length c - (pos + length ?data) < length c - pos" "pos + length ?data \<le> length c"
      using False less(6) by auto
    have "cv_file v q (sh_ext sh') = Some c \<and> (\<forall>r. r \<noteq> q \<longrightarrow> cv_file v r (sh_ext sh') = cv_file v r (sh_ext sh2)) \<and>
        same_streams v (sh_ext sh2) (sh_ext sh')"
    proof (rule less(1)[OF l(1) _ _ _ _ l(2) go])
      show "cv_str v f (sh_ext sh2) = Some p" "cv_str v g (sh_ext sh2) = Some q"
        using W(1) less(2,3) by (simp_all add: x same_streams_def)
      show "cv_file v p (sh_ext sh2) = Some c" using W(2) assms(2) less(4) by (simp add: x)
      show "cv_file v q (sh_ext sh2) = Some (take (pos + length ?data) c)" using W(3) n app by (simp add: x)
    qed
    then show ?thesis using W(1,2) by (simp add: x same_streams_def)
  qed
qed

lemma copy_loop_empty:
  assumes "stdio_laws v (x_io e)" "cv_str v f (sh_ext sh) = Some p" "cv_file v p (sh_ext sh) = Some []"
  shows "copy_loop e (OnCard f) dst tot 0 off rp sh =
    (if f_error (x_io e) f (sh_ext sh) then Some (''copy: read error'' @ crlf) else None, off, sh)"
  using stdio_read(1)[OF assms, of 0 512] by (simp add: copy_loop.simps[of e] copy_read_def)

section \<open>The command\<close>

text \<open>The parts of a successful copy between files of the card.\<close>

lemma copy_src_Some:
  assumes "copy_open_src e name False sh = (Some (src, tot), sh')"
  obtains p f where "card_path name sh = Some p" "src = OnCard f" "f_open_r (x_io e) p (sh_ext sh) = (Inr f, sh_ext sh')"
    "sh_cwd sh' = sh_cwd sh"
proof -
  obtain r sh1 where r: "resolve e name PATH_CAP sh = (r, sh1)" by (cases "resolve e name PATH_CAP sh")
  with assms obtain p where p: "r = Some p" by (cases r) (simp_all add: copy_open_src_def)
  with r have c: "card_path name sh = Some p" "sh1 = sh" using resolve_Some by blast+
  obtain o' sh2 where o: "call (f_open_r (x_io e) p) sh = (o', sh2)" by (cases "call (f_open_r (x_io e) p) sh")
  with assms r p c(2) obtain f where f: "o' = Inr f" "src = OnCard f" "sh' = sh2"
    by (cases o') (simp_all add: copy_open_src_def)
  from o f(1) have "f_open_r (x_io e) p (sh_ext sh) = (Inr f, sh_ext sh2)" "sh_cwd sh2 = sh_cwd sh"
    using call_cwd by (simp_all add: call_ext)
  with c(1) f show ?thesis using that by simp
qed

lemma copy_dest_Some:
  assumes "copy_open_dest e name False sh = (Some dst, sh')"
  obtains p g where "card_path name sh = Some p" "dst = OnCard g" "f_open_w (x_io e) p (sh_ext sh) = (Inr g, sh_ext sh')"
proof -
  obtain r sh1 where r: "resolve e name PATH_CAP sh = (r, sh1)" by (cases "resolve e name PATH_CAP sh")
  with assms obtain p where p: "r = Some p" by (cases r) (simp_all add: copy_open_dest_def)
  with r have c: "card_path name sh = Some p" "sh1 = sh" using resolve_Some by blast+
  obtain b sh2 where b: "change_begin e name p sh = (b, sh2)" by (cases "change_begin e name p sh")
  with assms r p c(2) have t: "b" by (cases b) (simp_all add: copy_open_dest_def)
  obtain o' sh3 where o: "call (f_open_w (x_io e) p) sh2 = (o', sh3)" by (cases "call (f_open_w (x_io e) p) sh2")
  with assms r p c(2) b t obtain g where g: "o' = Inr g" "dst = OnCard g" "sh' = change_end sh3"
    by (cases o') (simp_all add: copy_open_dest_def Let_def)
  from o g change_begin_ext[OF b] have "f_open_w (x_io e) p (sh_ext sh) = (Inr g, sh_ext sh')"
    by (simp add: call_ext)
  with c(1) g show ?thesis using that by simp
qed

lemma copy_close_files:
  assumes "stdio_laws v (x_io e)"
  shows "same_files v (sh_ext sh) (sh_ext (snd (copy_close e (OnCard f) sh)))"
proof -
  obtain b sh1 where c: "call (f_close (x_io e) f) sh = (b, sh1)" by (cases "call (f_close (x_io e) f) sh")
  then have "f_close (x_io e) f (sh_ext sh) = (b, sh_ext sh1)" by (simp add: call_ext)
  from stdio_close[OF assms this] c show ?thesis by (simp add: copy_close_def)
qed

lemma copy_finish_ok:
  assumes "fst (copy_finish e dst msg got sh) = 0"
  shows "msg = None" "sh_ext (snd (copy_finish e dst msg got sh)) = sh_ext (snd (copy_close e dst sh))"
proof -
  obtain b sh1 where c: "copy_close e dst sh = (b, sh1)" by (cases "copy_close e dst sh")
  with assms show "msg = None" "sh_ext (snd (copy_finish e dst msg got sh)) = sh_ext (snd (copy_close e dst sh))"
    by (auto simp: copy_finish_def split: if_splits option.splits)
qed

text \<open>What the destination holds when the loop has ended without a message.\<close>

lemma copied_files:
  assumes laws: "stdio_laws v (x_io e)"
    and src: "cv_str v f (sh_ext sh) = Some p" "cv_file v p (sh_ext sh) = Some c"
    and dst: "opened v g q w (sh_ext sh)" "cv_file v q (sh_ext sh) = Some []" "cv_str v f w = Some p"
    and loop: "copy_loop e (OnCard f) (OnCard g) tot 0 0 0 sh = (None, off, sh')"
  shows "cv_file v q (sh_ext sh') = Some (if p = q then [] else c) \<and>
    (\<forall>r. r \<noteq> q \<longrightarrow> cv_file v r (sh_ext sh') = cv_file v r (sh_ext sh))"
proof (cases "p = q")
  case True
  with copy_loop_empty[OF laws src(1)] loop src dst(2) show ?thesis by (simp split: if_splits)
next
  case False
  have g: "cv_str v g (sh_ext sh) = Some q" using dst(1) by (simp add: opened_def)
  from copy_loop_exact[OF laws False src(1) g src(2) _ _ loop] dst(2) False show ?thesis by simp
qed

lemma copy_between_files:
  assumes laws: "stdio_laws v (x_io e)"
    and paths: "card_path a sh = Some pa" "card_path b sh = Some pb"
    and open1: "copy_open_src e a False sh = (Some (src, tot), sh1)"
    and open2: "copy_open_dest e b False sh1 = (Some dst, sh2)"
    and loop: "copy_loop e src dst tot 0 0 0 sh2 = (None, off, sh3)"
  shows "\<exists>c. cv_file v (cv_canon v pa) (sh_ext sh) = Some c \<and>
    cv_file v (cv_canon v pb) (sh_ext sh3) = Some (if cv_canon v pa = cv_canon v pb then [] else c) \<and>
    (\<forall>r. r \<noteq> cv_canon v pb \<longrightarrow> cv_file v r (sh_ext sh3) = cv_file v r (sh_ext sh))"
proof -
  from copy_src_Some[OF open1] paths(1) obtain f where f: "src = OnCard f"
    "f_open_r (x_io e) pa (sh_ext sh) = (Inr f, sh_ext sh1)" "sh_cwd sh1 = sh_cwd sh" by (metis option.inject)
  note R = stdio_open_r[OF laws f(2)]
  then obtain c where c: "cv_file v (cv_canon v pa) (sh_ext sh) = Some c" by blast
  from copy_dest_Some[OF open2] paths(2) card_path_cong[OF f(3)] obtain g where g: "dst = OnCard g"
    "f_open_w (x_io e) pb (sh_ext sh1) = (Inr g, sh_ext sh2)" by (metis option.inject)
  note W = stdio_open_w[OF laws g(2)]
  have f1: "cv_str v f (sh_ext sh1) = Some (cv_canon v pa)" using R by (simp add: opened_def)
  then have "f \<noteq> g" using W by (auto simp: opened_def)
  then have f2: "cv_str v f (sh_ext sh2) = Some (cv_canon v pa)" using W f1 by (simp add: opened_def)
  have others: "r \<noteq> cv_canon v pb \<Longrightarrow> cv_file v r (sh_ext sh2) = cv_file v r (sh_ext sh)" for r
    using R W by (simp add: same_files_def)
  let ?c = "if cv_canon v pa = cv_canon v pb then [] else c"
  have c2: "cv_file v (cv_canon v pa) (sh_ext sh2) = Some ?c" using W c others by auto
  from copied_files[OF laws f2 c2 _ _ f1 loop[unfolded f(1) g(1)]] W
  have "cv_file v (cv_canon v pb) (sh_ext sh3) = Some ?c"
    "\<forall>r. r \<noteq> cv_canon v pb \<longrightarrow> cv_file v r (sh_ext sh3) = cv_file v r (sh_ext sh2)" by auto
  with c others show ?thesis by auto
qed

section \<open>The property\<close>


definition demo_files_shell :: "card shell" where
  "demo_files_shell = demo_shell (demo_card [(''/sd/x'', [1, 2]), (''/sd/firmware.bin'', [0xE9, 7])])"

lemma card_opened_eval: "card_opened q w =
  (Inr (cd_next w), w\<lparr>cd_streams := (cd_streams w)(cd_next w \<mapsto> q), cd_next := cd_next w + 1\<rparr>)"
  by (rule card_opened_def)

lemma demo_copy_src: "copy_open_src demo_sh_env ''x'' False demo_files_shell = (Some (OnCard 3, 0),
   demo_files_shell\<lparr>sh_ext := snd (card_opened ''/sd/x'' (sh_ext demo_files_shell))\<rparr>)"
  by (simp add: copy_open_src_def resolve_def sd_mounted_def denv_def demo_sh_env_def demo_env_def qualify_def
      demo_files_shell_def demo_shell_def sd_path_def segments_ok.simps call_def demo_stdio_def demo_card_def card_file_def
      card_opened_def tolower_def Let_def)

lemma demo_change_begin:
  "change_begin demo_sh_env ''y'' ''/sd/y'' (demo_files_shell\<lparr>sh_ext := w\<rparr>) =
     (True, upd_disk (mount_lock demo_disk) (demo_files_shell\<lparr>sh_ext := w\<rparr>))"
  by (simp add: change_begin_def disk_change_begin_def denv_def demo_sh_env_def demo_env_def demo_files_shell_def
      demo_shell_def disk_def demo_fdc_def demo_disk_facts Let_def sd_canonical_def strneq_def canonical_loop.simps)

definition after_open :: "card" where
  "after_open = (case card_opened ''/sd/x'' (sh_ext demo_files_shell) of (_, w) \<Rightarrow>
     snd (card_opened ''/sd/y'' (w\<lparr>cd_files := (cd_files w)(''/sd/y'' \<mapsto> [])\<rparr>)))"

lemma demo_copy_dst: "\<exists>sh. copy_open_dest demo_sh_env ''y'' False
     (demo_files_shell\<lparr>sh_ext := snd (card_opened ''/sd/x'' (sh_ext demo_files_shell))\<rparr>) = (Some (OnCard 4), sh) \<and>
   sh_ext sh = after_open"
proof -
  let ?sh = "demo_files_shell\<lparr>sh_ext := snd (card_opened ''/sd/x'' (sh_ext demo_files_shell))\<rparr>"
  have "resolve demo_sh_env ''y'' PATH_CAP ?sh = (Some ''/sd/y'', ?sh)"
    by (simp add: resolve_def sd_mounted_def denv_def demo_sh_env_def demo_env_def qualify_def
      demo_files_shell_def demo_shell_def sd_path_def segments_ok.simps Let_def)
  moreover have "f_open_w (x_io demo_sh_env) ''/sd/y'' (sh_ext ?sh) = (Inr 4, after_open)"
    by (simp add: demo_sh_env_def demo_stdio_def after_open_def card_opened_def demo_files_shell_def demo_shell_def
        demo_card_def tolower_def)
  ultimately show ?thesis
    by (simp add: copy_open_dest_def demo_change_begin call_def Let_def)
qed

lemma demo_copied:
  assumes "sh_ext sh = after_open"
  shows "fst (copy_loop demo_sh_env (OnCard 3) (OnCard 4) 0 0 0 0 sh) = None"
proof -
  have r: "copy_read demo_sh_env (OnCard 3) 0 0 0 sh = (Inr [1, 2], sh)"
    using assms by (simp add: copy_read_def fread_def demo_stdio_def after_open_def card_opened_def demo_files_shell_def
        demo_shell_def demo_card_def card_stream_def card_file_def)
  define w where "w = after_open\<lparr>cd_files := (cd_files after_open)(''/sd/y'' \<mapsto> [1, 2])\<rparr>"
  have w: "copy_write demo_sh_env (OnCard 4) 0 [1, 2] sh = (None, sh\<lparr>sh_ext := w\<rparr>)"
    using assms by (simp add: copy_write_def call_def demo_stdio_def after_open_def card_opened_def demo_files_shell_def
        demo_shell_def demo_card_def card_stream_def card_file_def w_def)
  have e: "copy_read demo_sh_env (OnCard 3) 0 (Suc (Suc 0)) 2 (sh\<lparr>sh_ext := w\<rparr>) = (Inl None, sh\<lparr>sh_ext := w\<rparr>)"
    by (simp add: copy_read_def fread_def demo_stdio_def after_open_def card_opened_def demo_files_shell_def
        demo_shell_def demo_card_def card_stream_def card_file_def w_def)
  have "copy_loop demo_sh_env (OnCard 3) (OnCard 4) 0 (Suc (Suc 0)) 2 0 (sh\<lparr>sh_ext := w\<rparr>) = (None, 2, sh\<lparr>sh_ext := w\<rparr>)"
    by (simp add: copy_loop.simps[of demo_sh_env] e)
  then show ?thesis
    by (simp add: copy_loop.simps[of demo_sh_env _ _ _ 0] r w copy_progress_def)
qed


end
