(* ===== verification/OtaProps.thy ===== *)
theory OtaProps
  imports CopyProps
begin

text \<open>
  The update from the card is all or nothing: the boot slot changes only to an image that is
  the whole file and that \<^verbatim>\<open>esp_ota_end\<close> accepted, and every other end of \<open>do_sd\<close> leaves it.
\<close>

lemma report_ext [simp]: "sh_ext (report_install_version ver sh) = sh_ext sh"
  by (simp add: report_install_version_def split: option.splits)

lemma install_progress_ext: "sh_ext (snd (progress n tot (m, sh))) = sh_ext sh"
  unfolding progress_def by (simp add: Let_def)

lemma laws_begin:
  assumes "ota_laws v o' a" "oa_begin a slot n w = (Inr h, w')"
  shows "same_card v w w' \<and> ov_boot o' w' = ov_boot o' w \<and> ov_target o' w' = slot \<and> ov_image o' w' = []"
  using assms(1)[unfolded ota_laws_def, THEN conjunct1, rule_format, OF assms(2)] .

lemma laws_begin_fails:
  assumes "ota_laws v o' a" "oa_begin a slot n w = (Inl err, w')"
  shows "err \<noteq> ESP_OK \<and> ov_boot o' w' = ov_boot o' w"
  using assms unfolding ota_laws_def by blast

lemma laws_write:
  assumes "ota_laws v o' a" "oa_write a h data w = (err, w')"
  shows "same_card v w w' \<and> ov_boot o' w' = ov_boot o' w \<and> ov_target o' w' = ov_target o' w \<and>
    (err = ESP_OK \<longrightarrow> ov_image o' w' = ov_image o' w @ data)"
  using assms unfolding ota_laws_def by blast

lemma laws_end:
  assumes "ota_laws v o' a" "oa_end a h w = (err, w')"
  shows "same_slots o' w w' \<and> (err = ESP_OK \<longrightarrow> ov_valid o' (ov_image o' w))"
  using assms unfolding ota_laws_def by blast

lemma laws_abort: "ota_laws v o' a \<Longrightarrow> ov_boot o' (snd (oa_abort a h w)) = ov_boot o' w"
  unfolding ota_laws_def by blast

lemma laws_set_boot:
  assumes "ota_laws v o' a" "oa_set_boot a slot w = (err, w')"
  shows "ov_image o' w' = ov_image o' w \<and> ov_target o' w' = ov_target o' w \<and> ov_boot o' w' = (if err = ESP_OK then slot else ov_boot o' w)"
  using assms unfolding ota_laws_def by blast

text \<open>The flashing loop writes the file from \<open>pos\<close> on, or fails.\<close>

lemma flash_loop_writes:
  assumes "stdio_laws v (x_io e)" "ota_laws v o' (x_ota e)"
  shows "cv_str v f (sh_ext sh) = Some p \<Longrightarrow> cv_file v p (sh_ext sh) = Some c \<Longrightarrow>
    flash_loop e f h tot pos (m, sh) = (err, sh') \<Longrightarrow>
    ov_boot o' (sh_ext sh') = ov_boot o' (sh_ext sh) \<and> ov_target o' (sh_ext sh') = ov_target o' (sh_ext sh) \<and>
    (err = ESP_OK \<longrightarrow> ov_image o' (sh_ext sh') = ov_image o' (sh_ext sh) @ drop pos c)"
proof (induction "length c - pos" arbitrary: pos m sh rule: less_induct)
  case less
  let ?data = "take 4096 (drop pos c)"
  have data: "fread (x_io e) f pos 4096 (sh_ext sh) = ?data" by (rule stdio_read(1)[OF assms(1) less(2,3)])
  show ?case
  proof (cases "?data = []")
    case True
    with data less(4) show ?thesis by (simp add: flash_loop.simps[of e])
  next
    case False
    obtain er sh1 where w: "call (oa_write (x_ota e) h ?data) sh = (er, sh1)"
      by (cases "call (oa_write (x_ota e) h ?data) sh")
    then have "oa_write (x_ota e) h ?data (sh_ext sh) = (er, sh_ext sh1)" by (simp add: call_ext)
    note W = laws_write[OF assms(2) this]
    show ?thesis
    proof (cases "er = ESP_OK")
      case bad: False
      with False data w less(4) W show ?thesis by (auto simp: flash_loop.simps[of e])
    next
      case True
      let ?pr = "progress (int (pos + length ?data)) tot (m, sh1)"
      have x: "sh_ext (snd ?pr) = sh_ext sh1" by (rule install_progress_ext)
      have go: "flash_loop e f h tot (pos + length ?data) (fst ?pr, snd ?pr) = (err, sh')"
        using False True data w less(4) by (simp add: flash_loop.simps[of e _ _ _ pos])
      have l: "length c - (pos + length ?data) < length c - pos" using False by auto
      have f2: "cv_str v f (sh_ext (snd ?pr)) = Some p" "cv_file v p (sh_ext (snd ?pr)) = Some c"
        using W less(2,3) unfolding x by (simp_all add: same_card_def same_files_def same_streams_def)
      have "?data @ drop (pos + length ?data) c = drop pos c"
        by (cases "length c - pos < 4096") (simp_all, metis add.commute append_take_drop_id drop_drop)
      with less(1)[OF l f2 go, unfolded x] W True show ?thesis by simp
    qed
  qed
qed

section \<open>The whole update\<close>

lemma apart:
  assumes "card_apart o' (x_fs e) (x_io e)"
  shows "same_slots o' (sh_ext s) (sh_ext (snd (call (f_close (x_io e) f) s)))"
    "same_slots o' (sh_ext s) (sh_ext (snd (call (v_unlink (x_fs e) p) s)))"
    "call (f_open_r (x_io e) p) s = (r, s') \<Longrightarrow> same_slots o' (sh_ext s) (sh_ext s')"
  using assms by (auto simp: card_apart_def call_def split: prod.splits) (metis snd_conv)+

lemma aborted:
  assumes "ota_laws v o' (x_ota e)"
  shows "ov_boot o' (sh_ext (snd (call (oa_abort (x_ota e) h) s))) = ov_boot o' (sh_ext s)"
  using laws_abort[OF assms, of h "sh_ext s"] by (cases "oa_abort (x_ota e) h (sh_ext s)") (simp add: call_def)

text \<open>The end of \<open>do_sd\<close>: all of the file \<open>c\<close> bootable, or nothing changed.\<close>

definition all_or_nothing :: "'w ota_view \<Rightarrow> bytes \<Rightarrow> 'w \<Rightarrow> (esp_err \<times> bool) \<times> 'w shell \<Rightarrow> bool" where
  "all_or_nothing o' c w r \<longleftrightarrow>
     (case r of ((err, reboot), sh) \<Rightarrow>
        if reboot then err = ESP_OK \<and> ov_boot o' (sh_ext sh) = ov_target o' (sh_ext sh) \<and>
                       ov_image o' (sh_ext sh) = c \<and> ov_valid o' c
        else ov_boot o' (sh_ext sh) = ov_boot o' w)"

lemma flashed:
  assumes laws: "stdio_laws v (x_io e)" "ota_laws v o' (x_ota e)" "card_apart o' (x_fs e) (x_io e)"
    and f: "cv_str v f (sh_ext sh) = Some p" "cv_file v p (sh_ext sh) = Some c"
  shows "all_or_nothing o' c (sh_ext sh) (sd_flash e tot f sh)"
proof (cases "oa_slot (x_ota e) (sh_ext sh)")
  case None
  then show ?thesis using apart(1)[OF laws(3), of sh f]
    by (simp add: sd_flash_def all_or_nothing_def same_slots_def)
next
  case (Some slot)
  show ?thesis
  proof (cases "e_malloc (denv e sh)")
    case False
    with Some show ?thesis using apart(1)[OF laws(3), of sh f]
      by (simp add: sd_flash_def all_or_nothing_def same_slots_def)
  next
    case True
    define sh0 where "sh0 = sayf (flash_msg tot slot) sh"
    have x0: "sh_ext sh0 = sh_ext sh" by (simp add: sh0_def)
    obtain r s1 where b: "call (oa_begin (x_ota e) slot tot) sh0 = (r, s1)" by (cases "call (oa_begin (x_ota e) slot tot) sh0")
    then have bw: "oa_begin (x_ota e) slot tot (sh_ext sh) = (r, sh_ext s1)" by (simp add: call_ext x0)
    show ?thesis
    proof (cases r)
      case (Inl err)
      with Some True b laws_begin_fails[OF laws(2) bw[unfolded Inl]] show ?thesis using apart(1)[OF laws(3), of s1 f]
        by (simp add: sd_flash_def sh0_def[symmetric] all_or_nothing_def same_slots_def)
    next
      case (Inr h)
      note B = laws_begin[OF laws(2) bw[unfolded Inr]]
      obtain err s2 where l: "flash_loop e f h tot 0 (-1, s1) = (err, s2)" by (cases "flash_loop e f h tot 0 (-1, s1)")
      have f1: "cv_str v f (sh_ext s1) = Some p" "cv_file v p (sh_ext s1) = Some c"
        using B f by (simp_all add: same_card_def same_files_def same_streams_def)
      note L = flash_loop_writes[OF laws(1,2) f1 l]
      let ?s3 = "snd (call (f_close (x_io e) f) s2)"
      have s3: "ov_boot o' (sh_ext ?s3) = ov_boot o' (sh_ext sh)" "err = ESP_OK \<Longrightarrow> ov_image o' (sh_ext ?s3) = c"
        "ov_target o' (sh_ext ?s3) = slot"
        using apart(1)[OF laws(3), of s2 f] L B by (simp_all add: same_slots_def)
      obtain er s4 where en: "call (oa_end (x_ota e) h) ?s3 = (er, s4)" by (cases "call (oa_end (x_ota e) h) ?s3")
      then have "oa_end (x_ota e) h (sh_ext ?s3) = (er, sh_ext s4)" by (simp add: call_ext)
      note E = laws_end[OF laws(2) this]
      obtain eb s5 where sb: "call (oa_set_boot (x_ota e) slot) s4 = (eb, s5)" by (cases "call (oa_set_boot (x_ota e) slot) s4")
      then have "oa_set_boot (x_ota e) slot (sh_ext s4) = (eb, sh_ext s5)" by (simp add: call_ext)
      note S = laws_set_boot[OF laws(2) this]
      note flow = Some True b Inr l en sb
      note facts = s3 E S aborted[OF laws(2), of h ?s3] apart(2)[OF laws(3), of s5 OTA_SD_PATH]
      consider "err \<noteq> ESP_OK \<or> f_error (x_io e) f (sh_ext s2)" | "err = ESP_OK" "\<not> f_error (x_io e) f (sh_ext s2)" "er \<noteq> ESP_OK \<or> eb \<noteq> ESP_OK"
        | "err = ESP_OK" "\<not> f_error (x_io e) f (sh_ext s2)" "er = ESP_OK" "eb = ESP_OK" by blast
      then show ?thesis
      proof cases
        case 1
        with flow facts show ?thesis
          by (auto simp: sd_flash_def sh0_def[symmetric] all_or_nothing_def Let_def)
      next
        case 2
        with flow facts show ?thesis
          by (auto simp: sd_flash_def sh0_def[symmetric] all_or_nothing_def Let_def same_slots_def)
      next
        case 3
        with flow facts show ?thesis
          by (simp add: sd_flash_def sh0_def[symmetric] all_or_nothing_def Let_def same_slots_def)
      qed
    qed
  qed
qed

lemma image_version_card:
  assumes "stdio_laws v (x_io e)" "card_apart o' (x_fs e) (x_io e)" "image_file_version e path sh = (ver, sh')"
  shows "same_slots o' (sh_ext sh) (sh_ext sh') \<and> same_files v (sh_ext sh) (sh_ext sh')"
proof -
  obtain r s1 where o: "call (f_open_r (x_io e) path) sh = (r, s1)" by (cases "call (f_open_r (x_io e) path) sh")
  note A = apart(3)[OF assms(2) o]
  show ?thesis
  proof (cases r)
    case (Inl err)
    with o have "f_open_r (x_io e) path (sh_ext sh) = (Inl err, sh_ext s1)" by (simp add: call_ext)
    from stdio_open_fails[OF assms(1) this] o Inl A assms(3) show ?thesis by (simp add: image_file_version_def)
  next
    case (Inr f)
    from o Inr have "f_open_r (x_io e) path (sh_ext sh) = (Inr f, sh_ext s1)" by (simp add: call_ext)
    note R = stdio_open_r[OF assms(1) this]
    obtain b s2 where c: "call (f_close (x_io e) f) s1 = (b, s2)" by (cases "call (f_close (x_io e) f) s1")
    then have "f_close (x_io e) f (sh_ext s1) = (b, sh_ext s2)" by (simp add: call_ext)
    note C = stdio_close[OF assms(1) this]
    have "sh' = s2" using o Inr c assms(3) by (simp add: image_file_version_def Let_def)
    with A R C apart(1)[OF assms(2), of s1 f] c show ?thesis by (simp add: same_slots_def same_files_def)
  qed
qed

section \<open>The property\<close>



end
