(* ===== verification/Secrets.thy ===== *)
theory Secrets
  imports CommandFrame DemoCard
begin

text \<open>
  Passwords are never shown: what a command prints does not depend on the WiFi and the FTP
  password, only on whether each is set. \<open>mask\<close> replaces them; every command commutes with it,
  except those that hand the passwords on (\<open>save\<close> to the flash, \<open>wifi on\<close> to the driver) or
  replace them. The proofs move \<open>mask\<close> outward through the code by rewriting (\<open>mask_simps\<close>).
\<close>

section \<open>Masking\<close>

definition hide :: "string \<Rightarrow> string \<Rightarrow> string" where
  "hide p s = (if s = [] then [] else p)"

definition mask :: "string \<Rightarrow> string \<Rightarrow> 'w shell \<Rightarrow> 'w shell" where
  "mask p q sh = sh\<lparr>sh_cfg := (sh_cfg sh)\<lparr>s_cfg := (s_cfg (sh_cfg sh))\<lparr>
     wifi_pass := hide (CHR ''x'' # p) (wifi_pass (s_cfg (sh_cfg sh))),
     ftp_pass := hide (CHR ''x'' # q) (ftp_pass (s_cfg (sh_cfg sh)))\<rparr>\<rparr>\<rparr>"

definition mask2 :: "string \<Rightarrow> string \<Rightarrow> 'a \<times> 'w shell \<Rightarrow> 'a \<times> 'w shell" where
  "mask2 p q r = (fst r, mask p q (snd r))"

named_theorems mask_simps "moving mask outward"

lemma mask_parts [mask_simps]:
  "sh_ext (mask p q sh) = sh_ext sh" "sh_fdc (mask p q sh) = sh_fdc sh" "sh_net (mask p q sh) = sh_net sh"
  "sh_con (mask p q sh) = sh_con sh" "sh_cwd (mask p q sh) = sh_cwd sh"
  "sh_restarted (mask p q sh) = sh_restarted sh" "sh_ota_busy (mask p q sh) = sh_ota_busy sh"
  "disk (mask p q sh) = disk sh" "denv e (mask p q sh) = denv e sh" "sd_mounted e (mask p q sh) = sd_mounted e sh"
  "s_dirty (sh_cfg (mask p q sh)) = s_dirty (sh_cfg sh)"
  by (simp_all add: mask_def disk_def denv_def sd_mounted_def)

lemma mask_config [mask_simps]:
  "baud_rate (config_get (mask p q sh)) = baud_rate (config_get sh)"
  "log_level (config_get (mask p q sh)) = log_level (config_get sh)"
  "telnet_enabled (config_get (mask p q sh)) = telnet_enabled (config_get sh)"
  "ftp_enabled (config_get (mask p q sh)) = ftp_enabled (config_get sh)"
  "tnfsd_enabled (config_get (mask p q sh)) = tnfsd_enabled (config_get sh)"
  "fdc_tcp_port (config_get (mask p q sh)) = fdc_tcp_port (config_get sh)"
  "wifi_ssid (config_get (mask p q sh)) = wifi_ssid (config_get sh)"
  "wifi_name (config_get (mask p q sh)) = wifi_name (config_get sh)"
  "time_zone (config_get (mask p q sh)) = time_zone (config_get sh)"
  "ftp_user (config_get (mask p q sh)) = ftp_user (config_get sh)"
  "ota_repo (config_get (mask p q sh)) = ota_repo (config_get sh)"
  "set_unset (wifi_pass (config_get (mask p q sh))) = set_unset (wifi_pass (config_get sh))"
  "set_unset (ftp_pass (config_get (mask p q sh))) = set_unset (ftp_pass (config_get sh))"
  "net_get_status wd (config_get (mask p q sh)) n w = net_get_status wd (config_get sh) n w"
  "net_apply_timezone wd (config_get (mask p q sh)) w = net_apply_timezone wd (config_get sh) w"
  by (simp_all add: mask_def config_get_def set_unset_def hide_def net_get_status_def net_apply_timezone_def)

lemma mask_upd [mask_simps]:
  "say s (mask p q sh) = mask p q (say s sh)" "sayf s (mask p q sh) = mask p q (sayf s sh)"
  "upd_con g (mask p q sh) = mask p q (upd_con g sh)" "upd_disk d (mask p q sh) = mask p q (upd_disk d sh)"
  "change_end (mask p q sh) = mask p q (change_end sh)"
  "(mask p q sh)\<lparr>sh_ext := w\<rparr> = mask p q (sh\<lparr>sh_ext := w\<rparr>)"
  "(mask p q sh)\<lparr>sh_fdc := f\<rparr> = mask p q (sh\<lparr>sh_fdc := f\<rparr>)"
  "(mask p q sh)\<lparr>sh_restarted := r\<rparr> = mask p q (sh\<lparr>sh_restarted := r\<rparr>)"
  "(mask p q sh)\<lparr>sh_ota_busy := r\<rparr> = mask p q (sh\<lparr>sh_ota_busy := r\<rparr>)"
  by (simp_all add: mask_def say_def sayf_def upd_con_def upd_disk_def change_end_def disk_def)

lemma mask_config_set [mask_simps]:
  "upd_cfg (config_set_baud b) (mask p q sh) = mask p q (upd_cfg (config_set_baud b) sh)"
  "upd_cfg (config_set_log_level l) (mask p q sh) = mask p q (upd_cfg (config_set_log_level l) sh)"
  "upd_cfg (config_set_telnet_enabled t) (mask p q sh) = mask p q (upd_cfg (config_set_telnet_enabled t) sh)"
  "upd_cfg (config_set_ftp_enabled t) (mask p q sh) = mask p q (upd_cfg (config_set_ftp_enabled t) sh)"
  "upd_cfg (config_set_tnfsd_enabled t) (mask p q sh) = mask p q (upd_cfg (config_set_tnfsd_enabled t) sh)"
  "upd_cfg (config_set_fdc_tcp_port port) (mask p q sh) = mask p q (upd_cfg (config_set_fdc_tcp_port port) sh)"
  "upd_cfg (config_set_drive d n) (mask p q sh) = mask p q (upd_cfg (config_set_drive d n) sh)"
  "set_str CFG_STR_WIFI_SSID s (mask p q sh) = mask p q (set_str CFG_STR_WIFI_SSID s sh)"
  "set_str CFG_STR_WIFI_NAME s (mask p q sh) = mask p q (set_str CFG_STR_WIFI_NAME s sh)"
  "set_str CFG_STR_TIME_ZONE s (mask p q sh) = mask p q (set_str CFG_STR_TIME_ZONE s sh)"
  "set_str CFG_STR_FTP_USER s (mask p q sh) = mask p q (set_str CFG_STR_FTP_USER s sh)"
  by (simp_all add: mask_def upd_cfg_def set_str_def config_set_baud_def config_set_log_level_def
      config_set_telnet_enabled_def config_set_ftp_enabled_def config_set_tnfsd_enabled_def
      config_set_fdc_tcp_port_def config_set_drive_def config_set_str_def Let_def split: option.splits)

section \<open>Control structure\<close>

lemma mask_pair [mask_simps]:
  "(x, mask p q sh) = mask2 p q (x, sh)" "snd (mask2 p q r) = mask p q (snd r)" "fst (mask2 p q r) = fst r"
  by (simp_all add: mask2_def)

lemma mask_bind [mask_simps]:
  "(case mask2 p q r of (a, s) \<Rightarrow> f a s) = (case r of (a, s) \<Rightarrow> f a (mask p q s))"
  by (simp add: mask2_def split: prod.splits)

lemma mask_case [mask_simps]:
  "(case u of (a, b) \<Rightarrow> mask2 p q (g a b)) = mask2 p q (case u of (a, b) \<Rightarrow> g a b)"
  "(case u of (a, b) \<Rightarrow> mask p q (h a b)) = mask p q (case u of (a, b) \<Rightarrow> h a b)"
  by (simp_all split: prod.splits)

lemma mask_case_more [mask_simps]:
  "(case u3 of (a, b, c) \<Rightarrow> mask2 p q (g3 a b c)) = mask2 p q (case u3 of (a, b, c) \<Rightarrow> g3 a b c)"
  "(case u3 of (a, b, c) \<Rightarrow> mask p q (h3 a b c)) = mask p q (case u3 of (a, b, c) \<Rightarrow> h3 a b c)"
  "(case u4 of (a, b, c, d) \<Rightarrow> mask2 p q (g4 a b c d)) = mask2 p q (case u4 of (a, b, c, d) \<Rightarrow> g4 a b c d)"
  "(case v of ((a, b), d) \<Rightarrow> mask2 p q (gv a b d)) = mask2 p q (case v of ((a, b), d) \<Rightarrow> gv a b d)"
  by (simp_all split: prod.splits)

lemma mask_if [mask_simps]:
  "(if c then mask2 p q r1 else mask2 p q r2) = mask2 p q (if c then r1 else r2)"
  "(if c then mask p q s1 else mask p q s2) = mask p q (if c then s1 else s2)"
  by simp_all

lemma mask_bool [mask_simps]:
  "(case c of True \<Rightarrow> mask2 p q r1 | False \<Rightarrow> mask2 p q r2) = mask2 p q (case c of True \<Rightarrow> r1 | False \<Rightarrow> r2)"
  by (simp split: bool.splits)

lemma mask_option [mask_simps]:
  "(case x of None \<Rightarrow> mask2 p q r1 | Some y \<Rightarrow> mask2 p q (g1 y)) = mask2 p q (case x of None \<Rightarrow> r1 | Some y \<Rightarrow> g1 y)"
  "(case x of None \<Rightarrow> mask p q s1 | Some y \<Rightarrow> mask p q (h1 y)) = mask p q (case x of None \<Rightarrow> s1 | Some y \<Rightarrow> h1 y)"
  by (simp_all split: option.splits)

lemma mask_sum [mask_simps]:
  "(case z of Inl y \<Rightarrow> mask2 p q (g2 y) | Inr u \<Rightarrow> mask2 p q (g3 u)) = mask2 p q (case z of Inl y \<Rightarrow> g2 y | Inr u \<Rightarrow> g3 u)"
  "(case z of Inl y \<Rightarrow> mask p q (h2 y) | Inr u \<Rightarrow> mask p q (h3 u)) = mask p q (case z of Inl y \<Rightarrow> h2 y | Inr u \<Rightarrow> h3 u)"
  by (simp_all split: sum.splits)

lemma mask_let_state [mask_simps]: "(let s = mask p q sh in k s) = (let s = sh in k (mask p q s))"
  by simp

lemma mask_let [mask_simps]:
  "(let v = w in mask2 p q (g4 v)) = mask2 p q (let v = w in g4 v)"
  "(let v = w in mask p q (h4 v)) = mask p q (let v = w in h4 v)"
  by simp_all

lemma mask_let_pair [mask_simps]:
  "(let (a, b) = w in mask2 p q (g5 a b)) = mask2 p q (let (a, b) = w in g5 a b)"
  "(let (a, b, c) = w3 in mask2 p q (g6 a b c)) = mask2 p q (let (a, b, c) = w3 in g6 a b c)"
  "(let (a, b, c, d) = w4 in mask2 p q (g7 a b c d)) = mask2 p q (let (a, b, c, d) = w4 in g7 a b c d)"
  "(let (a, s) = mask2 p q r in k a s) = (let (a, s) = r in k a (mask p q s))"
  by (simp_all add: mask2_def split: prod.splits)

lemma mask_sum_pair [mask_simps]:
  "(case z of Inl y \<Rightarrow> mask2 p q (g y) | Inr (a, b) \<Rightarrow> mask2 p q (h a b)) =
   mask2 p q (case z of Inl y \<Rightarrow> g y | Inr (a, b) \<Rightarrow> h a b)"
  by (simp split: sum.splits prod.splits)

lemma mask_option_pair [mask_simps]:
  "(case x of None \<Rightarrow> mask2 p q r1 | Some (a, b) \<Rightarrow> mask2 p q (h a b)) =
   mask2 p q (case x of None \<Rightarrow> r1 | Some (a, b) \<Rightarrow> h a b)"
  by (simp split: option.splits prod.splits)

lemma mask_option_triple [mask_simps]:
  "(case x of None \<Rightarrow> mask p q s1 | Some (a, b, c) \<Rightarrow> mask p q (h a b c)) =
   mask p q (case x of None \<Rightarrow> s1 | Some (a, b, c) \<Rightarrow> h a b c)"
  by (simp split: option.splits prod.splits)

lemma let_config: "(let c = config_get sh in k c) = k (config_get sh)"
  by (simp add: Let_def)

lemma mask_call [mask_simps]: "call g (mask p q sh) = mask2 p q (call g sh)"
  by (simp add: call_def mask2_def mask_def split: prod.splits)

lemma mask_fold [mask_simps]:
  "(\<And>x s. g x (mask p q s) = mask p q (g x s)) \<Longrightarrow> fold g xs (mask p q sh) = mask p q (fold g xs sh)"
  by (induction xs arbitrary: sh) simp_all

lemma mask_fold_pairs [mask_simps]:
  "(\<And>a b s. g a b (mask p q s) = mask p q (g a b s)) \<Longrightarrow>
   fold (\<lambda>(a, b). g a b) xs (mask p q sh) = mask p q (fold (\<lambda>(a, b). g a b) xs sh)"
  by (induction xs arbitrary: sh) auto

lemma mask_fold2 [mask_simps]:
  assumes "\<And>x r. g x (mask2 p q r) = mask2 p q (g x r)"
  shows "fold g xs (mask2 p q r) = mask2 p q (fold g xs r)"
  using assms by (induction xs arbitrary: r) simp_all

section \<open>The commands on files and drives\<close>

lemma mask_qualify [mask_simps]: "qualify name len (mask p q sh) = qualify name len sh"
  by (simp only: qualify_def mask_simps)

lemma mask_resolve [mask_simps]: "resolve e name len (mask p q sh) = mask2 p q (resolve e name len sh)"
  by (simp only: resolve_def mask_simps)

lemma mask_change_begin [mask_simps]: "change_begin e name path (mask p q sh) = mask2 p q (change_begin e name path sh)"
  by (simp only: change_begin_def mask_simps)

lemma mask_parse_drive [mask_simps]: "parse_drive a (mask p q sh) = mask2 p q (parse_drive a sh)"
  by (simp only: parse_drive_def mask_simps)

lemma mask_dir_entry [mask_simps]: "dir_remote_entry spec de (mask2 p q r) = mask2 p q (dir_remote_entry spec de r)"
  by (simp only: dir_remote_entry_def mask_simps)

lemma mask_cmd_dir_remote [mask_simps]: "cmd_dir_remote e url spec (mask p q sh) = mask2 p q (cmd_dir_remote e url spec sh)"
  by (simp only: cmd_dir_remote_def mask_simps)

lemma mask_dir_prints [mask_simps]:
  "(case fold dir_print xs (a, b, mask2 p q (c, sh)) of (nf, nd, tot, s) \<Rightarrow> k nf nd tot s) =
   (case fold dir_print xs (a, b, c, sh) of (nf, nd, tot, s) \<Rightarrow> k nf nd tot (mask p q s))"
proof (induction xs arbitrary: a b c sh)
  case (Cons x xs)
  have "dir_print x (a, b, mask2 p q (c, sh)) =
      (case dir_print x (a, b, c, sh) of (nf, nd, tot, s) \<Rightarrow> (nf, nd, mask2 p q (tot, s)))"
    by (simp add: dir_print_def mask2_def mask_upd)
  with Cons show ?case by (cases "dir_print x (a, b, c, sh)") simp
qed (simp add: mask2_def)

lemma mask_let_prints [mask_simps]:
  "(let (nf, nd, tot, s) = fold dir_print xs (a, b, mask2 p q (c, sh)) in k nf nd tot s) =
   (let (nf, nd, tot, s) = fold dir_print xs (a, b, c, sh) in k nf nd tot (mask p q s))"
  by (simp only: Let_def mask_dir_prints)

lemma mask_dir_split [mask_simps]: "dir_split f arg (mask p q sh) = dir_split f arg sh"
  by (simp only: dir_split_def mask_simps)

lemma mask_stat_isdir [mask_simps]: "stat_isdir e (mask p q sh) = stat_isdir e sh"
  by (simp add: stat_isdir_def fun_eq_iff mask_parts)

lemma mask_dir_list [mask_simps]: "dir_list e reldir dirpath spec d es (mask p q sh) = mask2 p q (dir_list e reldir dirpath spec d es sh)"
  by (simp only: dir_list_def mask_simps)

lemma mask_cmd_dir [mask_simps]: "cmd_dir e args (mask p q sh) = mask2 p q (cmd_dir e args sh)"
  by (simp only: cmd_dir_def mask_simps)

lemma mask_report_mount_err [mask_simps]: "report_mount_err e name err (mask p q sh) = mask p q (report_mount_err e name err sh)"
  by (simp only: report_mount_err_def mask_simps)

lemma mask_drive_line [mask_simps]: "drive_line i (mask p q sh) = mask p q (drive_line i sh)"
  by (simp only: drive_line_def mask_simps)

lemma mask_drive_table [mask_simps]: "drive_table (mask p q sh) = mask p q (drive_table sh)"
  by (simp only: drive_table_def mask_simps)

lemma mask_mount_drive [mask_simps]: "mount_drive e d name (mask p q sh) = mask2 p q (mount_drive e d name sh)"
  by (simp only: mount_drive_def mask_simps)

lemma mask_mount_remote [mask_simps]: "mount_remote e d url (mask p q sh) = mask2 p q (mount_remote e d url sh)"
  by (simp only: mount_remote_def mask_simps)

lemma mask_mount_local [mask_simps]: "mount_local e d name (mask p q sh) = mask2 p q (mount_local e d name sh)"
  by (simp only: mount_local_def mask_simps)

lemma mask_cmd_mount [mask_simps]: "cmd_mount e args (mask p q sh) = mask2 p q (cmd_mount e args sh)"
  by (simp only: cmd_mount_def mask_simps)

lemma mask_cmd_unmount [mask_simps]: "cmd_unmount e args (mask p q sh) = mask2 p q (cmd_unmount e args sh)"
  by (simp only: cmd_unmount_def mask_simps)

lemma mask_dump_lines [mask_simps]: "dump_lines len buf (mask p q sh) = mask p q (dump_lines len buf sh)"
  by (simp only: dump_lines_def mask_simps)

lemma mask_dump_show [mask_simps]: "dump_show d t len buf (mask p q sh) = mask2 p q (dump_show d t len buf sh)"
  by (simp only: dump_show_def mask_simps)

lemma mask_read_track [mask_simps]: "read_track e d t len (mask p q sh) = mask2 p q (read_track e d t len sh)"
  by (simp only: read_track_def mask_simps)

lemma mask_cmd_dump [mask_simps]: "cmd_dump e args (mask p q sh) = mask2 p q (cmd_dump e args sh)"
  by (simp only: cmd_dump_def mask_simps)

section \<open>type, copy and the changes of the card\<close>

lemma mask_type_char [mask_simps]: "type_char ch (mask2 p q r) = mask2 p q (type_char ch r)"
  by (simp only: type_char_def mask_simps)

lemma mask_type_loop [mask_simps]: "type_loop io f pos (mask2 p q r) = mask2 p q (type_loop io f pos r)"
proof (induction io f pos r rule: type_loop.induct)
  case (1 io f pos r)
  show ?case by (subst (1 2) type_loop.simps) (simp add: mask_simps 1 Let_def)
qed

lemma mask_cmd_type [mask_simps]: "cmd_type e args (mask p q sh) = mask2 p q (cmd_type e args sh)"
  by (simp only: cmd_type_def mask_simps)

lemma mask_cmd_delete [mask_simps]: "cmd_delete e args (mask p q sh) = mask2 p q (cmd_delete e args sh)"
  by (simp only: cmd_delete_def mask_simps)

lemma mask_cmd_mkdir [mask_simps]: "cmd_mkdir e args (mask p q sh) = mask2 p q (cmd_mkdir e args sh)"
  by (simp only: cmd_mkdir_def mask_simps)

lemma mask_cmd_rmdir [mask_simps]: "cmd_rmdir e args (mask p q sh) = mask2 p q (cmd_rmdir e args sh)"
  by (simp only: cmd_rmdir_def mask_simps)

lemma mask_cmd_rename [mask_simps]: "cmd_rename e args (mask p q sh) = mask2 p q (cmd_rename e args sh)"
  by (simp only: cmd_rename_def mask_simps)

lemma mask_copy_open_dest [mask_simps]: "copy_open_dest e name rem (mask p q sh) = mask2 p q (copy_open_dest e name rem sh)"
  by (simp only: copy_open_dest_def mask_simps)

lemma mask_copy_end [mask_simps]:
  "(case x of OnCard f \<Rightarrow> mask2 p q (g1 f) | OnServer f \<Rightarrow> mask2 p q (g2 f)) = mask2 p q (case x of OnCard f \<Rightarrow> g1 f | OnServer f \<Rightarrow> g2 f)"
  by (cases x) simp_all

lemma mask_copy_write [mask_simps]: "copy_write e dst off data (mask p q sh) = mask2 p q (copy_write e dst off data sh)"
  by (simp only: copy_write_def mask_simps)

lemma mask_copy_read [mask_simps]: "copy_read e src tot pos off (mask p q sh) = mask2 p q (copy_read e src tot pos off sh)"
  by (simp only: copy_read_def mask_simps)

lemma mask_copy_close [mask_simps]: "copy_close e x (mask p q sh) = mask2 p q (copy_close e x sh)"
  by (simp only: copy_close_def mask_simps)

lemma mask_copy_progress [mask_simps]: "copy_progress off (mask2 p q r) = mask2 p q (copy_progress off r)"
  by (simp only: copy_progress_def mask_simps)

lemma mask_copy_finish [mask_simps]: "copy_finish e dst msg got (mask p q sh) = mask2 p q (copy_finish e dst msg got sh)"
  by (simp only: copy_finish_def mask_simps)

lemma mask_copy_open_src [mask_simps]: "copy_open_src e name rem (mask p q sh) = mask2 p q (copy_open_src e name rem sh)"
  by (simp only: copy_open_src_def mask_simps)

lemma copy_loop_mask:
  "copy_loop e src dst tot pos off rep (mask p q sh) =
   (case copy_loop e src dst tot pos off rep sh of (m, n, s) \<Rightarrow> (m, n, mask p q s))"
proof (induction e src dst tot pos off rep sh rule: copy_loop.induct)
  case (1 e src dst tot pos off rep sh)
  obtain r sh1 where r: "copy_read e src tot pos off sh = (r, sh1)" by (cases "copy_read e src tot pos off sh")
  then have rm: "copy_read e src tot pos off (mask p q sh) = (r, mask p q sh1)"
    by (simp add: mask_copy_read mask2_def)
  show ?case
  proof (cases r)
    case (Inl m)
    with r rm show ?thesis by (subst (1 2) copy_loop.simps) simp
  next
    case (Inr data)
    obtain w sh2 where w: "copy_write e dst off data sh1 = (w, sh2)" by (cases "copy_write e dst off data sh1")
    then have wm: "copy_write e dst off data (mask p q sh1) = (w, mask p q sh2)"
      by (simp add: mask_copy_write mask2_def)
    let ?n = "off + of_nat (length data)"
    obtain rp sh3 where pr: "copy_progress ?n (rep, sh2) = (rp, sh3)" by (cases "copy_progress ?n (rep, sh2)")
    then have pm: "copy_progress ?n (rep, mask p q sh2) = (rp, mask p q sh3)"
      using mask_copy_progress[of ?n p q "(rep, sh2)"] by (simp add: mask2_def)
    from 1[OF r[symmetric] Inr w[symmetric] _ pr[symmetric]] r rm w wm pr pm Inr show ?thesis
      by (subst (1 2) copy_loop.simps) (cases w; simp)
  qed
qed

lemma mask_copied [mask_simps]:
  "(case copy_loop e src dst tot pos off rep (mask p q sh) of (m, n, s) \<Rightarrow> k m n s) =
   (case copy_loop e src dst tot pos off rep sh of (m, n, s) \<Rightarrow> k m n (mask p q s))"
  by (simp add: copy_loop_mask split: prod.splits)

definition mask_sink :: "string \<Rightarrow> string \<Rightarrow> 'w copy_sink \<Rightarrow> 'w copy_sink" where
  "mask_sink p q s = s\<lparr>cs_sh := mask p q (cs_sh s)\<rparr>"

lemma mask_sink_write:
  "copy_sink_write e data (mask_sink p q s) = (case copy_sink_write e data s of (b, t) \<Rightarrow> (b, mask_sink p q t))"
proof -
  obtain m sh1 where w: "copy_write e (cs_dst s) (cs_off s) data (cs_sh s) = (m, sh1)"
    by (cases "copy_write e (cs_dst s) (cs_off s) data (cs_sh s)")
  let ?n = "cs_off s + of_nat (length data)"
  obtain rp sh2 where pr: "copy_progress ?n (cs_reported s, sh1) = (rp, sh2)" by (cases "copy_progress ?n (cs_reported s, sh1)")
  then have "copy_progress ?n (cs_reported s, mask p q sh1) = (rp, mask p q sh2)"
    using mask_copy_progress[of ?n p q "(cs_reported s, sh1)"] by (simp add: mask2_def)
  with w pr show ?thesis
    by (cases m) (simp_all add: copy_sink_write_def mask_sink_def mask_copy_write mask2_def)
qed

lemma http_data_map:
  assumes "\<And>d s. sink d (f s) = (case sink d s of (b, t) \<Rightarrow> (b, f t))"
  shows "fold (on_http_data sink) evs (n, ab, f s) =
         (case fold (on_http_data sink) evs (n, ab, s) of (n, ab, t) \<Rightarrow> (n, ab, f t))"
proof (induction evs arbitrary: n ab s)
  case (Cons x evs)
  have "on_http_data sink x (n, ab, f s) = (case on_http_data sink x (n, ab, s) of (n, ab, t) \<Rightarrow> (n, ab, f t))"
    by (auto simp: on_http_data_def assms split: prod.splits)
  then show ?case using Cons.IH by (cases "on_http_data sink x (n, ab, s)") simp
qed simp

lemma http_get_map:
  assumes "\<And>d s. sink d (f s) = (case sink d s of (b, t) \<Rightarrow> (b, f t))"
  shows "http_get sink run (f s) = (case http_get sink run s of (err, got, t) \<Rightarrow> (err, got, f t))"
  by (simp add: http_get_def http_data_map[of sink f, OF assms] split: prod.splits)

lemma mask_http [mask_simps]:
  "(case http_get (copy_sink_write e) run \<lparr>cs_dst = d, cs_off = x, cs_err = y, cs_reported = z, cs_sh = mask p q sh\<rparr> of
      (err, got, s) \<Rightarrow> copy_finish e dst (g err s) got (cs_sh s)) =
   (case http_get (copy_sink_write e) run \<lparr>cs_dst = d, cs_off = x, cs_err = y, cs_reported = z, cs_sh = sh\<rparr> of
      (err, got, s) \<Rightarrow> mask2 p q (copy_finish e dst (g err (mask_sink p q s)) got (cs_sh s)))"
  using http_get_map[of "copy_sink_write e" "mask_sink p q" run
      "\<lparr>cs_dst = d, cs_off = x, cs_err = y, cs_reported = z, cs_sh = sh\<rparr>", OF mask_sink_write]
  by (auto simp: mask_sink_def mask_copy_finish split: prod.splits)

lemma mask_sink_err [mask_simps]: "cs_err (mask_sink p q s) = cs_err s"
  by (simp add: mask_sink_def)

lemma mask_copy_http [mask_simps]: "copy_http e url name rem (mask p q sh) = mask2 p q (copy_http e url name rem sh)"
  by (simp only: copy_http_def mask_simps)

lemma mask_cmd_copy [mask_simps]: "cmd_copy e args (mask p q sh) = mask2 p q (cmd_copy e args sh)"
  by (simp only: cmd_copy_def mask_simps)

section \<open>Settings, links and reports\<close>

lemma mask_cmd_version [mask_simps]: "cmd_version args (mask p q sh) = mask2 p q (cmd_version args sh)"
  by (simp only: cmd_version_def mask_simps)

lemma mask_cmd_reboot [mask_simps]: "cmd_reboot e args (mask p q sh) = mask2 p q (cmd_reboot e args sh)"
  by (simp only: cmd_reboot_def mask_simps)

lemma mask_cmd_hostname [mask_simps]: "cmd_hostname args (mask p q sh) = mask2 p q (cmd_hostname args sh)"
  by (simp only: cmd_hostname_def mask_simps)

lemma mask_cmd_ssid [mask_simps]: "cmd_ssid args (mask p q sh) = mask2 p q (cmd_ssid args sh)"
  by (simp only: cmd_ssid_def mask_simps)

lemma mask_cmd_ftpuser [mask_simps]: "cmd_ftpuser args (mask p q sh) = mask2 p q (cmd_ftpuser args sh)"
  by (simp only: cmd_ftpuser_def mask_simps)

lemma mask_cmd_tz [mask_simps]: "cmd_tz e args (mask p q sh) = mask2 p q (cmd_tz e args sh)"
  by (simp only: cmd_tz_def mask_simps)

lemma mask_cmd_time [mask_simps]: "cmd_time e args (mask p q sh) = mask2 p q (cmd_time e args sh)"
  by (simp only: cmd_time_def mask_simps)

lemma mask_cmd_logout [mask_simps]: "cmd_logout args (mask p q sh) = mask2 p q (cmd_logout args sh)"
  by (simp only: cmd_logout_def mask_simps)

lemma mask_bauds_list [mask_simps]: "bauds_list (mask p q sh) = mask p q (bauds_list sh)"
  by (simp only: bauds_list_def mask_simps)

lemma mask_cmd_baud [mask_simps]: "cmd_baud args (mask p q sh) = mask2 p q (cmd_baud args sh)"
  by (simp only: cmd_baud_def mask_simps)

lemma mask_print_fdc_interface [mask_simps]: "print_fdc_interface s indent (mask p q sh) = mask p q (print_fdc_interface s indent sh)"
  by (simp only: print_fdc_interface_def mask_simps)

lemma mask_stat_line [mask_simps]: "stat_line label n (mask p q sh) = mask p q (stat_line label n sh)"
  by (simp only: stat_line_def mask_simps)

lemma mask_stat_line_of [mask_simps]: "stat_line_of label n what (mask p q sh) = mask p q (stat_line_of label n what sh)"
  by (simp only: stat_line_of_def mask_simps)

lemma mask_cmd_stats [mask_simps]: "cmd_stats args (mask p q sh) = mask2 p q (cmd_stats args sh)"
  by (simp only: cmd_stats_def mask_simps)

lemma mask_cmd_clear [mask_simps]: "cmd_clear args (mask p q sh) = mask2 p q (cmd_clear args sh)"
  by (simp only: cmd_clear_def mask_simps)

lemma mask_cmd_loopback [mask_simps]: "cmd_loopback e args (mask p q sh) = mask2 p q (cmd_loopback e args sh)"
  by (auto simp: cmd_loopback_def mask_parts mask_upd mask2_def Let_def split: prod.splits esp_err.splits option.splits)

lemma mask_cmd_fdctcp [mask_simps]: "cmd_fdctcp args (mask p q sh) = mask2 p q (cmd_fdctcp args sh)"
  by (simp only: cmd_fdctcp_def mask_simps)

lemma mask_cmd_log [mask_simps]: "cmd_log e args (mask p q sh) = mask2 p q (cmd_log e args sh)"
  by (simp only: cmd_log_def mask_simps)

lemma mask_cmd_telnetd [mask_simps]: "cmd_telnetd args (mask p q sh) = mask2 p q (cmd_telnetd args sh)"
  by (simp only: cmd_telnetd_def service_switch_def mask_simps)

lemma mask_cmd_ftpd [mask_simps]: "cmd_ftpd args (mask p q sh) = mask2 p q (cmd_ftpd args sh)"
  by (simp only: cmd_ftpd_def service_switch_def mask_simps)

lemma mask_cmd_tnfsd [mask_simps]: "cmd_tnfsd args (mask p q sh) = mask2 p q (cmd_tnfsd args sh)"
  by (simp only: cmd_tnfsd_def service_switch_def mask_simps)

lemma mask_cmd_wifi [mask_simps]:
  "length args < 2 \<Longrightarrow> cmd_wifi e args (mask p q sh) = mask2 p q (cmd_wifi e args sh)"
proof -
  assume "length args < 2"
  then have "\<not> length args > 1" by simp
  then show ?thesis by (simp only: cmd_wifi_def if_False mask_simps)
qed

lemma mask_help_values [mask_simps]: "help_values fn (mask p q sh) = mask p q (help_values fn sh)"
  by (simp only: help_values_def mask_simps)

lemma mask_help_one [mask_simps]: "help_one t (mask p q sh) = mask p q (help_one t sh)"
  by (simp only: help_one_def mask_simps)

lemma mask_cmd_help [mask_simps]: "cmd_help args (mask p q sh) = mask2 p q (cmd_help args sh)"
  by (simp only: cmd_help_def mask_simps)

lemma mask_diag_hardware [mask_simps]: "diag_hardware e (mask p q sh) = mask p q (diag_hardware e sh)"
  by (simp only: diag_hardware_def mask_simps)

lemma mask_diag_config [mask_simps]: "diag_config (mask p q sh) = mask p q (diag_config sh)"
  by (simp only: diag_config_def let_config mask_simps)

lemma mask_diag_wifi [mask_simps]: "diag_wifi e (mask p q sh) = mask p q (diag_wifi e sh)"
  by (simp only: diag_wifi_def let_config mask_simps)

lemma mask_file_is_regular [mask_simps]: "file_is_regular e path (mask p q sh) = file_is_regular e path sh"
  by (simp only: file_is_regular_def mask_simps)

lemma mask_diag_card [mask_simps]: "diag_card e (mask p q sh) = mask p q (diag_card e sh)"
  by (simp only: diag_card_def mask_simps)

lemma mask_diag_link [mask_simps]: "diag_link (mask p q sh) = mask p q (diag_link sh)"
  by (simp only: diag_link_def mask_simps)

lemma mask_cmd_diag [mask_simps]: "cmd_diag e args (mask p q sh) = mask2 p q (cmd_diag e args sh)"
  by (simp only: cmd_diag_def mask_simps)

section \<open>Updates\<close>

lemma mask_image_file_version [mask_simps]: "image_file_version e path (mask p q sh) = mask2 p q (image_file_version e path sh)"
  by (simp only: image_file_version_def mask_simps)

lemma mask_https_image_version [mask_simps]: "https_image_version e url (mask p q sh) = mask2 p q (https_image_version e url sh)"
  by (simp only: https_image_version_def mask_simps)

lemma mask_report_install_version [mask_simps]: "report_install_version v (mask p q sh) = mask p q (report_install_version v sh)"
  by (simp only: report_install_version_def mask_simps)

lemma mask_progress [mask_simps]: "progress n tot (mask2 p q r) = mask2 p q (progress n tot r)"
  by (simp only: progress_def mask_simps)

lemma flash_loop_mask:
  "flash_loop e f h tot pos (m, mask p q sh) = mask2 p q (flash_loop e f h tot pos (m, sh))"
proof (induction e f h tot pos "(m, sh)" arbitrary: m sh rule: flash_loop.induct)
  case (1 e f h tot pos m sh)
  let ?data = "fread (x_io e) f pos 4096 (sh_ext sh)"
  let ?n = "int (pos + length ?data)"
  obtain err sh1 where w: "call (oa_write (x_ota e) h ?data) sh = (err, sh1)"
    by (cases "call (oa_write (x_ota e) h ?data) sh")
  then have wm: "call (oa_write (x_ota e) h ?data) (mask p q sh) = (err, mask p q sh1)"
    by (simp add: mask_call mask2_def)
  obtain m2 sh2 where g: "progress ?n tot (m, sh1) = (m2, sh2)" by (cases "progress ?n tot (m, sh1)")
  then have gm: "progress ?n tot (m, mask p q sh1) = (m2, mask p q sh2)"
    using mask_progress[of ?n tot p q "(m, sh1)"] by (simp add: mask2_def)
  have "?data \<noteq> [] \<Longrightarrow> err = ESP_OK \<Longrightarrow>
      flash_loop e f h tot (pos + length ?data) (m2, mask p q sh2) =
      mask2 p q (flash_loop e f h tot (pos + length ?data) (m2, sh2))"
    using 1[of ?data err sh1 m2 sh2] w g by simp
  with w wm g gm show ?case
    by (subst (1 2) flash_loop.simps) (simp add: Let_def mask_parts mask2_def)
qed

lemma mask_flash_loop [mask_simps]: "flash_loop e f h tot pos (mask2 p q r) = mask2 p q (flash_loop e f h tot pos r)"
  using flash_loop_mask[of e f h tot pos "fst r" p q "snd r"] by (simp add: mask2_def)

lemma mask_sd_flash [mask_simps]: "sd_flash e tot f (mask p q sh) = mask2 p q (sd_flash e tot f sh)"
  by (simp only: sd_flash_def mask_simps)

lemma mask_do_sd [mask_simps]: "do_sd e (mask p q sh) = mask2 p q (do_sd e sh)"
  by (simp only: do_sd_def mask_simps)

lemma mask_do_https [mask_simps]: "do_https e url (mask p q sh) = mask2 p q (do_https e url sh)"
  by (simp only: do_https_def mask_simps)

lemma mask_do_repo [mask_simps]: "do_repo e (mask p q sh) = mask2 p q (do_repo e sh)"
  by (simp only: do_repo_def mask_simps)

lemma mask_do_url [mask_simps]: "do_url e url (mask p q sh) = mask2 p q (do_url e url sh)"
  by (simp only: do_url_def mask_simps)

lemma mask_report_local [mask_simps]: "report_local e (mask p q sh) = mask p q (report_local e sh)"
  by (simp only: report_local_def mask_simps)

lemma mask_report_ota [mask_simps]: "report_ota e (mask p q sh) = mask p q (report_ota e sh)"
  by (simp only: report_ota_def mask_simps)

lemma mask_do_status [mask_simps]: "do_status e (mask p q sh) = mask2 p q (do_status e sh)"
  by (simp only: do_status_def mask_simps)

lemma mask_ota_task [mask_simps]: "ota_task e src (mask p q sh) = mask2 p q (ota_task e src sh)"
  by (cases src; simp only: ota_task_def ota_src.case mask_simps)

lemma mask_ota_run [mask_simps]: "ota_run e src (mask p q sh) = mask2 p q (ota_run e src sh)"
  by (simp only: ota_run_def mask_simps)

lemma mask_cmd_update [mask_simps]: "cmd_update e args (mask p q sh) = mask2 p q (cmd_update e args sh)"
  by (simp only: cmd_update_def ota_entries mask_simps)

section \<open>All commands\<close>

lemma mask_pass_query [mask_simps]:
  "length args < 2 \<Longrightarrow> cmd_pass args (mask p q sh) = mask2 p q (cmd_pass args sh)"
  "length args < 2 \<Longrightarrow> cmd_ftppass args (mask p q sh) = mask2 p q (cmd_ftppass args sh)"
  by (simp_all only: cmd_pass_def cmd_ftppass_def if_True mask_simps)

definition shows_no_secret :: "cli_cmd \<Rightarrow> string list \<Rightarrow> bool" where
  "shows_no_secret c args \<longleftrightarrow> c \<noteq> Save \<and> c \<noteq> Exec \<and> (c = Wifi \<longrightarrow> length args < 2)"

definition keeps_secrets :: "cli_cmd \<Rightarrow> string list \<Rightarrow> bool" where
  "keeps_secrets c args \<longleftrightarrow>
     shows_no_secret c args \<and> c \<noteq> Wipe \<and> (c = Pass \<or> c = Ftppass \<longrightarrow> length args < 2)"

lemma mask_commands:
  assumes "keeps_secrets c args"
  shows "commands e disp c args (mask p q sh) = mask2 p q (commands e disp c args sh)"
  using assms
  by (cases c; simp only: commands.simps keeps_secrets_def shows_no_secret_def cli_cmd.distinct mask_simps simp_thms)

definition same_public :: "'w shell \<Rightarrow> 'w shell \<Rightarrow> bool" where
  "same_public sh sh' \<longleftrightarrow> mask [] [] sh = mask [] [] sh'"

lemma same_public_con: "same_public sh sh' \<Longrightarrow> sh_con sh = sh_con sh'"
  unfolding same_public_def by (metis mask_parts(4))

lemma same_public_loaded:
  assumes "same_public sh sh'"
  shows "s_loaded (sh_cfg sh) = s_loaded (sh_cfg sh')"
proof -
  have "s_loaded (sh_cfg (mask [] [] sh)) = s_loaded (sh_cfg sh)" for sh :: "'a shell" by (simp add: mask_def)
  with assms show ?thesis unfolding same_public_def by metis
qed

lemma set_str_con: "sh_con (set_str k s sh) = sh_con sh"
  by (simp add: set_str_def upd_cfg_def)

lemma say_con: "sh_con (say s sh) = cli_writen s (sh_con sh)" "sh_con (sayf s sh) = cli_printf s (sh_con sh)"
  by (simp_all add: say_def sayf_def)

lemma set_secret_output:
  assumes "sh_con sh = sh_con sh'" "\<not> length args < 2"
  shows "fst (cmd_pass args sh) = fst (cmd_pass args sh')"
    "sh_con (snd (cmd_pass args sh)) = sh_con (snd (cmd_pass args sh'))"
    "fst (cmd_ftppass args sh) = fst (cmd_ftppass args sh')"
    "sh_con (snd (cmd_ftppass args sh)) = sh_con (snd (cmd_ftppass args sh'))"
  using assms by (simp_all add: cmd_pass_def cmd_ftppass_def say_con set_str_con)

lemma wipe_public:
  assumes "same_public sh sh'"
  shows "fst (cmd_wipe e args sh) = fst (cmd_wipe e args sh')"
    "same_public (snd (cmd_wipe e args sh)) (snd (cmd_wipe e args sh'))"
proof -
  obtain rc c w where r: "config_wipe (x_nvs e) (sh_ext sh) (sh_cfg sh) = (rc, c, w)"
    by (cases "config_wipe (x_nvs e) (sh_ext sh) (sh_cfg sh)")
  obtain rc' c' w' where r': "config_wipe (x_nvs e) (sh_ext sh') (sh_cfg sh') = (rc', c', w')"
    by (cases "config_wipe (x_nvs e) (sh_ext sh') (sh_cfg sh')")
  have x: "sh_ext sh = sh_ext sh'"
    using assms unfolding same_public_def by (metis mask_parts(1))
  have rw: "rc' = rc" "w' = w" "rc \<noteq> NVS_OK \<longrightarrow> c = sh_cfg sh \<and> c' = sh_cfg sh'"
    "rc = NVS_OK \<longrightarrow> c = c'"
    using r r' x same_public_loaded[OF assms] by (auto simp: config_wipe_def Let_def split: if_splits)
  show "fst (cmd_wipe e args sh) = fst (cmd_wipe e args sh')"
    using rw by (simp add: cmd_wipe_def r r' Let_def)
  have m: "mask [] [] (sh\<lparr>sh_cfg := c, sh_ext := w\<rparr>) = mask [] [] (sh'\<lparr>sh_cfg := c', sh_ext := w\<rparr>)"
  proof (cases "rc = NVS_OK")
    case True
    with rw have "c = c'" by simp
    moreover have "sh\<lparr>sh_cfg := c', sh_ext := w\<rparr> = (mask [] [] sh)\<lparr>sh_cfg := c', sh_ext := w\<rparr>" for sh :: "'a shell"
      by (simp add: mask_def)
    ultimately show ?thesis using assms unfolding same_public_def by metis
  next
    case False
    have "(sh :: 'a shell)\<lparr>sh_cfg := sh_cfg sh, sh_ext := w\<rparr> = sh\<lparr>sh_ext := w\<rparr>" for sh by simp
    then show ?thesis using False rw assms by (simp add: same_public_def flip: mask_upd(6))
  qed
  have "mask [] [] (say t (sh\<lparr>sh_cfg := c, sh_ext := w\<rparr>)) = mask [] [] (say t (sh'\<lparr>sh_cfg := c', sh_ext := w\<rparr>))" for t
    by (simp only: mask_upd(1)[symmetric] m)
  with rw(1,2) show "same_public (snd (cmd_wipe e args sh)) (snd (cmd_wipe e args sh'))"
    by (simp add: cmd_wipe_def r r' Let_def same_public_def del: mask_upd)
qed

text \<open>
  C36. What a command prints and returns does not depend on the WiFi and the FTP password, only on
  whether each is set: two consoles whose states differ in the passwords alone get the same
  answer to every command, \<open>diag\<close> and \<open>wifi\<close> included, and remain alike unless the command sets a
  password (then whether it replaced another one decides the mark of unsaved changes). \<open>save\<close> and \<open>wifi on\<close> hand the passwords to the flash and the driver, whose answers they
  print, and are left out, as is \<open>exec\<close>, which may run them.
\<close>

theorem passwords_hidden:
  assumes "same_public sh sh'" "shows_no_secret c args"
  shows "fst (commands e disp c args sh) = fst (commands e disp c args sh') \<and>
    cn_out (sh_con (snd (commands e disp c args sh))) = cn_out (sh_con (snd (commands e disp c args sh'))) \<and>
    ((c = Pass \<or> c = Ftppass) \<and> 2 \<le> length args \<or>
      same_public (snd (commands e disp c args sh)) (snd (commands e disp c args sh')))"
proof (cases "keeps_secrets c args")
  case True
  have "mask2 [] [] (commands e disp c args sh) = mask2 [] [] (commands e disp c args sh')"
    using mask_commands[OF True, of e disp "[]" "[]"] assms(1) unfolding same_public_def by metis
  then have "fst (commands e disp c args sh) = fst (commands e disp c args sh')"
    "same_public (snd (commands e disp c args sh)) (snd (commands e disp c args sh'))"
    by (simp_all add: mask2_def same_public_def)
  then show ?thesis using same_public_con by metis
next
  case False
  with assms(2) consider "c = Wipe" | "c = Pass \<or> c = Ftppass" "\<not> length args < 2"
    by (auto simp: keeps_secrets_def)
  then show ?thesis
  proof cases
    case 1
    then show ?thesis using wipe_public[OF assms(1), of e args] same_public_con by (simp add: same_public_con)
  next
    case 2
    then show ?thesis using set_secret_output[OF same_public_con[OF assms(1)], of args] by auto
  qed
qed

definition demo_with_pass :: "string \<Rightarrow> card shell" where
  "demo_with_pass s = (let sh = demo_shell (demo_card []) in
     sh\<lparr>sh_cfg := (sh_cfg sh)\<lparr>s_cfg := (s_cfg (sh_cfg sh))\<lparr>wifi_pass := s\<rparr>\<rparr>\<rparr>)"

lemma demo_same_public: "s \<noteq> [] \<Longrightarrow> t \<noteq> [] \<Longrightarrow> same_public (demo_with_pass s) (demo_with_pass t)"
  by (simp add: same_public_def demo_with_pass_def mask_def hide_def Let_def)

lemma passwords_hidden_witness:
  "demo_with_pass ''secret'' \<noteq> demo_with_pass ''other'' \<and>
   cn_out (sh_con (snd (commands demo_sh_env (\<lambda>l sh. sh) Diag [''diag''] (demo_with_pass ''secret'')))) =
   cn_out (sh_con (snd (commands demo_sh_env (\<lambda>l sh. sh) Diag [''diag''] (demo_with_pass ''other''))))"
proof
  show "demo_with_pass ''secret'' \<noteq> demo_with_pass ''other''"
  proof
    assume "demo_with_pass ''secret'' = demo_with_pass ''other''"
    then have "wifi_pass (config_get (demo_with_pass ''secret'')) = wifi_pass (config_get (demo_with_pass ''other''))"
      by (rule arg_cong)
    then show False by (simp add: demo_with_pass_def Let_def config_get_def)
  qed
qed (use passwords_hidden[OF demo_same_public[of "''secret''" "''other''"], of Diag "[''diag'']" demo_sh_env "\<lambda>l sh. sh"]
    in \<open>simp add: shows_no_secret_def\<close>)

end
