(* ===== verification/FtpServer.thy ===== *)
theory FtpServer
  imports Shell "HOL-Library.Monad_Syntax"
begin

text \<open>
  The FTP server in \<^verbatim>\<open>lib/esp-idf-ftpServer\<close> (the project's copy, with its change guard and its
  credentials from the settings) and the task in \<^verbatim>\<open>src/net/ftp.c\<close> that pumps it. One call of
  \<open>ftp_run\<close> is a step. The result \<open>None\<close> is undefined behaviour of C: a buffer or a stack array
  written past its end, a stream closed as a folder or twice freed memory. Waiting and logging
  are left out.
\<close>

section \<open>Data and surroundings\<close>

datatype ftp_state = E_FTP_STE_DISABLED | E_FTP_STE_START | E_FTP_STE_READY | E_FTP_STE_END_TRANSFER
  | E_FTP_STE_CONTINUE_LISTING | E_FTP_STE_CONTINUE_FILE_TX | E_FTP_STE_CONTINUE_FILE_RX

datatype ftp_substate = E_FTP_STE_SUB_DISCONNECTED | E_FTP_STE_SUB_LISTEN_FOR_DATA | E_FTP_STE_SUB_DATA_CONNECTED

datatype ftp_result = E_FTP_RESULT_OK | E_FTP_RESULT_CONTINUE | E_FTP_RESULT_FAILED

datatype ftp_e_open = E_FTP_NOTHING_OPEN | E_FTP_FILE_OPEN | E_FTP_DIR_OPEN

datatype ftp_cmd =
    E_FTP_CMD_FEAT | E_FTP_CMD_SYST | E_FTP_CMD_CDUP | E_FTP_CMD_CWD | E_FTP_CMD_PWD | E_FTP_CMD_XPWD
  | E_FTP_CMD_SIZE | E_FTP_CMD_MDTM | E_FTP_CMD_TYPE | E_FTP_CMD_USER | E_FTP_CMD_PASS | E_FTP_CMD_PASV
  | E_FTP_CMD_LIST | E_FTP_CMD_RETR | E_FTP_CMD_STOR | E_FTP_CMD_DELE | E_FTP_CMD_RMD | E_FTP_CMD_MKD
  | E_FTP_CMD_RNFR | E_FTP_CMD_RNTO | E_FTP_CMD_NOOP | E_FTP_CMD_QUIT | E_FTP_CMD_APPE | E_FTP_CMD_NLST
  | E_FTP_CMD_AUTH

abbreviation (input) FTP_CMD_SIZE_MAX :: nat where "FTP_CMD_SIZE_MAX \<equiv> 6"
abbreviation (input) FTP_MAX_PARAM_SIZE :: nat where "FTP_MAX_PARAM_SIZE \<equiv> 513"
abbreviation (input) FTP_CMD_BUFFER :: nat where "FTP_CMD_BUFFER \<equiv> 519"
abbreviation (input) FTP_FULLNAME :: nat where "FTP_FULLNAME \<equiv> 128"
abbreviation (input) FTP_USER_PASS_LEN_MAX :: nat where "FTP_USER_PASS_LEN_MAX \<equiv> 32"
abbreviation (input) FTP_DATA_TIMEOUT_MS :: int where "FTP_DATA_TIMEOUT_MS \<equiv> 10000"
abbreviation (input) FTP_CMD_TIMEOUT_MS :: u32 where "FTP_CMD_TIMEOUT_MS \<equiv> 300000"
abbreviation (input) FTP_CMD_PORT :: nat where "FTP_CMD_PORT \<equiv> 21"
abbreviation (input) FTP_PASIVE_DATA_PORT :: nat where "FTP_PASIVE_DATA_PORT \<equiv> 2024"
abbreviation (input) FTP_UNIX_SECONDS_180_DAYS :: int where "FTP_UNIX_SECONDS_180_DAYS \<equiv> 15552000"
abbreviation (input) FTP_XFER_BUF :: nat where "FTP_XFER_BUF \<equiv> 4096"
abbreviation (input) FTP_GUARD_MSG :: string where "FTP_GUARD_MSG \<equiv> ''File in use by a mounted drive''"
abbreviation (input) FTP_NUL :: char where "FTP_NUL \<equiv> CHR 0x00"

text \<open>
  The union of \<^verbatim>\<open>DIR *dp\<close> and \<^verbatim>\<open>FILE *fp\<close>: a stream with its read position, or a folder with the
  entries that \<^verbatim>\<open>readdir\<close> has left. A heap block may be absent, live or freed with a pointer left.
\<close>

datatype ftp_ptr = NullPtr | FilePtr int nat | DirPtr int "dirent list"

datatype heap_block = NoBlock | LiveBlock | FreedBlock

record 'w ftp =
  ft_world :: 'w
  ft_disk :: disk_state
  ft_stop :: bool
  ft_buff_size :: nat
  ft_root :: string
  ft_guarded :: bool
  ft_refused :: bool
  ft_user :: string
  ft_pass :: string
  ft_path :: string
  ft_scratch :: string
  ft_nlist :: bool
  ft_dbuf :: bytes
  ft_ctimeout :: u32
  ft_ptr :: ftp_ptr
  ft_lc_sd :: int
  ft_ld_sd :: int
  ft_c_sd :: int
  ft_d_sd :: int
  ft_dtimeout :: u32
  ft_ip_addr :: u32
  ft_state :: ftp_state
  ft_substate :: ftp_substate
  ft_txretries :: byte
  ft_logginretries :: byte
  ft_uservalid :: bool
  ft_passvalid :: bool
  ft_e_open :: ftp_e_open
  ft_closechild :: bool
  ft_enabled :: bool
  ft_listroot :: bool
  ft_total :: u32
  ft_time :: u32
  ft_m_path :: heap_block
  ft_m_cmd :: heap_block
  ft_m_dbuf :: heap_block
  ft_m_scratch :: heap_block

text \<open>
  lwIP's sockets: a send gives the return value and whether \<^verbatim>\<open>errno\<close> is \<^verbatim>\<open>EAGAIN\<close> afterwards, a
  receive the bytes (none when the call gives zero or an error). The rest are stdio, the
  folders, the clock and the date formats of the C library, the heap and the disk store's own
  surroundings.
\<close>

record 'w ftp_env =
  fn_socket :: "'w \<Rightarrow> int \<times> 'w"
  fn_bind_listen :: "int \<Rightarrow> nat \<Rightarrow> 'w \<Rightarrow> bool \<times> 'w"
  fn_accept :: "int \<Rightarrow> 'w \<Rightarrow> (int \<times> bool) \<times> 'w"
  fn_local_ip :: "int \<Rightarrow> 'w \<Rightarrow> u32"
  fn_nonblock :: "int \<Rightarrow> 'w \<Rightarrow> 'w"
  fn_send :: "int \<Rightarrow> bytes \<Rightarrow> 'w \<Rightarrow> (int \<times> bool) \<times> 'w"
  fn_recv :: "int \<Rightarrow> nat \<Rightarrow> 'w \<Rightarrow> (bytes \<times> bool) \<times> 'w"
  fn_close :: "int \<Rightarrow> 'w \<Rightarrow> 'w"
  fe_io :: "'w stdio"
  fe_open_a :: "string \<Rightarrow> 'w \<Rightarrow> (errno + int) \<times> 'w"
  fe_fs :: "'w vfs"
  fe_now :: "'w \<Rightarrow> int"
  fe_date :: "bool \<Rightarrow> int \<Rightarrow> string"
  fe_stamp :: "int \<Rightarrow> string"
  fe_malloc :: "nat \<Rightarrow> 'w \<Rightarrow> bool"
  fe_heap :: "nat \<Rightarrow> 'w \<Rightarrow> bytes"
  fe_disk :: "'w \<Rightarrow> disk_env"

definition fw :: "('w \<Rightarrow> 'w) \<Rightarrow> 'w ftp \<Rightarrow> 'w ftp" where
  "fw g s = s\<lparr>ft_world := g (ft_world s)\<rparr>"

definition fcall :: "('w \<Rightarrow> 'a \<times> 'w) \<Rightarrow> 'w ftp \<Rightarrow> 'a \<times> 'w ftp" where
  "fcall g s = (case g (ft_world s) of (x, w) \<Rightarrow> (x, s\<lparr>ft_world := w\<rparr>))"

text \<open>\<^verbatim>\<open>fullname\<close>, an array of 128 characters filled by \<^verbatim>\<open>strcpy\<close> and \<^verbatim>\<open>strcat\<close>.\<close>

definition fullname :: "'w ftp \<Rightarrow> string \<Rightarrow> string option" where
  "fullname s path = (if length (ft_root s @ path) < FTP_FULLNAME then Some (ft_root s @ path) else None)"

text \<open>A write at the start of the data buffer, and the C string that is there.\<close>

definition dbuf_put :: "bytes \<Rightarrow> 'w ftp \<Rightarrow> 'w ftp option" where
  "dbuf_put bs s = (if length bs \<le> length (ft_dbuf s) then Some (s\<lparr>ft_dbuf := bs @ drop (length bs) (ft_dbuf s)\<rparr>) else None)"

definition dbuf_str :: "'w ftp \<Rightarrow> string option" where
  "dbuf_str s = (if 0 \<in> set (ft_dbuf s) then Some (chars (takeWhile (\<lambda>b. b \<noteq> 0) (ft_dbuf s))) else None)"

section \<open>The change guard\<close>

definition ftp_change_begin :: "'w ftp_env \<Rightarrow> string \<Rightarrow> 'w ftp \<Rightarrow> bool \<times> 'w ftp" where
  "ftp_change_begin e full s =
     (let s = s\<lparr>ft_refused := False\<rparr>
      in if ft_guarded s
         then (case disk_change_begin (fe_disk e (ft_world s)) full (ft_disk s) of
                 (d, dk) \<Rightarrow> let s = s\<lparr>ft_disk := dk\<rparr>
                            in if \<not> d < 0 then (False, s\<lparr>ft_refused := True\<rparr>) else (True, s))
         else (True, s))"

definition ftp_change_end :: "'w ftp \<Rightarrow> 'w ftp" where
  "ftp_change_end s = (if ft_guarded s then s\<lparr>ft_disk := disk_change_end (ft_disk s)\<rparr> else s)"

definition ftp_fail_msg :: "'w ftp \<Rightarrow> string" where
  "ftp_fail_msg s = (if ft_refused s then FTP_GUARD_MSG else [])"

section \<open>Files and folders\<close>

datatype ftp_mode = Mode_rb | Mode_wb | Mode_ab

definition ftp_fopen :: "'w ftp_env \<Rightarrow> ftp_mode \<Rightarrow> string \<Rightarrow> 'w \<Rightarrow> (errno + int) \<times> 'w" where
  "ftp_fopen e mode =
     (case mode of Mode_rb \<Rightarrow> f_open_r (fe_io e) | Mode_wb \<Rightarrow> f_open_w (fe_io e) | Mode_ab \<Rightarrow> fe_open_a e)"

definition ftp_open_file :: "'w ftp_env \<Rightarrow> string \<Rightarrow> ftp_mode \<Rightarrow> 'w ftp \<Rightarrow> (bool \<times> 'w ftp) option" where
  "ftp_open_file e path mode s = do {
     full \<leftarrow> fullname s path;
     let s = s\<lparr>ft_refused := False\<rparr>;
     let (go, s) = (if mode \<noteq> Mode_rb then ftp_change_begin e full s else (True, s));
     if \<not> go then Some (False, s)
     else do {
       let (r, s) = fcall (ftp_fopen e mode full) s;
       let s = (if mode \<noteq> Mode_rb then ftp_change_end s else s);
       case r of
         Inl _ \<Rightarrow> Some (False, s\<lparr>ft_ptr := NullPtr\<rparr>)
       | Inr f \<Rightarrow> Some (True, s\<lparr>ft_ptr := FilePtr f 0, ft_e_open := E_FTP_FILE_OPEN\<rparr>)
     }
   }"

definition ftp_fclose :: "'w ftp_env \<Rightarrow> 'w ftp \<Rightarrow> 'w ftp option" where
  "ftp_fclose e s = (case ft_ptr s of FilePtr f _ \<Rightarrow> Some ((snd (fcall (f_close (fe_io e) f) s))\<lparr>ft_ptr := NullPtr\<rparr>) | _ \<Rightarrow> None)"

definition ftp_closedir :: "'w ftp_env \<Rightarrow> 'w ftp \<Rightarrow> 'w ftp option" where
  "ftp_closedir e s = (case ft_ptr s of DirPtr d _ \<Rightarrow> Some ((fw (v_closedir (fe_fs e) d) s)\<lparr>ft_ptr := NullPtr\<rparr>) | _ \<Rightarrow> None)"

definition ftp_close_files_dir :: "'w ftp_env \<Rightarrow> 'w ftp \<Rightarrow> 'w ftp option" where
  "ftp_close_files_dir e s = do {
     s \<leftarrow> (case ft_e_open s of
             E_FTP_FILE_OPEN \<Rightarrow> ftp_fclose e s
           | E_FTP_DIR_OPEN \<Rightarrow> ftp_closedir e s
           | E_FTP_NOTHING_OPEN \<Rightarrow> Some s);
     Some (s\<lparr>ft_e_open := E_FTP_NOTHING_OPEN\<rparr>)
   }"

definition ftp_close_filesystem_on_error :: "'w ftp_env \<Rightarrow> 'w ftp \<Rightarrow> 'w ftp option" where
  "ftp_close_filesystem_on_error e s = do {
     s \<leftarrow> ftp_close_files_dir e s;
     s \<leftarrow> (if ft_ptr s \<noteq> NullPtr then ftp_fclose e s else Some s);
     if ft_ptr s \<noteq> NullPtr then ftp_closedir e s else Some s
   }"

definition ftp_read_file :: "'w ftp_env \<Rightarrow> nat \<Rightarrow> 'w ftp \<Rightarrow> (ftp_result \<times> bytes \<times> 'w ftp) option" where
  "ftp_read_file e n s =
     (case ft_ptr s of
        FilePtr f pos \<Rightarrow> do {
          let data = fread (fe_io e) f pos n (ft_world s);
          s \<leftarrow> dbuf_put data s;
          let s = s\<lparr>ft_ptr := FilePtr f (pos + length data)\<rparr>;
          if data = [] then do {
            let r = (if f_error (fe_io e) f (ft_world s) then E_FTP_RESULT_FAILED else E_FTP_RESULT_OK);
            s \<leftarrow> ftp_close_files_dir e s;
            Some (r, data, s)
          }
          else if length data < n then do {
            s \<leftarrow> ftp_close_files_dir e s;
            Some (E_FTP_RESULT_OK, data, s)
          }
          else Some (E_FTP_RESULT_CONTINUE, data, s)
        }
      | _ \<Rightarrow> None)"

definition ftp_write_file :: "'w ftp_env \<Rightarrow> bytes \<Rightarrow> 'w ftp \<Rightarrow> (ftp_result \<times> 'w ftp) option" where
  "ftp_write_file e data s =
     (case ft_ptr s of
        FilePtr f _ \<Rightarrow> do {
          let (n, s) = fcall (f_write (fe_io e) f data) s;
          if n = length data then Some (E_FTP_RESULT_OK, s)
          else do { s \<leftarrow> ftp_close_files_dir e s; Some (E_FTP_RESULT_FAILED, s) }
        }
      | _ \<Rightarrow> None)"

definition ftp_open_dir_for_listing :: "'w ftp_env \<Rightarrow> string \<Rightarrow> 'w ftp \<Rightarrow> (ftp_result \<times> 'w ftp) option" where
  "ftp_open_dir_for_listing e path s = do {
     s \<leftarrow> (if ft_ptr s \<noteq> NullPtr then ftp_closedir e s else Some s);
     full \<leftarrow> fullname s path;
     let (r, s) = fcall (v_opendir (fe_fs e) full) s;
     case r of
       Inl _ \<Rightarrow> Some (E_FTP_RESULT_FAILED, s)
     | Inr (d, es) \<Rightarrow> Some (E_FTP_RESULT_CONTINUE, s\<lparr>ft_ptr := DirPtr d es, ft_e_open := E_FTP_DIR_OPEN, ft_listroot := False\<rparr>)
   }"

text \<open>
  One line of a listing. A line that does not fit has the code reallocate from the middle of the
  buffer, or leave \<^verbatim>\<open>ftp_data.dBuffer\<close> pointing to the old one.
\<close>

definition ftp_get_eplf_item :: "'w ftp_env \<Rightarrow> nat \<Rightarrow> dirent \<Rightarrow> 'w ftp \<Rightarrow> string option" where
  "ftp_get_eplf_item e destsize de s = do {
     base \<leftarrow> fullname s (ft_path s);
     full \<leftarrow> fullname s (ft_path s @ (if last base \<noteq> CHR ''/'' then ''/'' else []) @ d_name de);
     let (sz, mtime) = (case v_stat (fe_fs e) full (ft_world s) of Inr st \<Rightarrow> (st_size st, st_mtime st) | Inl _ \<Rightarrow> (0, 946684800));
     let date = fe_date e (mtime + FTP_UNIX_SECONDS_180_DAYS < fe_now e (ft_world s)) mtime;
     let item = (if ft_nlist s then d_name de @ crlf
                 else (if d_isdir de then ''d'' else ''-'') @ ''rw-rw-rw-   1 root  root '' @
                      padl 9 (dec32 (word_of_int sz)) @ '' '' @ date @ '' '' @ d_name de @ crlf);
     if length item < destsize then Some item else None
   }"

fun ftp_list_loop ::
    "'w ftp_env \<Rightarrow> nat \<Rightarrow> 'w ftp \<Rightarrow> dirent list \<Rightarrow> string \<Rightarrow> nat \<Rightarrow> (ftp_result \<times> string \<times> dirent list) option" where
  "ftp_list_loop e maxsize s [] acc n =
     Some (if maxsize - length acc > 64 \<and> n < 8 then E_FTP_RESULT_OK else E_FTP_RESULT_CONTINUE, acc, [])"
| "ftp_list_loop e maxsize s (de # des) acc n =
     (if \<not> (maxsize - length acc > 64 \<and> n < 8) then Some (E_FTP_RESULT_CONTINUE, acc, de # des)
      else if take 1 (d_name de) = ''.'' then ftp_list_loop e maxsize s des acc n
      else do {
        item \<leftarrow> ftp_get_eplf_item e (maxsize - length acc) de s;
        ftp_list_loop e maxsize s des (acc @ item) (n + 1)
      })"

definition ftp_list_dir :: "'w ftp_env \<Rightarrow> nat \<Rightarrow> 'w ftp \<Rightarrow> (ftp_result \<times> bytes \<times> 'w ftp) option" where
  "ftp_list_dir e maxsize s =
     (case ft_ptr s of
        DirPtr d es \<Rightarrow> do {
          (r, acc, es) \<leftarrow> ftp_list_loop e maxsize s es [] 0;
          s \<leftarrow> dbuf_put (ascii acc) s;
          let s = s\<lparr>ft_ptr := DirPtr d es\<rparr>;
          s \<leftarrow> (if r = E_FTP_RESULT_OK then ftp_close_files_dir e s else Some s);
          Some (r, ascii acc, s)
        }
      | _ \<Rightarrow> None)"

section \<open>Sockets\<close>

definition ftp_close_cmd_data :: "'w ftp_env \<Rightarrow> 'w ftp \<Rightarrow> 'w ftp option" where
  "ftp_close_cmd_data e s =
     (let s = fw (fn_close e (ft_d_sd s)) (fw (fn_close e (ft_c_sd s)) s)
      in ftp_close_filesystem_on_error e (s\<lparr>ft_c_sd := -1, ft_d_sd := -1\<rparr>))"

definition ftp_reset_all :: "'w ftp_env \<Rightarrow> 'w ftp \<Rightarrow> 'w ftp option" where
  "ftp_reset_all e s = do {
     let s = fw (fn_close e (ft_ld_sd s)) (fw (fn_close e (ft_lc_sd s)) s);
     s \<leftarrow> ftp_close_cmd_data e (s\<lparr>ft_lc_sd := -1, ft_ld_sd := -1\<rparr>);
     Some (s\<lparr>ft_e_open := E_FTP_NOTHING_OPEN, ft_state := E_FTP_STE_START, ft_substate := E_FTP_STE_SUB_DISCONNECTED\<rparr>)
   }"

definition ftp_create_listening_socket :: "'w ftp_env \<Rightarrow> nat \<Rightarrow> 'w ftp \<Rightarrow> (int \<times> bool) \<times> 'w ftp" where
  "ftp_create_listening_socket e port s =
     (case fcall (fn_socket e) s of
        (sd, s) \<Rightarrow>
          if sd > 0
          then (case fcall (fn_bind_listen e sd port) (fw (fn_nonblock e sd) s) of
                  (listening, s) \<Rightarrow> if listening then ((sd, True), s) else ((sd, False), fw (fn_close e sd) s))
          else ((sd, False), s))"

text \<open>\<open>data\<close> tells the data connection from the command connection, whose address is kept.\<close>

definition ftp_wait_for_connection :: "'w ftp_env \<Rightarrow> bool \<Rightarrow> 'w ftp \<Rightarrow> (ftp_result \<times> 'w ftp) option" where
  "ftp_wait_for_connection e data s = do {
     let l_sd = (if data then ft_ld_sd s else ft_lc_sd s);
     let ((sd, again), s) = fcall (fn_accept e l_sd) s;
     let s = (if data then s\<lparr>ft_d_sd := sd\<rparr> else s\<lparr>ft_c_sd := sd\<rparr>);
     if sd < 0
     then (if again then Some (E_FTP_RESULT_CONTINUE, s)
           else do { s \<leftarrow> ftp_reset_all e s; Some (E_FTP_RESULT_FAILED, s) })
     else do {
       let s = (if \<not> data then s\<lparr>ft_ip_addr := fn_local_ip e sd (ft_world s)\<rparr> else s);
       let s = (if l_sd \<noteq> ft_ld_sd s then fw (fn_nonblock e sd) s else s);
       Some (E_FTP_RESULT_OK, s)
     }
   }"

text \<open>The retries of a send: 200 ticks of one millisecond while \<^verbatim>\<open>errno\<close> is \<^verbatim>\<open>EAGAIN\<close>.\<close>

primrec ftp_send_all :: "'w ftp_env \<Rightarrow> int \<Rightarrow> bytes \<Rightarrow> nat \<Rightarrow> 'w \<Rightarrow> bool \<times> 'w" where
  "ftp_send_all e sd data 0 w = (case fn_send e sd data w of ((r, again), w) \<Rightarrow> (r = int (length data), w))"
| "ftp_send_all e sd data (Suc t) w =
     (case fn_send e sd data w of
        ((r, again), w) \<Rightarrow>
          if r = int (length data) then (True, w)
          else if \<not> again then (False, w)
          else ftp_send_all e sd data t w)"

definition ftp_send_reply :: "'w ftp_env \<Rightarrow> nat \<Rightarrow> string \<Rightarrow> 'w ftp \<Rightarrow> 'w ftp option" where
  "ftp_send_reply e status msg s = do {
     let text = dec status @ '' '' @ msg @ crlf;
     if length text \<ge> FTP_CMD_BUFFER then None
     else do {
       let (sent, s) = fcall (ftp_send_all e (ft_c_sd s) (ascii text) 200) s;
       if \<not> sent then ftp_reset_all e s
       else if status = 221 then do {
         let s = (fw (fn_close e (ft_d_sd s)) s)\<lparr>ft_d_sd := -1\<rparr>;
         let s = (fw (fn_close e (ft_ld_sd s)) s)\<lparr>ft_ld_sd := -1\<rparr>;
         let s = (fw (fn_close e (ft_c_sd s)) s)\<lparr>ft_substate := E_FTP_STE_SUB_DISCONNECTED\<rparr>;
         ftp_close_filesystem_on_error e s
       }
       else if status = 426 \<or> status = 451 \<or> status = 550
       then ftp_close_filesystem_on_error e ((fw (fn_close e (ft_d_sd s)) s)\<lparr>ft_d_sd := -1\<rparr>)
       else Some s
     }
   }"

text \<open>\<^verbatim>\<open>ftp_send_list\<close> and \<^verbatim>\<open>ftp_send_file_data\<close> differ in what they log.\<close>

definition ftp_send_data :: "'w ftp_env \<Rightarrow> bytes \<Rightarrow> 'w ftp \<Rightarrow> 'w ftp option" where
  "ftp_send_data e data s =
     (case fcall (ftp_send_all e (ft_d_sd s) data 200) s of
        (sent, s) \<Rightarrow> if sent then Some s else ftp_reset_all e s)"

definition ftp_recv_non_blocking :: "'w ftp_env \<Rightarrow> int \<Rightarrow> nat \<Rightarrow> 'w ftp \<Rightarrow> (ftp_result \<times> bytes) \<times> 'w ftp" where
  "ftp_recv_non_blocking e sd n s =
     (if sd < 0 then ((E_FTP_RESULT_FAILED, []), s)
      else case fcall (fn_recv e sd n) s of
             ((data, again), s) \<Rightarrow>
               ((if data \<noteq> [] then E_FTP_RESULT_OK else if \<not> again then E_FTP_RESULT_FAILED else E_FTP_RESULT_CONTINUE,
                 take n data), s))"

section \<open>Paths and parameters\<close>

text \<open>The working folder is a block of 513 characters.\<close>

definition ftp_set_path :: "string \<Rightarrow> 'w ftp \<Rightarrow> 'w ftp option" where
  "ftp_set_path p s = (if length p < FTP_MAX_PARAM_SIZE then Some (s\<lparr>ft_path := p\<rparr>) else None)"

definition open_child :: "string \<Rightarrow> string \<Rightarrow> string" where
  "open_child pwd dir =
     (if dir = [] then pwd
      else if hd dir = CHR ''/'' then dir
      else pwd @ (if length pwd > 1 \<and> last pwd \<noteq> CHR ''/'' then ''/'' else []) @ dir)"

definition ftp_open_child :: "'w ftp \<Rightarrow> 'w ftp option" where
  "ftp_open_child s = ftp_set_path (open_child (ft_path s) (ft_scratch s)) s"

text \<open>
  The parent folder. On an empty path the code reads before the array. The names of the original
  project's mount points cannot occur.
\<close>

definition close_child :: "string \<Rightarrow> string option" where
  "close_child pwd =
     (if pwd = [] then None
      else if last pwd = CHR ''/'' then Some (if butlast pwd = [] then ''/'' else butlast pwd)
      else let up = butlast (rev (dropWhile (\<lambda>c. c \<noteq> CHR ''/'') (rev pwd)))
           in Some (if up = [] then ''/'' else up))"

definition ftp_close_child :: "'w ftp \<Rightarrow> 'w ftp option" where
  "ftp_close_child s = do { p \<leftarrow> close_child (ft_path s); Some (s\<lparr>ft_path := p\<rparr>) }"

text \<open>\<^verbatim>\<open>strstr\<close>: what comes before the first occurrence of \<open>t\<close>.\<close>

fun before_sub :: "string \<Rightarrow> string \<Rightarrow> string option" where
  "before_sub t [] = (if t = [] then Some [] else None)"
| "before_sub t (c # cs) = (if take (length t) (c # cs) = t then Some [] else map_option ((#) c) (before_sub t cs))"

definition remove_fname_from_path :: "string \<Rightarrow> string \<Rightarrow> string" where
  "remove_fname_from_path pwd fname =
     (if fname = [] then pwd else case before_sub fname pwd of None \<Rightarrow> pwd | Some p \<Rightarrow> p)"

text \<open>
  \<open>ftp_pop_param maxlen on_space on_newline lastc acc str\<close>: the rest of the string and the
  parameter. A string is the memory from the pointer on and ends at a NUL.
\<close>

fun ftp_pop_param :: "nat \<Rightarrow> bool \<Rightarrow> bool \<Rightarrow> char \<Rightarrow> string \<Rightarrow> string \<Rightarrow> string \<times> string" where
  "ftp_pop_param maxlen on_space on_newline lastc acc [] = ([], acc)"
| "ftp_pop_param maxlen on_space on_newline lastc acc (c # cs) =
     (if c = FTP_NUL then (c # cs, acc)
      else if on_space \<and> c = CHR '' '' then (c # cs, acc)
      else if c = CR \<or> c = LF
      then (if \<not> on_newline then ftp_pop_param maxlen on_space on_newline lastc acc cs else (c # cs, acc))
      else if c = CHR ''/'' \<and> lastc = CHR ''/'' then ftp_pop_param maxlen on_space on_newline lastc acc cs
      else ftp_pop_param maxlen on_space on_newline c (if length acc + 1 < maxlen then acc @ [c] else acc) cs)"

definition ftp_cmd_table :: "(string \<times> ftp_cmd) list" where
  "ftp_cmd_table =
     [(''FEAT'', E_FTP_CMD_FEAT), (''SYST'', E_FTP_CMD_SYST), (''CDUP'', E_FTP_CMD_CDUP), (''CWD'', E_FTP_CMD_CWD),
      (''PWD'', E_FTP_CMD_PWD), (''XPWD'', E_FTP_CMD_XPWD), (''SIZE'', E_FTP_CMD_SIZE), (''MDTM'', E_FTP_CMD_MDTM),
      (''TYPE'', E_FTP_CMD_TYPE), (''USER'', E_FTP_CMD_USER), (''PASS'', E_FTP_CMD_PASS), (''PASV'', E_FTP_CMD_PASV),
      (''LIST'', E_FTP_CMD_LIST), (''RETR'', E_FTP_CMD_RETR), (''STOR'', E_FTP_CMD_STOR), (''DELE'', E_FTP_CMD_DELE),
      (''RMD'', E_FTP_CMD_RMD), (''MKD'', E_FTP_CMD_MKD), (''RNFR'', E_FTP_CMD_RNFR), (''RNTO'', E_FTP_CMD_RNTO),
      (''NOOP'', E_FTP_CMD_NOOP), (''QUIT'', E_FTP_CMD_QUIT), (''APPE'', E_FTP_CMD_APPE), (''NLST'', E_FTP_CMD_NLST),
      (''AUTH'', E_FTP_CMD_AUTH)]"

definition ftp_toupper :: "char \<Rightarrow> char" where
  "ftp_toupper c = (let k = (of_char c :: nat) in if 97 \<le> k \<and> k \<le> 122 then char_of (k - 32) else c)"

text \<open>Behind a known command one more character is skipped, whatever it is.\<close>

definition ftp_pop_command :: "string \<Rightarrow> string \<times> ftp_cmd option" where
  "ftp_pop_command str =
     (case ftp_pop_param FTP_CMD_SIZE_MAX True True FTP_NUL [] str of
        (rest, word) \<Rightarrow>
          (case map_of ftp_cmd_table (map ftp_toupper word) of
             Some c \<Rightarrow> (drop 1 rest, Some c)
           | None \<Rightarrow> (rest, None)))"

text \<open>The parameter into \<^verbatim>\<open>ftp_scratch_buffer\<close>, skipping those that start with a dash.\<close>

lemma pop_param_rest:
  "length (fst (ftp_pop_param m a b lastc acc str)) \<le> length str \<and>
   (snd (ftp_pop_param m a b lastc acc str) \<noteq> acc \<longrightarrow> length (fst (ftp_pop_param m a b lastc acc str)) < length str)"
  by (induction m a b lastc acc str rule: ftp_pop_param.induct) (auto simp: less_Suc_eq_le le_SucI)

lemma pop_param_shorter:
  "(rest, param) = ftp_pop_param m a b lastc [] str \<Longrightarrow> param \<noteq> [] \<Longrightarrow> length rest < length str"
  using pop_param_rest[of m a b lastc "[]" str] by (cases "ftp_pop_param m a b lastc [] str") simp

function ftp_skip_options :: "string \<Rightarrow> string" where
  "ftp_skip_options str =
     (case ftp_pop_param FTP_MAX_PARAM_SIZE False False FTP_NUL [] str of
        (rest, param) \<Rightarrow> if param = [] then [] else if hd param = CHR ''-'' then ftp_skip_options rest else param)"
  by pat_completeness auto
termination
  by (relation "measure length") (auto dest: pop_param_shorter)

declare ftp_skip_options.simps [simp del]

definition ftp_get_param_and_open_child :: "string \<Rightarrow> 'w ftp \<Rightarrow> 'w ftp option" where
  "ftp_get_param_and_open_child str s =
     (let s = s\<lparr>ft_scratch := ftp_skip_options str\<rparr>
      in if ft_scratch s = [] then Some s
         else do { s \<leftarrow> ftp_open_child s; Some (s\<lparr>ft_closechild := True\<rparr>) })"

section \<open>Commands\<close>

text \<open>
  Each handler gets what follows the command. \<open>ftp_ends_plain\<close> is the test that the path names
  a file: it is not empty and does not end with a slash.
\<close>

definition ftp_ends_plain :: "string \<Rightarrow> bool" where
  "ftp_ends_plain p \<longleftrightarrow> p \<noteq> [] \<and> last p \<noteq> CHR ''/''"

definition ftp_cwd :: "'w ftp_env \<Rightarrow> string \<Rightarrow> 'w ftp \<Rightarrow> 'w ftp option" where
  "ftp_cwd e str s =
     (let s = s\<lparr>ft_scratch := snd (ftp_pop_param FTP_MAX_PARAM_SIZE False False FTP_NUL [] str)\<rparr>
      in if ft_scratch s = ''.'' then ftp_send_reply e 250 [] (s\<lparr>ft_ptr := NullPtr\<rparr>)
         else if ft_scratch s = ''..'' then do { s \<leftarrow> ftp_close_child s; ftp_send_reply e 250 [] s }
         else do {
           s \<leftarrow> ftp_open_child s;
           if ft_path s = ''/'' then ftp_send_reply e 250 [] (s\<lparr>ft_ptr := NullPtr\<rparr>)
           else do {
             full \<leftarrow> fullname s (ft_path s);
             let (r, s) = fcall (v_opendir (fe_fs e) full) s;
             case r of
               Inr (d, es) \<Rightarrow> ftp_send_reply e 250 [] ((fw (v_closedir (fe_fs e) d) s)\<lparr>ft_ptr := NullPtr\<rparr>)
             | Inl _ \<Rightarrow> do { s \<leftarrow> ftp_close_child (s\<lparr>ft_ptr := NullPtr\<rparr>); ftp_send_reply e 550 [] s }
           }
         })"

definition ftp_pwd :: "'w ftp_env \<Rightarrow> 'w ftp \<Rightarrow> 'w ftp option" where
  "ftp_pwd e s = (if length (ft_path s) < FTP_FULLNAME then ftp_send_reply e 257 (ft_path s) s else None)"

text \<open>SIZE and MDTM format into the data buffer.\<close>

definition ftp_stat_cmd :: "'w ftp_env \<Rightarrow> (fstat \<Rightarrow> string) \<Rightarrow> string \<Rightarrow> 'w ftp \<Rightarrow> 'w ftp option" where
  "ftp_stat_cmd e show_st str s = do {
     s \<leftarrow> ftp_get_param_and_open_child str s;
     full \<leftarrow> fullname s (ft_path s);
     case v_stat (fe_fs e) full (ft_world s) of
       Inr st \<Rightarrow> do {
         s \<leftarrow> dbuf_put (ascii (take (ft_buff_size s - 1) (show_st st)) @ [0]) s;
         txt \<leftarrow> dbuf_str s;
         ftp_send_reply e 213 txt s
       }
     | Inl _ \<Rightarrow> ftp_send_reply e 550 [] s
   }"

definition ftp_size :: "'w ftp_env \<Rightarrow> string \<Rightarrow> 'w ftp \<Rightarrow> 'w ftp option" where
  "ftp_size e = ftp_stat_cmd e (\<lambda>st. dec32 (word_of_int (st_size st)))"

definition ftp_mdtm :: "'w ftp_env \<Rightarrow> string \<Rightarrow> 'w ftp \<Rightarrow> 'w ftp option" where
  "ftp_mdtm e = ftp_stat_cmd e (\<lambda>st. fe_stamp e (st_mtime st))"

text \<open>The comparison over the longer length holds exactly for equal strings.\<close>

definition ftp_user_cmd :: "'w ftp_env \<Rightarrow> string \<Rightarrow> 'w ftp \<Rightarrow> 'w ftp option" where
  "ftp_user_cmd e str s =
     (let s = s\<lparr>ft_scratch := snd (ftp_pop_param FTP_MAX_PARAM_SIZE True True FTP_NUL [] str)\<rparr>;
          s = (if ft_scratch s = ft_user s then s\<lparr>ft_uservalid := True\<rparr> else s)
      in ftp_send_reply e 331 [] s)"

definition ftp_pass_cmd :: "'w ftp_env \<Rightarrow> string \<Rightarrow> 'w ftp \<Rightarrow> 'w ftp option" where
  "ftp_pass_cmd e str s =
     (let s = s\<lparr>ft_scratch := snd (ftp_pop_param FTP_MAX_PARAM_SIZE True True FTP_NUL [] str)\<rparr>
      in if ft_scratch s = ft_pass s \<and> ft_uservalid s
         then ftp_send_reply e 230 [] (s\<lparr>ft_passvalid := True\<rparr>)
         else ftp_send_reply e 530 [] s)"

definition ftp_pasv_text :: "u32 \<Rightarrow> string" where
  "ftp_pasv_text ip =
     ''('' @ dec (unat (ip AND 255)) @ '','' @ dec (unat (drop_bit 8 ip AND 255)) @ '','' @
     dec (unat (drop_bit 16 ip AND 255)) @ '','' @ dec (unat (drop_bit 24 ip AND 255)) @ '','' @
     dec (FTP_PASIVE_DATA_PORT div 256) @ '','' @ dec (FTP_PASIVE_DATA_PORT mod 256) @ '')''"

definition ftp_pasv :: "'w ftp_env \<Rightarrow> 'w ftp \<Rightarrow> 'w ftp option" where
  "ftp_pasv e s = do {
     let s = (fw (fn_close e (ft_d_sd s)) s)\<lparr>ft_d_sd := -1, ft_substate := E_FTP_STE_SUB_DISCONNECTED\<rparr>;
     let (created, s) =
       (if ft_ld_sd s < 0
        then (case ftp_create_listening_socket e FTP_PASIVE_DATA_PORT s of ((sd, created), s) \<Rightarrow> (created, s\<lparr>ft_ld_sd := sd\<rparr>))
        else (True, s));
     if created
     then do {
       s \<leftarrow> dbuf_put (ascii (ftp_pasv_text (ft_ip_addr s)) @ [0]) (s\<lparr>ft_dtimeout := 0\<rparr>);
       txt \<leftarrow> dbuf_str s;
       ftp_send_reply e 227 txt (s\<lparr>ft_substate := E_FTP_STE_SUB_LISTEN_FOR_DATA\<rparr>)
     }
     else ftp_send_reply e 425 [] s
   }"

definition ftp_list :: "'w ftp_env \<Rightarrow> bool \<Rightarrow> string \<Rightarrow> 'w ftp \<Rightarrow> 'w ftp option" where
  "ftp_list e nlist str s = do {
     s \<leftarrow> ftp_get_param_and_open_child str s;
     (r, s) \<leftarrow> ftp_open_dir_for_listing e (ft_path s) (s\<lparr>ft_nlist := nlist\<rparr>);
     if r = E_FTP_RESULT_CONTINUE then ftp_send_reply e 150 [] (s\<lparr>ft_state := E_FTP_STE_CONTINUE_LISTING\<rparr>)
     else ftp_send_reply e 550 [] s
   }"

text \<open>RETR, APPE and STOR.\<close>

definition ftp_transfer :: "'w ftp_env \<Rightarrow> ftp_mode \<Rightarrow> string \<Rightarrow> 'w ftp \<Rightarrow> 'w ftp option" where
  "ftp_transfer e mode str s = do {
     s \<leftarrow> ftp_get_param_and_open_child str (s\<lparr>ft_total := 0, ft_time := 0\<rparr>);
     if ftp_ends_plain (ft_path s)
     then do {
       (ok, s) \<leftarrow> ftp_open_file e (ft_path s) mode s;
       if ok
       then ftp_send_reply e 150 []
              (s\<lparr>ft_state := (if mode = Mode_rb then E_FTP_STE_CONTINUE_FILE_TX else E_FTP_STE_CONTINUE_FILE_RX)\<rparr>)
       else ftp_send_reply e 550 (if mode = Mode_rb then [] else ftp_fail_msg s) (s\<lparr>ft_state := E_FTP_STE_END_TRANSFER\<rparr>)
     }
     else ftp_send_reply e 550 [] (s\<lparr>ft_state := E_FTP_STE_END_TRANSFER\<rparr>)
   }"

definition ftp_dele :: "'w ftp_env \<Rightarrow> string \<Rightarrow> 'w ftp \<Rightarrow> 'w ftp option" where
  "ftp_dele e str s = do {
     s \<leftarrow> ftp_get_param_and_open_child str s;
     if ftp_ends_plain (ft_path s)
     then do {
       full \<leftarrow> fullname s (ft_path s);
       let (go, s) = ftp_change_begin e full s;
       if \<not> go then ftp_send_reply e 550 (ftp_fail_msg s) s
       else do {
         let (r, s) = fcall (v_unlink (fe_fs e) full) s;
         ftp_send_reply e (if r = None then 250 else 550) [] (ftp_change_end s)
       }
     }
     else ftp_send_reply e 250 [] s
   }"

text \<open>RMD and MKD.\<close>

definition ftp_dir_cmd :: "'w ftp_env \<Rightarrow> (string \<Rightarrow> 'w \<Rightarrow> errno option \<times> 'w) \<Rightarrow> string \<Rightarrow> 'w ftp \<Rightarrow> 'w ftp option" where
  "ftp_dir_cmd e opr str s = do {
     s \<leftarrow> ftp_get_param_and_open_child str s;
     if ftp_ends_plain (ft_path s)
     then do {
       full \<leftarrow> fullname s (ft_path s);
       let (r, s) = fcall (opr full) s;
       ftp_send_reply e (if r = None then 250 else 550) [] s
     }
     else ftp_send_reply e 250 [] s
   }"

text \<open>The old name waits in the data buffer.\<close>

definition ftp_rnfr :: "'w ftp_env \<Rightarrow> string \<Rightarrow> 'w ftp \<Rightarrow> 'w ftp option" where
  "ftp_rnfr e str s = do {
     s \<leftarrow> ftp_get_param_and_open_child str s;
     full \<leftarrow> fullname s (ft_path s);
     case v_stat (fe_fs e) full (ft_world s) of
       Inr _ \<Rightarrow> do { s \<leftarrow> ftp_send_reply e 350 [] s; dbuf_put (ascii (ft_path s) @ [0]) s }
     | Inl _ \<Rightarrow> ftp_send_reply e 550 [] s
   }"

definition ftp_rnto :: "'w ftp_env \<Rightarrow> string \<Rightarrow> 'w ftp \<Rightarrow> 'w ftp option" where
  "ftp_rnto e str s = do {
     s \<leftarrow> ftp_get_param_and_open_child str s;
     old \<leftarrow> dbuf_str s;
     full \<leftarrow> fullname s old;
     full2 \<leftarrow> fullname s (ft_path s);
     let (go, s) = ftp_change_begin e full s;
     if \<not> go then ftp_send_reply e 550 (ftp_fail_msg s) s
     else do {
       let (r, s) = fcall (v_rename (fe_fs e) full full2) s;
       ftp_send_reply e (if r = None then 250 else 550) [] (ftp_change_end s)
     }
   }"

definition ftp_run_cmd :: "'w ftp_env \<Rightarrow> ftp_cmd option \<Rightarrow> string \<Rightarrow> 'w ftp \<Rightarrow> 'w ftp option" where
  "ftp_run_cmd e c str s =
     (case c of
        None \<Rightarrow> ftp_send_reply e 502 [] s
      | Some c \<Rightarrow>
          (case c of
             E_FTP_CMD_FEAT \<Rightarrow> ftp_send_reply e 502 ''no-features'' s
           | E_FTP_CMD_AUTH \<Rightarrow> ftp_send_reply e 504 ''not-supported'' s
           | E_FTP_CMD_SYST \<Rightarrow> ftp_send_reply e 215 ''UNIX Type: L8'' s
           | E_FTP_CMD_CDUP \<Rightarrow> do { s \<leftarrow> ftp_close_child s; ftp_send_reply e 250 [] s }
           | E_FTP_CMD_CWD \<Rightarrow> ftp_cwd e str s
           | E_FTP_CMD_PWD \<Rightarrow> ftp_pwd e s
           | E_FTP_CMD_XPWD \<Rightarrow> ftp_pwd e s
           | E_FTP_CMD_SIZE \<Rightarrow> ftp_size e str s
           | E_FTP_CMD_MDTM \<Rightarrow> ftp_mdtm e str s
           | E_FTP_CMD_TYPE \<Rightarrow> ftp_send_reply e 200 [] s
           | E_FTP_CMD_USER \<Rightarrow> ftp_user_cmd e str s
           | E_FTP_CMD_PASS \<Rightarrow> ftp_pass_cmd e str s
           | E_FTP_CMD_PASV \<Rightarrow> ftp_pasv e s
           | E_FTP_CMD_LIST \<Rightarrow> ftp_list e False str s
           | E_FTP_CMD_NLST \<Rightarrow> ftp_list e True str s
           | E_FTP_CMD_RETR \<Rightarrow> ftp_transfer e Mode_rb str s
           | E_FTP_CMD_APPE \<Rightarrow> ftp_transfer e Mode_ab str s
           | E_FTP_CMD_STOR \<Rightarrow> ftp_transfer e Mode_wb str s
           | E_FTP_CMD_DELE \<Rightarrow> ftp_dele e str s
           | E_FTP_CMD_RMD \<Rightarrow> ftp_dir_cmd e (v_rmdir (fe_fs e)) str s
           | E_FTP_CMD_MKD \<Rightarrow> ftp_dir_cmd e (v_mkdir (fe_fs e)) str s
           | E_FTP_CMD_RNFR \<Rightarrow> ftp_rnfr e str s
           | E_FTP_CMD_RNTO \<Rightarrow> ftp_rnto e str s
           | E_FTP_CMD_NOOP \<Rightarrow> ftp_send_reply e 200 [] s
           | E_FTP_CMD_QUIT \<Rightarrow> ftp_send_reply e 221 [] s))"

text \<open>
  The command buffer is cleared before a receive, so what follows the received bytes is NUL.
\<close>

definition ftp_before_login :: "ftp_cmd option \<Rightarrow> bool" where
  "ftp_before_login c \<longleftrightarrow>
     c \<in> {Some E_FTP_CMD_USER, Some E_FTP_CMD_PASS, Some E_FTP_CMD_QUIT, Some E_FTP_CMD_FEAT, Some E_FTP_CMD_AUTH}"

definition ftp_command_line :: "bytes \<Rightarrow> string \<times> ftp_cmd option" where
  "ftp_command_line data = ftp_pop_command (chars data @ replicate (FTP_CMD_BUFFER - length data) FTP_NUL)"

definition ftp_process_cmd :: "'w ftp_env \<Rightarrow> 'w ftp \<Rightarrow> 'w ftp option" where
  "ftp_process_cmd e s = do {
     let ((r, data), s) = ftp_recv_non_blocking e (ft_c_sd s) FTP_CMD_BUFFER (s\<lparr>ft_closechild := False\<rparr>);
     if r = E_FTP_RESULT_OK
     then if length data \<ge> FTP_CMD_BUFFER then None
       else do {
         let (str, c) = ftp_command_line data;
         if \<not> ft_passvalid s \<and> \<not> ftp_before_login c then ftp_send_reply e 332 [] s
         else do {
           s \<leftarrow> ftp_run_cmd e c str s;
           Some (if ft_closechild s then s\<lparr>ft_path := remove_fname_from_path (ft_path s) (ft_scratch s)\<rparr> else s)
         }
       }
     else if r = E_FTP_RESULT_CONTINUE
     then (if ft_ctimeout s > FTP_CMD_TIMEOUT_MS then ftp_send_reply e 221 [] s else Some s)
     else ftp_close_cmd_data e s
   }"

section \<open>One step of the server\<close>

definition ftp_list_step :: "'w ftp_env \<Rightarrow> 'w ftp \<Rightarrow> 'w ftp option" where
  "ftp_list_step e s = do {
     (r, data, s) \<leftarrow> ftp_list_dir e (ft_buff_size s) s;
     s \<leftarrow> (if data \<noteq> [] then ftp_send_data e data s else Some s);
     s \<leftarrow> (if r = E_FTP_RESULT_OK
           then do { s \<leftarrow> ftp_send_reply e 226 [] s; Some (s\<lparr>ft_state := E_FTP_STE_END_TRANSFER\<rparr>) }
           else Some s);
     Some (s\<lparr>ft_ctimeout := 0\<rparr>)
   }"

definition ftp_tx_step :: "'w ftp_env \<Rightarrow> 'w ftp \<Rightarrow> 'w ftp option" where
  "ftp_tx_step e s = do {
     (r, data, s) \<leftarrow> ftp_read_file e (ft_buff_size s) (s\<lparr>ft_ctimeout := 0\<rparr>);
     if r = E_FTP_RESULT_FAILED
     then do { s \<leftarrow> ftp_send_reply e 451 [] s; Some (s\<lparr>ft_state := E_FTP_STE_END_TRANSFER\<rparr>) }
     else do {
       s \<leftarrow> (if data \<noteq> []
             then do { s \<leftarrow> ftp_send_data e data s; Some (s\<lparr>ft_total := ft_total s + of_nat (length data)\<rparr>) }
             else Some s);
       if r = E_FTP_RESULT_OK
       then do { s \<leftarrow> ftp_send_reply e 226 [] s; Some (s\<lparr>ft_state := E_FTP_STE_END_TRANSFER\<rparr>) }
       else Some s
     }
   }"

definition ftp_rx_step :: "'w ftp_env \<Rightarrow> 'w ftp \<Rightarrow> 'w ftp option" where
  "ftp_rx_step e s = do {
     let ((r, data), s) = ftp_recv_non_blocking e (ft_d_sd s) (ft_buff_size s) s;
     s \<leftarrow> dbuf_put data s;
     (case r of
        E_FTP_RESULT_OK \<Rightarrow> do {
          (wr, s) \<leftarrow> ftp_write_file e data (s\<lparr>ft_dtimeout := 0, ft_ctimeout := 0\<rparr>);
          if wr \<noteq> E_FTP_RESULT_OK
          then do { s \<leftarrow> ftp_send_reply e 451 [] s; Some (s\<lparr>ft_state := E_FTP_STE_END_TRANSFER\<rparr>) }
          else Some (s\<lparr>ft_total := ft_total s + of_nat (length data)\<rparr>)
        }
      | E_FTP_RESULT_CONTINUE \<Rightarrow>
          if sint (ft_dtimeout s) > FTP_DATA_TIMEOUT_MS
          then do {
            s \<leftarrow> ftp_close_files_dir e s;
            s \<leftarrow> ftp_send_reply e 426 [] s;
            Some (s\<lparr>ft_state := E_FTP_STE_END_TRANSFER\<rparr>)
          }
          else Some s
      | E_FTP_RESULT_FAILED \<Rightarrow> do {
          s \<leftarrow> ftp_close_files_dir e s;
          s \<leftarrow> ftp_send_reply e 226 [] s;
          Some (s\<lparr>ft_state := E_FTP_STE_END_TRANSFER\<rparr>)
        })
   }"

definition ftp_greet :: "'w ftp_env \<Rightarrow> 'w ftp \<Rightarrow> 'w ftp option" where
  "ftp_greet e s =
     ftp_send_reply e 220 ''ESP32 FTP Server''
       (s\<lparr>ft_txretries := 0, ft_logginretries := 0, ft_ctimeout := 0, ft_uservalid := False, ft_passvalid := False,
          ft_path := ''/''\<rparr>)"

definition ftp_ready_step :: "'w ftp_env \<Rightarrow> 'w ftp \<Rightarrow> 'w ftp option" where
  "ftp_ready_step e s = do {
     (greeted, s) \<leftarrow>
       (if ft_c_sd s < 0 \<and> ft_substate s = E_FTP_STE_SUB_DISCONNECTED
        then do {
          (r, s) \<leftarrow> ftp_wait_for_connection e False s;
          if r = E_FTP_RESULT_OK then do { s \<leftarrow> ftp_greet e s; Some (True, s) } else Some (False, s)
        }
        else Some (False, s));
     if \<not> greeted \<and> ft_c_sd s > 0 \<and> ft_substate s \<noteq> E_FTP_STE_SUB_LISTEN_FOR_DATA
     then ftp_process_cmd e s
     else Some s
   }"

definition ftp_state_step :: "'w ftp_env \<Rightarrow> 'w ftp \<Rightarrow> 'w ftp option" where
  "ftp_state_step e s =
     (case ft_state s of
        E_FTP_STE_DISABLED \<Rightarrow> Some (if ft_enabled s then s\<lparr>ft_state := E_FTP_STE_START\<rparr> else s)
      | E_FTP_STE_START \<Rightarrow>
          (case ftp_create_listening_socket e FTP_CMD_PORT s of
             ((sd, created), s) \<Rightarrow>
               let s = s\<lparr>ft_lc_sd := sd\<rparr> in Some (if created then s\<lparr>ft_state := E_FTP_STE_READY\<rparr> else s))
      | E_FTP_STE_READY \<Rightarrow> ftp_ready_step e s
      | E_FTP_STE_END_TRANSFER \<Rightarrow>
          Some (if ft_d_sd s \<ge> 0 then (fw (fn_close e (ft_d_sd s)) s)\<lparr>ft_d_sd := -1\<rparr> else s)
      | E_FTP_STE_CONTINUE_LISTING \<Rightarrow> ftp_list_step e s
      | E_FTP_STE_CONTINUE_FILE_TX \<Rightarrow> ftp_tx_step e s
      | E_FTP_STE_CONTINUE_FILE_RX \<Rightarrow> ftp_rx_step e s)"

definition ftp_substate_step :: "'w ftp_env \<Rightarrow> 'w ftp \<Rightarrow> 'w ftp option" where
  "ftp_substate_step e s =
     (case ft_substate s of
        E_FTP_STE_SUB_DISCONNECTED \<Rightarrow> Some s
      | E_FTP_STE_SUB_LISTEN_FOR_DATA \<Rightarrow> do {
          (r, s) \<leftarrow> ftp_wait_for_connection e True s;
          if r = E_FTP_RESULT_OK
          then Some (s\<lparr>ft_dtimeout := 0, ft_substate := E_FTP_STE_SUB_DATA_CONNECTED\<rparr>)
          else if sint (ft_dtimeout s) > FTP_DATA_TIMEOUT_MS
          then Some ((fw (fn_close e (ft_ld_sd s)) (s\<lparr>ft_dtimeout := 0\<rparr>))
                       \<lparr>ft_ld_sd := -1, ft_substate := E_FTP_STE_SUB_DISCONNECTED\<rparr>)
          else Some s
        }
      | E_FTP_STE_SUB_DATA_CONNECTED \<Rightarrow>
          if ft_state s = E_FTP_STE_READY \<and> sint (ft_dtimeout s) > FTP_DATA_TIMEOUT_MS
          then do {
            let s = fw (fn_close e (ft_d_sd s)) (fw (fn_close e (ft_ld_sd s)) s);
            s \<leftarrow> ftp_close_filesystem_on_error e (s\<lparr>ft_ld_sd := -1, ft_d_sd := -1\<rparr>);
            Some (s\<lparr>ft_substate := E_FTP_STE_SUB_DISCONNECTED\<rparr>)
          }
          else Some s)"

text \<open>\<^verbatim>\<open>state > E_FTP_STE_READY\<close>.\<close>

definition ftp_transferring :: "ftp_state \<Rightarrow> bool" where
  "ftp_transferring st \<longleftrightarrow>
     st \<in> {E_FTP_STE_END_TRANSFER, E_FTP_STE_CONTINUE_LISTING, E_FTP_STE_CONTINUE_FILE_TX, E_FTP_STE_CONTINUE_FILE_RX}"

definition ftp_check_data :: "'w ftp \<Rightarrow> 'w ftp" where
  "ftp_check_data s =
     (if ft_d_sd s < 0 \<and> ftp_transferring (ft_state s)
      then s\<lparr>ft_substate := E_FTP_STE_SUB_DISCONNECTED, ft_state := E_FTP_STE_READY\<rparr> else s)"

definition ftp_run :: "'w ftp_env \<Rightarrow> u32 \<Rightarrow> 'w ftp \<Rightarrow> (int \<times> 'w ftp) option" where
  "ftp_run e elapsed s =
     (if ft_stop s then Some (-2, s)
      else do {
        let s = s\<lparr>ft_dtimeout := ft_dtimeout s + elapsed, ft_ctimeout := ft_ctimeout s + elapsed, ft_time := ft_time s + elapsed\<rparr>;
        s \<leftarrow> ftp_state_step e s;
        s \<leftarrow> ftp_substate_step e s;
        Some (0, ftp_check_data s)
      })"

section \<open>Starting and stopping\<close>

definition heap_free :: "heap_block \<Rightarrow> heap_block option" where
  "heap_free b = (case b of FreedBlock \<Rightarrow> None | _ \<Rightarrow> Some NoBlock)"

definition ftp_deinit :: "'w ftp \<Rightarrow> 'w ftp option" where
  "ftp_deinit s = do {
     mp \<leftarrow> heap_free (ft_m_path s);
     mc \<leftarrow> heap_free (ft_m_cmd s);
     md \<leftarrow> heap_free (ft_m_dbuf s);
     ms \<leftarrow> heap_free (ft_m_scratch s);
     Some (s\<lparr>ft_m_path := mp, ft_m_cmd := mc, ft_m_dbuf := md, ft_m_scratch := ms\<rparr>)
   }"

text \<open>\<^verbatim>\<open>memset(&ftp_data, 0, ...)\<close>: the descriptors are 0 and the union's pointer is null.\<close>

definition ftp_zero :: "'w ftp \<Rightarrow> 'w ftp" where
  "ftp_zero s =
     s\<lparr>ft_m_dbuf := NoBlock, ft_ctimeout := 0, ft_ptr := NullPtr, ft_lc_sd := 0, ft_ld_sd := 0, ft_c_sd := 0, ft_d_sd := 0,
       ft_dtimeout := 0, ft_ip_addr := 0, ft_state := E_FTP_STE_DISABLED, ft_substate := E_FTP_STE_SUB_DISCONNECTED,
       ft_txretries := 0, ft_logginretries := 0, ft_uservalid := False, ft_passvalid := False,
       ft_e_open := E_FTP_NOTHING_OPEN, ft_closechild := False, ft_enabled := False, ft_listroot := False,
       ft_total := 0, ft_time := 0\<rparr>"

text \<open>A failed allocation frees the earlier blocks and keeps their pointers.\<close>

definition ftp_init :: "'w ftp_env \<Rightarrow> 'w ftp \<Rightarrow> (bool \<times> 'w ftp) option" where
  "ftp_init e s = do {
     s \<leftarrow> ftp_deinit (s\<lparr>ft_stop := False\<rparr>);
     let s = ftp_zero s;
     let have_mem = (\<lambda>n. fe_malloc e n (ft_world s));
     if \<not> have_mem 0 then Some (False, s)
     else if \<not> have_mem 1 then Some (False, s\<lparr>ft_m_dbuf := FreedBlock\<rparr>)
     else if \<not> have_mem 2 then Some (False, s\<lparr>ft_m_dbuf := FreedBlock, ft_m_path := FreedBlock\<rparr>)
     else if \<not> have_mem 3
     then Some (False, s\<lparr>ft_m_dbuf := FreedBlock, ft_m_path := FreedBlock, ft_m_scratch := FreedBlock\<rparr>)
     else Some (True, s\<lparr>ft_m_dbuf := LiveBlock, ft_m_path := LiveBlock, ft_m_scratch := LiveBlock, ft_m_cmd := LiveBlock,
            ft_dbuf := fe_heap e (ft_buff_size s + 1) (ft_world s),
            ft_c_sd := -1, ft_d_sd := -1, ft_lc_sd := -1, ft_ld_sd := -1\<rparr>)
   }"

definition ftp_enable :: "'w ftp \<Rightarrow> bool \<times> 'w ftp" where
  "ftp_enable s = (if ft_state s = E_FTP_STE_DISABLED then (True, s\<lparr>ft_enabled := True\<rparr>) else (False, s))"

definition ftp_disable :: "'w ftp_env \<Rightarrow> 'w ftp \<Rightarrow> (bool \<times> 'w ftp) option" where
  "ftp_disable e s =
     (if ft_state s = E_FTP_STE_READY
      then do { s \<leftarrow> ftp_reset_all e s; Some (True, s\<lparr>ft_enabled := False, ft_state := E_FTP_STE_DISABLED\<rparr>) }
      else Some (False, s))"

definition ftp_terminate :: "'w ftp_env \<Rightarrow> 'w ftp \<Rightarrow> (bool \<times> 'w ftp) option" where
  "ftp_terminate e s =
     (if ft_state s = E_FTP_STE_READY
      then do { s \<leftarrow> ftp_reset_all e (s\<lparr>ft_stop := True\<rparr>); Some (True, s) }
      else Some (False, s))"

definition ftp_set_credentials :: "string \<Rightarrow> string \<Rightarrow> 'w ftp \<Rightarrow> 'w ftp" where
  "ftp_set_credentials user pass s =
     s\<lparr>ft_user := strlcpy user (FTP_USER_PASS_LEN_MAX + 1), ft_pass := strlcpy pass (FTP_USER_PASS_LEN_MAX + 1)\<rparr>"

definition ftp_set_root :: "string \<Rightarrow> 'w ftp \<Rightarrow> 'w ftp" where
  "ftp_set_root root s = (if root \<noteq> [] then s\<lparr>ft_root := root\<rparr> else s)"

definition ftp_set_change_guard :: "'w ftp \<Rightarrow> 'w ftp" where
  "ftp_set_change_guard s = s\<lparr>ft_guarded := True\<rparr>"

definition ftp_set_buffer_size :: "int \<Rightarrow> 'w ftp \<Rightarrow> 'w ftp" where
  "ftp_set_buffer_size n s = (if n > 0 then s\<lparr>ft_buff_size := nat n\<rparr> else s)"

text \<open>
  One connection of the station in \<^verbatim>\<open>ftp_task\<close>: configure, start, pump while the link is up (the
  times between the steps are given), stop. When memory is short the task tries again.
\<close>

definition ftp_configure :: "config_t \<Rightarrow> 'w ftp \<Rightarrow> 'w ftp" where
  "ftp_configure cfg s =
     ftp_set_change_guard (ftp_set_buffer_size (int FTP_XFER_BUF)
       (ftp_set_credentials (ftp_user cfg) (ftp_pass cfg) (ftp_set_root ''/sd'' s)))"

primrec ftp_pump :: "'w ftp_env \<Rightarrow> u32 list \<Rightarrow> 'w ftp \<Rightarrow> 'w ftp option" where
  "ftp_pump e [] s = Some s"
| "ftp_pump e (dt # dts) s = do { (_, s) \<leftarrow> ftp_run e dt s; ftp_pump e dts s }"

definition ftp_task :: "'w ftp_env \<Rightarrow> config_t \<Rightarrow> u32 list \<Rightarrow> 'w ftp \<Rightarrow> 'w ftp option" where
  "ftp_task e cfg dts s = do {
     (ok, s) \<leftarrow> ftp_init e (ftp_configure cfg s);
     if \<not> ok then Some s
     else do {
       s \<leftarrow> ftp_pump e dts (snd (ftp_enable s));
       s \<leftarrow> ftp_reset_all e s;
       ftp_deinit s
     }
   }"

end
