(* ===== verification/FtpProps.thy ===== *)
theory FtpProps
  imports FtpServer DiskStoreProps
begin

text \<open>
  What the FTP server guarantees whoever talks to it: nothing happens before the login, and no
  undefined behaviour either; mounted images are left alone and the guard's lock is never kept.
  A \<open>cv\<close> is any view of the world that the sockets do not touch. Proofs follow the structure of
  the code with one rule per construct (\<open>dsk_rules\<close>).
\<close>

section \<open>Sockets leave the card alone\<close>

definition net_keeps :: "('w \<Rightarrow> 'c) \<Rightarrow> 'w ftp_env \<Rightarrow> bool" where
  "net_keeps cv e \<longleftrightarrow>
     (\<forall>w. cv (snd (fn_socket e w)) = cv w) \<and> (\<forall>sd p w. cv (snd (fn_bind_listen e sd p w)) = cv w) \<and>
     (\<forall>sd w. cv (snd (fn_accept e sd w)) = cv w) \<and> (\<forall>sd w. cv (fn_nonblock e sd w) = cv w) \<and>
     (\<forall>sd d w. cv (snd (fn_send e sd d w)) = cv w) \<and> (\<forall>sd n w. cv (snd (fn_recv e sd n w)) = cv w) \<and>
     (\<forall>sd w. cv (fn_close e sd w) = cv w)"

lemma card_send_all: "net_keeps cv e \<Longrightarrow> cv (snd (ftp_send_all e sd data t w)) = cv w"
proof (induction t arbitrary: w)
  case 0
  obtain r again w' where r: "fn_send e sd data w = ((r, again), w')" by (metis prod.exhaust)
  with 0 have "cv w' = cv w" unfolding net_keeps_def by (metis snd_conv)
  with r show ?case by simp
next
  case (Suc t)
  obtain r again w' where r: "fn_send e sd data w = ((r, again), w')" by (metis prod.exhaust)
  with Suc.prems have "cv w' = cv w" unfolding net_keeps_def by (metis snd_conv)
  with Suc r show ?case by simp
qed

text \<open>
  The state before a login: nothing open, no transfer, no data connection asked for. \<open>quiet\<close>
  says that a step from such a state leads to another one and leaves card and disk store alone.
\<close>

definition ftp_idle :: "'w ftp \<Rightarrow> bool" where
  "ftp_idle s \<longleftrightarrow> \<not> ft_passvalid s \<and> ft_ptr s = NullPtr \<and> ft_e_open s = E_FTP_NOTHING_OPEN \<and>
     \<not> ftp_transferring (ft_state s) \<and> ft_substate s = E_FTP_STE_SUB_DISCONNECTED"

definition quiet :: "('w \<Rightarrow> 'c) \<Rightarrow> 'w ftp \<Rightarrow> 'w ftp \<Rightarrow> bool" where
  "quiet cv s s' \<longleftrightarrow> ftp_idle s' \<and> cv (ft_world s') = cv (ft_world s) \<and> ft_disk s' = ft_disk s \<and> ft_pass s' = ft_pass s"

lemma quiet_trans: "quiet cv s s' \<Longrightarrow> quiet cv s' s'' \<Longrightarrow> quiet cv s s''"
  by (simp add: quiet_def)

lemma quiet_refl: "ftp_idle s \<Longrightarrow> quiet cv s s"
  by (simp add: quiet_def)

lemma idle_close: "ftp_idle s \<Longrightarrow> ftp_close_filesystem_on_error e s = Some s"
  by (simp add: ftp_idle_def ftp_close_filesystem_on_error_def ftp_close_files_dir_def)

lemma quiet_close_cmd_data:
  assumes "net_keeps cv e" "ftp_idle s"
  shows "\<exists>s'. ftp_close_cmd_data e s = Some s' \<and> quiet cv s s'"
proof -
  let ?s = "(fw (fn_close e (ft_d_sd s)) (fw (fn_close e (ft_c_sd s)) s))\<lparr>ft_c_sd := -1, ft_d_sd := -1\<rparr>"
  have i: "ftp_idle ?s" using assms(2) by (simp add: ftp_idle_def fw_def)
  then have "ftp_close_cmd_data e s = Some ?s" by (simp add: ftp_close_cmd_data_def idle_close)
  moreover have "quiet cv s ?s" using i assms(1) by (simp add: quiet_def fw_def net_keeps_def)
  ultimately show ?thesis by blast
qed

lemma quiet_reset:
  assumes "net_keeps cv e" "ftp_idle s"
  shows "\<exists>s'. ftp_reset_all e s = Some s' \<and> quiet cv s s'"
proof -
  let ?s = "(fw (fn_close e (ft_ld_sd s)) (fw (fn_close e (ft_lc_sd s)) s))\<lparr>ft_lc_sd := -1, ft_ld_sd := -1\<rparr>"
  have "ftp_idle ?s" using assms(2) by (simp add: ftp_idle_def fw_def)
  then obtain s1 where s1: "ftp_close_cmd_data e ?s = Some s1" "quiet cv ?s s1"
    using quiet_close_cmd_data[OF assms(1)] by blast
  have "ftp_reset_all e s =
      Some (s1\<lparr>ft_e_open := E_FTP_NOTHING_OPEN, ft_state := E_FTP_STE_START, ft_substate := E_FTP_STE_SUB_DISCONNECTED\<rparr>)"
    using s1 by (simp add: ftp_reset_all_def)
  moreover have "quiet cv s (s1\<lparr>ft_e_open := E_FTP_NOTHING_OPEN, ft_state := E_FTP_STE_START, ft_substate := E_FTP_STE_SUB_DISCONNECTED\<rparr>)"
    using s1(2) assms(1) by (simp add: quiet_def ftp_idle_def ftp_transferring_def fw_def net_keeps_def)
  ultimately show ?thesis by blast
qed

lemma quiet_reply:
  assumes "net_keeps cv e" "ftp_idle s" "length (dec status) + length msg < 500"
  shows "\<exists>s'. ftp_send_reply e status msg s = Some s' \<and> quiet cv s s'"
proof -
  let ?text = "dec status @ '' '' @ msg @ crlf"
  obtain sent w where w: "ftp_send_all e (ft_c_sd s) (ascii ?text) 200 (ft_world s) = (sent, w)" by (metis prod.exhaust)
  then have c: "cv w = cv (ft_world s)" using card_send_all[OF assms(1)] by (metis snd_conv)
  let ?s = "s\<lparr>ft_world := w\<rparr>"
  have i: "ftp_idle ?s" "quiet cv s ?s" using assms(2) c by (simp_all add: ftp_idle_def quiet_def)
  have l: "\<not> length ?text \<ge> 519" using assms(3) by (simp add: crlf_def)
  obtain s1 where s1: "ftp_reset_all e ?s = Some s1" "quiet cv s s1"
    using quiet_reset[OF assms(1) i(1)] quiet_trans[OF i(2)] by blast
  show ?thesis
  proof (cases sent)
    case False
    with s1 w l show ?thesis by (simp add: ftp_send_reply_def fcall_def Let_def)
  next
    case True
    have close: "ftp_idle t \<Longrightarrow> cv (ft_world t) = cv (ft_world s) \<Longrightarrow> ft_disk t = ft_disk s \<Longrightarrow> ft_pass t = ft_pass s \<Longrightarrow>
        \<exists>s'. ftp_close_filesystem_on_error e t = Some s' \<and> quiet cv s s'" for t
      by (simp add: idle_close quiet_def)
    consider "status = 221" | "status \<noteq> 221" "status = 426 \<or> status = 451 \<or> status = 550"
      | "status \<noteq> 221" "\<not> (status = 426 \<or> status = 451 \<or> status = 550)" by blast
    then show ?thesis
    proof cases
      case 1
      show ?thesis using True w l 1 c assms(1,2)
        by (simp add: ftp_send_reply_def fcall_def Let_def, intro close)
           (simp_all add: ftp_idle_def fw_def net_keeps_def)
    next
      case 2
      show ?thesis using True w l 2 c assms(1,2)
        by (simp add: ftp_send_reply_def fcall_def Let_def, intro close)
           (auto simp: ftp_idle_def fw_def net_keeps_def)
    next
      case 3
      then show ?thesis using True w l i by (simp add: ftp_send_reply_def fcall_def Let_def)
    qed
  qed
qed

section \<open>Before the login\<close>

text \<open>What a client sends that never gives the password, nor a command as long as the whole buffer.\<close>

definition ftp_param :: "string \<Rightarrow> string" where
  "ftp_param str = snd (ftp_pop_param FTP_MAX_PARAM_SIZE True True FTP_NUL [] str)"

definition no_password :: "string \<Rightarrow> 'w ftp_env \<Rightarrow> bool" where
  "no_password pw e \<longleftrightarrow>
     (\<forall>sd n w. length (fst (fst (fn_recv e sd n w))) < FTP_CMD_BUFFER \<and>
        (\<forall>str. ftp_command_line (take n (fst (fst (fn_recv e sd n w)))) = (str, Some E_FTP_CMD_PASS) \<longrightarrow> ftp_param str \<noteq> pw))"

lemma length_dec3 [simp]: "length (dec 332) = 3" "length (dec 502) = 3" "length (dec 504) = 3" "length (dec 331) = 3"
  "length (dec 530) = 3" "length (dec 221) = 3" "length (dec 220) = 3"
  by code_simp+

lemma quiet_login_cmd:
  assumes "net_keeps cv e" "ftp_idle s" "c \<in> {None, Some E_FTP_CMD_USER, Some E_FTP_CMD_PASS, Some E_FTP_CMD_QUIT, Some E_FTP_CMD_FEAT, Some E_FTP_CMD_AUTH}"
    "c = Some E_FTP_CMD_PASS \<Longrightarrow> ftp_param str \<noteq> ft_pass s"
  shows "\<exists>s'. ftp_run_cmd e c str s = Some s' \<and> quiet cv s s'"
proof -
  have reply: "\<exists>s'. ftp_send_reply e st msg t = Some s' \<and> quiet cv s s'"
    if t: "quiet cv s t" and l: "length (dec st) + length msg < 500" for st msg t
  proof -
    have "ftp_idle t" using t by (simp add: quiet_def)
    then obtain s' where "ftp_send_reply e st msg t = Some s'" "quiet cv t s'"
      using quiet_reply[OF assms(1) _ l] by blast
    then show ?thesis using quiet_trans[OF t] by blast
  qed
  have r: "quiet cv s s" using assms(2) by (rule quiet_refl)
  have u: "quiet cv s (s\<lparr>ft_scratch := x\<rparr>)" "quiet cv s (s\<lparr>ft_scratch := x, ft_uservalid := True\<rparr>)" for x
    using assms(2) by (simp_all add: quiet_def ftp_idle_def)
  have u1: "quiet cv s (if b then (s\<lparr>ft_scratch := x\<rparr>)\<lparr>ft_uservalid := True\<rparr> else s\<lparr>ft_scratch := x\<rparr>)" for b x
    using u by simp
  consider "c = None" | "c = Some E_FTP_CMD_USER" | "c = Some E_FTP_CMD_PASS" | "c = Some E_FTP_CMD_QUIT"
    | "c = Some E_FTP_CMD_FEAT" | "c = Some E_FTP_CMD_AUTH" using assms(3) by blast
  then show ?thesis
  proof cases
    case 1
    then show ?thesis by (simp add: ftp_run_cmd_def reply[OF r])
  next
    case 2
    then show ?thesis by (simp add: ftp_run_cmd_def ftp_user_cmd_def Let_def reply[OF u(1)] reply[OF u(2)])
  next
    case 3
    have "ftp_pass_cmd e str s = ftp_send_reply e 530 [] (s\<lparr>ft_scratch := ftp_param str\<rparr>)"
      using assms(4)[OF 3] by (simp add: ftp_pass_cmd_def ftp_param_def)
    with 3 show ?thesis by (simp add: ftp_run_cmd_def reply[OF u(1)])
  next
    case 4
    then show ?thesis by (simp add: ftp_run_cmd_def reply[OF r])
  next
    case 5
    then show ?thesis by (simp add: ftp_run_cmd_def reply[OF r])
  next
    case 6
    then show ?thesis by (simp add: ftp_run_cmd_def reply[OF r])
  qed
qed

lemma quiet_recv:
  assumes "net_keeps cv e" "no_password (ft_pass s) e" "ftp_idle s"
    "ftp_recv_non_blocking e sd n s = ((r, data), s1)"
  shows "quiet cv s s1" "length data < FTP_CMD_BUFFER" "ft_closechild s1 = ft_closechild s"
    "ftp_command_line data = (str, Some E_FTP_CMD_PASS) \<Longrightarrow> r = E_FTP_RESULT_OK \<Longrightarrow> ftp_param str \<noteq> ft_pass s"
proof -
  obtain d again w where rc: "fn_recv e sd n (ft_world s) = ((d, again), w)" by (metis prod.exhaust)
  then have w: "cv w = cv (ft_world s)" using assms(1) unfolding net_keeps_def by (metis snd_conv)
  have q: "length d < FTP_CMD_BUFFER" "\<And>str. ftp_command_line (take n d) = (str, Some E_FTP_CMD_PASS) \<Longrightarrow> ftp_param str \<noteq> ft_pass s"
    using assms(2) rc unfolding no_password_def by (metis fst_conv)+
  have res: "sd < 0 \<and> s1 = s \<and> data = [] \<and> r = E_FTP_RESULT_FAILED \<or> s1 = s\<lparr>ft_world := w\<rparr> \<and> data = take n d"
    using assms(4) rc by (auto simp: ftp_recv_non_blocking_def fcall_def split: if_splits)
  show "quiet cv s s1" using res assms(3) w by (auto simp: quiet_def ftp_idle_def)
  show "length data < FTP_CMD_BUFFER" using res q(1) by auto
  show "ft_closechild s1 = ft_closechild s" using res by auto
  show "ftp_command_line data = (str, Some E_FTP_CMD_PASS) \<Longrightarrow> r = E_FTP_RESULT_OK \<Longrightarrow> ftp_param str \<noteq> ft_pass s"
    using res q(2) by auto
qed

lemma quiet_process_cmd:
  assumes "net_keeps cv e" "no_password (ft_pass s) e" "ftp_idle s"
  shows "\<exists>s'. ftp_process_cmd e s = Some s' \<and> quiet cv s s'"
proof -
  let ?s = "s\<lparr>ft_closechild := False\<rparr>"
  obtain r data s1 where rc: "ftp_recv_non_blocking e (ft_c_sd s) FTP_CMD_BUFFER ?s = ((r, data), s1)"
    by (metis prod.exhaust)
  have i: "ftp_idle ?s" "no_password (ft_pass ?s) e" using assms(2,3) by (simp_all add: ftp_idle_def)
  note f = quiet_recv[OF assms(1) i(2,1) rc]
  have q: "quiet cv s s1" using f(1) by (simp add: quiet_def)
  then have i1: "ftp_idle s1" and pw: "ft_pass s1 = ft_pass s" and np: "\<not> ft_passvalid s1"
    by (simp_all add: quiet_def ftp_idle_def)
  obtain str c where cl: "ftp_command_line data = (str, c)" by (metis prod.exhaust)
  show ?thesis
  proof (cases r)
    case E_FTP_RESULT_CONTINUE
    with rc q quiet_reply[OF assms(1) i1, of 221 "[]"] quiet_trans[OF q] show ?thesis
      by (auto simp: ftp_process_cmd_def)
  next
    case E_FTP_RESULT_FAILED
    with rc quiet_close_cmd_data[OF assms(1) i1] quiet_trans[OF q] show ?thesis
      by (auto simp: ftp_process_cmd_def)
  next
    case E_FTP_RESULT_OK
    have ok: "ftp_process_cmd e s =
        (if \<not> ftp_before_login c then ftp_send_reply e 332 [] s1
         else do {
           s \<leftarrow> ftp_run_cmd e c str s1;
           Some (if ft_closechild s then s\<lparr>ft_path := remove_fname_from_path (ft_path s) (ft_scratch s)\<rparr> else s) })"
      using rc E_FTP_RESULT_OK f(2) np cl by (simp add: ftp_process_cmd_def)
    show ?thesis
    proof (cases "ftp_before_login c")
      case False
      with ok quiet_reply[OF assms(1) i1, of 332 "[]"] quiet_trans[OF q] show ?thesis by auto
    next
      case True
      have "c = Some E_FTP_CMD_PASS \<Longrightarrow> ftp_param str \<noteq> ft_pass s1" using f(4) E_FTP_RESULT_OK cl pw by simp
      then obtain s2 where s2: "ftp_run_cmd e c str s1 = Some s2" "quiet cv s1 s2"
        using quiet_login_cmd[OF assms(1) i1, of c str] True by (auto simp: ftp_before_login_def)
      have "quiet cv s (if b then s2\<lparr>ft_path := x\<rparr> else s2)" for b x
        using quiet_trans[OF q s2(2)] by (simp add: quiet_def ftp_idle_def)
      with ok True s2 show ?thesis by simp
    qed
  qed
qed

lemma quiet_listening:
  assumes "net_keeps cv e" "ftp_idle s" "ftp_create_listening_socket e port s = (x, s1)"
  shows "quiet cv s s1"
proof -
  obtain sd w where s: "fn_socket e (ft_world s) = (sd, w)" by (metis prod.exhaust)
  obtain l w2 where b: "fn_bind_listen e sd port (fn_nonblock e sd w) = (l, w2)" by (metis prod.exhaust)
  have "cv w = cv (ft_world s)" "cv w2 = cv (ft_world s)" "cv (fn_close e sd w2) = cv (ft_world s)"
    using s b assms(1) unfolding net_keeps_def by (metis snd_conv)+
  with assms(2,3) s b show ?thesis
    by (auto simp: ftp_create_listening_socket_def fcall_def fw_def quiet_def ftp_idle_def split: if_splits)
qed

lemma quiet_accept:
  assumes "net_keeps cv e" "ftp_idle s"
  shows "\<exists>r s'. ftp_wait_for_connection e False s = Some (r, s') \<and> quiet cv s s'"
proof -
  obtain sd again w where a: "fn_accept e (ft_lc_sd s) (ft_world s) = ((sd, again), w)" by (metis prod.exhaust)
  let ?s = "s\<lparr>ft_world := w, ft_c_sd := sd\<rparr>"
  have "cv w = cv (ft_world s)" using a assms(1) unfolding net_keeps_def by (metis snd_conv)
  then have q: "quiet cv s ?s" "quiet cv s (?s\<lparr>ft_ip_addr := ip\<rparr>)" "quiet cv s (fw (fn_nonblock e sd) (?s\<lparr>ft_ip_addr := ip\<rparr>))" for ip
    using assms by (simp_all add: quiet_def ftp_idle_def fw_def net_keeps_def)
  obtain s1 where s1: "ftp_reset_all e ?s = Some s1" "quiet cv ?s s1"
    using quiet_reset[OF assms(1), of ?s] q(1) by (auto simp: quiet_def)
  show ?thesis
    using a q s1 quiet_trans[OF q(1) s1(2)] by (simp add: ftp_wait_for_connection_def fcall_def Let_def)
qed

lemma quiet_ready:
  assumes "net_keeps cv e" "no_password (ft_pass s) e" "ftp_idle s"
  shows "\<exists>s'. ftp_ready_step e s = Some s' \<and> quiet cv s s'"
proof (cases "ft_c_sd s < 0")
  case False
  then show ?thesis using quiet_process_cmd[OF assms] assms(3) by (simp add: ftp_ready_step_def quiet_refl)
next
  case True
  obtain r s1 where a: "ftp_wait_for_connection e False s = Some (r, s1)" "quiet cv s s1"
    using quiet_accept[OF assms(1,3)] by blast
  have i1: "ftp_idle s1" "ft_pass s1 = ft_pass s" using a(2) by (simp_all add: quiet_def)
  obtain s2 where g: "ftp_greet e s1 = Some s2" "quiet cv s1 s2"
  proof -
    let ?t = "s1\<lparr>ft_txretries := 0, ft_logginretries := 0, ft_ctimeout := 0, ft_uservalid := False, ft_passvalid := False, ft_path := ''/''\<rparr>"
    have "ftp_idle ?t" using i1 by (simp add: ftp_idle_def)
    from quiet_reply[OF assms(1) this, of 220 "''ESP32 FTP Server''"] that show ?thesis
      by (auto simp: ftp_greet_def quiet_def)
  qed
  have sub: "ft_substate s = E_FTP_STE_SUB_DISCONNECTED" using assms(3) by (simp add: ftp_idle_def)
  show ?thesis
  proof (cases "r = E_FTP_RESULT_OK")
    case True
    with \<open>ft_c_sd s < 0\<close> a g sub quiet_trans[OF a(2) g(2)] show ?thesis by (simp add: ftp_ready_step_def)
  next
    case False
    with \<open>ft_c_sd s < 0\<close> a sub quiet_process_cmd[OF assms(1) _ i1(1)] assms(2) i1(2) quiet_trans[OF a(2)] show ?thesis
      by (auto simp: ftp_ready_step_def)
  qed
qed

lemma quiet_run:
  assumes "net_keeps cv e" "no_password (ft_pass s) e" "ftp_idle s"
  shows "\<exists>r s'. ftp_run e dt s = Some (r, s') \<and> quiet cv s s'"
proof (cases "ft_stop s")
  case True
  then show ?thesis using quiet_refl[OF assms(3)] by (simp add: ftp_run_def)
next
  case False
  let ?s = "s\<lparr>ft_dtimeout := ft_dtimeout s + dt, ft_ctimeout := ft_ctimeout s + dt, ft_time := ft_time s + dt\<rparr>"
  have i: "ftp_idle ?s" "no_password (ft_pass ?s) e" and q: "quiet cv s t \<longleftrightarrow> quiet cv ?s t" for t
    using assms(2,3) by (simp_all add: ftp_idle_def quiet_def)
  have "\<exists>s1. ftp_state_step e ?s = Some s1 \<and> quiet cv ?s s1"
  proof (cases "ft_state s")
    case E_FTP_STE_DISABLED
    then show ?thesis using i(1) by (auto simp: ftp_state_step_def quiet_def ftp_idle_def ftp_transferring_def)
  next
    case E_FTP_STE_START
    obtain sd ok s1 where c: "ftp_create_listening_socket e FTP_CMD_PORT ?s = ((sd, ok), s1)" by (metis prod.exhaust)
    from quiet_listening[OF assms(1) i(1) c] E_FTP_STE_START c show ?thesis
      by (cases ok) (simp_all add: ftp_state_step_def quiet_def ftp_idle_def ftp_transferring_def Let_def)
  next
    case E_FTP_STE_READY
    then show ?thesis using quiet_ready[OF assms(1) i(2,1)] by (simp add: ftp_state_step_def)
  qed (use assms(3) in \<open>simp_all add: ftp_idle_def ftp_transferring_def\<close>)
  then obtain s1 where s1: "ftp_state_step e ?s = Some s1" "quiet cv ?s s1" by blast
  then have "ftp_substate_step e s1 = Some s1" "ftp_check_data s1 = s1"
    by (simp_all add: quiet_def ftp_idle_def ftp_substate_step_def ftp_check_data_def)
  with False s1 q show ?thesis by (simp add: ftp_run_def)
qed


section \<open>Mounted images\<close>

lemma change_begin_refused:
  "ftp_change_begin e full s = (False, s') \<Longrightarrow> s' = s\<lparr>ft_refused := True\<rparr>"
  using change_begin_refuses[of "fe_disk e (ft_world s)" full "ft_disk s"]
  by (cases "disk_change_begin (fe_disk e (ft_world s)) full (ft_disk s)")
     (auto simp: ftp_change_begin_def Let_def split: if_splits)

lemma change_begin_allowed:
  fixes s t :: "'w ftp"
  assumes "ftp_change_begin e full s = (True, s')"
  shows "ft_guarded s' = ft_guarded s" "ft_world s' = ft_world s"
    "ft_disk t = ft_disk s' \<Longrightarrow> ft_guarded t = ft_guarded s \<Longrightarrow> ft_disk (ftp_change_end t) = ft_disk s"
  using assms change_end_begin[of "fe_disk e (ft_world s)" full "ft_disk s"]
  by (cases "disk_change_begin (fe_disk e (ft_world s)) full (ft_disk s)";
      auto simp: ftp_change_begin_def ftp_change_end_def Let_def split: if_splits)+

text \<open>What leaves the disk store as it was: \<open>dsk\<close> for steps, \<open>dsk2\<close> for steps with a result.\<close>

definition dsk :: "disk_state \<times> bool \<Rightarrow> 'w ftp option \<Rightarrow> bool" where
  "dsk D m \<longleftrightarrow> (\<forall>s. m = Some s \<longrightarrow> (ft_disk s, ft_guarded s) = D)"

definition dsk2 :: "disk_state \<times> bool \<Rightarrow> ('a \<times> 'w ftp) option \<Rightarrow> bool" where
  "dsk2 D m \<longleftrightarrow> (\<forall>x s. m = Some (x, s) \<longrightarrow> (ft_disk s, ft_guarded s) = D)"

abbreviation (input) at_disk :: "disk_state \<times> bool \<Rightarrow> 'w ftp \<Rightarrow> bool" where
  "at_disk D s \<equiv> (ft_disk s, ft_guarded s) = D"

lemma change_done:
  fixes s t :: "'w ftp"
  assumes "ftp_change_begin e full s = (True, s1)" "at_disk (ft_disk s1, ft_guarded s1) t"
  shows "at_disk (ft_disk s, ft_guarded s) (ftp_change_end t)"
proof -
  have "ft_guarded (ftp_change_end t) = ft_guarded t" by (simp add: ftp_change_end_def)
  with change_begin_allowed[OF assms(1)] assms(2) show ?thesis by simp
qed

named_theorems dsk_rules "constructs that keep the disk store"

lemma dsk_Some [dsk_rules]: "at_disk D s \<Longrightarrow> dsk D (Some s)"
  by (simp add: dsk_def)

lemma dsk2_Some [dsk_rules]: "at_disk D s \<Longrightarrow> dsk2 D (Some (x, s))"
  by (simp add: dsk2_def)

lemma dsk_None [dsk_rules]: "dsk D None" "dsk2 D None"
  by (simp_all add: dsk_def dsk2_def)

lemma dsk_bind [dsk_rules]: "dsk D m \<Longrightarrow> (\<And>s. at_disk D s \<Longrightarrow> dsk D (f s)) \<Longrightarrow> dsk D (Option.bind m f)"
  by (cases m) (auto simp: dsk_def)

lemma dsk2_bind [dsk_rules]: "dsk D m \<Longrightarrow> (\<And>s. at_disk D s \<Longrightarrow> dsk2 D (f s)) \<Longrightarrow> dsk2 D (Option.bind m f)"
  by (cases m) (auto simp: dsk_def dsk2_def)

lemma dsk_bind2 [dsk_rules]:
  "dsk2 D m \<Longrightarrow> (\<And>x s. at_disk D s \<Longrightarrow> dsk D (f x s)) \<Longrightarrow> dsk D (Option.bind m (\<lambda>(x, s). f x s))"
  by (cases m) (auto simp: dsk_def dsk2_def)

lemma dsk2_bind2 [dsk_rules]:
  "dsk2 D m \<Longrightarrow> (\<And>x s. at_disk D s \<Longrightarrow> dsk2 D (f x s)) \<Longrightarrow> dsk2 D (Option.bind m (\<lambda>(x, s). f x s))"
  by (cases m) (auto simp: dsk_def dsk2_def)

lemma dsk_if [dsk_rules]:
  "dsk D a \<Longrightarrow> dsk D b \<Longrightarrow> dsk D (if c then a else b)"
  by simp

lemma dsk2_if [dsk_rules]:
  "dsk2 D a \<Longrightarrow> dsk2 D b \<Longrightarrow> dsk2 D (if c then a else b)"
  by simp

lemma at_if [dsk_rules]: "at_disk D a \<Longrightarrow> at_disk D b \<Longrightarrow> at_disk D (if c then a else b)"
  by simp

lemma at_fw [dsk_rules]: "at_disk D s \<Longrightarrow> at_disk D (fw g s)"
  by (simp add: fw_def)

lemma dsk_fcall [dsk_rules]:
  "at_disk D s \<Longrightarrow> (\<And>x s. at_disk D s \<Longrightarrow> dsk D (f x s)) \<Longrightarrow> dsk D (let (x, s) = fcall g s in f x s)"
  "at_disk D s \<Longrightarrow> (\<And>x s. at_disk D s \<Longrightarrow> dsk D (f x s)) \<Longrightarrow> dsk D (case fcall g s of (x, s) \<Rightarrow> f x s)"
  by (auto simp: fcall_def split: prod.splits)

lemma dsk2_fcall [dsk_rules]:
  "at_disk D s \<Longrightarrow> (\<And>x s. at_disk D s \<Longrightarrow> dsk2 D (f x s)) \<Longrightarrow> dsk2 D (let (x, s) = fcall g s in f x s)"
  by (auto simp: fcall_def split: prod.splits)

lemma dsk_let [dsk_rules]:
  "at_disk D v \<Longrightarrow> (\<And>s. at_disk D s \<Longrightarrow> dsk D (f s)) \<Longrightarrow> dsk D (let s = v in f s)"
  "at_disk D v \<Longrightarrow> (\<And>s. at_disk D s \<Longrightarrow> dsk2 D (g s)) \<Longrightarrow> dsk2 D (let s = v in g s)"
  by simp_all

lemma dsk_skip [dsk_rules]:
  "(\<And>x. dsk D (f x)) \<Longrightarrow> dsk D (let x = v in f x)"
  "(\<And>x. dsk2 D (g x)) \<Longrightarrow> dsk2 D (let x = v in g x)"
  "(\<And>x. dsk D (h x)) \<Longrightarrow> dsk D (Option.bind m h)"
  "(\<And>x. dsk2 D (k x)) \<Longrightarrow> dsk2 D (Option.bind m k)"
  by (simp_all add: dsk_def dsk2_def bind_eq_Some_conv) blast+

lemma dsk_sum [dsk_rules]:
  "(\<And>y. dsk D (a y)) \<Longrightarrow> (\<And>y. dsk D (b y)) \<Longrightarrow> dsk D (case x of Inl y \<Rightarrow> a y | Inr y \<Rightarrow> b y)"
  "(\<And>y. dsk2 D (c y)) \<Longrightarrow> (\<And>y. dsk2 D (d y)) \<Longrightarrow> dsk2 D (case x of Inl y \<Rightarrow> c y | Inr y \<Rightarrow> d y)"
  by (simp_all split: sum.splits)

lemma dsk_prod [dsk_rules]:
  "(\<And>a b. dsk D (f a b)) \<Longrightarrow> dsk D (case p of (a, b) \<Rightarrow> f a b)"
  "(\<And>a b. dsk2 D (g a b)) \<Longrightarrow> dsk2 D (case p of (a, b) \<Rightarrow> g a b)"
  by (simp_all split: prod.splits)

lemma dsk_fclose [dsk_rules]: "at_disk D s \<Longrightarrow> dsk D (ftp_fclose e s)"
  by (auto simp: ftp_fclose_def dsk_def fcall_def split: ftp_ptr.splits prod.splits)

lemma dsk_closedir [dsk_rules]: "at_disk D s \<Longrightarrow> dsk D (ftp_closedir e s)"
  by (auto simp: ftp_closedir_def dsk_def fw_def split: ftp_ptr.splits)

lemma dsk_e_open [dsk_rules]:
  "dsk D a \<Longrightarrow> dsk D b \<Longrightarrow> dsk D c \<Longrightarrow>
   dsk D (case x of E_FTP_NOTHING_OPEN \<Rightarrow> a | E_FTP_FILE_OPEN \<Rightarrow> b | E_FTP_DIR_OPEN \<Rightarrow> c)"
  by (cases x) simp_all

lemma dsk_close_files_dir [dsk_rules]: "at_disk D s \<Longrightarrow> dsk D (ftp_close_files_dir e s)"
  unfolding ftp_close_files_dir_def by (rule dsk_rules | assumption | (simp; fail))+

lemma dsk_close_filesystem [dsk_rules]: "at_disk D s \<Longrightarrow> dsk D (ftp_close_filesystem_on_error e s)"
  unfolding ftp_close_filesystem_on_error_def by (rule dsk_rules | assumption | (simp; fail))+

lemma dsk_close_cmd_data [dsk_rules]: "at_disk D s \<Longrightarrow> dsk D (ftp_close_cmd_data e s)"
  unfolding ftp_close_cmd_data_def by (rule dsk_rules | assumption | (simp; fail))+

lemma dsk_reset [dsk_rules]: "at_disk D s \<Longrightarrow> dsk D (ftp_reset_all e s)"
  unfolding ftp_reset_all_def by (rule dsk_rules | assumption | (simp; fail))+

lemma dsk_reply [dsk_rules]: "at_disk D s \<Longrightarrow> dsk D (ftp_send_reply e st msg s)"
  unfolding ftp_send_reply_def by (rule dsk_rules | assumption | (simp add: fw_def; fail))+

lemma dsk_put [dsk_rules]: "at_disk D s \<Longrightarrow> dsk D (dbuf_put bs s)"
  unfolding dbuf_put_def by (rule dsk_rules | assumption | (simp; fail))+

lemma dsk_set_path [dsk_rules]: "at_disk D s \<Longrightarrow> dsk D (ftp_set_path p s)"
  unfolding ftp_set_path_def by (rule dsk_rules | assumption | (simp; fail))+

lemma dsk_open_child [dsk_rules]: "at_disk D s \<Longrightarrow> dsk D (ftp_open_child s)"
  unfolding ftp_open_child_def by (rule dsk_rules | assumption)+

lemma dsk_close_child [dsk_rules]: "at_disk D s \<Longrightarrow> dsk D (ftp_close_child s)"
  unfolding ftp_close_child_def by (rule dsk_rules | assumption | (simp; fail))+

lemma dsk_get_param [dsk_rules]: "at_disk D s \<Longrightarrow> dsk D (ftp_get_param_and_open_child str s)"
  unfolding ftp_get_param_and_open_child_def by (rule dsk_rules | assumption | (simp; fail))+

text \<open>A change between the two calls of the guard.\<close>

lemma dsk_guarded_change [dsk_rules]:
  assumes "at_disk D s" "\<And>s. at_disk D s \<Longrightarrow> dsk D (refuse s)"
    "\<And>x s. at_disk D s \<Longrightarrow> dsk D (done x s)"
  shows "dsk D (let (go, s) = ftp_change_begin e full s
     in if \<not> go then refuse s else let (r, s) = fcall g s in done r (ftp_change_end s))"
proof (cases "ftp_change_begin e full s")
  case (Pair go s1)
  show ?thesis
  proof (cases go)
    case False
    with Pair change_begin_refused[of e full s s1] assms(1,2) show ?thesis by simp
  next
    case True
    obtain r s2 where f: "fcall g s1 = (r, s2)" by (cases "fcall g s1")
    then have "at_disk (ft_disk s1, ft_guarded s1) s2" by (auto simp: fcall_def split: prod.splits)
    with change_done[of e full s s1] Pair True assms(1) have "at_disk D (ftp_change_end s2)" by simp
    with assms(3) Pair True f show ?thesis by simp
  qed
qed

lemma dsk_open_file [dsk_rules]:
  assumes "at_disk D s"
  shows "dsk2 D (ftp_open_file e path mode s)"
proof (cases "fullname s path")
  case (Some full)
  let ?s = "s\<lparr>ft_refused := False\<rparr>"
  have at: "at_disk D ?s" using assms by simp
  have fin: "dsk2 D (case r of Inl _ \<Rightarrow> Some (False, t\<lparr>ft_ptr := NullPtr\<rparr>)
      | Inr f \<Rightarrow> Some (True, t\<lparr>ft_ptr := FilePtr f 0, ft_e_open := E_FTP_FILE_OPEN\<rparr>))" if "at_disk D t" for r t
    using that by (simp add: dsk2_def split: sum.splits)
  show ?thesis
  proof (cases "mode = Mode_rb")
    case True
    obtain r s2 where f: "fcall (ftp_fopen e mode full) ?s = (r, s2)" by (cases "fcall (ftp_fopen e mode full) ?s")
    with at have "at_disk D s2" by (auto simp: fcall_def split: prod.splits)
    with fin[of s2 r] Some True f show ?thesis by (simp add: ftp_open_file_def Let_def)
  next
    case False
    obtain go s1 where b: "ftp_change_begin e full ?s = (go, s1)" by (cases "ftp_change_begin e full ?s")
    show ?thesis
    proof (cases go)
      case False
      with b have "s1 = ?s\<lparr>ft_refused := True\<rparr>" using change_begin_refused[of e full ?s s1] by simp
      with \<open>mode \<noteq> Mode_rb\<close> False Some b at show ?thesis by (simp add: ftp_open_file_def dsk2_def Let_def)
    next
      case True
      obtain r s2 where f: "fcall (ftp_fopen e mode full) s1 = (r, s2)" by (cases "fcall (ftp_fopen e mode full) s1")
      then have "at_disk (ft_disk s1, ft_guarded s1) s2" by (auto simp: fcall_def split: prod.splits)
      with change_done[of e full ?s s1] b True at have "at_disk D (ftp_change_end s2)" by simp
      with fin[of "ftp_change_end s2" r] Some \<open>mode \<noteq> Mode_rb\<close> True b f show ?thesis
        by (simp add: ftp_open_file_def Let_def)
    qed
  qed
qed (simp add: ftp_open_file_def dsk2_def)

lemma dsk_send_data [dsk_rules]: "at_disk D s \<Longrightarrow> dsk D (ftp_send_data e data s)"
  unfolding ftp_send_data_def by (rule dsk_rules | assumption | (simp add: fw_def; fail))+

lemma dsk2_open_dir_for_listing [dsk_rules]: "at_disk D s \<Longrightarrow> dsk2 D (ftp_open_dir_for_listing e path s)"
  unfolding ftp_open_dir_for_listing_def by (rule dsk_rules | assumption | (simp add: fw_def; fail))+

lemma dsk_dircmds [dsk_rules]:
  "at_disk D s \<Longrightarrow> dsk D (ftp_cwd e str s)" "at_disk D s \<Longrightarrow> dsk D (ftp_pwd e s)"
  "at_disk D s \<Longrightarrow> dsk D (ftp_size e str s)" "at_disk D s \<Longrightarrow> dsk D (ftp_mdtm e str s)"
  "at_disk D s \<Longrightarrow> dsk D (ftp_user_cmd e str s)" "at_disk D s \<Longrightarrow> dsk D (ftp_pass_cmd e str s)"
  "at_disk D s \<Longrightarrow> dsk D (ftp_list e nl str s)" "at_disk D s \<Longrightarrow> dsk D (ftp_transfer e mode str s)"
  "at_disk D s \<Longrightarrow> dsk D (ftp_dele e str s)" "at_disk D s \<Longrightarrow> dsk D (ftp_dir_cmd e opr str s)"
  "at_disk D s \<Longrightarrow> dsk D (ftp_rnfr e str s)" "at_disk D s \<Longrightarrow> dsk D (ftp_rnto e str s)"
  unfolding ftp_cwd_def ftp_pwd_def ftp_size_def ftp_mdtm_def ftp_stat_cmd_def ftp_user_cmd_def ftp_pass_cmd_def
    ftp_list_def ftp_transfer_def ftp_dele_def ftp_dir_cmd_def ftp_rnfr_def ftp_rnto_def
  by (rule dsk_rules | assumption | (simp add: fw_def; fail))+

lemma dsk_listening [dsk_rules]:
  "at_disk D s \<Longrightarrow> (\<And>x y s. at_disk D s \<Longrightarrow> dsk D (f x y s)) \<Longrightarrow>
   dsk D (case ftp_create_listening_socket e port s of ((x, y), s) \<Rightarrow> f x y s)"
  by (auto simp: ftp_create_listening_socket_def fcall_def fw_def split: prod.splits if_splits)

lemma dsk_pasv [dsk_rules]: "at_disk D s \<Longrightarrow> dsk D (ftp_pasv e s)"
proof -
  assume D: "at_disk D s"
  have fin: "dsk D (if b then do {
       s \<leftarrow> dbuf_put (ascii (ftp_pasv_text (ft_ip_addr t)) @ [0]) (t\<lparr>ft_dtimeout := 0\<rparr>);
       txt \<leftarrow> dbuf_str s;
       ftp_send_reply e 227 txt (s\<lparr>ft_substate := E_FTP_STE_SUB_LISTEN_FOR_DATA\<rparr>) }
     else ftp_send_reply e 425 [] t)" if "at_disk D t" for b t
    by (rule dsk_rules | rule that | assumption | (use that in \<open>simp; fail\<close>))+
  let ?s = "(fw (fn_close e (ft_d_sd s)) s)\<lparr>ft_d_sd := -1, ft_substate := E_FTP_STE_SUB_DISCONNECTED\<rparr>"
  have at: "at_disk D ?s" using D by (simp add: fw_def)
  obtain sd b t where l: "ftp_create_listening_socket e FTP_PASIVE_DATA_PORT ?s = ((sd, b), t)" by (metis prod.exhaust)
  with at have "at_disk D t"
    by (auto simp: ftp_create_listening_socket_def fcall_def fw_def split: prod.splits if_splits)
  with fin[of "t\<lparr>ft_ld_sd := sd\<rparr>" b] fin[of ?s True] at l show ?thesis
    by (simp add: ftp_pasv_def Let_def)
qed

lemma dsk_run_cmd [dsk_rules]: "at_disk D s \<Longrightarrow> dsk D (ftp_run_cmd e c str s)"
  by (cases c; simp only: ftp_run_cmd_def option.case)
     (rule dsk_rules | assumption | (rename_tac k, case_tac k; simp only: ftp_cmd.case))+

lemma dsk_process_cmd [dsk_rules]: "at_disk D s \<Longrightarrow> dsk D (ftp_process_cmd e s)"
proof -
  assume D: "at_disk D s"
  obtain r data t where r: "ftp_recv_non_blocking e (ft_c_sd s) FTP_CMD_BUFFER (s\<lparr>ft_closechild := False\<rparr>) = ((r, data), t)"
    by (metis prod.exhaust)
  with D have t: "at_disk D t" by (auto simp: ftp_recv_non_blocking_def fcall_def split: prod.splits if_splits)
  show ?thesis
    unfolding ftp_process_cmd_def r Let_def prod.case
    by (rule dsk_rules | rule t | assumption | (simp; fail))+
qed

lemma dsk_write_file [dsk_rules]: "at_disk D s \<Longrightarrow> dsk2 D (ftp_write_file e data s)"
  by (cases "ft_ptr s"; simp only: ftp_write_file_def ftp_ptr.case) (rule dsk_rules | assumption)+

definition dsk3 :: "disk_state \<times> bool \<Rightarrow> ('a \<times> 'b \<times> 'w ftp) option \<Rightarrow> bool" where
  "dsk3 D m \<longleftrightarrow> (\<forall>x y s. m = Some (x, y, s) \<longrightarrow> (ft_disk s, ft_guarded s) = D)"

lemma dsk_bind3 [dsk_rules]:
  "dsk3 D m \<Longrightarrow> (\<And>x y s. at_disk D s \<Longrightarrow> dsk D (f x y s)) \<Longrightarrow> dsk D (Option.bind m (\<lambda>(x, y, s). f x y s))"
  by (cases m) (auto simp: dsk_def dsk3_def)

lemma dsk3_of [dsk_rules]:
  "dsk D m \<Longrightarrow> (\<And>s. at_disk D s \<Longrightarrow> dsk3 D (f s)) \<Longrightarrow> dsk3 D (Option.bind m f)"
  "(\<And>x. dsk3 D (h x)) \<Longrightarrow> dsk3 D (Option.bind u h)"
  "at_disk D s \<Longrightarrow> dsk3 D (Some (x, y, s))" "dsk3 D None"
  "dsk3 D a \<Longrightarrow> dsk3 D b \<Longrightarrow> dsk3 D (if c then a else b)"
  "at_disk D v \<Longrightarrow> (\<And>s. at_disk D s \<Longrightarrow> dsk3 D (g s)) \<Longrightarrow> dsk3 D (let s = v in g s)"
  "(\<And>x. dsk3 D (k x)) \<Longrightarrow> dsk3 D (let x = q in k x)"
  "(\<And>a b. dsk3 D (l a b)) \<Longrightarrow> dsk3 D (case z of (a, b) \<Rightarrow> l a b)"
  by (auto simp: dsk_def dsk3_def bind_eq_Some_conv split: prod.splits)

lemma dsk_read_file [dsk_rules]: "at_disk D s \<Longrightarrow> dsk3 D (ftp_read_file e n s)"
  by (cases "ft_ptr s"; simp only: ftp_read_file_def ftp_ptr.case) (rule dsk_rules | assumption | (simp; fail))+

lemma dsk_list_dir [dsk_rules]: "at_disk D s \<Longrightarrow> dsk3 D (ftp_list_dir e n s)"
  by (cases "ft_ptr s"; simp only: ftp_list_dir_def ftp_ptr.case) (rule dsk_rules | assumption | (simp; fail))+

lemma dsk_wait [dsk_rules]: "at_disk D s \<Longrightarrow> dsk2 D (ftp_wait_for_connection e data s)"
proof -
  assume D: "at_disk D s"
  let ?l = "if data then ft_ld_sd s else ft_lc_sd s"
  obtain sd again t where a: "fcall (fn_accept e ?l) s = ((sd, again), t)" by (metis prod.exhaust)
  with D have t: "at_disk D t" by (auto simp: fcall_def split: prod.splits)
  show ?thesis
    unfolding ftp_wait_for_connection_def Let_def a prod.case
    by (rule dsk_rules | rule t | assumption | (use t in \<open>simp add: fw_def; fail\<close>))+
qed

lemma dsk_steps [dsk_rules]:
  "at_disk D s \<Longrightarrow> dsk D (ftp_list_step e s)" "at_disk D s \<Longrightarrow> dsk D (ftp_tx_step e s)"
  "at_disk D s \<Longrightarrow> dsk D (ftp_greet e s)" "at_disk D s \<Longrightarrow> dsk D (ftp_ready_step e s)"
  unfolding ftp_list_step_def ftp_tx_step_def ftp_greet_def ftp_ready_step_def
  by (rule dsk_rules | assumption | (simp; fail))+

lemma dsk_rx_step [dsk_rules]: "at_disk D s \<Longrightarrow> dsk D (ftp_rx_step e s)"
proof -
  assume D: "at_disk D s"
  obtain r data t where r: "ftp_recv_non_blocking e (ft_d_sd s) (ft_buff_size s) s = ((r, data), t)" by (metis prod.exhaust)
  with D have t: "at_disk D t" by (auto simp: ftp_recv_non_blocking_def fcall_def split: prod.splits if_splits)
  show ?thesis
    by (cases r; simp only: ftp_rx_step_def r Let_def prod.case ftp_result.case)
       (rule dsk_rules | rule t | assumption | (simp; fail))+
qed

lemma dsk_state_step [dsk_rules]: "at_disk D s \<Longrightarrow> dsk D (ftp_state_step e s)"
  by (cases "ft_state s"; simp only: ftp_state_step_def ftp_state.case)
     (rule dsk_rules | assumption | (simp add: fw_def; fail))+

lemma dsk_substate_step [dsk_rules]: "at_disk D s \<Longrightarrow> dsk D (ftp_substate_step e s)"
  by (cases "ft_substate s"; simp only: ftp_substate_step_def ftp_substate.case)
     (rule dsk_rules | assumption | (simp add: fw_def; fail))+

lemma dsk_check: "at_disk D s \<Longrightarrow> at_disk D (ftp_check_data s)"
  by (simp add: ftp_check_data_def)

lemma ftp_run_disk: "ftp_run e dt s = Some (r, s') \<Longrightarrow> ft_disk s' = ft_disk s"
proof -
  assume run: "ftp_run e dt s = Some (r, s')"
  have "dsk2 (ft_disk s, ft_guarded s) (ftp_run e dt s)"
    unfolding ftp_run_def by (rule dsk_rules dsk_check | assumption | (simp; fail))+
  with run show ?thesis by (simp add: dsk2_def)
qed

lemma get_param_frame:
  assumes "ftp_get_param_and_open_child str s = Some s1"
  shows "ft_world s1 = ft_world s" "ft_disk s1 = ft_disk s" "ft_guarded s1 = ft_guarded s" "ft_root s1 = ft_root s"
    "ft_dbuf s1 = ft_dbuf s" "ft_e_open s1 = ft_e_open s" "ft_ptr s1 = ft_ptr s"
    "ftp_get_param_and_open_child str (s\<lparr>ft_total := t, ft_time := u\<rparr>) = Some (s1\<lparr>ft_total := t, ft_time := u\<rparr>)"
  using assms
  by (auto simp: ftp_get_param_and_open_child_def ftp_open_child_def ftp_set_path_def Let_def split: if_splits)

lemma guard_refuses:
  assumes "ft_guarded s" "0 \<le> fst (disk_change_begin (fe_disk e (ft_world s)) full (ft_disk s))"
  shows "ftp_change_begin e full s = (False, s\<lparr>ft_refused := True\<rparr>)"
  using assms change_begin_refuses[OF assms(2)]
  by (cases "disk_change_begin (fe_disk e (ft_world s)) full (ft_disk s)")
     (simp add: ftp_change_begin_def Let_def)

text \<open>
  C38. A mounted image is never changed through FTP: when the change guard finds the named file
  mounted, STOR, APPE and DELE of it and RNTO of it as the old name are answered 550 with the
  guard's message; no call to the card comes before that answer. And no step of the server,
  whatever happens in it, leaves the guard's lock held or alters the disk store.
\<close>

theorem ftp_mounted_image_kept:
  assumes "ft_guarded s" "ftp_get_param_and_open_child str s = Some s1"
    "0 \<le> fst (disk_change_begin (fe_disk e (ft_world s)) img (ft_disk s))"
  shows "(fullname s1 (ft_path s1) = Some img \<and> ftp_ends_plain (ft_path s1) \<longrightarrow>
       ftp_dele e str s = ftp_send_reply e 550 FTP_GUARD_MSG (s1\<lparr>ft_refused := True\<rparr>) \<and>
       (\<forall>mode. mode \<noteq> Mode_rb \<longrightarrow> ftp_transfer e mode str s = ftp_send_reply e 550 FTP_GUARD_MSG
          (s1\<lparr>ft_total := 0, ft_time := 0, ft_refused := True, ft_state := E_FTP_STE_END_TRANSFER\<rparr>))) \<and>
    (\<forall>old new. dbuf_str s = Some old \<and> fullname s old = Some img \<and> fullname s1 (ft_path s1) = Some new \<longrightarrow>
       ftp_rnto e str s = ftp_send_reply e 550 FTP_GUARD_MSG (s1\<lparr>ft_refused := True\<rparr>)) \<and>
    ft_world s1 = ft_world s \<and>
    (\<forall>dt r s'. ftp_run e dt s = Some (r, s') \<longrightarrow> ft_disk s' = ft_disk s)"
proof -
  note f = get_param_frame[OF assms(2)]
  have g: "ftp_change_begin e img t = (False, t\<lparr>ft_refused := True\<rparr>)"
    if "ft_world t = ft_world s" "ft_disk t = ft_disk s" "ft_guarded t" for t :: "'a ftp"
    using guard_refuses[of t e img] that assms(3) by simp
  have dele: "ftp_dele e str s = ftp_send_reply e 550 FTP_GUARD_MSG (s1\<lparr>ft_refused := True\<rparr>)"
    if "fullname s1 (ft_path s1) = Some img" "ftp_ends_plain (ft_path s1)"
    using that g[of s1] f assms(1,2) by (simp add: ftp_dele_def ftp_fail_msg_def)
  have transfer: "ftp_transfer e mode str s = ftp_send_reply e 550 FTP_GUARD_MSG
      (s1\<lparr>ft_total := 0, ft_time := 0, ft_refused := True, ft_state := E_FTP_STE_END_TRANSFER\<rparr>)"
    if "mode \<noteq> Mode_rb" "fullname s1 (ft_path s1) = Some img" "ftp_ends_plain (ft_path s1)" for mode
  proof -
    let ?t = "s1\<lparr>ft_total := 0, ft_time := 0\<rparr>"
    have "fullname ?t (ft_path ?t) = Some img" using that(2) by (simp add: fullname_def split: if_splits)
    then have "ftp_open_file e (ft_path s1) mode ?t = Some (False, ?t\<lparr>ft_refused := True\<rparr>)"
      using that(1) g[of "?t\<lparr>ft_refused := False\<rparr>"] f assms(1) by (simp add: ftp_open_file_def)
    with f(8) that(1,3) show ?thesis by (simp add: ftp_transfer_def ftp_fail_msg_def)
  qed
  have rnto: "ftp_rnto e str s = ftp_send_reply e 550 FTP_GUARD_MSG (s1\<lparr>ft_refused := True\<rparr>)"
    if "dbuf_str s = Some old" "fullname s old = Some img" "fullname s1 (ft_path s1) = Some new" for old new
  proof -
    have "dbuf_str s1 = Some old" "fullname s1 old = Some img"
      using that f by (simp_all add: dbuf_str_def fullname_def split: if_splits)
    with that(3) g[of s1] f assms(1,2) show ?thesis by (simp add: ftp_rnto_def ftp_fail_msg_def)
  qed
  from dele transfer rnto f(1) ftp_run_disk show ?thesis by blast
qed

section \<open>Where the server goes wrong\<close>

text \<open>
  A command's parameter is appended to the working folder and cut off again at its first
  occurrence. That restores the folder (with a slash) when the name does not occur in it.
\<close>

lemma before_sub_end:
  assumes "f \<noteq> []" "\<forall>i < length p. take (length f) (drop i (p @ f)) \<noteq> f"
  shows "before_sub f (p @ f) = Some p"
  using assms(2)
proof (induction p)
  case Nil
  from assms(1) show ?case by (cases f) simp_all
next
  case (Cons x p)
  have "take (length f) (x # p @ f) \<noteq> f" using Cons.prems[rule_format, of 0] by simp
  moreover have "before_sub f (p @ f) = Some p"
    by (rule Cons.IH) (use Cons.prems[rule_format, of "Suc _"] in \<open>simp add: Suc_less_eq\<close>)
  ultimately show ?case by simp
qed

lemma folder_restored:
  assumes "f \<noteq> []" "hd f \<noteq> CHR ''/''"
    and dir: "dir = pwd @ (if length pwd > 1 \<and> last pwd \<noteq> CHR ''/'' then ''/'' else [])"
    and new: "\<forall>i < length dir. take (length f) (drop i (dir @ f)) \<noteq> f"
  shows "remove_fname_from_path (open_child pwd f) f = dir"
proof -
  have "open_child pwd f = dir @ f" using assms(1,2) by (simp add: open_child_def dir)
  with before_sub_end[OF assms(1) new] assms(1) show ?thesis by (simp add: remove_fname_from_path_def)
qed

text \<open>But an absolute name leaves no folder at all, and a name that occurs in it another one.\<close>

lemma absolute_name_loses_folder:
  "f \<noteq> [] \<Longrightarrow> hd f = CHR ''/'' \<Longrightarrow> remove_fname_from_path (open_child pwd f) f = []"
  by (cases f) (simp_all add: remove_fname_from_path_def open_child_def)

lemma folder_name_loses_folder: "remove_fname_from_path (open_child ''/a/b'' ''a'') ''a'' = ''/''"
  by (simp add: remove_fname_from_path_def open_child_def)

text \<open>
  A listing asked for while a file is open (a RETR or STOR without a data connection leaves it
  so) closes the stream as a folder; a path beyond the array is undefined, and so is a second
  attempt to start after one that ran out of memory.
\<close>

lemma list_closes_stream: "ft_ptr s = FilePtr f pos \<Longrightarrow> ftp_open_dir_for_listing e path s = None"
  by (simp add: ftp_open_dir_for_listing_def ftp_closedir_def)

lemma long_path_undefined: "128 \<le> length (ft_root s) + length path \<Longrightarrow> ftp_open_file e path mode s = None"
  by (simp add: ftp_open_file_def fullname_def)

lemma second_start_frees_twice:
  assumes "ftp_init e s = Some (False, s')" "fe_malloc e 0 (ft_world s)"
  shows "ftp_init e s' = None"
proof -
  obtain t where t: "ftp_deinit (s\<lparr>ft_stop := False\<rparr>) = Some t" using assms(1) by (cases "ftp_deinit (s\<lparr>ft_stop := False\<rparr>)") (simp_all add: ftp_init_def)
  then have w: "ft_world t = ft_world s" by (auto simp: ftp_deinit_def bind_eq_Some_conv)
  have "ft_m_dbuf s' = FreedBlock"
    using assms t w by (auto simp: ftp_init_def ftp_zero_def Let_def split: if_splits)
  then show ?thesis by (simp add: ftp_init_def ftp_deinit_def heap_free_def)
qed

end
