(* ===== verification/FtpTransfer.thy ===== *)
theory FtpTransfer
  imports FtpProps DemoCard
begin

text \<open>
  Downloads and uploads of the FTP server over the laws of stdio (\<open>CardFiles\<close>) and of a working connection,
  and the concrete server on which its theorems are exercised.
\<close>

section \<open>Downloads\<close>

text \<open>
  \<open>out w sd\<close> is what has been sent on a socket. The laws of a working connection: every send is
  complete, sockets leave files and streams alone, streams do not send, and reads succeed.
\<close>

definition card_of :: "'w card_view \<Rightarrow> 'w \<Rightarrow> (string \<Rightarrow> bytes option) \<times> (int \<Rightarrow> string option)" where
  "card_of v w = ((\<lambda>q. cv_file v q w), (\<lambda>f. cv_str v f w))"

definition delivers :: "('w \<Rightarrow> int \<Rightarrow> bytes) \<Rightarrow> 'w ftp_env \<Rightarrow> bool" where
  "delivers out e \<longleftrightarrow>
     (\<forall>sd d w. fst (fst (fn_send e sd d w)) = int (length d) \<and>
        out (snd (fn_send e sd d w)) = (out w)(sd := out w sd @ d))"

definition tx_laws :: "'w card_view \<Rightarrow> ('w \<Rightarrow> int \<Rightarrow> bytes) \<Rightarrow> 'w ftp_env \<Rightarrow> bool" where
  "tx_laws v out e \<longleftrightarrow>
     stdio_laws v (fe_io e) \<and> net_keeps (card_of v) e \<and> delivers out e \<and>
     (\<forall>f w. out (snd (f_close (fe_io e) f w)) = out w \<and> \<not> f_error (fe_io e) f w)"

definition downloading :: "'w card_view \<Rightarrow> string \<Rightarrow> bytes \<Rightarrow> int \<Rightarrow> nat \<Rightarrow> 'w ftp \<Rightarrow> bool" where
  "downloading v q c f pos s \<longleftrightarrow>
     ft_state s = E_FTP_STE_CONTINUE_FILE_TX \<and> ft_substate s = E_FTP_STE_SUB_DATA_CONNECTED \<and> \<not> ft_stop s \<and>
     ft_ptr s = FilePtr f pos \<and> ft_e_open s = E_FTP_FILE_OPEN \<and>
     cv_str v f (ft_world s) = Some q \<and> cv_file v q (ft_world s) = Some c \<and> pos \<le> length c \<and>
     0 < ft_buff_size s \<and> ft_buff_size s \<le> length (ft_dbuf s) \<and> 0 \<le> ft_d_sd s \<and> ft_c_sd s \<noteq> ft_d_sd s"

lemma send_all_delivers:
  assumes "delivers out e"
  shows "fst (ftp_send_all e sd data t w)" "out (snd (ftp_send_all e sd data t w)) = (out w)(sd := out w sd @ data)"
proof -
  obtain r again w' where s: "fn_send e sd data w = ((r, again), w')" by (metis prod.exhaust)
  with assms have "r = int (length data)" "out w' = (out w)(sd := out w sd @ data)"
    unfolding delivers_def by (metis fst_conv snd_conv)+
  with s show "fst (ftp_send_all e sd data t w)" "out (snd (ftp_send_all e sd data t w)) = (out w)(sd := out w sd @ data)"
    by (cases t; simp)+
qed

lemma send_data_delivers:
  assumes "tx_laws v out e"
  obtains w where "ftp_send_data e data s = Some (s\<lparr>ft_world := w\<rparr>)" "card_of v w = card_of v (ft_world s)"
    "out w = (out (ft_world s))(ft_d_sd s := out (ft_world s) (ft_d_sd s) @ data)"
proof -
  let ?r = "ftp_send_all e (ft_d_sd s) data 200 (ft_world s)"
  have l: "delivers out e" "net_keeps (card_of v) e" using assms by (simp_all add: tx_laws_def)
  have "ftp_send_data e data s = Some (s\<lparr>ft_world := snd ?r\<rparr>)"
    using send_all_delivers(1)[OF l(1)] by (simp add: ftp_send_data_def fcall_def split: prod.splits) (metis fst_conv)
  with that[of "snd ?r"] send_all_delivers(2)[OF l(1)] card_send_all[OF l(2)] show ?thesis by blast
qed

lemma reply_delivers:
  assumes "tx_laws v out e" "length (dec st) + length msg < 500" "st \<notin> {221, 426, 451, 550}"
  obtains w where "ftp_send_reply e st msg s = Some (s\<lparr>ft_world := w\<rparr>)" "card_of v w = card_of v (ft_world s)"
    "out w = (out (ft_world s))(ft_c_sd s := out (ft_world s) (ft_c_sd s) @ ascii (dec st @ '' '' @ msg @ crlf))"
proof -
  let ?text = "dec st @ '' '' @ msg @ crlf"
  let ?r = "ftp_send_all e (ft_c_sd s) (ascii ?text) 200 (ft_world s)"
  have l: "delivers out e" "net_keeps (card_of v) e" using assms(1) by (simp_all add: tx_laws_def)
  have "\<not> length ?text \<ge> 519" using assms(2) by (simp add: crlf_def)
  moreover have "fst ?r" using send_all_delivers(1)[OF l(1)] by simp
  ultimately have "ftp_send_reply e st msg s = Some (s\<lparr>ft_world := snd ?r\<rparr>)"
    using assms(3) by (cases ?r) (simp add: ftp_send_reply_def fcall_def Let_def)
  with that[of "snd ?r"] send_all_delivers(2)[OF l(1)] card_send_all[OF l(2)] show ?thesis by blast
qed

lemma dbuf_put_fits: "length bs \<le> length (ft_dbuf s) \<Longrightarrow> dbuf_put bs s = Some (s\<lparr>ft_dbuf := bs @ drop (length bs) (ft_dbuf s)\<rparr>)"
  by (simp add: dbuf_put_def)

text \<open>One full block, and the end of the file.\<close>

lemma tx_block:
  assumes "tx_laws v out e" "downloading v q c f pos s" "pos + ft_buff_size s \<le> length c"
  shows "\<exists>r s'. ftp_run e dt s = Some (r, s') \<and> downloading v q c f (pos + ft_buff_size s) s' \<and>
    ft_buff_size s' = ft_buff_size s \<and> ft_d_sd s' = ft_d_sd s \<and> ft_c_sd s' = ft_c_sd s \<and>
    out (ft_world s') = (out (ft_world s))(ft_d_sd s := out (ft_world s) (ft_d_sd s) @ take (ft_buff_size s) (drop pos c))"
proof -
  note d = assms(2)[unfolded downloading_def]
  let ?n = "ft_buff_size s"
  let ?data = "take ?n (drop pos c)"
  have io: "stdio_laws v (fe_io e)" using assms(1) by (simp add: tx_laws_def)
  have rd: "fread (fe_io e) f pos ?n (ft_world s) = ?data" using stdio_read[OF io] d by blast
  have len: "length ?data = ?n" "?data \<noteq> []" using assms(3) d by auto
  let ?s = "s\<lparr>ft_dtimeout := ft_dtimeout s + dt, ft_time := ft_time s + dt, ft_ctimeout := 0,
      ft_dbuf := ?data @ drop ?n (ft_dbuf s), ft_ptr := FilePtr f (pos + ?n)\<rparr>"
  have read: "ftp_read_file e ?n (s\<lparr>ft_dtimeout := ft_dtimeout s + dt, ft_time := ft_time s + dt, ft_ctimeout := 0\<rparr>) =
      Some (E_FTP_RESULT_CONTINUE, ?data, ?s)"
    using d rd len by (simp add: ftp_read_file_def dbuf_put_def Let_def)
  obtain w where w: "ftp_send_data e ?data ?s = Some (?s\<lparr>ft_world := w\<rparr>)" "card_of v w = card_of v (ft_world s)"
    "out w = (out (ft_world s))(ft_d_sd s := out (ft_world s) (ft_d_sd s) @ ?data)"
    using send_data_delivers[OF assms(1), of ?data ?s] by auto
  let ?t = "?s\<lparr>ft_world := w, ft_total := ft_total s + of_nat (length ?data)\<rparr>"
  have "ftp_run e dt s = Some (0, ?t)"
    using d read w len by (simp add: ftp_run_def ftp_state_step_def ftp_tx_step_def ftp_substate_step_def ftp_check_data_def)
  moreover have "cv_str v f w = Some q" "cv_file v q w = Some c"
    using w(2) d by (simp_all add: card_of_def fun_eq_iff)
  then have "downloading v q c f (pos + ?n) ?t" using d len assms(3) by (simp add: downloading_def)
  ultimately show ?thesis using w(3) by simp
qed

lemma tx_end:
  assumes "tx_laws v out e" "downloading v q c f pos s" "length c < pos + ft_buff_size s"
  shows "\<exists>r s'. ftp_run e dt s = Some (r, s') \<and> ft_state s' = E_FTP_STE_END_TRANSFER \<and> ft_ptr s' = NullPtr  \<and>
    out (ft_world s') = (out (ft_world s))(ft_d_sd s := out (ft_world s) (ft_d_sd s) @ drop pos c,
      ft_c_sd s := out (ft_world s) (ft_c_sd s) @ ascii (''226 '' @ crlf))"
proof -
  note d = assms(2)[unfolded downloading_def]
  let ?n = "ft_buff_size s"
  let ?data = "drop pos c"
  have io: "stdio_laws v (fe_io e)" using assms(1) by (simp add: tx_laws_def)
  have rd: "fread (fe_io e) f pos ?n (ft_world s) = ?data" using stdio_read[OF io] d assms(3) by auto
  have len: "length ?data < ?n" "length ?data \<le> length (ft_dbuf s)" using assms(3) d by auto
  let ?b = "s\<lparr>ft_dtimeout := ft_dtimeout s + dt, ft_time := ft_time s + dt, ft_ctimeout := 0\<rparr>"
  obtain b w1 where cl: "f_close (fe_io e) f (ft_world s) = (b, w1)" by (metis prod.exhaust)
  then have w1: "out w1 = out (ft_world s)" using assms(1) unfolding tx_laws_def by (metis snd_conv)
  let ?s = "?b\<lparr>ft_dbuf := ?data @ drop (length ?data) (ft_dbuf s), ft_world := w1, ft_ptr := NullPtr, ft_e_open := E_FTP_NOTHING_OPEN\<rparr>"
  have nerr: "\<not> f_error (fe_io e) f w" for w using assms(1) by (simp add: tx_laws_def)
  have read: "ftp_read_file e ?n ?b = Some (E_FTP_RESULT_OK, ?data, ?s)"
    using d rd len cl nerr
    by (simp add: ftp_read_file_def dbuf_put_def ftp_close_files_dir_def ftp_fclose_def fcall_def Let_def)
  obtain w where w: "ftp_send_data e ?data ?s = Some (?s\<lparr>ft_world := w\<rparr>)"
    "out w = (out w1)(ft_d_sd s := out w1 (ft_d_sd s) @ ?data)"
    using send_data_delivers[OF assms(1), of ?data ?s] by auto
  obtain u where u: "(if ?data \<noteq> [] then do { s \<leftarrow> ftp_send_data e ?data ?s; Some (s\<lparr>ft_total := ft_total s + of_nat (length ?data)\<rparr>) }
      else Some ?s) = Some u" "ft_d_sd u = ft_d_sd s" "ft_c_sd u = ft_c_sd s" "ft_ptr u = NullPtr"
      "ft_substate u = E_FTP_STE_SUB_DATA_CONNECTED"
      "out (ft_world u) = (out (ft_world s))(ft_d_sd s := out (ft_world s) (ft_d_sd s) @ ?data)"
  proof (cases "?data = []")
    case True
    with that[of ?s] w1 d show ?thesis by (simp add: fun_eq_iff)
  next
    case False
    with that[of "?s\<lparr>ft_world := w, ft_total := ft_total s + of_nat (length ?data)\<rparr>"] w w1 d show ?thesis by simp
  qed
  have l: "length (dec 226) + length ([] :: string) < 500" "226 \<notin> {221, 426, 451, 550 :: nat}" by code_simp+
  obtain w2 where w2: "ftp_send_reply e 226 [] u = Some (u\<lparr>ft_world := w2\<rparr>)"
    "out w2 = (out (ft_world u))(ft_c_sd u := out (ft_world u) (ft_c_sd u) @ ascii (dec 226 @ '' '' @ [] @ crlf))"
    using reply_delivers[OF assms(1) l, of u] by blast
  have t226: "dec 226 = ''226''" by code_simp
  have b0: "?b\<lparr>ft_ctimeout := 0\<rparr> = ?b" "ft_buff_size ?b = ?n" by simp_all
  have "ftp_tx_step e ?b = Some (u\<lparr>ft_world := w2, ft_state := E_FTP_STE_END_TRANSFER\<rparr>)"
    by (simp only: ftp_tx_step_def b0 read u(1) w2(1) Option.bind.simps prod.case ftp_result.distinct if_False if_True simp_thms)
  moreover have "ftp_state_step e (s\<lparr>ft_dtimeout := ft_dtimeout s + dt, ft_ctimeout := ft_ctimeout s + dt, ft_time := ft_time s + dt\<rparr>) =
      ftp_tx_step e ?b"
    using d by (simp add: ftp_state_step_def ftp_tx_step_def)
  ultimately have "ftp_run e dt s = Some (0, u\<lparr>ft_world := w2, ft_state := E_FTP_STE_END_TRANSFER\<rparr>)"
    using d u by (simp add: ftp_run_def ftp_substate_step_def ftp_check_data_def)
  moreover have "out w2 = (out (ft_world s))(ft_d_sd s := out (ft_world s) (ft_d_sd s) @ drop pos c,
      ft_c_sd s := out (ft_world s) (ft_c_sd s) @ ascii (''226 '' @ crlf))"
    using w2(2) d unfolding u(3,6) t226 by simp
  ultimately show ?thesis using u(4) by simp
qed

text \<open>The rest of a download, from a position on.\<close>

lemma retr_from:
  assumes laws: "tx_laws v out e"
  shows "downloading v q c f pos s \<Longrightarrow> length dts = (length c - pos) div ft_buff_size s + 1 \<Longrightarrow>
    \<exists>s'. ftp_pump e dts s = Some s' \<and> ft_state s' = E_FTP_STE_END_TRANSFER \<and> ft_ptr s' = NullPtr \<and>
      out (ft_world s') = (out (ft_world s))(ft_d_sd s := out (ft_world s) (ft_d_sd s) @ drop pos c,
        ft_c_sd s := out (ft_world s) (ft_c_sd s) @ ascii (''226 '' @ crlf))"
proof (induction dts arbitrary: pos s)
  case (Cons dt dts)
  let ?n = "ft_buff_size s"
  note d = Cons.prems(1)[unfolded downloading_def]
  show ?case
  proof (cases "pos + ?n \<le> length c")
    case False
    with d have "length c - pos < ?n" by linarith
    then have "(length c - pos) div ?n = 0" by simp
    with Cons.prems(2) have "dts = []" by simp
    moreover obtain r s1 where e1: "ftp_run e dt s = Some (r, s1)" "ft_state s1 = E_FTP_STE_END_TRANSFER" "ft_ptr s1 = NullPtr"
        "out (ft_world s1) = (out (ft_world s))(ft_d_sd s := out (ft_world s) (ft_d_sd s) @ drop pos c,
          ft_c_sd s := out (ft_world s) (ft_c_sd s) @ ascii (''226 '' @ crlf))"
      using tx_end[OF laws Cons.prems(1), of dt] False by auto
    ultimately have "ftp_pump e (dt # dts) s = Some s1" by simp
    with e1(2-4) show ?thesis by blast
  next
    case True
    obtain r s1 where s1: "ftp_run e dt s = Some (r, s1)" "downloading v q c f (pos + ?n) s1"
        "ft_buff_size s1 = ?n" "ft_d_sd s1 = ft_d_sd s" "ft_c_sd s1 = ft_c_sd s"
        "out (ft_world s1) = (out (ft_world s))(ft_d_sd s := out (ft_world s) (ft_d_sd s) @ take ?n (drop pos c))"
      using tx_block[OF laws Cons.prems(1) True, of dt] by blast
    have "(length c - pos) div ?n = (length c - (pos + ?n)) div ?n + 1"
      using True d by (simp add: le_div_geq)
    with Cons.prems(2) s1(3) have "length dts = (length c - (pos + ?n)) div ft_buff_size s1 + 1" by simp
    from Cons.IH[OF s1(2) this] obtain s2 where s2: "ftp_pump e dts s1 = Some s2"
        "ft_state s2 = E_FTP_STE_END_TRANSFER" "ft_ptr s2 = NullPtr"
        "out (ft_world s2) = (out (ft_world s1))(ft_d_sd s1 := out (ft_world s1) (ft_d_sd s1) @ drop (pos + ?n) c,
          ft_c_sd s1 := out (ft_world s1) (ft_c_sd s1) @ ascii (''226 '' @ crlf))" by blast
    have "take ?n (drop pos c) @ drop (pos + ?n) c = drop pos c"
      by (metis append_take_drop_id drop_drop add.commute)
    then have "out (ft_world s2) = (out (ft_world s))(ft_d_sd s := out (ft_world s) (ft_d_sd s) @ drop pos c,
        ft_c_sd s := out (ft_world s) (ft_c_sd s) @ ascii (''226 '' @ crlf))"
      unfolding s2(4) s1(4,5,6) using d by (simp add: fun_eq_iff)
    moreover have "ftp_pump e (dt # dts) s = Some s2" using s1(1) s2(1) by simp
    ultimately show ?thesis using s2(2,3) by blast
  qed
qed simp


section \<open>Uploads\<close>

text \<open>
  \<open>pend w\<close> is what the peer has yet to deliver on the data connection \<open>d\<close> before it closes it.
  A receive takes some of it, or sees the close; writes are complete below the size limit of FAT.
\<close>

definition rx_laws :: "'w card_view \<Rightarrow> ('w \<Rightarrow> int \<Rightarrow> bytes) \<Rightarrow> ('w \<Rightarrow> bytes) \<Rightarrow> int \<Rightarrow> 'w ftp_env \<Rightarrow> bool" where
  "rx_laws v out pend d e \<longleftrightarrow>
     tx_laws v out e \<and>
     (\<forall>f data w n w'. f_write (fe_io e) f data w = (n, w') \<longrightarrow> out w' = out w \<and> pend w' = pend w \<and>
        (\<forall>q c. cv_str v f w = Some q \<and> cv_file v q w = Some c \<and> length (c @ data) < 4294967296 \<longrightarrow> n = length data)) \<and>
     (\<forall>n w data again w'. fn_recv e d n w = ((data, again), w') \<longrightarrow> n > 0 \<longrightarrow>
        out w' = out w \<and> (if pend w = [] then data = [] \<and> \<not> again
          else data \<noteq> [] \<and> length data \<le> n \<and> pend w = data @ pend w'))"

definition uploading :: "'w card_view \<Rightarrow> string \<Rightarrow> bytes \<Rightarrow> int \<Rightarrow> 'w ftp \<Rightarrow> bool" where
  "uploading v q c f s \<longleftrightarrow>
     ft_state s = E_FTP_STE_CONTINUE_FILE_RX \<and> ft_substate s = E_FTP_STE_SUB_DATA_CONNECTED \<and> \<not> ft_stop s \<and>
     ft_ptr s = FilePtr f 0 \<and> ft_e_open s = E_FTP_FILE_OPEN \<and>
     cv_str v f (ft_world s) = Some q \<and> cv_file v q (ft_world s) = Some c \<and>
     0 < ft_buff_size s \<and> ft_buff_size s \<le> length (ft_dbuf s) \<and> 0 \<le> ft_d_sd s"

lemma card_of_eq: "card_of v w = card_of v w' \<Longrightarrow> cv_str v f w = cv_str v f w' \<and> cv_file v q w = cv_file v q w'"
  by (simp add: card_of_def fun_eq_iff)

lemma rx_recv:
  assumes "rx_laws v out pend d e" "d = ft_d_sd s" "0 \<le> d" "0 < n"
  obtains r data w where "ftp_recv_non_blocking e d n s = ((r, data), s\<lparr>ft_world := w\<rparr>)" "card_of v w = card_of v (ft_world s)"
    "out w = out (ft_world s)" "length data \<le> n"
    "if pend (ft_world s) = [] then r = E_FTP_RESULT_FAILED \<and> data = []
     else r = E_FTP_RESULT_OK \<and> data \<noteq> [] \<and> pend (ft_world s) = data @ pend w"
proof -
  obtain data again w where rc: "fn_recv e d n (ft_world s) = ((data, again), w)" by (metis prod.exhaust)
  have law: "out w = out (ft_world s)" "if pend (ft_world s) = [] then data = [] \<and> \<not> again
      else data \<noteq> [] \<and> length data \<le> n \<and> pend (ft_world s) = data @ pend w"
    using assms(1,4) rc unfolding rx_laws_def by blast+
  have "net_keeps (card_of v) e" using assms(1) by (simp add: rx_laws_def tx_laws_def)
  then have "card_of v w = card_of v (ft_world s)" using rc unfolding net_keeps_def by (metis snd_conv)
  moreover have "length data \<le> n" using law(2) by (cases "pend (ft_world s) = []") auto
  moreover have "ftp_recv_non_blocking e d n s =
      ((if pend (ft_world s) = [] then E_FTP_RESULT_FAILED else E_FTP_RESULT_OK, data), s\<lparr>ft_world := w\<rparr>)"
    using rc law(2) assms(3) calculation(2) by (simp add: ftp_recv_non_blocking_def fcall_def split: if_splits)
  ultimately show ?thesis using that law by (cases "pend (ft_world s) = []") simp_all
qed

lemma rx_chunk:
  assumes "rx_laws v out pend (ft_d_sd s) e" "uploading v q c f s" "pend (ft_world s) \<noteq> []"
    "length (c @ pend (ft_world s)) < 4294967296"
  shows "\<exists>r s' data. ftp_run e dt s = Some (r, s') \<and> data \<noteq> [] \<and> pend (ft_world s) = data @ pend (ft_world s') \<and>
    uploading v q (c @ data) f s' \<and> ft_d_sd s' = ft_d_sd s \<and> ft_c_sd s' = ft_c_sd s \<and> out (ft_world s') = out (ft_world s)"
proof -
  note u = assms(2)[unfolded uploading_def]
  let ?b = "s\<lparr>ft_dtimeout := ft_dtimeout s + dt, ft_ctimeout := ft_ctimeout s + dt, ft_time := ft_time s + dt\<rparr>"
  obtain data w where rc: "ftp_recv_non_blocking e (ft_d_sd s) (ft_buff_size s) ?b = ((E_FTP_RESULT_OK, data), ?b\<lparr>ft_world := w\<rparr>)"
      "card_of v w = card_of v (ft_world s)" "out w = out (ft_world s)" "length data \<le> ft_buff_size s"
      "data \<noteq> []" "pend (ft_world s) = data @ pend w"
  proof (rule rx_recv[OF assms(1), of ?b "ft_buff_size s"])
    fix r data w
    assume a: "ftp_recv_non_blocking e (ft_d_sd s) (ft_buff_size s) ?b = ((r, data), ?b\<lparr>ft_world := w\<rparr>)"
      "card_of v w = card_of v (ft_world ?b)" "out w = out (ft_world ?b)" "length data \<le> ft_buff_size s"
      "if pend (ft_world ?b) = [] then r = E_FTP_RESULT_FAILED \<and> data = []
       else r = E_FTP_RESULT_OK \<and> data \<noteq> [] \<and> pend (ft_world ?b) = data @ pend w"
    from a(5) assms(3) have "r = E_FTP_RESULT_OK" "data \<noteq> []" "pend (ft_world s) = data @ pend w" by simp_all
    with a(1-4) show thesis by (intro that[of data w]) simp_all
  qed (use u in simp_all)
  obtain n w2 where wr: "f_write (fe_io e) f data w = (n, w2)" by (metis prod.exhaust)
  have io: "stdio_laws v (fe_io e)" using assms(1) by (simp add: rx_laws_def tx_laws_def)
  have c: "cv_str v f w = Some q" "cv_file v q w = Some c" using card_of_eq[OF rc(2)] u by simp_all
  have small: "length (c @ data) < 4294967296" using assms(4) rc(6) by simp
  have w2: "out w2 = out w" "pend w2 = pend w" "n = length data"
    using assms(1) wr c small unfolding rx_laws_def by blast+
  have c2: "cv_str v f w2 = Some q" "cv_file v q w2 = Some (c @ data)"
    using stdio_write(1)[OF io wr c] stdio_write(3)[OF io wr c w2(3)] c by (simp_all add: same_streams_def)
  let ?t = "?b\<lparr>ft_world := w2, ft_dbuf := data @ drop (length data) (ft_dbuf s), ft_dtimeout := 0, ft_ctimeout := 0,
      ft_total := ft_total s + of_nat (length data)\<rparr>"
  have "ftp_run e dt s = Some (0, ?t)"
    using u rc(1,4) wr w2(3)
    by (simp add: ftp_run_def ftp_state_step_def ftp_rx_step_def dbuf_put_def ftp_write_file_def fcall_def
        ftp_substate_step_def ftp_check_data_def)
  moreover have "uploading v q (c @ data) f ?t" using u c2 rc(4) by (simp add: uploading_def)
  ultimately show ?thesis using rc(3,5,6) w2(1,2) by (intro exI[of _ 0] exI[of _ ?t] exI[of _ data]) simp
qed

lemma rx_end:
  assumes "rx_laws v out pend (ft_d_sd s) e" "uploading v q c f s" "pend (ft_world s) = []"
  shows "\<exists>r s'. ftp_run e dt s = Some (r, s') \<and> ft_state s' = E_FTP_STE_END_TRANSFER \<and> ft_ptr s' = NullPtr \<and>
    cv_file v q (ft_world s') = Some c \<and>
    out (ft_world s') = (out (ft_world s))(ft_c_sd s := out (ft_world s) (ft_c_sd s) @ ascii (''226 '' @ crlf))"
proof -
  note u = assms(2)[unfolded uploading_def]
  let ?b = "s\<lparr>ft_dtimeout := ft_dtimeout s + dt, ft_ctimeout := ft_ctimeout s + dt, ft_time := ft_time s + dt\<rparr>"
  have tx: "tx_laws v out e" using assms(1) by (simp add: rx_laws_def)
  obtain w where rc: "ftp_recv_non_blocking e (ft_d_sd s) (ft_buff_size s) ?b = ((E_FTP_RESULT_FAILED, []), ?b\<lparr>ft_world := w\<rparr>)"
      "card_of v w = card_of v (ft_world s)" "out w = out (ft_world s)"
    using rx_recv[OF assms(1), of ?b "ft_buff_size s"] u assms(3) by auto
  obtain b w1 where cl: "f_close (fe_io e) f w = (b, w1)" by (metis prod.exhaust)
  then have w1: "out w1 = out w" using tx unfolding tx_laws_def by (metis snd_conv)
  have io: "stdio_laws v (fe_io e)" using tx by (simp add: tx_laws_def)
  have c1: "cv_file v q w1 = Some c" using stdio_close[OF io cl] card_of_eq[OF rc(2)] u by (simp add: same_files_def)
  let ?s = "?b\<lparr>ft_world := w1, ft_ptr := NullPtr, ft_e_open := E_FTP_NOTHING_OPEN\<rparr>"
  have l: "length (dec 226) + length ([] :: string) < 500" "226 \<notin> {221, 426, 451, 550 :: nat}" by code_simp+
  obtain w2 where w2: "ftp_send_reply e 226 [] ?s = Some (?s\<lparr>ft_world := w2\<rparr>)" "card_of v w2 = card_of v w1"
      "out w2 = (out w1)(ft_c_sd s := out w1 (ft_c_sd s) @ ascii (dec 226 @ '' '' @ [] @ crlf))"
    using reply_delivers[OF tx l, of ?s] by auto
  have t226: "dec 226 = ''226''" by code_simp
  let ?t = "?s\<lparr>ft_world := w2, ft_state := E_FTP_STE_END_TRANSFER\<rparr>"
  have "ftp_run e dt s = Some (0, ?t)"
    using u rc(1) cl w2(1)
    by (simp add: ftp_run_def ftp_state_step_def ftp_rx_step_def dbuf_put_def ftp_close_files_dir_def ftp_fclose_def fcall_def
        ftp_substate_step_def ftp_check_data_def)
  moreover have "cv_file v q w2 = Some c" using card_of_eq[OF w2(2)] c1 by simp
  moreover have "out w2 = (out (ft_world s))(ft_c_sd s := out (ft_world s) (ft_c_sd s) @ ascii (''226 '' @ crlf))"
    using w2(3) w1 rc(3) by (simp add: t226)
  ultimately show ?thesis by (intro exI[of _ 0] exI[of _ ?t]) simp
qed


section \<open>A concrete server\<close>

text \<open>
  The card of \<open>DemoCard\<close> together with what has been sent on each socket and what is still to
  come on the data connection, socket 7; the client deletes a file whenever it is asked for a
  command.
\<close>

type_synonym demo_net = "card \<times> (int \<Rightarrow> bytes) \<times> bytes"

definition on_card :: "(card \<Rightarrow> 'a \<times> card) \<Rightarrow> demo_net \<Rightarrow> 'a \<times> demo_net" where
  "on_card f w = (case f (fst w) of (x, c) \<Rightarrow> (x, (c, snd w)))"

definition demo_net_io :: "demo_net stdio" where
  "demo_net_io =
     \<lparr>f_open_r = (\<lambda>p. on_card (f_open_r demo_stdio p)), f_open_w = (\<lambda>p. on_card (f_open_w demo_stdio p)),
      f_read = (\<lambda>f off n w. f_read demo_stdio f off n (fst w)), f_error = (\<lambda>f w. False),
      f_write = (\<lambda>f d. on_card (f_write demo_stdio f d)), f_close = (\<lambda>f. on_card (f_close demo_stdio f))\<rparr>"

definition demo_net_view :: "demo_net card_view" where
  "demo_net_view = \<lparr>cv_canon = map tolower, cv_file = (\<lambda>q w. card_file q (fst w)), cv_str = (\<lambda>f w. card_stream f (fst w))\<rparr>"

definition demo_client :: bytes where
  "demo_client = ascii (''DELE /x'' @ crlf)"

definition demo_ftp :: "demo_net ftp_env" where
  "demo_ftp =
     \<lparr>fn_socket = (\<lambda>w. (5, w)), fn_bind_listen = (\<lambda>sd p w. (True, w)), fn_accept = (\<lambda>sd w. ((6, False), w)),
      fn_local_ip = (\<lambda>sd w. 0), fn_nonblock = (\<lambda>sd w. w),
      fn_send = (\<lambda>sd d w. ((int (length d), False), (fst w, (fst (snd w))(sd := fst (snd w) sd @ d), snd (snd w)))),
      fn_recv = (\<lambda>sd n w. ((if n < 9 then [] else demo_client, False), w)), fn_close = (\<lambda>sd w. w),
      fe_io = demo_net_io, fe_open_a = (\<lambda>p w. (Inl EACCES, w)),
      fe_fs = \<lparr>v_open = (\<lambda>p fl w. (Inl EACCES, w)), v_read = (\<lambda>f n w. (Inl EBADF, w)), v_write = (\<lambda>f d w. (Inl EBADF, w)),
        v_close = (\<lambda>f w. w), v_lseek = (\<lambda>f o' s w. (Inl EBADF, w)), v_stat = (\<lambda>p w. v_stat demo_vfs p (fst w)),
        v_mkdir = (\<lambda>p w. (Some EACCES, w)), v_rmdir = (\<lambda>p w. (Some EACCES, w)), v_unlink = (\<lambda>p. on_card (v_unlink demo_vfs p)),
        v_rename = (\<lambda>a b w. (Some EACCES, w)), v_opendir = (\<lambda>p w. (Inl ENOENT, w)), v_closedir = (\<lambda>d w. w)\<rparr>,
      fe_now = (\<lambda>w. 0), fe_date = (\<lambda>o' t. []), fe_stamp = (\<lambda>t. []), fe_malloc = (\<lambda>n w. True),
      fe_heap = (\<lambda>n w. replicate n 0), fe_disk = (\<lambda>w. demo_env)\<rparr>"

definition demo_ftp_start :: "demo_net ftp" where
  "demo_ftp_start =
     \<lparr>ft_world = (demo_card [(''/sd/x'', [1, 2, 3])], (\<lambda>_. []), []), ft_disk = demo_disk, ft_stop = False, ft_buff_size = 2,
      ft_root = ''/sd'', ft_guarded = True, ft_refused = False, ft_user = ''fdc'', ft_pass = ''secret'', ft_path = ''/'',
      ft_scratch = [], ft_nlist = False, ft_dbuf = [0, 0, 0], ft_ctimeout = 0, ft_ptr = NullPtr, ft_lc_sd = -1, ft_ld_sd = -1,
      ft_c_sd = -1, ft_d_sd = -1, ft_dtimeout = 0, ft_ip_addr = 0, ft_state = E_FTP_STE_START,
      ft_substate = E_FTP_STE_SUB_DISCONNECTED, ft_txretries = 0, ft_logginretries = 0, ft_uservalid = False,
      ft_passvalid = False, ft_e_open = E_FTP_NOTHING_OPEN, ft_closechild = False, ft_enabled = True, ft_listroot = False,
      ft_total = 0, ft_time = 0, ft_m_path = LiveBlock, ft_m_cmd = LiveBlock, ft_m_dbuf = LiveBlock, ft_m_scratch = LiveBlock\<rparr>"

lemma demo_net_keeps: "net_keeps fst demo_ftp" "net_keeps (card_of demo_net_view) demo_ftp"
  by (simp_all add: net_keeps_def demo_ftp_def card_of_def demo_net_view_def)

lemma demo_no_password: "no_password pw demo_ftp"
proof -
  have "snd (ftp_command_line []) = None" "snd (ftp_command_line demo_client) = Some E_FTP_CMD_DELE"
    "length demo_client = 9" by code_simp+
  then show ?thesis by (auto simp: no_password_def demo_ftp_def)
qed


lemma ftp_mounted_image_kept_witness:
  "ftp_dele demo_ftp ''a.dsk'' demo_ftp_start =
     ftp_send_reply demo_ftp 550 FTP_GUARD_MSG
       (demo_ftp_start\<lparr>ft_scratch := ''a.dsk'', ft_path := ''/a.dsk'', ft_closechild := True, ft_refused := True\<rparr>)"
proof -
  let ?s1 = "demo_ftp_start\<lparr>ft_scratch := ''a.dsk'', ft_path := ''/a.dsk'', ft_closechild := True\<rparr>"
  have "ftp_skip_options ''a.dsk'' = ''a.dsk''" by (simp add: ftp_skip_options.simps)
  then have g: "ftp_get_param_and_open_child ''a.dsk'' demo_ftp_start = Some ?s1"
    by (simp add: ftp_get_param_and_open_child_def ftp_open_child_def ftp_set_path_def open_child_def demo_ftp_start_def)
  have d: "0 \<le> fst (disk_change_begin (fe_disk demo_ftp (ft_world demo_ftp_start)) ''/sd/a.dsk'' (ft_disk demo_ftp_start))"
    using demo_guard by (simp add: demo_ftp_def demo_ftp_start_def)
  have p: "ft_guarded demo_ftp_start" "fullname ?s1 (ft_path ?s1) = Some ''/sd/a.dsk''" "ftp_ends_plain (ft_path ?s1)"
    by (simp_all add: demo_ftp_start_def fullname_def ftp_ends_plain_def)
  from ftp_mounted_image_kept[OF p(1) g d] p(2,3) show ?thesis by simp
qed

text \<open>A download of three bytes through a buffer of two.\<close>

definition demo_ftp_download :: "demo_net ftp" where
  "demo_ftp_download = demo_ftp_start\<lparr>ft_world := (snd (card_opened ''/sd/x'' (demo_card [(''/sd/x'', [1, 2, 3])])), (\<lambda>_. []), []),
     ft_state := E_FTP_STE_CONTINUE_FILE_TX, ft_substate := E_FTP_STE_SUB_DATA_CONNECTED, ft_ptr := FilePtr 3 0,
     ft_e_open := E_FTP_FILE_OPEN, ft_c_sd := 6, ft_d_sd := 7\<rparr>"

lemma on_card_eq: "on_card f w = (x, w') \<longleftrightarrow> snd w' = snd w \<and> f (fst w) = (x, fst w')"
  by (cases w; cases w'; cases "f (fst w)") (auto simp: on_card_def)

lemma demo_net_stdio_laws: "stdio_laws demo_net_view demo_net_io"
proof -
  have l: "law_open_r demo_view demo_stdio" "law_open_w demo_view demo_stdio" "law_read demo_view demo_stdio"
    "law_write demo_view demo_stdio" "law_close demo_view demo_stdio"
    using demo_stdio_laws by (simp_all add: stdio_laws_def)
  note v = demo_net_view_def demo_net_io_def on_card_eq same_files_def same_streams_def opened_def demo_view_def
  have "law_open_r demo_net_view demo_net_io"
    using l(1) unfolding law_open_r_def by (auto simp: v)
  moreover have "law_open_w demo_net_view demo_net_io"
    using l(2) unfolding law_open_w_def by (auto simp: v)
  moreover have "law_read demo_net_view demo_net_io"
    using l(3) unfolding law_read_def by (auto simp: v)
  moreover have "law_write demo_net_view demo_net_io"
    using l(4) unfolding law_write_def by (auto simp: v)
  moreover have "law_close demo_net_view demo_net_io"
    using l(5) unfolding law_close_def by (auto simp: v)
  ultimately show ?thesis by (simp add: stdio_laws_def)
qed

lemma demo_tx_laws: "tx_laws demo_net_view (\<lambda>w. fst (snd w)) demo_ftp"
proof -
  have "delivers (\<lambda>w. fst (snd w)) demo_ftp" by (simp add: delivers_def demo_ftp_def)
  moreover have "fe_io demo_ftp = demo_net_io" by (simp add: demo_ftp_def)
  moreover have "snd (snd (f_close demo_net_io f w)) = snd w \<and> \<not> f_error demo_net_io f w" for f w
    by (simp add: demo_net_io_def on_card_def split: prod.splits)
  ultimately show ?thesis using demo_net_stdio_laws demo_net_keeps(2) by (simp add: tx_laws_def)
qed


text \<open>An upload of three bytes to the file of three, through a buffer of two.\<close>

definition demo_ftp_upload :: "demo_net ftp" where
  "demo_ftp_upload = demo_ftp_download\<lparr>ft_world := (fst (ft_world demo_ftp_download), (\<lambda>_. []), [7, 8, 9]),
     ft_state := E_FTP_STE_CONTINUE_FILE_RX\<rparr>"

definition demo_ftp_peer :: "demo_net ftp_env" where
  "demo_ftp_peer = demo_ftp\<lparr>fn_recv := (\<lambda>sd n w. ((take n (snd (snd w)), False), (fst w, fst (snd w), drop n (snd (snd w)))))\<rparr>"

lemma demo_writes:
  assumes "f_write demo_net_io f data w = (n, w')"
  shows "snd w' = snd w" "card_stream f (fst w) = Some q \<Longrightarrow> card_file q (fst w) = Some d \<Longrightarrow>
    length (d @ data) < 4294967296 \<Longrightarrow> n = length data"
  using assms by (auto simp: demo_net_io_def on_card_eq demo_stdio_def split: option.splits if_splits)

lemma demo_rx_laws: "rx_laws demo_net_view (\<lambda>w. fst (snd w)) (\<lambda>w. snd (snd w)) 7 demo_ftp_peer"
proof -
  have p: "fe_io demo_ftp_peer = demo_net_io" "fn_send demo_ftp_peer = fn_send demo_ftp"
    by (simp_all add: demo_ftp_peer_def demo_ftp_def)
  have "net_keeps (card_of demo_net_view) demo_ftp_peer"
    by (simp add: net_keeps_def demo_ftp_peer_def demo_ftp_def card_of_def demo_net_view_def)
  then have "tx_laws demo_net_view (\<lambda>w. fst (snd w)) demo_ftp_peer"
    using demo_tx_laws p by (simp add: tx_laws_def delivers_def demo_ftp_def)
  then show ?thesis
    using demo_writes unfolding rx_laws_def p
    by (auto simp: demo_ftp_peer_def demo_ftp_def demo_net_view_def)
qed


end
