(* ===== verification/Boot.thy ===== *)
theory Boot
  imports Net FdcProps
begin

text \<open>
  Power-on: \<open>app_main\<close> of \<^verbatim>\<open>src/main.cpp\<close>, with the card's bring-up \<open>sd_mount\<close> of
  \<^verbatim>\<open>src/disk/sd.c\<close> and the start of the serial console of \<^verbatim>\<open>src/cli/cli.c\<close>. The modules'
  own initialisers are those of their theories (\<open>config_init\<close>, \<open>disk_init\<close>, \<open>disk_automount\<close>,
  \<open>fdc_init\<close>, \<open>net_init\<close>), run in the order of the code on one machine state; the calls into
  ESP-IDF are parameters. A failed \<^verbatim>\<open>ESP_ERROR_CHECK\<close> resets the chip: it is the \<open>Inl\<close> of the
  result. The lemmas: a card that rejects CMD59 is mounted like any other, a failed mount
  gives the bus back, and the order of the stops; the property: what was saved is what the
  drives, the log level and the baud rate are after the next power-on.
\<close>

section \<open>The card\<close>

record sd_state =
  sd_is_mounted :: bool
  sd_bus :: bool

definition sd_off :: sd_state where
  "sd_off = \<lparr>sd_is_mounted = False, sd_bus = False\<rparr>"

text \<open>
  \<open>sc_spi\<close> is what \<^verbatim>\<open>spi_bus_initialize\<close> returns, \<open>sc_cmd59\<close> the card's answer to CMD59, and
  \<open>sc_fat r\<close> what \<^verbatim>\<open>esp_vfs_fat_sdspi_mount\<close> returns when its CRC step returned \<open>r\<close>: the
  linker lets it call the wrapper below, which only logs a refusal.
\<close>

record sd_card_env =
  sc_spi :: esp_err
  sc_cmd59 :: esp_err
  sc_fat :: "esp_err \<Rightarrow> esp_err"

definition sdmmc_init_spi_crc :: "esp_err \<Rightarrow> esp_err" where
  "sdmmc_init_spi_crc cmd59 = ESP_OK"

definition sd_mount :: "sd_card_env \<Rightarrow> sd_state \<Rightarrow> esp_err \<times> sd_state" where
  "sd_mount c st =
     (if sd_is_mounted st then (ESP_OK, st)
      else if sc_spi c \<noteq> ESP_OK then (sc_spi c, st)
      else let st = st\<lparr>sd_bus := True\<rparr>;
               err = sc_fat c (sdmmc_init_spi_crc (sc_cmd59 c))
           in if err \<noteq> ESP_OK then (err, st\<lparr>sd_bus := False\<rparr>)
              else (ESP_OK, st\<lparr>sd_is_mounted := True\<rparr>))"

lemma card_without_crc: "sd_mount (c\<lparr>sc_cmd59 := r\<rparr>) st = sd_mount c st"
  by (simp add: sd_mount_def sdmmc_init_spi_crc_def)

lemma sd_mount_bus:
  "sd_bus st = sd_is_mounted st \<Longrightarrow> sd_mount c st = (err, st') \<Longrightarrow>
     sd_bus st' = sd_is_mounted st' \<and> sd_is_mounted st' = (err = ESP_OK)"
  by (auto simp: sd_mount_def Let_def split: if_splits)

lemma sd_mount_again: "sd_mount c st = (ESP_OK, st') \<Longrightarrow> sd_mount c2 st' = (ESP_OK, st')"
  by (auto simp: sd_mount_def Let_def split: if_splits)

section \<open>The lamps\<close>

text \<open>What the GPIO driver is told, in order; a level is \<open>True\<close> for 1.\<close>

datatype pin_event = Gpio_output "64 word" | Gpio_level nat bool | Delay_ms nat

abbreviation (input) PIN_LED_STATUS :: nat where "PIN_LED_STATUS \<equiv> 2"

definition kDriveLeds :: "nat list" where
  "kDriveLeds = [27, 14, 12, 13]"

definition led_mask :: "64 word" where
  "led_mask = fold (\<lambda>p m. or m (push_bit p 1)) kDriveLeds (push_bit PIN_LED_STATUS 1)"

definition leds_init :: "esp_err \<Rightarrow> pin_event list option" where
  "leds_init gpio =
     (if gpio \<noteq> ESP_OK then None
      else Some (Gpio_output led_mask # Gpio_level PIN_LED_STATUS False #
             List.map (\<lambda>p. Gpio_level p False) kDriveLeds))"

definition led_lamp_test :: "pin_event list" where
  "led_lamp_test = concat (List.map (\<lambda>p. [Gpio_level p True, Delay_ms 200, Gpio_level p False]) kDriveLeds)"

text \<open>The level a pin has after the events, from low.\<close>

definition pin_high :: "nat \<Rightarrow> pin_event list \<Rightarrow> bool" where
  "pin_high p evs = fold (\<lambda>ev l. case ev of Gpio_level q v \<Rightarrow> if q = p then v else l | _ \<Rightarrow> l) evs False"

lemma lamps_off_after_test:
  "leds_init gpio = Some evs \<Longrightarrow> \<not> pin_high p (evs @ led_lamp_test)"
  by (auto simp: leds_init_def led_lamp_test_def kDriveLeds_def pin_high_def split: if_splits)

lemma led_pins_configured:
  "List.filter (\<lambda>p. bit led_mask p) [0..<64] = [2, 12, 13, 14, 27]"
  by code_simp

section \<open>The serial console\<close>

record console_state =
  co_uart :: bool
  co_lock :: bool
  co_task :: bool

text \<open>
  \<open>install\<close> is what \<^verbatim>\<open>uart_driver_install\<close> returns, \<open>mtx\<close> and \<open>task\<close> say whether the lock and
  the task could be created. The task's creation is not checked, and a lock that could not
  be created is one that is not taken.
\<close>

definition cli_serial_start :: "esp_err \<Rightarrow> bool \<Rightarrow> bool \<Rightarrow> console_state \<Rightarrow> console_state option" where
  "cli_serial_start install mtx task st =
     (if \<not> co_uart st \<and> install \<noteq> ESP_OK then None
      else Some (st\<lparr>co_uart := True, co_lock := co_lock st \<or> mtx, co_task := task\<rparr>))"

section \<open>app_main\<close>

record ('s, 'w) boot_env =
  be_gpio :: esp_err
  be_card :: sd_card_env
  be_nvs :: "'s nvs_api"
  be_mtx :: bool
  be_rmtx :: bool
  be_jmtx :: bool
  be_queue :: bool
  be_diskio :: bool
  be_disk :: disk_env
  be_sems :: bool
  be_fdc :: bool
  be_uart :: esp_err
  be_txlock :: bool
  be_cli :: bool
  be_wifi :: "'w wifi_drv"
  be_net :: net_boot_env

record ('s, 'w) machine =
  m_pins :: "pin_event list"
  m_log :: byte
  m_sd :: sd_state
  m_cfg :: config_state
  m_nvs :: 's
  m_disk :: disk_state
  m_fdc :: fdc_state
  m_console :: console_state
  m_net :: net_state
  m_wifi :: 'w
  m_services :: "service list"

datatype boot_stop = Stop_leds | Stop_config | Stop_disk | Stop_fdc | Stop_console

text \<open>
  The store's environment during the automount: the card is there if \<open>sd_mount\<close> said so, the
  network is what \<^verbatim>\<open>net.c\<close>'s variables say.
\<close>

definition boot_disk_env :: "('s, 'w) boot_env \<Rightarrow> ('s, 'w) machine \<Rightarrow> disk_env" where
  "boot_disk_env e m =
     (be_disk e)\<lparr>e_sd_mounted := sd_is_mounted (m_sd m), e_net := net_is_connected (m_net m)\<rparr>"

definition app_main :: "('s, 'w) boot_env \<Rightarrow> ('s, 'w) machine \<Rightarrow> boot_stop + ('s, 'w) machine" where
  "app_main e m =
     (let m = m\<lparr>m_log := 2\<rparr>
      in case leds_init (be_gpio e) of
           None \<Rightarrow> Inl Stop_leds
         | Some evs \<Rightarrow>
      let m = m\<lparr>m_pins := m_pins m @ evs @ led_lamp_test\<rparr>;
          m = m\<lparr>m_sd := snd (sd_mount (be_card e) (m_sd m))\<rparr>
      in case config_init (be_nvs e) (m_nvs m) (m_cfg m) of
           None \<Rightarrow> Inl Stop_config
         | Some (rc, c, s) \<Rightarrow>
      if rc \<noteq> NVS_OK then Inl Stop_config
      else let cfg = s_cfg c;
               m = m\<lparr>m_cfg := c, m_nvs := s, m_log := log_level cfg\<rparr>
      in case disk_init (be_mtx e) (be_rmtx e) (be_jmtx e) (be_queue e) (be_diskio e) (m_disk m) of (err, d) \<Rightarrow>
      if err \<noteq> ESP_OK then Inl Stop_disk
      else let m = m\<lparr>m_disk := disk_automount (boot_disk_env e m) (cfg_drive cfg) d\<rparr>
      in case fdc_init (baud_rate cfg) (be_sems e) (be_fdc e) (m_fdc m) of (err, f) \<Rightarrow>
      if err \<noteq> ESP_OK then Inl Stop_fdc
      else let m = m\<lparr>m_fdc := f\<rparr>
      in case cli_serial_start (be_uart e) (be_txlock e) (be_cli e) (m_console m) of
           None \<Rightarrow> Inl Stop_console
         | Some co \<Rightarrow>
      let m = m\<lparr>m_console := co\<rparr>
      in case net_init (be_wifi e) (be_net e) cfg (m_net m, m_wifi m) of (err, (n, w), adv, svc) \<Rightarrow>
           Inr (m\<lparr>m_net := n, m_wifi := w, m_services := svc\<rparr>))"

section \<open>What the boot restores\<close>

text \<open>The file a configured name is mounted from, if a mount of it can succeed.\<close>

definition image_file :: "disk_env \<Rightarrow> (fobj \<Rightarrow> bytes) \<Rightarrow> string \<Rightarrow> nat option" where
  "image_file e fs nm =
     (if \<not> e_sd_mounted e \<or> \<not> e_seek_end e \<or> \<not> e_alloc e then None
      else case sd_path nm 145 of
             None \<Rightarrow> None
           | Some p \<Rightarrow> (case e_fopen e p of
                          None \<Rightarrow> None
                        | Some f \<Rightarrow> if length (fs (SdFile f)) < 2147483648 then Some f else None))"

text \<open>What a configured name becomes: nothing, a remote drive that waits for the network, an
  open image, or nothing again when the card does not have it.\<close>

definition slot_restored :: "disk_env \<Rightarrow> (fobj \<Rightarrow> bytes) \<Rightarrow> string \<Rightarrow> drive_t \<Rightarrow> bool" where
  "slot_restored e fs nm dr \<longleftrightarrow>
     (if nm = [] then dr = empty_drive
      else if tnfs_is_url nm
      then remote dr \<and> \<not> mounted dr \<and> backing_of dr = None \<and> dname dr = nm
      else case image_file e fs nm of
             None \<Rightarrow> dr = empty_drive
           | Some f \<Rightarrow> mounted dr \<and> \<not> remote dr \<and> \<not> readonly dr \<and> dname dr = nm \<and>
                       (\<exists>b. backing_of dr = Some b \<and> b_obj b = SdFile f \<and>
                            unat (b_size b) = length (fs (SdFile f))))"

lemma local_open_image:
  assumes "e_sd_mounted e"
  shows "image_file e (files st) nm = None \<Longrightarrow> \<exists>err. local_open e nm st = (Inl err, st)"
    and "image_file e (files st) nm = Some f \<Longrightarrow> \<exists>b. local_open e nm st = (Inr b, st\<lparr>next_id := next_id st + 1\<rparr>) \<and>
      b_obj b = SdFile f \<and> unat (b_size b) = length (files st (SdFile f))"
  using assms by (auto simp: image_file_def local_open_def Let_def unat_u32_of_nat
      split: option.splits if_splits)

lemma slot_empty_drive: "slot_empty empty_drive = empty_drive"
  by (simp add: slot_empty_def empty_drive_def)

lemma automount_one_slot:
  assumes "length (s_drv st) = 4" "i < 4" "s_drv st ! i = empty_drive" "length nm < 129"
  shows "slot_restored e (files st) nm (s_drv (automount_one e (i, nm) st) ! i)"
proof -
  have d: "drive_ok (int i)" "nat (int i) = i" using assms(2) by (simp_all add: drive_ok_def)
  note sw = slot_swap_drv[OF _ d(1) assms(2)]
  consider "nm = [] \<or> tnfs_is_url nm" | "nm \<noteq> []" "\<not> tnfs_is_url nm" "image_file e (files st) nm = None"
    | f where "nm \<noteq> []" "\<not> tnfs_is_url nm" "image_file e (files st) nm = Some f" by blast
  then show ?thesis
  proof cases
    case 1
    then show ?thesis
      using assms d by (auto simp: slot_restored_def automount_one_def set_drv_def slot_deferred_def empty_drive_def)
  next
    case 2
    have "snd (disk_mount e (int i) (Some nm) st) = slot_swap e (int i) slot_empty st"
      using 2 d local_open_image(1)[of e st nm]
      by (cases "e_sd_mounted e") (auto simp: disk_mount_def disk_unmount_def)
    then show ?thesis
      using 2 d assms by (simp add: slot_restored_def automount_one_def sw slot_empty_drive)
  next
    case (3 f)
    then have m: "e_sd_mounted e" by (simp add: image_file_def split: if_splits)
    obtain b where b: "local_open e nm st = (Inr b, st\<lparr>next_id := next_id st + 1\<rparr>)" "b_obj b = SdFile f"
      "unat (b_size b) = length (files st (SdFile f))" using local_open_image(2)[OF m 3(3)] by blast
    then obtain cn where "snd (disk_mount e (int i) (Some nm) st) =
        slot_swap e (int i) (slot_local b nm cn) (st\<lparr>next_id := next_id st + 1\<rparr>)"
      using 3 m d by (simp add: disk_mount_def Let_def)
    then show ?thesis
      using 3 d assms b by (simp add: slot_restored_def automount_one_def sw slot_local_def)
  qed
qed

lemma automount_one_rest:
  assumes "length (s_drv st) = 4" "i < 4"
  shows "length (s_drv (automount_one e (i, nm) st)) = 4" "files (automount_one e (i, nm) st) = files st"
    and "j < 4 \<Longrightarrow> j \<noteq> i \<Longrightarrow> s_drv (automount_one e (i, nm) st) ! j = s_drv st ! j"
proof -
  have d: "drive_ok (int i)" "nat (int i) = i" using assms(2) by (simp_all add: drive_ok_def)
  have m: "length (s_drv st') = 4 \<and> files st' = files st \<and> (j < 4 \<longrightarrow> j \<noteq> i \<longrightarrow> s_drv st' ! j = s_drv st ! j)"
    if "\<not> tnfs_is_url nm" "nm \<noteq> []" "disk_mount e (int i) (Some nm) st = (err, st')" for err st'
    using disk_mount_local_cases[OF that(1) d(1) that(2,3)] assms(1) d(2)
    by (auto simp: slot_swap_rest slot_swap_drv[OF _ d(1)] dest!: local_open_ok(4))
  have "length (s_drv (automount_one e (i, nm) st)) = 4 \<and> files (automount_one e (i, nm) st) = files st \<and>
      (j < 4 \<longrightarrow> j \<noteq> i \<longrightarrow> s_drv (automount_one e (i, nm) st) ! j = s_drv st ! j)"
    using m[of "fst (disk_mount e (int i) (Some nm) st)" "snd (disk_mount e (int i) (Some nm) st)"] assms d(2)
    by (simp add: automount_one_def set_drv_def)
  then show "length (s_drv (automount_one e (i, nm) st)) = 4" "files (automount_one e (i, nm) st) = files st"
    "j < 4 \<Longrightarrow> j \<noteq> i \<Longrightarrow> s_drv (automount_one e (i, nm) st) ! j = s_drv st ! j" by simp_all
qed

lemma automount_fold:
  fixes e :: disk_env
  assumes "length names = 4" "\<forall>nm \<in> set names. length nm < 129" "n \<le> 4"
    and "length (s_drv st) = 4" "\<forall>i<4. s_drv st ! i = empty_drive"
  defines "st' \<equiv> fold (automount_one e) (zip [0..<n] (take n names)) st"
  shows "length (s_drv st') = 4 \<and> files st' = files st \<and> (\<forall>i<4. if i < n
      then slot_restored e (files st) (names ! i) (s_drv st' ! i) else s_drv st' ! i = empty_drive)"
  using assms(3) unfolding st'_def
proof (induction n)
  case (Suc n)
  let ?s = "fold (automount_one e) (zip [0..<n] (take n names)) st"
  have f: "fold (automount_one e) (zip [0..<Suc n] (take (Suc n) names)) st = automount_one e (n, names ! n) ?s"
    using Suc(2) assms(1) by (simp add: take_Suc_conv_app_nth)
  have n: "n < 4" "length (names ! n) < 129" using Suc(2) assms(1,2) by auto
  from Suc have ih: "length (s_drv ?s) = 4" "files ?s = files st" "\<forall>i<4. if i < n
      then slot_restored e (files st) (names ! i) (s_drv ?s ! i) else s_drv ?s ! i = empty_drive" by auto
  then have "s_drv ?s ! n = empty_drive" using n by auto
  note new = automount_one_slot[OF ih(1) n(1) this n(2), where e = e]
    and rest = automount_one_rest[OF ih(1) n(1), where e = e and nm = "names ! n"]
  show ?case unfolding f
    using new rest ih by (auto simp: less_Suc_eq)
qed (use assms(4,5) in simp)

lemma automount_restores:
  assumes "length names = 4" "\<forall>nm \<in> set names. length nm < 129"
    and "length (s_drv st) = 4" "\<forall>i<4. s_drv st ! i = empty_drive" "i < 4"
  shows "slot_restored e (files st) (names ! i) (s_drv (disk_automount e names st) ! i)"
    "files (disk_automount e names st) = files st"
  using automount_fold[OF assms(1,2) order_refl assms(3,4), where e = e] assms(1,5)
  by (simp_all add: disk_automount_def)

section \<open>Properties\<close>

text \<open>What the boot cannot do without; the card, the network, the console's lock and task it can.\<close>

definition boot_resources :: "('s, 'w) boot_env \<Rightarrow> bool" where
  "boot_resources e \<longleftrightarrow>
     be_gpio e = ESP_OK \<and> be_mtx e \<and> be_rmtx e \<and> be_jmtx e \<and> be_queue e \<and> be_diskio e \<and> be_sems e \<and>
     be_fdc e \<and> be_uart e = ESP_OK"

text \<open>The store's variables before \<open>disk_init\<close>; the card holds \<open>fs\<close>.\<close>

definition disk_off :: "(fobj \<Rightarrow> bytes) \<Rightarrow> disk_state" where
  "disk_off fs = (disk_boot fs)\<lparr>s_lock := False, s_mount_lock := False, s_job_mtx := False, s_rq := None\<rparr>"

lemma disk_init_off: "disk_init True True True True True (disk_off fs) = (ESP_OK, disk_boot fs)"
  by (simp add: disk_init_def disk_off_def disk_boot_def Let_def)

lemma disk_boot_drives: "length (s_drv (disk_boot fs)) = 4" "\<forall>i<4. s_drv (disk_boot fs) ! i = empty_drive"
  "files (disk_boot fs) = fs"
  by (simp_all add: disk_boot_def nth_Cons')

lemma image_file_env [simp]: "image_file (e\<lparr>e_sd_mounted := b, e_net := n\<rparr>) = image_file (e\<lparr>e_sd_mounted := b\<rparr>)"
  by (intro ext) (simp add: image_file_def cong: option.case_cong)

lemma slot_restored_env [simp]:
  "slot_restored (e\<lparr>e_sd_mounted := b, e_net := n\<rparr>) = slot_restored (e\<lparr>e_sd_mounted := b\<rparr>)"
  by (intro ext) (simp add: slot_restored_def)

lemma sd_mount_ok: "sd_is_mounted (snd (sd_mount c st)) \<longleftrightarrow> fst (sd_mount c st) = ESP_OK \<or> sd_is_mounted st"
  by (simp add: sd_mount_def Let_def)

lemma sd_mount_mounted: "sd_is_mounted st \<Longrightarrow> fst (sd_mount c st) = ESP_OK"
  by (simp add: sd_mount_def)

text \<open>
  Whatever the card and the network do, they cannot stop the boot: with other ones it stops at
  the same place, or nowhere too.
\<close>

lemma boot_needs_no_card_or_network:
  "(case app_main e m of Inl p \<Rightarrow> Some p | Inr _ \<Rightarrow> None) =
     (case app_main (e\<lparr>be_card := c, be_wifi := wd, be_net := b\<rparr>) m of Inl p \<Rightarrow> Some p | Inr _ \<Rightarrow> None)"
  by (simp add: app_main_def Let_def split: option.split prod.split)

text \<open>
  C24. A power cycle keeps the setup: after a \<open>config_save\<close> that reported success, \<open>app_main\<close>
  on the memory of a chip just powered on comes to its end with the saved configuration,
  clean, with the saved log level and baud rate in force, the card's files untouched and each
  of the four drives restored: no name leaves the drive empty, a TNFS address makes it a
  remote drive waiting for the network, and a file name opens that file with its whole
  length, or leaves the drive empty when the card is missing or does not have it. A card
  that cannot be mounted and a network that cannot be started change nothing else.
\<close>

theorem boot_restores_setup:
  fixes e :: "('s, 'w) boot_env"
  assumes "nvs_laws (be_nvs e)" "config_wf (s_cfg cs)" "config_save (be_nvs e) s cs = (NVS_OK, cs', s')"
    and "fst (nvs_flash_init (be_nvs e) s') = NVS_OK"
    and "nvs_open_ro (be_nvs e) (snd (nvs_flash_init (be_nvs e) s')) = NVS_OK"
    and "boot_resources e" "m_nvs m = s'" "m_disk m = disk_off fs"
  shows "\<exists>m'. app_main e m = Inr m' \<and> s_cfg (m_cfg m') = s_cfg cs \<and> \<not> s_dirty (m_cfg m') \<and>
    m_log m' = log_level (s_cfg cs) \<and> s_baud (m_fdc m') = baud_rate (s_cfg cs) \<and> files (m_disk m') = fs \<and>
    (\<forall>i<4. slot_restored ((be_disk e)\<lparr>e_sd_mounted := (fst (sd_mount (be_card e) (m_sd m)) = ESP_OK)\<rparr>) fs
             (cfg_drive (s_cfg cs) ! i) (s_drv (m_disk m') ! i))"
proof -
  note boot = config_save_boot[OF assms(1-5), of "m_cfg m"]
  have sd: "sd_is_mounted (snd (sd_mount (be_card e) (m_sd m))) = (fst (sd_mount (be_card e) (m_sd m)) = ESP_OK)"
    using sd_mount_ok sd_mount_mounted by blast
  have names: "length (cfg_drive (s_cfg cs)) = 4" "\<forall>nm \<in> set (cfg_drive (s_cfg cs)). length nm < 129"
    using assms(2) by (simp_all add: config_wf_def)
  let ?de = "(be_disk e)\<lparr>e_sd_mounted := (fst (sd_mount (be_card e) (m_sd m)) = ESP_OK), e_net := net_is_connected (m_net m)\<rparr>"
  note auto = automount_restores[OF names disk_boot_drives(1,2), where e = ?de, unfolded disk_boot_drives(3)]
  have "files (disk_automount ?de (cfg_drive (s_cfg cs)) (disk_boot fs)) = fs" using auto(2)[of 0] by simp
  then show ?thesis
    using assms(6-8) auto(1)
    by (simp add: app_main_def boot_resources_def leds_init_def boot disk_init_off fdc_init_def
        cli_serial_start_def boot_disk_env_def sd Let_def split: prod.split)
qed

definition demo_boot_env :: "(string \<rightharpoonup> nvs_val, unit) boot_env" where
  "demo_boot_env =
     \<lparr>be_gpio = ESP_OK, be_card = \<lparr>sc_spi = ESP_OK, sc_cmd59 = ESP_ERR_INVALID_STATE, sc_fat = (\<lambda>r. r)\<rparr>,
      be_nvs = flash_ok, be_mtx = True, be_rmtx = True, be_jmtx = True, be_queue = True, be_diskio = True,
      be_disk = demo_env, be_sems = True, be_fdc = True, be_uart = ESP_OK, be_txlock = True, be_cli = True,
      be_wifi = \<lparr>w_set_config = (\<lambda>s p a w. (ESP_OK, w)), w_start = (\<lambda>w. (ESP_OK, w)), w_stop = (\<lambda>w. w),
                 w_connect = (\<lambda>w. w), w_disconnect = (\<lambda>w. w), w_set_hostname = (\<lambda>n w. w), w_ap = (\<lambda>w. None),
                 w_sntp_init = (\<lambda>w. (ESP_OK, w)), w_setenv_tz = (\<lambda>z w. w)\<rparr>,
      be_net = \<lparr>nb_group = False, nb_netif = ESP_OK, nb_loop = ESP_OK, nb_sta = True, nb_wifi = ESP_OK,
                nb_mode = ESP_OK, nb_mdns = True\<rparr>\<rparr>"

definition demo_setup :: config_state where
  "demo_setup =
     \<lparr>s_cfg = config_defaults\<lparr>log_level := 4, cfg_drive := [[], ''a.dsk'', ''tnfs://h/b.dsk'', []]\<rparr>,
      s_dirty = True, s_loaded = True\<rparr>"

definition demo_machine :: "(string \<rightharpoonup> nvs_val) \<Rightarrow> (string \<rightharpoonup> nvs_val, unit) machine" where
  "demo_machine s =
     \<lparr>m_pins = [], m_log = 3, m_sd = sd_off,
      m_cfg = \<lparr>s_cfg = config_defaults, s_dirty = False, s_loaded = False\<rparr>, m_nvs = s,
      m_disk = disk_off demo_files, m_fdc = demo_fdc (replicate 10 0) [],
      m_console = \<lparr>co_uart = False, co_lock = False, co_task = False\<rparr>, m_net = net_boot, m_wifi = (),
      m_services = []\<rparr>"

theorem boot_restores_setup_witness:
  "\<exists>m'. app_main demo_boot_env (demo_machine (snd (snd (config_save flash_ok Map.empty demo_setup)))) = Inr m' \<and>
     mounted (s_drv (m_disk m') ! 1) \<and> dname (s_drv (m_disk m') ! 1) = ''a.dsk'' \<and>
     remote (s_drv (m_disk m') ! 2) \<and> \<not> mounted (s_drv (m_disk m') ! 2) \<and> m_log m' = 4"
proof -
  obtain cs' s' where sv: "config_save flash_ok Map.empty demo_setup = (NVS_OK, cs', s')"
    using flash_ok_save by blast
  have wf: "config_wf (s_cfg demo_setup)"
    by (simp add: demo_setup_def config_wf_def config_defaults_def)
  have api: "be_nvs demo_boot_env = flash_ok" by (simp add: demo_boot_env_def)
  have res: "boot_resources demo_boot_env" by (simp add: boot_resources_def demo_boot_env_def)
  have sd: "fst (sd_mount (be_card demo_boot_env) (m_sd (demo_machine s'))) = ESP_OK"
    by (simp add: sd_mount_def demo_boot_env_def demo_machine_def sd_off_def sdmmc_init_spi_crc_def)
  have flash: "fst (nvs_flash_init flash_ok s') = NVS_OK" "nvs_open_ro flash_ok (snd (nvs_flash_init flash_ok s')) = NVS_OK"
    by (simp_all add: flash_ok_def)
  have dm: "m_nvs (demo_machine s') = s'" "m_disk (demo_machine s') = disk_off demo_files"
    by (simp_all add: demo_machine_def)
  have img: "image_file ((be_disk demo_boot_env)\<lparr>e_sd_mounted := True\<rparr>) demo_files ''a.dsk'' = Some 0"
    by (simp add: image_file_def demo_boot_env_def demo_env_def sd_path_def segments_ok.simps demo_files_def)
  have url: "\<not> tnfs_is_url ''a.dsk''" "tnfs_is_url ''tnfs://h/b.dsk''"
    by (simp_all add: tnfs_is_url_def strncaseeq_def strcaseeq_def tolower_def)
  have lg: "log_level (s_cfg demo_setup) = 4" by (simp add: demo_setup_def)
  obtain m' where m: "app_main demo_boot_env (demo_machine s') = Inr m'" "m_log m' = log_level (s_cfg demo_setup)"
    "\<forall>i<4. slot_restored ((be_disk demo_boot_env)\<lparr>e_sd_mounted := True\<rparr>) demo_files
       (cfg_drive (s_cfg demo_setup) ! i) (s_drv (m_disk m') ! i)"
    using boot_restores_setup[of demo_boot_env demo_setup Map.empty cs' s' "demo_machine s'" demo_files,
        unfolded api sd, OF flash_ok_laws wf sv flash(1) flash(2) res dm]
    by auto
  have "slot_restored ((be_disk demo_boot_env)\<lparr>e_sd_mounted := True\<rparr>) demo_files ''a.dsk'' (s_drv (m_disk m') ! 1)"
    "slot_restored ((be_disk demo_boot_env)\<lparr>e_sd_mounted := True\<rparr>) demo_files ''tnfs://h/b.dsk'' (s_drv (m_disk m') ! 2)"
    using m(3)[rule_format, of 1] m(3)[rule_format, of 2] by (simp_all add: demo_setup_def)
  then show ?thesis
    using m(1,2) lg by (auto simp: sv slot_restored_def url img)
qed

end
