(* ===== verification/Spec2Isabelle.thy ===== *)
theory Spec2Isabelle
  imports Protocol Wildcard SdPath ConfigStore TnfsUrl DiskWorker RemoteJobs FdcSession TnfsFraming TnfsLive RemoteDrive
    Telnet FdcListener BatchProps ImageGuard OtaProps Secrets FtpTransfer Boot
begin

text \<open>
  A verification library for the FDC+ serial disk server firmware (an ESP32 that serves the
  Altair's FDC+ disk controller over a serial line or TCP from images on an SD card or on TNFS
  servers, and is itself a TNFS server). The theories follow the sources under \<^verbatim>\<open>src/src\<close> and
  \<^verbatim>\<open>src/include\<close> file by file.

  The parts and how they meet. The FDC engine (\<^verbatim>\<open>fdc/fdc.c\<close>) receives ten-byte command blocks on
  the UART or on a TCP connection that the listener (\<^verbatim>\<open>net/fdc_tcp.c\<close>) hands it, answers STAT from
  the mount table and READ and WRIT from \<^verbatim>\<open>disk_read_track\<close> and \<^verbatim>\<open>disk_write_track\<close>. The disk store
  (\<^verbatim>\<open>disk/disk.c\<close>) holds four drives, a cache of one track and a queue of jobs for the worker task
  that does the network transfers of remote drives through the TNFS client (\<^verbatim>\<open>net/tnfs.c\<close>). The
  TNFS server (\<^verbatim>\<open>net/tnfs_server.c\<close>), the FTP server (\<^verbatim>\<open>lib/esp-idf-ftpServer\<close>, started by
  \<^verbatim>\<open>net/ftp.c\<close>) and the command line change files of the card and ask the disk store first whether
  the file is a mounted image. The command line (\<^verbatim>\<open>cli/\<close>) serves the serial console and, through
  \<^verbatim>\<open>net/console.c\<close>, Telnet; its commands reach every other part: files, mounts, settings, WiFi
  (\<^verbatim>\<open>net/net.c\<close>), HTTP downloads (\<^verbatim>\<open>net/http.c\<close>) and updates (\<^verbatim>\<open>net/ota.c\<close>). The configuration
  (\<^verbatim>\<open>config/config.c\<close>) is a RAM copy of the NVS flash.

  Theories, state and operations.
  \<^item> \<open>SdsPrelude\<close>: widths, \<^verbatim>\<open>esp_err_t\<close>, C strings, slices of files. \<open>Vfs\<close>: the calls on the card,
    POSIX and stdio, as records \<open>vfs\<close> and \<open>stdio\<close> of functions on a world.
  \<^item> \<open>Protocol\<close>: \<^verbatim>\<open>include/protocol.h\<close>, checksum, blocks, track arithmetic on 32-bit words.
  \<^item> \<open>Wildcard\<close>, \<open>SdPath\<close>, \<open>TnfsUrl\<close>: \<^verbatim>\<open>include/wildcard.h\<close>; \<^verbatim>\<open>sd_path\<close> and \<^verbatim>\<open>sd_canonical\<close>
    of \<^verbatim>\<open>disk/sd.c\<close>; the URL parser of \<^verbatim>\<open>net/tnfs.c\<close>.
  \<^item> \<open>ConfigStore\<close>: \<^verbatim>\<open>config/config.c\<close> over the NVS interface \<open>nvs_api\<close>.
  \<^item> \<open>DiskStore\<close> (model), \<open>DiskStoreProps\<close> (invariant, one operation at a time), \<open>DiskWorker\<close>
    (every interleaving of the tasks with the worker's phases, ownership of backings), \<open>RemoteJobs\<close>
    (the handover of jobs between the tasks and the worker, at each access to shared memory):
    \<^verbatim>\<open>disk/disk.c\<close>. The record \<open>disk_state\<close> is the module's statics, \<open>disk_env\<close> what is outside.
  \<^item> \<open>FdcEngine\<close> (model) and \<open>FdcProps\<close> (handlers, replies, counters): \<^verbatim>\<open>fdc/fdc.c\<close>. Received
    bytes are scripts of events, sent bytes a log. \<open>FdcSession\<close>: two turns of the engine together,
    a write and the read after it. \<open>FdcListener\<close>: \<^verbatim>\<open>net/fdc_tcp.c\<close> interleaved with
    the engine's task.
  \<^item> \<open>TnfsProto\<close>: \<^verbatim>\<open>include/tnfs_proto.h\<close>. \<open>TnfsServer\<close> (model), \<open>TnfsServerProps\<close> (the contract
    \<open>tn_handler\<close> every handler meets), \<open>TnfsServerRun\<close> (invariant of a run, replay cache) and
    \<open>TnfsServerSpec\<close> (what the server promises): \<^verbatim>\<open>net/tnfs_server.c\<close>.
  \<^item> \<open>TnfsClient\<close> (model), \<open>TnfsTransfer\<close> (reads and writes over the interface \<open>served_file\<close>),
    \<open>TnfsFraming\<close> (how replies are delimited and decoded): \<^verbatim>\<open>net/tnfs.c\<close>. The sockets are the
    record \<open>net\<close> of functions.
  \<^item> \<open>TnfsLink\<close> (client and server joined by a network that loses, repeats and delays
    datagrams; \<open>served_file\<close> interpreted on it), \<open>TnfsLinkProps\<close> and \<open>TnfsLive\<close> (what transfers
    guarantee end to end, and when commands are answered). \<open>RemoteDrive\<close>: a READ of a remote drive
    through the engine, the store, the worker, the client, the network and the server.
  \<^item> \<open>Net\<close>: \<^verbatim>\<open>net/net.c\<close>, its events, the WiFi switch and the boot. \<open>Cli\<close> and \<open>CliProps\<close>:
    \<^verbatim>\<open>cli/cli.c\<close>, with consoles as the record \<open>console\<close>. \<open>Telnet\<close>: \<^verbatim>\<open>net/console.c\<close>.
  \<^item> \<open>Shell\<close>: what the commands share, with the record \<open>shell\<close> of the whole device as a command
    sees it, its surroundings \<open>sh_env\<close>, and \<^verbatim>\<open>net/http.c\<close>. \<open>FileCommands\<close>, \<open>CopyCommands\<close>,
    \<open>ConfigCommands\<close>, \<open>CommandTable\<close>, \<open>Reports\<close> and \<open>Batch\<close>: \<^verbatim>\<open>cli/commands.c\<close>; \<open>Ota\<close>:
    \<^verbatim>\<open>net/ota.c\<close>. A handler maps the arguments and the shell to the return code and the shell.
  \<^item> \<open>CommandFrame\<close> (one walk through every command for a property that survives it), \<open>ImageGuard\<close>
    (mounted images survive every command), \<open>BatchProps\<close> (batch files end), \<open>CardFiles\<close>
    (the laws of stdio and of the update calls as views of the card), \<open>DemoCard\<close> (a card with
    these laws), \<open>CopyProps\<close>, \<open>OtaProps\<close>, and \<open>Secrets\<close> (passwords are not shown).
  \<^item> \<open>FtpServer\<close> (model), \<open>FtpProps\<close> (login, change guard, working folder) and \<open>FtpTransfer\<close>
    (downloads and uploads): \<^verbatim>\<open>lib/esp-idf-ftpServer/ftp.c\<close> and \<^verbatim>\<open>net/ftp.c\<close>. A step gives \<open>None\<close>
    where the C program has undefined behaviour.
  \<^item> \<open>Boot\<close>: \<^verbatim>\<open>main.cpp\<close>, the initialisers above in their order on the record \<open>machine\<close>, the
    card's mount of \<^verbatim>\<open>disk/sd.c\<close> and the lamp test.

  What the lemmas show. The disk store's invariant \<open>disk_inv\<close> says every backing is well formed
  and the cached track is the image's; it holds in every interleaving, so a cache hit is never
  stale, and reads and writes have their exact effect or report an error. The FDC engine sends a
  track with its checksum or nothing, commits a WRIT exactly when its reply says so, and ignores
  corrupted commands; what a host wrote it reads back over the wire. A remote job is freed once,
  whoever gives up on it first. The server runs each request once, keeps clients apart, stays under its
  root and gives back every descriptor. The client's successful reads and writes are those of the
  file on the server, whatever the network does, as long as no earlier command timed out; after
  a timeout a sequence number is reused and \<open>seek_replayed_after_timeout\<close> shows a read that
  returns wrong bytes with success. So the controller's READ of a remote drive is answered with
  the bytes of the server's file or not at all. A console line is edited and split as the
  terminal shows it; every command line ends, however batch files call each other; a copy that
  reports success is exact; an update makes a validated image bootable or changes nothing; no command prints a
  password; neither the network servers nor a console command changes a mounted image,
  except that an update from a mounted \<^verbatim>\<open>firmware.bin\<close> deletes it. Without the password the FTP
  server does nothing; its transfers are exact when the connection works. A power cycle after a
  successful save brings back the configuration and the drives, with or without network.

  Interfaces as locales: \<open>backing_ops\<close> (a transfer with an image; the local file and, as the
  hypothesis \<open>env_ok\<close>, the remote one), \<open>tn_handler\<close> (a request handler of the server),
  \<open>served_file\<close> (what the client needs of the other end), and those of the FDC links and the
  flash, and \<open>command_inv\<close> with its extension \<open>command_inv_disk\<close> (what a property must survive for
  every command to keep it). Each is interpreted on the model's own definitions.

  Bounds and fuel. \<open>sid_loop\<close> has fuel 4, which \<open>session_id_search_ends\<close> proves to be enough;
  \<open>tcp_cstr\<close> counts down the room of the response buffer; the listing loops of the client may run
  for ever and are partial functions. Loops over a file of the card end because a FAT file has
  fewer than \<open>2 ^ 32\<close> bytes, which is the measure of their recursion. A command line that runs batch
  files is unfolded to five levels, one more than the code's limit; \<open>batch_nesting_ends\<close> proves
  that more levels give the same result. A send of the FTP server is tried 201 times, as the
  code's count of ticks says. Received data is finite: a receive that finds none is the timeout
  of the code. Integers have the widths of the code; lengths that are bounded by buffers are
  natural numbers.

  Not modelled: tasks' stacks and priorities, timers' hardware, the UART driver, lwIP and FATFS
  beyond the interfaces above; WiFi, mDNS and SNTP, the HTTP client and the update calls, which
  are parameters with the behaviour ESP-IDF documents; the text of log
  lines; the set-up of the SPI bus and of the console's UART beyond the error they return.
\<close>

end
